(* ===== verification/Rate_Config.thy ===== *)
theory Rate_Config
  imports Prelude "HOL-Library.Word"
begin

text \<open>
  \<^verbatim>\<open>crates/summer-common/src/rate_limit/config.rs\<close>: the configuration of a rate limit, the derived
  quantities (emission interval, effective burst, key lifetime) and the cache key, with
  \<open>sanitize_user_key\<close> of \<^verbatim>\<open>algorithms.rs\<close>. Fields of type \<open>u32\<close> and \<open>u64\<close> are words; derived
  quantities are \<open>int\<close> with the source's casts and saturation. The MD5 digest of the \<open>md5\<close> crate is
  the parameter \<open>md5\<close> (a function from bytes to the digest's bytes).
\<close>

section \<open>Configuration types\<close>

datatype rate_limit_per = Second | Minute | Hour | Day

fun window_seconds_per :: "rate_limit_per \<Rightarrow> int" where
  "window_seconds_per Second = 1"
| "window_seconds_per Minute = 60"
| "window_seconds_per Hour = 3600"
| "window_seconds_per Day = 86400"

definition window_millis_per :: "rate_limit_per \<Rightarrow> int" where
  "window_millis_per p = window_seconds_per p * 1000"

datatype rate_limit_key_type = Global | Ip | User | Header string

datatype rate_limit_backend = Memory | Redis

datatype rate_limit_algorithm =
  TokenBucket | Gcra | LeakyBucket | ThrottleQueue | FixedWindow | SlidingWindow

fun alg_key_segment :: "rate_limit_algorithm \<Rightarrow> string" where
  "alg_key_segment TokenBucket = ''token_bucket''"
| "alg_key_segment Gcra = ''gcra''"
| "alg_key_segment LeakyBucket = ''leaky_bucket''"
| "alg_key_segment ThrottleQueue = ''throttle_queue''"
| "alg_key_segment FixedWindow = ''fixed_window''"
| "alg_key_segment SlidingWindow = ''sliding_window''"

fun uses_gcra :: "rate_limit_algorithm \<Rightarrow> bool" where
  "uses_gcra TokenBucket = True"
| "uses_gcra Gcra = True"
| "uses_gcra _ = False"

fun uses_scheduled_slot :: "rate_limit_algorithm \<Rightarrow> bool" where
  "uses_scheduled_slot LeakyBucket = True"
| "uses_scheduled_slot ThrottleQueue = True"
| "uses_scheduled_slot _ = False"

definition supports_cost :: "rate_limit_algorithm \<Rightarrow> bool" where
  "supports_cost a = uses_gcra a"

datatype rate_limit_failure_policy = FailOpen | FailClosed | FallbackMemory

datatype rate_limit_mode = Enforce | Shadow

record rate_limit_config =
  rate :: "32 word"
  per :: rate_limit_per
  burst :: "32 word"
  backend :: rate_limit_backend
  algorithm :: rate_limit_algorithm
  failure_policy :: rate_limit_failure_policy
  max_wait_ms :: "64 word"
  mode :: rate_limit_mode

section \<open>Derived quantities\<close>

definition window_seconds :: "rate_limit_config \<Rightarrow> int" where
  "window_seconds c = window_seconds_per (per c)"

definition window_millis :: "rate_limit_config \<Rightarrow> int" where
  "window_millis c = window_millis_per (per c)"

text \<open>The divisor is positive and so is the dividend, where \<open>div\<close> is Rust's \<open>/\<close>.\<close>

definition emission_interval_millis :: "rate_limit_config \<Rightarrow> int" where
  "emission_interval_millis c =
     (let window_ms = max (window_millis_per (per c)) 1;
          r = max (uint (rate c)) 1
      in sat_add window_ms (r - 1) div r)"

definition window_limit :: "rate_limit_config \<Rightarrow> int" where
  "window_limit c = max (uint (rate c)) 1"

definition effective_burst :: "rate_limit_config \<Rightarrow> int" where
  "effective_burst c = (case algorithm c of LeakyBucket \<Rightarrow> 1 | _ \<Rightarrow> max (uint (burst c)) 1)"

definition redis_expire_seconds :: "rate_limit_config \<Rightarrow> int" where
  "redis_expire_seconds c =
     (let interval = max (emission_interval_millis c) 1
      in if algorithm c = TokenBucket \<or> algorithm c = Gcra then
           max (div_ceil (u64_sat_mul (max (effective_burst c) 1) interval) 1000) 2 * 2
         else if algorithm c = FixedWindow \<or> algorithm c = SlidingWindow then
           max (window_seconds c) 1 * 2
         else if algorithm c = LeakyBucket then
           max (div_ceil interval 1000) 1 * 2
         else
           max (div_ceil (u64_sat_add interval (max (uint (max_wait_ms c)) 1)) 1000) 1 * 2)"

section \<open>Cache keys\<close>

definition user_key_max_len :: nat where "user_key_max_len = 200"

definition hex_digit :: "nat \<Rightarrow> char" where
  "hex_digit n = (if n < 10 then char_of (48 + n) else char_of (87 + n))"

definition hex_byte :: "char \<Rightarrow> string" where
  "hex_byte b = [hex_digit (of_char b div 16), hex_digit (of_char b mod 16)]"

definition sanitize_user_key :: "(string \<Rightarrow> string) \<Rightarrow> string \<Rightarrow> string" where
  "sanitize_user_key md5 key =
     (if length key \<le> user_key_max_len then key
      else ''h:'' @ concat (map hex_byte (md5 key)))"

definition signature :: "rate_limit_config \<Rightarrow> string" where
  "signature c =
     join_with '':'' [alg_key_segment (algorithm c), show_int (uint (rate c)),
       show_int (window_seconds c), show_int (effective_burst c), show_int (uint (max_wait_ms c))]"

definition cache_key_for :: "(string \<Rightarrow> string) \<Rightarrow> rate_limit_config \<Rightarrow> string \<Rightarrow> string" where
  "cache_key_for md5 c key = signature c @ '':'' @ sanitize_user_key md5 key"

text \<open>\<open>redis_key_for\<close> of \<^verbatim>\<open>engine.rs\<close>: the same parameters, with the user key in a hash tag.\<close>

definition redis_key_for :: "(string \<Rightarrow> string) \<Rightarrow> string \<Rightarrow> rate_limit_config \<Rightarrow> string" where
  "redis_key_for md5 key c =
     ''rate-limit:'' @
     join_with '':'' [alg_key_segment (algorithm c), show_int (uint (rate c)),
       show_int (window_seconds c), show_int (effective_burst c), show_int (uint (max_wait_ms c)),
       ''{'' @ sanitize_user_key md5 key @ ''}'']"

section \<open>Bounds\<close>

lemma uint32_bounds [simp]: "uint (x :: 32 word) \<le> 4294967295"
  using uint_lt2p [of x] by simp

lemma uint64_bounds [simp]: "uint (x :: 64 word) \<le> 18446744073709551615"
  using uint_lt2p [of x] by simp

lemma window_millis_per_bounds [simp]:
  "1000 \<le> window_millis_per p" "window_millis_per p \<le> 86400000"
  by (cases p; simp add: window_millis_per_def)+

lemma window_seconds_per_millis: "window_millis_per p = window_seconds_per p * 1000"
  by (simp add: window_millis_per_def)

lemma window_limit_pos [simp]: "1 \<le> window_limit c"
  by (simp add: window_limit_def)

lemma window_limit_u32 [simp]: "window_limit c \<le> u32_max"
  by (simp add: window_limit_def u32_max_def)

lemma effective_burst_pos [simp]: "1 \<le> effective_burst c"
  by (cases "algorithm c") (simp_all add: effective_burst_def)

lemma effective_burst_u32 [simp]: "effective_burst c \<le> 4294967295"
  by (cases "algorithm c") (simp_all add: effective_burst_def)

text \<open>No saturation in the emission interval: it is the window divided by the rate, rounded up.\<close>

lemma emission_interval_eq:
  "emission_interval_millis c = div_ceil (window_millis_per (per c)) (window_limit c)"
proof -
  let ?w = "window_millis_per (per c)" and ?r = "window_limit c"
  have "in_i64 (?w + (?r - 1))"
    using window_millis_per_bounds [of "per c"] window_limit_u32 [of c] window_limit_pos [of c]
    unfolding in_i64_def i64_min_def i64_max_def u32_max_def by linarith
  moreover have "max ?w 1 = ?w" using window_millis_per_bounds(1) [of "per c"] by linarith
  ultimately show ?thesis
    by (simp add: emission_interval_millis_def div_ceil_def sat_add_def window_limit_def add_diff_eq Let_def)
qed

lemma emission_pos [simp]: "1 \<le> emission_interval_millis c"
proof -
  have "window_limit c * 1 \<le> window_millis_per (per c) + window_limit c - 1"
    using window_millis_per_bounds(1) [of "per c"] by linarith
  then have "1 \<le> (window_millis_per (per c) + window_limit c - 1) div window_limit c"
    using window_limit_pos [of c] by (simp add: pos_imp_zdiv_pos_iff int_one_le_iff_zero_less)
  then show ?thesis by (simp add: emission_interval_eq div_ceil_def)
qed

lemma emission_upper [simp]: "emission_interval_millis c \<le> 86400000"
proof -
  let ?w = "window_millis_per (per c)" and ?r = "window_limit c"
  have "(?r - 1) * 1 \<le> (?r - 1) * ?w"
    using window_millis_per_bounds(1) [of "per c"] window_limit_pos [of c]
    by (intro mult_left_mono) linarith+
  then have "?w + ?r - 1 \<le> ?w * ?r" by (simp add: algebra_simps)
  then have "(?w + ?r - 1) div ?r \<le> (?w * ?r) div ?r"
    using window_limit_pos [of c] by (intro zdiv_mono1) linarith+
  then show ?thesis
    using window_limit_pos [of c] window_millis_per_bounds(2) [of "per c"]
    by (simp add: emission_interval_eq div_ceil_def order_trans)
qed

lemma emission_window: "window_millis_per (per c) \<le> window_limit c * emission_interval_millis c"
  using div_ceil_mult_ge [of "window_limit c" "window_millis_per (per c)"] window_limit_pos [of c]
  by (simp add: emission_interval_eq mult.commute)

lemma emission_tight:
  "window_limit c * (emission_interval_millis c - 1) < window_millis_per (per c)"
proof -
  let ?w = "window_millis_per (per c)" and ?r = "window_limit c"
  have "(?w + ?r - 1) div ?r * ?r \<le> ?w + ?r - 1"
    using div_mult_mod_eq [of "?w + ?r - 1" ?r] pos_mod_sign [of ?r "?w + ?r - 1"] window_limit_pos [of c]
    by linarith
  then show ?thesis by (simp add: emission_interval_eq div_ceil_def algebra_simps)
qed

section \<open>Key separation\<close>

lemma alg_key_segment_inj: "alg_key_segment a = alg_key_segment b \<Longrightarrow> a = b"
  by (cases a; cases b; simp)

lemma colon_notin_alg [simp]: "CHR '':'' \<notin> set (alg_key_segment a)"
  by (cases a) simp_all

lemma cache_key_split:
  "split_on CHR '':'' (cache_key_for md5 c key) =
     [alg_key_segment (algorithm c), show_int (uint (rate c)), show_int (window_seconds c),
      show_int (effective_burst c), show_int (uint (max_wait_ms c))]
     @ split_on CHR '':'' (sanitize_user_key md5 key)"
  by (simp add: cache_key_for_def signature_def split_on_append)

lemma redis_key_split:
  "split_on CHR '':'' (redis_key_for md5 key c) =
     [''rate-limit'', alg_key_segment (algorithm c), show_int (uint (rate c)), show_int (window_seconds c),
      show_int (effective_burst c), show_int (uint (max_wait_ms c))]
     @ split_on CHR '':'' (''{'' @ sanitize_user_key md5 key @ ''}'')"
proof -
  have "split_on CHR '':'' (''rate-limit:'' @ x) = ''rate-limit'' # split_on CHR '':'' x" for x
    using split_on_append [of "CHR '':''" "''rate-limit''" x] by simp
  then show ?thesis
    by (simp add: redis_key_for_def split_on_append1 del: append_Cons split_on.simps)
qed

end
