(* ===== verification/Rate_Decision.thy ===== *)
theory Rate_Decision
  imports Rate_Config
begin

text \<open>
  \<^verbatim>\<open>crates/summer-common/src/rate_limit/decision.rs\<close>: decisions, the metadata attached to them, the
  metadata holder shared by the checks of one request, and the engine's counters. A \<open>Duration\<close> is
  its milliseconds, a counter its value (\<open>fetch_add\<close> wraps at 64 bits).
\<close>

record rate_limit_metadata =
  limit :: int
  remaining :: int
  reset_after :: int
  retry_after :: "int option"

definition meta_rejected :: "int \<Rightarrow> int \<Rightarrow> rate_limit_metadata" where
  "meta_rejected l retry =
     \<lparr>limit = l, remaining = 0, reset_after = retry, retry_after = Some retry\<rparr>"

definition meta_unlimited :: rate_limit_metadata where
  "meta_unlimited = \<lparr>limit = u32_max, remaining = u32_max, reset_after = 0, retry_after = None\<rparr>"

definition meta_blocklisted :: rate_limit_metadata where
  "meta_blocklisted = \<lparr>limit = 0, remaining = 0, reset_after = 0, retry_after = None\<rparr>"

definition is_unlimited :: "rate_limit_metadata \<Rightarrow> bool" where
  "is_unlimited m \<longleftrightarrow> limit m = u32_max"

text \<open>\<open>RateLimitMetadataHolder::record\<close> and \<open>snapshot\<close>.\<close>

type_synonym metadata_holder = "rate_limit_metadata option"

definition holder_record :: "rate_limit_metadata \<Rightarrow> metadata_holder \<Rightarrow> metadata_holder" where
  "holder_record meta slot =
     (case slot of
        Some existing \<Rightarrow> (if remaining existing \<le> remaining meta then slot else Some meta)
      | None \<Rightarrow> Some meta)"

definition holder_snapshot :: "metadata_holder \<Rightarrow> rate_limit_metadata option" where
  "holder_snapshot slot = slot"

datatype rate_limit_decision =
  Allowed rate_limit_metadata
| Delayed int rate_limit_metadata
| Rejected rate_limit_metadata
| BackendUnavailable

fun decision_metadata :: "rate_limit_decision \<Rightarrow> rate_limit_metadata option" where
  "decision_metadata (Allowed m) = Some m"
| "decision_metadata (Rejected m) = Some m"
| "decision_metadata (Delayed _ m) = Some m"
| "decision_metadata BackendUnavailable = None"

text \<open>\<open>admitted\<close> tells the decisions that let the request through (now or after the delay).\<close>

fun admitted :: "rate_limit_decision \<Rightarrow> bool" where
  "admitted (Allowed _) = True"
| "admitted (Delayed _ _) = True"
| "admitted _ = False"

text \<open>The quota left after an admitted request.\<close>

fun quota :: "rate_limit_decision \<Rightarrow> int option" where
  "quota (Allowed m) = Some (remaining m)"
| "quota (Delayed _ m) = Some (remaining m)"
| "quota _ = None"

lemma quota_admitted: "quota d \<noteq> None \<longleftrightarrow> admitted d"
  by (cases d) simp_all

section \<open>Counters\<close>

record rate_limit_stats =
  st_allowed :: "64 word"
  st_delayed :: "64 word"
  st_rejected :: "64 word"
  st_backend_failures :: "64 word"
  st_fallback_to_memory :: "64 word"
  st_fail_open_passes :: "64 word"
  st_fail_closed_blocks :: "64 word"
  st_allowlist_passes :: "64 word"
  st_blocklist_blocks :: "64 word"
  st_shadow_passes :: "64 word"
  st_cost_consumed :: "64 word"
  st_cost_refunded :: "64 word"

definition stats_zero :: rate_limit_stats where
  "stats_zero = \<lparr>st_allowed = 0, st_delayed = 0, st_rejected = 0, st_backend_failures = 0,
     st_fallback_to_memory = 0, st_fail_open_passes = 0, st_fail_closed_blocks = 0,
     st_allowlist_passes = 0, st_blocklist_blocks = 0, st_shadow_passes = 0,
     st_cost_consumed = 0, st_cost_refunded = 0\<rparr>"

definition stats_record :: "rate_limit_decision \<Rightarrow> rate_limit_stats \<Rightarrow> rate_limit_stats" where
  "stats_record d s =
     (case d of
        Allowed _ \<Rightarrow> s\<lparr>st_allowed := st_allowed s + 1\<rparr>
      | Delayed _ _ \<Rightarrow> s\<lparr>st_delayed := st_delayed s + 1\<rparr>
      | Rejected _ \<Rightarrow> s\<lparr>st_rejected := st_rejected s + 1\<rparr>
      | BackendUnavailable \<Rightarrow> s\<lparr>st_fail_closed_blocks := st_fail_closed_blocks s + 1\<rparr>)"

definition as_metrics :: "rate_limit_stats \<Rightarrow> (string \<times> 64 word) list" where
  "as_metrics s =
     [(''rate_limit_allowed_total'', st_allowed s),
      (''rate_limit_delayed_total'', st_delayed s),
      (''rate_limit_rejected_total'', st_rejected s),
      (''rate_limit_backend_failures_total'', st_backend_failures s),
      (''rate_limit_fallback_to_memory_total'', st_fallback_to_memory s),
      (''rate_limit_fail_open_passes_total'', st_fail_open_passes s),
      (''rate_limit_fail_closed_blocks_total'', st_fail_closed_blocks s),
      (''rate_limit_allowlist_passes_total'', st_allowlist_passes s),
      (''rate_limit_blocklist_blocks_total'', st_blocklist_blocks s),
      (''rate_limit_shadow_passes_total'', st_shadow_passes s),
      (''rate_limit_cost_consumed_total'', st_cost_consumed s),
      (''rate_limit_cost_refunded_total'', st_cost_refunded s)]"

text \<open>Every decision counts in exactly one of the four outcome counters.\<close>

lemma stats_record_outcomes:
  "st_allowed (stats_record d s) + st_delayed (stats_record d s) + st_rejected (stats_record d s)
     + st_fail_closed_blocks (stats_record d s)
   = st_allowed s + st_delayed s + st_rejected s + st_fail_closed_blocks s + 1"
  by (cases d) (simp_all add: stats_record_def)

lemma stats_record_costs [simp]:
  "st_cost_consumed (stats_record d s) = st_cost_consumed s"
  "st_cost_refunded (stats_record d s) = st_cost_refunded s"
  by (cases d; simp add: stats_record_def)+

section \<open>The holder keeps the tightest metadata\<close>

lemma holder_record_remaining:
  "holder_record m slot = Some m' \<Longrightarrow> remaining m' \<le> remaining m"
  by (auto simp: holder_record_def split: option.splits if_splits)

lemma holder_fold_inv:
  "foldl (\<lambda>s m. holder_record m s) (Some a) ms = Some b \<Longrightarrow>
     b \<in> insert a (set ms) \<and> remaining b \<le> remaining a \<and> (\<forall>m \<in> set ms. remaining b \<le> remaining m)"
proof (induction ms arbitrary: a)
  case Nil
  then show ?case by simp
next
  case (Cons m ms)
  have "holder_record m (Some a) = Some (if remaining a \<le> remaining m then a else m)"
    by (simp add: holder_record_def)
  with Cons.prems have
    "foldl (\<lambda>s m. holder_record m s) (Some (if remaining a \<le> remaining m then a else m)) ms = Some b"
    by simp
  from Cons.IH [OF this] show ?case by (auto split: if_splits)
qed

lemma holder_fold_Some: "\<exists>b. foldl (\<lambda>s m. holder_record m s) (Some a) ms = Some b"
  by (induction ms arbitrary: a) (auto simp: holder_record_def)

end
