(* ===== verification/Rate_Memory.thy ===== *)
theory Rate_Memory
  imports Rate_Decision
begin

text \<open>
  The in-memory algorithms of \<^verbatim>\<open>crates/summer-common/src/rate_limit/algorithms.rs\<close> on the engine's
  state (\<^verbatim>\<open>engine.rs\<close>). The wall clock is the argument \<open>now\<close> (milliseconds). Each compare-and-swap
  loop is one atomic attempt on the value it loaded: the swap that ends the loop succeeds only while
  the cell still holds that value, and the passes before it write nothing.

  The four \<open>moka\<close> caches are built with \<open>time_to_idle\<close>: every entry carries the time of its last
  access, and once the idle time has passed since then it is no longer found. \<open>get_with\<close> looks a key
  up and inserts the initial value when it finds none; both \<open>get_with\<close> and \<open>get\<close> count as accesses.
  The caches' clock is taken to run with the wall clock. \<open>max_capacity\<close> lets a cache drop entries
  when it holds more keys than that; which ones and when is up to \<open>moka\<close>, so dropping keys is the
  step \<open>cache_evict\<close> of the environment, and a run of the engine on a key is one in which that key
  is not dropped for lack of room.
\<close>

record fixed_window_state =
  window_id :: int
  count :: int

text \<open>A cache: the time of the last access and the value of each key.\<close>

type_synonym 'v moka = "string \<rightharpoonup> int \<times> 'v"

record 'net rate_limit_engine =
  gcra_states :: "int moka"
  fixed_window_states :: "fixed_window_state moka"
  sliding_window_states :: "int list moka"
  scheduled_states :: "int moka"
  memory_capacity :: int
  memory_idle :: int
  has_redis :: bool
  stats_inner :: rate_limit_stats
  allowlist :: "'net list"
  blocklist :: "'net list"

text \<open>\<open>RateLimitEngineConfig\<close>, the idle time in milliseconds, and its default.\<close>

record 'net engine_config =
  ec_memory_capacity :: int
  ec_memory_idle :: int
  ec_allowlist :: "'net list"
  ec_blocklist :: "'net list"

definition default_memory_capacity :: int where "default_memory_capacity = 100000"

definition default_memory_idle_secs :: int where "default_memory_idle_secs = 3600"

definition engine_config_default :: "'net engine_config" where
  "engine_config_default =
     \<lparr>ec_memory_capacity = default_memory_capacity, ec_memory_idle = default_memory_idle_secs * 1000,
      ec_allowlist = [], ec_blocklist = []\<rparr>"

definition engine_with_config :: "bool \<Rightarrow> 'net engine_config \<Rightarrow> 'net rate_limit_engine" where
  "engine_with_config redis cfg =
     \<lparr>gcra_states = Map.empty, fixed_window_states = Map.empty, sliding_window_states = Map.empty,
      scheduled_states = Map.empty, memory_capacity = ec_memory_capacity cfg,
      memory_idle = ec_memory_idle cfg, has_redis = redis, stats_inner = stats_zero,
      allowlist = ec_allowlist cfg, blocklist = ec_blocklist cfg\<rparr>"

definition engine_new :: "bool \<Rightarrow> 'net rate_limit_engine" where
  "engine_new redis = engine_with_config redis engine_config_default"

text \<open>What a cache entry still holds at \<open>now\<close>: nothing once it has been idle for \<open>idle\<close> milliseconds.\<close>

definition moka_live :: "int \<Rightarrow> int \<Rightarrow> (int \<times> 'v) option \<Rightarrow> 'v option" where
  "moka_live idle now entry =
     (case entry of None \<Rightarrow> None | Some (accessed, v) \<Rightarrow> (if accessed + idle \<le> now then None else Some v))"

definition get_with :: "int \<Rightarrow> int \<Rightarrow> 'v moka \<Rightarrow> string \<Rightarrow> 'v \<Rightarrow> 'v" where
  "get_with idle now m k init = (case moka_live idle now (m k) of None \<Rightarrow> init | Some v \<Rightarrow> v)"

definition cache_evict :: "string set \<Rightarrow> 'net rate_limit_engine \<Rightarrow> 'net rate_limit_engine" where
  "cache_evict ks e =
     e\<lparr>gcra_states := (gcra_states e) |` (- ks), fixed_window_states := (fixed_window_states e) |` (- ks),
       sliding_window_states := (sliding_window_states e) |` (- ks),
       scheduled_states := (scheduled_states e) |` (- ks)\<rparr>"

lemma moka_live_simps [simp]:
  "moka_live idle now None = None"
  "moka_live idle now (Some (a, v)) = (if a + idle \<le> now then None else Some v)"
  by (simp_all add: moka_live_def)

lemma engine_new_simps [simp]:
  "gcra_states (engine_new r) = Map.empty" "fixed_window_states (engine_new r) = Map.empty"
  "sliding_window_states (engine_new r) = Map.empty" "scheduled_states (engine_new r) = Map.empty"
  "memory_idle (engine_new r) = 3600000" "has_redis (engine_new r) = r"
  "allowlist (engine_new r) = []" "blocklist (engine_new r) = []"
  by (simp_all add: engine_new_def engine_with_config_def engine_config_default_def
      default_memory_idle_secs_def)

lemma engine_config_default_simps [simp]:
  "ec_memory_idle engine_config_default = 3600000" "ec_allowlist engine_config_default = []"
  "ec_blocklist engine_config_default = []"
  by (simp_all add: engine_config_default_def default_memory_idle_secs_def)

lemma engine_with_config_simps [simp]:
  "gcra_states (engine_with_config r cfg) = Map.empty"
  "fixed_window_states (engine_with_config r cfg) = Map.empty"
  "sliding_window_states (engine_with_config r cfg) = Map.empty"
  "scheduled_states (engine_with_config r cfg) = Map.empty"
  "memory_idle (engine_with_config r cfg) = ec_memory_idle cfg"
  "has_redis (engine_with_config r cfg) = r"
  "allowlist (engine_with_config r cfg) = ec_allowlist cfg"
  "blocklist (engine_with_config r cfg) = ec_blocklist cfg"
  by (simp_all add: engine_with_config_def)

section \<open>GCRA\<close>

text \<open>One pass of the loop in \<open>check_memory_gcra\<close> on the loaded theoretical arrival time.\<close>

definition gcra_attempt :: "int \<Rightarrow> int \<Rightarrow> int \<Rightarrow> int \<Rightarrow> int \<Rightarrow> rate_limit_decision \<times> int" where
  "gcra_attempt emission bur now cost tat =
     (let capacity = sat_mul bur emission;
          cost_emission = sat_mul cost emission;
          lim = as_u32 bur;
          arrival = max tat now;
          diff = sat_sub arrival now
      in if capacity < sat_add diff cost_emission then
           (Rejected (meta_rejected lim
              (as_u64 (max (sat_sub (sat_add diff cost_emission) capacity) 0))), tat)
         else
           let new_tat = sat_add arrival cost_emission;
               rem = (if 0 < emission
                      then as_u32 (max (tdiv (sat_sub (sat_sub capacity diff) cost_emission) emission) 0)
                      else 0)
           in (Allowed \<lparr>limit = lim, remaining = rem,
                 reset_after = as_u64 (max (sat_sub new_tat now) 0), retry_after = None\<rparr>, new_tat))"

definition check_memory_gcra ::
  "(string \<Rightarrow> string) \<Rightarrow> int \<Rightarrow> string \<Rightarrow> rate_limit_config \<Rightarrow> 32 word \<Rightarrow> 'net rate_limit_engine
   \<Rightarrow> rate_limit_decision \<times> 'net rate_limit_engine" where
  "check_memory_gcra md5 now key c cost e =
     (let ck = cache_key_for md5 c key;
          tat = get_with (memory_idle e) now (gcra_states e) ck now;
          (d, tat') = gcra_attempt (emission_interval_millis c) (effective_burst c) now
                        (max (uint cost) 1) tat
      in (d, e\<lparr>gcra_states := (gcra_states e)(ck \<mapsto> (now, tat'))\<rparr>))"

section \<open>Fixed window\<close>

definition fixed_attempt ::
  "int \<Rightarrow> int \<Rightarrow> int \<Rightarrow> fixed_window_state \<Rightarrow> rate_limit_decision \<times> fixed_window_state" where
  "fixed_attempt window_ms lim now st =
     (let wid = now div window_ms;
          s = (if window_id st \<noteq> wid then \<lparr>window_id = wid, count = 0\<rparr> else st);
          window_end_ms = (wid + 1) * window_ms;
          reset = as_u64 (max (sat_sub window_end_ms now) 0)
      in if lim \<le> count s then
           (Rejected \<lparr>limit = lim, remaining = 0, reset_after = reset, retry_after = Some reset\<rparr>, s)
         else
           let s' = s\<lparr>count := count s + 1\<rparr>
           in (Allowed \<lparr>limit = lim, remaining = usat_sub lim (count s'), reset_after = reset,
                 retry_after = None\<rparr>, s'))"

definition check_memory_fixed_window ::
  "(string \<Rightarrow> string) \<Rightarrow> int \<Rightarrow> string \<Rightarrow> rate_limit_config \<Rightarrow> 'net rate_limit_engine
   \<Rightarrow> rate_limit_decision \<times> 'net rate_limit_engine" where
  "check_memory_fixed_window md5 now key c e =
     (let window_ms = max (window_millis c) 1;
          ck = cache_key_for md5 c key;
          st = get_with (memory_idle e) now (fixed_window_states e) ck \<lparr>window_id = now div window_ms, count = 0\<rparr>;
          (d, st') = fixed_attempt window_ms (window_limit c) now st
      in (d, e\<lparr>fixed_window_states := (fixed_window_states e)(ck \<mapsto> (now, st'))\<rparr>))"

section \<open>Sliding window\<close>

text \<open>\<open>reset_after_from_front\<close>: when the oldest entry leaves the window.\<close>

fun reset_after_from_front :: "int \<Rightarrow> int \<Rightarrow> int list \<Rightarrow> int" where
  "reset_after_from_front window_ms now [] = 0"
| "reset_after_from_front window_ms now (oldest # _) = as_u64 (max (oldest + window_ms - now) 0)"

definition sliding_attempt :: "int \<Rightarrow> int \<Rightarrow> int \<Rightarrow> int list \<Rightarrow> rate_limit_decision \<times> int list" where
  "sliding_attempt window_ms lim now log =
     (let cutoff = now - window_ms;
          entries = dropWhile (\<lambda>ts. ts \<le> cutoff) log
      in if lim \<le> as_u32 (int (length entries)) then
           let retry = reset_after_from_front window_ms now entries
           in (Rejected \<lparr>limit = lim, remaining = 0, reset_after = retry, retry_after = Some retry\<rparr>,
               entries)
         else
           let entries' = entries @ [now]
           in (Allowed \<lparr>limit = lim, remaining = usat_sub lim (as_u32 (int (length entries'))),
                 reset_after = reset_after_from_front window_ms now entries', retry_after = None\<rparr>,
               entries'))"

definition check_memory_sliding_window ::
  "(string \<Rightarrow> string) \<Rightarrow> int \<Rightarrow> string \<Rightarrow> rate_limit_config \<Rightarrow> 'net rate_limit_engine
   \<Rightarrow> rate_limit_decision \<times> 'net rate_limit_engine" where
  "check_memory_sliding_window md5 now key c e =
     (let window_ms = max (window_millis c) 1;
          ck = cache_key_for md5 c key;
          (d, log') = sliding_attempt window_ms (window_limit c) now
                        (get_with (memory_idle e) now (sliding_window_states e) ck [])
      in (d, e\<lparr>sliding_window_states := (sliding_window_states e)(ck \<mapsto> (now, log'))\<rparr>))"

section \<open>Scheduled slot (leaky bucket and throttle queue)\<close>

definition slot_attempt :: "int \<Rightarrow> int \<Rightarrow> int \<Rightarrow> int \<Rightarrow> rate_limit_decision \<times> int" where
  "slot_attempt interval_ms max_wait now next_available =
     (let scheduled = max next_available now;
          delay_ms = as_u64 (max (sat_sub scheduled now) 0)
      in if max_wait < delay_ms then (Rejected (meta_rejected 1 delay_ms), next_available)
         else
           let new_next = sat_add scheduled interval_ms;
               meta = \<lparr>limit = 1, remaining = 0, reset_after = as_u64 interval_ms, retry_after = None\<rparr>
           in (if delay_ms = 0 then Allowed meta else Delayed delay_ms meta, new_next))"

definition check_memory_scheduled_slot ::
  "(string \<Rightarrow> string) \<Rightarrow> int \<Rightarrow> string \<Rightarrow> rate_limit_config \<Rightarrow> int \<Rightarrow> 'net rate_limit_engine
   \<Rightarrow> rate_limit_decision \<times> 'net rate_limit_engine" where
  "check_memory_scheduled_slot md5 now key c max_wait e =
     (let ck = cache_key_for md5 c key;
          (d, next') = slot_attempt (max (emission_interval_millis c) 1) max_wait now
                         (get_with (memory_idle e) now (scheduled_states e) ck now)
      in (d, e\<lparr>scheduled_states := (scheduled_states e)(ck \<mapsto> (now, next'))\<rparr>))"

section \<open>Dispatch\<close>

definition check_memory ::
  "(string \<Rightarrow> string) \<Rightarrow> int \<Rightarrow> string \<Rightarrow> rate_limit_config \<Rightarrow> 32 word \<Rightarrow> 'net rate_limit_engine
   \<Rightarrow> rate_limit_decision \<times> 'net rate_limit_engine" where
  "check_memory md5 now key c cost e =
     (if uses_gcra (algorithm c) then check_memory_gcra md5 now key c cost e
      else if uses_scheduled_slot (algorithm c) then
        check_memory_scheduled_slot md5 now key c
          (if algorithm c = LeakyBucket then 0 else uint (max_wait_ms c)) e
      else if algorithm c = FixedWindow then check_memory_fixed_window md5 now key c e
      else check_memory_sliding_window md5 now key c e)"

lemma check_memory_frame:
  assumes "check_memory md5 now key c cost e = (d, e')"
  shows "stats_inner e' = stats_inner e" "has_redis e' = has_redis e"
    "allowlist e' = allowlist e" "blocklist e' = blocklist e" "memory_idle e' = memory_idle e"
  using assms
  by (auto simp: check_memory_def check_memory_gcra_def check_memory_scheduled_slot_def
      check_memory_fixed_window_def check_memory_sliding_window_def Let_def split: prod.splits if_splits)

section \<open>Refund and reset (memory side)\<close>

text \<open>The memory branch of \<open>refund\<close>: \<open>fetch_sub\<close> on the arrival time, when the key is found.\<close>

definition refund_memory ::
  "(string \<Rightarrow> string) \<Rightarrow> int \<Rightarrow> string \<Rightarrow> rate_limit_config \<Rightarrow> 32 word \<Rightarrow> 'net rate_limit_engine
   \<Rightarrow> 'net rate_limit_engine" where
  "refund_memory md5 now key c cost e =
     (let ck = cache_key_for md5 c key;
          refund_ms = sat_mul (uint cost) (emission_interval_millis c)
      in case moka_live (memory_idle e) now (gcra_states e ck) of
           None \<Rightarrow> e
         | Some tat \<Rightarrow> e\<lparr>gcra_states := (gcra_states e)(ck \<mapsto> (now, wrap_i64 (tat - refund_ms)))\<rparr>)"

definition reset_key ::
  "(string \<Rightarrow> string) \<Rightarrow> string \<Rightarrow> rate_limit_config \<Rightarrow> 'net rate_limit_engine \<Rightarrow> 'net rate_limit_engine" where
  "reset_key md5 key c e =
     (let ck = cache_key_for md5 c key
      in case algorithm c of
           TokenBucket \<Rightarrow> e\<lparr>gcra_states := (gcra_states e)(ck := None)\<rparr>
         | Gcra \<Rightarrow> e\<lparr>gcra_states := (gcra_states e)(ck := None)\<rparr>
         | FixedWindow \<Rightarrow> e\<lparr>fixed_window_states := (fixed_window_states e)(ck := None)\<rparr>
         | SlidingWindow \<Rightarrow> e\<lparr>sliding_window_states := (sliding_window_states e)(ck := None)\<rparr>
         | LeakyBucket \<Rightarrow> e\<lparr>scheduled_states := (scheduled_states e)(ck := None)\<rparr>
         | ThrottleQueue \<Rightarrow> e\<lparr>scheduled_states := (scheduled_states e)(ck := None)\<rparr>)"

section \<open>Idle time and state\<close>

text \<open>The longest wait of a configuration: none for the leaky bucket.\<close>

definition slot_wait :: "rate_limit_config \<Rightarrow> int" where
  "slot_wait c = (if algorithm c = LeakyBucket then 0 else uint (max_wait_ms c))"

text \<open>
  The idle time of the caches covers a configuration when a key's state has lost its effect by the
  time the cache forgets it: the token bucket has drained, the window is over, the last slot is past.
\<close>

definition idle_covers :: "int \<Rightarrow> rate_limit_config \<Rightarrow> bool" where
  "idle_covers idle c \<longleftrightarrow>
     (if uses_gcra (algorithm c) then effective_burst c * emission_interval_millis c
      else if uses_scheduled_slot (algorithm c) then slot_wait c + emission_interval_millis c
      else window_millis c) \<le> idle"

text \<open>The default idle time of one hour covers the windows of up to an hour, but not a day's.\<close>

lemma default_idle_windows:
  "\<not> uses_gcra (algorithm c) \<Longrightarrow> \<not> uses_scheduled_slot (algorithm c) \<Longrightarrow>
   idle_covers (memory_idle (engine_new r)) c \<longleftrightarrow> per c \<noteq> Day"
  by (cases "per c") (simp_all add: idle_covers_def window_millis_def window_millis_per_def)

section \<open>The attempts without saturation\<close>

text \<open>
  Clock values up to \<open>time_max\<close> = \<open>2 ^ 52\<close> milliseconds (142 thousand years) leave room for every sum
  the code forms, in 64-bit integers and in the doubles of the Lua scripts.
\<close>

definition time_max :: int where "time_max = 4503599627370496"

definition valid_time :: "int \<Rightarrow> bool" where
  "valid_time t \<longleftrightarrow> 0 \<le> t \<and> t \<le> time_max"

definition params_ok :: "int \<Rightarrow> int \<Rightarrow> bool" where
  "params_ok emission units \<longleftrightarrow>
     1 \<le> emission \<and> emission \<le> 86400000 \<and> 1 \<le> units \<and> units \<le> 4294967295"

lemma config_params_ok [simp]: "params_ok (emission_interval_millis c) (effective_burst c)"
  by (simp add: params_ok_def)

lemma cost_params_ok [simp]: "params_ok (emission_interval_millis c) (max (uint (k :: 32 word)) 1)"
  by (simp add: params_ok_def)

lemma params_ok_mult:
  assumes "params_ok e n"
  shows "1 \<le> n * e" "n * e \<le> 371085174374400000"
proof -
  have e: "1 \<le> e" "e \<le> 86400000" and n: "1 \<le> n" "n \<le> 4294967295" using assms by (auto simp: params_ok_def)
  have "1 * 1 \<le> n * e" using e n by (intro mult_mono) auto
  then show "1 \<le> n * e" by simp
  have "n * e \<le> 4294967295 * 86400000" using e n by (intro mult_mono) auto
  then show "n * e \<le> 371085174374400000" by simp
qed

lemma gcra_attempt_allowed:
  assumes "params_ok e b" "params_ok e k" "valid_time now" "max tat now - now + k * e \<le> b * e"
  shows "gcra_attempt e b now k tat =
    (Allowed \<lparr>limit = b, remaining = (b * e - (max tat now - now) - k * e) div e,
       reset_after = max tat now - now + k * e, retry_after = None\<rparr>, max tat now + k * e)"
proof -
  note B = params_ok_mult [OF assms(1)] and K = params_ok_mult [OF assms(2)]
  define D where "D = max tat now - now"
  have D: "0 \<le> D" "D + k * e \<le> b * e" using assms(4) by (auto simp: D_def)
  have t: "0 \<le> now" "now \<le> 4503599627370496" using assms(3) by (auto simp: valid_time_def time_max_def)
  have arr: "max tat now = now + D" by (simp add: D_def)
  have e: "0 < e" "b \<le> u32_max" "0 \<le> b" using assms(1) by (auto simp: params_ok_def u32_max_def)
  have caps: "in_i64 (b * e)" "in_i64 (k * e)" "in_i64 D" "in_i64 (D + k * e)" "in_i64 (now + D + k * e)"
    "in_i64 (b * e - D)" "in_i64 (b * e - D - k * e)"
    unfolding in_i64_def i64_min_def i64_max_def using B K D t by linarith+
  have "(b * e - D - k * e) div e \<le> (b * e) div e" using D K e by (intro zdiv_mono1) linarith+
  then have rem: "0 \<le> (b * e - D - k * e) div e" "(b * e - D - k * e) div e \<le> u32_max"
    using D K e by (auto simp: pos_imp_zdiv_nonneg_iff)
  have u64: "D + k * e \<le> u64_max" unfolding u64_max_def using D B by linarith
  have dd: "sat_sub (max tat now) now = D" using caps by (simp add: sat_sub_def arr)
  have nt: "sat_add (max tat now) (k * e) = now + D + k * e" using caps by (simp add: sat_add_def arr)
  show ?thesis
    unfolding gcra_attempt_def Let_def sat_mul_def
    using caps rem u64 D K e B
    by (simp add: dd nt sat_add_def sat_sub_def) (simp add: arr algebra_simps)
qed

lemma gcra_attempt_rejected:
  assumes "params_ok e b" "params_ok e k" "valid_time now" "b * e < max tat now - now + k * e"
  shows "\<exists>m. gcra_attempt e b now k tat = (Rejected m, tat) \<and> limit m = b \<and> remaining m = 0 \<and>
    (tat \<le> now + b * e \<longrightarrow> retry_after m = Some (max tat now - now + k * e - b * e))"
proof -
  note B = params_ok_mult [OF assms(1)] and K = params_ok_mult [OF assms(2)]
  have t: "0 \<le> now" "now \<le> 4503599627370496" using assms(3) by (auto simp: valid_time_def time_max_def)
  have b: "as_u32 b = b" using assms(1) by (auto simp: params_ok_def u32_max_def)
  have caps: "sat64 (b * e) = b * e" "sat64 (k * e) = k * e"
    using B K by (auto simp: sat64_def i64_min_def i64_max_def)
  define D where "D = sat64 (max tat now - now)"
  have D: "D = min 9223372036854775807 (max tat now - now)" by (auto simp: D_def sat64_def i64_min_def i64_max_def)
  have rej: "b * e < sat64 (D + k * e)"
    unfolding sat64_def i64_min_def i64_max_def using D B K assms(4) by linarith
  have exact: "as_u64 (max (sat64 (sat64 (D + k * e) - b * e)) 0) = max tat now - now + k * e - b * e"
    if "tat \<le> now + b * e"
  proof -
    have "max tat now - now \<le> b * e" using that B by linarith
    then have Dx: "D = max tat now - now" using D B by linarith
    then have "sat64 (D + k * e) = D + k * e" "sat64 (D + k * e - b * e) = D + k * e - b * e"
      using \<open>max tat now - now \<le> b * e\<close> B K assms(4) unfolding sat64_def i64_min_def i64_max_def by linarith+
    moreover have "0 \<le> D + k * e - b * e" "D + k * e - b * e \<le> u64_max"
      unfolding u64_max_def using Dx \<open>max tat now - now \<le> b * e\<close> B K assms(4) by linarith+
    ultimately show ?thesis using Dx by simp
  qed
  show ?thesis
    unfolding gcra_attempt_def Let_def sat_mul_def sat_add_def sat_sub_def caps D_def [symmetric]
    using rej exact b by (auto simp: meta_rejected_def)
qed

definition wait_max :: int where "wait_max = 4503599540970496"

lemma slot_attempt_eq:
  assumes "1 \<le> i" "i \<le> 86400000" "0 \<le> w" "valid_time now" "nxt \<le> time_max + wait_max + i"
  shows "slot_attempt i w now nxt =
    (if w < max nxt now - now then (Rejected (meta_rejected 1 (max nxt now - now)), nxt)
     else ((let meta = \<lparr>limit = 1, remaining = 0, reset_after = i, retry_after = None\<rparr>
            in if max nxt now - now = 0 then Allowed meta else Delayed (max nxt now - now) meta),
           max nxt now + i))"
proof -
  have t: "0 \<le> now" "now \<le> 4503599627370496" "nxt \<le> 9007199254740992"
    using assms by (auto simp: valid_time_def time_max_def wait_max_def)
  have s: "sat64 (max nxt now - now) = max nxt now - now" "sat64 (max nxt now + i) = max nxt now + i"
    unfolding sat64_def i64_min_def i64_max_def using t assms by linarith+
  have u: "as_u64 (max (max nxt now - now) 0) = max nxt now - now" "as_u64 i = i"
    using t assms by (simp_all add: u64_max_def)
  show ?thesis unfolding slot_attempt_def sat_add_def sat_sub_def Let_def s u by (rule refl)
qed

end
