(* ===== verification/Rate_Redis.thy ===== *)
theory Rate_Redis
  imports Rate_Memory
begin

text \<open>
  The Redis back end of the rate limiter: the Lua scripts of
  \<^verbatim>\<open>crates/summer-common/src/rate_limit/lua/\<close> and the Rust code that calls them (\<open>check_redis\<close>,
  \<open>unpack_triple\<close>, \<open>decision_from_lua_triple\<close>, \<open>scheduled_decision_from_lua\<close> of
  \<^verbatim>\<open>algorithms.rs\<close>). A script runs atomically on the server. Its store maps a key to an integer (or
  a sorted set) and an expiry instant in the server's milliseconds \<open>srv\<close>; a key is gone once
  its instant is reached. Lua numbers are doubles; all those of the scripts are integers, and \<open>lua_num\<close> rounds
  every number a script reads or computes. What a call returns on the wire (a transport error or the
  script's array) is the argument \<open>reply\<close> of \<open>check_redis\<close>.
\<close>

record redis_db =
  rstr :: "string \<rightharpoonup> int \<times> int option"
  rzset :: "string \<rightharpoonup> (int \<times> string) list \<times> int option"

definition live :: "int \<Rightarrow> int option \<Rightarrow> bool" where
  "live srv ex = (case ex of None \<Rightarrow> True | Some t \<Rightarrow> srv < t)"

definition redis_get :: "int \<Rightarrow> string \<Rightarrow> redis_db \<Rightarrow> int option" where
  "redis_get srv k db =
     (case rstr db k of None \<Rightarrow> None | Some (v, ex) \<Rightarrow> (if live srv ex then Some v else None))"

definition redis_set_ex :: "int \<Rightarrow> string \<Rightarrow> int \<Rightarrow> int \<Rightarrow> redis_db \<Rightarrow> redis_db" where
  "redis_set_ex srv k v ttl_seconds db =
     db\<lparr>rstr := (rstr db)(k \<mapsto> (v, Some (srv + ttl_seconds * 1000)))\<rparr>"

text \<open>\<open>SET k v KEEPTTL\<close> keeps the expiry the live key has.\<close>

definition redis_set_keepttl :: "int \<Rightarrow> string \<Rightarrow> int \<Rightarrow> redis_db \<Rightarrow> redis_db" where
  "redis_set_keepttl srv k v db =
     db\<lparr>rstr := (rstr db)(k \<mapsto> (v,
        case rstr db k of None \<Rightarrow> None | Some (_, ex) \<Rightarrow> (if live srv ex then ex else None)))\<rparr>"

definition redis_pexpire :: "int \<Rightarrow> string \<Rightarrow> int \<Rightarrow> redis_db \<Rightarrow> redis_db" where
  "redis_pexpire srv k ms db =
     (case rstr db k of None \<Rightarrow> db
      | Some (v, _) \<Rightarrow> db\<lparr>rstr := (rstr db)(k \<mapsto> (v, Some (srv + ms)))\<rparr>)"

definition redis_zget :: "int \<Rightarrow> string \<Rightarrow> redis_db \<Rightarrow> (int \<times> string) list" where
  "redis_zget srv k db =
     (case rzset db k of None \<Rightarrow> [] | Some (z, ex) \<Rightarrow> (if live srv ex then z else []))"

section \<open>Lua numbers\<close>

text \<open>
  \<open>lua_num n\<close> is the double nearest to the integer \<open>n\<close>, ties to even: an integer of more than 53 bits
  loses its last \<open>lua_shift\<close> bits. \<open>lua_floor_div\<close> is \<open>math.floor(a / b)\<close>: for operands of at most 53
  bits the rounded quotient has the same integral part as the exact one.
\<close>

function lua_shift :: "int \<Rightarrow> nat" where
  "lua_shift n = (if n < 9007199254740992 then 0 else Suc (lua_shift (n div 2)))"
  by pat_completeness auto
termination by (relation "measure nat") auto

declare lua_shift.simps [simp del]

lemma lua_shift_small: "n < 9007199254740992 \<Longrightarrow> lua_shift n = 0"
  by (subst lua_shift.simps) simp

lemma lua_shift_large: "9007199254740992 \<le> n \<Longrightarrow> lua_shift n = Suc (lua_shift (n div 2))"
  by (subst lua_shift.simps) simp

definition lua_num :: "int \<Rightarrow> int" where
  "lua_num n =
     (let p = 2 ^ lua_shift \<bar>n\<bar>;
          q = \<bar>n\<bar> div p;
          r = \<bar>n\<bar> mod p
      in sgn n * ((if 2 * r < p \<or> 2 * r = p \<and> even q then q else q + 1) * p))"

definition lua_floor_div :: "int \<Rightarrow> int \<Rightarrow> int" where
  "lua_floor_div a b = a div b"

lemma lua_num_exact [simp]:
  assumes "\<bar>n\<bar> \<le> 9007199254740992"
  shows "lua_num n = n"
proof (cases "\<bar>n\<bar> = 9007199254740992")
  case True
  then have "n = 9007199254740992 \<or> n = - 9007199254740992" by linarith
  moreover have "lua_shift 9007199254740992 = 1" by (simp add: lua_shift_small lua_shift_large)
  ultimately show ?thesis by (elim disjE) (simp_all add: lua_num_def Let_def)
next
  case False
  then have "lua_shift \<bar>n\<bar> = 0" using assms by (simp add: lua_shift_small)
  then have "lua_num n = sgn n * \<bar>n\<bar>" unfolding lua_num_def Let_def by (simp del: sgn_mult_abs)
  then show ?thesis by (simp only: sgn_mult_abs)
qed

lemma lua_shift_keeps: "9007199254740992 \<le> n \<Longrightarrow> 9007199254740992 \<le> (n div 2 ^ lua_shift n) * 2 ^ lua_shift n"
proof (induction n rule: lua_shift.induct)
  case (1 n)
  have s: "lua_shift n = Suc (lua_shift (n div 2))" using 1(2) by (simp add: lua_shift_large)
  have d: "n div 2 ^ Suc k = (n div 2) div 2 ^ k" for k by (simp add: zdiv_zmult2_eq)
  show ?case
  proof (cases "n div 2 < 9007199254740992")
    case True
    then have "lua_shift (n div 2) = 0" by (simp add: lua_shift_small)
    then show ?thesis using 1(2) by (simp add: s)
  next
    case False
    then have "9007199254740992 \<le> (n div 2) div 2 ^ lua_shift (n div 2) * 2 ^ lua_shift (n div 2)"
      using 1 by simp
    then have "9007199254740992 \<le> (n div 2) div 2 ^ lua_shift (n div 2) * 2 ^ lua_shift (n div 2) * 2" by linarith
    then show ?thesis unfolding s unfolding d unfolding power_Suc by (simp only: ac_simps)
  qed
qed

text \<open>Rounding does not bring a number below one that is exact.\<close>

lemma lua_num_greater:
  assumes "b < n" "\<bar>b\<bar> < 9007199254740992"
  shows "b < lua_num n"
proof (cases "n \<le> 9007199254740992")
  case True
  then show ?thesis using assms by simp
next
  case False
  then have "9007199254740992 \<le> (n div 2 ^ lua_shift n) * 2 ^ lua_shift n" using lua_shift_keeps by simp
  moreover have "(n div 2 ^ lua_shift n) * 2 ^ lua_shift n \<le> lua_num n"
    using False by (auto simp: lua_num_def Let_def distrib_right)
  ultimately show ?thesis using assms(2) by linarith
qed

lemma lua_num_nonpos: "n \<le> 0 \<Longrightarrow> lua_num n \<le> 0"
  by (auto simp: lua_num_def Let_def sgn_if pos_imp_zdiv_nonneg_iff)

lemma lua_num_le_iff:
  assumes "0 \<le> b" "b < 9007199254740992"
  shows "b < lua_num n \<longleftrightarrow> b < n"
proof
  assume "b < lua_num n"
  show "b < n"
  proof (rule ccontr)
    assume n: "\<not> b < n"
    then show False
      using \<open>b < lua_num n\<close> assms lua_num_nonpos [of n] lua_num_exact [of n] by (cases "n \<le> 0") auto
  qed
qed (rule lua_num_greater, use assms in auto)

section \<open>The scripts\<close>

definition lua_gcra ::
  "int \<Rightarrow> string \<Rightarrow> int \<Rightarrow> int \<Rightarrow> int \<Rightarrow> int \<Rightarrow> int \<Rightarrow> redis_db \<Rightarrow> int list \<times> redis_db" where
  "lua_gcra srv key arg1 arg2 arg3 arg4 arg5 db =
     (let now_ms = lua_num arg1;
          emission = lua_num arg2;
          bur = lua_num arg3;
          ttl_seconds = lua_num arg4;
          cost = (if lua_num arg5 < 1 then 1 else lua_num arg5);
          capacity = lua_num (bur * emission);
          cost_emission = lua_num (cost * emission);
          tat = (case redis_get srv key db of None \<Rightarrow> now_ms | Some v \<Rightarrow> lua_num v);
          arrival = (if tat < now_ms then now_ms else tat);
          diff = lua_num (arrival - now_ms)
      in if capacity < lua_num (diff + cost_emission) then
           ([0, let r = lua_num (lua_num (diff + cost_emission) - capacity) in if r < 0 then 0 else r, 0], db)
         else
           let new_tat = lua_num (arrival + cost_emission);
               rem = lua_floor_div (lua_num (lua_num (capacity - diff) - cost_emission)) emission
           in ([1, 0, if rem < 0 then 0 else rem], redis_set_ex srv key new_tat ttl_seconds db))"

definition lua_gcra_refund ::
  "int \<Rightarrow> string \<Rightarrow> int \<Rightarrow> int \<Rightarrow> int \<Rightarrow> redis_db \<Rightarrow> int \<times> redis_db" where
  "lua_gcra_refund srv key arg1 arg2 arg3 db =
     (let now_ms = lua_num arg1;
          emission = lua_num arg2;
          cost = lua_num arg3
      in case redis_get srv key db of
           None \<Rightarrow> (now_ms, db)
         | Some v \<Rightarrow>
             let t = lua_num (lua_num v - lua_num (cost * emission));
                 new_tat = (if t < now_ms then now_ms else t)
             in (new_tat, redis_set_keepttl srv key new_tat db))"

text \<open>
  \<open>INCR\<close> counts in 64 bits (an overflow, after \<open>2 ^ 63\<close> calls in one window, is left out); the number of
  the window is appended in decimal, as Lua prints it below \<open>10 ^ 14\<close>.
\<close>

definition lua_fixed_window ::
  "int \<Rightarrow> string \<Rightarrow> int \<Rightarrow> int \<Rightarrow> int \<Rightarrow> redis_db \<Rightarrow> int list \<times> redis_db" where
  "lua_fixed_window srv base arg1 arg2 arg3 db =
     (let now_ms = lua_num arg1;
          window_ms = lua_num arg2;
          lim = lua_num arg3;
          wid = lua_floor_div now_ms window_ms;
          key = base @ '':'' @ show_int wid;
          old = (case rstr db key of None \<Rightarrow> None | Some (_, ex) \<Rightarrow> (if live srv ex then ex else None));
          counter = (case redis_get srv key db of None \<Rightarrow> 1 | Some v \<Rightarrow> v + 1);
          current = lua_num counter;
          db1 = db\<lparr>rstr := (rstr db)(key \<mapsto> (counter, old))\<rparr>;
          db2 = (if current = 1 then redis_pexpire srv key (lua_num (window_ms * 2)) db1 else db1);
          window_end_ms = lua_num (lua_num (wid + 1) * window_ms);
          reset_after_ms = lua_num (window_end_ms - now_ms)
      in if lim < current then ([0, reset_after_ms, 0], db2)
         else ([1, 0, lua_num (lim - current)], db2))"

fun min_score :: "(int \<times> string) list \<Rightarrow> int option" where
  "min_score [] = None"
| "min_score ((s, _) # z) = (case min_score z of None \<Rightarrow> Some s | Some t \<Rightarrow> Some (min s t))"

text \<open>\<open>ZADD\<close> replaces the score of a member that is already there.\<close>

definition zadd :: "int \<Rightarrow> string \<Rightarrow> (int \<times> string) list \<Rightarrow> (int \<times> string) list" where
  "zadd s m z = filter (\<lambda>(_, m'). m' \<noteq> m) z @ [(s, m)]"

definition lua_sliding_window ::
  "int \<Rightarrow> string \<Rightarrow> int \<Rightarrow> int \<Rightarrow> int \<Rightarrow> string \<Rightarrow> int \<Rightarrow> redis_db \<Rightarrow> int list \<times> redis_db" where
  "lua_sliding_window srv key arg1 arg2 arg3 member arg5 db =
     (let now_ms = lua_num arg1;
          window_ms = lua_num arg2;
          lim = lua_num arg3;
          ttl_seconds = lua_num arg5;
          cutoff = lua_num (now_ms - window_ms);
          z = filter (\<lambda>(s, _). cutoff < s) (redis_zget srv key db);
          current = lua_num (int (length z));
          put = (\<lambda>z'. db\<lparr>rzset := (rzset db)(key := if z' = [] then None
                                          else Some (z', Some (srv + lua_num (ttl_seconds * 1000))))\<rparr>)
      in if lim \<le> current then
           let retry = (case min_score z of None \<Rightarrow> window_ms
                        | Some s \<Rightarrow> (let r = lua_num (lua_num (s + window_ms) - now_ms) in if r < 0 then 0 else r))
           in ([0, retry, 0], put z)
         else ([1, 0, lua_num (lua_num (lim - current) - 1)], put (zadd now_ms member z)))"

definition lua_scheduled_slot ::
  "int \<Rightarrow> string \<Rightarrow> int \<Rightarrow> int \<Rightarrow> int \<Rightarrow> int \<Rightarrow> redis_db \<Rightarrow> int list \<times> redis_db" where
  "lua_scheduled_slot srv key arg1 arg2 arg3 arg4 db =
     (let now_ms = lua_num arg1;
          interval_ms = lua_num arg2;
          max_wait_ms' = lua_num arg3;
          ttl_seconds = lua_num arg4;
          next_available = (case redis_get srv key db of None \<Rightarrow> now_ms | Some v \<Rightarrow> lua_num v);
          scheduled = (if next_available < now_ms then now_ms else next_available);
          delay_ms = lua_num (scheduled - now_ms)
      in if max_wait_ms' < delay_ms then ([0, delay_ms, 0], db)
         else ([1, delay_ms, 0],
               redis_set_ex srv key (lua_num (scheduled + interval_ms)) ttl_seconds db))"

section \<open>Calling the scripts\<close>

definition unpack_triple :: "int list \<Rightarrow> int \<times> int \<times> int" where
  "unpack_triple vs =
     ((if 0 < length vs then vs ! 0 else 0), (if 1 < length vs then vs ! 1 else 0),
      (if 2 < length vs then vs ! 2 else 0))"

definition decision_from_lua_triple ::
  "int \<Rightarrow> int \<Rightarrow> int \<Rightarrow> int \<Rightarrow> int \<Rightarrow> rate_limit_decision" where
  "decision_from_lua_triple allowed value_ms rem lim reset =
     (if allowed = 1 then
        Allowed \<lparr>limit = lim, remaining = as_u32 (max rem 0), reset_after = reset, retry_after = None\<rparr>
      else
        Rejected \<lparr>limit = lim, remaining = 0, reset_after = reset,
          retry_after = Some (as_u64 (max value_ms 0))\<rparr>)"

definition scheduled_decision_from_lua :: "int \<Rightarrow> int \<Rightarrow> int \<Rightarrow> rate_limit_decision" where
  "scheduled_decision_from_lua allowed value_ms reset =
     (let v = as_u64 (max value_ms 0);
          meta = \<lparr>limit = 1, remaining = 0, reset_after = reset, retry_after = None\<rparr>
      in if allowed = 1 then (if v = 0 then Allowed meta else Delayed v meta)
         else Rejected (meta_rejected 1 v))"

text \<open>The script and arguments \<open>check_redis\<close> sends; \<open>uuid\<close> is the fresh UUID of the sliding window.\<close>

datatype lua_call =
  CallGcra int int int int int
| CallFixed int int int
| CallSliding int int int string int
| CallSlot int int int int

definition redis_call :: "string \<Rightarrow> int \<Rightarrow> rate_limit_config \<Rightarrow> 32 word \<Rightarrow> lua_call" where
  "redis_call uuid now c cost =
     (let ttl = redis_expire_seconds c
      in case algorithm c of
           FixedWindow \<Rightarrow> CallFixed now (window_millis c) (window_limit c)
         | SlidingWindow \<Rightarrow>
             CallSliding now (window_millis c) (window_limit c) (show_int now @ '':'' @ uuid) ttl
         | LeakyBucket \<Rightarrow> CallSlot now (emission_interval_millis c) 0 ttl
         | ThrottleQueue \<Rightarrow> CallSlot now (emission_interval_millis c) (wrap_i64 (uint (max_wait_ms c))) ttl
         | _ \<Rightarrow> CallGcra now (emission_interval_millis c) (max (effective_burst c) 1) ttl (uint cost))"

fun exec_lua :: "int \<Rightarrow> string \<Rightarrow> lua_call \<Rightarrow> redis_db \<Rightarrow> int list \<times> redis_db" where
  "exec_lua srv k (CallGcra now e b ttl cost) db = lua_gcra srv k now e b ttl cost db"
| "exec_lua srv k (CallFixed now w l) db = lua_fixed_window srv k now w l db"
| "exec_lua srv k (CallSliding now w l m ttl) db = lua_sliding_window srv k now w l m ttl db"
| "exec_lua srv k (CallSlot now i mw ttl) db = lua_scheduled_slot srv k now i mw ttl db"

definition decision_of_reply :: "rate_limit_config \<Rightarrow> int list \<Rightarrow> rate_limit_decision" where
  "decision_of_reply c values =
     (case unpack_triple values of (allowed, value_ms, rem) \<Rightarrow>
        (case algorithm c of
           FixedWindow \<Rightarrow>
             decision_from_lua_triple allowed value_ms rem (window_limit c) (as_u64 (window_millis c))
         | SlidingWindow \<Rightarrow>
             decision_from_lua_triple allowed value_ms rem (window_limit c) (as_u64 (window_millis c))
         | LeakyBucket \<Rightarrow>
             scheduled_decision_from_lua allowed value_ms (as_u64 (emission_interval_millis c))
         | ThrottleQueue \<Rightarrow>
             scheduled_decision_from_lua allowed value_ms (as_u64 (emission_interval_millis c))
         | _ \<Rightarrow> decision_from_lua_triple allowed value_ms rem (as_u32 (max (effective_burst c) 1))
                  (as_u64 (emission_interval_millis c))))"

definition handle_backend_failure ::
  "(string \<Rightarrow> string) \<Rightarrow> int \<Rightarrow> string \<Rightarrow> rate_limit_config \<Rightarrow> 32 word \<Rightarrow> 'net rate_limit_engine
   \<Rightarrow> rate_limit_decision \<times> 'net rate_limit_engine" where
  "handle_backend_failure md5 now key c cost e =
     (let s = stats_inner e
      in case failure_policy c of
           FailOpen \<Rightarrow>
             (let l = max (effective_burst c) 1
              in (Allowed \<lparr>limit = l, remaining = l, reset_after = 0, retry_after = None\<rparr>,
                  e\<lparr>stats_inner := s\<lparr>st_fail_open_passes := st_fail_open_passes s + 1\<rparr>\<rparr>))
         | FailClosed \<Rightarrow> (BackendUnavailable, e)
         | FallbackMemory \<Rightarrow>
             check_memory md5 now key c cost
               (e\<lparr>stats_inner := s\<lparr>st_fallback_to_memory := st_fallback_to_memory s + 1\<rparr>\<rparr>))"

definition check_redis ::
  "(string \<Rightarrow> string) \<Rightarrow> int \<Rightarrow> 'err + int list \<Rightarrow> string \<Rightarrow> rate_limit_config \<Rightarrow> 32 word
   \<Rightarrow> 'net rate_limit_engine \<Rightarrow> rate_limit_decision \<times> 'net rate_limit_engine" where
  "check_redis md5 now reply key c cost e =
     (if \<not> has_redis e then handle_backend_failure md5 now key c cost e
      else case reply of
        Inr values \<Rightarrow> (decision_of_reply c values, e)
      | Inl _ \<Rightarrow>
          (let s = stats_inner e
           in handle_backend_failure md5 now key c cost
                (e\<lparr>stats_inner := s\<lparr>st_backend_failures := st_backend_failures s + 1\<rparr>\<rparr>)))"

end
