(* ===== verification/Rate_Engine.thy ===== *)
theory Rate_Engine
  imports Rate_Redis
begin

text \<open>
  The public operations of \<open>RateLimitEngine\<close> (\<^verbatim>\<open>engine.rs\<close>) and the reservation of \<^verbatim>\<open>reservation.rs\<close>.
  \<open>contains net ip\<close> is \<open>IpNetwork::contains\<close>. The remote side is the pair of a database and a
  flag \<open>up\<close> telling whether a call reaches it (a call that fails is not executed).
\<close>

section \<open>Lists\<close>

definition check_lists ::
  "('net \<Rightarrow> 'ip \<Rightarrow> bool) \<Rightarrow> 'ip \<Rightarrow> 'net rate_limit_engine
   \<Rightarrow> rate_limit_decision option \<times> 'net rate_limit_engine" where
  "check_lists contains ip e =
     (let s = stats_inner e
      in if allowlist e \<noteq> [] \<and> list_ex (\<lambda>net. contains net ip) (allowlist e) then
           (Some (Allowed meta_unlimited),
            e\<lparr>stats_inner := s\<lparr>st_allowlist_passes := st_allowlist_passes s + 1\<rparr>\<rparr>)
         else if blocklist e \<noteq> [] \<and> list_ex (\<lambda>net. contains net ip) (blocklist e) then
           (Some (Rejected meta_blocklisted),
            e\<lparr>stats_inner := s\<lparr>st_blocklist_blocks := st_blocklist_blocks s + 1\<rparr>\<rparr>)
         else (None, e))"

section \<open>Checks\<close>

definition redis_reply ::
  "(string \<Rightarrow> string) \<Rightarrow> int \<Rightarrow> string \<Rightarrow> bool \<Rightarrow> string \<Rightarrow> rate_limit_config \<Rightarrow> 32 word
   \<Rightarrow> redis_db \<Rightarrow> (unit + int list) \<times> redis_db" where
  "redis_reply md5 now uuid up key c cost db =
     (if up then (case exec_lua now (redis_key_for md5 key c) (redis_call uuid now c cost) db of
                    (v, db') \<Rightarrow> (Inr v, db'))
      else (Inl (), db))"

definition engine_check_with_cost ::
  "(string \<Rightarrow> string) \<Rightarrow> int \<Rightarrow> string \<Rightarrow> bool \<Rightarrow> string \<Rightarrow> rate_limit_config \<Rightarrow> 32 word
   \<Rightarrow> 'net rate_limit_engine \<times> redis_db \<Rightarrow> rate_limit_decision \<times> 'net rate_limit_engine \<times> redis_db" where
  "engine_check_with_cost md5 now uuid up key c cost0 = (\<lambda>(e, db).
     (let cost = max cost0 1
      in case (case backend c of
                 Memory \<Rightarrow> (check_memory md5 now key c cost e, db)
               | Redis \<Rightarrow>
                   (case redis_reply md5 now uuid (up \<and> has_redis e) key c cost db of
                      (reply, db') \<Rightarrow> (check_redis md5 now reply key c cost e, db'))) of
           ((d, e'), db') \<Rightarrow> (d, e'\<lparr>stats_inner := stats_record d (stats_inner e')\<rparr>, db')))"

definition engine_check ::
  "(string \<Rightarrow> string) \<Rightarrow> int \<Rightarrow> string \<Rightarrow> bool \<Rightarrow> string \<Rightarrow> rate_limit_config
   \<Rightarrow> 'net rate_limit_engine \<times> redis_db \<Rightarrow> rate_limit_decision \<times> 'net rate_limit_engine \<times> redis_db" where
  "engine_check md5 now uuid up key c = engine_check_with_cost md5 now uuid up key c 1"

section \<open>Reset\<close>

text \<open>\<open>reset_key\<close> with its detached \<open>DEL\<close>, which removes the key whatever its type.\<close>

definition engine_reset_key ::
  "(string \<Rightarrow> string) \<Rightarrow> bool \<Rightarrow> string \<Rightarrow> rate_limit_config
   \<Rightarrow> 'net rate_limit_engine \<times> redis_db \<Rightarrow> 'net rate_limit_engine \<times> redis_db" where
  "engine_reset_key md5 up key c = (\<lambda>(e, db).
     (let rk = redis_key_for md5 key c
      in (reset_key md5 key c e,
          if backend c = Redis \<and> has_redis e \<and> up
          then db\<lparr>rstr := (rstr db)(rk := None), rzset := (rzset db)(rk := None)\<rparr> else db)))"

section \<open>Refund\<close>

definition refund ::
  "(string \<Rightarrow> string) \<Rightarrow> int \<Rightarrow> bool \<Rightarrow> string \<Rightarrow> rate_limit_config \<Rightarrow> 32 word
   \<Rightarrow> 'net rate_limit_engine \<times> redis_db \<Rightarrow> 'net rate_limit_engine \<times> redis_db" where
  "refund md5 now up key c cost = (\<lambda>(e, db).
     (let counted = (\<lambda>e. e\<lparr>stats_inner := (stats_inner e)
            \<lparr>st_cost_refunded := st_cost_refunded (stats_inner e) + ucast cost\<rparr>\<rparr>)
      in if \<not> supports_cost (algorithm c) \<or> cost = 0 then (e, db)
         else case backend c of
           Memory \<Rightarrow> (counted (refund_memory md5 now key c cost e), db)
         | Redis \<Rightarrow>
             (if \<not> has_redis e then (e, db)
              else (counted e,
                    if up then snd (lua_gcra_refund now (redis_key_for md5 key c) now
                                      (emission_interval_millis c) (uint cost) db)
                    else db))))"

section \<open>Reservations\<close>

record reservation_state =
  rs_key :: string
  rs_config :: rate_limit_config
  rs_reserved_cost :: "32 word"

text \<open>A reservation holds its state until it is consumed; \<open>handle\<close> tells whether a runtime is there.\<close>

type_synonym reservation = "reservation_state option"

definition reservation_commit ::
  "(string \<Rightarrow> string) \<Rightarrow> int \<Rightarrow> bool \<Rightarrow> 32 word \<Rightarrow> reservation
   \<Rightarrow> 'net rate_limit_engine \<times> redis_db \<Rightarrow> 'net rate_limit_engine \<times> redis_db" where
  "reservation_commit md5 now up actual_cost r w =
     (case r of
        None \<Rightarrow> w
      | Some s \<Rightarrow>
          (let actual = min actual_cost (rs_reserved_cost s)
           in if actual < rs_reserved_cost s
              then refund md5 now up (rs_key s) (rs_config s) (rs_reserved_cost s - actual) w
              else w))"

definition reservation_release ::
  "(string \<Rightarrow> string) \<Rightarrow> int \<Rightarrow> bool \<Rightarrow> reservation
   \<Rightarrow> 'net rate_limit_engine \<times> redis_db \<Rightarrow> 'net rate_limit_engine \<times> redis_db" where
  "reservation_release md5 now up r w =
     (case r of
        None \<Rightarrow> w
      | Some s \<Rightarrow> refund md5 now up (rs_key s) (rs_config s) (rs_reserved_cost s) w)"

text \<open>\<open>Drop\<close>: the refund runs as a task of the runtime, when there is one.\<close>

definition reservation_drop ::
  "(string \<Rightarrow> string) \<Rightarrow> int \<Rightarrow> bool \<Rightarrow> bool \<Rightarrow> reservation
   \<Rightarrow> 'net rate_limit_engine \<times> redis_db \<Rightarrow> 'net rate_limit_engine \<times> redis_db" where
  "reservation_drop md5 now up handle r w =
     (case r of
        None \<Rightarrow> w
      | Some s \<Rightarrow>
          (if handle then refund md5 now up (rs_key s) (rs_config s) (rs_reserved_cost s) w else w))"

section \<open>What the operations touch\<close>

text \<open>The caches of other keys are not touched, nor those of other algorithms.\<close>

lemma check_memory_other_keys:
  assumes "check_memory md5 now key c cost e = (d, e')" "k \<noteq> cache_key_for md5 c key"
  shows "gcra_states e' k = gcra_states e k" "fixed_window_states e' k = fixed_window_states e k"
    "sliding_window_states e' k = sliding_window_states e k" "scheduled_states e' k = scheduled_states e k"
  using assms
  by (auto simp: check_memory_def check_memory_gcra_def check_memory_scheduled_slot_def
      check_memory_fixed_window_def check_memory_sliding_window_def Let_def split: prod.splits if_splits)

lemma check_redis_outcome:
  assumes "check_redis md5 now reply key c cost e = (d, e')"
  shows "st_allowed (stats_inner e') = st_allowed (stats_inner e)"
    "st_delayed (stats_inner e') = st_delayed (stats_inner e)"
    "st_rejected (stats_inner e') = st_rejected (stats_inner e)"
    "st_fail_closed_blocks (stats_inner e') = st_fail_closed_blocks (stats_inner e)"
    "has_redis e' = has_redis e"
  using assms
  by (auto simp: check_redis_def handle_backend_failure_def Let_def
      split: sum.splits if_splits rate_limit_failure_policy.splits dest: check_memory_frame)

end
