(* ===== verification/Api_Error.thy ===== *)
theory Api_Error
  imports Prelude
begin

text \<open>
  The error types of \<^verbatim>\<open>crates/summer-auth/src/error.rs\<close> and \<^verbatim>\<open>crates/summer-common/src/error.rs\<close>,
  their HTTP status codes and problem types, and the conversion of the first into the second. The
  fixed texts of the \<open>#[error]\<close> attributes are not spelt out: \<open>Auth_text e\<close> stands for
  \<open>e.to_string()\<close>. The other messages are ASCII; where the code writes Chinese, \<open>Text\<close> carries a
  short tag instead.
\<close>

datatype auth_error =
  NotLogin | InvalidToken | TokenExpired | InvalidRefreshToken | RefreshTokenExpired
| AccountBanned | RefreshRequired | NoRole string | NoPermission string | SessionNotFound
| StorageError string | AuthInternal string | QrCodeNotFound | QrCodeInvalidState

fun auth_status :: "auth_error \<Rightarrow> nat" where
  "auth_status AccountBanned = 403"
| "auth_status (NoRole _) = 403"
| "auth_status (NoPermission _) = 403"
| "auth_status (StorageError _) = 500"
| "auth_status (AuthInternal _) = 500"
| "auth_status QrCodeNotFound = 400"
| "auth_status QrCodeInvalidState = 400"
| "auth_status _ = 401"

fun auth_problem_type :: "auth_error \<Rightarrow> string" where
  "auth_problem_type AccountBanned = ''account-banned''"
| "auth_problem_type RefreshRequired = ''token-refresh-required''"
| "auth_problem_type (NoRole _) = ''forbidden''"
| "auth_problem_type (NoPermission _) = ''forbidden''"
| "auth_problem_type (StorageError _) = ''internal-error''"
| "auth_problem_type (AuthInternal _) = ''internal-error''"
| "auth_problem_type QrCodeNotFound = ''bad-request''"
| "auth_problem_type QrCodeInvalidState = ''bad-request''"
| "auth_problem_type _ = ''not-authenticated''"

datatype message = Text string | Auth_text auth_error

datatype api_errors =
  BadRequest message
| Unauthorized message
| Forbidden message
| NotFound message
| Conflict message
| IncompleteUpload message
| ValidationFailed message
| PayloadTooLarge message
| TooManyRequests message
| Internal message
| ServiceUnavailable message

fun api_status :: "api_errors \<Rightarrow> nat" where
  "api_status (BadRequest _) = 400"
| "api_status (Unauthorized _) = 401"
| "api_status (Forbidden _) = 403"
| "api_status (NotFound _) = 404"
| "api_status (Conflict _) = 409"
| "api_status (IncompleteUpload _) = 409"
| "api_status (ValidationFailed _) = 422"
| "api_status (PayloadTooLarge _) = 413"
| "api_status (TooManyRequests _) = 429"
| "api_status (Internal _) = 500"
| "api_status (ServiceUnavailable _) = 503"

fun api_problem_type :: "api_errors \<Rightarrow> string" where
  "api_problem_type (BadRequest _) = ''bad-request''"
| "api_problem_type (Unauthorized _) = ''not-authenticated''"
| "api_problem_type (Forbidden _) = ''forbidden''"
| "api_problem_type (NotFound _) = ''not-found''"
| "api_problem_type (Conflict _) = ''conflict''"
| "api_problem_type (IncompleteUpload _) = ''multipart-incomplete''"
| "api_problem_type (ValidationFailed _) = ''validation-failed''"
| "api_problem_type (PayloadTooLarge _) = ''payload-too-large''"
| "api_problem_type (TooManyRequests _) = ''too-many-requests''"
| "api_problem_type (Internal _) = ''internal-error''"
| "api_problem_type (ServiceUnavailable _) = ''service-unavailable''"

text \<open>\<open>impl From<AuthError> for ApiErrors\<close>.\<close>

fun api_of_auth :: "auth_error \<Rightarrow> api_errors" where
  "api_of_auth AccountBanned = Forbidden (Auth_text AccountBanned)"
| "api_of_auth (NoRole r) = Forbidden (Auth_text (NoRole r))"
| "api_of_auth (NoPermission p) = Forbidden (Auth_text (NoPermission p))"
| "api_of_auth (StorageError m) = Internal (Text m)"
| "api_of_auth (AuthInternal m) = Internal (Text m)"
| "api_of_auth QrCodeNotFound = BadRequest (Auth_text QrCodeNotFound)"
| "api_of_auth QrCodeInvalidState = BadRequest (Auth_text QrCodeInvalidState)"
| "api_of_auth e = Unauthorized (Auth_text e)"

text \<open>The conversion keeps the status code; of the problem types it loses two.\<close>

lemma api_of_auth_status: "api_status (api_of_auth e) = auth_status e"
  by (cases e) simp_all

lemma api_of_auth_problem_type:
  "api_problem_type (api_of_auth e) = auth_problem_type e \<longleftrightarrow> e \<noteq> AccountBanned \<and> e \<noteq> RefreshRequired"
  by (cases e) simp_all

end
