(* ===== verification/Text_Http.thy ===== *)
theory Text_Http
  imports Prelude
begin

text \<open>
  Trimming of Unicode white space on UTF-8 byte strings (\<open>str::trim\<close>, \<open>trim_start\<close>, \<open>trim_end\<close>) and the
  look-up of request headers. Header names in a header map are lower case, as the HTTP library keeps
  them.
\<close>

text \<open>The characters with the Unicode property \<open>White_Space\<close>, encoded.\<close>

definition ws_seqs :: "string list" where
  "ws_seqs = map (map char_of)
     ([[9], [10], [11], [12], [13], [32], [194, 133], [194, 160], [225, 154, 128], [226, 128, 168], [226, 128, 169],
       [226, 128, 175], [226, 129, 159], [227, 128, 128]] @ map (\<lambda>n. [226, 128, n]) [128, 129, 130, 131, 132, 133, 134, 135, 136, 137, 138 :: nat])"

lemma ws_seqs_ne: "w \<in> set ws_seqs \<Longrightarrow> w \<noteq> []"
  by (auto simp: ws_seqs_def)

function trim_start :: "string \<Rightarrow> string" where
  "trim_start s = (case find (\<lambda>w. prefix w s) ws_seqs of None \<Rightarrow> s | Some w \<Rightarrow> trim_start (drop (length w) s))"
  by pat_completeness auto
termination
proof (relation "measure length")
  fix s w assume "find (\<lambda>w. prefix w s) ws_seqs = Some w"
  then have "w \<in> set ws_seqs" "prefix w s" by (auto simp: find_Some_iff)
  then show "(drop (length w) s, s) \<in> measure length" using ws_seqs_ne by (cases s) auto
qed simp

function trim_end :: "string \<Rightarrow> string" where
  "trim_end s = (case find (\<lambda>w. suffix w s) ws_seqs of None \<Rightarrow> s | Some w \<Rightarrow> trim_end (take (length s - length w) s))"
  by pat_completeness auto
termination
proof (relation "measure length")
  fix s w assume "find (\<lambda>w. suffix w s) ws_seqs = Some w"
  then have "w \<in> set ws_seqs" "suffix w s" by (auto simp: find_Some_iff)
  then have "w \<noteq> []" "length w \<le> length s" using ws_seqs_ne suffix_length_le by auto
  then show "(take (length s - length w) s, s) \<in> measure length" by (cases w) auto
qed simp

definition trim :: "string \<Rightarrow> string" where
  "trim s = trim_end (trim_start s)"

text \<open>Nothing is trimmed from a text that starts and ends with a visible ASCII character.\<close>

definition visible :: "char \<Rightarrow> bool" where
  "visible ch \<longleftrightarrow> 32 < (of_char ch :: nat) \<and> (of_char ch :: nat) < 127"

lemma ws_seqs_invisible: "w \<in> set ws_seqs \<Longrightarrow> \<not> visible (hd w) \<and> \<not> visible (last w)"
  by (auto simp: ws_seqs_def visible_def)

lemma trim_visible:
  assumes "s \<noteq> []" "visible (hd s)" "visible (last s)"
  shows "trim s = s"
proof -
  have "\<not> prefix w s" if "w \<in> set ws_seqs" for w
    using ws_seqs_invisible [OF that] ws_seqs_ne [OF that] assms(2) by (cases w) (auto elim: prefixE)
  then have start: "find (\<lambda>w. prefix w s) ws_seqs = None" by (simp add: find_None_iff)
  have "\<not> suffix w s" if "w \<in> set ws_seqs" for w
    using ws_seqs_invisible [OF that] ws_seqs_ne [OF that] assms(3) by (auto elim!: suffixE)
  then have "find (\<lambda>w. suffix w s) ws_seqs = None" by (simp add: find_None_iff)
  then show ?thesis using start unfolding trim_def by (subst trim_start.simps) (simp add: trim_end.simps [of s])
qed

definition eq_ignore_ascii_case :: "string \<Rightarrow> string \<Rightarrow> bool" where
  "eq_ignore_ascii_case a b \<longleftrightarrow> to_ascii_lowercase a = to_ascii_lowercase b"

text \<open>\<open>HeaderValue::to_str\<close> accepts visible ASCII and tabs only.\<close>

definition header_to_str :: "string \<Rightarrow> string option" where
  "header_to_str v =
     (if list_all (\<lambda>ch. 32 \<le> (of_char ch :: nat) \<and> (of_char ch :: nat) < 127 \<or> of_char ch = (9 :: nat)) v
      then Some v else None)"

definition header_get :: "(string \<times> string) list \<Rightarrow> string \<Rightarrow> string option" where
  "header_get hs name = map_of hs (to_ascii_lowercase name)"

declare trim_start.simps [simp del] trim_end.simps [simp del]

end
