(* ===== verification/Rate_Context.thy ===== *)
theory Rate_Context
  imports Rate_Engine Api_Error Text_Http
begin

text \<open>
  The request side of the rate limiter: \<^verbatim>\<open>context.rs\<close> (key extraction, checks, reservations, the
  \<open>Shadow\<close> mode) and \<^verbatim>\<open>middleware.rs\<close> (response headers). A request's world is the engine, the Redis
  database, the metadata holder its checks share and the delays it slept. Header names in a header
  map are lower case, as the HTTP library keeps them; \<open>show_ip\<close> is the address's \<open>Display\<close>.
\<close>

record 'ip rate_limit_context =
  client_ip :: 'ip
  user_id :: "int option"
  headers :: "(string \<times> string) list"

record 'net rl_world =
  w_engine :: "'net rate_limit_engine"
  w_db :: redis_db
  w_holder :: metadata_holder
  w_slept :: "int list"

section \<open>Keys\<close>

definition extract_key :: "('ip \<Rightarrow> string) \<Rightarrow> 'ip rate_limit_context \<Rightarrow> rate_limit_key_type \<Rightarrow> string" where
  "extract_key show_ip ctx kt =
     (case kt of
        Global \<Rightarrow> ''global''
      | Ip \<Rightarrow> ''ip:'' @ show_ip (client_ip ctx)
      | User \<Rightarrow>
          (case user_id ctx of
             Some u \<Rightarrow> ''user:'' @ show_int u
           | None \<Rightarrow> ''ip:'' @ show_ip (client_ip ctx))
      | Header name \<Rightarrow>
          (case Option.bind (header_get (headers ctx) name) header_to_str of
             Some v \<Rightarrow> ''header:'' @ name @ '':'' @ v
           | None \<Rightarrow> ''header:'' @ name @ '':unknown''))"

text \<open>
  \<open>from_request_parts\<close>: the client address (unspecified when it cannot be determined), the user of the
  session extension, the headers.
\<close>

definition context_of_parts ::
  "'ip \<Rightarrow> 'ip option \<Rightarrow> int option \<Rightarrow> (string \<times> string) list \<Rightarrow> 'ip rate_limit_context" where
  "context_of_parts unspecified ip session_user hs =
     \<lparr>client_ip = (case ip of Some a \<Rightarrow> a | None \<Rightarrow> unspecified), user_id = session_user, headers = hs\<rparr>"

section \<open>Checks\<close>

definition record_meta :: "rate_limit_decision \<Rightarrow> 'net rl_world \<Rightarrow> 'net rl_world" where
  "record_meta d w =
     (case decision_metadata d of Some m \<Rightarrow> w\<lparr>w_holder := holder_record m (w_holder w)\<rparr> | None \<Rightarrow> w)"

definition finalize ::
  "rate_limit_decision \<Rightarrow> rate_limit_config \<Rightarrow> string
   \<Rightarrow> ('net rl_world, api_errors, rate_limit_metadata) sm" where
  "finalize d c message w0 =
     (let w = record_meta d w0
      in case d of
           Allowed m \<Rightarrow> (Inr m, w)
         | Delayed delay m \<Rightarrow> (Inr m, w\<lparr>w_slept := w_slept w @ [delay]\<rparr>)
         | Rejected m \<Rightarrow>
             (if mode c = Shadow then
                (Inr m, w\<lparr>w_engine := (w_engine w)\<lparr>stats_inner := (stats_inner (w_engine w))
                           \<lparr>st_shadow_passes := st_shadow_passes (stats_inner (w_engine w)) + 1\<rparr>\<rparr>\<rparr>)
              else (Inl (TooManyRequests (Text message)), w))
         | BackendUnavailable \<Rightarrow> (Inl (ServiceUnavailable (Text ''rate limiter unavailable'')), w))"

definition check_with_cost ::
  "('net \<Rightarrow> 'ip \<Rightarrow> bool) \<Rightarrow> (string \<Rightarrow> string) \<Rightarrow> int \<Rightarrow> string \<Rightarrow> bool \<Rightarrow> 'ip rate_limit_context
   \<Rightarrow> string \<Rightarrow> rate_limit_config \<Rightarrow> 32 word \<Rightarrow> string
   \<Rightarrow> ('net rl_world, api_errors, rate_limit_metadata) sm" where
  "check_with_cost contains md5 now uuid up ctx key c cost0 message w =
     (case check_lists contains (client_ip ctx) (w_engine w) of
        (Some d, e) \<Rightarrow>
          (let w' = record_meta d (w\<lparr>w_engine := e\<rparr>)
           in case d of
                Allowed m \<Rightarrow> (Inr m, w')
              | Rejected _ \<Rightarrow> (Inl (TooManyRequests (Text message)), w')
              | _ \<Rightarrow> (Inl (Internal (Text ''check_lists returned unexpected decision'')), w'))
      | (None, e) \<Rightarrow>
          (let cost = max cost0 1
           in case engine_check_with_cost md5 now uuid up key c cost (e, w_db w) of
                (d, e', db') \<Rightarrow>
                  (let s = stats_inner e';
                       e'' = (if admitted d
                              then e'\<lparr>stats_inner := s\<lparr>st_cost_consumed := st_cost_consumed s + ucast cost\<rparr>\<rparr>
                              else e')
                   in finalize d c message (w\<lparr>w_engine := e'', w_db := db'\<rparr>))))"

definition check ::
  "('net \<Rightarrow> 'ip \<Rightarrow> bool) \<Rightarrow> (string \<Rightarrow> string) \<Rightarrow> int \<Rightarrow> string \<Rightarrow> bool \<Rightarrow> 'ip rate_limit_context
   \<Rightarrow> string \<Rightarrow> rate_limit_config \<Rightarrow> string \<Rightarrow> ('net rl_world, api_errors, rate_limit_metadata) sm" where
  "check contains md5 now uuid up ctx key c message =
     check_with_cost contains md5 now uuid up ctx key c 1 message"

definition reserve ::
  "('net \<Rightarrow> 'ip \<Rightarrow> bool) \<Rightarrow> (string \<Rightarrow> string) \<Rightarrow> int \<Rightarrow> string \<Rightarrow> bool \<Rightarrow> 'ip rate_limit_context
   \<Rightarrow> string \<Rightarrow> rate_limit_config \<Rightarrow> 32 word \<Rightarrow> string
   \<Rightarrow> ('net rl_world, api_errors, reservation) sm" where
  "reserve contains md5 now uuid up ctx key c estimated_cost message =
     (if \<not> supports_cost (algorithm c) then
        err_s (Internal (Text (''reserve() only supports cost-based algorithms, got '' @ alg_key_segment (algorithm c))))
      else
        (let cost = max estimated_cost 1
         in bind_s (check_with_cost contains md5 now uuid up ctx key c cost message)
              (\<lambda>_. ok_s (Some \<lparr>rs_key = key, rs_config = c, rs_reserved_cost = cost\<rparr>))))"

section \<open>Response headers\<close>

definition header_insert :: "string \<Rightarrow> string \<Rightarrow> (string \<times> string) list \<Rightarrow> (string \<times> string) list" where
  "header_insert k v hs = filter (\<lambda>(n, _). n \<noteq> k) hs @ [(k, v)]"

text \<open>\<open>next hs\<close> is the handler: it returns the response headers, given the fresh holder.\<close>

definition rate_limit_headers ::
  "(metadata_holder \<Rightarrow> (string \<times> string) list \<times> metadata_holder) \<Rightarrow> (string \<times> string) list" where
  "rate_limit_headers next =
     (case next None of (hs, holder) \<Rightarrow>
       (case holder_snapshot holder of
          None \<Rightarrow> hs
        | Some meta \<Rightarrow>
            (if is_unlimited meta then hs
             else
               (let hs1 = header_insert ''ratelimit-limit'' (show_int (limit meta)) hs;
                    hs2 = header_insert ''ratelimit-remaining'' (show_int (remaining meta)) hs1;
                    hs3 = header_insert ''ratelimit-reset'' (show_int (reset_after meta div 1000)) hs2
                in case retry_after meta of
                     Some r \<Rightarrow> header_insert ''retry-after'' (show_int (r div 1000)) hs3
                   | None \<Rightarrow> hs3))))"

end
