(* ===== verification/Window_Cell.thy ===== *)
theory Window_Cell
  imports Rate_Redis
begin

text \<open>
  What the engine relies on from a request counter over a window (fixed or sliding) and from a
  scheduled slot (leaky bucket, throttle queue), whichever back end keeps it. \<open>window_cell\<close> counts the
  admitted requests that still weigh on a later one; \<open>slot_cell\<close> keeps the next free instant. Both
  determine the answers completely (\<open>run_spec\<close>), which is what two back ends have in common.
\<close>

text \<open>The outcome of a check: the delay and the remaining quota of an admitted request.\<close>

fun outcome :: "rate_limit_decision \<Rightarrow> (int \<times> int) option" where
  "outcome (Allowed m) = Some (0, remaining m)"
| "outcome (Delayed d m) = Some (d, remaining m)"
| "outcome _ = None"

lemma outcome_admitted: "outcome d \<noteq> None \<longleftrightarrow> admitted d"
  by (cases d) simp_all

text \<open>A request is the clock it is served at and the fresh UUID the sliding window script would use.\<close>

type_synonym request = "int \<times> string"

fun requests_ok :: "request list \<Rightarrow> int \<Rightarrow> string list \<Rightarrow> bool" where
  "requests_ok [] t us = True"
| "requests_ok ((t', u) # rs) t us \<longleftrightarrow>
     t \<le> t' \<and> valid_time t' \<and> u \<notin> set us \<and> requests_ok rs t' (u # us)"

fun answers :: "(int \<Rightarrow> string \<Rightarrow> 's \<Rightarrow> 'a \<times> 's) \<Rightarrow> request list \<Rightarrow> 's \<Rightarrow> 'a list" where
  "answers chk [] s = []"
| "answers chk ((t, u) # rs) s = (case chk t u s of (a, s') \<Rightarrow> a # answers chk rs s')"

text \<open>The times at which requests were admitted.\<close>

fun admitted_times :: "request list \<Rightarrow> 'a option list \<Rightarrow> int list" where
  "admitted_times ((t, _) # rs) (a # as) = (if a \<noteq> None then [t] else []) @ admitted_times rs as"
| "admitted_times _ _ = []"

section \<open>Windows\<close>

text \<open>
  \<open>inwin t u\<close>: a request admitted at \<open>u\<close> weighs on one at \<open>t\<close>. The specification keeps the log of
  admissions and admits while fewer than \<open>lim\<close> of them weigh.
\<close>

fun window_spec ::
  "int \<Rightarrow> (int \<Rightarrow> int \<Rightarrow> bool) \<Rightarrow> request list \<Rightarrow> int list \<Rightarrow> (int \<times> int) option list" where
  "window_spec lim inwin [] adm = []"
| "window_spec lim inwin ((t, _) # rs) adm =
     (let n = int (length (filter (inwin t) adm))
      in if n < lim then Some (0, lim - n - 1) # window_spec lim inwin rs (t # adm)
         else None # window_spec lim inwin rs adm)"

lemma window_spec_bound:
  assumes weigh: "\<And>t t' u. inwin t' u \<Longrightarrow> u \<le> t \<Longrightarrow> t \<le> t' \<Longrightarrow> inwin t u"
  shows "requests_ok rs t us \<Longrightarrow> \<forall>u \<in> set adm. u \<le> t \<Longrightarrow>
    (\<And>t'. int (length (filter (\<lambda>u. u \<le> t' \<and> inwin t' u) adm)) \<le> lim) \<Longrightarrow>
    int (length (filter (\<lambda>u. u \<le> t' \<and> inwin t' u)
           (admitted_times rs (window_spec lim inwin rs adm) @ adm))) \<le> lim"
proof (induction rs arbitrary: t us adm)
  case Nil
  then show ?case by simp
next
  case (Cons r rs)
  obtain v u where r: "r = (v, u)" by (cases r) auto
  with Cons.prems have v: "t \<le> v" "requests_ok rs v (u # us)" and le: "\<forall>u \<in> set adm. u \<le> v" by auto
  show ?case
  proof (cases "int (length (filter (inwin v) adm)) < lim")
    case False
    then show ?thesis using Cons.IH [OF v(2) le Cons.prems(3)] r by simp
  next
    case True
    have "int (length (filter (\<lambda>u. u \<le> w \<and> inwin w u) (v # adm))) \<le> lim" for w
    proof (cases "v \<le> w \<and> inwin w v")
      case t: True
      have "length (filter (\<lambda>u. u \<le> w \<and> inwin w u) adm) \<le> length (filter (inwin v) adm)"
        using le t weigh by (induction adm) auto
      then show ?thesis using True t by simp
    next
      case False
      then show ?thesis using Cons.prems(3) [of w] by auto
    qed
    from Cons.IH [OF v(2) _ this] le r True show ?thesis by (auto simp: Let_def split: if_splits)
  qed
qed

text \<open>Every answer is determined by the admitted requests before it that weigh on it.\<close>

lemma window_spec_exact:
  "i < length rs \<Longrightarrow>
   window_spec lim inwin rs adm ! i =
     (let n = int (length (filter (inwin (fst (rs ! i)))
                (admitted_times (take i rs) (take i (window_spec lim inwin rs adm)) @ adm)))
      in if n < lim then Some (0, lim - n - 1) else None)"
proof (induction rs arbitrary: i adm)
  case (Cons r rs)
  obtain v u where r: "r = (v, u)" by (cases r) auto
  show ?case
  proof (cases i)
    case 0
    then show ?thesis using r by (simp add: Let_def)
  next
    case (Suc j)
    with Cons.prems have "j < length rs" by simp
    from Cons.IH [OF this, of adm] Cons.IH [OF this, of "v # adm"] show ?thesis
      using r Suc by (simp add: Let_def)
  qed
qed simp

lemma answers_length [simp]: "length (answers chk rs s) = length rs"
  by (induction chk rs s rule: answers.induct) (auto split: prod.splits)

locale window_cell =
  fixes lim :: int
    and inwin :: "int \<Rightarrow> int \<Rightarrow> bool"
    and inv :: "int \<Rightarrow> string list \<Rightarrow> 's \<Rightarrow> bool"
    and occ :: "int \<Rightarrow> 's \<Rightarrow> int"
    and chk :: "int \<Rightarrow> string \<Rightarrow> 's \<Rightarrow> (int \<times> int) option \<times> 's"
  assumes inwin_back: "inwin t' x \<Longrightarrow> x \<le> t \<Longrightarrow> t \<le> t' \<Longrightarrow> inwin t x"
    and lim_pos: "0 < lim"
    and inv_mono: "inv t us s \<Longrightarrow> t \<le> t' \<Longrightarrow> valid_time t' \<Longrightarrow> inv t' us s"
    and occ_nonneg: "inv t us s \<Longrightarrow> 0 \<le> occ t s"
    and chk_answer: "inv t us s \<Longrightarrow> u \<notin> set us \<Longrightarrow>
      fst (chk t u s) = (if occ t s < lim then Some (0, lim - occ t s - 1) else None)"
    and chk_occ: "inv t us s \<Longrightarrow> u \<notin> set us \<Longrightarrow> t \<le> t' \<Longrightarrow> valid_time t' \<Longrightarrow>
      occ t' (snd (chk t u s)) = occ t' s + (if occ t s < lim \<and> inwin t' t then 1 else 0)"
    and chk_inv: "inv t us s \<Longrightarrow> u \<notin> set us \<Longrightarrow> inv t (u # us) (snd (chk t u s))"
begin

lemma chk_Some:
  assumes "inv t us s" "u \<notin> set us" "fst (chk t u s) = Some (d, n)"
  shows "d = 0 \<and> 0 \<le> n \<and> n < lim"
  using chk_answer [OF assms(1,2)] occ_nonneg [OF assms(1)] assms(3) by (simp split: if_splits)

lemma run_spec:
  "inv t us s \<Longrightarrow> requests_ok rs t us \<Longrightarrow>
   (\<And>t'. t \<le> t' \<Longrightarrow> valid_time t' \<Longrightarrow> occ t' s = int (length (filter (inwin t') adm))) \<Longrightarrow>
   answers chk rs s = window_spec lim inwin rs adm"
proof (induction rs arbitrary: t us s adm)
  case Nil
  then show ?case by simp
next
  case (Cons r rs)
  obtain v u where r: "r = (v, u)" by (cases r) auto
  with Cons.prems have v: "t \<le> v" "valid_time v" "u \<notin> set us" "requests_ok rs v (u # us)" by auto
  have i: "inv v us s" using inv_mono Cons.prems(1) v by blast
  obtain a s' where c: "chk v u s = (a, s')" by fastforce
  have o: "occ v s = int (length (filter (inwin v) adm))" using Cons.prems(3) v by blast
  have i': "inv v (u # us) s'" using chk_inv [OF i v(3)] c by simp
  have "occ t' s' = int (length (filter (inwin t') (if occ v s < lim then v # adm else adm)))"
    if "v \<le> t'" "valid_time t'" for t'
    using chk_occ [OF i v(3) that] c Cons.prems(3) [of t'] v(1) that by auto
  from Cons.IH [OF i' v(4) this] show ?case
    using chk_answer [OF i v(3)] c r o by (auto simp: Let_def)
qed

text \<open>Started empty, at most \<open>lim\<close> of the admitted requests weigh on any instant.\<close>

lemma run_bound:
  assumes "inv t us s" "requests_ok rs t us"
    and "\<And>t'. t \<le> t' \<Longrightarrow> valid_time t' \<Longrightarrow> occ t' s = 0"
  shows "int (length (filter (\<lambda>u. u \<le> t' \<and> inwin t' u) (admitted_times rs (answers chk rs s)))) \<le> lim"
proof -
  have "answers chk rs s = window_spec lim inwin rs []" by (rule run_spec [OF assms(1,2)]) (simp add: assms(3))
  then show ?thesis
    using window_spec_bound [where inwin = inwin and adm = "[]", OF inwin_back assms(2)] lim_pos by simp
qed

text \<open>Started empty, a request is admitted exactly when fewer than \<open>lim\<close> admitted ones weigh on it.\<close>

lemma run_exact:
  assumes "inv t us s" "requests_ok rs t us"
    and "\<And>t'. t \<le> t' \<Longrightarrow> valid_time t' \<Longrightarrow> occ t' s = 0" and "i < length rs"
  shows "answers chk rs s ! i =
    (let n = int (length (filter (inwin (fst (rs ! i))) (admitted_times (take i rs) (take i (answers chk rs s)))))
     in if n < lim then Some (0, lim - n - 1) else None)"
proof -
  have "answers chk rs s = window_spec lim inwin rs []" by (rule run_spec [OF assms(1,2)]) (simp add: assms(3))
  then show ?thesis using window_spec_exact [OF assms(4), of lim inwin "[]"] by simp
qed

end

section \<open>Scheduled slots\<close>

text \<open>The specification keeps the next free instant; a request waits for it or is refused.\<close>

fun slot_spec :: "int \<Rightarrow> int \<Rightarrow> request list \<Rightarrow> int \<Rightarrow> (int \<times> int) option list" where
  "slot_spec interval wait [] nxt = []"
| "slot_spec interval wait ((t, _) # rs) nxt =
     (if wait < max nxt t - t then None # slot_spec interval wait rs nxt
      else Some (max nxt t - t, 0) # slot_spec interval wait rs (max nxt t + interval))"

text \<open>The instants at which the admitted requests proceed.\<close>

fun start_times :: "request list \<Rightarrow> (int \<times> int) option list \<Rightarrow> int list" where
  "start_times ((t, _) # rs) (a # as) =
     (case a of None \<Rightarrow> [] | Some (d, _) \<Rightarrow> [t + d]) @ start_times rs as"
| "start_times _ _ = []"

fun spaced :: "int \<Rightarrow> int list \<Rightarrow> bool" where
  "spaced d (x # y # xs) \<longleftrightarrow> x + d \<le> y \<and> spaced d (y # xs)"
| "spaced d _ = True"

lemma spaced_Cons: "(xs \<noteq> [] \<Longrightarrow> x + d \<le> hd xs) \<Longrightarrow> spaced d xs \<Longrightarrow> spaced d (x # xs)"
  by (cases xs) auto

lemma slot_spec_spaced:
  "spaced interval (start_times rs (slot_spec interval wait rs nxt)) \<and>
   (start_times rs (slot_spec interval wait rs nxt) \<noteq> [] \<longrightarrow>
      nxt \<le> hd (start_times rs (slot_spec interval wait rs nxt)))"
proof (induction rs arbitrary: nxt)
  case Nil
  then show ?case by simp
next
  case (Cons r rs)
  obtain v u where r: "r = (v, u)" by (cases r) auto
  show ?case
    using Cons [of nxt] Cons [of "max nxt v + interval"] r by (auto intro!: spaced_Cons)
qed

lemma slot_spec_delay: "Some (d, n) \<in> set (slot_spec interval wait rs nxt) \<Longrightarrow> 0 \<le> d \<and> d \<le> wait"
  by (induction interval wait rs nxt rule: slot_spec.induct) (auto split: if_splits)

locale slot_cell =
  fixes interval wait :: int
    and inv :: "int \<Rightarrow> 's \<Rightarrow> bool"
    and free :: "int \<Rightarrow> 's \<Rightarrow> int"
    and chk :: "int \<Rightarrow> string \<Rightarrow> 's \<Rightarrow> (int \<times> int) option \<times> 's"
  assumes inv_mono: "inv t s \<Longrightarrow> t \<le> t' \<Longrightarrow> valid_time t' \<Longrightarrow> inv t' s"
    and free_mono: "inv t s \<Longrightarrow> t \<le> t' \<Longrightarrow> valid_time t' \<Longrightarrow> free t' s = max (free t s) t'"
    and chk_answer: "inv t s \<Longrightarrow>
      fst (chk t u s) = (if wait < free t s - t then None else Some (free t s - t, 0))"
    and chk_free: "inv t s \<Longrightarrow>
      free t (snd (chk t u s)) = (if wait < free t s - t then free t s else free t s + interval)"
    and chk_inv: "inv t s \<Longrightarrow> inv t (snd (chk t u s))"
begin

lemma run_spec:
  "inv t s \<Longrightarrow> requests_ok rs t us \<Longrightarrow> max nxt t = free t s \<Longrightarrow>
   answers chk rs s = slot_spec interval wait rs nxt"
proof (induction rs arbitrary: t us s nxt)
  case Nil
  then show ?case by simp
next
  case (Cons r rs)
  obtain v u where r: "r = (v, u)" by (cases r) auto
  with Cons.prems have v: "t \<le> v" "valid_time v" "requests_ok rs v (u # us)" by auto
  have i: "inv v s" and f: "free v s = max nxt v"
    using inv_mono [OF Cons.prems(1) v(1,2)] free_mono [OF Cons.prems(1) v(1,2)] Cons.prems(3) v(1)
    by linarith+
  obtain a s' where c: "chk v u s = (a, s')" by fastforce
  have i': "inv v s'" using chk_inv [OF i, of u] c by simp
  have g: "free v s' = (if wait < max nxt v - v then max nxt v else max nxt v + interval)"
    using chk_free [OF i, of u] c f by simp
  have "free v s' = max (free v s') v" using free_mono [OF i' order_refl v(2)] by simp
  then have "max (if wait < max nxt v - v then nxt else max nxt v + interval) v = free v s'"
    using g by (auto simp: max_def split: if_splits)
  from Cons.IH [OF i' v(3) this] show ?case
    using chk_answer [OF i, of u] c r f by auto
qed

end

end
