(* ===== verification/Rate_Window.thy ===== *)
theory Rate_Window
  imports Window_Cell
begin

text \<open>
  The fixed window, the sliding window and the scheduled slot of the memory engine and of the
  Lua scripts as instances of the contracts of \<open>Window_Cell\<close>, and the properties of whole runs
  of the engine that follow.
\<close>

section \<open>Fixed window, in memory\<close>

definition same_window :: "int \<Rightarrow> int \<Rightarrow> int \<Rightarrow> bool" where
  "same_window W t u \<longleftrightarrow> t div W = u div W"

definition in_log_window :: "int \<Rightarrow> int \<Rightarrow> int \<Rightarrow> bool" where
  "in_log_window W t u \<longleftrightarrow> t - W < u"

lemma same_window_back:
  assumes "0 < W" "same_window W t' x" "x \<le> t" "t \<le> t'"
  shows "same_window W t x"
proof -
  have "x div W \<le> t div W" "t div W \<le> t' div W" using assms by (auto intro: zdiv_mono1)
  then show ?thesis using assms(2) by (simp add: same_window_def)
qed

text \<open>A window within the idle time of the cache is over when the cache forgets its counter.\<close>

definition fix_chk ::
  "int \<Rightarrow> int \<Rightarrow> int \<Rightarrow> int \<Rightarrow> string \<Rightarrow> (int \<times> fixed_window_state) option
   \<Rightarrow> (int \<times> int) option \<times> (int \<times> fixed_window_state) option"
where
  "fix_chk I W lim t u st =
     (case fixed_attempt W lim t
             (case moka_live I t st of None \<Rightarrow> \<lparr>window_id = t div W, count = 0\<rparr> | Some s \<Rightarrow> s) of
        (d, s') \<Rightarrow> (outcome d, Some (t, s')))"

definition fix_occ :: "int \<Rightarrow> int \<Rightarrow> (int \<times> fixed_window_state) option \<Rightarrow> int" where
  "fix_occ W t st =
     (case st of None \<Rightarrow> 0 | Some (_, s) \<Rightarrow> (if window_id s = t div W then count s else 0))"

definition fix_inv :: "int \<Rightarrow> int \<Rightarrow> int \<Rightarrow> string list \<Rightarrow> (int \<times> fixed_window_state) option \<Rightarrow> bool" where
  "fix_inv I W t us st \<longleftrightarrow> W \<le> I \<and>
     (case st of None \<Rightarrow> True | Some (a, s) \<Rightarrow> a \<le> t \<and> window_id s \<le> a div W \<and> 0 \<le> count s)"

lemma fix_chk_eq:
  assumes "fix_inv I W t us st" "0 < lim" "0 < W"
  shows "fix_chk I W lim t u st =
    (if fix_occ W t st < lim
     then (Some (0, lim - fix_occ W t st - 1), Some (t, \<lparr>window_id = t div W, count = fix_occ W t st + 1\<rparr>))
     else (None, Some (t, \<lparr>window_id = t div W, count = fix_occ W t st\<rparr>)))"
proof -
  have over: "window_id s \<noteq> t div W" if "st = Some (a, s)" "a + I \<le> t" for a s
  proof -
    have "(a + W) div W \<le> t div W" using that assms by (intro zdiv_mono1) (auto simp: fix_inv_def)
    moreover have "W \<noteq> 0" using assms(3) by simp
    then have "(a + W) div W = a div W + 1" by (rule div_add_self2)
    ultimately show ?thesis using that assms by (auto simp: fix_inv_def)
  qed
  show ?thesis
  proof (cases st)
    case None
    then show ?thesis using assms(2) by (simp add: fix_chk_def fixed_attempt_def fix_occ_def Let_def usat_sub_def)
  next
    case (Some p)
    obtain a s where p: "p = (a, s)" by (cases p)
    show ?thesis
    proof (cases "a + I \<le> t")
      case True
      then show ?thesis using assms(2) over [of a s] Some p
        by (simp add: fix_chk_def fixed_attempt_def fix_occ_def Let_def usat_sub_def)
    next
      case False
      then show ?thesis using assms(2) Some p
        by (cases s) (auto simp: fix_chk_def fixed_attempt_def fix_occ_def Let_def usat_sub_def)
    qed
  qed
qed

lemma fix_window_cell:
  assumes W: "0 < W" and lim: "0 < lim"
  shows "window_cell lim (same_window W) (fix_inv I W) (fix_occ W) (fix_chk I W lim)"
proof
  show "same_window W t' x \<Longrightarrow> x \<le> t \<Longrightarrow> t \<le> t' \<Longrightarrow> same_window W t x" for t' x t
    using same_window_back [OF W] .
  show "0 < lim" by (rule lim)
  show "fix_inv I W t us s \<Longrightarrow> t \<le> t' \<Longrightarrow> valid_time t' \<Longrightarrow> fix_inv I W t' us s" for t us s t'
    by (auto simp: fix_inv_def split: option.splits)
  fix t t' :: int and u us and s :: "(int \<times> fixed_window_state) option"
  assume i: "fix_inv I W t us s"
  note eq = fix_chk_eq [OF i lim W]
  show "0 \<le> fix_occ W t s" using i by (auto simp: fix_inv_def fix_occ_def split: option.splits)
  then show "fix_inv I W t (u # us) (snd (fix_chk I W lim t u s))" using i by (auto simp: eq fix_inv_def)
  show "fst (fix_chk I W lim t u s) = (if fix_occ W t s < lim then Some (0, lim - fix_occ W t s - 1) else None)"
    by (simp add: eq)
  assume "t \<le> t'"
  then have "t div W \<le> t' div W" using W by (rule zdiv_mono1)
  moreover have "window_id x \<le> t div W" if "s = Some (a, x)" for a x
    using i that zdiv_mono1 [of a t W] W by (auto simp: fix_inv_def)
  ultimately have "fix_occ W t' s = (if t div W = t' div W then fix_occ W t s else 0)"
    by (cases s) (fastforce simp: fix_occ_def)+
  then show "fix_occ W t' (snd (fix_chk I W lim t u s)) =
      fix_occ W t' s + (if fix_occ W t s < lim \<and> same_window W t' t then 1 else 0)"
    by (auto simp: eq fix_occ_def [of W t' "Some x" for x] same_window_def)
qed

section \<open>Fixed window, in Redis\<close>

definition rfix_chk ::
  "string \<Rightarrow> int \<Rightarrow> int \<Rightarrow> int \<Rightarrow> string \<Rightarrow> redis_db \<Rightarrow> (int \<times> int) option \<times> redis_db" where
  "rfix_chk key W lim t u db =
     (case lua_fixed_window t key t W lim db of
        (v, db') \<Rightarrow> (if v ! 0 = 1 then Some (0, v ! 2) else None, db'))"

definition window_key :: "string \<Rightarrow> int \<Rightarrow> string" where
  "window_key key w = key @ '':'' @ show_int w"

lemma window_key_inj [simp]: "window_key key w = window_key key w' \<longleftrightarrow> w = w'"
  using show_int_inj by (auto simp: window_key_def)

definition rfix_count :: "string \<Rightarrow> int \<Rightarrow> redis_db \<Rightarrow> int" where
  "rfix_count key w db = (case rstr db (window_key key w) of None \<Rightarrow> 0 | Some (v, _) \<Rightarrow> v)"

definition rfix_occ :: "string \<Rightarrow> int \<Rightarrow> int \<Rightarrow> int \<Rightarrow> redis_db \<Rightarrow> int" where
  "rfix_occ key W lim t db = min lim (rfix_count key (t div W) db)"

text \<open>The counter of a window lives at least to the end of the window.\<close>

definition rfix_inv :: "string \<Rightarrow> int \<Rightarrow> int \<Rightarrow> string list \<Rightarrow> redis_db \<Rightarrow> bool" where
  "rfix_inv key W t us db \<longleftrightarrow>
     valid_time t \<and> (\<forall>w. case rstr db (window_key key w) of None \<Rightarrow> True
          | Some (v, ex) \<Rightarrow> w \<le> t div W \<and> 1 \<le> v \<and> (\<exists>x. ex = Some x \<and> (w + 1) * W \<le> x))"

text \<open>The script on exact numbers.\<close>

lemma lua_fixed_window_exact:
  assumes t: "valid_time t" and W: "0 < W" "W \<le> 86400000" and lim: "0 < lim" "lim \<le> u32_max"
    and n: "0 \<le> n" and g: "redis_get t (window_key key (t div W)) db = (if n = 0 then None else Some n)"
  shows "\<exists>v x. lua_fixed_window t key t W lim db = (v,
      db\<lparr>rstr := (rstr db)(window_key key (t div W) \<mapsto> (n + 1,
        if n = 0 then Some (t + W * 2) else snd (the (rstr db (window_key key (t div W))))))\<rparr>)
    \<and> v = (if lim < n + 1 then [0, x, 0] else [1, 0, lim - (n + 1)])"
proof -
  have t': "0 \<le> t" "t \<le> 4503599627370496" using t by (auto simp: valid_time_def time_max_def)
  have l: "lim < lua_num m \<longleftrightarrow> lim < m" for m using lim by (intro lua_num_le_iff) (auto simp: u32_max_def)
  have e: "lua_num m = 1 \<longleftrightarrow> m = 1" if "0 \<le> m" for m
    using that lua_num_greater [of 1 m] lua_num_exact [of m] by fastforce
  have d: "lua_num (lim - lua_num (n + 1)) = lim - (n + 1)" if "\<not> lim < n + 1"
    using that n lim by (simp add: u32_max_def)
  have c: "(case if n = 0 then None else Some n of None \<Rightarrow> 1 | Some v \<Rightarrow> v + 1) = n + 1" by simp
  have old: "(case rstr db (window_key key (t div W)) of None \<Rightarrow> None
      | Some (_, ex) \<Rightarrow> if live t ex then ex else None) =
      (if n = 0 then None else snd (the (rstr db (window_key key (t div W)))))"
    using g by (auto simp: redis_get_def split: option.splits if_splits)
  have num: "lua_num t = t" "lua_num W = W" "lua_num lim = lim" "lua_num (W * 2) = W * 2"
    using t' W lim by (simp_all add: u32_max_def)
  have put: "(if n + 1 = 1 then redis_pexpire t (window_key key (t div W)) (W * 2)
        (db\<lparr>rstr := (rstr db)(window_key key (t div W) \<mapsto> (n + 1, if n = 0 then None else y))\<rparr>)
      else db\<lparr>rstr := (rstr db)(window_key key (t div W) \<mapsto> (n + 1, if n = 0 then None else y))\<rparr>)
    = db\<lparr>rstr := (rstr db)(window_key key (t div W) \<mapsto> (n + 1, if n = 0 then Some (t + W * 2) else y))\<rparr>" for y
    by (simp add: redis_pexpire_def)
  have n1: "0 \<le> n + 1" using n by simp
  show ?thesis
    unfolding lua_fixed_window_def lua_floor_div_def Let_def num window_key_def [symmetric] g c old l e [OF n1] put
    using d by auto
qed

lemma rfix_step:
  assumes i: "rfix_inv key W t us db" and W: "0 < W" "W \<le> 86400000" and lim: "0 < lim" "lim \<le> u32_max"
  defines "n \<equiv> rfix_count key (t div W) db"
  shows "\<exists>x. (t div W + 1) * W \<le> x \<and>
    rfix_chk key W lim t u db =
      (if lim < n + 1 then None else Some (0, lim - (n + 1)),
       db\<lparr>rstr := (rstr db)(window_key key (t div W) \<mapsto> (n + 1, Some x))\<rparr>)"
proof -
  let ?k = "window_key key (t div W)"
  have t: "valid_time t" using i by (simp add: rfix_inv_def)
  have end_t: "t < (t div W + 1) * W" "(t div W + 1) * W \<le> t + W * 2"
    using W div_mult_mod_eq [of t W] pos_mod_bound [OF W(1), of t] pos_mod_sign [OF W(1), of t]
    unfolding distrib_right by linarith+
  have st: "rstr db ?k = None \<and> n = 0 \<or> (\<exists>x. rstr db ?k = Some (n, Some x) \<and> 1 \<le> n \<and> (t div W + 1) * W \<le> x)"
    using i unfolding rfix_inv_def n_def rfix_count_def
    by (cases "rstr db ?k") (auto dest!: spec [of _ "t div W"])
  then have n: "0 \<le> n" and g: "redis_get t ?k db = (if n = 0 then None else Some n)"
    using end_t(1) by (auto simp: redis_get_def live_def)
  obtain v x0 where v: "lua_fixed_window t key t W lim db = (v,
      db\<lparr>rstr := (rstr db)(?k \<mapsto> (n + 1, if n = 0 then Some (t + W * 2) else snd (the (rstr db ?k))))\<rparr>)"
    "v = (if lim < n + 1 then [0, x0, 0] else [1, 0, lim - (n + 1)])"
    using lua_fixed_window_exact [OF t W lim n g] by blast
  have chk: "rfix_chk key W lim t u db = (if lim < n + 1 then None else Some (0, lim - (n + 1)),
      db\<lparr>rstr := (rstr db)(?k \<mapsto> (n + 1, if n = 0 then Some (t + W * 2) else snd (the (rstr db ?k))))\<rparr>)"
    unfolding rfix_chk_def v by simp
  from st show ?thesis
  proof
    assume "rstr db ?k = None \<and> n = 0"
    then show ?thesis using chk end_t(2) by (intro exI [of _ "t + W * 2"]) simp
  next
    assume "\<exists>x. rstr db ?k = Some (n, Some x) \<and> 1 \<le> n \<and> (t div W + 1) * W \<le> x"
    then obtain x where "rstr db ?k = Some (n, Some x)" "1 \<le> n" "(t div W + 1) * W \<le> x" by blast
    then show ?thesis using chk by (intro exI [of _ x]) simp
  qed
qed

lemma rfix_count_upd:
  "rfix_count key w (db\<lparr>rstr := (rstr db)(window_key key w' \<mapsto> (v, ex))\<rparr>) =
     (if w = w' then v else rfix_count key w db)"
  by (simp add: rfix_count_def)

lemma rfix_window_cell:
  assumes W: "0 < W" "W \<le> 86400000" and lim: "0 < lim" "lim \<le> u32_max"
  shows "window_cell lim (same_window W) (rfix_inv key W) (rfix_occ key W lim) (rfix_chk key W lim)"
proof
  show "same_window W t' x \<Longrightarrow> x \<le> t \<Longrightarrow> t \<le> t' \<Longrightarrow> same_window W t x" for t' x t
    using same_window_back [OF W(1)] .
  show "0 < lim" by (rule lim)
  show "rfix_inv key W t us s \<Longrightarrow> t \<le> t' \<Longrightarrow> valid_time t' \<Longrightarrow> rfix_inv key W t' us s" for t us s t'
    using zdiv_mono1 [of t t' W] W unfolding rfix_inv_def
    by (fastforce split: option.splits)
  fix t t' :: int and u us and s :: redis_db
  assume i: "rfix_inv key W t us s"
  obtain x where x: "(t div W + 1) * W \<le> x" "rfix_chk key W lim t u s =
      (if lim < rfix_count key (t div W) s + 1 then None else Some (0, lim - (rfix_count key (t div W) s + 1)),
       s\<lparr>rstr := (rstr s)(window_key key (t div W) \<mapsto> (rfix_count key (t div W) s + 1, Some x))\<rparr>)"
    using rfix_step [OF i W lim] by blast
  show "fst (rfix_chk key W lim t u s) =
      (if rfix_occ key W lim t s < lim then Some (0, lim - rfix_occ key W lim t s - 1) else None)"
    using x by (auto simp: rfix_occ_def)
  have n: "0 \<le> rfix_count key (t div W) s"
    using i unfolding rfix_inv_def rfix_count_def by (force split: option.splits)
  then show "0 \<le> rfix_occ key W lim t s" using lim by (simp add: rfix_occ_def)
  from n show "rfix_inv key W t (u # us) (snd (rfix_chk key W lim t u s))"
    using i x(1) unfolding x(2) rfix_inv_def by auto
  show "rfix_occ key W lim t' (snd (rfix_chk key W lim t u s)) =
      rfix_occ key W lim t' s + (if rfix_occ key W lim t s < lim \<and> same_window W t' t then 1 else 0)"
    by (auto simp: x(2) rfix_occ_def rfix_count_upd same_window_def)
qed


section \<open>Sliding window, in memory\<close>

definition sli_log :: "(int \<times> int list) option \<Rightarrow> int list" where
  "sli_log st = (case st of None \<Rightarrow> [] | Some (_, log) \<Rightarrow> log)"

definition sli_chk ::
  "int \<Rightarrow> int \<Rightarrow> int \<Rightarrow> int \<Rightarrow> string \<Rightarrow> (int \<times> int list) option
   \<Rightarrow> (int \<times> int) option \<times> (int \<times> int list) option"
where
  "sli_chk I W lim t u st =
     (case sliding_attempt W lim t (case moka_live I t st of None \<Rightarrow> [] | Some log \<Rightarrow> log) of
        (d, log') \<Rightarrow> (outcome d, Some (t, log')))"

definition sli_occ :: "int \<Rightarrow> int \<Rightarrow> (int \<times> int list) option \<Rightarrow> int" where
  "sli_occ W t st = int (length (filter (in_log_window W t) (sli_log st)))"

definition sli_inv :: "int \<Rightarrow> int \<Rightarrow> int \<Rightarrow> int \<Rightarrow> string list \<Rightarrow> (int \<times> int list) option \<Rightarrow> bool" where
  "sli_inv I W lim t us st \<longleftrightarrow> W \<le> I \<and>
     (case st of None \<Rightarrow> True
      | Some (a, log) \<Rightarrow> a \<le> t \<and> sorted log \<and> (\<forall>x \<in> set log. x \<le> a) \<and> int (length log) \<le> lim)"

lemma sli_log_simps [simp]: "sli_log None = []" "sli_log (Some (a, log)) = log"
  by (simp_all add: sli_log_def)

lemma sorted_dropWhile_filter:
  "sorted xs \<Longrightarrow> dropWhile (\<lambda>x. x \<le> (c :: int)) xs = filter (\<lambda>x. c < x) xs"
  by (induction xs) (auto intro!: filter_True [symmetric])

lemma in_log_window_eq: "in_log_window W t = (<) (t - W)"
  by (simp add: in_log_window_def fun_eq_iff)

lemma in_log_window_filter [simp]:
  "t \<le> t' \<Longrightarrow> filter (in_log_window W t') (filter (\<lambda>x. t - W < x) log) = filter (in_log_window W t') log"
  by (induction log) (auto simp: in_log_window_def)

lemma sli_chk_eq:
  assumes i: "sli_inv I W lim t us st" and lim: "0 < lim" "lim \<le> u32_max" and W: "0 < W"
  shows "sli_chk I W lim t u st =
    (if sli_occ W t st < lim
     then (Some (0, lim - sli_occ W t st - 1), Some (t, filter (\<lambda>x. t - W < x) (sli_log st) @ [t]))
     else (None, Some (t, filter (\<lambda>x. t - W < x) (sli_log st))))"
proof -
  let ?z = "filter (\<lambda>x. t - W < x) (sli_log st)"
  have "int (length (sli_log st)) \<le> lim" and s: "sorted (sli_log st)"
    using i lim by (auto simp: sli_inv_def split: option.splits)
  then have l: "int (length ?z) \<le> lim" using length_filter_le [of "\<lambda>x. t - W < x" "sli_log st"] by linarith
  have "dropWhile (\<lambda>ts. ts \<le> t - W) (case moka_live I t st of None \<Rightarrow> [] | Some log \<Rightarrow> log) = ?z"
  proof (cases st)
    case (Some p)
    obtain a log where p: "p = (a, log)" by (cases p)
    then have "W \<le> I" "\<forall>x \<in> set log. x \<le> a" using i Some by (auto simp: sli_inv_def)
    then have "a + I \<le> t \<Longrightarrow> filter (\<lambda>x. t - W < x) log = []" by (fastforce simp: filter_empty_conv)
    then show ?thesis using s Some p by (simp add: sorted_dropWhile_filter)
  qed simp
  then show ?thesis
    using l lim unfolding sli_chk_def sliding_attempt_def Let_def
    by (simp add: sli_occ_def in_log_window_eq usat_sub_def)
qed

lemma sli_window_cell:
  assumes W: "0 < W" and lim: "0 < lim" "lim \<le> u32_max"
  shows "window_cell lim (in_log_window W) (sli_inv I W lim) (sli_occ W) (sli_chk I W lim)"
proof
  show "in_log_window W t' x \<Longrightarrow> x \<le> t \<Longrightarrow> t \<le> t' \<Longrightarrow> in_log_window W t x" for t' x t
    by (simp add: in_log_window_def)
  show "0 < lim" by (rule lim)
  show "sli_inv I W lim t us s \<Longrightarrow> t \<le> t' \<Longrightarrow> valid_time t' \<Longrightarrow> sli_inv I W lim t' us s" for t us s t'
    by (auto simp: sli_inv_def split: option.splits)
  fix t t' :: int and u us and s
  assume i: "sli_inv I W lim t us s"
  note eq = sli_chk_eq [OF i lim W, of u]
  show "0 \<le> sli_occ W t s" by (simp add: sli_occ_def)
  show "fst (sli_chk I W lim t u s) = (if sli_occ W t s < lim then Some (0, lim - sli_occ W t s - 1) else None)"
    by (simp add: eq)
  have log: "int (length (sli_log s)) \<le> lim" "sorted (sli_log s)" "\<forall>x \<in> set (sli_log s). x \<le> t" "W \<le> I"
    using i lim by (fastforce simp: sli_inv_def split: option.splits)+
  then have "int (length (filter (\<lambda>x. t - W < x) (sli_log s))) \<le> lim"
    using length_filter_le [of "\<lambda>x. t - W < x" "sli_log s"] by linarith
  then show "sli_inv I W lim t (u # us) (snd (sli_chk I W lim t u s))"
    using log by (auto simp: eq sli_inv_def sorted_append sli_occ_def in_log_window_eq intro: sorted_filter [of id, simplified])
  assume "t \<le> t'"
  then show "sli_occ W t' (snd (sli_chk I W lim t u s)) =
      sli_occ W t' s + (if sli_occ W t s < lim \<and> in_log_window W t' t then 1 else 0)"
    by (auto simp: eq sli_occ_def [of W t'] simp del: filter_filter)
qed

section \<open>Sliding window, in Redis\<close>

definition rsli_chk ::
  "string \<Rightarrow> int \<Rightarrow> int \<Rightarrow> int \<Rightarrow> int \<Rightarrow> string \<Rightarrow> redis_db \<Rightarrow> (int \<times> int) option \<times> redis_db" where
  "rsli_chk key W lim ttl t u db =
     (case lua_sliding_window t key t W lim (show_int t @ '':'' @ u) ttl db of
        (v, db') \<Rightarrow> (if v ! 0 = 1 then Some (0, v ! 2) else None, db'))"

definition rsli_log :: "string \<Rightarrow> redis_db \<Rightarrow> (int \<times> string) list" where
  "rsli_log key db = (case rzset db key of None \<Rightarrow> [] | Some (z, _) \<Rightarrow> z)"

definition rsli_occ :: "string \<Rightarrow> int \<Rightarrow> int \<Rightarrow> redis_db \<Rightarrow> int" where
  "rsli_occ key W t db = int (length (filter (\<lambda>(s, _). t - W < s) (rsli_log key db)))"

text \<open>The set outlives the window of its last entry, and its members carry the UUIDs already used.\<close>

definition rsli_inv :: "string \<Rightarrow> int \<Rightarrow> int \<Rightarrow> string list \<Rightarrow> redis_db \<Rightarrow> bool" where
  "rsli_inv key W t us db \<longleftrightarrow>
     valid_time t \<and> (case rzset db key of None \<Rightarrow> True
      | Some (z, ex) \<Rightarrow> (\<exists>x. ex = Some x \<and>
          (\<forall>(s, m) \<in> set z. s \<le> t \<and> s + W \<le> x \<and> (\<exists>u \<in> set us. m = show_int s @ '':'' @ u))))"

lemma colon_split_inj:
  "c \<notin> set a \<Longrightarrow> c \<notin> set b \<Longrightarrow> a @ c # p = b @ c # q \<longleftrightarrow> a = b \<and> p = q"
proof (induction a arbitrary: b)
  case Nil
  then show ?case by (cases b) auto
next
  case (Cons y a)
  then show ?case by (cases b) auto
qed

lemma member_inj: "show_int s @ '':'' @ u = show_int t @ '':'' @ v \<longleftrightarrow> s = t \<and> u = v"
  by (simp add: colon_split_inj)

lemma rsli_zget:
  assumes "rsli_inv key W t us db"
  shows "filter (\<lambda>(s, _). t - W < s) (redis_zget t key db) = filter (\<lambda>(s, _). t - W < s) (rsli_log key db)"
proof (cases "rzset db key")
  case None
  then show ?thesis by (simp add: redis_zget_def rsli_log_def)
next
  case (Some p)
  obtain z ex where p: "p = (z, ex)" by (cases p) auto
  with Some assms obtain x where "ex = Some x" "\<forall>(s, m) \<in> set z. s + W \<le> x"
    by (fastforce simp: rsli_inv_def)
  then have "\<not> t < x \<Longrightarrow> filter (\<lambda>(s, _). t - W < s) z = []" by (fastforce simp: filter_empty_conv)
  then show ?thesis
    using Some p \<open>ex = Some x\<close> by (simp add: redis_zget_def rsli_log_def live_def)
qed

definition rsli_put :: "string \<Rightarrow> int \<Rightarrow> (int \<times> string) list \<Rightarrow> redis_db \<Rightarrow> redis_db" where
  "rsli_put key x z db = db\<lparr>rzset := (rzset db)(key := if z = [] then None else Some (z, Some x))\<rparr>"

lemma rsli_log_put [simp]: "rsli_log key (rsli_put key x z db) = z"
  by (simp add: rsli_log_def rsli_put_def)

lemma rsli_chk_eq:
  assumes i: "rsli_inv key W t us db" and u: "u \<notin> set us"
    and W: "0 < W" "W \<le> 86400000" and lim: "0 < lim" "lim \<le> u32_max" and ttl: "0 \<le> ttl" "ttl \<le> 9007199254740"
  defines "z \<equiv> filter (\<lambda>(s, _). t - W < s) (rsli_log key db)"
  shows "rsli_chk key W lim ttl t u db =
    (if rsli_occ key W t db < lim
     then (Some (0, lim - rsli_occ key W t db - 1),
           rsli_put key (t + ttl * 1000) (z @ [(t, show_int t @ '':'' @ u)]) db)
     else (None, rsli_put key (t + ttl * 1000) z db))"
proof -
  have "m \<noteq> show_int t @ '':'' @ u" if "(s, m) \<in> set (rsli_log key db)" for s m
    using that i u member_inj by (fastforce simp: rsli_inv_def rsli_log_def split: option.splits)
  then have za: "zadd t (show_int t @ '':'' @ u) z = z @ [(t, show_int t @ '':'' @ u)]"
    by (fastforce simp: zadd_def z_def intro!: filter_cong)
  have "0 \<le> t" "t \<le> 4503599627370496" using i by (auto simp: rsli_inv_def valid_time_def time_max_def)
  then have num: "lua_num t = t" "lua_num W = W" "lua_num lim = lim" "lua_num ttl = ttl"
    "lua_num (t - W) = t - W" "lua_num (ttl * 1000) = ttl * 1000"
    using W lim ttl by (simp_all add: u32_max_def)
  have lt: "lim - 1 < lua_num n \<longleftrightarrow> lim - 1 < n" for n
    using lim by (intro lua_num_le_iff) (auto simp: u32_max_def)
  have le: "lim \<le> lua_num n \<longleftrightarrow> lim \<le> n" for n using lt [of n] by linarith
  have rem: "lua_num (lua_num (lim - lua_num n) - 1) = lim - n - 1" if "\<not> lim \<le> n" "0 \<le> n" for n
    using that lim by (simp add: u32_max_def)
  have f: "fst (rsli_chk key W lim ttl t u db) =
      (if rsli_occ key W t db < lim then Some (0, lim - rsli_occ key W t db - 1) else None)"
    unfolding rsli_chk_def lua_sliding_window_def Let_def num rsli_zget [OF i] z_def [symmetric] rsli_occ_def le
    using rem by simp
  have g: "snd (rsli_chk key W lim ttl t u db) = (if rsli_occ key W t db < lim
      then rsli_put key (t + ttl * 1000) (z @ [(t, show_int t @ '':'' @ u)]) db
      else rsli_put key (t + ttl * 1000) z db)"
    unfolding rsli_chk_def lua_sliding_window_def Let_def num rsli_zget [OF i] z_def [symmetric] rsli_occ_def le za
    by (simp add: rsli_put_def)
  show ?thesis using f g by (simp add: prod_eq_iff)
qed

lemma rsli_window_cell:
  assumes W: "0 < W" "W \<le> 86400000" and lim: "0 < lim" "lim \<le> u32_max"
    and ttl: "W \<le> ttl * 1000" "ttl \<le> 9007199254740"
  shows "window_cell lim (in_log_window W) (rsli_inv key W) (rsli_occ key W) (rsli_chk key W lim ttl)"
proof
  show "in_log_window W t' x \<Longrightarrow> x \<le> t \<Longrightarrow> t \<le> t' \<Longrightarrow> in_log_window W t x" for t' x t
    by (simp add: in_log_window_def)
  show "0 < lim" by (rule lim)
  show "rsli_inv key W t us s \<Longrightarrow> t \<le> t' \<Longrightarrow> valid_time t' \<Longrightarrow> rsli_inv key W t' us s" for t us s t'
    by (fastforce simp: rsli_inv_def split: option.splits)
  show "0 \<le> rsli_occ key W t s" for t s by (simp add: rsli_occ_def)
  fix t t' :: int and u us and s :: redis_db
  assume i: "rsli_inv key W t us s" and u: "u \<notin> set us"
  have ttl0: "0 \<le> ttl" using ttl W by linarith
  note eq = rsli_chk_eq [OF i u W lim ttl0 ttl(2)]
  show "fst (rsli_chk key W lim ttl t u s) =
      (if rsli_occ key W t s < lim then Some (0, lim - rsli_occ key W t s - 1) else None)"
    by (simp add: eq)
  have "\<forall>(x, m) \<in> set (rsli_log key s). x \<le> t \<and> (\<exists>u \<in> set us. m = show_int x @ '':'' @ u)"
    using i by (fastforce simp: rsli_inv_def rsli_log_def split: option.splits)
  then show "rsli_inv key W t (u # us) (snd (rsli_chk key W lim ttl t u s))"
    using ttl i by (fastforce simp: eq rsli_inv_def rsli_put_def)
  assume t': "t \<le> t'"
  then have "filter (\<lambda>(x, _). t' - W < x) (filter (\<lambda>(x, _). t - W < x) l) =
      filter (\<lambda>(x, _). t' - W < x) l" for l :: "(int \<times> string) list"
    by (induction l) auto
  then show "rsli_occ key W t' (snd (rsli_chk key W lim ttl t u s)) =
      rsli_occ key W t' s + (if rsli_occ key W t s < lim \<and> in_log_window W t' t then 1 else 0)"
    by (auto simp: eq rsli_occ_def [of key W t'] in_log_window_def)
qed


section \<open>Scheduled slot\<close>

definition slot_next :: "int \<Rightarrow> int \<Rightarrow> (int \<times> int) option \<Rightarrow> int" where
  "slot_next I t st = (case moka_live I t st of None \<Rightarrow> t | Some n \<Rightarrow> n)"

definition slot_chk ::
  "int \<Rightarrow> int \<Rightarrow> int \<Rightarrow> int \<Rightarrow> string \<Rightarrow> (int \<times> int) option \<Rightarrow> (int \<times> int) option \<times> (int \<times> int) option" where
  "slot_chk I i w t u st =
     (case slot_attempt i w t (slot_next I t st) of (d, n') \<Rightarrow> (outcome d, Some (t, n')))"

definition slot_free :: "int \<Rightarrow> (int \<times> int) option \<Rightarrow> int" where
  "slot_free t st = (case st of None \<Rightarrow> t | Some (_, n) \<Rightarrow> max n t)"

text \<open>No slot is given away later than the longest wait and one interval after its request.\<close>

definition slot_inv :: "int \<Rightarrow> int \<Rightarrow> int \<Rightarrow> int \<Rightarrow> (int \<times> int) option \<Rightarrow> bool" where
  "slot_inv I i w t st \<longleftrightarrow> w + i \<le> I \<and> valid_time t \<and>
     (case st of None \<Rightarrow> True | Some (a, n) \<Rightarrow> a \<le> t \<and> n \<le> a + w + i)"

lemma slot_chk_eq:
  assumes inv: "slot_inv I i w t st" and i: "1 \<le> i" "i \<le> 86400000" and w: "0 \<le> w" "w \<le> wait_max"
  shows "slot_chk I i w t u st =
    (if w < slot_free t st - t then (None, Some (t, slot_next I t st))
     else (Some (slot_free t st - t, 0), Some (t, slot_free t st + i)))"
    and "max (slot_next I t st) t = slot_free t st" "slot_next I t st \<le> t + w + i"
proof -
  show f: "max (slot_next I t st) t = slot_free t st"
    using inv by (cases st) (auto simp: slot_free_def slot_next_def slot_inv_def)
  show n: "slot_next I t st \<le> t + w + i"
    using inv i w by (cases st) (auto simp: slot_next_def slot_inv_def)
  have "slot_next I t st \<le> time_max + wait_max + i"
    using n w inv by (auto simp: slot_inv_def valid_time_def)
  then show "slot_chk I i w t u st =
    (if w < slot_free t st - t then (None, Some (t, slot_next I t st))
     else (Some (slot_free t st - t, 0), Some (t, slot_free t st + i)))"
    using slot_attempt_eq [OF i w(1), of t "slot_next I t st"] inv f
    by (auto simp: slot_chk_def slot_inv_def meta_rejected_def Let_def)
qed

lemma slot_cell_mem:
  assumes i: "1 \<le> i" "i \<le> 86400000" and w: "0 \<le> w" "w \<le> wait_max"
  shows "slot_cell i w (slot_inv I i w) slot_free (slot_chk I i w)"
proof
  show "slot_inv I i w t s \<Longrightarrow> t \<le> t' \<Longrightarrow> valid_time t' \<Longrightarrow> slot_inv I i w t' s" for t s t'
    by (auto simp: slot_inv_def split: option.splits)
  show "slot_inv I i w t s \<Longrightarrow> t \<le> t' \<Longrightarrow> valid_time t' \<Longrightarrow> slot_free t' s = max (slot_free t s) t'" for t s t'
    by (auto simp: slot_free_def split: option.splits)
  fix t u s assume inv: "slot_inv I i w t s"
  note eq = slot_chk_eq [OF inv i w]
  have f: "t \<le> slot_free t s" by (auto simp: slot_free_def split: option.splits)
  show "fst (slot_chk I i w t u s) = (if w < slot_free t s - t then None else Some (slot_free t s - t, 0))"
    by (simp add: eq)
  show "slot_free t (snd (slot_chk I i w t u s)) = (if w < slot_free t s - t then slot_free t s else slot_free t s + i)"
    using f i eq(2) by (simp add: eq(1) slot_free_def [of t "Some x" for x])
  show "slot_inv I i w t (snd (slot_chk I i w t u s))"
    using inv w i eq(3) by (auto simp: eq(1) slot_inv_def)
qed

definition rslot_chk ::
  "string \<Rightarrow> int \<Rightarrow> int \<Rightarrow> int \<Rightarrow> int \<Rightarrow> string \<Rightarrow> redis_db \<Rightarrow> (int \<times> int) option \<times> redis_db" where
  "rslot_chk key i w ttl t u db =
     (case lua_scheduled_slot t key t i w ttl db of
        (v, db') \<Rightarrow> (if v ! 0 = 1 then Some (v ! 1, 0) else None, db'))"

definition rslot_free :: "string \<Rightarrow> int \<Rightarrow> redis_db \<Rightarrow> int" where
  "rslot_free key t db = (case rstr db key of None \<Rightarrow> t | Some (n, _) \<Rightarrow> max n t)"

definition rslot_inv :: "string \<Rightarrow> int \<Rightarrow> int \<Rightarrow> int \<Rightarrow> redis_db \<Rightarrow> bool" where
  "rslot_inv key i w t db \<longleftrightarrow> valid_time t \<and>
     (case rstr db key of None \<Rightarrow> True
      | Some (n, ex) \<Rightarrow> 0 \<le> n \<and> n \<le> t + w + i \<and> (\<exists>x. ex = Some x \<and> n \<le> x))"

lemma lua_scheduled_slot_exact:
  assumes inv: "rslot_inv key i w t db" and i: "0 < i" "i \<le> 86400000" and w: "0 \<le> w" "w \<le> wait_max"
    and ttl: "0 \<le> ttl" "ttl \<le> 9007199254740992"
  shows "lua_scheduled_slot t key t i w ttl db =
    (if w < rslot_free key t db - t then ([0, rslot_free key t db - t, 0], db)
     else ([1, rslot_free key t db - t, 0], redis_set_ex t key (rslot_free key t db + i) ttl db))"
proof -
  let ?f = "rslot_free key t db"
  have t: "0 \<le> t" "t \<le> 4503599627370496" and w': "w \<le> 4503599540970496"
    using inv w by (auto simp: rslot_inv_def valid_time_def time_max_def wait_max_def)
  have f: "t \<le> ?f" "?f \<le> t + w + i" using inv i w by (auto simp: rslot_inv_def rslot_free_def split: option.splits)
  have num: "lua_num t = t" "lua_num i = i" "lua_num w = w" "lua_num ttl = ttl" "lua_num (?f - t) = ?f - t"
    using t i w w' ttl f by simp_all
  have n: "lua_num n = n" if "redis_get t key db = Some n" for n
    using that inv t w' i by (auto simp: redis_get_def rslot_inv_def split: option.splits if_splits)
  have free: "(if (case redis_get t key db of None \<Rightarrow> t | Some v \<Rightarrow> lua_num v) < t then t
      else (case redis_get t key db of None \<Rightarrow> t | Some v \<Rightarrow> lua_num v)) = ?f"
    using inv n by (cases "redis_get t key db")
      (auto simp: redis_get_def rslot_inv_def rslot_free_def live_def split: option.splits if_splits)
  have s: "lua_num (?f + i) = ?f + i" if "\<not> w < ?f - t" using that t w' i f by simp
  show ?thesis
    unfolding lua_scheduled_slot_def Let_def num free using s by simp
qed

lemma rslot_chk_eq:
  assumes "rslot_inv key i w t db" "0 < i" "i \<le> 86400000" "0 \<le> w" "w \<le> wait_max" "0 \<le> ttl" "ttl \<le> 9007199254740992"
  shows "rslot_chk key i w ttl t u db =
    (if w < rslot_free key t db - t then (None, db)
     else (Some (rslot_free key t db - t, 0), redis_set_ex t key (rslot_free key t db + i) ttl db))"
  unfolding rslot_chk_def lua_scheduled_slot_exact [OF assms] by simp

lemma slot_cell_red:
  assumes i: "0 < i" "i \<le> 86400000" and w: "0 \<le> w" "w \<le> wait_max"
    and ttl: "w + i \<le> ttl * 1000" "ttl \<le> 9007199254740992"
  shows "slot_cell i w (rslot_inv key i w) (rslot_free key) (rslot_chk key i w ttl)"
proof
  show "rslot_inv key i w t s \<Longrightarrow> t \<le> t' \<Longrightarrow> valid_time t' \<Longrightarrow> rslot_inv key i w t' s" for t s t'
    by (auto simp: rslot_inv_def split: option.splits)
  show "rslot_inv key i w t s \<Longrightarrow> t \<le> t' \<Longrightarrow> valid_time t' \<Longrightarrow>
      rslot_free key t' s = max (rslot_free key t s) t'" for t s t'
    by (auto simp: rslot_free_def split: option.splits)
  have ttl0: "0 \<le> ttl" using ttl i w by linarith
  fix t u s assume inv: "rslot_inv key i w t s"
  note eq = rslot_chk_eq [OF inv i w ttl0 ttl(2)]
  have f: "t \<le> rslot_free key t s" by (auto simp: rslot_free_def split: option.splits)
  show "fst (rslot_chk key i w ttl t u s) =
      (if w < rslot_free key t s - t then None else Some (rslot_free key t s - t, 0))"
    by (simp add: eq)
  show "rslot_free key t (snd (rslot_chk key i w ttl t u s)) =
      (if w < rslot_free key t s - t then rslot_free key t s else rslot_free key t s + i)"
    using f i by (auto simp: eq redis_set_ex_def rslot_free_def [of key t "s\<lparr>rstr := r\<rparr>" for r])
  show "rslot_inv key i w t (snd (rslot_chk key i w ttl t u s))"
    using inv ttl f i by (auto simp: eq rslot_inv_def redis_set_ex_def valid_time_def)
qed

end
