(* ===== verification/Rate_Runs.thy ===== *)
theory Rate_Runs
  imports Rate_Window
begin

text \<open>
  Runs of the engine on one user key for the counting and scheduling algorithms: the contracts of
  \<open>Window_Cell\<close> interpreted at the parameters of a configuration, and the properties of the admitted
  requests. Times to live are the code's \<open>redis_expire_seconds\<close>.
\<close>

fun memory_run ::
  "(string \<Rightarrow> string) \<Rightarrow> string \<Rightarrow> rate_limit_config \<Rightarrow> request list \<Rightarrow> 'net rate_limit_engine
   \<Rightarrow> rate_limit_decision list" where
  "memory_run md5 key c [] e = []"
| "memory_run md5 key c ((t, u) # rs) e =
     (case check_memory md5 t key c 1 e of (d, e') \<Rightarrow> d # memory_run md5 key c rs e')"

fun redis_run ::
  "(string \<Rightarrow> string) \<Rightarrow> string \<Rightarrow> rate_limit_config \<Rightarrow> request list \<Rightarrow> 'net rate_limit_engine
   \<Rightarrow> redis_db \<Rightarrow> rate_limit_decision list" where
  "redis_run md5 key c [] e db = []"
| "redis_run md5 key c ((t, u) # rs) e db =
     (case exec_lua t (redis_key_for md5 key c) (redis_call u t c 1) db of
        (v, db') \<Rightarrow>
          (case check_redis md5 t (Inr v :: unit + int list) key c 1 e of
             (d, e') \<Rightarrow> d # redis_run md5 key c rs e' db'))"

section \<open>The contracts at a configuration\<close>

lemma config_window [simp]: "0 < window_millis c" "max (window_millis c) 1 = window_millis c" "window_millis c \<noteq> 0"
  using window_millis_per_bounds(1) [of "per c"] unfolding window_millis_def by linarith+

lemma config_limit [simp]: "0 < window_limit c"
  using window_limit_pos [of c] by linarith

lemma config_interval [simp]: "1 \<le> emission_interval_millis c" "emission_interval_millis c \<le> 86400000"
  using config_params_ok [of c] by (auto simp: params_ok_def)

lemma window_ttl: "window_millis c \<le> redis_expire_seconds (c\<lparr>algorithm := SlidingWindow\<rparr>) * 1000"
  by (cases "per c") (simp_all add: redis_expire_seconds_def window_seconds_def window_millis_def
      window_millis_per_def Let_def)

lemma sliding_ttl_small: "redis_expire_seconds (c\<lparr>algorithm := SlidingWindow\<rparr>) \<le> 9007199254740"
  by (cases "per c") (simp_all add: redis_expire_seconds_def window_seconds_def Let_def)

lemma config_window_day [simp]: "window_millis c \<le> 86400000"
  by (simp add: window_millis_def)

lemma slot_wait_nonneg [simp]: "0 \<le> slot_wait c"
  by (simp add: slot_wait_def)

lemma slot_ttl:
  assumes "uses_scheduled_slot (algorithm c)" "slot_wait c \<le> wait_max"
  shows "slot_wait c + emission_interval_millis c \<le> redis_expire_seconds c * 1000"
    and "redis_expire_seconds c \<le> 9007199254740992"
proof -
  let ?i = "emission_interval_millis c"
  have i: "1 \<le> ?i" "?i \<le> 86400000" by simp_all
  have "slot_wait c + ?i \<le> redis_expire_seconds c * 1000 \<and> redis_expire_seconds c \<le> 9007199254740992"
  proof (cases "algorithm c = LeakyBucket")
    case True
    have "?i \<le> div_ceil ?i 1000 * 1000" by (rule div_ceil_mult_ge) simp
    moreover have "div_ceil ?i 1000 \<le> div_ceil 86400000 1000"
      using i unfolding div_ceil_def by (intro zdiv_mono1) linarith+
    then have "div_ceil ?i 1000 \<le> 86400" by (simp add: div_ceil_def)
    ultimately show ?thesis using True i by (simp add: slot_wait_def redis_expire_seconds_def Let_def max_absorb1)
  next
    case False
    then have q: "algorithm c = ThrottleQueue" using assms(1) by (cases "algorithm c") auto
    let ?s = "u64_sat_add ?i (max (uint (max_wait_ms c)) 1)"
    have w: "uint (max_wait_ms c) \<le> 4503599540970496" using assms(2) q by (simp add: slot_wait_def wait_max_def)
    then have "?i + max (uint (max_wait_ms c)) 1 \<le> u64_max" using i(2) unfolding u64_max_def by linarith
    then have s: "?s = ?i + max (uint (max_wait_ms c)) 1" by (simp add: u64_sat_add_def)
    have "?s \<le> div_ceil ?s 1000 * 1000" by (rule div_ceil_mult_ge) simp
    moreover have "div_ceil ?s 1000 \<le> div_ceil 4503599627370496 1000"
      using w i unfolding s div_ceil_def by (intro zdiv_mono1) linarith+
    then have "div_ceil ?s 1000 \<le> 4503599627371" by (simp add: div_ceil_def)
    moreover have "?i + uint (max_wait_ms c) \<le> ?s" by (simp add: s)
    moreover have "redis_expire_seconds c = max (div_ceil ?s 1000) 1 * 2"
      using q i by (simp add: redis_expire_seconds_def Let_def max_absorb1)
    moreover have "slot_wait c = uint (max_wait_ms c)" "0 \<le> uint (max_wait_ms c)" using q by (simp_all add: slot_wait_def)
    ultimately show ?thesis using i by (intro conjI) linarith+
  qed
  then show "slot_wait c + ?i \<le> redis_expire_seconds c * 1000" "redis_expire_seconds c \<le> 9007199254740992" by simp_all
qed

interpretation mem_fixed: window_cell
  "window_limit c" "same_window (window_millis c)" "fix_inv I (window_millis c)" "fix_occ (window_millis c)"
  "fix_chk I (window_millis c) (window_limit c)"
  for c :: rate_limit_config and I :: int
  by (rule fix_window_cell) simp_all

interpretation red_fixed: window_cell
  "window_limit c" "same_window (window_millis c)" "rfix_inv key (window_millis c)"
  "rfix_occ key (window_millis c) (window_limit c)" "rfix_chk key (window_millis c) (window_limit c)"
  for c :: rate_limit_config and key :: string
  by (rule rfix_window_cell) simp_all

interpretation mem_sliding: window_cell
  "window_limit c" "in_log_window (window_millis c)" "sli_inv I (window_millis c) (window_limit c)"
  "sli_occ (window_millis c)" "sli_chk I (window_millis c) (window_limit c)"
  for c :: rate_limit_config and I :: int
  by (rule sli_window_cell) simp_all

interpretation red_sliding: window_cell
  "window_limit c" "in_log_window (window_millis c)" "rsli_inv key (window_millis c)"
  "rsli_occ key (window_millis c)"
  "rsli_chk key (window_millis c) (window_limit c) (redis_expire_seconds (c\<lparr>algorithm := SlidingWindow\<rparr>))"
  for c :: rate_limit_config and key :: string
  by (rule rsli_window_cell) (simp_all add: window_ttl sliding_ttl_small)

text \<open>The leaky bucket has no wait to bound, and serves the slot contract at every configuration.\<close>

interpretation mem_slot: slot_cell
  "emission_interval_millis c" "min (slot_wait c) wait_max"
  "slot_inv I (emission_interval_millis c) (min (slot_wait c) wait_max)"
  slot_free "slot_chk I (emission_interval_millis c) (min (slot_wait c) wait_max)"
  for c :: rate_limit_config and I :: int
  by (rule slot_cell_mem) (simp_all add: wait_max_def)

section \<open>Runs of the engine are runs of the cells\<close>

lemma memory_run_answers:
  assumes "\<And>t u e d e'. check_memory md5 t key c 1 e = (d, e') \<Longrightarrow> chk (memory_idle e) t u (get e) = (outcome d, get e')"
  shows "map outcome (memory_run md5 key c rs e) = answers (chk (memory_idle e)) rs (get e)"
proof (induction rs arbitrary: e)
  case (Cons r rs)
  obtain t u where r: "r = (t, u)" by (cases r) auto
  obtain d e' where d: "check_memory md5 t key c 1 e = (d, e')" by fastforce
  show ?case using assms [OF d, of u] d r Cons check_memory_frame(5) [OF d] by simp
qed simp

lemma memory_run_length [simp]: "length (memory_run md5 key c rs e) = length rs"
  by (induction md5 key c rs e rule: memory_run.induct) (auto split: prod.splits)

lemma memory_run_fixed:
  assumes "algorithm c = FixedWindow"
  shows "map outcome (memory_run md5 key c rs e) =
    answers (fix_chk (memory_idle e) (window_millis c) (window_limit c)) rs
      (fixed_window_states e (cache_key_for md5 c key))"
proof (rule memory_run_answers)
  fix t u d and e e' :: "'a rate_limit_engine"
  assume "check_memory md5 t key c 1 e = (d, e')"
  then show "fix_chk (memory_idle e) (window_millis c) (window_limit c) t u
        (fixed_window_states e (cache_key_for md5 c key)) =
      (outcome d, fixed_window_states e' (cache_key_for md5 c key))"
    using assms by (auto simp: check_memory_def check_memory_fixed_window_def fix_chk_def get_with_def
        Let_def split: prod.splits)
qed

lemma memory_run_sliding:
  assumes "algorithm c = SlidingWindow"
  shows "map outcome (memory_run md5 key c rs e) =
    answers (sli_chk (memory_idle e) (window_millis c) (window_limit c)) rs
      (sliding_window_states e (cache_key_for md5 c key))"
proof (rule memory_run_answers)
  fix t u d and e e' :: "'a rate_limit_engine"
  assume "check_memory md5 t key c 1 e = (d, e')"
  then show "sli_chk (memory_idle e) (window_millis c) (window_limit c) t u
        (sliding_window_states e (cache_key_for md5 c key)) =
      (outcome d, sliding_window_states e' (cache_key_for md5 c key))"
    using assms by (auto simp: check_memory_def check_memory_sliding_window_def sli_chk_def get_with_def
        Let_def split: prod.splits)
qed

lemma memory_run_slot:
  assumes "uses_scheduled_slot (algorithm c)"
  shows "map outcome (memory_run md5 key c rs e) =
    answers (slot_chk (memory_idle e) (emission_interval_millis c) (slot_wait c)) rs
      (scheduled_states e (cache_key_for md5 c key))"
proof (rule memory_run_answers)
  fix t u d and e e' :: "'a rate_limit_engine"
  assume c: "check_memory md5 t key c 1 e = (d, e')"
  have m: "max (emission_interval_millis c) 1 = emission_interval_millis c"
    using config_interval(1) [of c] by linarith
  have g: "\<not> uses_gcra (algorithm c)" using assms by (cases "algorithm c") auto
  show "slot_chk (memory_idle e) (emission_interval_millis c) (slot_wait c) t u
        (scheduled_states e (cache_key_for md5 c key)) =
      (outcome d, scheduled_states e' (cache_key_for md5 c key))"
    using c assms g by (auto simp: check_memory_def check_memory_scheduled_slot_def slot_chk_def slot_next_def
        slot_wait_def get_with_def m Let_def split: prod.splits)
qed

text \<open>One step of the Redis path, for a script whose answers are those of a cell.\<close>

definition redis_step ::
  "string \<Rightarrow> rate_limit_config \<Rightarrow> int \<Rightarrow> string \<Rightarrow> redis_db \<Rightarrow> (int \<times> int) option \<times> redis_db" where
  "redis_step rk c t u db =
     (case exec_lua t rk (redis_call u t c 1) db of (v, db') \<Rightarrow> (outcome (decision_of_reply c v), db'))"

lemma redis_run_answers:
  "has_redis e \<Longrightarrow> map outcome (redis_run md5 key c rs e db) = answers (redis_step (redis_key_for md5 key c) c) rs db"
  by (induction md5 key c rs e db rule: redis_run.induct)
    (auto simp: redis_step_def check_redis_def split: prod.splits)

lemma answers_cong:
  assumes "P t us s" "requests_ok rs t us"
    and mono: "\<And>t us s t'. P t us s \<Longrightarrow> t \<le> t' \<Longrightarrow> valid_time t' \<Longrightarrow> P t' us s"
    and step: "\<And>t us s u. P t us s \<Longrightarrow> u \<notin> set us \<Longrightarrow> f t u s = g t u s \<and> P t (u # us) (snd (g t u s))"
  shows "answers f rs s = answers g rs s"
  using assms(1,2)
proof (induction rs arbitrary: t us s)
  case (Cons r rs)
  obtain v u where r: "r = (v, u)" by (cases r) auto
  with Cons.prems have v: "t \<le> v" "valid_time v" "u \<notin> set us" "requests_ok rs v (u # us)" by auto
  from step [OF mono [OF Cons.prems(1) v(1,2)] v(3)] Cons.IH [OF _ v(4)] r show ?case
    by (auto split: prod.splits)
qed simp


lemma rfix_redis_step:
  assumes a: "algorithm c = FixedWindow" and i: "rfix_inv rk (window_millis c) t us db" and u: "u \<notin> set us"
  shows "redis_step rk c t u db = rfix_chk rk (window_millis c) (window_limit c) t u db"
proof -
  let ?r = "lua_fixed_window t rk t (window_millis c) (window_limit c) db"
  have l: "length (fst ?r) = 3" by (simp add: lua_fixed_window_def Let_def)
  have n: "0 \<le> n \<and> n \<le> u32_max" if "fst (rfix_chk rk (window_millis c) (window_limit c) t u db) = Some (d, n)" for d n
    using red_fixed.chk_Some [OF i u that] window_limit_u32 [of c] by linarith
  show ?thesis
    using a l n by (auto simp: redis_step_def rfix_chk_def redis_call_def decision_of_reply_def Let_def
        unpack_triple_def decision_from_lua_triple_def split: prod.splits)
qed

lemma rsli_redis_step:
  assumes a: "algorithm c = SlidingWindow" and i: "rsli_inv rk (window_millis c) t us db" and u: "u \<notin> set us"
  shows "redis_step rk c t u db =
    rsli_chk rk (window_millis c) (window_limit c) (redis_expire_seconds (c\<lparr>algorithm := SlidingWindow\<rparr>)) t u db"
proof -
  have c: "c\<lparr>algorithm := SlidingWindow\<rparr> = c" using a by (cases c) simp
  let ?r = "lua_sliding_window t rk t (window_millis c) (window_limit c) (show_int t @ '':'' @ u)
    (redis_expire_seconds c) db"
  have l: "length (fst ?r) = 3" by (simp add: lua_sliding_window_def Let_def)
  have n: "0 \<le> n \<and> n \<le> u32_max"
    if "fst (rsli_chk rk (window_millis c) (window_limit c) (redis_expire_seconds c) t u db) = Some (d, n)" for d n
    using red_sliding.chk_Some [where c = c, OF i u, unfolded c, OF that] window_limit_u32 [of c] by linarith
  show ?thesis
    unfolding c
    using a l n by (auto simp: redis_step_def rsli_chk_def redis_call_def decision_of_reply_def Let_def
        unpack_triple_def decision_from_lua_triple_def split: prod.splits)
qed

lemma rslot_redis_step:
  assumes a: "uses_scheduled_slot (algorithm c)" and w: "slot_wait c \<le> wait_max"
    and i: "rslot_inv rk (emission_interval_millis c) (slot_wait c) t db"
  shows "redis_step rk c t u db =
    rslot_chk rk (emission_interval_millis c) (slot_wait c) (redis_expire_seconds c) t u db"
proof -
  let ?i = "emission_interval_millis c" and ?w = "slot_wait c"
  have wrap: "algorithm c = ThrottleQueue \<Longrightarrow> wrap_i64 (uint (max_wait_ms c)) = ?w"
    using w by (simp add: slot_wait_def wait_max_def wrap_i64_def)
  have al: "algorithm c = LeakyBucket \<and> ?w = 0 \<or> algorithm c = ThrottleQueue"
    using a by (cases "algorithm c") (auto simp: slot_wait_def)
  have call: "redis_call u t c 1 = CallSlot t ?i ?w (redis_expire_seconds c)"
    using al wrap by (auto simp: redis_call_def Let_def)
  have dec: "decision_of_reply c v =
      (case unpack_triple v of (al, x, r) \<Rightarrow> scheduled_decision_from_lua al x (as_u64 ?i))" for v
    using al by (auto simp: decision_of_reply_def)
  have f: "0 \<le> rslot_free rk t db - t" by (auto simp: rslot_free_def split: option.splits)
  have out: "outcome (scheduled_decision_from_lua 1 x r) = Some (x, 0)" if "0 \<le> x" "x \<le> ?w" for x r
    using that w by (auto simp: scheduled_decision_from_lua_def u64_max_def wait_max_def Let_def)
  have out0: "outcome (scheduled_decision_from_lua 0 x r) = None" for x r
    by (simp add: scheduled_decision_from_lua_def Let_def)
  have ttl0: "0 \<le> redis_expire_seconds c"
    using slot_ttl(1) [OF a w] slot_wait_nonneg [of c] config_interval(1) [of c] by linarith
  have i0: "0 < ?i" using config_interval(1) [of c] by linarith
  note exact = lua_scheduled_slot_exact [OF i i0 config_interval(2) slot_wait_nonneg w ttl0 slot_ttl(2) [OF a w]]
    and chk = rslot_chk_eq [OF i i0 config_interval(2) slot_wait_nonneg w ttl0 slot_ttl(2) [OF a w]]
  show ?thesis
    unfolding redis_step_def call exec_lua.simps exact dec chk
    using f out out0 by (simp add: unpack_triple_def)
qed


section \<open>Properties\<close>

lemma fresh_cells [simp]:
  "fix_inv I W t us None \<longleftrightarrow> W \<le> I" "fix_occ W t None = 0"
  "sli_inv I W l t us None \<longleftrightarrow> W \<le> I" "sli_occ W t None = 0"
  "slot_free t None = t"
  by (auto simp: fix_inv_def fix_occ_def sli_inv_def sli_occ_def slot_free_def)

lemma slot_fresh:
  assumes "uses_scheduled_slot (algorithm c)" "slot_wait c \<le> wait_max" "idle_covers I c" "valid_time t"
  shows "slot_inv I (emission_interval_millis c) (min (slot_wait c) wait_max) t None"
proof -
  have "\<not> uses_gcra (algorithm c)" using assms(1) by (cases "algorithm c") auto
  then show ?thesis using assms by (simp add: slot_inv_def idle_covers_def min_absorb1)
qed

lemma idle_covers_window:
  "idle_covers I c \<Longrightarrow> algorithm c = FixedWindow \<or> algorithm c = SlidingWindow \<Longrightarrow> window_millis c \<le> I"
  by (auto simp: idle_covers_def)

lemma same_window_flip: "same_window W t = (\<lambda>u. u div W = t div W)"
  by (auto simp: same_window_def fun_eq_iff)

lemma take_outcomes: "take i (map outcome ds) = map outcome (take i ds)"
  by (rule take_map)

text \<open>
  C9. The fixed window is exact, for windows within the idle time of the cache: of the requests on a key
  not seen before, each is admitted if and only if fewer than \<open>window_limit\<close> requests of its window (an
  aligned window of the clock) were admitted before it, and then with the rest of the window as its
  remaining quota; so at most \<open>window_limit\<close> requests pass in every window.
\<close>
theorem fixed_window_limit:
  assumes a: "algorithm c = FixedWindow" and idle: "idle_covers (memory_idle e) c" and rs: "requests_ok rs t []"
    and e: "fixed_window_states e (cache_key_for md5 c key) = None"
  shows "(\<forall>i < length rs. outcome (memory_run md5 key c rs e ! i) =
            (let n = int (length (filter (\<lambda>u. u div window_millis c = fst (rs ! i) div window_millis c)
                       (admitted_times (take i rs) (map outcome (take i (memory_run md5 key c rs e))))))
             in if n < window_limit c then Some (0, window_limit c - n - 1) else None))
    \<and> int (length (filter (\<lambda>u. u div window_millis c = w)
           (admitted_times rs (map outcome (memory_run md5 key c rs e))))) \<le> window_limit c"
proof
  let ?W = "window_millis c" and ?t = "(w + 1) * window_millis c - 1"
  have W: "0 < ?W" and i: "fix_inv (memory_idle e) ?W t [] None" using idle_covers_window [OF idle] a by simp_all
  have run: "map outcome (memory_run md5 key c rs e) =
      answers (fix_chk (memory_idle e) ?W (window_limit c)) rs None"
    by (simp add: memory_run_fixed [OF a] e)
  show "\<forall>i < length rs. outcome (memory_run md5 key c rs e ! i) =
            (let n = int (length (filter (\<lambda>u. u div ?W = fst (rs ! i) div ?W)
                       (admitted_times (take i rs) (map outcome (take i (memory_run md5 key c rs e))))))
             in if n < window_limit c then Some (0, window_limit c - n - 1) else None)"
    using mem_fixed.run_exact [OF i rs, folded run] by (simp add: take_outcomes same_window_flip)
  have t: "?t div ?W = w"
  proof -
    have eq: "?t = (?W - 1) + w * ?W" by (simp add: algebra_simps)
    have "?W \<noteq> 0" using W by linarith
    then show ?thesis unfolding eq using W by (subst div_mult_self1) simp_all
  qed
  have "u \<le> ?t \<and> same_window ?W ?t u \<longleftrightarrow> u div ?W = w" for u
  proof -
    have "u < (u div ?W + 1) * ?W" using div_mult_mod_eq [of u ?W] pos_mod_bound [OF W, of u]
      unfolding distrib_right by linarith
    then show ?thesis unfolding same_window_def t by auto
  qed
  then show "int (length (filter (\<lambda>u. u div ?W = w)
      (admitted_times rs (map outcome (memory_run md5 key c rs e))))) \<le> window_limit c"
    using mem_fixed.run_bound [OF i rs, of ?t, folded run] by simp
qed

theorem fixed_window_limit_witness:
  defines "md5 \<equiv> (\<lambda>s. s) :: string \<Rightarrow> string"
  defines "c \<equiv> \<lparr>rate = 1, per = Second, burst = 0, backend = Memory, algorithm = FixedWindow,
                 failure_policy = FailOpen, max_wait_ms = 0, mode = Enforce\<rparr>"
  defines "run \<equiv> memory_run md5 ''ip'' c [(1200, ''a''), (1900, ''b''), (2000, ''c'')] (engine_new False :: unit rate_limit_engine)"
  shows "outcome (run ! 0) = Some (0, 0) \<and> int (length (filter (\<lambda>u. u div 1000 = 1)
     (admitted_times [(1200, ''a''), (1900, ''b''), (2000, ''c'')] (map outcome run)))) \<le> 1"
proof -
  have c: "algorithm c = FixedWindow" "window_millis c = 1000" "window_limit c = 1"
    by (simp_all add: c_def window_millis_def window_millis_per_def window_limit_def)
  have "requests_ok [(1200, ''a''), (1900, ''b''), (2000, ''c'')] 0 []"
    by (simp add: valid_time_def time_max_def)
  note fixed_window_limit [OF c(1) _ this, of "engine_new False :: unit rate_limit_engine" md5 "''ip''" 1, folded run_def]
  then have "(\<forall>i < 3. outcome (run ! i) =
      (let n = int (length (filter (\<lambda>u. u div 1000 = fst ([(1200, ''a''), (1900, ''b''), (2000, ''c'')] ! i) div 1000)
                 (admitted_times (take i [(1200, ''a''), (1900, ''b''), (2000, ''c'')]) (map outcome (take i run)))))
       in if n < 1 then Some (0, 1 - n - 1) else None))
    \<and> int (length (filter (\<lambda>u. u div 1000 = 1)
     (admitted_times [(1200, ''a''), (1900, ''b''), (2000, ''c'')] (map outcome run)))) \<le> 1"
    by (simp add: c idle_covers_def)
  then show ?thesis by (auto dest: spec [of _ 0])
qed

text \<open>
  C10. The sliding window is exact, for windows within the idle time of the cache: of the requests on a
  fresh key, each is admitted if and only if fewer than \<open>window_limit\<close> requests admitted before it lie
  within the window's length before it; so at most \<open>window_limit\<close> requests are admitted in any
  half-open interval \<open>(t' - window, t']\<close>.
\<close>
theorem sliding_window_limit:
  assumes a: "algorithm c = SlidingWindow" and idle: "idle_covers (memory_idle e) c" and rs: "requests_ok rs t []"
    and e: "sliding_window_states e (cache_key_for md5 c key) = None"
  shows "(\<forall>i < length rs. outcome (memory_run md5 key c rs e ! i) =
            (let n = int (length (filter (\<lambda>u. fst (rs ! i) - window_millis c < u)
                       (admitted_times (take i rs) (map outcome (take i (memory_run md5 key c rs e))))))
             in if n < window_limit c then Some (0, window_limit c - n - 1) else None))
    \<and> int (length (filter (\<lambda>u. t' - window_millis c < u \<and> u \<le> t')
           (admitted_times rs (map outcome (memory_run md5 key c rs e))))) \<le> window_limit c"
proof
  let ?W = "window_millis c"
  have i: "sli_inv (memory_idle e) ?W (window_limit c) t [] None" using idle_covers_window [OF idle] a by simp
  have run: "map outcome (memory_run md5 key c rs e) =
      answers (sli_chk (memory_idle e) ?W (window_limit c)) rs None"
    by (simp add: memory_run_sliding [OF a] e)
  show "\<forall>i < length rs. outcome (memory_run md5 key c rs e ! i) =
            (let n = int (length (filter (\<lambda>u. fst (rs ! i) - ?W < u)
                       (admitted_times (take i rs) (map outcome (take i (memory_run md5 key c rs e))))))
             in if n < window_limit c then Some (0, window_limit c - n - 1) else None)"
    using mem_sliding.run_exact [OF i rs, folded run] by (simp add: take_outcomes in_log_window_eq)
  show "int (length (filter (\<lambda>u. t' - ?W < u \<and> u \<le> t')
           (admitted_times rs (map outcome (memory_run md5 key c rs e))))) \<le> window_limit c"
    using mem_sliding.run_bound [OF i rs, of t', folded run] by (simp add: in_log_window_def conj_commute)
qed

theorem sliding_window_limit_witness:
  defines "md5 \<equiv> (\<lambda>s. s) :: string \<Rightarrow> string"
  defines "c \<equiv> \<lparr>rate = 1, per = Second, burst = 0, backend = Memory, algorithm = SlidingWindow,
                 failure_policy = FailOpen, max_wait_ms = 0, mode = Enforce\<rparr>"
  shows "int (length (filter (\<lambda>u. 1000 < u \<and> u \<le> 2000) (admitted_times [(1200, ''a''), (1900, ''b'')]
     (map outcome (memory_run md5 ''ip'' c [(1200, ''a''), (1900, ''b'')]
        (engine_new False :: unit rate_limit_engine)))))) \<le> 1"
proof -
  have c: "algorithm c = SlidingWindow" "window_millis c = 1000" "window_limit c = 1"
    by (simp_all add: c_def window_millis_def window_millis_per_def window_limit_def)
  have "requests_ok [(1200, ''a''), (1900, ''b'')] 0 []"
    by (simp add: valid_time_def time_max_def)
  note sliding_window_limit [OF c(1) _ this, of "engine_new False :: unit rate_limit_engine" md5 "''ip''" 2000]
  then show ?thesis by (simp add: c idle_covers_def)
qed

text \<open>
  Leaky bucket and throttle queue pace the requests: the instants at which admitted requests of a
  key proceed (arrival plus delay) are at least one emission interval apart, and no request is made
  to wait longer than the configured maximum (not at all for the leaky bucket).
\<close>
theorem scheduled_slot_paces:
  assumes a: "uses_scheduled_slot (algorithm c)" and w: "slot_wait c \<le> wait_max"
    and idle: "idle_covers (memory_idle e) c"
    and rs: "requests_ok rs t []" and t: "valid_time t"
    and e: "scheduled_states e (cache_key_for md5 c key) = None"
  shows "spaced (emission_interval_millis c)
           (start_times rs (map outcome (memory_run md5 key c rs e)))
       \<and> (\<forall>(d, n) \<in> Option.these (set (map outcome (memory_run md5 key c rs e))). 0 \<le> d \<and> d \<le> slot_wait c)"
proof -
  have "map outcome (memory_run md5 key c rs e) = slot_spec (emission_interval_millis c) (slot_wait c) rs t"
    using mem_slot.run_spec [OF slot_fresh [OF a w idle t] rs, of t] w e by (simp add: memory_run_slot [OF a] min_absorb1)
  then show ?thesis
    using slot_spec_spaced [of "emission_interval_millis c" rs "slot_wait c" t]
      slot_spec_delay [of _ _ "emission_interval_millis c" "slot_wait c" rs t]
    by (auto simp: Option.these_def)
qed

theorem scheduled_slot_paces_witness:
  defines "md5 \<equiv> (\<lambda>s. s) :: string \<Rightarrow> string"
  defines "c \<equiv> \<lparr>rate = 2, per = Second, burst = 0, backend = Memory, algorithm = ThrottleQueue,
                 failure_policy = FailOpen, max_wait_ms = 600, mode = Enforce\<rparr>"
  defines "rs \<equiv> [(1000, ''a''), (1000, ''b''), (1100, ''c'')]"
  shows "spaced 500 (start_times rs (map outcome (memory_run md5 ''ip'' c rs
           (engine_new False :: unit rate_limit_engine))))"
proof -
  have c: "uses_scheduled_slot (algorithm c)" "emission_interval_millis c = 500" "slot_wait c = 600"
    "\<not> uses_gcra (algorithm c)"
    by (simp_all add: c_def emission_interval_eq div_ceil_def window_limit_def window_millis_per_def slot_wait_def)
  show ?thesis
    using scheduled_slot_paces [OF c(1), of "engine_new False :: unit rate_limit_engine" rs 1000 md5 "''ip''"]
    by (simp add: c rs_def valid_time_def time_max_def idle_covers_def wait_max_def)
qed


text \<open>
  C11. The two back ends of the counting and scheduling algorithms agree: on a key neither has seen,
  for requests in time order with distinct UUIDs, the Lua scripts (with the code's key lifetimes and
  the rounding of Lua's doubles) admit, delay and reject exactly as the memory engine does, with the
  same remaining quota. The window (for the scheduling algorithms the longest wait and one interval) is
  within the idle time of the memory cache, and times and waits stay below \<open>2 ^ 52\<close> milliseconds.
\<close>
theorem window_backends_agree:
  assumes a: "\<not> uses_gcra (algorithm c)" and w: "slot_wait c \<le> wait_max"
    and idle: "idle_covers (memory_idle em) c"
    and rs: "requests_ok rs t []" and t: "valid_time t"
    and em: "fixed_window_states em (cache_key_for md5 c key) = None"
      "sliding_window_states em (cache_key_for md5 c key) = None"
      "scheduled_states em (cache_key_for md5 c key) = None"
    and er: "has_redis er"
    and db: "\<forall>w. rstr db (redis_key_for md5 key c @ '':'' @ show_int w) = None"
      "rstr db (redis_key_for md5 key c) = None" "rzset db (redis_key_for md5 key c) = None"
  shows "map outcome (memory_run md5 key c rs em) = map outcome (redis_run md5 key c rs er db)"
proof -
  let ?rk = "redis_key_for md5 key c" and ?W = "window_millis c" and ?E = "emission_interval_millis c"
  consider (fixed) "algorithm c = FixedWindow" | (sliding) "algorithm c = SlidingWindow"
    | (slot) "uses_scheduled_slot (algorithm c)"
    using a by (cases "algorithm c") auto
  then show ?thesis
  proof cases
    case fixed
    have i: "rfix_inv ?rk ?W t [] db" using db(1) t by (simp add: rfix_inv_def window_key_def)
    have "answers (redis_step ?rk c) rs db = answers (rfix_chk ?rk ?W (window_limit c)) rs db"
      by (rule answers_cong [where P = "rfix_inv ?rk ?W", OF i rs]) (simp_all add: red_fixed.inv_mono red_fixed.chk_inv rfix_redis_step fixed)
    also have "\<dots> = window_spec (window_limit c) (same_window ?W) rs []"
      using db(1) by (intro red_fixed.run_spec [OF i rs]) (simp add: rfix_occ_def rfix_count_def window_key_def)
    finally show ?thesis
      using mem_fixed.run_spec [where c = c and I = "memory_idle em" and s = None and adm = "[]", OF _ rs] em
        idle_covers_window [OF idle] fixed
      by (simp add: redis_run_answers [OF er] memory_run_fixed [OF fixed])
  next
    case sliding
    have i: "rsli_inv ?rk ?W t [] db" using db(3) t by (simp add: rsli_inv_def)
    have "answers (redis_step ?rk c) rs db
        = answers (rsli_chk ?rk ?W (window_limit c) (redis_expire_seconds (c\<lparr>algorithm := SlidingWindow\<rparr>))) rs db"
      by (rule answers_cong [where P = "rsli_inv ?rk ?W", OF i rs]) (simp_all add: red_sliding.inv_mono red_sliding.chk_inv rsli_redis_step sliding)
    also have "\<dots> = window_spec (window_limit c) (in_log_window ?W) rs []"
      using db(3) by (intro red_sliding.run_spec [OF i rs]) (simp add: rsli_occ_def rsli_log_def)
    finally show ?thesis
      using mem_sliding.run_spec [where c = c and I = "memory_idle em" and s = None and adm = "[]", OF _ rs] em
        idle_covers_window [OF idle] sliding
      by (simp add: redis_run_answers [OF er] memory_run_sliding [OF sliding])
  next
    case slot
    have cell: "slot_cell ?E (slot_wait c) (rslot_inv ?rk ?E (slot_wait c)) (rslot_free ?rk)
        (rslot_chk ?rk ?E (slot_wait c) (redis_expire_seconds c))"
      using config_interval [of c] slot_ttl [OF slot w] w by (intro slot_cell_red) (linarith | simp)+
    have i: "rslot_inv ?rk ?E (slot_wait c) t db" using db(2) t by (simp add: rslot_inv_def)
    have "answers (redis_step ?rk c) rs db
        = answers (rslot_chk ?rk ?E (slot_wait c) (redis_expire_seconds c)) rs db"
      using slot_cell.inv_mono [OF cell] slot_cell.chk_inv [OF cell]
      by (intro answers_cong [where P = "\<lambda>t us. rslot_inv ?rk ?E (slot_wait c) t", OF i rs])
        (simp_all add: rslot_redis_step [OF slot w])
    also have "\<dots> = slot_spec ?E (slot_wait c) rs t"
      using slot_cell.run_spec [OF cell i rs, of t] db(2) by (simp add: rslot_free_def)
    finally show ?thesis
      using mem_slot.run_spec [OF slot_fresh [OF slot w idle t] rs, of t] w em
      by (simp add: redis_run_answers [OF er] memory_run_slot [OF slot] min_absorb1)
  qed
qed

theorem window_backends_agree_witness:
  defines "md5 \<equiv> (\<lambda>s. s) :: string \<Rightarrow> string"
  defines "c \<equiv> \<lparr>rate = 2, per = Second, burst = 0, backend = Redis, algorithm = SlidingWindow,
                 failure_policy = FailOpen, max_wait_ms = 0, mode = Enforce\<rparr>"
  defines "rs \<equiv> [(1000, ''a''), (1000, ''b''), (1100, ''c''), (2100, ''d'')]"
  shows "map outcome (memory_run md5 ''ip'' c rs (engine_new False :: unit rate_limit_engine))
       = map outcome (redis_run md5 ''ip'' c rs (engine_new True :: unit rate_limit_engine)
           \<lparr>rstr = Map.empty, rzset = Map.empty\<rparr>)"
  by (rule window_backends_agree [where t = 1000])
    (simp_all add: c_def rs_def valid_time_def time_max_def slot_wait_def wait_max_def idle_covers_def
      window_millis_def window_millis_per_def)

section \<open>Windows longer than the idle time\<close>

lemma fix_chk_counts:
  assumes "0 < I" "k < lim"
  shows "fix_chk I W lim t u (Some (t, \<lparr>window_id = t div W, count = k\<rparr>)) =
    (Some (0, usat_sub lim (k + 1)), Some (t, \<lparr>window_id = t div W, count = k + 1\<rparr>))"
  using assms by (simp add: fix_chk_def fixed_attempt_def Let_def)

lemma fix_chk_forgotten:
  assumes "case st of None \<Rightarrow> True | Some (a, s) \<Rightarrow> a + I \<le> t" "0 < lim"
  shows "fix_chk I W lim t u st = (Some (0, usat_sub lim 1), Some (t, \<lparr>window_id = t div W, count = 1\<rparr>))"
proof -
  have "moka_live I t st = None" using assms(1) by (cases st) auto
  then show ?thesis using assms(2) by (simp add: fix_chk_def fixed_attempt_def Let_def)
qed

lemma batch_counts:
  assumes "0 < I"
  shows "0 \<le> k \<Longrightarrow> k + int n \<le> lim \<Longrightarrow> \<exists>as. length as = n \<and> list_all (\<lambda>a. a \<noteq> None) as \<and>
    answers (fix_chk I W lim) (replicate n (t, u) @ rest) (Some (t, \<lparr>window_id = t div W, count = k\<rparr>)) =
      as @ answers (fix_chk I W lim) rest (Some (t, \<lparr>window_id = t div W, count = k + int n\<rparr>))"
proof (induction n arbitrary: k)
  case (Suc n)
  then have k: "k < lim" by simp
  have "\<exists>as. length as = n \<and> list_all (\<lambda>a. a \<noteq> None) as \<and>
    answers (fix_chk I W lim) (replicate n (t, u) @ rest) (Some (t, \<lparr>window_id = t div W, count = k + 1\<rparr>)) =
      as @ answers (fix_chk I W lim) rest (Some (t, \<lparr>window_id = t div W, count = k + 1 + int n\<rparr>))"
    by (rule Suc.IH) (use Suc.prems in simp_all)
  then obtain as where as: "length as = n" "list_all (\<lambda>a. a \<noteq> None) as"
    "answers (fix_chk I W lim) (replicate n (t, u) @ rest) (Some (t, \<lparr>window_id = t div W, count = k + 1\<rparr>)) =
      as @ answers (fix_chk I W lim) rest (Some (t, \<lparr>window_id = t div W, count = k + 1 + int n\<rparr>))"
    by blast
  then show ?case
    by (intro exI [of _ "Some (0, usat_sub lim (k + 1)) # as"]) (simp add: fix_chk_counts [OF assms k] add_ac)
qed simp

text \<open>A full batch at one instant on a key the cache does not know or has forgotten: all of it is admitted.\<close>

lemma batch_forgotten:
  assumes "0 < I" "0 < lim" "case st of None \<Rightarrow> True | Some (a, s) \<Rightarrow> a + I \<le> t"
  shows "\<exists>as. length as = nat lim \<and> list_all (\<lambda>a. a \<noteq> None) as \<and>
    answers (fix_chk I W lim) (replicate (nat lim) (t, u) @ rest) st =
      as @ answers (fix_chk I W lim) rest (Some (t, \<lparr>window_id = t div W, count = lim\<rparr>))"
proof -
  obtain n where n: "nat lim = Suc n" using assms(2) by (metis gr0_implies_Suc zero_less_nat_eq)
  then have lim: "lim = 1 + int n" using assms(2) by linarith
  obtain as where as: "length as = n" "list_all (\<lambda>a. a \<noteq> None) as"
    "answers (fix_chk I W lim) (replicate n (t, u) @ rest) (Some (t, \<lparr>window_id = t div W, count = 1\<rparr>)) =
      as @ answers (fix_chk I W lim) rest (Some (t, \<lparr>window_id = t div W, count = 1 + int n\<rparr>))"
    using batch_counts [OF assms(1), of 1 n lim W t u rest] lim by auto
  then show ?thesis
    using as n unfolding lim [symmetric]
    by (intro exI [of _ "Some (0, usat_sub lim 1) # as"]) (simp add: fix_chk_forgotten [OF assms(3,2)])
qed

lemma filter_admitted: "length (filter admitted ds) = length (filter (\<lambda>a. a \<noteq> None) (map outcome ds))"
  by (induction ds) (auto simp: outcome_admitted [symmetric])

text \<open>
  C21. A limit over a window longer than the idle time of the cache does not hold: in every window (up to the
  largest clock value) of a fixed window algorithm there is a sequence of requests in time order, on a key the cache has not seen,
  of which twice the configured rate is admitted (a full batch, and another one after a pause of the
  idle time; with the default of an hour, so for every limit per day).
\<close>
theorem long_window_limit_exceeded:
  assumes a: "algorithm c = FixedWindow" and idle: "0 < memory_idle e" "memory_idle e < window_millis c"
    and e: "fixed_window_states e (cache_key_for md5 c key) = None"
    and w: "0 \<le> w" "(w + 1) * window_millis c \<le> time_max"
  shows "\<exists>rs. sorted (map fst rs) \<and> list_all (\<lambda>r. valid_time (fst r) \<and> fst r div window_millis c = w) rs
    \<and> int (length (filter admitted (memory_run md5 key c rs e))) = 2 * window_limit c"
proof -
  let ?W = "window_millis c" and ?I = "memory_idle e" and ?lim = "window_limit c"
  define t where "t = w * ?W"
  define rs :: "request list" where "rs = replicate (nat ?lim) (t, []) @ replicate (nat ?lim) (t + ?I, []) @ []"
  have W: "0 < ?W" "?W \<noteq> 0" by simp_all
  have div: "t div ?W = w" "(t + ?I) div ?W = w" using W idle by (simp_all add: t_def)
  obtain as where as: "length as = nat ?lim" "list_all (\<lambda>a. a \<noteq> None) as"
    "answers (fix_chk ?I ?W ?lim) rs None = as @ answers (fix_chk ?I ?W ?lim)
       (replicate (nat ?lim) (t + ?I, []) @ []) (Some (t, \<lparr>window_id = t div ?W, count = ?lim\<rparr>))"
    using batch_forgotten [OF idle(1) config_limit [of c], where st = None and t = t and W = ?W and u = "[]"
        and rest = "replicate (nat ?lim) (t + ?I, []) @ []"]
    by (auto simp: rs_def)
  obtain bs where bs: "length bs = nat ?lim" "list_all (\<lambda>a. a \<noteq> None) bs"
    "answers (fix_chk ?I ?W ?lim) (replicate (nat ?lim) (t + ?I, []) @ []) (Some (t, \<lparr>window_id = t div ?W, count = ?lim\<rparr>)) = bs @ []"
    using batch_forgotten [OF idle(1) config_limit [of c], where st = "Some (t, \<lparr>window_id = t div ?W, count = ?lim\<rparr>)"
        and t = "t + ?I" and W = ?W and u = "[]" and rest = "[]"]
    by (auto simp del: answers_length)
  have "map outcome (memory_run md5 key c rs e) = as @ bs"
    using as(3) bs(3) by (simp add: memory_run_fixed [OF a] e)
  then have "length (filter admitted (memory_run md5 key c rs e)) = length as + length bs"
    using as(2) bs(2) by (simp add: filter_admitted list_all_iff filter_id_conv)
  moreover have "sorted (map fst rs)" using idle(1) by (simp add: rs_def sorted_append)
  moreover have "valid_time t" "valid_time (t + ?I)"
    using w idle mult_nonneg_nonneg [OF w(1) less_imp_le [OF W(1)]] by (simp_all add: valid_time_def t_def distrib_right)
  then have "list_all (\<lambda>r. valid_time (fst r) \<and> fst r div ?W = w) rs" by (auto simp: rs_def list_all_iff div)
  ultimately show ?thesis using as(1) bs(1) less_imp_le [OF config_limit [of c]] by (intro exI [of _ rs]) simp
qed

theorem long_window_limit_exceeded_witness:
  defines "md5 \<equiv> (\<lambda>s. s) :: string \<Rightarrow> string"
  defines "c \<equiv> \<lparr>rate = 5, per = Day, burst = 0, backend = Memory, algorithm = FixedWindow,
                 failure_policy = FailOpen, max_wait_ms = 0, mode = Enforce\<rparr>"
  shows "\<exists>rs. sorted (map fst rs) \<and> list_all (\<lambda>r. valid_time (fst r) \<and> fst r div 86400000 = 20000) rs
    \<and> int (length (filter admitted (memory_run md5 ''ip'' c rs (engine_new False :: unit rate_limit_engine)))) = 10"
proof -
  have c: "algorithm c = FixedWindow" "window_millis c = 86400000" "window_limit c = 5"
    by (simp_all add: c_def window_millis_def window_millis_per_def window_limit_def)
  show ?thesis
    using long_window_limit_exceeded [OF c(1), of "engine_new False :: unit rate_limit_engine" md5 "''ip''" 20000]
    by (simp add: c time_max_def)
qed

end
