(* ===== verification/Gcra_Cell.thy ===== *)
theory Gcra_Cell
  imports Rate_Redis
begin

text \<open>
  What the engine relies on from a GCRA bucket, whichever back end keeps it: a backlog of
  milliseconds that drains with the clock, a check that admits a request when its cost still fits
  into the capacity, and a refund. The locale states the contract; the bound on the admitted
  rate, the exactness of \<open>Retry-After\<close>, the reserve/commit law and the agreement of two back ends
  are proved from it once. It is interpreted on the arrival time the memory engine caches and on
  the key the Lua scripts keep.
\<close>

datatype gcra_event = Check int int | Refund int int

text \<open>
  Runs a list of checks and refunds on one bucket; the answers of the checks in order. An answer is
  the quota left after an admitted request, \<open>None\<close> for a rejected one.
\<close>

fun cell_run ::
  "(int \<Rightarrow> int \<Rightarrow> 's \<Rightarrow> 'a \<times> 's) \<Rightarrow> (int \<Rightarrow> int \<Rightarrow> 's \<Rightarrow> 's) \<Rightarrow> gcra_event list \<Rightarrow> 's \<Rightarrow> 'a list \<times> 's"
where
  "cell_run chk rfd [] s = ([], s)"
| "cell_run chk rfd (Check t k # es) s =
     (case chk t k s of (a, s') \<Rightarrow> (case cell_run chk rfd es s' of (as, s'') \<Rightarrow> (a # as, s'')))"
| "cell_run chk rfd (Refund t k # es) s = cell_run chk rfd es (rfd t k s)"

text \<open>The abstract bucket: only the backlog, last read at time \<open>t0\<close>.\<close>

fun spec_run :: "int \<Rightarrow> int \<Rightarrow> gcra_event list \<Rightarrow> int \<Rightarrow> int \<Rightarrow> int option list" where
  "spec_run E B [] t0 q = []"
| "spec_run E B (Check t k # es) t0 q =
     (let q' = max 0 (q - (t - t0))
      in if q' + k * E \<le> B * E
         then Some ((B * E - q' - k * E) div E) # spec_run E B es t (q' + k * E)
         else None # spec_run E B es t q')"
| "spec_run E B (Refund t k # es) t0 q =
     spec_run E B es t (max 0 (max 0 (q - (t - t0)) - k * E))"

text \<open>Times do not go back, costs are those of the code, refunds stay within a budget of milliseconds.\<close>

fun events_ok :: "int \<Rightarrow> gcra_event list \<Rightarrow> int \<Rightarrow> int \<Rightarrow> bool" where
  "events_ok E [] t0 r = True"
| "events_ok E (Check t k # es) t0 r \<longleftrightarrow>
     t0 \<le> t \<and> valid_time t \<and> 1 \<le> k \<and> k \<le> u32_max \<and> events_ok E es t r"
| "events_ok E (Refund t k # es) t0 r \<longleftrightarrow>
     t0 \<le> t \<and> valid_time t \<and> 0 \<le> k \<and> k \<le> u32_max \<and> k * E \<le> r \<and> events_ok E es t (r - k * E)"

fun admitted_cost :: "gcra_event list \<Rightarrow> int option list \<Rightarrow> int" where
  "admitted_cost (Check t k # es) (a # as) = (if a \<noteq> None then k else 0) + admitted_cost es as"
| "admitted_cost (Refund t k # es) as = admitted_cost es as"
| "admitted_cost _ _ = 0"

fun event_time :: "gcra_event \<Rightarrow> int" where
  "event_time (Check t _) = t"
| "event_time (Refund t _) = t"

fun is_check :: "gcra_event \<Rightarrow> bool" where
  "is_check (Check _ _) = True"
| "is_check (Refund _ _) = False"

locale gcra_cell =
  fixes E B :: int
    and inv :: "int \<Rightarrow> int \<Rightarrow> 's \<Rightarrow> bool"
    and backlog :: "int \<Rightarrow> 's \<Rightarrow> int"
    and chk :: "int \<Rightarrow> int \<Rightarrow> 's \<Rightarrow> int option \<times> 's"
    and rfd :: "int \<Rightarrow> int \<Rightarrow> 's \<Rightarrow> 's"
  assumes E_pos: "0 < E" and B_pos: "0 < B"
    and backlog_nonneg: "0 \<le> backlog t s"
    and inv_mono: "inv t r s \<Longrightarrow> t \<le> t' \<Longrightarrow> valid_time t' \<Longrightarrow> inv t' r s"
    and backlog_decay: "inv t r s \<Longrightarrow> t \<le> t' \<Longrightarrow> valid_time t' \<Longrightarrow>
      backlog t' s = max 0 (backlog t s - (t' - t))"
    and chk_admit: "inv t r s \<Longrightarrow> 1 \<le> k \<Longrightarrow> k \<le> u32_max \<Longrightarrow>
      fst (chk t k s) = (if backlog t s + k * E \<le> B * E
                         then Some ((B * E - backlog t s - k * E) div E) else None)"
    and chk_backlog: "inv t r s \<Longrightarrow> 1 \<le> k \<Longrightarrow> k \<le> u32_max \<Longrightarrow>
      backlog t (snd (chk t k s)) = (if fst (chk t k s) \<noteq> None then backlog t s + k * E else backlog t s)"
    and chk_inv: "inv t r s \<Longrightarrow> 1 \<le> k \<Longrightarrow> k \<le> u32_max \<Longrightarrow> inv t r (snd (chk t k s))"
    and rfd_backlog: "inv t r s \<Longrightarrow> 0 \<le> k \<Longrightarrow> k \<le> u32_max \<Longrightarrow> k * E \<le> r \<Longrightarrow>
      backlog t (rfd t k s) = max 0 (backlog t s - k * E)"
    and rfd_inv: "inv t r s \<Longrightarrow> 0 \<le> k \<Longrightarrow> k \<le> u32_max \<Longrightarrow> k * E \<le> r \<Longrightarrow>
      inv t (r - k * E) (rfd t k s)"
begin

lemma run_spec:
  "inv t r s \<Longrightarrow> events_ok E es t r \<Longrightarrow>
   fst (cell_run chk rfd es s) = spec_run E B es t (backlog t s)"
proof (induction es arbitrary: t r s)
  case Nil
  then show ?case by simp
next
  case (Cons ev es)
  show ?case
  proof (cases ev)
    case (Check u k)
    with Cons.prems have e: "t \<le> u" "valid_time u" "1 \<le> k" "k \<le> u32_max" "events_ok E es u r" by auto
    then have i: "inv u r s" and q: "backlog u s = max 0 (backlog t s - (u - t))"
      using Cons.prems inv_mono backlog_decay by blast+
    obtain a s' where c: "chk u k s = (a, s')" by fastforce
    have "inv u r s'" using chk_inv [OF i e(3,4)] c by simp
    from Cons.IH [OF this e(5)] show ?thesis
      using c Check q chk_admit [OF i e(3,4)] chk_backlog [OF i e(3,4)]
      by (auto simp: Let_def split: prod.splits)
  next
    case (Refund u k)
    with Cons.prems have e: "t \<le> u" "valid_time u" "0 \<le> k" "k \<le> u32_max" "k * E \<le> r"
      "events_ok E es u (r - k * E)" by auto
    then have i: "inv u r s" and q: "backlog u s = max 0 (backlog t s - (u - t))"
      using Cons.prems inv_mono backlog_decay by blast+
    from Cons.IH [OF rfd_inv [OF i e(3,4,5)] e(6)] show ?thesis
      using Refund q rfd_backlog [OF i e(3,4,5)] by simp
  qed
qed

text \<open>The rate bound: over checks only, the admitted cost fits burst plus elapsed time.\<close>

lemma rate_bound:
  "inv t r s \<Longrightarrow> events_ok E es t r \<Longrightarrow> list_all is_check es \<Longrightarrow> \<forall>ev \<in> set es. event_time ev \<le> t1 \<Longrightarrow>
   t \<le> t1 \<Longrightarrow> backlog t s \<le> B * E \<Longrightarrow>
   backlog t s + admitted_cost es (fst (cell_run chk rfd es s)) * E \<le> B * E + (t1 - t)"
proof (induction es arbitrary: t s)
  case Nil
  then show ?case by simp
next
  case (Cons ev es)
  then obtain u k where ev: "ev = Check u k" by (cases ev) auto
  with Cons.prems have e: "t \<le> u" "valid_time u" "1 \<le> k" "k \<le> u32_max" "events_ok E es u r" "u \<le> t1" by auto
  then have i: "inv u r s" and q: "backlog u s = max 0 (backlog t s - (u - t))"
    using Cons.prems inv_mono backlog_decay by blast+
  obtain a s' where c: "chk u k s = (a, s')" by fastforce
  have i': "inv u r s'" using chk_inv [OF i e(3,4)] c by simp
  have q': "backlog u s' = (if a \<noteq> None then backlog u s + k * E else backlog u s)"
    and a: "a \<noteq> None \<longleftrightarrow> backlog u s + k * E \<le> B * E"
    using chk_backlog [OF i e(3,4)] chk_admit [OF i e(3,4)] c by auto
  have "0 < B * E" using E_pos B_pos by simp
  then have "backlog u s' \<le> B * E" using q q' a e(1) Cons.prems(6) by auto
  from Cons.IH [OF i' e(5) _ _ e(6) this] have
    "backlog u s' + admitted_cost es (fst (cell_run chk rfd es s')) * E \<le> B * E + (t1 - u)"
    using Cons.prems by auto
  moreover have "backlog t s \<le> backlog u s + (u - t)" using q by linarith
  ultimately show ?case using c ev q' by (auto simp: algebra_simps split: prod.splits)
qed

text \<open>\<open>Retry-After\<close> is exact: the request fits once that much time has passed, and not before.\<close>

lemma retry_exact:
  assumes "inv t r s" "1 \<le> k" "k \<le> B" "k \<le> u32_max" "fst (chk t k s) = None" "t \<le> t'" "valid_time t'"
  shows "fst (chk t' k s) \<noteq> None \<longleftrightarrow> t + (backlog t s + k * E - B * E) \<le> t'"
proof -
  have "inv t' r s" and q: "backlog t' s = max 0 (backlog t s - (t' - t))"
    using assms inv_mono backlog_decay by blast+
  then have "fst (chk t' k s) \<noteq> None \<longleftrightarrow> max 0 (backlog t s - (t' - t)) + k * E \<le> B * E"
    using chk_admit [of t' r s k] assms by simp
  moreover have "k * E \<le> B * E" using assms(3) E_pos by simp
  ultimately show ?thesis by (auto simp: max_def)
qed

text \<open>A request costing more than the burst is refused at every time.\<close>

lemma over_burst_never:
  assumes "inv t r s" "B < k" "k \<le> u32_max" "t \<le> t'" "valid_time t'"
  shows "fst (chk t' k s) = None"
proof -
  have "inv t' r s" using assms inv_mono by blast
  then have "fst (chk t' k s) \<noteq> None \<longleftrightarrow> backlog t' s + k * E \<le> B * E"
    using assms B_pos chk_admit [of t' r s k] by auto
  moreover have "B * E < k * E" using assms(2) E_pos by simp
  ultimately show ?thesis using backlog_nonneg [of t' s] by fastforce
qed

text \<open>Reserving \<open>k\<close> and giving \<open>k - n\<close> back later leaves the bucket as if \<open>n\<close> had been charged.\<close>

lemma reserve_commit:
  assumes i: "inv t r s" and k: "1 \<le> n" "n \<le> k" "k \<le> u32_max" and r: "(k - n) * E \<le> r"
    and adm: "fst (chk t k s) \<noteq> None" and t': "t \<le> t'" "valid_time t'"
  shows "fst (chk t n s) \<noteq> None"
    and "backlog t' (rfd t' (k - n) (snd (chk t k s))) = backlog t' (snd (chk t n s))"
proof -
  have nE: "n * E \<le> k * E" using k E_pos by simp
  have a: "backlog t s + k * E \<le> B * E" using chk_admit [OF i, of k] k adm by (auto split: if_splits)
  then show n: "fst (chk t n s) \<noteq> None" using chk_admit [OF i, of n] k nE by auto
  have ik: "inv t r (snd (chk t k s))" and i_n: "inv t r (snd (chk t n s))" using chk_inv [OF i] k by auto
  then have ik': "inv t' r (snd (chk t k s))" using inv_mono t' by blast
  have qk: "backlog t (snd (chk t k s)) = backlog t s + k * E" using chk_backlog [OF i] k adm by auto
  have qn: "backlog t (snd (chk t n s)) = backlog t s + n * E" using chk_backlog [OF i, of n] k n by auto
  have dk: "backlog t' (snd (chk t k s)) = max 0 (backlog t s + k * E - (t' - t))"
    using backlog_decay [OF ik t'] qk by simp
  have dn: "backlog t' (snd (chk t n s)) = max 0 (backlog t s + n * E - (t' - t))"
    using backlog_decay [OF i_n t'] qn by simp
  have "backlog t' (rfd t' (k - n) (snd (chk t k s)))
      = max 0 (backlog t' (snd (chk t k s)) - (k - n) * E)"
    using rfd_backlog [OF ik'] k r by auto
  then show "backlog t' (rfd t' (k - n) (snd (chk t k s))) = backlog t' (snd (chk t n s))"
    using dk dn nE by (auto simp: algebra_simps)
qed

end

end
