(* ===== verification/Rate_Gcra.thy ===== *)
theory Rate_Gcra
  imports Gcra_Cell
begin

text \<open>
  The two keepers of a GCRA bucket meet the contract of \<open>gcra_cell\<close>: the arrival time cached by the
  memory engine, and the Redis key of the Lua scripts. The properties of the token-bucket limiter
  follow for the engine's own operations.
\<close>

section \<open>The memory bucket\<close>

definition mem_tat :: "int \<Rightarrow> int \<Rightarrow> (int \<times> int) option \<Rightarrow> int" where
  "mem_tat I t s = (case moka_live I t s of None \<Rightarrow> t | Some x \<Rightarrow> x)"

definition mem_chk ::
  "int \<Rightarrow> int \<Rightarrow> int \<Rightarrow> int \<Rightarrow> int \<Rightarrow> (int \<times> int) option \<Rightarrow> int option \<times> (int \<times> int) option" where
  "mem_chk I E B t k s = (case gcra_attempt E B t k (mem_tat I t s) of (d, tat) \<Rightarrow> (quota d, Some (t, tat)))"

definition mem_rfd :: "int \<Rightarrow> int \<Rightarrow> int \<Rightarrow> int \<Rightarrow> (int \<times> int) option \<Rightarrow> (int \<times> int) option" where
  "mem_rfd I E t k s =
     (case moka_live I t s of None \<Rightarrow> s | Some tat \<Rightarrow> Some (t, wrap_i64 (tat - sat_mul k E)))"

definition mem_backlog :: "int \<Rightarrow> (int \<times> int) option \<Rightarrow> int" where
  "mem_backlog t s = (case s of None \<Rightarrow> 0 | Some (_, tat) \<Rightarrow> max 0 (tat - t))"

lemma mem_backlog_simps [simp]:
  "mem_backlog t None = 0" "mem_backlog t (Some (a, tat)) = max 0 (tat - t)"
  by (simp_all add: mem_backlog_def)

text \<open>
  What holds of a bucket in use. Its capacity \<open>B * E\<close> is within the idle time \<open>I\<close> of the cache: then a
  bucket forgotten by the cache had drained, and forgetting it changes no answer. \<open>r\<close> is the budget of
  refunds that cannot wrap the 64-bit arrival time around.
\<close>

definition mem_inv :: "int \<Rightarrow> int \<Rightarrow> int \<Rightarrow> int \<Rightarrow> int \<Rightarrow> (int \<times> int) option \<Rightarrow> bool" where
  "mem_inv I E B t r s \<longleftrightarrow> B * E \<le> I \<and> valid_time t \<and> 0 \<le> r \<and> r \<le> i64_max \<and>
     (case s of None \<Rightarrow> True | Some (a, tat) \<Rightarrow> a \<le> t \<and> i64_min + r \<le> tat \<and> tat \<le> a + B * E)"

lemma mem_tat_backlog:
  assumes "mem_inv I E B t r s"
  shows "max (mem_tat I t s) t = t + mem_backlog t s" "mem_tat I t s \<le> t + B * E \<or> mem_tat I t s = t"
    "mem_tat I t s = t \<or> (\<exists>a. s = Some (a, mem_tat I t s))"
  using assms by (cases s; auto simp: mem_inv_def mem_tat_def)+

lemma mem_chk_eq:
  assumes i: "mem_inv I E B t r s" and P: "params_ok E B" "params_ok E k"
  shows "mem_chk I E B t k s =
    (if mem_backlog t s + k * E \<le> B * E
     then (Some ((B * E - mem_backlog t s - k * E) div E), Some (t, t + mem_backlog t s + k * E))
     else (None, Some (t, mem_tat I t s)))"
proof -
  let ?tat = "mem_tat I t s"
  have t: "valid_time t" using i by (simp add: mem_inv_def)
  have m: "max ?tat t = t + mem_backlog t s" by (rule mem_tat_backlog [OF i])
  show ?thesis
  proof (cases "mem_backlog t s + k * E \<le> B * E")
    case True
    then show ?thesis using gcra_attempt_allowed [OF P t, of ?tat] m by (simp add: mem_chk_def)
  next
    case False
    then show ?thesis using gcra_attempt_rejected [OF P t, of ?tat] m by (auto simp: mem_chk_def)
  qed
qed

lemma params_ok_cost: "params_ok E B \<Longrightarrow> 1 \<le> k \<Longrightarrow> k \<le> u32_max \<Longrightarrow> params_ok E k"
  by (simp add: params_ok_def u32_max_def)

lemma sat_mul_cost:
  assumes "params_ok E B" "0 \<le> k" "k \<le> u32_max"
  shows "sat_mul k E = k * E" "0 \<le> k * E" "k * E \<le> 371085174374400000"
proof -
  have E: "0 < E" "E \<le> 86400000" using assms by (auto simp: params_ok_def)
  have "k * E \<le> 4294967295 * 86400000" using E assms by (intro mult_mono) (auto simp: u32_max_def)
  then show le: "k * E \<le> 371085174374400000" by simp
  show ge: "0 \<le> k * E" using E assms by simp
  show "sat_mul k E = k * E" using le ge by (simp add: sat_mul_def sat64_def i64_min_def i64_max_def)
qed

lemma mem_gcra_cell:
  assumes P: "params_ok E B"
  shows "gcra_cell E B (mem_inv I E B) mem_backlog (mem_chk I E B) (mem_rfd I E)"
proof
  note BE = params_ok_mult [OF P]
  show "0 < E" "0 < B" using P by (auto simp: params_ok_def)
  show "0 \<le> mem_backlog t s" for t s by (cases s) (auto simp: mem_backlog_def)
  show "mem_inv I E B t r s \<Longrightarrow> t \<le> t' \<Longrightarrow> valid_time t' \<Longrightarrow> mem_inv I E B t' r s" for t r s t'
    by (auto simp: mem_inv_def split: option.splits)
  show "mem_inv I E B t r s \<Longrightarrow> t \<le> t' \<Longrightarrow> valid_time t' \<Longrightarrow>
      mem_backlog t' s = max 0 (mem_backlog t s - (t' - t))" for t r s t'
    by (cases s) (auto simp: mem_backlog_def)
  fix t r k :: int and s
  assume i: "mem_inv I E B t r s"
  then have t: "valid_time t" by (simp add: mem_inv_def)
  have q: "0 \<le> mem_backlog t s" by (cases s) (auto simp: mem_backlog_def)
  { assume k: "1 \<le> k" "k \<le> u32_max"
    note eq = mem_chk_eq [OF i P params_ok_cost [OF P k]] and tat = mem_tat_backlog [OF i]
    show "fst (mem_chk I E B t k s) = (if mem_backlog t s + k * E \<le> B * E
        then Some ((B * E - mem_backlog t s - k * E) div E) else None)"
      by (simp add: eq)
    have kE: "1 \<le> k * E" using params_ok_mult [OF params_ok_cost [OF P k]] by simp
    show "mem_backlog t (snd (mem_chk I E B t k s)) =
        (if fst (mem_chk I E B t k s) \<noteq> None then mem_backlog t s + k * E else mem_backlog t s)"
      using q kE tat(1) by (auto simp: eq max_def split: if_splits)
    have lo: "i64_min + r \<le> mem_tat I t s"
      using tat(3) i by (auto simp: mem_inv_def valid_time_def i64_min_def i64_max_def split: option.splits)
    show "mem_inv I E B t r (snd (mem_chk I E B t k s))"
      using i q kE BE tat(2) lo unfolding eq mem_inv_def
      by (auto simp: valid_time_def i64_min_def i64_max_def)
  }
  { assume k: "0 \<le> k" "k \<le> u32_max" "k * E \<le> r"
    note kE = sat_mul_cost [OF P k(1,2)]
    have w: "wrap_i64 (tat - k * E) = tat - k * E" if "s = Some (a, tat)" for a tat
      using i that k(3) kE BE
      by (intro wrap_i64_id) (auto simp: mem_inv_def in_i64_def i64_min_def i64_max_def valid_time_def time_max_def)
    show "mem_backlog t (mem_rfd I E t k s) = max 0 (mem_backlog t s - k * E)"
      using i w kE by (cases s) (auto simp: mem_rfd_def mem_inv_def)
    show "mem_inv I E B t (r - k * E) (mem_rfd I E t k s)"
      using i w kE k(3) by (cases s) (auto simp: mem_rfd_def mem_inv_def)
  }
qed

interpretation mem_gcra: gcra_cell "emission_interval_millis c" "effective_burst c"
  "mem_inv I (emission_interval_millis c) (effective_burst c)" mem_backlog
  "mem_chk I (emission_interval_millis c) (effective_burst c)" "mem_rfd I (emission_interval_millis c)"
  for c :: rate_limit_config and I :: int
  by (rule mem_gcra_cell) simp

section \<open>The Redis bucket\<close>

definition red_chk :: "string \<Rightarrow> int \<Rightarrow> int \<Rightarrow> int \<Rightarrow> int \<Rightarrow> int \<Rightarrow> redis_db \<Rightarrow> int option \<times> redis_db" where
  "red_chk key E B ttl t k db =
     (case lua_gcra t key t E B ttl k db of (v, db') \<Rightarrow> (if v ! 0 = 1 then Some (v ! 2) else None, db'))"

definition red_rfd :: "string \<Rightarrow> int \<Rightarrow> int \<Rightarrow> int \<Rightarrow> redis_db \<Rightarrow> redis_db" where
  "red_rfd key E t k db = snd (lua_gcra_refund t key t E k db)"

definition red_backlog :: "string \<Rightarrow> int \<Rightarrow> redis_db \<Rightarrow> int" where
  "red_backlog key t db = (case rstr db key of None \<Rightarrow> 0 | Some (tat, _) \<Rightarrow> max 0 (tat - t))"

text \<open>
  A key never outlives its arrival time: forgetting it at its expiry loses nothing. The capacity is
  bounded so that every number the script forms for an admitted request is an exact double.
\<close>

definition red_inv :: "string \<Rightarrow> int \<Rightarrow> int \<Rightarrow> int \<Rightarrow> int \<Rightarrow> redis_db \<Rightarrow> bool" where
  "red_inv key E B t r db \<longleftrightarrow> B * E \<le> time_max \<and> valid_time t \<and>
     (case rstr db key of None \<Rightarrow> True
      | Some (tat, ex) \<Rightarrow> 0 \<le> tat \<and> tat \<le> t + B * E \<and> (\<exists>x. ex = Some x \<and> tat \<le> x))"

definition red_tat :: "string \<Rightarrow> int \<Rightarrow> redis_db \<Rightarrow> int" where
  "red_tat key t db = (case redis_get t key db of None \<Rightarrow> t | Some v \<Rightarrow> lua_num v)"

lemma red_arrival:
  assumes "red_inv key E B t r db"
  shows "(if red_tat key t db < t then t else red_tat key t db) = t + red_backlog key t db"
    and "0 \<le> red_backlog key t db" "red_backlog key t db \<le> max 0 (B * E)"
  using assms
  by (auto simp: red_inv_def redis_get_def red_tat_def red_backlog_def live_def valid_time_def time_max_def
      split: option.splits)

lemma red_chk_eq:
  assumes i: "red_inv key E B t r db" and P: "params_ok E B" and k: "1 \<le> k" "k \<le> u32_max"
    and ttl: "\<bar>ttl\<bar> \<le> 9007199254740992"
  shows "red_chk key E B ttl t k db =
    (if red_backlog key t db + k * E \<le> B * E
     then (Some ((B * E - red_backlog key t db - k * E) div E),
           redis_set_ex t key (t + red_backlog key t db + k * E) ttl db)
     else (None, db))"
proof -
  let ?q = "red_backlog key t db"
  note a = red_arrival [OF i]
  have E: "1 \<le> E" "E \<le> 86400000" and B: "1 \<le> B" "B \<le> 4294967295" and k': "k \<le> 4294967295"
    using P k by (auto simp: params_ok_def u32_max_def)
  note BE = params_ok_mult(1) [OF P]
  have b: "B * E \<le> 4503599627370496" "0 \<le> t" "t \<le> 4503599627370496"
    using i by (auto simp: red_inv_def valid_time_def time_max_def)
  have q: "0 \<le> ?q" "?q \<le> B * E" using a BE by auto
  have n: "lua_num t = t" "lua_num E = E" "lua_num B = B" "lua_num k = k" "lua_num ttl = ttl"
    "lua_num (B * E) = B * E" "lua_num ?q = ?q"
    using E B b k k' q BE ttl by simp_all
  have tat: "(case redis_get t key db of None \<Rightarrow> t | Some v \<Rightarrow> lua_num v) = red_tat key t db"
    unfolding red_tat_def by (rule refl)
  have d: "t + ?q - t = ?q" by simp
  note script = red_chk_def lua_gcra_def Let_def tat n(1-6) a(1) d n(7)
  show ?thesis
  proof (cases "?q + k * E \<le> B * E")
    case True
    have kE: "0 \<le> k * E" using k E by simp
    have m: "lua_num (k * E) = k * E" "lua_num (?q + k * E) = ?q + k * E"
      "lua_num (t + (?q + k * E)) = t + (?q + k * E)" "lua_num (B * E - ?q) = B * E - ?q"
      "lua_num (B * E - ?q - k * E) = B * E - ?q - k * E"
      using True kE q b by simp_all
    have "\<not> (B * E - ?q - k * E) div E < 0" using True E by (simp add: not_less pos_imp_zdiv_nonneg_iff)
    then show ?thesis using True k unfolding script m by (simp add: lua_floor_div_def m add.assoc)
  next
    case False
    have bb: "\<bar>B * E - ?q\<bar> < 9007199254740992" "\<bar>B * E\<bar> < 9007199254740992" using q b BE by linarith+
    have "B * E - ?q < lua_num (k * E)" using False bb by (intro lua_num_greater) linarith+
    then have "B * E < lua_num (?q + lua_num (k * E))" using bb by (intro lua_num_greater) linarith+
    then show ?thesis using False k unfolding script by simp
  qed
qed

lemma red_gcra_cell:
  assumes P: "params_ok E B" and ttl: "B * E \<le> ttl * 1000" "ttl \<le> 9007199254740992"
  shows "gcra_cell E B (red_inv key E B) (red_backlog key) (red_chk key E B ttl) (red_rfd key E)"
proof
  show E: "0 < E" and "0 < B" using P by (auto simp: params_ok_def)
  show "0 \<le> red_backlog key t db" for t db by (auto simp: red_backlog_def split: option.splits)
  show "red_inv key E B t r db \<Longrightarrow> t \<le> t' \<Longrightarrow> valid_time t' \<Longrightarrow> red_inv key E B t' r db" for t r t' db
    by (auto simp: red_inv_def split: option.splits)
  show "red_inv key E B t r db \<Longrightarrow> t \<le> t' \<Longrightarrow> valid_time t' \<Longrightarrow>
      red_backlog key t' db = max 0 (red_backlog key t db - (t' - t))" for t r t' db
    by (auto simp: red_backlog_def split: option.splits)
  note BE = params_ok_mult(1) [OF P]
  have ttl': "\<bar>ttl\<bar> \<le> 9007199254740992" using BE ttl by linarith
  fix t r k :: int and db
  assume i: "red_inv key E B t r db"
  note q = red_arrival(2,3) [OF i]
  { assume k: "1 \<le> k" "k \<le> u32_max"
    note eq = red_chk_eq [OF i P k ttl']
    have kE: "1 \<le> k * E" using params_ok_mult [OF params_ok_cost [OF P k]] by simp
    show "fst (red_chk key E B ttl t k db) = (if red_backlog key t db + k * E \<le> B * E
        then Some ((B * E - red_backlog key t db - k * E) div E) else None)"
      by (simp add: eq)
    show "red_backlog key t (snd (red_chk key E B ttl t k db)) =
        (if fst (red_chk key E B ttl t k db) \<noteq> None then red_backlog key t db + k * E else red_backlog key t db)"
      using q kE by (auto simp: eq redis_set_ex_def red_backlog_def [of key t "db\<lparr>rstr := f\<rparr>" for f])
    show "red_inv key E B t r (snd (red_chk key E B ttl t k db))"
      using i ttl q kE by (auto simp: eq red_inv_def redis_set_ex_def valid_time_def)
  }
  { assume k: "0 \<le> k" "k \<le> u32_max" "k * E \<le> r"
    have kE: "0 \<le> k * E" using sat_mul_cost [OF P k(1,2)] by simp
    have b: "B * E \<le> 4503599627370496" "0 \<le> t" "t \<le> 4503599627370496"
      using i by (auto simp: red_inv_def valid_time_def time_max_def)
    have n: "lua_num t = t" "lua_num E = E" "lua_num k = k"
      using P k b by (auto simp: params_ok_def u32_max_def)
    have new: "(if lua_num (lua_num tat - lua_num (k * E)) < t then t else lua_num (lua_num tat - lua_num (k * E)))
        = max t (tat - k * E)" if tat: "0 \<le> tat" "tat \<le> t + B * E" for tat
    proof (cases "k * E \<le> 9007199254740992")
      case True
      then show ?thesis using tat b kE by (simp add: max_def)
    next
      case False
      then have "9007199254740991 < lua_num (k * E)" by (intro lua_num_greater) linarith+
      moreover have "lua_num tat = tat" using tat b by simp
      moreover have "tat \<le> 9007199254740992" using tat b by linarith
      ultimately have "lua_num tat - lua_num (k * E) \<le> 0" by linarith
      then have "lua_num (lua_num tat - lua_num (k * E)) \<le> 0" by (rule lua_num_nonpos)
      then show ?thesis using False tat b by auto
    qed
    have rf: "red_rfd key E t k db = (case redis_get t key db of None \<Rightarrow> db
        | Some tat \<Rightarrow> redis_set_keepttl t key (max t (tat - k * E)) db)"
    proof (cases "redis_get t key db")
      case None
      then show ?thesis by (simp add: red_rfd_def lua_gcra_refund_def Let_def)
    next
      case (Some tat)
      then have "0 \<le> tat" "tat \<le> t + B * E"
        using i by (auto simp: red_inv_def redis_get_def split: option.splits if_splits)
      then show ?thesis unfolding red_rfd_def lua_gcra_refund_def Let_def n by (simp add: Some new)
    qed
    show "red_backlog key t (red_rfd key E t k db) = max 0 (red_backlog key t db - k * E)"
      using i kE BE unfolding rf
      by (auto simp: redis_get_def redis_set_keepttl_def red_backlog_def
          red_inv_def live_def Let_def split: option.splits)
    show "red_inv key E B t (r - k * E) (red_rfd key E t k db)"
      using i kE BE unfolding rf
      by (auto simp: redis_get_def redis_set_keepttl_def
          red_inv_def live_def valid_time_def Let_def split: option.splits)
  }
qed

text \<open>The lifetime the code gives the key covers the longest backlog.\<close>

lemma redis_ttl_covers:
  assumes "uses_gcra (algorithm c)"
  shows "effective_burst c * emission_interval_millis c \<le> redis_expire_seconds c * 1000"
    and "redis_expire_seconds c \<le> 9007199254740992"
proof -
  let ?B = "effective_burst c" and ?E = "emission_interval_millis c"
  have m: "?B * ?E \<le> 371085174374400000" "1 \<le> ?B * ?E"
    using params_ok_mult [OF config_params_ok [of c]] by auto
  have "algorithm c = TokenBucket \<or> algorithm c = Gcra" using assms by (cases "algorithm c") auto
  then have "redis_expire_seconds c = max (div_ceil (?B * ?E) 1000) 2 * 2"
    using m by (simp add: redis_expire_seconds_def Let_def u64_sat_mul_def u64_max_def max_absorb1)
  moreover have "?B * ?E \<le> div_ceil (?B * ?E) 1000 * 1000" by (rule div_ceil_mult_ge) simp
  moreover have "div_ceil (?B * ?E) 1000 \<le> div_ceil 371085174374400000 1000"
    using m unfolding div_ceil_def by (intro zdiv_mono1) linarith+
  moreover have "div_ceil 371085174374400000 1000 = 371085174374400" by (simp add: div_ceil_def)
  ultimately show "?B * ?E \<le> redis_expire_seconds c * 1000" "redis_expire_seconds c \<le> 9007199254740992"
    using m by linarith+
qed

text \<open>
  The interpretation takes the configuration's parameters; its time to live is the code's
  \<open>redis_expire_seconds\<close> of the same parameters under the GCRA algorithm.
\<close>

lemma redis_ttl_gcra:
  "effective_burst (c\<lparr>algorithm := Gcra\<rparr>) * emission_interval_millis (c\<lparr>algorithm := Gcra\<rparr>)
     \<le> redis_expire_seconds (c\<lparr>algorithm := Gcra\<rparr>) * 1000"
  "redis_expire_seconds (c\<lparr>algorithm := Gcra\<rparr>) \<le> 9007199254740992"
  by (rule redis_ttl_covers, simp)+

interpretation red_gcra: gcra_cell
  "emission_interval_millis (c\<lparr>algorithm := Gcra\<rparr>)" "effective_burst (c\<lparr>algorithm := Gcra\<rparr>)"
  "red_inv key (emission_interval_millis (c\<lparr>algorithm := Gcra\<rparr>)) (effective_burst (c\<lparr>algorithm := Gcra\<rparr>))"
  "red_backlog key"
  "red_chk key (emission_interval_millis (c\<lparr>algorithm := Gcra\<rparr>)) (effective_burst (c\<lparr>algorithm := Gcra\<rparr>))
     (redis_expire_seconds (c\<lparr>algorithm := Gcra\<rparr>))"
  "red_rfd key (emission_interval_millis (c\<lparr>algorithm := Gcra\<rparr>))"
  for c :: rate_limit_config and key :: string
  by (rule red_gcra_cell [OF config_params_ok redis_ttl_gcra])

section \<open>Runs of the engine\<close>

text \<open>The checks and refunds of one user key, on the memory back end and through Redis.\<close>

fun gcra_memory_run ::
  "(string \<Rightarrow> string) \<Rightarrow> string \<Rightarrow> rate_limit_config \<Rightarrow> gcra_event list \<Rightarrow> 'net rate_limit_engine
   \<Rightarrow> rate_limit_decision list" where
  "gcra_memory_run md5 key c [] e = []"
| "gcra_memory_run md5 key c (Check t k # es) e =
     (case check_memory md5 t key c (word_of_int k) e of
        (d, e') \<Rightarrow> d # gcra_memory_run md5 key c es e')"
| "gcra_memory_run md5 key c (Refund t k # es) e =
     gcra_memory_run md5 key c es (refund_memory md5 t key c (word_of_int k) e)"

fun gcra_redis_run ::
  "(string \<Rightarrow> string) \<Rightarrow> string \<Rightarrow> string \<Rightarrow> rate_limit_config \<Rightarrow> gcra_event list
   \<Rightarrow> 'net rate_limit_engine \<Rightarrow> redis_db \<Rightarrow> rate_limit_decision list" where
  "gcra_redis_run md5 uuid key c [] e db = []"
| "gcra_redis_run md5 uuid key c (Check t k # es) e db =
     (case exec_lua t (redis_key_for md5 key c) (redis_call uuid t c (word_of_int k)) db of
        (v, db') \<Rightarrow>
          (case check_redis md5 t (Inr v :: unit + int list) key c (word_of_int k) e of
             (d, e') \<Rightarrow> d # gcra_redis_run md5 uuid key c es e' db'))"
| "gcra_redis_run md5 uuid key c (Refund t k # es) e db =
     gcra_redis_run md5 uuid key c es e
       (snd (lua_gcra_refund t (redis_key_for md5 key c) t (emission_interval_millis c) k db))"

lemma uint_cost: "0 \<le> k \<Longrightarrow> k \<le> u32_max \<Longrightarrow> uint (word_of_int k :: 32 word) = k"
  by (simp add: uint_word_of_int u32_max_def)

lemma check_memory_cell:
  assumes "uses_gcra (algorithm c)" "1 \<le> k" "k \<le> u32_max"
    and "check_memory md5 t key c (word_of_int k) e = (d, e')"
  shows "mem_chk (memory_idle e) (emission_interval_millis c) (effective_burst c) t k
           (gcra_states e (cache_key_for md5 c key))
         = (quota d, gcra_states e' (cache_key_for md5 c key))"
proof -
  have u: "max (uint (word_of_int k :: 32 word)) 1 = k" using assms(2,3) by (simp add: uint_cost)
  show ?thesis
    using assms(1,4) unfolding check_memory_def check_memory_gcra_def Let_def u
    by (auto simp: mem_chk_def mem_tat_def get_with_def split: prod.splits)
qed

lemma refund_memory_cell:
  assumes "0 \<le> k" "k \<le> u32_max"
  shows "gcra_states (refund_memory md5 t key c (word_of_int k) e) (cache_key_for md5 c key)
         = mem_rfd (memory_idle e) (emission_interval_millis c) t k (gcra_states e (cache_key_for md5 c key))"
    and "memory_idle (refund_memory md5 t key c (word_of_int k) e) = memory_idle e"
  using assms by (simp_all add: refund_memory_def mem_rfd_def uint_cost Let_def split: option.splits)

lemma gcra_memory_run_cell:
  assumes "uses_gcra (algorithm c)"
  shows "events_ok (emission_interval_millis c) es t r \<Longrightarrow>
    map quota (gcra_memory_run md5 key c es e) =
    fst (cell_run (mem_chk (memory_idle e) (emission_interval_millis c) (effective_burst c))
           (mem_rfd (memory_idle e) (emission_interval_millis c)) es (gcra_states e (cache_key_for md5 c key)))"
proof (induction es arbitrary: t r e)
  case Nil
  then show ?case by simp
next
  case (Cons ev es)
  show ?case
  proof (cases ev)
    case (Check u k)
    obtain d e' where de: "check_memory md5 u key c (word_of_int k) e = (d, e')" by fastforce
    with Check Cons.prems have "events_ok (emission_interval_millis c) es u r" by simp
    from Cons.IH [OF this, of e'] show ?thesis
      using Check Cons.prems de check_memory_cell [OF assms _ _ de] check_memory_frame(5) [OF de]
      by (simp split: prod.splits)
  next
    case (Refund u k)
    with Cons.prems have k: "0 \<le> k" "k \<le> u32_max"
      and ok: "events_ok (emission_interval_millis c) es u (r - k * emission_interval_millis c)" by auto
    from Cons.IH [OF ok, of "refund_memory md5 u key c (word_of_int k) e"] show ?thesis
      using Refund by (simp add: refund_memory_cell [OF k, where t = u])
  qed
qed

lemma gcra_config_norm:
  assumes "uses_gcra (algorithm c)"
  shows "effective_burst (c\<lparr>algorithm := Gcra\<rparr>) = effective_burst c"
    and "emission_interval_millis (c\<lparr>algorithm := Gcra\<rparr>) = emission_interval_millis c"
    and "redis_expire_seconds (c\<lparr>algorithm := Gcra\<rparr>) = redis_expire_seconds c"
proof -
  have a: "algorithm c = TokenBucket \<or> algorithm c = Gcra" using assms by (cases "algorithm c") auto
  show b: "effective_burst (c\<lparr>algorithm := Gcra\<rparr>) = effective_burst c"
    using a by (auto simp: effective_burst_def)
  show e: "emission_interval_millis (c\<lparr>algorithm := Gcra\<rparr>) = emission_interval_millis c"
    by (simp add: emission_interval_millis_def)
  show "redis_expire_seconds (c\<lparr>algorithm := Gcra\<rparr>) = redis_expire_seconds c"
    using a b e by (auto simp: redis_expire_seconds_def)
qed

lemma lua_gcra_length: "length (fst (lua_gcra srv key a1 a2 a3 a4 a5 db)) = 3"
proof -
  have "length (fst (if b then ([x, y, z :: int], d :: redis_db) else ([x', y', z'], d'))) = 3" for b x y z x' y' z' d d'
    by simp
  then show ?thesis unfolding lua_gcra_def Let_def .
qed

lemma exec_lua_cell:
  assumes g: "uses_gcra (algorithm c)" and k: "1 \<le> k" "k \<le> u32_max"
    and i: "red_inv rk (emission_interval_millis c) (effective_burst c) t r db"
    and x: "exec_lua t rk (redis_call uuid t c (word_of_int k)) db = (v, db')"
  shows "red_chk rk (emission_interval_millis c) (effective_burst c) (redis_expire_seconds c) t k db
         = (quota (decision_of_reply c v), db')"
proof -
  let ?E = "emission_interval_millis c" and ?B = "effective_burst c"
  have alg: "algorithm c = TokenBucket \<or> algorithm c = Gcra" using g by (cases "algorithm c") auto
  have B: "max ?B 1 = ?B" using effective_burst_pos [of c] by linarith
  have E: "0 < ?E" using emission_pos [of c] by linarith
  have ttl: "\<bar>redis_expire_seconds c\<bar> \<le> 9007199254740992"
    using redis_ttl_covers [OF g] params_ok_mult(1) [OF config_params_ok [of c]] by linarith
  have call: "lua_gcra t rk t ?E ?B (redis_expire_seconds c) k db = (v, db')"
    using alg x k by (auto simp: redis_call_def B uint_cost)
  define r where "r = v ! 2"
  have q: "quota (decision_of_reply c v) = (if v ! 0 = 1 then Some (as_u32 (max r 0)) else None)"
    if "length v = 3"
    using alg that by (auto simp: decision_of_reply_def unpack_triple_def decision_from_lua_triple_def r_def)
  have len: "length v = 3" using call lua_gcra_length [of t rk] by (metis fst_conv)
  have "as_u32 (max r 0) = r" if one: "v ! 0 = 1"
  proof -
    have fits: "red_backlog rk t db + k * ?E \<le> ?B * ?E"
      and rv: "r = (?B * ?E - red_backlog rk t db - k * ?E) div ?E"
      using red_chk_eq [OF i config_params_ok k ttl] call one
      by (auto simp: red_chk_def r_def split: if_splits)
    have kE: "0 \<le> k * ?E" using k E by simp
    have q0: "0 \<le> red_backlog rk t db" by (auto simp: red_backlog_def split: option.splits)
    have "0 \<le> r" using rv fits E by (simp add: pos_imp_zdiv_nonneg_iff)
    moreover have "r \<le> (?B * ?E) div ?E" unfolding rv using kE q0 E by (intro zdiv_mono1) linarith+
    moreover have "?B * ?E div ?E \<le> u32_max" using E effective_burst_u32 [of c] by (simp add: u32_max_def)
    ultimately show ?thesis by simp
  qed
  then show ?thesis using call q [OF len] by (auto simp: red_chk_def r_def)
qed

lemma gcra_redis_run_cell:
  assumes g: "uses_gcra (algorithm c)"
  shows "events_ok (emission_interval_millis c) es t r \<Longrightarrow> red_inv (redis_key_for md5 key c) (emission_interval_millis c) (effective_burst c) t r db \<Longrightarrow>
    has_redis e \<Longrightarrow>
    map quota (gcra_redis_run md5 uuid key c es e db) =
    fst (cell_run (red_chk (redis_key_for md5 key c) (emission_interval_millis c) (effective_burst c)
                     (redis_expire_seconds c))
           (red_rfd (redis_key_for md5 key c) (emission_interval_millis c)) es db)"
proof (induction es arbitrary: t r e db)
  case Nil
  then show ?case by simp
next
  case (Cons ev es)
  let ?rk = "redis_key_for md5 key c" and ?E = "emission_interval_millis c" and ?B = "effective_burst c"
  note cell = red_gcra_cell [OF config_params_ok redis_ttl_covers [OF g], of ?rk]
  note mono = gcra_cell.inv_mono [OF cell] and cinv = gcra_cell.chk_inv [OF cell]
    and rinv = gcra_cell.rfd_inv [OF cell]
  show ?case
  proof (cases ev)
    case (Check u k)
    with Cons.prems have ok: "t \<le> u" "valid_time u" "1 \<le> k" "k \<le> u32_max" "events_ok ?E es u r" by auto
    have i: "red_inv ?rk ?E ?B u r db" using mono Cons.prems(2) ok by blast
    obtain v db' where x: "exec_lua u ?rk (redis_call uuid u c (word_of_int k)) db = (v, db')" by fastforce
    note q = exec_lua_cell [OF g ok(3,4) i x]
    have "red_inv ?rk ?E ?B u r db'" using cinv [OF i ok(3,4)] q by simp
    from Cons.IH [OF ok(5) this Cons.prems(3)] show ?thesis
      using Check x q Cons.prems(3) by (simp add: check_redis_def split: prod.splits)
  next
    case (Refund u k)
    with Cons.prems have ok: "t \<le> u" "valid_time u" "0 \<le> k" "k \<le> u32_max" "k * ?E \<le> r"
      "events_ok ?E es u (r - k * ?E)" by auto
    have i: "red_inv ?rk ?E ?B u r db" using mono Cons.prems(2) ok by blast
    from Cons.IH [OF ok(6) rinv [OF i ok(3,4,5)] Cons.prems(3)] show ?thesis
      using Refund by (simp add: red_rfd_def)
  qed
qed

section \<open>Properties of the token bucket\<close>

lemma mem_inv_backlog: "mem_inv I E B t r s \<Longrightarrow> 0 < E \<Longrightarrow> 0 < B \<Longrightarrow> mem_backlog t s \<le> B * E"
  by (cases s) (auto simp: mem_inv_def)

lemma gcra_rate_bound_aux:
  assumes g: "uses_gcra (algorithm c)"
    and ev: "events_ok (emission_interval_millis c) es t0 r" "list_all is_check es"
      "\<forall>ev \<in> set es. event_time ev \<le> t1" "t0 \<le> t1"
    and i: "mem_inv (memory_idle e) (emission_interval_millis c) (effective_burst c) t0 r
              (gcra_states e (cache_key_for md5 c key))"
  shows "admitted_cost es (map quota (gcra_memory_run md5 key c es e)) * emission_interval_millis c
         \<le> effective_burst c * emission_interval_millis c + (t1 - t0)"
proof -
  let ?s = "gcra_states e (cache_key_for md5 c key)"
  have "mem_backlog t0 ?s \<le> effective_burst c * emission_interval_millis c"
    using mem_inv_backlog [OF i] effective_burst_pos [of c] emission_pos [of c] by simp
  from mem_gcra.rate_bound [OF i ev this] show ?thesis
    using gcra_memory_run_cell [OF g ev(1), of md5 key e] mem_gcra.backlog_nonneg [of t0 ?s] by simp
qed

text \<open>
  C6. The token bucket bounds the admitted rate: for a configuration whose capacity (burst times
  emission interval) is within the idle time of the cache, whatever the requests on a key and whatever
  state the bucket is in, the total cost that the memory limiter admits between \<open>t0\<close> and \<open>t1\<close>, times
  the emission interval, is at most the burst times the interval plus the elapsed time; within one
  window (second, minute, hour or day) that is at most the burst plus the configured rate.
\<close>
theorem gcra_rate_bound:
  assumes "uses_gcra (algorithm c)"
    and "events_ok (emission_interval_millis c) es t0 r" and "list_all is_check es"
    and "\<forall>ev \<in> set es. event_time ev \<le> t1" and "t0 \<le> t1"
    and "mem_inv (memory_idle e) (emission_interval_millis c) (effective_burst c) t0 r
           (gcra_states e (cache_key_for md5 c key))"
  shows "admitted_cost es (map quota (gcra_memory_run md5 key c es e)) * emission_interval_millis c
           \<le> effective_burst c * emission_interval_millis c + (t1 - t0)
       \<and> (t1 - t0 \<le> window_millis c \<longrightarrow>
            admitted_cost es (map quota (gcra_memory_run md5 key c es e))
              \<le> effective_burst c + window_limit c)"
proof -
  let ?A = "admitted_cost es (map quota (gcra_memory_run md5 key c es e))"
  let ?E = "emission_interval_millis c"
  note b = gcra_rate_bound_aux [OF assms]
  have "?A \<le> effective_burst c + window_limit c" if "t1 - t0 \<le> window_millis c"
  proof -
    have "?A * ?E \<le> (effective_burst c + window_limit c) * ?E"
      using b that emission_window [of c] unfolding window_millis_def distrib_right by linarith
    then show ?thesis using emission_pos [of c] by simp
  qed
  with b show ?thesis by simp
qed

theorem gcra_rate_bound_witness:
  defines "md5 \<equiv> (\<lambda>s. s) :: string \<Rightarrow> string"
  defines "c \<equiv> \<lparr>rate = 2, per = Second, burst = 2, backend = Memory, algorithm = TokenBucket,
                 failure_policy = FailOpen, max_wait_ms = 0, mode = Enforce\<rparr>"
  defines "es \<equiv> [Check 1000 1, Check 1000 1, Check 1100 1, Check 1600 1]"
  defines "e \<equiv> engine_new False :: unit rate_limit_engine"
  shows "admitted_cost es (map quota (gcra_memory_run md5 ''ip'' c es e)) \<le> 4"
proof -
  have E: "emission_interval_millis c = 500" "effective_burst c = 2" "window_limit c = 2"
    "window_millis c = 1000" "uses_gcra (algorithm c)"
    by (simp_all add: c_def emission_interval_eq div_ceil_def window_limit_def effective_burst_def
        window_millis_def window_millis_per_def)
  have "events_ok 500 es 1000 0" "list_all is_check es" "\<forall>ev \<in> set es. event_time ev \<le> 2000"
    by (simp_all add: es_def valid_time_def time_max_def u32_max_def)
  moreover have "mem_inv (memory_idle e) 500 2 1000 0 (gcra_states e (cache_key_for md5 c ''ip''))"
    by (simp add: e_def mem_inv_def valid_time_def time_max_def i64_max_def)
  ultimately show ?thesis
    using gcra_rate_bound [of c es 1000 0 2000 e md5 "''ip''"] E by simp
qed

lemma check_memory_cost_max:
  assumes "uses_gcra (algorithm c)"
  shows "check_memory md5 t key c k e = check_memory md5 t key c (word_of_int (max (uint k) 1)) e"
proof -
  have "max (uint (word_of_int (max (uint k) 1) :: 32 word)) 1 = max (uint k) 1"
    by (simp add: uint_cost u32_max_def)
  then show ?thesis using assms by (simp add: check_memory_def check_memory_gcra_def)
qed

lemma check_memory_rejected:
  assumes g: "uses_gcra (algorithm c)"
    and i: "mem_inv (memory_idle e) (emission_interval_millis c) (effective_burst c) t r
              (gcra_states e (cache_key_for md5 c key))"
    and rej: "check_memory md5 t key c k e = (Rejected m, e')"
  shows "retry_after m = Some (mem_backlog t (gcra_states e (cache_key_for md5 c key))
           + max (uint k) 1 * emission_interval_millis c
           - effective_burst c * emission_interval_millis c)"
proof -
  let ?E = "emission_interval_millis c" and ?B = "effective_burst c" and ?k = "max (uint k) 1"
  let ?tat = "mem_tat (memory_idle e) t (gcra_states e (cache_key_for md5 c key))"
  have t: "valid_time t" using i by (simp add: mem_inv_def)
  have q: "max ?tat t - t = mem_backlog t (gcra_states e (cache_key_for md5 c key))"
    using mem_tat_backlog(1) [OF i] by linarith
  have "?tat \<le> t + ?B * ?E"
    using mem_tat_backlog(2) [OF i] params_ok_mult(1) [OF config_params_ok [of c]] by linarith
  moreover have "fst (gcra_attempt ?E ?B t ?k ?tat) = Rejected m"
    using g rej by (auto simp: check_memory_def check_memory_gcra_def mem_tat_def get_with_def Let_def split: prod.splits)
  moreover have "?B * ?E < max ?tat t - t + ?k * ?E"
  proof (rule ccontr)
    assume "\<not> ?B * ?E < max ?tat t - t + ?k * ?E"
    then have "fst (gcra_attempt ?E ?B t ?k ?tat) \<noteq> Rejected m"
      using gcra_attempt_allowed [OF config_params_ok [of c] cost_params_ok t, of ?tat] by simp
    then show False using calculation(2) by simp
  qed
  ultimately show ?thesis
    using gcra_attempt_rejected [OF config_params_ok [of c] cost_params_ok [of c k] t, of ?tat] q by auto
qed

lemma gcra_retry_exact:
  assumes g: "uses_gcra (algorithm c)"
    and i: "mem_inv (memory_idle e) (emission_interval_millis c) (effective_burst c) t r
              (gcra_states e (cache_key_for md5 c key))"
    and k: "max (uint k) 1 \<le> effective_burst c"
    and rej: "check_memory md5 t key c k e = (Rejected m, e')"
    and t': "t \<le> t'" "valid_time t'"
  shows "\<exists>w. retry_after m = Some w \<and> 0 < w \<and>
           (admitted (fst (check_memory md5 t' key c k e')) \<longleftrightarrow> t + w \<le> t')"
proof -
  let ?E = "emission_interval_millis c" and ?B = "effective_burst c" and ?k = "max (uint k) 1"
  let ?s = "gcra_states e (cache_key_for md5 c key)" and ?s' = "gcra_states e' (cache_key_for md5 c key)"
    and ?I = "memory_idle e"
  have kr: "1 \<le> ?k" "?k \<le> u32_max" by (simp_all add: u32_max_def)
  have cell: "mem_chk ?I ?E ?B t ?k ?s = (None, ?s')"
    using check_memory_cell [OF g kr, of md5 t key e] rej check_memory_cost_max [OF g, of md5 t key k e] by simp
  have i': "mem_inv ?I ?E ?B t r ?s'" and q': "mem_backlog t ?s' = mem_backlog t ?s"
    using mem_gcra.chk_inv [OF i kr] mem_gcra.chk_backlog [OF i kr] cell by auto
  have over: "?B * ?E < mem_backlog t ?s + ?k * ?E"
    using mem_gcra.chk_admit [OF i kr] cell by (auto split: if_splits)
  have "fst (mem_chk ?I ?E ?B t ?k ?s') = None"
    using mem_gcra.chk_admit [OF i' kr] q' over by simp
  from mem_gcra.retry_exact [OF i' kr(1) k kr(2) this t'] have
    "fst (mem_chk ?I ?E ?B t' ?k ?s') \<noteq> None \<longleftrightarrow> t + (mem_backlog t ?s + ?k * ?E - ?B * ?E) \<le> t'"
    using q' by simp
  moreover obtain d e'' where de: "check_memory md5 t' key c (word_of_int ?k) e' = (d, e'')" by fastforce
  ultimately show ?thesis
    using check_memory_rejected [OF g i rej] over check_memory_cell [OF g kr de] check_memory_frame(5) [OF rej] quota_admitted [of d]
      check_memory_cost_max [OF g, of md5 t' key k e'] by simp
qed

text \<open>
  C7. \<open>Retry-After\<close> is exact: when the memory token bucket of a configuration whose capacity is within
  the idle time of the cache rejects a request whose cost is within the burst, its \<open>retry_after\<close> is positive, and the same request sent again at any later time is
  admitted if and only if that many milliseconds have passed (no other request intervening).
\<close>
theorem gcra_retry_after_exact:
  assumes g: "uses_gcra (algorithm c)"
    and i: "mem_inv (memory_idle e) (emission_interval_millis c) (effective_burst c) t r
              (gcra_states e (cache_key_for md5 c key))"
    and k: "max (uint k) 1 \<le> effective_burst c"
    and rej: "check_memory md5 t key c k e = (Rejected m, e')"
    and t': "t \<le> t'" "valid_time t'"
  shows "\<exists>w. retry_after m = Some w \<and> 0 < w \<and>
           (admitted (fst (check_memory md5 t' key c k e')) \<longleftrightarrow> t + w \<le> t')"
  using gcra_retry_exact [OF assms] .

theorem gcra_retry_after_exact_witness:
  defines "md5 \<equiv> (\<lambda>s. s) :: string \<Rightarrow> string"
  defines "c \<equiv> \<lparr>rate = 2, per = Second, burst = 2, backend = Memory, algorithm = TokenBucket,
                 failure_policy = FailOpen, max_wait_ms = 0, mode = Enforce\<rparr>"
  defines "e \<equiv> (engine_new False :: unit rate_limit_engine)
                 \<lparr>gcra_states := [cache_key_for md5 c ''ip'' \<mapsto> (1000, 2000)]\<rparr>"
  shows "admitted (fst (check_memory md5 1500 ''ip'' c 1 (snd (check_memory md5 1000 ''ip'' c 1 e))))"
proof -
  have E: "emission_interval_millis c = 500" "effective_burst c = 2" "uses_gcra (algorithm c)"
    by (simp_all add: c_def emission_interval_eq div_ceil_def window_limit_def effective_burst_def
        window_millis_per_def)
  have i: "mem_inv (memory_idle e) (emission_interval_millis c) (effective_burst c) 1000 0
      (gcra_states e (cache_key_for md5 c ''ip''))"
    by (simp add: E e_def mem_inv_def valid_time_def time_max_def i64_max_def i64_min_def)
  have at: "gcra_attempt 500 2 1000 1 2000 = (Rejected (meta_rejected 2 500), 2000)"
    by (simp add: gcra_attempt_def sat_defs sat64_def i64_min_def i64_max_def as_u64_def as_u32_def)
  then obtain e' where rej: "check_memory md5 1000 ''ip'' c 1 e = (Rejected (meta_rejected 2 500), e')"
    by (simp add: check_memory_def check_memory_gcra_def E Let_def get_with_def e_def)
  have "\<exists>w. retry_after (meta_rejected 2 500) = Some w \<and> 0 < w \<and>
      (admitted (fst (check_memory md5 1500 ''ip'' c 1 e')) \<longleftrightarrow> 1000 + w \<le> 1500)"
    by (rule gcra_retry_after_exact [OF E(3) i _ rej]) (simp_all add: E valid_time_def time_max_def)
  then show ?thesis using rej by (simp add: meta_rejected_def)
qed

text \<open>
  A request whose cost exceeds the burst is rejected by the memory token bucket at every time,
  yet each rejection carries a finite positive \<open>retry_after\<close>.
\<close>
theorem gcra_over_burst_never_admitted:
  assumes g: "uses_gcra (algorithm c)"
    and i: "mem_inv (memory_idle e) (emission_interval_millis c) (effective_burst c) t r
              (gcra_states e (cache_key_for md5 c key))"
    and k: "effective_burst c < uint k"
  shows "\<exists>m w. fst (check_memory md5 t key c k e) = Rejected m \<and> retry_after m = Some w \<and> 0 < w"
proof -
  let ?E = "emission_interval_millis c" and ?B = "effective_burst c" and ?k = "max (uint k) 1"
  let ?s = "gcra_states e (cache_key_for md5 c key)"
  have kr: "1 \<le> ?k" "?k \<le> u32_max" "?B < ?k" using k by (simp_all add: u32_max_def)
  obtain d e' where de: "check_memory md5 t key c (word_of_int ?k) e = (d, e')" by fastforce
  then have de': "check_memory md5 t key c k e = (d, e')" using check_memory_cost_max [OF g] by metis
  have "valid_time t" using i by (simp add: mem_inv_def)
  then have "quota d = None"
    using mem_gcra.over_burst_never [OF i kr(3,2) order_refl] check_memory_cell [OF g kr(1,2) de] by simp
  moreover have "d \<noteq> BackendUnavailable" "\<nexists>x m. d = Delayed x m"
    using g de' by (auto simp: check_memory_def check_memory_gcra_def gcra_attempt_def Let_def
        split: prod.splits if_splits)
  ultimately obtain m where m: "d = Rejected m" by (cases d) auto
  have "?B * ?E < ?k * ?E" using emission_pos [of c] by (intro mult_strict_right_mono [OF kr(3)]) linarith
  then show ?thesis
    using check_memory_rejected [OF g i] de' m mem_gcra.backlog_nonneg [of t ?s] by fastforce
qed

theorem gcra_over_burst_never_admitted_witness:
  defines "md5 \<equiv> (\<lambda>s. s) :: string \<Rightarrow> string"
  defines "c \<equiv> \<lparr>rate = 2, per = Second, burst = 2, backend = Memory, algorithm = Gcra,
                 failure_policy = FailOpen, max_wait_ms = 0, mode = Enforce\<rparr>"
  shows "\<not> admitted (fst (check_memory md5 1000 ''ip'' c 3 (engine_new False :: unit rate_limit_engine)))"
proof -
  have E: "effective_burst c = 2" "uses_gcra (algorithm c)"
    by (simp_all add: c_def effective_burst_def)
  have E': "emission_interval_millis c = 500"
    by (simp add: c_def emission_interval_eq div_ceil_def window_limit_def window_millis_per_def)
  have "mem_inv (memory_idle (engine_new False :: unit rate_limit_engine)) (emission_interval_millis c)
      (effective_burst c) 1000 0 (gcra_states (engine_new False :: unit rate_limit_engine) (cache_key_for md5 c ''ip''))"
    by (simp add: mem_inv_def valid_time_def time_max_def i64_max_def E E')
  from gcra_over_burst_never_admitted [OF E(2) this, of 3] show ?thesis
    using E by auto
qed

text \<open>
  C8. The two back ends of the token bucket agree: from an empty bucket, on any sequence of checks
  and refunds in time order, the memory engine and the Redis scripts (with the code's key lifetimes
  and the rounding of Lua's doubles) admit the same requests and report the same remaining quota. The
  capacity is within the idle time of the memory cache and below \<open>2 ^ 52\<close> milliseconds, as the clock;
  the refunds are bounded by what the 64-bit arrival time can be lowered by.
\<close>
theorem gcra_backends_agree:
  assumes g: "uses_gcra (algorithm c)"
    and idle: "idle_covers (memory_idle em) c"
    and cap: "effective_burst c * emission_interval_millis c \<le> time_max"
    and ev: "events_ok (emission_interval_millis c) es t0 r" "valid_time t0" "0 \<le> r" "r \<le> i64_max"
    and m: "gcra_states em (cache_key_for md5 c key) = None"
    and d: "rstr db (redis_key_for md5 key c) = None" "has_redis er"
  shows "map quota (gcra_memory_run md5 key c es em)
         = map quota (gcra_redis_run md5 uuid key c es er db)"
proof -
  let ?E = "emission_interval_millis c" and ?B = "effective_burst c" and ?rk = "redis_key_for md5 key c"
  have im: "mem_inv (memory_idle em) ?E ?B t0 r (gcra_states em (cache_key_for md5 c key))"
    using m ev idle g by (simp add: mem_inv_def idle_covers_def)
  have ir: "red_inv ?rk ?E ?B t0 r db" using d ev cap by (simp add: red_inv_def)
  then have ir': "red_inv ?rk (emission_interval_millis (c\<lparr>algorithm := Gcra\<rparr>)) (effective_burst (c\<lparr>algorithm := Gcra\<rparr>)) t0 r db"
    by (simp add: gcra_config_norm [OF g])
  have er: "events_ok (emission_interval_millis (c\<lparr>algorithm := Gcra\<rparr>)) es t0 r"
    using ev(1) by (simp add: gcra_config_norm [OF g])
  have "map quota (gcra_memory_run md5 key c es em) = spec_run ?E ?B es t0 0"
    using gcra_memory_run_cell [OF g ev(1), of md5 key em] mem_gcra.run_spec [OF im ev(1)] m by simp
  moreover have "map quota (gcra_redis_run md5 uuid key c es er db) = spec_run ?E ?B es t0 0"
    using gcra_redis_run_cell [OF g ev(1) ir d(2), of uuid] red_gcra.run_spec [OF ir' er] d
    by (simp add: gcra_config_norm [OF g] red_backlog_def)
  ultimately show ?thesis by simp
qed

theorem gcra_backends_agree_witness:
  defines "md5 \<equiv> (\<lambda>s. s) :: string \<Rightarrow> string"
  defines "c \<equiv> \<lparr>rate = 2, per = Second, burst = 2, backend = Redis, algorithm = TokenBucket,
                 failure_policy = FailOpen, max_wait_ms = 0, mode = Enforce\<rparr>"
  defines "es \<equiv> [Check 1000 2, Refund 1100 1, Check 1200 1]"
  shows "map quota (gcra_memory_run md5 ''ip'' c es (engine_new False :: unit rate_limit_engine))
       = map quota (gcra_redis_run md5 ''u'' ''ip'' c es (engine_new True :: unit rate_limit_engine)
           \<lparr>rstr = Map.empty, rzset = Map.empty\<rparr>)"
proof -
  have E: "emission_interval_millis c = 500" "effective_burst c = 2" "uses_gcra (algorithm c)"
    by (simp_all add: c_def emission_interval_eq div_ceil_def window_limit_def window_millis_per_def effective_burst_def)
  show ?thesis
    by (rule gcra_backends_agree [where ?t0.0 = 1000 and r = 500])
       (simp_all add: E es_def valid_time_def time_max_def u32_max_def i64_max_def idle_covers_def)
qed

end
