(* ===== verification/Rate_Properties.thy ===== *)
theory Rate_Properties
  imports Rate_Context Rate_Runs Rate_Gcra
begin

text \<open>
  Properties of the rate limiter seen by a request: list short-cuts, the \<open>Shadow\<close> mode, accounting,
  reservations, key isolation, resets and the response headers.
\<close>

definition ip_allowed :: "('net \<Rightarrow> 'ip \<Rightarrow> bool) \<Rightarrow> 'ip \<Rightarrow> 'net rate_limit_engine \<Rightarrow> bool" where
  "ip_allowed contains ip e \<longleftrightarrow> list_ex (\<lambda>net. contains net ip) (allowlist e)"

definition ip_blocked :: "('net \<Rightarrow> 'ip \<Rightarrow> bool) \<Rightarrow> 'ip \<Rightarrow> 'net rate_limit_engine \<Rightarrow> bool" where
  "ip_blocked contains ip e \<longleftrightarrow> list_ex (\<lambda>net. contains net ip) (blocklist e)"

text \<open>The four caches of the engine: everything a quota is kept in.\<close>

definition caches :: "'net rate_limit_engine \<Rightarrow> _" where
  "caches e = (gcra_states e, fixed_window_states e, sliding_window_states e, scheduled_states e)"

lemma caches_stats [simp]: "caches (e\<lparr>stats_inner := s\<rparr>) = caches e"
  by (simp add: caches_def)

lemma check_lists_cases:
  "check_lists contains ip e =
    (if ip_allowed contains ip e then
       (Some (Allowed meta_unlimited),
        e\<lparr>stats_inner := (stats_inner e)\<lparr>st_allowlist_passes := st_allowlist_passes (stats_inner e) + 1\<rparr>\<rparr>)
     else if ip_blocked contains ip e then
       (Some (Rejected meta_blocklisted),
        e\<lparr>stats_inner := (stats_inner e)\<lparr>st_blocklist_blocks := st_blocklist_blocks (stats_inner e) + 1\<rparr>\<rparr>)
     else (None, e))"
  by (cases "allowlist e"; cases "blocklist e")
    (simp_all add: check_lists_def ip_allowed_def ip_blocked_def Let_def)

lemma check_with_cost_listed:
  assumes "ip_allowed contains (client_ip ctx) (w_engine w) \<or> ip_blocked contains (client_ip ctx) (w_engine w)"
    and "check_with_cost contains md5 now uuid up ctx key c cost message w = (r, w')"
  shows "r = (if ip_allowed contains (client_ip ctx) (w_engine w) then Inr meta_unlimited
              else Inl (TooManyRequests (Text message)))"
    and "w_db w' = w_db w" and "caches (w_engine w') = caches (w_engine w)"
    and "memory_idle (w_engine w') = memory_idle (w_engine w)"
  using assms by (auto simp: check_with_cost_def check_lists_cases record_meta_def Let_def split: if_splits)

lemma record_meta_simps [simp]:
  "w_engine (record_meta d w) = w_engine w" "w_db (record_meta d w) = w_db w" "w_slept (record_meta d w) = w_slept w"
  by (auto simp: record_meta_def split: option.splits)

section \<open>Lists and modes\<close>

text \<open>
  An allowlisted address passes without touching any quota, and a blocklisted one (not
  allowlisted) is refused with 429 in every mode, \<open>Shadow\<close> included; neither consults a back end.
\<close>
theorem lists_short_circuit:
  assumes "ip_allowed contains (client_ip ctx) (w_engine w) \<or> ip_blocked contains (client_ip ctx) (w_engine w)"
    and "check_with_cost contains md5 now uuid up ctx key c cost message w = (r, w')"
  shows "r = (if ip_allowed contains (client_ip ctx) (w_engine w) then Inr meta_unlimited
              else Inl (TooManyRequests (Text message)))
    \<and> w_db w' = w_db w \<and> caches (w_engine w') = caches (w_engine w)"
  using check_with_cost_listed [OF assms] by blast

definition sample_config :: "rate_limit_algorithm \<Rightarrow> rate_limit_backend \<Rightarrow> rate_limit_mode \<Rightarrow> rate_limit_config" where
  "sample_config a b m = \<lparr>rate = 2, per = Second, burst = 2, backend = b, algorithm = a,
     failure_policy = FailOpen, max_wait_ms = 0, mode = m\<rparr>"

definition sample_world :: "nat list \<Rightarrow> nat rl_world" where
  "sample_world block = \<lparr>w_engine = engine_with_config True (engine_config_default\<lparr>ec_blocklist := block\<rparr>),
     w_db = \<lparr>rstr = Map.empty, rzset = Map.empty\<rparr>, w_holder = None, w_slept = []\<rparr>"

definition sample_ctx :: "nat rate_limit_context" where
  "sample_ctx = \<lparr>client_ip = 7, user_id = None, headers = []\<rparr>"

theorem lists_short_circuit_witness:
  "fst (check_with_cost (=) (\<lambda>s. s) 1000 [] True sample_ctx ''ip'' (sample_config Gcra Memory Shadow) 1 ''m''
     (sample_world [7])) = Inl (TooManyRequests (Text ''m''))"
  using lists_short_circuit [of "(=)" sample_ctx "sample_world [7]" "\<lambda>s. s" 1000 "[]" True "''ip''"
      "sample_config Gcra Memory Shadow" 1 "''m''", OF _ surjective_pairing]
  by (simp add: sample_world_def sample_ctx_def ip_allowed_def ip_blocked_def)

lemma emission_mode [simp]:
  "emission_interval_millis (c\<lparr>mode := m\<rparr>) = emission_interval_millis c"
  "effective_burst (c\<lparr>mode := m\<rparr>) = effective_burst c" "window_millis (c\<lparr>mode := m\<rparr>) = window_millis c"
  "window_limit (c\<lparr>mode := m\<rparr>) = window_limit c" "cache_key_for md5 (c\<lparr>mode := m\<rparr>) key = cache_key_for md5 c key"
  "redis_key_for md5 key (c\<lparr>mode := m\<rparr>) = redis_key_for md5 key c"
  "redis_expire_seconds (c\<lparr>mode := m\<rparr>) = redis_expire_seconds c"
  by (cases "algorithm c"; simp add: emission_interval_millis_def effective_burst_def window_millis_def
      window_limit_def cache_key_for_def redis_key_for_def signature_def window_seconds_def
      redis_expire_seconds_def Let_def)+

text \<open>Nothing but \<open>finalize\<close> looks at the mode.\<close>

lemma check_memory_mode [simp]: "check_memory md5 now key (c\<lparr>mode := m\<rparr>) cost e = check_memory md5 now key c cost e"
  by (simp add: check_memory_def check_memory_gcra_def check_memory_fixed_window_def
      check_memory_sliding_window_def check_memory_scheduled_slot_def)

lemma redis_mode [simp]:
  "redis_call uuid now (c\<lparr>mode := m\<rparr>) k = redis_call uuid now c k"
  "decision_of_reply (c\<lparr>mode := m\<rparr>) v = decision_of_reply c v"
  by (cases "algorithm c"; simp add: redis_call_def decision_of_reply_def Let_def)+

lemma check_redis_mode [simp]:
  "redis_reply md5 now uuid up key (c\<lparr>mode := m\<rparr>) cost db = redis_reply md5 now uuid up key c cost db"
  "handle_backend_failure md5 now key (c\<lparr>mode := m\<rparr>) cost e = handle_backend_failure md5 now key c cost e"
  "check_redis md5 now reply key (c\<lparr>mode := m\<rparr>) cost e = check_redis md5 now reply key c cost e"
  by (cases "failure_policy c"; cases reply;
      simp add: redis_reply_def check_redis_def handle_backend_failure_def Let_def)+

lemma engine_check_mode [simp]:
  "engine_check_with_cost md5 now uuid up key (c\<lparr>mode := m\<rparr>) cost = engine_check_with_cost md5 now uuid up key c cost"
  by (cases "backend c") (simp_all add: engine_check_with_cost_def)

text \<open>
  \<open>Shadow\<close> only observes: the same request under \<open>Shadow\<close> and under \<open>Enforce\<close> leaves the same quotas,
  Redis database, metadata holder and delays behind, and the same answer, except that a rejection by
  the limiter (not by the blocklist) is answered with its metadata instead of 429.
\<close>
theorem shadow_only_observes:
  assumes s: "check_with_cost contains md5 now uuid up ctx key (c\<lparr>mode := Shadow\<rparr>) cost message w = (rs, ws)"
    and e: "check_with_cost contains md5 now uuid up ctx key (c\<lparr>mode := Enforce\<rparr>) cost message w = (re, we)"
  shows "caches (w_engine ws) = caches (w_engine we) \<and> w_db ws = w_db we \<and> w_holder ws = w_holder we
    \<and> w_slept ws = w_slept we
    \<and> (rs = re \<or> re = Inl (TooManyRequests (Text message)) \<and> (\<exists>m. rs = Inr m)
         \<and> \<not> ip_blocked contains (client_ip ctx) (w_engine w))"
proof (cases "ip_allowed contains (client_ip ctx) (w_engine w) \<or> ip_blocked contains (client_ip ctx) (w_engine w)")
  case True
  then show ?thesis using s e by (auto simp: check_with_cost_def check_lists_cases split: if_splits)
next
  case False
  obtain d e' db' where "engine_check_with_cost md5 now uuid up key c (max cost 1) (w_engine w, w_db w) = (d, e', db')"
    using prod_cases3 by blast
  then show ?thesis using s e False
    by (cases d) (auto simp: check_with_cost_def check_lists_cases finalize_def record_meta_def Let_def)
qed

theorem shadow_only_observes_witness:
  "w_db (snd (check_with_cost (=) (\<lambda>s. s) 1000 ''u'' True sample_ctx ''ip'' (sample_config Gcra Redis Shadow) 1 ''m''
           (sample_world [])))
   = w_db (snd (check_with_cost (=) (\<lambda>s. s) 1000 ''u'' True sample_ctx ''ip'' (sample_config Gcra Redis Enforce) 1 ''m''
           (sample_world [])))"
  using shadow_only_observes [of "(=)" "\<lambda>s. s" 1000 "''u''" True sample_ctx "''ip''" "sample_config Gcra Redis Enforce" 1
      "''m''" "sample_world []", OF surjective_pairing surjective_pairing]
  by (simp add: sample_config_def)

section \<open>Accounting\<close>

text \<open>The six counters of final outcomes.\<close>

datatype check_outcome =
  WasAllowed | WasDelayed | WasRejected | WasFailClosed | WasAllowlisted | WasBlocklisted

fun outcome_counter :: "check_outcome \<Rightarrow> rate_limit_stats \<Rightarrow> 64 word" where
  "outcome_counter WasAllowed s = st_allowed s"
| "outcome_counter WasDelayed s = st_delayed s"
| "outcome_counter WasRejected s = st_rejected s"
| "outcome_counter WasFailClosed s = st_fail_closed_blocks s"
| "outcome_counter WasAllowlisted s = st_allowlist_passes s"
| "outcome_counter WasBlocklisted s = st_blocklist_blocks s"

text \<open>
  The outcome of a check as its caller sees it: the lists, then the answer, a delay that was slept, and
  for a request let through by the \<open>Shadow\<close> mode the counter of shadow passes.
\<close>

definition seen_outcome ::
  "('net \<Rightarrow> 'ip \<Rightarrow> bool) \<Rightarrow> 'ip \<Rightarrow> 'net rl_world \<Rightarrow> (api_errors + rate_limit_metadata) \<Rightarrow> 'net rl_world
   \<Rightarrow> check_outcome" where
  "seen_outcome contains ip w r w' =
     (if ip_allowed contains ip (w_engine w) then WasAllowlisted
      else if ip_blocked contains ip (w_engine w) then WasBlocklisted
      else case r of
        Inl (ServiceUnavailable _) \<Rightarrow> WasFailClosed
      | Inl _ \<Rightarrow> WasRejected
      | Inr _ \<Rightarrow>
          (if st_shadow_passes (stats_inner (w_engine w')) \<noteq> st_shadow_passes (stats_inner (w_engine w))
           then WasRejected
           else if w_slept w' \<noteq> w_slept w then WasDelayed else WasAllowed))"

fun decided :: "rate_limit_decision \<Rightarrow> check_outcome" where
  "decided (Allowed _) = WasAllowed"
| "decided (Delayed _ _) = WasDelayed"
| "decided (Rejected _) = WasRejected"
| "decided BackendUnavailable = WasFailClosed"

lemma counter_record:
  "outcome_counter k (stats_record d s) = outcome_counter k s + (if k = decided d then 1 else 0)"
  by (cases d; cases k; simp add: stats_record_def)

lemma shadow_record: "st_shadow_passes (stats_record d s) = st_shadow_passes s"
  by (cases d; simp add: stats_record_def)

lemma check_redis_counters:
  assumes "check_redis md5 now reply key c cost e = (d, e')"
  shows "outcome_counter k (stats_inner e') = outcome_counter k (stats_inner e)"
    "st_shadow_passes (stats_inner e') = st_shadow_passes (stats_inner e)"
proof -
  have "outcome_counter k (stats_inner e') = outcome_counter k (stats_inner e)
      \<and> st_shadow_passes (stats_inner e') = st_shadow_passes (stats_inner e)"
    using assms
    by (cases k; auto simp: check_redis_def handle_backend_failure_def Let_def
        split: sum.splits if_splits rate_limit_failure_policy.splits dest: check_memory_frame)
  then show "outcome_counter k (stats_inner e') = outcome_counter k (stats_inner e)"
    "st_shadow_passes (stats_inner e') = st_shadow_passes (stats_inner e)" by simp_all
qed

lemma engine_check_counters:
  assumes "engine_check_with_cost md5 now uuid up key c cost (e, db) = (d, e', db')"
  shows "outcome_counter k (stats_inner e') = outcome_counter k (stats_inner e) + (if k = decided d then 1 else 0)"
    "st_shadow_passes (stats_inner e') = st_shadow_passes (stats_inner e)"
  using assms
  by (auto simp: engine_check_with_cost_def Let_def counter_record shadow_record check_redis_counters check_memory_frame
      split: prod.splits rate_limit_backend.splits)

lemma counter_cost:
  "outcome_counter k (s\<lparr>st_cost_consumed := x\<rparr>) = outcome_counter k s"
  "outcome_counter k (s\<lparr>st_shadow_passes := x\<rparr>) = outcome_counter k s"
  by (cases k; simp)+

text \<open>
  C12. Every check is counted exactly once, in the counter of its outcome: whatever the mode, the lists,
  the back end and its failures, one check adds one to the counter of the outcome its caller sees
  (passed by the allowlist, blocked by the blocklist, allowed, delayed, rejected, a rejection let
  through by the \<open>Shadow\<close> mode being a rejection, or refused because the back end failed closed) and
  leaves the other five outcome counters as they were.
\<close>
theorem check_counted_once:
  "case check_with_cost contains md5 now uuid up ctx key c cost message w of (r, w') \<Rightarrow>
     outcome_counter k (stats_inner (w_engine w')) = outcome_counter k (stats_inner (w_engine w))
       + (if k = seen_outcome contains (client_ip ctx) w r w' then 1 else 0)"
proof (cases "ip_allowed contains (client_ip ctx) (w_engine w) \<or> ip_blocked contains (client_ip ctx) (w_engine w)")
  case True
  then show ?thesis unfolding check_with_cost_def check_lists_cases
    by (cases k) (auto simp: seen_outcome_def Let_def)
next
  case False
  obtain d e' db' where k: "engine_check_with_cost md5 now uuid up key c (max cost 1) (w_engine w, w_db w) = (d, e', db')"
    using prod_cases3 by blast
  note n = engine_check_counters [OF k]
  show ?thesis using False n
    by (cases d) (auto simp: check_with_cost_def check_lists_cases k finalize_def seen_outcome_def
        counter_cost Let_def)
qed


section \<open>Keys do not interfere\<close>

lemma cache_key_inj:
  assumes "cache_key_for md5 c key = cache_key_for md5 c' key'"
    and "length key \<le> user_key_max_len" "length key' \<le> user_key_max_len"
  shows "key = key'" "algorithm c = algorithm c'" "rate c = rate c'" "window_seconds c = window_seconds c'"
proof -
  have "split_on CHR '':'' (cache_key_for md5 c key) = split_on CHR '':'' (cache_key_for md5 c' key')"
    using assms(1) by simp
  then show "key = key'" "algorithm c = algorithm c'" "rate c = rate c'" "window_seconds c = window_seconds c'"
    using assms(2,3) unfolding cache_key_split
    by (auto simp: sanitize_user_key_def word_uint_eq_iff dest: alg_key_segment_inj split_on_inj)
qed

text \<open>A check reads only the caches' entries at its own key.\<close>

lemma check_memory_local:
  assumes "gcra_states e (cache_key_for md5 c key) = gcra_states e' (cache_key_for md5 c key)"
    "fixed_window_states e (cache_key_for md5 c key) = fixed_window_states e' (cache_key_for md5 c key)"
    "sliding_window_states e (cache_key_for md5 c key) = sliding_window_states e' (cache_key_for md5 c key)"
    "scheduled_states e (cache_key_for md5 c key) = scheduled_states e' (cache_key_for md5 c key)"
    "memory_idle e = memory_idle e'"
  shows "fst (check_memory md5 now key c cost e) = fst (check_memory md5 now key c cost e')"
  using assms
  by (simp add: check_memory_def check_memory_gcra_def check_memory_scheduled_slot_def get_with_def
      check_memory_fixed_window_def check_memory_sliding_window_def Let_def split: prod.splits)

text \<open>
  Keys do not interfere: two checks whose user keys (up to 200 bytes) differ, or whose algorithm,
  rate or window differ, share no quota; what the first one does never changes the decision of the second.
\<close>
theorem keys_independent:
  assumes "length key \<le> user_key_max_len" "length key' \<le> user_key_max_len"
    and "key \<noteq> key' \<or> algorithm c \<noteq> algorithm c' \<or> rate c \<noteq> rate c' \<or> window_seconds c \<noteq> window_seconds c'"
  shows "fst (check_memory md5 now key c cost (snd (check_memory md5 now' key' c' cost' e)))
       = fst (check_memory md5 now key c cost e)"
proof -
  have k: "cache_key_for md5 c key \<noteq> cache_key_for md5 c' key'" using cache_key_inj [OF _ assms(1,2)] assms(3) by metis
  obtain d e' where m: "check_memory md5 now' key' c' cost' e = (d, e')" by fastforce
  show ?thesis using check_memory_other_keys [OF m k] check_memory_frame(5) [OF m] m by (auto intro: check_memory_local)
qed

theorem keys_independent_witness:
  "fst (check_memory (\<lambda>s. s) 1000 ''ip:a'' (sample_config Gcra Memory Enforce) 2
      (snd (check_memory (\<lambda>s. s) 1000 ''ip:b'' (sample_config Gcra Memory Enforce) 2 (w_engine (sample_world [])))))
   = fst (check_memory (\<lambda>s. s) 1000 ''ip:a'' (sample_config Gcra Memory Enforce) 2 (w_engine (sample_world [])))"
  by (rule keys_independent) (simp_all add: user_key_max_len_def)

section \<open>Reservations\<close>

lemma check_unlisted_memory:
  assumes "\<not> ip_allowed contains (client_ip ctx) (w_engine w)" "\<not> ip_blocked contains (client_ip ctx) (w_engine w)"
    and "backend c = Memory" and "mode c = Enforce"
    and m: "check_memory md5 now key c (max cost 1) (w_engine w) = (d, e')"
    and run: "check_with_cost contains md5 now uuid up ctx key c cost message w = (r, w')"
  shows "caches (w_engine w') = caches e' \<and> has_redis (w_engine w') = has_redis e'
      \<and> memory_idle (w_engine w') = memory_idle e'
      \<and> w_db w' = w_db w \<and> ((\<exists>x. r = Inr x) \<longleftrightarrow> admitted d)"
proof -
  have c: "engine_check_with_cost md5 now uuid up key c (max cost 1) (w_engine w, w_db w)
      = (d, e'\<lparr>stats_inner := stats_record d (stats_inner e')\<rparr>, w_db w)"
    using assms(3) m by (simp add: engine_check_with_cost_def max.assoc)
  show ?thesis
    using run assms(1,2,4) unfolding check_with_cost_def check_lists_cases
    by (cases d) (simp_all add: c finalize_def Let_def, auto)
qed


lemma gcra_check_effect:
  assumes g: "uses_gcra (algorithm c)" and t: "valid_time t"
    and m: "check_memory md5 t key c cost e = (d, e')"
  defines "A \<equiv> max (get_with (memory_idle e) t (gcra_states e) (cache_key_for md5 c key) t) t"
    and "x \<equiv> max (uint cost) 1 * emission_interval_millis c"
  shows "admitted d \<longleftrightarrow> A - t + x \<le> effective_burst c * emission_interval_millis c"
    and "admitted d \<Longrightarrow> e' = e\<lparr>gcra_states := (gcra_states e)(cache_key_for md5 c key \<mapsto> (t, A + x))\<rparr>"
proof -
  let ?tat = "get_with (memory_idle e) t (gcra_states e) (cache_key_for md5 c key) t"
  let ?a = "gcra_attempt (emission_interval_millis c) (effective_burst c) t (max (uint cost) 1) ?tat"
  have m': "d = fst ?a" "e' = e\<lparr>gcra_states := (gcra_states e)(cache_key_for md5 c key \<mapsto> (t, snd ?a))\<rparr>"
    using m g by (auto simp: check_memory_def check_memory_gcra_def Let_def split: prod.splits)
  have "(admitted (fst ?a) \<longleftrightarrow> A - t + x \<le> effective_burst c * emission_interval_millis c)
      \<and> (admitted (fst ?a) \<longrightarrow> snd ?a = A + x)"
  proof (cases "A - t + x \<le> effective_burst c * emission_interval_millis c")
    case True
    then show ?thesis
      using gcra_attempt_allowed [OF config_params_ok [of c] cost_params_ok t, of ?tat cost] by (simp add: A_def x_def)
  next
    case False
    then show ?thesis
      using gcra_attempt_rejected [OF config_params_ok [of c] cost_params_ok t, of ?tat cost] by (auto simp: A_def x_def)
  qed
  then show "admitted d \<longleftrightarrow> A - t + x \<le> effective_burst c * emission_interval_millis c"
    "admitted d \<Longrightarrow> e' = e\<lparr>gcra_states := (gcra_states e)(cache_key_for md5 c key \<mapsto> (t, A + x))\<rparr>"
    using m' by auto
qed


lemma refund_memory_at:
  assumes "moka_live (memory_idle e) t (gcra_states e (cache_key_for md5 c key)) = Some tat" "0 \<le> tat" "tat \<le> i64_max"
  shows "refund_memory md5 t key c cost e =
    e\<lparr>gcra_states := (gcra_states e)(cache_key_for md5 c key \<mapsto> (t, tat - uint cost * emission_interval_millis c))\<rparr>"
proof -
  have k: "0 \<le> uint cost" "uint cost \<le> u32_max" using uint_bounded [of cost] by (simp_all add: u32_max_def)
  note s = sat_mul_cost [OF config_params_ok [of c] k]
  have "wrap_i64 (tat - uint cost * emission_interval_millis c) = tat - uint cost * emission_interval_millis c"
    by (rule wrap_i64_id) (use assms(2,3) s in \<open>auto simp: in_i64_def i64_min_def i64_max_def\<close>)
  then show ?thesis using assms(1) s(1) by (simp add: refund_memory_def Let_def)
qed

lemma min_cost_word: "a \<le> k \<Longrightarrow> a \<noteq> 0 \<Longrightarrow> max a (1 :: 32 word) = a \<and> 1 \<le> uint a \<and> uint a \<le> uint k"
proof -
  assume "a \<le> k" "a \<noteq> 0"
  moreover have "uint a \<noteq> 0" using \<open>a \<noteq> 0\<close> by (simp add: word_uint_eq_iff)
  ultimately have "1 \<le> uint a" "uint a \<le> uint k"
    using uint_nonnegative [of a] unfolding word_le_def by linarith+
  then show ?thesis by (simp add: max_absorb1 word_le_def)
qed

text \<open>What the four caches hold at \<open>now\<close> for each key.\<close>

definition held :: "int \<Rightarrow> 'net rate_limit_engine \<Rightarrow> _" where
  "held now e =
     ((\<lambda>k. moka_live (memory_idle e) now (gcra_states e k)),
      (\<lambda>k. moka_live (memory_idle e) now (fixed_window_states e k)),
      (\<lambda>k. moka_live (memory_idle e) now (sliding_window_states e k)),
      (\<lambda>k. moka_live (memory_idle e) now (scheduled_states e k)))"

lemma held_caches: "caches e = caches e' \<Longrightarrow> memory_idle e = memory_idle e' \<Longrightarrow> held now e = held now e'"
  by (simp add: held_def caches_def)

lemma held_stats [simp]: "held now (e\<lparr>stats_inner := s\<rparr>) = held now e"
  by (simp add: held_def)

text \<open>
  C17. A reservation is exact on the memory back end in the \<open>Enforce\<close> mode, for a client on neither list:
  reserving an estimate on the token bucket and committing a smaller actual cost (not zero), at the same
  moment or any later one, leaves the caches holding exactly what they would hold had the actual cost
  been checked in the first place.
\<close>
theorem reserve_commit_exact:
  assumes g: "uses_gcra (algorithm c)" and b: "backend c = Memory" "mode c = Enforce"
    and l: "\<not> ip_allowed contains (client_ip ctx) (w_engine w)" "\<not> ip_blocked contains (client_ip ctx) (w_engine w)"
    and t: "valid_time t" "t \<le> t'"
    and r: "reserve contains md5 t uuid up ctx key c est message w = (Inr rv, w1)"
    and a: "act \<le> max est 1" "act \<noteq> 0"
  shows "held t' (fst (reservation_commit md5 t' up' act rv (w_engine w1, w_db w1)))
       = held t' (w_engine (snd (check_with_cost contains md5 t uuid up ctx key c act message w)))"
proof -
  let ?E = "emission_interval_millis c" and ?B = "effective_burst c" and ?ck = "cache_key_for md5 c key"
    and ?k = "max est 1"
  define A where "A = max (get_with (memory_idle (w_engine w)) t (gcra_states (w_engine w)) ?ck t) t"
  have sc: "supports_cost (algorithm c)" using g by (simp add: supports_cost_def)
  obtain q where q: "check_with_cost contains md5 t uuid up ctx key c ?k message w = (Inr q, w1)"
    and rv: "rv = Some \<lparr>rs_key = key, rs_config = c, rs_reserved_cost = ?k\<rparr>"
    using r sc by (auto simp: reserve_def bind_s_def ok_s_def Let_def split: prod.splits sum.splits)
  obtain d1 e1 where m1: "check_memory md5 t key c (max ?k 1) (w_engine w) = (d1, e1)" by fastforce
  obtain d2 e2 where m2: "check_memory md5 t key c (max act 1) (w_engine w) = (d2, e2)" by fastforce
  obtain r2 w2 where q2: "check_with_cost contains md5 t uuid up ctx key c act message w = (r2, w2)" by fastforce
  note c1 = check_unlisted_memory [OF l b m1 q] and c2 = check_unlisted_memory [OF l b m2 q2]
  have mx: "max act 1 = act" "1 \<le> uint act" "uint act \<le> uint ?k" "max ?k 1 = ?k"
    using min_cost_word [OF a] by (auto simp: max.assoc)
  then have u: "max (uint ?k) 1 = uint ?k" "max (uint act) 1 = uint act" by simp_all
  have kE: "uint act * ?E \<le> uint ?k * ?E" using mx config_interval [of c] by (intro mult_right_mono) linarith+
  note f1 = gcra_check_effect [OF g t(1) m1 [unfolded mx], folded A_def, unfolded u]
    and f2 = gcra_check_effect [OF g t(1) m2 [unfolded mx], folded A_def, unfolded u]
  have ad: "admitted d1" using c1 by auto
  then have fit: "A - t + uint ?k * ?E \<le> ?B * ?E" using f1 by simp
  then have e1: "e1 = (w_engine w)\<lparr>gcra_states := (gcra_states (w_engine w))(?ck \<mapsto> (t, A + uint ?k * ?E))\<rparr>"
    and e2: "e2 = (w_engine w)\<lparr>gcra_states := (gcra_states (w_engine w))(?ck \<mapsto> (t, A + uint act * ?E))\<rparr>"
    using f1 f2 kE ad by auto
  have tat: "gcra_states (w_engine w1) ?ck = Some (t, A + uint ?k * ?E)" using c1 e1 by (simp add: caches_def)
  have idle: "memory_idle (w_engine w1) = memory_idle (w_engine w)" "memory_idle e1 = memory_idle (w_engine w)"
    "memory_idle e2 = memory_idle (w_engine w)" "memory_idle (w_engine w2) = memory_idle (w_engine w)"
    using c1 c2 e1 e2 by simp_all
  have "0 \<le> uint ?k * ?E" using config_interval(1) [of c] by (intro mult_nonneg_nonneg) (simp, linarith)
  then have pos: "0 \<le> A + uint ?k * ?E" "A + uint ?k * ?E \<le> i64_max"
    using fit params_ok_mult [OF config_params_ok [of c]] t by (auto simp: A_def valid_time_def time_max_def i64_max_def)
  have h1: "held t' (w_engine w1) = held t' e1" and h2: "held t' (w_engine w2) = held t' e2"
    using c1 c2 idle by (auto intro: held_caches)
  show ?thesis
  proof (cases "act = ?k")
    case True
    then show ?thesis using h1 h2 e1 e2 q2 by (simp add: reservation_commit_def rv)
  next
    case False
    then have lt: "act < ?k" using a by simp
    have d: "uint (?k - act) = uint ?k - uint act" using a(1) by (simp add: uint_sub_lem [THEN iffD1] word_le_def)
    have ne: "?k - act \<noteq> 0" using lt by simp
    have cm: "held t' (fst (reservation_commit md5 t' up' act rv (w_engine w1, w_db w1)))
        = held t' (refund_memory md5 t' key c (?k - act) (w_engine w1))"
      using lt sc b ne by (simp add: reservation_commit_def rv refund_def Let_def min_absorb1)
    show ?thesis
    proof (cases "t + memory_idle (w_engine w) \<le> t'")
      case True
      then have "refund_memory md5 t' key c (?k - act) (w_engine w1) = w_engine w1"
        using tat idle by (simp add: refund_memory_def Let_def)
      moreover have "held t' e1 = held t' e2" using True by (auto simp: held_def e1 e2 fun_eq_iff)
      ultimately show ?thesis using cm h1 h2 q2 by simp
    next
      case False
      then have live: "moka_live (memory_idle (w_engine w1)) t' (gcra_states (w_engine w1) ?ck) = Some (A + uint ?k * ?E)"
        using tat idle by simp
      have "t' < t' + memory_idle (w_engine w)" using False t(2) by linarith
      then have "held t' (refund_memory md5 t' key c (?k - act) (w_engine w1)) = held t' e2"
        using refund_memory_at [OF live pos, of "?k - act"] c1 e1 e2 idle False d
        by (auto simp: held_def caches_def fun_eq_iff left_diff_distrib)
      then show ?thesis using cm h2 q2 by simp
    qed
  qed
qed


theorem reserve_commit_exact_witness:
  defines "w1 \<equiv> snd (reserve (=) (\<lambda>s. s) 1000 [] True sample_ctx ''ip'' (sample_config Gcra Memory Enforce) 2 ''m''
                       (sample_world []))"
    and "rv \<equiv> projr (fst (reserve (=) (\<lambda>s. s) 1000 [] True sample_ctx ''ip'' (sample_config Gcra Memory Enforce) 2
                       ''m'' (sample_world [])))"
  shows "held 1300 (fst (reservation_commit (\<lambda>s. s) 1300 True 1 rv (w_engine w1, w_db w1)))
       = held 1300 (w_engine (snd (check_with_cost (=) (\<lambda>s. s) 1000 [] True sample_ctx ''ip''
           (sample_config Gcra Memory Enforce) 1 ''m'' (sample_world []))))"
proof -
  let ?c = "sample_config Gcra Memory Enforce" and ?w = "sample_world []"
  have E: "emission_interval_millis ?c = 500" "effective_burst ?c = 2"
    by (simp_all add: sample_config_def emission_interval_eq div_ceil_def window_limit_def window_millis_per_def
        effective_burst_def)
  have un: "\<not> ip_allowed (=) (client_ip sample_ctx) (w_engine ?w)" "\<not> ip_blocked (=) (client_ip sample_ctx) (w_engine ?w)"
    by (simp_all add: ip_allowed_def ip_blocked_def sample_world_def)
  have cfg: "uses_gcra (algorithm ?c)" "backend ?c = Memory" "mode ?c = Enforce" "algorithm ?c = Gcra"
    and v: "valid_time 1000"
    by (simp_all add: sample_config_def valid_time_def time_max_def)
  obtain d e where m: "check_memory (\<lambda>s. s) 1000 ''ip'' ?c (max 2 1) (w_engine ?w) = (d, e)" by fastforce
  obtain r w' where q: "check_with_cost (=) (\<lambda>s. s) 1000 [] True sample_ctx ''ip'' ?c 2 ''m'' ?w = (r, w')"
    by fastforce
  have "get_with i 1000 (gcra_states (w_engine ?w)) k 1000 = 1000" for k i
    by (simp add: sample_world_def get_with_def)
  then have "admitted d" using gcra_check_effect(1) [OF cfg(1) v m] by (simp add: E max_def)
  then obtain x where "r = Inr x" using check_unlisted_memory [OF un cfg(2,3) m q] by auto
  moreover have "max (2 :: 32 word) 1 = 2" by (simp add: max_def word_le_def)
  ultimately have "\<exists>rv w1. reserve (=) (\<lambda>s. s) 1000 [] True sample_ctx ''ip'' ?c 2 ''m'' ?w = (Inr rv, w1)"
    using q cfg(4) by (simp add: reserve_def supports_cost_def bind_s_def ok_s_def Let_def)
  then show ?thesis
    using reserve_commit_exact [where c = ?c and contains = "(=)" and ctx = sample_ctx and w = ?w and t = 1000 and t' = 1300
        and ?md5.0 = "\<lambda>s. s" and uuid = "[]" and up = True and key = "''ip''" and est = 2 and message = "''m''"
        and act = 1 and up' = True] un
    using cfg v by (auto simp: w1_def rv_def max_def)
qed


text \<open>
  A reservation that was never charged still refunds: an allowlisted request takes no quota, but
  releasing its reservation lowers the arrival time of the key, so the key's other users gain the
  whole reserved cost (on a key the caches hold).
\<close>
theorem allowlisted_release_credits:
  assumes g: "uses_gcra (algorithm c)" and b: "backend c = Memory"
    and l: "ip_allowed contains (client_ip ctx) (w_engine w)"
    and s: "moka_live (memory_idle (w_engine w)) t' (gcra_states (w_engine w) (cache_key_for md5 c key)) = Some tat"
      "0 \<le> tat" "tat \<le> i64_max"
  shows "\<exists>rv w1. reserve contains md5 t uuid up ctx key c est message w = (Inr rv, w1)
    \<and> caches (w_engine w1) = caches (w_engine w)
    \<and> gcra_states (fst (reservation_release md5 t' up' rv (w_engine w1, w_db w1))) (cache_key_for md5 c key)
        = Some (t', tat - uint (max est 1) * emission_interval_millis c)"
proof -
  have sc: "supports_cost (algorithm c)" using g by (simp add: supports_cost_def)
  obtain r w1 where q: "check_with_cost contains md5 t uuid up ctx key c (max est 1) message w = (r, w1)" by fastforce
  note c1 = check_with_cost_listed [OF _ q]
  have w1: "moka_live (memory_idle (w_engine w1)) t' (gcra_states (w_engine w1) (cache_key_for md5 c key)) = Some tat"
    using c1(3,4) l s by (simp add: caches_def)
  have "max est 1 \<noteq> 0" by (cases "est = 0") (auto simp: max_def)
  then show ?thesis
    using c1 l q sc b refund_memory_at [OF w1 s(2,3), of "max est 1"]
    by (simp add: reserve_def bind_s_def ok_s_def Let_def reservation_release_def refund_def)
qed

section \<open>Resetting a key\<close>

text \<open>
  \<open>reset_key\<close> gives a key its full quota back on the memory engine: after it, every check is
  decided as on a fresh engine.
\<close>
theorem reset_key_restores:
  "fst (check_memory md5 now key c cost (reset_key md5 key c e))
   = fst (check_memory md5 now key c cost (engine_with_config redis cfg))"
  by (cases "algorithm c")
    (simp_all add: reset_key_def check_memory_def check_memory_gcra_def get_with_def
      check_memory_scheduled_slot_def check_memory_fixed_window_def check_memory_sliding_window_def
      Let_def split: prod.splits)

text \<open>
  On Redis, \<open>reset_key\<close> does not reset a fixed window: the script counts under the key with the
  window's number appended, which the \<open>DEL\<close> of the base key does not remove, so the next check is
  decided as if there had been no reset.
\<close>
theorem reset_key_misses_fixed_window:
  assumes a: "algorithm c = FixedWindow"
    and e': "engine_reset_key md5 up key c (e, db) = (e', db')"
  shows "fst (redis_reply md5 now uuid up' key c cost db') = fst (redis_reply md5 now uuid up' key c cost db)"
proof -
  let ?rk = "redis_key_for md5 key c"
  have k: "rstr db' (?rk @ '':'' @ x) = rstr db (?rk @ '':'' @ x)" for x
    using e' by (auto simp: engine_reset_key_def Let_def split: if_splits)
  then have "redis_get srv (?rk @ '':'' @ x) db' = redis_get srv (?rk @ '':'' @ x) db" for srv x
    by (simp add: redis_get_def)
  then have "fst (lua_fixed_window srv ?rk now (window_millis c) l db') = fst (lua_fixed_window srv ?rk now (window_millis c) l db)"
    for srv l
    unfolding lua_fixed_window_def Let_def by (simp only: if_distrib [of fst] fst_conv)
  then show ?thesis using a
    by (simp add: redis_reply_def redis_call_def Let_def split: prod.splits) (metis fst_conv)
qed

theorem reset_key_misses_fixed_window_witness:
  defines "c \<equiv> sample_config FixedWindow Redis Enforce"
  defines "db \<equiv> \<lparr>rstr = [redis_key_for (\<lambda>s. s) ''ip'' c @ '':'' @ show_int 1 \<mapsto> (2, Some 3000)], rzset = Map.empty\<rparr>"
  shows "fst (redis_reply (\<lambda>s. s) 1500 [] True ''ip'' c 1
           (snd (engine_reset_key (\<lambda>s. s) True ''ip'' c (w_engine (sample_world []), db)))) = Inr [0, 500, 0]"
proof -
  have c: "algorithm c = FixedWindow" "window_millis c = 1000" "window_limit c = 2"
    by (simp_all add: c_def sample_config_def window_millis_def window_millis_per_def window_limit_def)
  have "fst (redis_reply (\<lambda>s. s) 1500 [] True ''ip'' c 1 db) = Inr [0, 500, 0]"
    by (simp add: redis_reply_def redis_call_def c db_def lua_fixed_window_def lua_floor_div_def redis_get_def live_def Let_def)
  then show ?thesis
    using reset_key_misses_fixed_window [OF c(1) surjective_pairing] by metis
qed

section \<open>Keys the caches drop\<close>

lemma get_with_idle:
  "(\<And>a v. m k = Some (a, v) \<Longrightarrow> a + idle \<le> now) \<Longrightarrow> get_with idle now m k d = d"
  by (cases "m k") (auto simp: get_with_def)

lemma idle_quota_fresh:
  assumes "\<And>a v. gcra_states e (cache_key_for md5 c key) = Some (a, v) \<Longrightarrow> a + memory_idle e \<le> now"
    and "\<And>a v. fixed_window_states e (cache_key_for md5 c key) = Some (a, v) \<Longrightarrow> a + memory_idle e \<le> now"
    and "\<And>a v. sliding_window_states e (cache_key_for md5 c key) = Some (a, v) \<Longrightarrow> a + memory_idle e \<le> now"
    and "\<And>a v. scheduled_states e (cache_key_for md5 c key) = Some (a, v) \<Longrightarrow> a + memory_idle e \<le> now"
  shows "fst (check_memory md5 now key c cost e) = fst (check_memory md5 now key c cost (engine_new redis))"
proof -
  note g = get_with_idle [OF assms(1)] get_with_idle [OF assms(2)] get_with_idle [OF assms(3)] get_with_idle [OF assms(4)]
  have n: "get_with i now Map.empty k d = d" for i k and d :: 'x by (simp add: get_with_def)
  show ?thesis
    by (simp add: check_memory_def check_memory_gcra_def check_memory_scheduled_slot_def check_memory_fixed_window_def
        check_memory_sliding_window_def g n Let_def split: prod.splits)
qed

text \<open>
  An idle key regains its full quota: once the last access of a key in the caches is \<open>memory_idle\<close>
  milliseconds back (an hour by default), every check is decided as on a fresh engine, whatever the
  window of the limit, a day included.
\<close>
theorem idle_quota_restored:
  assumes "\<And>a v. gcra_states e (cache_key_for md5 c key) = Some (a, v) \<Longrightarrow> a + memory_idle e \<le> now"
    and "\<And>a v. fixed_window_states e (cache_key_for md5 c key) = Some (a, v) \<Longrightarrow> a + memory_idle e \<le> now"
    and "\<And>a v. sliding_window_states e (cache_key_for md5 c key) = Some (a, v) \<Longrightarrow> a + memory_idle e \<le> now"
    and "\<And>a v. scheduled_states e (cache_key_for md5 c key) = Some (a, v) \<Longrightarrow> a + memory_idle e \<le> now"
  shows "fst (check_memory md5 now key c cost e) = fst (check_memory md5 now key c cost (engine_new redis))"
  using assms by (rule idle_quota_fresh)

text \<open>One request a day, and a second one an hour later on the same day.\<close>

theorem idle_quota_restored_witness:
  defines "c \<equiv> \<lparr>rate = 1, per = Day, burst = 0, backend = Memory, algorithm = FixedWindow,
                 failure_policy = FailOpen, max_wait_ms = 0, mode = Enforce\<rparr>"
  defines "e \<equiv> snd (check_memory (\<lambda>s. s) 1000 ''ip'' c 1 (engine_new False :: nat rate_limit_engine))"
  shows "\<not> admitted (fst (check_memory (\<lambda>s. s) 3600999 ''ip'' c 1 e)) \<and> admitted (fst (check_memory (\<lambda>s. s) 3601000 ''ip'' c 1 e))"
proof
  have c: "window_millis c = 86400000" "window_limit c = 1" "algorithm c = FixedWindow"
    by (simp_all add: c_def window_millis_def window_millis_per_def window_limit_def)
  have e: "e = (engine_new False)\<lparr>fixed_window_states := [cache_key_for (\<lambda>s. s) c ''ip'' \<mapsto>
      (1000, \<lparr>window_id = 0, count = 1\<rparr>)]\<rparr>"
    by (simp add: e_def check_memory_def check_memory_fixed_window_def fixed_attempt_def c get_with_def Let_def)
  show "\<not> admitted (fst (check_memory (\<lambda>s. s) 3600999 ''ip'' c 1 e))"
    by (simp add: e check_memory_def check_memory_fixed_window_def fixed_attempt_def c get_with_def Let_def)
  have "fst (check_memory (\<lambda>s. s) 3601000 ''ip'' c 1 e) = fst (check_memory (\<lambda>s. s) 3601000 ''ip'' c 1 (engine_new False))"
    by (rule idle_quota_restored) (auto simp: e)
  then show "admitted (fst (check_memory (\<lambda>s. s) 3601000 ''ip'' c 1 e))"
    by (simp add: check_memory_def check_memory_fixed_window_def fixed_attempt_def c get_with_def Let_def)
qed

text \<open>Dropping other keys for lack of room changes no decision; dropping the key itself restores its quota.\<close>

lemma cache_evict_others:
  assumes "cache_key_for md5 c key \<notin> ks"
  shows "fst (check_memory md5 now key c cost (cache_evict ks e)) = fst (check_memory md5 now key c cost e)"
  by (rule check_memory_local) (simp_all add: cache_evict_def assms)

lemma cache_evict_key:
  assumes "cache_key_for md5 c key \<in> ks"
  shows "fst (check_memory md5 now key c cost (cache_evict ks e)) = fst (check_memory md5 now key c cost (engine_new redis))"
  by (rule idle_quota_fresh) (simp_all add: cache_evict_def assms)

section \<open>Response headers\<close>

lemma map_of_header_insert:
  "map_of (header_insert k v hs) = (map_of hs)(k \<mapsto> v)"
proof
  fix x
  show "map_of (header_insert k v hs) x = ((map_of hs)(k \<mapsto> v)) x"
    by (induction hs) (auto simp: header_insert_def)
qed

text \<open>
  The headers of a response: whatever checks the handler made, in whatever order, the middleware
  writes the metadata with the fewest remaining requests of all of them (and none for an unlimited one).
\<close>
theorem headers_show_tightest:
  assumes "ms \<noteq> []" and "next = (\<lambda>h. (hs, foldl (\<lambda>s m. holder_record m s) h ms))"
    and "\<forall>m \<in> set ms. \<not> is_unlimited m"
  shows "\<exists>m \<in> set ms. (\<forall>m' \<in> set ms. remaining m \<le> remaining m')
    \<and> map_of (rate_limit_headers next) ''ratelimit-remaining'' = Some (show_int (remaining m))
    \<and> map_of (rate_limit_headers next) ''ratelimit-limit'' = Some (show_int (limit m))
    \<and> (retry_after m \<noteq> None \<longrightarrow>
         map_of (rate_limit_headers next) ''retry-after'' = Some (show_int (the (retry_after m) div 1000)))"
proof -
  obtain a rest where ms: "ms = a # rest" using assms(1) by (cases ms) auto
  obtain m where f: "foldl (\<lambda>s m. holder_record m s) (Some a) rest = Some m" using holder_fold_Some by blast
  have m: "m \<in> set ms" "\<forall>m' \<in> set ms. remaining m \<le> remaining m'" using holder_fold_inv [OF f] ms by auto
  have h: "rate_limit_headers next =
     (let h3 = header_insert ''ratelimit-reset'' (show_int (reset_after m div 1000))
                (header_insert ''ratelimit-remaining'' (show_int (remaining m))
                  (header_insert ''ratelimit-limit'' (show_int (limit m)) hs))
      in case retry_after m of None \<Rightarrow> h3 | Some r \<Rightarrow> header_insert ''retry-after'' (show_int (r div 1000)) h3)"
    using f ms bspec [OF assms(3) m(1)] by (simp add: rate_limit_headers_def assms(2) holder_record_def holder_snapshot_def Let_def)
  show ?thesis
    using m by (intro bexI [of _ m]; cases "retry_after m") (simp_all add: h Let_def map_of_header_insert)
qed

text \<open>
  The \<open>Retry-After\<close> header can be too short: it is the wait in whole seconds rounded down, so
  when the wait of a token bucket rejection is not a whole number of seconds, a client that waits
  exactly as long as the header says is rejected again.
\<close>
theorem retry_header_too_short:
  assumes g: "uses_gcra (algorithm c)"
    and i: "mem_inv (memory_idle e) (emission_interval_millis c) (effective_burst c) t r (gcra_states e (cache_key_for md5 c key))"
    and k: "max (uint k) 1 \<le> effective_burst c"
    and rej: "check_memory md5 t key c k e = (Rejected m, e')"
    and nx: "next = (\<lambda>h. ([], holder_record m h))" and lim: "\<not> is_unlimited m"
    and w: "retry_after m = Some w" "w mod 1000 \<noteq> 0" "valid_time (t + w)"
  shows "\<exists>secs. map_of (rate_limit_headers next) ''retry-after'' = Some (show_int secs)
    \<and> \<not> admitted (fst (check_memory md5 (t + secs * 1000) key c k e'))"
proof (intro exI conjI)
  show "map_of (rate_limit_headers next) ''retry-after'' = Some (show_int (w div 1000))"
    using lim w(1) by (simp add: rate_limit_headers_def nx holder_record_def holder_snapshot_def Let_def
        map_of_header_insert)
  have lt: "w div 1000 * 1000 < w"
    using w(2) div_mult_mod_eq [of w 1000] pos_mod_sign [of 1000 w] by linarith
  have t: "0 \<le> t" using i by (simp add: mem_inv_def valid_time_def)
  have "0 < w" using gcra_retry_exact [OF g i k rej order_refl] i w(1) by (auto simp: mem_inv_def)
  then have "0 \<le> w div 1000" by simp
  then have v: "t \<le> t + w div 1000 * 1000" "valid_time (t + w div 1000 * 1000)"
    using w(3) lt t by (auto simp: valid_time_def)
  show "\<not> admitted (fst (check_memory md5 (t + w div 1000 * 1000) key c k e'))"
    using gcra_retry_exact [OF g i k rej v] w(1) lt by auto
qed


theorem headers_show_tightest_witness:
  defines "ms \<equiv> [\<lparr>limit = 5, remaining = 3, reset_after = 2500, retry_after = None\<rparr>,
                 \<lparr>limit = 9, remaining = 1, reset_after = 1000, retry_after = None\<rparr>]"
  shows "\<exists>m \<in> set ms. map_of (rate_limit_headers (\<lambda>h. ([], foldl (\<lambda>s m. holder_record m s) h ms)))
           ''ratelimit-remaining'' = Some (show_int (remaining m))"
proof -
  have "ms \<noteq> []" "\<forall>m \<in> set ms. \<not> is_unlimited m" by (simp_all add: ms_def is_unlimited_def u32_max_def)
  from headers_show_tightest [OF this(1) refl this(2)] show ?thesis by blast
qed

theorem allowlisted_release_credits_witness:
  defines "w \<equiv> \<lparr>w_engine = (engine_with_config False (engine_config_default\<lparr>ec_allowlist := [7]\<rparr>))
      \<lparr>gcra_states := [cache_key_for (\<lambda>s. s) (sample_config Gcra Memory Enforce) ''global'' \<mapsto> (1000, 2000)]\<rparr>,
     w_db = \<lparr>rstr = Map.empty, rzset = Map.empty\<rparr>, w_holder = None, w_slept = []\<rparr>"
  shows "\<exists>rv w1. reserve (=) (\<lambda>s. s) 1000 [] True sample_ctx ''global'' (sample_config Gcra Memory Enforce) 2 ''m'' w = (Inr rv, w1)
    \<and> gcra_states (fst (reservation_release (\<lambda>s. s) 1000 True rv (w_engine w1, w_db w1)))
        (cache_key_for (\<lambda>s. s) (sample_config Gcra Memory Enforce) ''global'') = Some (1000, 1000)"
proof -
  let ?c = "sample_config Gcra Memory Enforce"
  have E: "emission_interval_millis ?c = 500" "uses_gcra (algorithm ?c)" "backend ?c = Memory"
    by (simp_all add: sample_config_def emission_interval_eq div_ceil_def window_limit_def window_millis_per_def)
  have l: "ip_allowed (=) (client_ip sample_ctx) (w_engine w)"
    and s: "moka_live (memory_idle (w_engine w)) 1000 (gcra_states (w_engine w) (cache_key_for (\<lambda>s. s) ?c ''global'')) = Some 2000"
    by (simp_all add: w_def sample_ctx_def ip_allowed_def)
  have "uint (max (2 :: 32 word) 1) = 2" by (simp add: max_def word_le_def)
  then show ?thesis
    using allowlisted_release_credits [where c = ?c and contains = "(=)" and ctx = sample_ctx and w = w and tat = 2000
        and ?md5.0 = "\<lambda>s. s" and key = "''global''" and est = 2 and t = 1000 and t' = 1000 and up = True and up' = True
        and uuid = "[]" and message = "''m''", OF E(2,3) l s]
    by (auto simp: E i64_max_def)
qed

theorem retry_header_too_short_witness:
  defines "c \<equiv> sample_config Gcra Memory Enforce"
  defines "e \<equiv> (engine_new False :: nat rate_limit_engine)
                 \<lparr>gcra_states := [cache_key_for (\<lambda>s. s) c ''ip'' \<mapsto> (1000, 2000)]\<rparr>"
  shows "\<exists>secs. map_of (rate_limit_headers (\<lambda>h. ([], holder_record (meta_rejected 2 500) h))) ''retry-after''
             = Some (show_int secs)
    \<and> \<not> admitted (fst (check_memory (\<lambda>s. s) (1000 + secs * 1000) ''ip'' c 1
           (snd (check_memory (\<lambda>s. s) 1000 ''ip'' c 1 e))))"
proof -
  have E: "emission_interval_millis c = 500" "effective_burst c = 2" "uses_gcra (algorithm c)"
    by (simp_all add: c_def sample_config_def emission_interval_eq div_ceil_def window_limit_def
        window_millis_per_def effective_burst_def)
  have i: "mem_inv (memory_idle e) (emission_interval_millis c) (effective_burst c) 1000 0 (gcra_states e (cache_key_for (\<lambda>s. s) c ''ip''))"
    by (simp add: E e_def mem_inv_def valid_time_def time_max_def i64_max_def i64_min_def)
  have at: "gcra_attempt 500 2 1000 1 2000 = (Rejected (meta_rejected 2 500), 2000)"
    by (simp add: gcra_attempt_def sat_defs sat64_def i64_min_def i64_max_def as_u64_def as_u32_def)
  obtain e' where rej: "check_memory (\<lambda>s. s) 1000 ''ip'' c 1 e = (Rejected (meta_rejected 2 500), e')"
    using at by (simp add: check_memory_def check_memory_gcra_def E Let_def get_with_def e_def)
  show ?thesis
    using retry_header_too_short [OF E(3) i _ rej refl, of 500]
    by (simp add: E rej meta_rejected_def is_unlimited_def u32_max_def valid_time_def time_max_def)
qed

end
