(* ===== verification/Auth_Types.thy ===== *)
theory Auth_Types
  imports Api_Error
begin

text \<open>
  The data of \<^verbatim>\<open>crates/summer-auth\<close>: login identities and device types (\<^verbatim>\<open>user_type.rs\<close>), the session
  model (\<^verbatim>\<open>session/model.rs\<close>), the configuration the session manager reads (\<^verbatim>\<open>config.rs\<close>) and the
  token pair (\<^verbatim>\<open>token/pair.rs\<close>). Strings are their UTF-8 bytes.
\<close>

section \<open>Identities and devices\<close>

record login_id =
  li_user_id :: int

definition login_id_new :: "int \<Rightarrow> login_id" where
  "login_id_new u = \<lparr>li_user_id = u\<rparr>"

definition session_key :: "login_id \<Rightarrow> string" where
  "session_key l = ''auth:session:'' @ show_int (li_user_id l)"

definition login_encode :: "login_id \<Rightarrow> string" where
  "login_encode l = show_int (li_user_id l)"

definition login_decode :: "string \<Rightarrow> login_id option" where
  "login_decode s =
     (if s = [] \<or> CHR '':'' \<in> set s then None else map_option login_id_new (parse_i64 s))"

datatype device_type = Web | Android | IOS | MiniProgram | Tablet | Desktop | Unknown string

fun device_str :: "device_type \<Rightarrow> string" where
  "device_str Web = ''web''"
| "device_str Android = ''android''"
| "device_str IOS = ''ios''"
| "device_str MiniProgram = ''mini_program''"
| "device_str Tablet = ''tablet''"
| "device_str Desktop = ''desktop''"
| "device_str (Unknown s) = s"

definition device_of :: "string \<Rightarrow> device_type" where
  "device_of s =
     (if s = ''web'' then Web else if s = ''android'' then Android else if s = ''ios'' then IOS
      else if s = ''mini_program'' then MiniProgram else if s = ''tablet'' then Tablet
      else if s = ''desktop'' then Desktop else Unknown s)"

text \<open>The values \<open>DeviceType::from\<close> yields: \<open>Unknown\<close> holds none of the known names.\<close>

definition canonical_device :: "device_type \<Rightarrow> bool" where
  "canonical_device d \<longleftrightarrow> device_of (device_str d) = d"

lemma device_str_of [simp]: "device_str (device_of s) = s"
  by (simp add: device_of_def)

lemma canonical_device_of [simp]: "canonical_device (device_of s)"
  by (simp add: canonical_device_def)

lemma login_decode_encode [simp]: "in_i64 (li_user_id l) \<Longrightarrow> login_decode (login_encode l) = Some l"
proof -
  assume i: "in_i64 (li_user_id l)"
  have "show_int (li_user_id l) \<noteq> []" using parse_show_int [OF i] by (auto simp: parse_i64_def)
  then show ?thesis using i by (simp add: login_decode_def login_encode_def login_id_new_def parse_show_int)
qed

lemma login_encode_inj [simp]: "login_encode l = login_encode l' \<longleftrightarrow> l = l'"
  by (cases l; cases l') (simp add: login_encode_def)

lemma colon_notin_login [simp]: "CHR '':'' \<notin> set (login_encode l)"
  by (simp add: login_encode_def)

section \<open>Session model\<close>

record user_profile =
  user_name :: string
  nick_name :: string
  roles :: "string list"
  permissions :: "string list"

record user_session =
  us_login_id :: login_id
  us_device :: device_type
  us_profile :: user_profile

record device_info =
  di_rid :: string
  di_login_time :: int
  di_login_ip :: string
  di_user_agent :: string

record device_session =
  ds_device :: device_type
  ds_login_time :: int
  ds_login_ip :: string
  ds_user_agent :: string

record validated_access =
  va_login_id :: login_id
  va_device :: device_type
  va_user_name :: string
  va_nick_name :: string
  va_roles :: "string list"
  va_permissions :: "string list"

record token_pair =
  access_token :: string
  refresh_token :: string
  expires_in :: int

section \<open>Configuration\<close>

record auth_config =
  token_name :: string
  token_prefix :: "string option"
  access_timeout :: int
  refresh_timeout :: int
  concurrent_login :: bool
  max_devices :: nat
  per_request_deny_check :: bool
  is_read_cookie :: bool
  cookie_name :: "string option"
  qr_code_timeout :: int
  jwt_issuer :: string
  jwt_audience :: string

end
