(* ===== verification/Auth_Permission.thy ===== *)
theory Auth_Permission
  imports Auth_Types
begin

text \<open>
  Permission codes and the resource policy: \<open>permission_matches\<close> of \<^verbatim>\<open>session/manager.rs\<close> and the
  rules of \<^verbatim>\<open>resource_permission/mod.rs\<close>, with a declarative reading of each.
\<close>

section \<open>Permission codes\<close>

text \<open>The loop over the owned segments; \<open>Some b\<close> is \<open>return b\<close>, \<open>None\<close> that the loop ran out.\<close>

fun perm_loop :: "string list \<Rightarrow> nat \<Rightarrow> nat \<Rightarrow> string list \<Rightarrow> bool option" where
  "perm_loop required owned_len i [] = None"
| "perm_loop required owned_len i (seg # segs) =
     (if seg = ''*'' then
        (if i = owned_len - 1 then Some True
         else if length required \<le> i then Some False
         else perm_loop required owned_len (Suc i) segs)
      else if length required \<le> i \<or> seg \<noteq> required ! i then Some False
      else perm_loop required owned_len (Suc i) segs)"

definition permission_matches :: "string \<Rightarrow> string \<Rightarrow> bool" where
  "permission_matches owned required =
     (if owned = required then True
      else if owned = ''*'' then True
      else
        (let owned_parts = split_on CHR '':'' owned;
             required_parts = split_on CHR '':'' required
         in case perm_loop required_parts (length owned_parts) 0 owned_parts of
              Some b \<Rightarrow> b
            | None \<Rightarrow> length owned_parts = length required_parts))"

text \<open>
  The specification: segments match pairwise, \<open>*\<close> matches any segment, and a final \<open>*\<close> matches
  whatever is left, nothing included.
\<close>

fun segs_match :: "string list \<Rightarrow> string list \<Rightarrow> bool" where
  "segs_match [] rs = (rs = [])"
| "segs_match [s] [] = (s = ''*'')"
| "segs_match (s # ss) [] = False"
| "segs_match (s # ss) (r # rs) =
     (if s = ''*'' then ss = [] \<or> segs_match ss rs else s = r \<and> segs_match ss rs)"

lemma perm_loop_segs:
  assumes "n = i + length segs"
  shows "(case perm_loop required n i segs of Some b \<Rightarrow> b | None \<Rightarrow> n = length required)
       = segs_match segs (drop i required) \<or> (segs = [] \<and> length required < i)"
  using assms
proof (induction segs arbitrary: i)
  case Nil
  then show ?case by auto
next
  case (Cons s ss)
  from Cons.prems have n: "n = Suc i + length ss" by simp
  show ?case
  proof (cases "i < length required")
    case True
    then have "drop i required = required ! i # drop (Suc i) required" by (simp add: Cons_nth_drop_Suc)
    then show ?thesis using Cons.IH [OF n] True n by (cases ss) auto
  next
    case False
    then show ?thesis using n by (cases ss) auto
  qed
qed

lemma segs_match_refl: "segs_match ss ss"
  by (induction ss) auto

lemma permission_matches_eq:
  "permission_matches owned required = segs_match (split_on CHR '':'' owned) (split_on CHR '':'' required)"
proof -
  have star: "segs_match (split_on CHR '':'' ''*'') rs" for rs by (cases rs) simp_all
  have "split_on CHR '':'' owned \<noteq> []" by simp
  then show ?thesis
    using perm_loop_segs [of "length (split_on CHR '':'' owned)" 0 "split_on CHR '':'' owned" "split_on CHR '':'' required"]
      segs_match_refl star
    by (auto simp: permission_matches_def Let_def)
qed

lemma segs_match_trailing:
  "''*'' \<notin> set ps \<Longrightarrow> segs_match (ps @ [''*'']) rs \<longleftrightarrow> prefix ps rs"
proof (induction ps arbitrary: rs)
  case Nil
  then show ?case by (cases rs) auto
next
  case (Cons p ps)
  then show ?case by (cases rs; cases "ps @ [''*'']") auto
qed

section \<open>Resource rules\<close>

datatype resource_permission_decision = RpAllowed | RpForbidden

record resource_permission_rule =
  rr_method :: string
  rr_path :: string
  rr_actions :: "string list"

definition rule_new :: "string \<Rightarrow> string \<Rightarrow> string list \<Rightarrow> resource_permission_rule" where
  "rule_new meth path actions = \<lparr>rr_method = to_ascii_uppercase meth, rr_path = path, rr_actions = actions\<rparr>"

definition is_path_parameter :: "string \<Rightarrow> bool" where
  "is_path_parameter segment \<longleftrightarrow> 2 < length segment \<and> hd segment = CHR ''{'' \<and> last segment = CHR ''}''"

definition path_matches :: "string \<Rightarrow> string \<Rightarrow> bool" where
  "path_matches pattern path =
     (if pattern = path then True
      else
        (let pattern_segments = split_on CHR ''/'' (trim_matches CHR ''/'' pattern);
             path_segments = split_on CHR ''/'' (trim_matches CHR ''/'' path)
         in if length pattern_segments \<noteq> length path_segments then False
            else list_all (\<lambda>(p, s). is_path_parameter p \<or> p = s) (zip pattern_segments path_segments)))"

definition rule_matches_resource :: "resource_permission_rule \<Rightarrow> string \<Rightarrow> string \<Rightarrow> bool" where
  "rule_matches_resource r meth path \<longleftrightarrow> rr_method r = meth \<and> path_matches (rr_path r) path"

text \<open>The loop of \<open>check_any_path\<close>; the flag is \<open>matched_registered_resource\<close>.\<close>

fun check_rules ::
  "resource_permission_rule list \<Rightarrow> string \<Rightarrow> string list \<Rightarrow> string list \<Rightarrow> bool \<Rightarrow> resource_permission_decision"
where
  "check_rules [] meth paths owned matched = (if matched then RpForbidden else RpAllowed)"
| "check_rules (r # rs) meth paths owned matched =
     (if \<not> list_ex (rule_matches_resource r meth) paths then check_rules rs meth paths owned matched
      else if rr_actions r = [] then RpAllowed
      else if list_ex (\<lambda>required. list_ex (\<lambda>o'. permission_matches o' required) owned) (rr_actions r) then RpAllowed
      else check_rules rs meth paths owned True)"

definition check_any_path ::
  "resource_permission_rule list \<Rightarrow> string \<Rightarrow> string list \<Rightarrow> string list \<Rightarrow> resource_permission_decision" where
  "check_any_path policy meth paths owned = check_rules policy meth paths owned False"

definition check_resource ::
  "resource_permission_rule list \<Rightarrow> string \<Rightarrow> string \<Rightarrow> string list \<Rightarrow> resource_permission_decision" where
  "check_resource policy meth path owned = check_any_path policy meth [path] owned"

text \<open>The registry: \<open>None\<close> is a poisoned lock.\<close>

definition registry_check_any_path ::
  "resource_permission_rule list option \<Rightarrow> string \<Rightarrow> string list \<Rightarrow> string list \<Rightarrow> resource_permission_decision" where
  "registry_check_any_path reg meth paths owned =
     (case reg of Some policy \<Rightarrow> check_any_path policy meth paths owned | None \<Rightarrow> RpForbidden)"

definition registry_replace ::
  "resource_permission_rule list \<Rightarrow> resource_permission_rule list option \<Rightarrow> resource_permission_rule list option" where
  "registry_replace policy reg = (case reg of Some _ \<Rightarrow> Some policy | None \<Rightarrow> None)"

text \<open>
  \<open>authorize_resource\<close>: the session of the request, its path and, under nesting, the original path;
  \<open>registry\<close> is \<open>Inl\<close> the error when the component is missing.
\<close>

definition authorize_resource ::
  "user_session option \<Rightarrow> string \<Rightarrow> string \<Rightarrow> string option
   \<Rightarrow> string + resource_permission_rule list option \<Rightarrow> auth_error + unit" where
  "authorize_resource session meth path original_path registry =
     (case session of
        None \<Rightarrow> Inr ()
      | Some s \<Rightarrow>
          (case registry of
             Inl error \<Rightarrow> Inl (AuthInternal error)
           | Inr reg \<Rightarrow>
               (let paths = path # (case original_path of
                                      Some p \<Rightarrow> (if p \<noteq> path then [p] else [])
                                    | None \<Rightarrow> [])
                in case registry_check_any_path reg meth paths (permissions (us_profile s)) of
                     RpAllowed \<Rightarrow> Inr ()
                   | RpForbidden \<Rightarrow> Inl (NoPermission ''access resource''))))"

text \<open>A rule that is registered for the request, and one that grants it.\<close>

definition applies :: "resource_permission_rule \<Rightarrow> string \<Rightarrow> string list \<Rightarrow> bool" where
  "applies r meth paths \<longleftrightarrow> (\<exists>p \<in> set paths. rule_matches_resource r meth p)"

definition grants :: "resource_permission_rule \<Rightarrow> string list \<Rightarrow> bool" where
  "grants r owned \<longleftrightarrow> rr_actions r = [] \<or>
     (\<exists>required \<in> set (rr_actions r). \<exists>o' \<in> set owned. permission_matches o' required)"

lemma check_rules_eq:
  "check_rules rs meth paths owned matched = RpAllowed \<longleftrightarrow>
     (\<exists>r \<in> set rs. applies r meth paths \<and> grants r owned) \<or>
     (\<not> matched \<and> (\<forall>r \<in> set rs. \<not> applies r meth paths))"
  by (induction rs arbitrary: matched) (auto simp: applies_def grants_def list_ex_iff)

section \<open>Properties\<close>

text \<open>
  C15. \<open>permission_matches\<close>, an index loop with early returns, is the segment-wise matching of the two
  codes: a wildcard stands for one segment in the middle and for all remaining ones at the end.
\<close>
theorem permission_matches_spec:
  "permission_matches owned required = segs_match (split_on CHR '':'' owned) (split_on CHR '':'' required)"
  by (rule permission_matches_eq)

text \<open>
  What a trailing wildcard grants: with no other wildcard, \<open>p:*\<close> matches exactly the codes below
  \<open>p:\<close> and, beyond the documented rule, the code \<open>p\<close> itself.
\<close>
theorem trailing_wildcard:
  assumes "''*'' \<notin> set (split_on CHR '':'' p)"
  shows "permission_matches (p @ '':*'') required \<longleftrightarrow> required = p \<or> prefix (p @ '':'') required"
proof -
  have join: "join_with '':'' (a @ b) = (if b = [] then join_with '':'' a else if a = [] then join_with '':'' b
      else join_with '':'' a @ '':'' @ join_with '':'' b)" for a b
  proof (induction a rule: join_with.induct [of _ "'':''"])
    case (3 sep x y ys)
    then show ?case by (cases b) auto
  qed (cases b; simp)+
  have sp: "split_on CHR '':'' (a @ CHR '':'' # b) = split_on CHR '':'' a @ split_on CHR '':'' b" for a b
    by (induction a) (auto split: list.splits)
  have "permission_matches (p @ '':*'') required \<longleftrightarrow> prefix (split_on CHR '':'' p) (split_on CHR '':'' required)"
    using assms by (simp add: permission_matches_eq sp segs_match_trailing)
  also have "\<dots> \<longleftrightarrow> required = p \<or> prefix (p @ '':'') required"
  proof
    assume "prefix (split_on CHR '':'' p) (split_on CHR '':'' required)"
    then obtain zs where z: "split_on CHR '':'' required = split_on CHR '':'' p @ zs" by (auto simp: prefix_def)
    have "required = join_with '':'' (split_on CHR '':'' p @ zs)" using join_split [of "CHR '':''" required] z by simp
    then show "required = p \<or> prefix (p @ '':'') required"
      using join_split [of "CHR '':''" p] by (auto simp: join split: if_splits)
  next
    assume "required = p \<or> prefix (p @ '':'') required"
    then show "prefix (split_on CHR '':'' p) (split_on CHR '':'' required)"
      by (auto simp: prefix_def sp)
  qed
  finally show ?thesis .
qed

theorem trailing_wildcard_witness:
  "permission_matches ''system:*'' ''system:user:list'' \<and> permission_matches ''system:*'' ''system''"
  using trailing_wildcard [of "''system''" "''system:user:list''"] trailing_wildcard [of "''system''" "''system''"]
  by (simp add: prefix_def)

text \<open>
  C14. The resource policy decides by rules, not by their order: a request is forbidden exactly when some
  rule is registered for its method and path, but none of those rules grants it (has no actions, or
  an action one of the user's permissions matches).
\<close>
theorem check_any_path_spec:
  "check_any_path policy meth paths owned = RpForbidden \<longleftrightarrow>
     (\<exists>r \<in> set policy. applies r meth paths) \<and> \<not> (\<exists>r \<in> set policy. applies r meth paths \<and> grants r owned)"
proof -
  have "check_any_path policy meth paths owned = RpForbidden \<longleftrightarrow> check_rules policy meth paths owned False \<noteq> RpAllowed"
    by (cases "check_rules policy meth paths owned False") (simp_all add: check_any_path_def)
  then show ?thesis unfolding check_rules_eq by blast
qed

end
