(* ===== verification/Auth_Path.thy ===== *)
theory Auth_Path
  imports Auth_Types
begin

text \<open>
  \<^verbatim>\<open>crates/summer-auth/src/path_auth.rs\<close> and \<^verbatim>\<open>public_routes.rs\<close>: which requests need authentication.
  The router crate is the parameter \<open>mi\<close>: \<open>mi pattern\<close> is the predicate of a router holding only
  that pattern, or \<open>None\<close> when the pattern is refused. An HTTP method is its name.
\<close>

datatype method_tag = Any | Get | Post | Put | Delete | Patch | Head | Trace | Options

fun tag_matches :: "method_tag \<Rightarrow> string \<Rightarrow> bool" where
  "tag_matches Any m = True"
| "tag_matches Get m = (m = ''GET'')"
| "tag_matches Post m = (m = ''POST'')"
| "tag_matches Put m = (m = ''PUT'')"
| "tag_matches Delete m = (m = ''DELETE'')"
| "tag_matches Patch m = (m = ''PATCH'')"
| "tag_matches Head m = (m = ''HEAD'')"
| "tag_matches Trace m = (m = ''TRACE'')"
| "tag_matches Options m = (m = ''OPTIONS'')"

record public_route =
  pr_group :: string
  pr_method :: method_tag
  pr_pattern :: string

definition public_routes_in_group :: "public_route list \<Rightarrow> string \<Rightarrow> public_route list" where
  "public_routes_in_group routes g = filter (\<lambda>r. pr_group r = g) routes"

record route_rule =
  ru_method :: method_tag
  ru_pattern :: string

record path_auth_config =
  pa_include :: "route_rule list"
  pa_exclude :: "route_rule list"
  pa_cache :: "string \<rightharpoonup> (string \<Rightarrow> bool)"

definition rule_any :: "string \<Rightarrow> route_rule" where
  "rule_any pattern = \<lparr>ru_method = Any, ru_pattern = pattern\<rparr>"

definition is_param_pattern :: "string \<Rightarrow> bool" where
  "is_param_pattern pattern \<longleftrightarrow> CHR ''{'' \<in> set pattern \<and> CHR ''}'' \<in> set pattern"

section \<open>The router cache\<close>

text \<open>The loop runs over the set of patterns; each pattern contributes its own entry only.\<close>

definition build_param_routers ::
  "(string \<Rightarrow> (string \<Rightarrow> bool) option) \<Rightarrow> route_rule list \<Rightarrow> route_rule list \<Rightarrow> string \<rightharpoonup> (string \<Rightarrow> bool)" where
  "build_param_routers mi inc exc =
     (\<lambda>pattern. if pattern \<in> set (map ru_pattern (inc @ exc)) \<and> is_param_pattern pattern then mi pattern else None)"

definition rebuild_cache ::
  "(string \<Rightarrow> (string \<Rightarrow> bool) option) \<Rightarrow> path_auth_config \<Rightarrow> path_auth_config" where
  "rebuild_cache mi c = c\<lparr>pa_cache := build_param_routers mi (pa_include c) (pa_exclude c)\<rparr>"

definition path_auth_new :: path_auth_config where
  "path_auth_new = \<lparr>pa_include = [], pa_exclude = [], pa_cache = Map.empty\<rparr>"

definition from_rules ::
  "(string \<Rightarrow> (string \<Rightarrow> bool) option) \<Rightarrow> route_rule list \<Rightarrow> route_rule list \<Rightarrow> path_auth_config" where
  "from_rules mi inc exc = rebuild_cache mi \<lparr>pa_include = inc, pa_exclude = exc, pa_cache = Map.empty\<rparr>"

definition push_include ::
  "(string \<Rightarrow> (string \<Rightarrow> bool) option) \<Rightarrow> route_rule \<Rightarrow> path_auth_config \<Rightarrow> path_auth_config" where
  "push_include mi r c =
     (let c' = c\<lparr>pa_include := pa_include c @ [r]\<rparr>
      in if is_param_pattern (ru_pattern r) then rebuild_cache mi c' else c')"

definition push_exclude ::
  "(string \<Rightarrow> (string \<Rightarrow> bool) option) \<Rightarrow> route_rule \<Rightarrow> path_auth_config \<Rightarrow> path_auth_config" where
  "push_exclude mi r c =
     (if r \<in> set (pa_exclude c) then c
      else
        (let c' = c\<lparr>pa_exclude := pa_exclude c @ [r]\<rparr>
         in if is_param_pattern (ru_pattern r) then rebuild_cache mi c' else c'))"

definition extend_excludes_from_public_routes ::
  "(string \<Rightarrow> (string \<Rightarrow> bool) option) \<Rightarrow> public_route list \<Rightarrow> string \<Rightarrow> path_auth_config \<Rightarrow> path_auth_config" where
  "extend_excludes_from_public_routes mi routes g c =
     fold (\<lambda>r. push_exclude mi \<lparr>ru_method = pr_method r, ru_pattern = pr_pattern r\<rparr>)
       (public_routes_in_group routes g) c"

section \<open>Matching\<close>

definition matches_pattern :: "path_auth_config \<Rightarrow> string \<Rightarrow> string \<Rightarrow> bool" where
  "matches_pattern c pattern path =
     (if pattern = ''/**'' then True
      else case strip_suffix ''/**'' pattern of
        Some pre \<Rightarrow>
          (if \<not> prefix pre path then False
           else let rest = drop (length pre) path in rest = [] \<or> prefix ''/'' rest)
      | None \<Rightarrow>
        (case strip_suffix ''/*'' pattern of
           Some pre \<Rightarrow>
             (if \<not> prefix pre path then False
              else let rest = drop (length pre) path
                   in if length rest < 2 \<or> \<not> prefix ''/'' rest then False
                      else CHR ''/'' \<notin> set (drop 1 rest))
         | None \<Rightarrow>
             (if prefix ''*.'' pattern then suffix (drop 1 pattern) path
              else case pa_cache c pattern of
                Some router \<Rightarrow> router path
              | None \<Rightarrow> pattern = path)))"

definition rule_matches :: "path_auth_config \<Rightarrow> route_rule \<Rightarrow> string \<Rightarrow> string \<Rightarrow> bool" where
  "rule_matches c r meth path \<longleftrightarrow> tag_matches (ru_method r) meth \<and> matches_pattern c (ru_pattern r) path"

definition requires_auth :: "path_auth_config \<Rightarrow> string \<Rightarrow> string \<Rightarrow> bool" where
  "requires_auth c meth path =
     (if pa_include c = [] then False
      else if list_ex (\<lambda>r. rule_matches c r meth path) (pa_exclude c) then False
      else list_ex (\<lambda>r. rule_matches c r meth path) (pa_include c))"

section \<open>The cache follows the rules\<close>

text \<open>The builder calls a configuration can be made with.\<close>

datatype builder_call = Include route_rule | Exclude route_rule

fun build_step ::
  "(string \<Rightarrow> (string \<Rightarrow> bool) option) \<Rightarrow> builder_call \<Rightarrow> path_auth_config \<Rightarrow> path_auth_config" where
  "build_step mi (Include r) c = push_include mi r c"
| "build_step mi (Exclude r) c = push_exclude mi r c"

definition cache_ok :: "(string \<Rightarrow> (string \<Rightarrow> bool) option) \<Rightarrow> path_auth_config \<Rightarrow> bool" where
  "cache_ok mi c \<longleftrightarrow> pa_cache c = build_param_routers mi (pa_include c) (pa_exclude c)"

lemma cache_ok_rebuild [simp]: "cache_ok mi (rebuild_cache mi c)"
  by (simp add: cache_ok_def rebuild_cache_def)

lemma rebuild_fields [simp]:
  "pa_include (rebuild_cache mi c) = pa_include c" "pa_exclude (rebuild_cache mi c) = pa_exclude c"
  by (simp_all add: rebuild_cache_def)

lemma build_routers_plain:
  "\<not> is_param_pattern (ru_pattern r) \<Longrightarrow>
     build_param_routers mi (inc @ [r]) exc = build_param_routers mi inc exc"
  "\<not> is_param_pattern (ru_pattern r) \<Longrightarrow>
     build_param_routers mi inc (exc @ [r]) = build_param_routers mi inc exc"
  by (auto simp: build_param_routers_def fun_eq_iff)

lemma build_step_ok: "cache_ok mi c \<Longrightarrow> cache_ok mi (build_step mi b c)"
  by (cases b)
    (auto simp: push_include_def push_exclude_def Let_def cache_ok_def [of mi "c\<lparr>pa_include := x\<rparr>" for x]
      cache_ok_def [of mi "c\<lparr>pa_exclude := x\<rparr>" for x] build_routers_plain cache_ok_def [of mi c])

lemma build_step_rules:
  "set (pa_include (build_step mi b c)) = set (pa_include c) \<union> (case b of Include r \<Rightarrow> {r} | Exclude _ \<Rightarrow> {})"
  "set (pa_exclude (build_step mi b c)) = set (pa_exclude c) \<union> (case b of Include _ \<Rightarrow> {} | Exclude r \<Rightarrow> {r})"
  by (cases b; auto simp: push_include_def push_exclude_def Let_def)+

lemma fold_build_ok: "cache_ok mi c \<Longrightarrow> cache_ok mi (fold (build_step mi) bs c)"
  by (induction bs arbitrary: c) (auto simp: build_step_ok)

lemma fold_build_rules:
  "set (pa_include (fold (build_step mi) bs c)) = set (pa_include c) \<union> {r. Include r \<in> set bs}"
  "set (pa_exclude (fold (build_step mi) bs c)) = set (pa_exclude c) \<union> {r. Exclude r \<in> set bs}"
  by (induction bs arbitrary: c) (auto simp: build_step_rules split: builder_call.splits)

text \<open>What a pattern means, without any cache.\<close>

definition pattern_matches :: "(string \<Rightarrow> (string \<Rightarrow> bool) option) \<Rightarrow> string \<Rightarrow> string \<Rightarrow> bool" where
  "pattern_matches mi pattern path =
     matches_pattern \<lparr>pa_include = [], pa_exclude = [],
       pa_cache = (\<lambda>p. if is_param_pattern p then mi p else None)\<rparr> pattern path"

lemma matches_pattern_ok:
  assumes "cache_ok mi c" "r \<in> set (pa_include c) \<union> set (pa_exclude c)"
  shows "matches_pattern c (ru_pattern r) path = pattern_matches mi (ru_pattern r) path"
proof -
  have "pa_cache c (ru_pattern r) = (if is_param_pattern (ru_pattern r) then mi (ru_pattern r) else None)"
    using assms by (auto simp: cache_ok_def build_param_routers_def)
  then show ?thesis by (simp add: pattern_matches_def matches_pattern_def cong: option.case_cong)
qed

lemma requires_auth_ok:
  assumes "cache_ok mi c"
  shows "requires_auth c meth path \<longleftrightarrow>
    (\<exists>r \<in> set (pa_include c). tag_matches (ru_method r) meth \<and> pattern_matches mi (ru_pattern r) path) \<and>
    \<not> (\<exists>r \<in> set (pa_exclude c). tag_matches (ru_method r) meth \<and> pattern_matches mi (ru_pattern r) path)"
  by (cases "pa_include c = []")
    (auto simp: requires_auth_def rule_matches_def list_ex_iff matches_pattern_ok [OF assms])

section \<open>Properties\<close>

text \<open>
  C13. Authentication is decided by the rules alone: however a path configuration is built up with
  \<open>include\<close> and \<open>exclude\<close> calls, a request needs authentication exactly when one of the included rules
  matches its method and path and none of the excluded ones does. Neither the order of the calls, nor
  repeated rules, nor when the router cache was rebuilt plays a part.
\<close>
theorem requires_auth_by_rules:
  "requires_auth (fold (build_step mi) bs path_auth_new) meth path \<longleftrightarrow>
     (\<exists>r. Include r \<in> set bs \<and> tag_matches (ru_method r) meth \<and> pattern_matches mi (ru_pattern r) path) \<and>
     \<not> (\<exists>r. Exclude r \<in> set bs \<and> tag_matches (ru_method r) meth \<and> pattern_matches mi (ru_pattern r) path)"
proof -
  have "cache_ok mi path_auth_new"
    by (auto simp: cache_ok_def path_auth_new_def build_param_routers_def)
  then have "cache_ok mi (fold (build_step mi) bs path_auth_new)" by (rule fold_build_ok)
  from requires_auth_ok [OF this] show ?thesis
    by (auto simp: fold_build_rules path_auth_new_def)
qed

text \<open>
  The wildcards stop at segment boundaries: \<open>p/**\<close> matches \<open>p\<close> itself and everything below
  \<open>p/\<close>, and \<open>p/*\<close> exactly one more non-empty segment below \<open>p\<close>, for every prefix and path.
\<close>
theorem wildcards_respect_segments:
  "(pattern_matches mi (p @ ''/**'') path \<longleftrightarrow> p = [] \<or> path = p \<or> prefix (p @ ''/'') path) \<and>
   (pattern_matches mi (p @ ''/*'') path \<longleftrightarrow> (\<exists>seg. path = p @ ''/'' @ seg \<and> seg \<noteq> [] \<and> CHR ''/'' \<notin> set seg))"
proof
  have s: "strip_suffix ''/**'' (p @ ''/**'') = Some p" by (simp add: strip_suffix_Some)
  have "pattern_matches mi (p @ ''/**'') path \<longleftrightarrow>
      p = [] \<or> prefix p path \<and> (drop (length p) path = [] \<or> prefix ''/'' (drop (length p) path))"
    by (auto simp: pattern_matches_def matches_pattern_def s Let_def)
  also have "\<dots> \<longleftrightarrow> p = [] \<or> path = p \<or> prefix (p @ ''/'') path"
    by (auto simp: prefix_def)
  finally show "pattern_matches mi (p @ ''/**'') path \<longleftrightarrow> p = [] \<or> path = p \<or> prefix (p @ ''/'') path" .
  have n: "strip_suffix ''/**'' (p @ ''/*'') = None"
  proof (rule ccontr)
    assume "strip_suffix ''/**'' (p @ ''/*'') \<noteq> None"
    then obtain q where "p @ ''/*'' = q @ ''/**''" by (auto simp: strip_suffix_Some)
    then have "rev (p @ ''/*'') = rev (q @ ''/**'')" by simp
    then show False by simp
  qed
  have ne: "p @ ''/*'' \<noteq> ''/**''"
  proof
    assume "p @ ''/*'' = ''/**''"
    then have "rev (p @ ''/*'') = rev ''/**''" by simp
    then show False by simp
  qed
  have s1: "strip_suffix ''/*'' (p @ ''/*'') = Some p" by (simp add: strip_suffix_Some)
  have "pattern_matches mi (p @ ''/*'') path \<longleftrightarrow> prefix p path \<and>
      (let rest = drop (length p) path in \<not> (length rest < 2 \<or> \<not> prefix ''/'' rest) \<and> CHR ''/'' \<notin> set (drop 1 rest))"
    using ne by (simp add: pattern_matches_def matches_pattern_def n s1 Let_def)
  also have "\<dots> \<longleftrightarrow> (\<exists>seg. path = p @ ''/'' @ seg \<and> seg \<noteq> [] \<and> CHR ''/'' \<notin> set seg)"
    by (auto simp: prefix_def Let_def not_less Suc_le_eq)
  finally show "pattern_matches mi (p @ ''/*'') path \<longleftrightarrow>
      (\<exists>seg. path = p @ ''/'' @ seg \<and> seg \<noteq> [] \<and> CHR ''/'' \<notin> set seg)" .
qed

end
