(* ===== verification/Auth_Storage.thy ===== *)
theory Auth_Storage
  imports Auth_Types "HOL-Library.AList" "HOL-Library.Word"
begin

text \<open>
  The key-value store behind the session manager: the trait \<open>AuthStorage\<close> (\<^verbatim>\<open>storage/mod.rs\<close>) as a record
  of operations on a state, the contract the session manager relies on as a locale, and the store of
  \<^verbatim>\<open>storage/memory.rs\<close>, on which it is interpreted. The clock is in seconds.
\<close>

section \<open>The trait\<close>

record 's storage_ops =
  op_set_string :: "int \<Rightarrow> string \<Rightarrow> string \<Rightarrow> int \<Rightarrow> ('s, string, unit) sm"
  op_get_string :: "int \<Rightarrow> string \<Rightarrow> ('s, string, string option) sm"
  op_delete :: "int \<Rightarrow> string \<Rightarrow> ('s, string, unit) sm"
  op_keys_by_prefix :: "int \<Rightarrow> string \<Rightarrow> ('s, string, string list) sm"

text \<open>The default method \<open>exists\<close>.\<close>

definition op_exists :: "'s storage_ops \<Rightarrow> int \<Rightarrow> string \<Rightarrow> ('s, string, bool) sm" where
  "op_exists ops now key = bind_s (op_get_string ops now key) (\<lambda>v. ok_s (v \<noteq> None))"

text \<open>
  The contract of a store that does not fail: \<open>view t s\<close> is what can be read at time \<open>t\<close> when
  nothing more is written; \<open>lives ttl d\<close> tells whether an entry written with that lifetime is still
  there \<open>d\<close> seconds later.
\<close>

locale auth_storage =
  fixes ops :: "'s storage_ops"
    and inv :: "'s \<Rightarrow> bool"
    and view :: "int \<Rightarrow> 's \<Rightarrow> string \<rightharpoonup> string"
    and lives :: "int \<Rightarrow> int \<Rightarrow> bool"
  assumes lives_zero: "lives ttl 0"
    and lives_forever: "ttl \<le> 0 \<Longrightarrow> lives ttl d"
    and set_ok: "inv s \<Longrightarrow> fst (op_set_string ops now k v ttl s) = Inr ()"
    and set_inv: "inv s \<Longrightarrow> inv (snd (op_set_string ops now k v ttl s))"
    and set_view: "inv s \<Longrightarrow> now \<le> t \<Longrightarrow> view t (snd (op_set_string ops now k v ttl s)) =
      (view t s)(k := if lives ttl (t - now) then Some v else None)"
    and get_ok: "inv s \<Longrightarrow> fst (op_get_string ops now k s) = Inr (view now s k)"
    and get_inv: "inv s \<Longrightarrow> inv (snd (op_get_string ops now k s))"
    and get_view: "inv s \<Longrightarrow> now \<le> t \<Longrightarrow> view t (snd (op_get_string ops now k s)) = view t s"
    and del_ok: "inv s \<Longrightarrow> fst (op_delete ops now k s) = Inr ()"
    and del_inv: "inv s \<Longrightarrow> inv (snd (op_delete ops now k s))"
    and del_view: "inv s \<Longrightarrow> now \<le> t \<Longrightarrow> view t (snd (op_delete ops now k s)) = (view t s)(k := None)"
    and keys_ok: "inv s \<Longrightarrow> \<exists>ks. op_keys_by_prefix ops now p s = (Inr ks, s) \<and> distinct ks \<and>
      set ks = {k. prefix p k \<and> view now s k \<noteq> None}"
    and fades: "inv s \<Longrightarrow> t \<le> t' \<Longrightarrow> view t' s k = None \<or> view t' s k = view t s k"
begin

lemma exists_ok: "inv s \<Longrightarrow> fst (op_exists ops now k s) = Inr (view now s k \<noteq> None)"
  using get_ok [of s now k]
  by (cases "op_get_string ops now k s") (simp add: op_exists_def bind_s_def ok_s_def)

lemma set_get:
  "inv s \<Longrightarrow> fst (op_get_string ops now k' (snd (op_set_string ops now k v ttl s))) =
     Inr (if k' = k then Some v else view now s k')"
  using get_ok [OF set_inv, of s now k' now k v ttl] set_view [of s now now k v ttl] lives_zero by simp

end

section \<open>The memory store\<close>

record entry =
  en_value :: string
  en_expires_at :: "int option"

definition is_expired :: "int \<Rightarrow> entry \<Rightarrow> bool" where
  "is_expired now e = (case en_expires_at e of Some ts \<Rightarrow> ts < now | None \<Rightarrow> False)"

text \<open>The hash map is an association list; its order stands for the iteration order.\<close>

record memory_storage =
  ms_data :: "(string \<times> entry) list"
  ms_write_count :: "64 word"

definition memory_storage_new :: memory_storage where
  "memory_storage_new = \<lparr>ms_data = [], ms_write_count = 0\<rparr>"

definition purge_expired :: "int \<Rightarrow> memory_storage \<Rightarrow> memory_storage" where
  "purge_expired now s =
     s\<lparr>ms_data := filter (\<lambda>(_, e). case en_expires_at e of None \<Rightarrow> True | Some ts \<Rightarrow> now \<le> ts) (ms_data s)\<rparr>"

definition maybe_cleanup :: "int \<Rightarrow> memory_storage \<Rightarrow> memory_storage" where
  "maybe_cleanup now s =
     (let count = ms_write_count s; s' = s\<lparr>ms_write_count := count + 1\<rparr>
      in if count mod 100 = 0 then purge_expired now s' else s')"

definition mem_set_string :: "int \<Rightarrow> string \<Rightarrow> string \<Rightarrow> int \<Rightarrow> (memory_storage, string, unit) sm" where
  "mem_set_string now key value ttl s =
     (let expires_at = (if 0 < ttl then Some (now + ttl) else None)
      in (Inr (), maybe_cleanup now
            (s\<lparr>ms_data := AList.update key \<lparr>en_value = value, en_expires_at = expires_at\<rparr> (ms_data s)\<rparr>)))"

definition mem_get_string :: "int \<Rightarrow> string \<Rightarrow> (memory_storage, string, string option) sm" where
  "mem_get_string now key s =
     (case map_of (ms_data s) key of
        Some e \<Rightarrow> (if \<not> is_expired now e then (Inr (Some (en_value e)), s)
                   else (Inr None, s\<lparr>ms_data := AList.delete key (ms_data s)\<rparr>))
      | None \<Rightarrow> (Inr None, s))"

definition mem_delete :: "int \<Rightarrow> string \<Rightarrow> (memory_storage, string, unit) sm" where
  "mem_delete now key s = (Inr (), s\<lparr>ms_data := AList.delete key (ms_data s)\<rparr>)"

definition mem_keys_by_prefix :: "int \<Rightarrow> string \<Rightarrow> (memory_storage, string, string list) sm" where
  "mem_keys_by_prefix now p s =
     (Inr (map fst (filter (\<lambda>(k, e). prefix p k \<and>
                              (case en_expires_at e of None \<Rightarrow> True | Some ts \<Rightarrow> now \<le> ts)) (ms_data s))), s)"

definition mem_exists :: "int \<Rightarrow> string \<Rightarrow> (memory_storage, string, bool) sm" where
  "mem_exists now key s =
     (case map_of (ms_data s) key of
        Some e \<Rightarrow> (Inr (\<not> is_expired now e), s)
      | None \<Rightarrow> (Inr False, s))"

definition memory_ops :: "memory_storage storage_ops" where
  "memory_ops = \<lparr>op_set_string = mem_set_string, op_get_string = mem_get_string,
     op_delete = mem_delete, op_keys_by_prefix = mem_keys_by_prefix\<rparr>"

definition mem_storage_inv :: "memory_storage \<Rightarrow> bool" where
  "mem_storage_inv s \<longleftrightarrow> distinct (map fst (ms_data s))"

definition mem_view :: "int \<Rightarrow> memory_storage \<Rightarrow> string \<rightharpoonup> string" where
  "mem_view t s k =
     (case map_of (ms_data s) k of
        Some e \<Rightarrow> (if is_expired t e then None else Some (en_value e)) | None \<Rightarrow> None)"

definition mem_lives :: "int \<Rightarrow> int \<Rightarrow> bool" where
  "mem_lives ttl d \<longleftrightarrow> ttl \<le> 0 \<or> d \<le> ttl"

lemma not_expired_retain:
  "(case en_expires_at e of None \<Rightarrow> True | Some ts \<Rightarrow> now \<le> ts) \<longleftrightarrow> \<not> is_expired now e"
  by (auto simp: is_expired_def split: option.splits)

lemma map_of_filter_snd:
  "distinct (map fst xs) \<Longrightarrow>
   map_of (filter (\<lambda>(_, e). P e) xs) k = (case map_of xs k of Some e \<Rightarrow> if P e then Some e else None | None \<Rightarrow> None)"
proof (induction xs)
  case (Cons a xs)
  then have "fst a = k \<Longrightarrow> map_of xs k = None" by (auto simp: map_of_eq_None_iff)
  with Cons show ?case by (cases a) auto
qed simp

lemma purge_view:
  assumes "mem_storage_inv s" "now \<le> t"
  shows "mem_view t (purge_expired now s) = mem_view t s" "mem_storage_inv (purge_expired now s)"
proof -
  show "mem_view t (purge_expired now s) = mem_view t s"
    using assms
    by (auto simp: mem_view_def purge_expired_def not_expired_retain map_of_filter_snd mem_storage_inv_def
        is_expired_def fun_eq_iff split: option.splits)
  show "mem_storage_inv (purge_expired now s)"
    using assms(1) by (simp add: mem_storage_inv_def purge_expired_def distinct_map_filter)
qed

lemma cleanup_view:
  assumes "mem_storage_inv s" "now \<le> t"
  shows "mem_view t (maybe_cleanup now s) = mem_view t s" "mem_storage_inv (maybe_cleanup now s)"
proof -
  have "mem_view t (s\<lparr>ms_write_count := n\<rparr>) = mem_view t s" "mem_storage_inv (s\<lparr>ms_write_count := n\<rparr>)" for n
    using assms(1) by (auto simp: mem_view_def mem_storage_inv_def fun_eq_iff)
  then show "mem_view t (maybe_cleanup now s) = mem_view t s" "mem_storage_inv (maybe_cleanup now s)"
    using purge_view [of "s\<lparr>ms_write_count := ms_write_count s + 1\<rparr>"] assms(2) by (auto simp: maybe_cleanup_def Let_def)
qed

interpretation mem_store: auth_storage memory_ops mem_storage_inv mem_view mem_lives
proof
  show "mem_lives ttl 0" "ttl \<le> 0 \<Longrightarrow> mem_lives ttl d" for ttl d by (auto simp: mem_lives_def)
  fix s now t k v ttl p
  assume i: "mem_storage_inv s"
  let ?e = "\<lparr>en_value = v, en_expires_at = if 0 < ttl then Some (now + ttl) else None\<rparr>"
  let ?s = "s\<lparr>ms_data := AList.update k ?e (ms_data s)\<rparr>"
  have si: "mem_storage_inv ?s" using i by (simp add: mem_storage_inv_def distinct_update)
  show "fst (op_set_string memory_ops now k v ttl s) = Inr ()"
    by (simp add: memory_ops_def mem_set_string_def Let_def)
  show "mem_storage_inv (snd (op_set_string memory_ops now k v ttl s))"
    using cleanup_view(2) [OF si order_refl] by (simp add: memory_ops_def mem_set_string_def Let_def)
  show "fst (op_get_string memory_ops now k s) = Inr (mem_view now s k)"
    by (auto simp: memory_ops_def mem_get_string_def mem_view_def split: option.splits)
  show "mem_storage_inv (snd (op_get_string memory_ops now k s))"
    using i by (auto simp: memory_ops_def mem_get_string_def mem_storage_inv_def distinct_delete split: option.splits)
  show "fst (op_delete memory_ops now k s) = Inr ()" "mem_storage_inv (snd (op_delete memory_ops now k s))"
    using i by (simp_all add: memory_ops_def mem_delete_def mem_storage_inv_def distinct_delete)
  have m: "map_of (ms_data s) k = Some e \<longleftrightarrow> (k, e) \<in> set (ms_data s)" for k e
    using i by (simp add: mem_storage_inv_def)
  have v: "mem_view now s k \<noteq> None \<longleftrightarrow> (\<exists>e. (k, e) \<in> set (ms_data s) \<and> \<not> is_expired now e)" for k
    by (auto simp: mem_view_def m [symmetric] split: option.splits)
  have "set (map fst (filter (\<lambda>(k, e). prefix p k \<and> \<not> is_expired now e) (ms_data s)))
      = {k. prefix p k \<and> mem_view now s k \<noteq> None}"
    unfolding v by force
  then show "\<exists>ks. op_keys_by_prefix memory_ops now p s = (Inr ks, s) \<and> distinct ks \<and>
      set ks = {k. prefix p k \<and> mem_view now s k \<noteq> None}"
    using i by (simp add: memory_ops_def mem_keys_by_prefix_def not_expired_retain mem_storage_inv_def distinct_map_filter)
  assume t: "now \<le> t"
  show "mem_view t (snd (op_set_string memory_ops now k v ttl s)) =
      (mem_view t s)(k := if mem_lives ttl (t - now) then Some v else None)"
    using cleanup_view(1) [OF si t]
    by (auto simp: memory_ops_def mem_set_string_def Let_def mem_view_def [of t ?s] update_conv' is_expired_def
        mem_lives_def mem_view_def [of t s] fun_eq_iff)
  show "mem_view t (snd (op_get_string memory_ops now k s)) = mem_view t s"
    using t by (auto simp: memory_ops_def mem_get_string_def mem_view_def fun_eq_iff delete_conv' is_expired_def
        split: option.splits)
  show "mem_view t (snd (op_delete memory_ops now k s)) = (mem_view t s)(k := None)"
    by (auto simp: memory_ops_def mem_delete_def mem_view_def fun_eq_iff delete_conv')
next
  show "mem_view t' s k = None \<or> mem_view t' s k = mem_view t s k" if "t \<le> t'" for t t' s k
    using that by (auto simp: mem_view_def is_expired_def split: option.splits)
qed

end
