(* ===== verification/Auth_Token.thy ===== *)
theory Auth_Token
  imports Auth_Types
begin

text \<open>
  \<^verbatim>\<open>crates/summer-auth/src/token/jwt.rs\<close> and \<^verbatim>\<open>generator.rs\<close>: the claims of access and refresh tokens and
  the checks around their encoding and decoding. The JWT library is the record of functions \<open>jwt_lib\<close>:
  it encodes claims to a token (or fails), and decodes a token at a given time after verifying
  signature, expiry and, for access tokens, issuer and audience. The UUID of a refresh token is the
  argument \<open>uuid\<close>.
\<close>

datatype token_type = Access | Refresh

record access_claims =
  ac_iss :: string
  ac_aud :: string
  ac_sub :: string
  ac_typ :: token_type
  ac_iat :: int
  ac_exp :: int
  ac_dev :: string
  ac_user_name :: string
  ac_nick_name :: string
  ac_roles :: "string list"
  ac_permissions :: "string list"
  ac_pb :: "string option"

record refresh_claims =
  rc_sub :: string
  rc_typ :: token_type
  rc_iat :: int
  rc_exp :: int
  rc_rid :: string

datatype jwt_error = ExpiredSignature | OtherJwtError

record jwt_lib =
  jwt_encode_access :: "access_claims \<Rightarrow> string + string"
  jwt_encode_refresh :: "refresh_claims \<Rightarrow> string + string"
  jwt_decode_access :: "int \<Rightarrow> string \<Rightarrow> string \<Rightarrow> string \<Rightarrow> jwt_error + access_claims"
  jwt_decode_refresh :: "int \<Rightarrow> string \<Rightarrow> jwt_error + refresh_claims"

definition access_claims_of ::
  "auth_config \<Rightarrow> int \<Rightarrow> login_id \<Rightarrow> device_type \<Rightarrow> user_profile \<Rightarrow> string option \<Rightarrow> int \<Rightarrow> access_claims" where
  "access_claims_of cfg now login device profile pb ttl_seconds =
     \<lparr>ac_iss = jwt_issuer cfg, ac_aud = jwt_audience cfg, ac_sub = login_encode login, ac_typ = Access,
      ac_iat = now, ac_exp = now + ttl_seconds, ac_dev = device_str device,
      ac_user_name = user_name profile, ac_nick_name = nick_name profile, ac_roles = roles profile,
      ac_permissions = (if pb \<noteq> None then [] else permissions profile), ac_pb = pb\<rparr>"

definition encode_access ::
  "jwt_lib \<Rightarrow> auth_config \<Rightarrow> int \<Rightarrow> login_id \<Rightarrow> device_type \<Rightarrow> user_profile \<Rightarrow> string option \<Rightarrow> int
   \<Rightarrow> auth_error + (string \<times> access_claims)" where
  "encode_access jl cfg now login device profile pb ttl_seconds =
     (let claims = access_claims_of cfg now login device profile pb ttl_seconds
      in bind_r (map_err (\<lambda>e. AuthInternal (''JWT encode error: '' @ e)) (jwt_encode_access jl claims))
           (\<lambda>token. Inr (token, claims)))"

definition encode_refresh ::
  "jwt_lib \<Rightarrow> int \<Rightarrow> string \<Rightarrow> login_id \<Rightarrow> int \<Rightarrow> auth_error + (string \<times> refresh_claims)" where
  "encode_refresh jl now uuid login ttl_seconds =
     (let claims = \<lparr>rc_sub = login_encode login, rc_typ = Refresh, rc_iat = now, rc_exp = now + ttl_seconds,
                    rc_rid = uuid\<rparr>
      in bind_r (map_err (\<lambda>e. AuthInternal (''JWT encode error: '' @ e)) (jwt_encode_refresh jl claims))
           (\<lambda>token. Inr (token, claims)))"

definition decode_access :: "jwt_lib \<Rightarrow> auth_config \<Rightarrow> int \<Rightarrow> string \<Rightarrow> auth_error + access_claims" where
  "decode_access jl cfg now token =
     (case jwt_decode_access jl now (jwt_issuer cfg) (jwt_audience cfg) token of
        Inl ExpiredSignature \<Rightarrow> Inl TokenExpired
      | Inl _ \<Rightarrow> Inl InvalidToken
      | Inr claims \<Rightarrow> (if ac_typ claims \<noteq> Access then Inl InvalidToken else Inr claims))"

definition decode_refresh :: "jwt_lib \<Rightarrow> int \<Rightarrow> string \<Rightarrow> auth_error + refresh_claims" where
  "decode_refresh jl now token =
     (case jwt_decode_refresh jl now token of
        Inl ExpiredSignature \<Rightarrow> Inl RefreshTokenExpired
      | Inl _ \<Rightarrow> Inl InvalidRefreshToken
      | Inr claims \<Rightarrow> (if rc_typ claims \<noteq> Refresh then Inl InvalidRefreshToken else Inr claims))"

text \<open>
  The documented behaviour of the library, with leeway 0: what it encoded decodes to the same claims
  until they expire, under the issuer and audience they carry.
\<close>

definition jwt_faithful :: "jwt_lib \<Rightarrow> bool" where
  "jwt_faithful jl \<longleftrightarrow>
     (\<forall>c tok now. jwt_encode_access jl c = Inr tok \<longrightarrow>
        jwt_decode_access jl now (ac_iss c) (ac_aud c) tok =
          (if ac_exp c < now then Inl ExpiredSignature else Inr c)) \<and>
     (\<forall>c tok now. jwt_encode_refresh jl c = Inr tok \<longrightarrow>
        jwt_decode_refresh jl now tok = (if rc_exp c < now then Inl ExpiredSignature else Inr c))"

lemma encode_access_Inr:
  assumes "encode_access jl cfg now login device profile pb ttl = Inr (tok, claims)"
  shows "claims = access_claims_of cfg now login device profile pb ttl" "jwt_encode_access jl claims = Inr tok"
  using assms by (auto simp: encode_access_def bind_r_def map_err_def Let_def split: sum.splits)

lemma encode_refresh_Inr:
  assumes "encode_refresh jl now uuid login ttl = Inr (tok, claims)"
  shows "claims = \<lparr>rc_sub = login_encode login, rc_typ = Refresh, rc_iat = now, rc_exp = now + ttl, rc_rid = uuid\<rparr>"
    "jwt_encode_refresh jl claims = Inr tok"
  using assms by (auto simp: encode_refresh_def bind_r_def map_err_def Let_def split: sum.splits)

lemma decode_access_encoded:
  assumes "jwt_faithful jl" "encode_access jl cfg now login device profile pb ttl = Inr (tok, claims)"
  shows "decode_access jl cfg t tok = (if now + ttl < t then Inl TokenExpired else Inr claims)"
proof -
  note e = encode_access_Inr [OF assms(2)]
  have "jwt_decode_access jl t (ac_iss claims) (ac_aud claims) tok =
      (if ac_exp claims < t then Inl ExpiredSignature else Inr claims)"
    using assms(1) e(2) unfolding jwt_faithful_def by blast
  then show ?thesis using e(1) by (simp add: decode_access_def access_claims_of_def)
qed

lemma decode_refresh_encoded:
  assumes "jwt_faithful jl" "encode_refresh jl now uuid login ttl = Inr (tok, claims)"
  shows "decode_refresh jl t tok = (if now + ttl < t then Inl RefreshTokenExpired else Inr claims)"
proof -
  note e = encode_refresh_Inr [OF assms(2)]
  have "jwt_decode_refresh jl t tok = (if rc_exp claims < t then Inl ExpiredSignature else Inr claims)"
    using assms(1) e(2) unfolding jwt_faithful_def by blast
  then show ?thesis using e(1) by (simp add: decode_refresh_def)
qed

end
