(* ===== verification/Auth_Bitmap.thy ===== *)
theory Auth_Bitmap
  imports Auth_Types "HOL-Library.Word"
begin

text \<open>
  \<^verbatim>\<open>crates/summer-auth/src/bitmap.rs\<close>: permissions as a bit set. A map from codes to bit positions and
  back, the encoding of a permission list as bytes and its decoding. The Base64 codec is a pair of
  parameters \<open>b64_encode\<close> and \<open>b64_decode\<close>; a decoding error is \<open>None\<close>. Positions are \<open>u32\<close>, here
  \<open>nat\<close>, with the one cast of the code written out.
\<close>

unbundle bit_operations_syntax

record permission_map =
  forward :: "string \<rightharpoonup> nat"
  reverse :: "nat \<rightharpoonup> string"

text \<open>\<open>collect\<close> into a hash map: a later entry replaces an earlier one.\<close>

definition permission_map_new :: "(string \<times> nat) list \<Rightarrow> permission_map" where
  "permission_map_new mapping =
     \<lparr>forward = map_of (rev mapping), reverse = map_of (rev (map (\<lambda>(perm, pos). (pos, perm)) mapping))\<rparr>"

definition get_position :: "permission_map \<Rightarrow> string \<Rightarrow> nat option" where
  "get_position m perm = forward m perm"

definition get_perm :: "permission_map \<Rightarrow> nat \<Rightarrow> string option" where
  "get_perm m pos = reverse m pos"

definition set_bits :: "nat list \<Rightarrow> 8 word list \<Rightarrow> 8 word list" where
  "set_bits positions bytes =
     fold (\<lambda>pos bs. bs[pos div 8 := bs ! (pos div 8) OR push_bit (pos mod 8) 1]) positions bytes"

definition bitmap_encode :: "(8 word list \<Rightarrow> string) \<Rightarrow> string list \<Rightarrow> permission_map \<Rightarrow> string option" where
  "bitmap_encode b64_encode perms m =
     (let positions = List.map_filter (get_position m) perms
      in if positions = [] then None
         else
           (let max_bit = Max (set positions);
                byte_len = max_bit div 8 + 1
            in Some (b64_encode (set_bits positions (replicate byte_len 0)))))"

definition byte_perms :: "permission_map \<Rightarrow> nat \<Rightarrow> 8 word \<Rightarrow> string list" where
  "byte_perms m byte_idx byte =
     List.map_filter (\<lambda>b. if byte AND push_bit b 1 \<noteq> 0 then get_perm m ((byte_idx * 8 + b) mod 4294967296) else None)
       [0..<8]"

definition bitmap_decode :: "(string \<Rightarrow> 8 word list option) \<Rightarrow> string \<Rightarrow> permission_map \<Rightarrow> string list" where
  "bitmap_decode b64_decode pb m =
     (let bytes = (case b64_decode pb of Some bs \<Rightarrow> bs | None \<Rightarrow> [])
      in concat (map (\<lambda>(i, byte). byte_perms m i byte) (enumerate 0 bytes)))"

section \<open>The bits\<close>

definition has_bit :: "8 word list \<Rightarrow> nat \<Rightarrow> bool" where
  "has_bit bs j \<longleftrightarrow> j div 8 < length bs \<and> bit (bs ! (j div 8)) (j mod 8)"

lemma set_bits_length [simp]: "length (set_bits ps bs) = length bs"
  by (induction ps arbitrary: bs) (simp_all add: set_bits_def)

lemma bit_single: "bit (2 ^ (k mod 8) :: 8 word) (n mod 8) \<longleftrightarrow> n mod 8 = k mod 8"
  by (auto simp: bit_simps)

lemma has_bit_update:
  assumes "p div 8 < length bs"
  shows "has_bit (bs[p div 8 := bs ! (p div 8) OR push_bit (p mod 8) 1]) j \<longleftrightarrow> j = p \<or> has_bit bs j"
proof (cases "j div 8 = p div 8")
  case True
  have "j = p \<longleftrightarrow> j mod 8 = p mod 8" using True by (metis div_mult_mod_eq)
  then show ?thesis using True assms by (auto simp: has_bit_def bit_or_iff bit_single)
next
  case False
  then show ?thesis using assms by (auto simp: has_bit_def)
qed

lemma has_bit_set_bits:
  "\<forall>p \<in> set ps. p div 8 < length bs \<Longrightarrow> has_bit (set_bits ps bs) j \<longleftrightarrow> j \<in> set ps \<or> has_bit bs j"
proof (induction ps arbitrary: bs)
  case Nil
  then show ?case by (simp add: set_bits_def)
next
  case (Cons p ps)
  let ?bs = "bs[p div 8 := bs ! (p div 8) OR push_bit (p mod 8) 1]"
  have "set_bits (p # ps) bs = set_bits ps ?bs" by (simp add: set_bits_def)
  then show ?case using Cons.IH [of ?bs] Cons.prems has_bit_update [of p bs j] by auto
qed

lemma has_bit_zero [simp]: "\<not> has_bit (replicate n 0) j"
  by (auto simp: has_bit_def)

lemma and_single: "(byte :: 8 word) AND 2 ^ b = 0 \<longleftrightarrow> \<not> bit byte b"
  by (rule and_exp_eq_0_iff_not_bit)

lemma byte_perms_set:
  "set (byte_perms m i byte) = {perm. \<exists>b < 8. bit byte b \<and> get_perm m ((i * 8 + b) mod 4294967296) = Some perm}"
proof -
  have s: "set (List.map_filter f xs) = {y. \<exists>x \<in> set xs. f x = Some y}" for f :: "nat \<Rightarrow> string option" and xs
    by (force simp: map_filter_def)
  show ?thesis by (auto simp: byte_perms_def s and_single split: if_splits)
qed

lemma decode_set:
  assumes "b64_decode pb = Some bs" "length bs \<le> 536870912"
  shows "set (bitmap_decode b64_decode pb m) = {perm. \<exists>j. has_bit bs j \<and> get_perm m j = Some perm}"
proof -
  have "set (bitmap_decode b64_decode pb m) = (\<Union>i < length bs. set (byte_perms m i (bs ! i)))"
    using assms(1) by (force simp: bitmap_decode_def in_set_enumerate_eq)
  also have "\<dots> = {perm. \<exists>j. has_bit bs j \<and> get_perm m j = Some perm}"
  proof (intro set_eqI iffI)
    fix perm
    assume "perm \<in> (\<Union>i < length bs. set (byte_perms m i (bs ! i)))"
    then obtain i b where ib: "i < length bs" "b < 8" "bit (bs ! i) b" "get_perm m ((i * 8 + b) mod 4294967296) = Some perm"
      by (auto simp: byte_perms_set)
    then have "(i * 8 + b) mod 4294967296 = i * 8 + b" using assms(2) by simp
    moreover have "(i * 8 + b) div 8 = i" "(i * 8 + b) mod 8 = b" using ib(2) by simp_all
    ultimately show "perm \<in> {perm. \<exists>j. has_bit bs j \<and> get_perm m j = Some perm}"
      using ib by (auto simp: has_bit_def intro!: exI [of _ "i * 8 + b"])
  next
    fix perm
    assume "perm \<in> {perm. \<exists>j. has_bit bs j \<and> get_perm m j = Some perm}"
    then obtain j where j: "j div 8 < length bs" "bit (bs ! (j div 8)) (j mod 8)" "get_perm m j = Some perm"
      by (auto simp: has_bit_def)
    then have "j mod 4294967296 = j" using assms(2) by simp
    then have "(j div 8 * 8 + j mod 8) mod 4294967296 = j" by simp
    then show "perm \<in> (\<Union>i < length bs. set (byte_perms m i (bs ! i)))"
      using j by (auto simp: byte_perms_set intro!: bexI [of _ "j div 8"] exI [of _ "j mod 8"])
  qed
  finally show ?thesis .
qed

text \<open>A mapping without duplicates on either side: the two maps are inverse.\<close>

lemma permission_map_inverse:
  assumes "distinct (map fst mapping)" "distinct (map snd mapping)"
  shows "reverse (permission_map_new mapping) pos = Some perm \<longleftrightarrow> forward (permission_map_new mapping) perm = Some pos"
proof -
  have "distinct (map fst (rev mapping))" using assms(1) by (simp add: rev_map [symmetric])
  moreover have "distinct (map fst (rev (map (\<lambda>(perm, pos). (pos, perm)) mapping)))"
    using assms(2) by (simp add: rev_map [symmetric] comp_def split_def)
  ultimately show ?thesis
    by (auto simp: permission_map_new_def map_of_eq_Some_iff)
qed

text \<open>The decoded list is in the order of the bit positions.\<close>

lemma map_filter_append: "List.map_filter f (xs @ ys) = List.map_filter f xs @ List.map_filter f ys"
  by (simp add: map_filter_def)

lemma map_filter_cong: "(\<And>x. x \<in> set xs \<Longrightarrow> f x = g x) \<Longrightarrow> List.map_filter f xs = List.map_filter g xs"
  by (induction xs) (simp_all add: map_filter_simps split: option.splits)

lemma byte_perms_positions:
  assumes "i < 536870912"
  shows "byte_perms m i byte =
    List.map_filter (\<lambda>j. if bit byte (j mod 8) then get_perm m j else None) [i * 8..<i * 8 + 8]"
proof -
  have "[i * 8..<i * 8 + 8] = map (\<lambda>b. i * 8 + b) [0..<8]" by (simp add: map_add_upt add.commute)
  moreover have "List.map_filter f (map h xs) = List.map_filter (f \<circ> h) xs"
    for f :: "nat \<Rightarrow> string option" and h :: "nat \<Rightarrow> nat" and xs
    by (simp add: map_filter_def filter_map comp_def)
  moreover have "(i * 8 + b) mod 4294967296 = i * 8 + b" if "b < 8" for b using assms that by simp
  ultimately show ?thesis
    by (auto simp: byte_perms_def and_single comp_def intro!: map_filter_cong)
qed

lemma decode_positions:
  assumes "b64_decode pb = Some bs" "length bs \<le> 536870912"
  shows "bitmap_decode b64_decode pb m =
    List.map_filter (\<lambda>j. if has_bit bs j then get_perm m j else None) [0..<8 * length bs]"
proof -
  have "length bs \<le> 536870912 \<Longrightarrow> concat (map (\<lambda>(i, byte). byte_perms m i byte) (enumerate 0 bs)) =
    List.map_filter (\<lambda>j. if has_bit bs j then get_perm m j else None) [0..<8 * length bs]"
  proof (induction bs rule: rev_induct)
    case (snoc b bs)
    let ?n = "length bs"
    have split: "[0..<8 * length (bs @ [b])] = [0..<8 * ?n] @ [?n * 8..<?n * 8 + 8]"
      using upt_add_eq_append [of 0 "8 * ?n" 8] by (simp add: mult.commute add.commute)
    have old: "has_bit (bs @ [b]) j = has_bit bs j" if "j < 8 * ?n" for j
      using that by (auto simp: has_bit_def nth_append)
    have new: "has_bit (bs @ [b]) j = bit b (j mod 8)" if "?n * 8 \<le> j" "j < ?n * 8 + 8" for j
    proof -
      have "j div 8 = ?n" using that by (intro div_nat_eqI) auto
      then show ?thesis by (simp add: has_bit_def nth_append)
    qed
    have "byte_perms m ?n b =
        List.map_filter (\<lambda>j. if has_bit (bs @ [b]) j then get_perm m j else None) [?n * 8..<?n * 8 + 8]"
      using snoc.prems new by (subst byte_perms_positions) (auto intro!: map_filter_cong)
    moreover have "List.map_filter (\<lambda>j. if has_bit bs j then get_perm m j else None) [0..<8 * ?n] =
        List.map_filter (\<lambda>j. if has_bit (bs @ [b]) j then get_perm m j else None) [0..<8 * ?n]"
      using old by (auto intro!: map_filter_cong)
    ultimately show ?case using snoc unfolding split map_filter_append
      by (simp add: enumerate_append_eq)
  qed (simp add: map_filter_simps)
  then show ?thesis using assms by (simp add: bitmap_decode_def)
qed

lemma map_filter_inverse:
  assumes "\<And>j y. f j = Some y \<Longrightarrow> g y = j"
  shows "map g (List.map_filter f xs) = filter (\<lambda>j. f j \<noteq> None) xs"
  using assms by (induction xs) (auto simp: map_filter_simps split: option.splits)

text \<open>
  C16. The permission bitmap round-trips: decoding the encoding of a permission list gives exactly those
  of its permissions that have a bit position, each once and in the order of the positions, for any mapping without duplicates and any Base64 codec
  that decodes what it encodes; without such a permission there is no bitmap.
\<close>
theorem bitmap_round_trip:
  assumes codec: "\<And>bs. b64_decode (b64_encode bs) = Some bs"
    and mapping: "distinct (map fst mapping)" "distinct (map snd mapping)" "\<forall>(_, pos) \<in> set mapping. pos < 4294967296"
  defines "m \<equiv> permission_map_new mapping"
  shows "case bitmap_encode b64_encode perms m of
      None \<Rightarrow> set perms \<inter> dom (forward m) = {}
    | Some pb \<Rightarrow> set (bitmap_decode b64_decode pb m) = set perms \<inter> dom (forward m)
                 \<and> sorted_wrt (<) (map (\<lambda>perm. the (forward m perm)) (bitmap_decode b64_decode pb m))
                 \<and> set perms \<inter> dom (forward m) \<noteq> {}"
proof -
  let ?ps = "List.map_filter (get_position m) perms"
  have ps: "set ?ps = {p. \<exists>x \<in> set perms. forward m x = Some p}"
    by (force simp: map_filter_def get_position_def)
  show ?thesis
  proof (cases "?ps = []")
    case True
    then have "set ?ps = {}" by simp
    then show ?thesis using True ps by (auto simp: bitmap_encode_def dom_def)
  next
    case False
    define n where "n = Max (set ?ps) div 8 + 1"
    have lt: "p < 4294967296" if "p \<in> set ?ps" for p
      using that ps mapping(3) by (force simp: m_def permission_map_new_def dest: map_of_SomeD)
    have "Max (set ?ps) \<in> set ?ps" using False by simp
    then have n: "n \<le> 536870912" using lt by (fastforce simp: n_def)
    have "p div 8 < n" if "p \<in> set ?ps" for p
      using that Max_ge [of "set ?ps" p] by (simp add: n_def div_le_mono less_Suc_eq_le)
    then have bits: "has_bit (set_bits ?ps (replicate n 0)) j \<longleftrightarrow> j \<in> set ?ps" for j
      by (subst has_bit_set_bits) auto
    have e: "bitmap_encode b64_encode perms m = Some (b64_encode (set_bits ?ps (replicate n 0)))"
      using False by (simp add: bitmap_encode_def n_def Let_def)
    have "set (bitmap_decode b64_decode (b64_encode (set_bits ?ps (replicate n 0))) m)
        = {perm. \<exists>j. j \<in> set ?ps \<and> reverse m j = Some perm}"
      using n by (subst decode_set [where b64_decode = b64_decode, OF codec]) (simp_all add: bits get_perm_def)
    also have "\<dots> = set perms \<inter> dom (forward m)"
    proof -
      note inv = permission_map_inverse [OF mapping(1,2), folded m_def]
      have inj: "forward m x = Some j \<Longrightarrow> forward m y = Some j \<Longrightarrow> x = y" for x y j
        using inv [of j x] inv [of j y] by simp
      show ?thesis unfolding ps inv dom_def using inj by blast
    qed
    finally have d: "set (bitmap_decode b64_decode (b64_encode (set_bits ?ps (replicate n 0))) m) =
        set perms \<inter> dom (forward m)" .
    have "set ?ps \<noteq> {}" using False by simp
    then have "set perms \<inter> dom (forward m) \<noteq> {}" unfolding ps by blast
    moreover have "sorted_wrt (<) (map (\<lambda>perm. the (forward m perm))
        (bitmap_decode b64_decode (b64_encode (set_bits ?ps (replicate n 0))) m))"
    proof -
      have "the (forward m y) = j"
        if "(if has_bit (set_bits ?ps (replicate n 0)) j then get_perm m j else None) = Some y" for j y
        using that permission_map_inverse [OF mapping(1,2), folded m_def] by (auto simp: get_perm_def split: if_splits)
      note inv = map_filter_inverse [of _ "\<lambda>perm. the (forward m perm)", OF this]
      show ?thesis
        using n by (subst decode_positions [where b64_decode = b64_decode, OF codec]) (simp_all add: inv sorted_wrt_filter)
    qed
    ultimately show ?thesis using d by (simp add: e)
  qed
qed


lemma byte_codec: "map (\<lambda>ch. word_of_nat (of_char ch)) (map (\<lambda>w. char_of (unat w)) bs :: string) = (bs :: 8 word list)"
proof (induction bs)
  case (Cons w bs)
  have "unat w < 256" using unsigned_less [of w] by simp
  then show ?case using Cons by simp
qed simp

theorem bitmap_round_trip_witness:
  defines "m \<equiv> permission_map_new [(''a'', 9), (''b'', 0)]"
  shows "case bitmap_encode (map (\<lambda>w. char_of (unat w))) [''a'', ''x'', ''b''] m of
      None \<Rightarrow> False
    | Some pb \<Rightarrow> set (bitmap_decode (\<lambda>s. Some (map (\<lambda>ch. word_of_nat (of_char ch)) s)) pb m) = {''a'', ''b''}"
proof -
  have d: "set [''a'', ''x'', ''b''] \<inter> dom (forward m) = {''a'', ''b''}"
    by (auto simp: m_def permission_map_new_def dom_def)
  show ?thesis
    using bitmap_round_trip [where b64_decode = "\<lambda>s. Some (map (\<lambda>ch. word_of_nat (of_char ch)) s)"
        and b64_encode = "map (\<lambda>w. char_of (unat w))"
        and mapping = "[(''a'', 9), (''b'', 0)]" and perms = "[''a'', ''x'', ''b'']", folded m_def, unfolded d byte_codec]
    by (auto split: option.splits)
qed

end
