(* ===== verification/Auth_Session.thy ===== *)
theory Auth_Session
  imports Auth_Storage Auth_Token Auth_Bitmap
begin

text \<open>
  \<open>SessionManager\<close> of \<^verbatim>\<open>crates/summer-auth/src/session/manager.rs\<close> over the storage trait: logging in
  and out, refreshing, validating, banning, the device policy. One operation runs at one instant
  \<open>ms\<close> (milliseconds); JSON and Base64 codecs and the JWT library are fields of the manager, a fresh
  UUID is the argument \<open>uuid\<close>.
\<close>

record 's session_manager =
  sm_ops :: "'s storage_ops"
  sm_config :: auth_config
  sm_perm_map :: "permission_map option"
  sm_jwt :: jwt_lib
  sm_b64_encode :: "8 word list \<Rightarrow> string"
  sm_b64_decode :: "string \<Rightarrow> 8 word list option"
  sm_json_encode :: "device_info \<Rightarrow> string + string"
  sm_json_decode :: "string \<Rightarrow> device_info option"

record login_params =
  lp_login_id :: login_id
  lp_device :: device_type
  lp_login_ip :: string
  lp_user_agent :: string
  lp_profile :: user_profile

definition seconds :: "int \<Rightarrow> int" where
  "seconds ms = ms div 1000"

section \<open>Keys\<close>

definition refresh_key :: "string \<Rightarrow> string" where
  "refresh_key rid = ''auth:refresh:'' @ rid"

definition device_prefix :: "login_id \<Rightarrow> string" where
  "device_prefix l = ''auth:device:'' @ login_encode l @ '':''"

definition device_key :: "login_id \<Rightarrow> device_type \<Rightarrow> string" where
  "device_key l d = ''auth:device:'' @ login_encode l @ '':'' @ device_str d"

definition deny_key :: "login_id \<Rightarrow> string" where
  "deny_key l = ''auth:deny:'' @ login_encode l"

definition parse_device_from_key :: "string \<Rightarrow> login_id \<Rightarrow> device_type option" where
  "parse_device_from_key key l = map_option device_of (strip_prefix (device_prefix l) key)"

definition refresh_value :: "login_id \<Rightarrow> device_type \<Rightarrow> string" where
  "refresh_value l d = login_encode l @ '':'' @ device_str d"

definition deny_refresh_value :: "int \<Rightarrow> string" where
  "deny_refresh_value ms = ''refresh:'' @ show_int (seconds ms)"

section \<open>Storage calls\<close>

text \<open>The conversion of \<open>anyhow::Error\<close> by \<open>?\<close>.\<close>

definition store :: "('s, string, 'a) sm \<Rightarrow> ('s, auth_error, 'a) sm" where
  "store m s = (case m s of (Inl e, s') \<Rightarrow> (Inl (StorageError e), s') | (Inr x, s') \<Rightarrow> (Inr x, s'))"

definition set_string :: "'s session_manager \<Rightarrow> int \<Rightarrow> string \<Rightarrow> string \<Rightarrow> int \<Rightarrow> ('s, auth_error, unit) sm" where
  "set_string sm ms k v ttl = store (op_set_string (sm_ops sm) (seconds ms) k v ttl)"

definition get_string :: "'s session_manager \<Rightarrow> int \<Rightarrow> string \<Rightarrow> ('s, auth_error, string option) sm" where
  "get_string sm ms k = store (op_get_string (sm_ops sm) (seconds ms) k)"

definition delete_string :: "'s session_manager \<Rightarrow> int \<Rightarrow> string \<Rightarrow> ('s, auth_error, unit) sm" where
  "delete_string sm ms k = store (op_delete (sm_ops sm) (seconds ms) k)"

definition keys_by_prefix :: "'s session_manager \<Rightarrow> int \<Rightarrow> string \<Rightarrow> ('s, auth_error, string list) sm" where
  "keys_by_prefix sm ms p = store (op_keys_by_prefix (sm_ops sm) (seconds ms) p)"

text \<open>\<open>let _ = delete(..)\<close> and \<open>if let Ok(Some(json)) = get(..) && let Ok(info) = from_str(json)\<close>.\<close>

definition try_delete :: "'s session_manager \<Rightarrow> int \<Rightarrow> string \<Rightarrow> ('s, auth_error, unit) sm" where
  "try_delete sm ms k = bind_s (attempt (delete_string sm ms k)) (\<lambda>_. ok_s ())"

definition try_get_info :: "'s session_manager \<Rightarrow> int \<Rightarrow> string \<Rightarrow> ('s, auth_error, device_info option) sm" where
  "try_get_info sm ms k =
     bind_s (attempt (get_string sm ms k) :: ('s, auth_error, auth_error + string option) sm)
       (\<lambda>r. ok_s (case r of Inr (Some json) \<Rightarrow> sm_json_decode sm json | _ \<Rightarrow> None))"

section \<open>Devices\<close>

definition store_device_info ::
  "'s session_manager \<Rightarrow> int \<Rightarrow> login_id \<Rightarrow> device_type \<Rightarrow> string \<Rightarrow> string \<Rightarrow> string \<Rightarrow> ('s, auth_error, unit) sm" where
  "store_device_info sm ms l d rid ip ua =
     (let info = \<lparr>di_rid = rid, di_login_time = ms, di_login_ip = ip, di_user_agent = ua\<rparr>
      in bind_s (lift_r (map_err AuthInternal (sm_json_encode sm info)))
           (\<lambda>json. set_string sm ms (device_key l d) json (refresh_timeout (sm_config sm))))"

text \<open>Deleting a session key and the refresh key it names; the body shared by the loops of the code.\<close>

definition drop_device_key :: "'s session_manager \<Rightarrow> int \<Rightarrow> string \<Rightarrow> ('s, auth_error, unit) sm" where
  "drop_device_key sm ms key =
     bind_s (try_get_info sm ms key)
       (\<lambda>info. bind_s (case info of Some i \<Rightarrow> try_delete sm ms (refresh_key (di_rid i)) | None \<Rightarrow> ok_s ())
          (\<lambda>_. try_delete sm ms key))"

definition cleanup_device :: "'s session_manager \<Rightarrow> int \<Rightarrow> login_id \<Rightarrow> device_type \<Rightarrow> ('s, auth_error, unit) sm" where
  "cleanup_device sm ms l d = drop_device_key sm ms (device_key l d)"

fun collect_devices ::
  "'s session_manager \<Rightarrow> int \<Rightarrow> string list \<Rightarrow> ('s, auth_error, (string \<times> device_info) list) sm" where
  "collect_devices sm ms [] = ok_s []"
| "collect_devices sm ms (k # ks) =
     bind_s (try_get_info sm ms k)
       (\<lambda>info. bind_s (collect_devices sm ms ks)
          (\<lambda>rest. ok_s (case info of Some i \<Rightarrow> (k, i) # rest | None \<Rightarrow> rest)))"

definition evict_devices :: "'s session_manager \<Rightarrow> int \<Rightarrow> (string \<times> device_info) list \<Rightarrow> ('s, auth_error, unit) sm" where
  "evict_devices sm ms victims =
     for_s victims (\<lambda>(key, info).
       bind_s (try_delete sm ms (refresh_key (di_rid info))) (\<lambda>_. try_delete sm ms key))"

definition enforce_max_devices :: "'s session_manager \<Rightarrow> int \<Rightarrow> login_id \<Rightarrow> ('s, auth_error, unit) sm" where
  "enforce_max_devices sm ms l =
     (let cap = max_devices (sm_config sm)
      in if cap = 0 then ok_s ()
         else bind_s (keys_by_prefix sm ms (device_prefix l))
           (\<lambda>keys. if cap \<le> length keys then
              bind_s (collect_devices sm ms keys)
                (\<lambda>devs. let sorted_devs = sort_key (\<lambda>(_, info). di_login_time info) devs;
                            to_remove = length sorted_devs + 1 - cap
                        in evict_devices sm ms (take to_remove sorted_devs))
            else ok_s ()))"

definition handle_device_policy ::
  "'s session_manager \<Rightarrow> int \<Rightarrow> login_id \<Rightarrow> device_type \<Rightarrow> ('s, auth_error, unit) sm" where
  "handle_device_policy sm ms l d =
     bind_s
       (if concurrent_login (sm_config sm) then cleanup_device sm ms l d
        else bind_s (keys_by_prefix sm ms (device_prefix l))
          (\<lambda>keys. for_s keys (\<lambda>key. case parse_device_from_key key l of
                                       Some d' \<Rightarrow> cleanup_device sm ms l d' | None \<Rightarrow> ok_s ())))
       (\<lambda>_. enforce_max_devices sm ms l)"

section \<open>Login, logout, refresh\<close>

definition encode_permissions :: "'s session_manager \<Rightarrow> user_profile \<Rightarrow> string option" where
  "encode_permissions sm profile =
     Option.bind (sm_perm_map sm) (bitmap_encode (sm_b64_encode sm) (permissions profile))"

definition login :: "'s session_manager \<Rightarrow> int \<Rightarrow> string \<Rightarrow> login_params \<Rightarrow> ('s, auth_error, token_pair) sm" where
  "login sm ms uuid p =
     (let l = lp_login_id p; d = lp_device p; cfg = sm_config sm; now = seconds ms
      in bind_s (handle_device_policy sm ms l d)
        (\<lambda>_. bind_s (lift_r (encode_access (sm_jwt sm) cfg now l d (lp_profile p)
                        (encode_permissions sm (lp_profile p)) (access_timeout cfg)))
          (\<lambda>(atok, _). bind_s (lift_r (encode_refresh (sm_jwt sm) now uuid l (refresh_timeout cfg)))
            (\<lambda>(rtok, rclaims).
               bind_s (set_string sm ms (refresh_key (rc_rid rclaims)) (refresh_value l d) (refresh_timeout cfg))
                 (\<lambda>_. bind_s (store_device_info sm ms l d (rc_rid rclaims) (lp_login_ip p) (lp_user_agent p))
                   (\<lambda>_. ok_s \<lparr>access_token = atok, refresh_token = rtok, expires_in = access_timeout cfg\<rparr>))))))"

definition deny_old_tokens :: "'s session_manager \<Rightarrow> int \<Rightarrow> login_id \<Rightarrow> ('s, auth_error, unit) sm" where
  "deny_old_tokens sm ms l =
     set_string sm ms (deny_key l) (deny_refresh_value ms) (access_timeout (sm_config sm))"

definition logout :: "'s session_manager \<Rightarrow> int \<Rightarrow> login_id \<Rightarrow> device_type \<Rightarrow> ('s, auth_error, unit) sm" where
  "logout sm ms l d = bind_s (cleanup_device sm ms l d) (\<lambda>_. deny_old_tokens sm ms l)"

definition drop_all_devices :: "'s session_manager \<Rightarrow> int \<Rightarrow> login_id \<Rightarrow> ('s, auth_error, unit) sm" where
  "drop_all_devices sm ms l =
     bind_s (keys_by_prefix sm ms (device_prefix l)) (\<lambda>keys. for_s keys (drop_device_key sm ms))"

definition logout_all :: "'s session_manager \<Rightarrow> int \<Rightarrow> login_id \<Rightarrow> ('s, auth_error, unit) sm" where
  "logout_all sm ms l = bind_s (drop_all_devices sm ms l) (\<lambda>_. deny_old_tokens sm ms l)"

definition force_refresh :: "'s session_manager \<Rightarrow> int \<Rightarrow> login_id \<Rightarrow> ('s, auth_error, unit) sm" where
  "force_refresh sm ms l = deny_old_tokens sm ms l"

definition kick_out :: "'s session_manager \<Rightarrow> int \<Rightarrow> login_id \<Rightarrow> device_type option \<Rightarrow> ('s, auth_error, unit) sm" where
  "kick_out sm ms l d = (case d of Some d' \<Rightarrow> logout sm ms l d' | None \<Rightarrow> logout_all sm ms l)"

definition ban_user :: "'s session_manager \<Rightarrow> int \<Rightarrow> login_id \<Rightarrow> ('s, auth_error, unit) sm" where
  "ban_user sm ms l =
     bind_s (drop_all_devices sm ms l)
       (\<lambda>_. set_string sm ms (deny_key l) ''banned'' (365 * 24 * 3600))"

definition unban_user :: "'s session_manager \<Rightarrow> int \<Rightarrow> login_id \<Rightarrow> ('s, auth_error, unit) sm" where
  "unban_user sm ms l = delete_string sm ms (deny_key l)"


section \<open>Refresh and validation\<close>

definition update_device_rid ::
  "'s session_manager \<Rightarrow> int \<Rightarrow> login_id \<Rightarrow> device_type \<Rightarrow> string \<Rightarrow> ('s, auth_error, unit) sm" where
  "update_device_rid sm ms l d rid =
     (let dk = device_key l d
      in bind_s (try_get_info sm ms dk)
        (\<lambda>info. case info of
           None \<Rightarrow> ok_s ()
         | Some i \<Rightarrow>
             (case sm_json_encode sm (i\<lparr>di_rid := rid\<rparr>) of
                Inl _ \<Rightarrow> ok_s ()
              | Inr json \<Rightarrow> bind_s (attempt (set_string sm ms dk json (refresh_timeout (sm_config sm)))) (\<lambda>_. ok_s ()))))"

text \<open>Steps 1 to 3 of \<open>refresh\<close>: the claims, the refresh key, the ban; then steps 4 to 9.\<close>

definition refresh_lookup ::
  "'s session_manager \<Rightarrow> int \<Rightarrow> string \<Rightarrow> ('s, auth_error, refresh_claims \<times> login_id \<times> device_type) sm" where
  "refresh_lookup sm ms token =
     bind_s (lift_r (decode_refresh (sm_jwt sm) (seconds ms) token))
       (\<lambda>rc. bind_s (lift_r (ok_or InvalidRefreshToken (login_decode (rc_sub rc))))
         (\<lambda>l. bind_s (get_string sm ms (refresh_key (rc_rid rc)))
           (\<lambda>v. bind_s (lift_r (ok_or InvalidRefreshToken v))
             (\<lambda>rv. bind_s (lift_r (ok_or InvalidRefreshToken (rsplit_once CHR '':'' rv)))
               (\<lambda>(_, dev). bind_s (get_string sm ms (deny_key l))
                 (\<lambda>deny. if deny = Some ''banned'' then err_s AccountBanned else ok_s (rc, l, device_of dev)))))))"

definition refresh_issue ::
  "'s session_manager \<Rightarrow> int \<Rightarrow> string \<Rightarrow> user_profile \<Rightarrow> refresh_claims \<Rightarrow> login_id \<Rightarrow> device_type
   \<Rightarrow> ('s, auth_error, token_pair) sm" where
  "refresh_issue sm ms uuid profile rc l d =
     (let cfg = sm_config sm; now = seconds ms
      in bind_s (lift_r (encode_access (sm_jwt sm) cfg now l d profile (encode_permissions sm profile) (access_timeout cfg)))
        (\<lambda>(atok, _). bind_s (lift_r (encode_refresh (sm_jwt sm) now uuid l (refresh_timeout cfg)))
          (\<lambda>(rtok, nrc). bind_s (set_string sm ms (refresh_key (rc_rid nrc)) (refresh_value l d) (refresh_timeout cfg))
            (\<lambda>_. bind_s (try_delete sm ms (refresh_key (rc_rid rc)))
              (\<lambda>_. bind_s (update_device_rid sm ms l d (rc_rid nrc))
                (\<lambda>_. ok_s \<lparr>access_token = atok, refresh_token = rtok, expires_in = access_timeout cfg\<rparr>))))))"

definition refresh ::
  "'s session_manager \<Rightarrow> int \<Rightarrow> string \<Rightarrow> string \<Rightarrow> user_profile \<Rightarrow> ('s, auth_error, token_pair) sm" where
  "refresh sm ms uuid token profile =
     bind_s (refresh_lookup sm ms token) (\<lambda>(rc, l, d). refresh_issue sm ms uuid profile rc l d)"

text \<open>What a stored deny value says about a token issued at \<open>iat\<close>.\<close>

definition deny_verdict :: "int \<Rightarrow> string \<Rightarrow> auth_error + unit" where
  "deny_verdict iat v =
     (if v = ''banned'' then Inl AccountBanned
      else if prefix ''refresh:'' v then
        (case parse_i64 (drop 8 v) of
           Some deny_ts \<Rightarrow> (if iat \<le> deny_ts then Inl RefreshRequired else Inr ())
         | None \<Rightarrow> Inl InvalidToken)
      else Inl InvalidToken)"

definition claims_permissions :: "'s session_manager \<Rightarrow> access_claims \<Rightarrow> string list" where
  "claims_permissions sm claims =
     (case ac_pb claims of
        Some pb \<Rightarrow> (case sm_perm_map sm of None \<Rightarrow> ac_permissions claims | Some m \<Rightarrow> bitmap_decode (sm_b64_decode sm) pb m)
      | None \<Rightarrow> ac_permissions claims)"

definition validate_token :: "'s session_manager \<Rightarrow> int \<Rightarrow> string \<Rightarrow> ('s, auth_error, validated_access) sm" where
  "validate_token sm ms token =
     bind_s (lift_r (decode_access (sm_jwt sm) (sm_config sm) (seconds ms) token))
       (\<lambda>claims. bind_s (lift_r (ok_or InvalidToken (login_decode (ac_sub claims))))
         (\<lambda>l. bind_s
            (if per_request_deny_check (sm_config sm) then
               bind_s (get_string sm ms (deny_key l))
                 (\<lambda>deny. case deny of Some v \<Rightarrow> lift_r (deny_verdict (ac_iat claims) v) | None \<Rightarrow> ok_s ())
             else ok_s ())
            (\<lambda>_. ok_s \<lparr>va_login_id = l, va_device = device_of (ac_dev claims), va_user_name = ac_user_name claims,
                       va_nick_name = ac_nick_name claims, va_roles = ac_roles claims,
                       va_permissions = claims_permissions sm claims\<rparr>)))"

definition parse_refresh_token :: "'s session_manager \<Rightarrow> int \<Rightarrow> string \<Rightarrow> auth_error + login_id" where
  "parse_refresh_token sm ms token =
     bind_r (decode_refresh (sm_jwt sm) (seconds ms) token)
       (\<lambda>rc. ok_or InvalidRefreshToken (login_decode (rc_sub rc)))"

fun device_sessions ::
  "'s session_manager \<Rightarrow> int \<Rightarrow> login_id \<Rightarrow> string list \<Rightarrow> ('s, auth_error, device_session list) sm" where
  "device_sessions sm ms l [] = ok_s []"
| "device_sessions sm ms l (key # keys) =
     bind_s
       (case parse_device_from_key key l of
          None \<Rightarrow> ok_s None
        | Some d \<Rightarrow> bind_s (try_get_info sm ms key) (\<lambda>info. ok_s (map_option (\<lambda>i. (d, i)) info)))
       (\<lambda>entry. bind_s (device_sessions sm ms l keys)
          (\<lambda>rest. ok_s (case entry of
             None \<Rightarrow> rest
           | Some (d, i) \<Rightarrow> \<lparr>ds_device = d, ds_login_time = di_login_time i, ds_login_ip = di_login_ip i,
                             ds_user_agent = di_user_agent i\<rparr> # rest)))"

definition get_devices :: "'s session_manager \<Rightarrow> int \<Rightarrow> login_id \<Rightarrow> ('s, auth_error, device_session list) sm" where
  "get_devices sm ms l = bind_s (keys_by_prefix sm ms (device_prefix l)) (device_sessions sm ms l)"

definition set_permission_map :: "permission_map \<Rightarrow> 's session_manager \<Rightarrow> 's session_manager" where
  "set_permission_map m sm = sm\<lparr>sm_perm_map := Some m\<rparr>"

section \<open>Keys are apart\<close>

lemma prefix_append_same [simp]: "prefix (a @ b) (a @ c) \<longleftrightarrow> prefix b c"
  by (simp add: prefix_def)

lemma key_families [simp]:
  "refresh_key r \<noteq> device_key l d" "refresh_key r \<noteq> deny_key l" "device_key l d \<noteq> deny_key l'"
  "device_key l d \<noteq> refresh_key r" "deny_key l \<noteq> refresh_key r" "deny_key l' \<noteq> device_key l d"
  by (auto simp: refresh_key_def device_key_def deny_key_def)

lemma refresh_key_inj [simp]: "refresh_key r = refresh_key r' \<longleftrightarrow> r = r'"
  by (simp add: refresh_key_def)

lemma deny_key_inj [simp]: "deny_key l = deny_key l' \<longleftrightarrow> l = l'"
  by (simp add: deny_key_def)

lemma device_key_prefix: "device_key l d = device_prefix l @ device_str d"
  by (simp add: device_key_def device_prefix_def)

lemma device_prefix_login: "prefix (device_prefix l) (device_prefix l' @ x) \<longleftrightarrow> l = l'"
proof
  assume "prefix (device_prefix l) (device_prefix l' @ x)"
  then obtain y where "login_encode l @ CHR '':'' # y = login_encode l' @ CHR '':'' # x"
    by (auto simp: device_prefix_def prefix_def)
  then have "hd (split_on CHR '':'' (login_encode l @ CHR '':'' # y)) = hd (split_on CHR '':'' (login_encode l' @ CHR '':'' # x))"
    by simp
  then show "l = l'" by (simp add: split_on_append)
qed simp

lemma device_prefix_refresh [simp]:
  "\<not> prefix (device_prefix l) (refresh_key r)" "\<not> prefix (device_prefix l) (deny_key l')"
  by (auto simp: device_prefix_def refresh_key_def deny_key_def)

lemma parse_device_key [simp]: "parse_device_from_key (device_prefix l @ x) l = Some (device_of x)"
  by (simp add: parse_device_from_key_def)

end
