(* ===== verification/Auth_Session_Laws.thy ===== *)
theory Auth_Session_Laws
  imports Auth_Session
begin

text \<open>
  What the operations of the session manager do to the store, proved once from the storage contract:
  the locale \<open>session_store\<close> extends \<open>auth_storage\<close> by a manager over that store. \<open>eff now m s r f\<close> says
  that \<open>m\<close>, run from \<open>s\<close> at time \<open>now\<close>, answers \<open>r\<close> and changes what can be read at any later time \<open>t\<close>
  by \<open>f t\<close>. The locale is interpreted on every manager over the memory store.
\<close>

text \<open>The device entry a key holds, and the keys that go when it is dropped.\<close>

definition info_at :: "'s session_manager \<Rightarrow> (string \<rightharpoonup> string) \<Rightarrow> string \<Rightarrow> device_info option" where
  "info_at sm V k = Option.bind (V k) (sm_json_decode sm)"

definition dropped :: "'s session_manager \<Rightarrow> (string \<rightharpoonup> string) \<Rightarrow> string \<Rightarrow> string set" where
  "dropped sm V k = insert k (case info_at sm V k of None \<Rightarrow> {} | Some i \<Rightarrow> {refresh_key (di_rid i)})"

definition device_keys :: "login_id \<Rightarrow> (string \<rightharpoonup> string) \<Rightarrow> string set" where
  "device_keys l V = {k. prefix (device_prefix l) k \<and> V k \<noteq> None}"

lemma device_not_refresh: "k \<in> device_keys l V \<Longrightarrow> k \<noteq> refresh_key r"
  by (auto simp: device_keys_def)

lemma restrict_UNIV [simp]: "V |` UNIV = V"
  by (simp add: fun_eq_iff)

locale session_store = auth_storage ops inv view lives
  for ops :: "'s storage_ops" and inv view lives +
  fixes sm :: "'s session_manager"
  assumes ops_sm: "sm_ops sm = ops"
begin

definition eff ::
  "int \<Rightarrow> ('s, auth_error, 'a) sm \<Rightarrow> 's \<Rightarrow> auth_error + 'a \<Rightarrow> (int \<Rightarrow> (string \<rightharpoonup> string) \<Rightarrow> (string \<rightharpoonup> string)) \<Rightarrow> bool"
where
  "eff now m s r f \<longleftrightarrow> fst (m s) = r \<and> inv (snd (m s)) \<and> (\<forall>t. now \<le> t \<longrightarrow> view t (snd (m s)) = f t (view t s))"

lemma effD:
  "eff now m s r f \<Longrightarrow> fst (m s) = r" "eff now m s r f \<Longrightarrow> inv (snd (m s))"
  "eff now m s r f \<Longrightarrow> now \<le> t \<Longrightarrow> view t (snd (m s)) = f t (view t s)"
  by (auto simp: eff_def)

lemma eff_ok: "inv s \<Longrightarrow> eff now (ok_s x) s (Inr x) (\<lambda>t V. V)"
  by (simp add: eff_def ok_s_def)

lemma eff_bind:
  assumes "eff now m s (Inr x) f" and "eff now (g x) (snd (m s)) r h"
  shows "eff now (bind_s m g) s r (\<lambda>t V. h t (f t V))"
  using assms by (cases "m s") (auto simp: eff_def bind_s_def)

lemma eff_bind_Inl:
  assumes "eff now m s (Inl e) f"
  shows "eff now (bind_s m g) s (Inl e) f"
  using assms by (cases "m s") (auto simp: eff_def bind_s_def)

lemma eff_bind_lift:
  assumes "r = Inr x" "eff now (g x) s q h"
  shows "eff now (bind_s (lift_r r) g) s q h"
  using assms by (simp add: eff_def bind_s_def lift_r_def)

lemma eff_cong:
  assumes "eff now m s r f" "\<And>t. now \<le> t \<Longrightarrow> f t (view t s) = h t (view t s)"
  shows "eff now m s r h"
  using assms by (simp add: eff_def)

section \<open>Storage calls\<close>

lemma eff_set:
  "inv s \<Longrightarrow> eff (seconds ms) (set_string sm ms k v ttl) s (Inr ())
     (\<lambda>t V. V(k := if lives ttl (t - seconds ms) then Some v else None))"
  using set_ok [of s "seconds ms" k v ttl] set_inv [of s "seconds ms" k v ttl] set_view [of s "seconds ms" _ k v ttl]
  by (cases "op_set_string ops (seconds ms) k v ttl s") (auto simp: eff_def set_string_def store_def ops_sm)

lemma eff_get:
  "inv s \<Longrightarrow> eff (seconds ms) (get_string sm ms k) s (Inr (view (seconds ms) s k)) (\<lambda>t V. V)"
  using get_ok [of s "seconds ms" k] get_inv [of s "seconds ms" k] get_view [of s "seconds ms" _ k]
  by (cases "op_get_string ops (seconds ms) k s") (auto simp: eff_def get_string_def store_def ops_sm)

lemma eff_delete:
  "inv s \<Longrightarrow> eff (seconds ms) (delete_string sm ms k) s (Inr ()) (\<lambda>t V. V |` (- {k}))"
  using del_ok [of s "seconds ms" k] del_inv [of s "seconds ms" k] del_view [of s "seconds ms" _ k]
  by (cases "op_delete ops (seconds ms) k s")
    (auto simp: eff_def delete_string_def store_def ops_sm restrict_map_def fun_eq_iff)

lemma eff_keys:
  "inv s \<Longrightarrow> \<exists>ks. eff (seconds ms) (keys_by_prefix sm ms p) s (Inr ks) (\<lambda>t V. V) \<and> distinct ks \<and>
     set ks = {k. prefix p k \<and> view (seconds ms) s k \<noteq> None}"
  using keys_ok [of s "seconds ms" p]
  by (auto simp: eff_def keys_by_prefix_def store_def ops_sm)

lemma eff_attempt:
  "eff now m s r f \<Longrightarrow> eff now (attempt m) s (Inr r) f"
  by (cases "m s") (auto simp: eff_def attempt_def)

lemma eff_try_delete:
  assumes "inv s"
  shows "eff (seconds ms) (try_delete sm ms k) s (Inr ()) (\<lambda>t V. V |` (- {k}))"
proof -
  note d = eff_attempt [OF eff_delete [OF assms, of ms k]]
  show ?thesis unfolding try_delete_def by (rule eff_bind [OF d eff_ok [OF effD(2) [OF d]]])
qed

lemma eff_try_get_info:
  assumes "inv s"
  shows "eff (seconds ms) (try_get_info sm ms k) s (Inr (info_at sm (view (seconds ms) s) k)) (\<lambda>t V. V)"
proof -
  let ?g = "\<lambda>r :: auth_error + string option. ok_s (case r of Inr (Some json) \<Rightarrow> sm_json_decode sm json | _ \<Rightarrow> None)
     :: ('s, auth_error, device_info option) sm"
  note g = eff_attempt [OF eff_get [OF assms, of ms k]]
  have "eff (seconds ms) (bind_s (attempt (get_string sm ms k)) ?g) s
      (Inr (case view (seconds ms) s k of Some json \<Rightarrow> sm_json_decode sm json | None \<Rightarrow> None)) (\<lambda>t V. V)"
    by (rule eff_bind [OF g, where h = "\<lambda>t V. V"])
      (auto intro: eff_ok [OF effD(2) [OF g]] split: option.splits)
  moreover have "info_at sm V k = (case V k of Some json \<Rightarrow> sm_json_decode sm json | None \<Rightarrow> None)" for V
    by (simp add: info_at_def split: option.splits)
  ultimately show ?thesis by (simp add: try_get_info_def)
qed

section \<open>Dropping devices\<close>

lemma eff_drop_key:
  assumes "inv s"
  shows "eff (seconds ms) (drop_device_key sm ms key) s (Inr ())
    (\<lambda>t V. V |` (- dropped sm (view (seconds ms) s) key))"
proof -
  let ?i = "info_at sm (view (seconds ms) s) key"
  note g = eff_try_get_info [OF assms, of ms key]
  let ?R = "case ?i of None \<Rightarrow> {} | Some i \<Rightarrow> {refresh_key (di_rid i)}"
  have d: "eff (seconds ms) (case ?i of Some i \<Rightarrow> try_delete sm ms (refresh_key (di_rid i)) | None \<Rightarrow> ok_s ())
      (snd (try_get_info sm ms key s)) (Inr ()) (\<lambda>t V. V |` (- ?R))"
    using eff_try_delete [OF effD(2) [OF g]] eff_ok [OF effD(2) [OF g]] by (cases ?i) simp_all
  show ?thesis
    unfolding drop_device_key_def
    by (rule eff_cong, rule eff_bind [OF g], rule eff_bind [OF d], rule eff_try_delete [OF effD(2) [OF d]])
      (auto simp: dropped_def restrict_map_def fun_eq_iff split: option.splits)
qed

lemma dropped_later:
  assumes "k' \<noteq> k" "\<And>r. k' \<noteq> refresh_key r"
  shows "dropped sm (V |` (- dropped sm V k)) k' = dropped sm V k'"
proof -
  have "k' \<notin> dropped sm V k" using assms by (auto simp: dropped_def split: option.splits)
  then show ?thesis by (simp add: dropped_def info_at_def)
qed

lemma dropped_again: "dropped sm (V |` (- dropped sm V k)) k \<subseteq> dropped sm V k"
  by (auto simp: dropped_def info_at_def restrict_map_def)

lemma eff_drop_keys:
  "inv s \<Longrightarrow> distinct keys \<Longrightarrow> \<forall>k \<in> set keys. \<forall>r. k \<noteq> refresh_key r \<Longrightarrow>
   eff (seconds ms) (for_s keys (drop_device_key sm ms)) s (Inr ())
     (\<lambda>t V. V |` (- (\<Union>k \<in> set keys. dropped sm (view (seconds ms) s) k)))"
proof (induction keys arbitrary: s)
  case Nil
  then show ?case using eff_ok [OF Nil(1), of "seconds ms" "()"] by simp
next
  case (Cons k keys)
  note d = eff_drop_key [OF Cons.prems(1), of ms k]
  let ?s = "snd (drop_device_key sm ms k s)"
  have v: "view (seconds ms) ?s = view (seconds ms) s |` (- dropped sm (view (seconds ms) s) k)"
    using effD(3) [OF d, of "seconds ms"] by simp
  have same: "dropped sm (view (seconds ms) ?s) k' = dropped sm (view (seconds ms) s) k'" if "k' \<in> set keys" for k'
    unfolding v using that Cons.prems by (intro dropped_later) auto
  have "eff (seconds ms) (for_s keys (drop_device_key sm ms)) ?s (Inr ())
      (\<lambda>t V. V |` (- (\<Union>k \<in> set keys. dropped sm (view (seconds ms) ?s) k)))"
    using Cons.prems by (intro Cons.IH effD(2) [OF d]) auto
  then show ?case
    unfolding for_s.simps
    by (rule eff_cong [OF eff_bind [OF d]]) (auto simp: same restrict_map_def fun_eq_iff)
qed

lemma eff_drop_all:
  assumes "inv s"
  shows "eff (seconds ms) (drop_all_devices sm ms l) s (Inr ())
    (\<lambda>t V. V |` (- (\<Union>k \<in> device_keys l (view (seconds ms) s). dropped sm (view (seconds ms) s) k)))"
proof -
  obtain ks where ks: "eff (seconds ms) (keys_by_prefix sm ms (device_prefix l)) s (Inr ks) (\<lambda>t V. V)"
    "distinct ks" "set ks = device_keys l (view (seconds ms) s)"
    using eff_keys [OF assms, of ms "device_prefix l"] by (auto simp: device_keys_def)
  let ?s = "snd (keys_by_prefix sm ms (device_prefix l) s)"
  have v: "view (seconds ms) ?s = view (seconds ms) s" using effD(3) [OF ks(1), of "seconds ms"] by simp
  have "eff (seconds ms) (for_s ks (drop_device_key sm ms)) ?s (Inr ())
      (\<lambda>t V. V |` (- (\<Union>k \<in> set ks. dropped sm (view (seconds ms) ?s) k)))"
    using ks device_not_refresh by (intro eff_drop_keys effD(2) [OF ks(1)]) auto
  then show ?thesis
    unfolding drop_all_devices_def v ks(3) by (rule eff_bind [OF ks(1)])
qed

section \<open>Denying\<close>

lemma eff_deny:
  "inv s \<Longrightarrow> eff (seconds ms) (deny_old_tokens sm ms l) s (Inr ())
     (\<lambda>t V. V(deny_key l := if lives (access_timeout (sm_config sm)) (t - seconds ms)
                             then Some (deny_refresh_value ms) else None))"
  unfolding deny_old_tokens_def by (rule eff_set)

lemma eff_logout:
  assumes "inv s"
  shows "eff (seconds ms) (logout sm ms l d) s (Inr ())
    (\<lambda>t V. (V |` (- dropped sm (view (seconds ms) s) (device_key l d)))
       (deny_key l := if lives (access_timeout (sm_config sm)) (t - seconds ms) then Some (deny_refresh_value ms) else None))"
proof -
  note d = eff_drop_key [OF assms, of ms "device_key l d"]
  show ?thesis
    unfolding logout_def cleanup_device_def by (rule eff_bind [OF d]) (rule eff_deny [OF effD(2) [OF d]])
qed

lemma eff_ban:
  assumes "inv s"
  shows "eff (seconds ms) (ban_user sm ms l) s (Inr ())
    (\<lambda>t V. (V |` (- (\<Union>k \<in> device_keys l (view (seconds ms) s). dropped sm (view (seconds ms) s) k)))
       (deny_key l := if lives (365 * 24 * 3600) (t - seconds ms) then Some ''banned'' else None))"
proof -
  note d = eff_drop_all [OF assms, of ms l]
  show ?thesis
    unfolding ban_user_def by (rule eff_bind [OF d]) (rule eff_set [OF effD(2) [OF d]])
qed

lemma eff_logout_all:
  assumes "inv s"
  shows "eff (seconds ms) (logout_all sm ms l) s (Inr ())
    (\<lambda>t V. (V |` (- (\<Union>k \<in> device_keys l (view (seconds ms) s). dropped sm (view (seconds ms) s) k)))
       (deny_key l := if lives (access_timeout (sm_config sm)) (t - seconds ms) then Some (deny_refresh_value ms) else None))"
proof -
  note d = eff_drop_all [OF assms, of ms l]
  show ?thesis
    unfolding logout_all_def by (rule eff_bind [OF d]) (rule eff_deny [OF effD(2) [OF d]])
qed

section \<open>The device policy\<close>

definition infos :: "(string \<rightharpoonup> string) \<Rightarrow> string list \<Rightarrow> (string \<times> device_info) list" where
  "infos V keys = List.map_filter (\<lambda>k. map_option (Pair k) (info_at sm V k)) keys"

lemma infos_simps [simp]:
  "infos V [] = []"
  "infos V (k # ks) = (case info_at sm V k of Some i \<Rightarrow> (k, i) # infos V ks | None \<Rightarrow> infos V ks)"
  by (simp_all add: infos_def map_filter_def split: option.splits)

lemma infos_set: "(k, i) \<in> set (infos V ks) \<longleftrightarrow> k \<in> set ks \<and> info_at sm V k = Some i"
  by (induction ks) (auto split: option.splits)

lemma infos_distinct: "distinct ks \<Longrightarrow> distinct (map fst (infos V ks))"
  by (induction ks) (auto simp: infos_set split: option.splits)

lemma infos_length: "\<forall>k \<in> set ks. info_at sm V k \<noteq> None \<Longrightarrow> length (infos V ks) = length ks"
  by (induction ks) (auto split: option.splits)

lemma eff_collect:
  "inv s \<Longrightarrow> eff (seconds ms) (collect_devices sm ms keys) s (Inr (infos (view (seconds ms) s) keys)) (\<lambda>t V. V)"
proof (induction keys arbitrary: s)
  case Nil
  then show ?case by (simp add: eff_ok)
next
  case (Cons k keys)
  note g = eff_try_get_info [OF Cons.prems, of ms k]
  note c = Cons.IH [OF effD(2) [OF g]]
  have v: "view (seconds ms) (snd (try_get_info sm ms k s)) = view (seconds ms) s"
    using effD(3) [OF g, of "seconds ms"] by simp
  have e: "eff (seconds ms) (ok_s x) (snd (collect_devices sm ms keys (snd (try_get_info sm ms k s)))) (Inr x) (\<lambda>t V. V)" for x
    by (rule eff_ok [OF effD(2) [OF c]])
  show ?case
    unfolding collect_devices.simps
    by (rule eff_cong, rule eff_bind [OF g], rule eff_bind [OF c])
      (auto simp: v intro: e split: option.splits)
qed

lemma eff_evict:
  "inv s \<Longrightarrow> eff (seconds ms) (evict_devices sm ms victims) s (Inr ())
     (\<lambda>t V. V |` (- (\<Union>(k, i) \<in> set victims. {k, refresh_key (di_rid i)})))"
proof (induction victims arbitrary: s)
  case Nil
  then show ?case by (simp add: evict_devices_def eff_ok)
next
  case (Cons v victims)
  obtain k i where v: "v = (k, i)" by (cases v) auto
  note a = eff_try_delete [OF Cons.prems, of ms "refresh_key (di_rid i)"]
  note b = eff_try_delete [OF effD(2) [OF a], of ms k]
  note ab = eff_bind [OF a, where g = "\<lambda>_. try_delete sm ms k", OF b]
  note c = Cons.IH [OF effD(2) [OF ab]]
  show ?case
    unfolding evict_devices_def for_s.simps v prod.case
    by (rule eff_cong, rule eff_bind [OF ab], rule c [unfolded evict_devices_def])
      (auto simp: restrict_map_def fun_eq_iff)
qed

text \<open>What the device limit evicts: enough of the user's devices, and the oldest ones.\<close>

definition evicts :: "login_id \<Rightarrow> (string \<rightharpoonup> string) \<Rightarrow> (string \<times> device_info) list \<Rightarrow> bool" where
  "evicts l V victims \<longleftrightarrow>
     distinct (map fst victims)
     \<and> (\<forall>(k, i) \<in> set victims. k \<in> device_keys l V \<and> info_at sm V k = Some i)
     \<and> (\<forall>(k, i) \<in> set victims. \<forall>k' \<in> device_keys l V - fst ` set victims. \<forall>i'. info_at sm V k' = Some i' \<longrightarrow>
          di_login_time i \<le> di_login_time i')
     \<and> (0 < max_devices (sm_config sm) \<and> (\<forall>k \<in> device_keys l V. info_at sm V k \<noteq> None) \<longrightarrow>
          card (device_keys l V) < max_devices (sm_config sm) + length victims)"

lemma evicts_take:
  assumes ks: "distinct ks" "set ks = device_keys l V" and cap: "cap = max_devices (sm_config sm)" "0 < cap"
  defines "devs \<equiv> sort_key (\<lambda>(_, info). di_login_time info) (infos V ks)"
  shows "evicts l V (take (length devs + 1 - cap) devs)"
proof -
  let ?n = "length devs + 1 - cap"
  have set_devs: "set devs = set (infos V ks)" by (simp add: devs_def)
  have d: "distinct (map fst devs)"
    using infos_distinct [OF ks(1), of V] by (simp add: devs_def distinct_map)
  have sorted: "sorted (map (\<lambda>(_, info). di_login_time info) devs)" by (simp add: devs_def)
  have old: "di_login_time i \<le> di_login_time i'"
    if "(k, i) \<in> set (take ?n devs)" "(k', i') \<in> set (drop ?n devs)" for k i k' i'
  proof -
    have "sorted (map (\<lambda>(_, info). di_login_time info) (take ?n devs @ drop ?n devs))" using sorted by simp
    then show ?thesis using that unfolding map_append sorted_append by force
  qed
  have "set devs = set (take ?n devs) \<union> set (drop ?n devs)" by (metis append_take_drop_id set_append)
  then have rest: "(k', i') \<in> set (drop ?n devs)"
    if "k' \<in> device_keys l V - fst ` set (take ?n devs)" "info_at sm V k' = Some i'" for k' i'
    using that infos_set [of k' i' V ks] ks(2) set_devs by (auto simp: image_iff)
  have inn: "k \<in> device_keys l V \<and> info_at sm V k = Some i" if "(k, i) \<in> set (take ?n devs)" for k i
    using in_set_takeD [OF that] set_devs infos_set [of k i V ks] ks(2) by simp
  have "card (device_keys l V) < cap + length (take ?n devs)" if "\<forall>k \<in> device_keys l V. info_at sm V k \<noteq> None"
  proof -
    have "length devs = length ks" using infos_length that ks(2) by (simp add: devs_def)
    moreover have "card (device_keys l V) = length ks" using distinct_card [OF ks(1)] ks(2) by simp
    ultimately show ?thesis using cap by simp
  qed
  moreover have "distinct (map fst (take ?n devs))" using d by (simp add: take_map [symmetric])
  ultimately show ?thesis using old rest inn cap unfolding evicts_def by fast
qed

definition victim_keys :: "(string \<times> device_info) list \<Rightarrow> string set" where
  "victim_keys victims = (\<Union>(k, i) \<in> set victims. {k, refresh_key (di_rid i)})"

lemma evicts_nil: "max_devices (sm_config sm) = 0 \<or> card (device_keys l V) < max_devices (sm_config sm) \<Longrightarrow> evicts l V []"
  by (auto simp: evicts_def)

lemma eff_enforce:
  assumes "inv s"
  shows "\<exists>victims. evicts l (view (seconds ms) s) victims \<and>
    eff (seconds ms) (enforce_max_devices sm ms l) s (Inr ()) (\<lambda>t V. V |` (- victim_keys victims))"
proof (cases "max_devices (sm_config sm) = 0")
  case True
  then show ?thesis
    using eff_ok [OF assms] by (intro exI [of _ "[]"]) (simp add: evicts_nil victim_keys_def enforce_max_devices_def)
next
  case False
  let ?V = "view (seconds ms) s" and ?cap = "max_devices (sm_config sm)"
  obtain ks where k: "eff (seconds ms) (keys_by_prefix sm ms (device_prefix l)) s (Inr ks) (\<lambda>t V. V)"
    "distinct ks" "set ks = device_keys l ?V"
    using eff_keys [OF assms, of ms "device_prefix l"] by (auto simp: device_keys_def)
  have v: "view (seconds ms) (snd (keys_by_prefix sm ms (device_prefix l) s)) = ?V"
    using effD(3) [OF k(1), of "seconds ms"] by simp
  show ?thesis
  proof (cases "?cap \<le> length ks")
    case full: True
    let ?devs = "sort_key (\<lambda>(_, info). di_login_time info) (infos ?V ks)"
    let ?vs = "take (length ?devs + 1 - ?cap) ?devs"
    note c = eff_collect [OF effD(2) [OF k(1)], of ms ks, unfolded v]
    have "eff (seconds ms) (enforce_max_devices sm ms l) s (Inr ()) (\<lambda>t V. V |` (- victim_keys ?vs))"
      unfolding enforce_max_devices_def Let_def if_not_P [OF False] victim_keys_def
      by (rule eff_bind [OF k(1)]) (unfold if_P [OF full], rule eff_bind [OF c], rule eff_evict [OF effD(2) [OF c]])
    then show ?thesis using evicts_take [OF k(2,3) refl] False by blast
  next
    case few: False
    have "card (device_keys l ?V) = length ks" using distinct_card [OF k(2)] k(3) by simp
    moreover have "eff (seconds ms) (enforce_max_devices sm ms l) s (Inr ()) (\<lambda>t V. V |` (- victim_keys []))"
      unfolding enforce_max_devices_def Let_def if_not_P [OF False]
      by (rule eff_cong, rule eff_bind [OF k(1)], unfold if_not_P [OF few], rule eff_ok [OF effD(2) [OF k(1)]])
        (simp add: victim_keys_def)
    ultimately show ?thesis using few evicts_nil by (metis not_le)
  qed
qed

text \<open>The keys the first half of the policy drops: this device, or every device of the user.\<close>

definition policy_drops :: "login_id \<Rightarrow> device_type \<Rightarrow> (string \<rightharpoonup> string) \<Rightarrow> string set" where
  "policy_drops l d V =
     (if concurrent_login (sm_config sm) then dropped sm V (device_key l d)
      else (\<Union>k \<in> device_keys l V. dropped sm V k))"

lemma for_s_cong: "(\<And>x. x \<in> set xs \<Longrightarrow> f x = g x) \<Longrightarrow> for_s xs f = for_s xs g"
  by (induction xs) auto

lemma eff_policy_first:
  assumes "inv s"
  shows "eff (seconds ms)
    (if concurrent_login (sm_config sm) then cleanup_device sm ms l d
     else bind_s (keys_by_prefix sm ms (device_prefix l))
       (\<lambda>keys. for_s keys (\<lambda>key. case parse_device_from_key key l of
                                    Some d' \<Rightarrow> cleanup_device sm ms l d' | None \<Rightarrow> ok_s ())))
    s (Inr ()) (\<lambda>t V. V |` (- policy_drops l d (view (seconds ms) s)))"
proof (cases "concurrent_login (sm_config sm)")
  case True
  then show ?thesis using eff_drop_key [OF assms] by (simp add: cleanup_device_def policy_drops_def)
next
  case False
  let ?body = "\<lambda>key. case parse_device_from_key key l of Some d' \<Rightarrow> cleanup_device sm ms l d' | None \<Rightarrow> ok_s ()"
  obtain ks where k: "eff (seconds ms) (keys_by_prefix sm ms (device_prefix l)) s (Inr ks) (\<lambda>t V. V)"
    "distinct ks" "set ks = device_keys l (view (seconds ms) s)"
    using eff_keys [OF assms, of ms "device_prefix l"] by (auto simp: device_keys_def)
  have "?body key = drop_device_key sm ms key" if "key \<in> set ks" for key
  proof -
    from that k(3) obtain x where "key = device_prefix l @ x" by (auto simp: device_keys_def prefix_def)
    then show ?thesis by (simp add: cleanup_device_def device_key_prefix)
  qed
  then have "for_s ks ?body = for_s ks (drop_device_key sm ms)" by (rule for_s_cong)
  moreover have "view (seconds ms) (snd (keys_by_prefix sm ms (device_prefix l) s)) = view (seconds ms) s"
    using effD(3) [OF k(1), of "seconds ms"] by simp
  ultimately have "eff (seconds ms) (for_s ks ?body) (snd (keys_by_prefix sm ms (device_prefix l) s)) (Inr ())
      (\<lambda>t V. V |` (- policy_drops l d (view (seconds ms) s)))"
    using eff_drop_keys [OF effD(2) [OF k(1)] k(2), of ms] device_not_refresh k(3) False
    by (auto simp: policy_drops_def)
  then show ?thesis using False by (simp add: eff_bind [OF k(1)])
qed

lemma eff_policy:
  assumes i: "inv s" and V1: "V1 = view (seconds ms) s |` (- policy_drops l d (view (seconds ms) s))"
  shows "\<exists>victims. evicts l V1 victims \<and>
    eff (seconds ms) (handle_device_policy sm ms l d) s (Inr ())
      (\<lambda>t V. V |` (- (policy_drops l d (view (seconds ms) s) \<union> victim_keys victims)))"
proof -
  note p = eff_policy_first [OF i, of ms l d]
  obtain vs where vs: "evicts l V1 vs"
    "eff (seconds ms) (enforce_max_devices sm ms l)
       (snd ((if concurrent_login (sm_config sm) then cleanup_device sm ms l d
              else bind_s (keys_by_prefix sm ms (device_prefix l))
                (\<lambda>keys. for_s keys (\<lambda>key. case parse_device_from_key key l of
                   Some d' \<Rightarrow> cleanup_device sm ms l d' | None \<Rightarrow> ok_s ()))) s))
       (Inr ()) (\<lambda>t V. V |` (- victim_keys vs))"
    using eff_enforce [OF effD(2) [OF p], of l ms] effD(3) [OF p, of "seconds ms"] unfolding V1 by auto
  have "eff (seconds ms) (handle_device_policy sm ms l d) s (Inr ())
      (\<lambda>t V. V |` (- (policy_drops l d (view (seconds ms) s) \<union> victim_keys vs)))"
    unfolding handle_device_policy_def
    by (rule eff_cong, rule eff_bind [OF p], rule vs(2)) (auto simp: restrict_map_def fun_eq_iff)
  then show ?thesis using vs(1) by blast
qed

section \<open>Login\<close>

lemma eff_store_device:
  assumes "inv s" and "sm_json_encode sm \<lparr>di_rid = rid, di_login_time = ms, di_login_ip = ip, di_user_agent = ua\<rparr> = Inr json"
  shows "eff (seconds ms) (store_device_info sm ms l d rid ip ua) s (Inr ())
    (\<lambda>t V. V(device_key l d := if lives (refresh_timeout (sm_config sm)) (t - seconds ms) then Some json else None))"
  unfolding store_device_info_def Let_def
  by (rule eff_bind_lift [where x = json]) (simp_all add: assms map_err_def eff_set)

lemma eff_login:
  assumes i: "inv s" and l: "lp_login_id p = l" "lp_device p = d"
    and a: "encode_access (sm_jwt sm) (sm_config sm) (seconds ms) l d (lp_profile p)
              (encode_permissions sm (lp_profile p)) (access_timeout (sm_config sm)) = Inr (atok, ac)"
    and r: "encode_refresh (sm_jwt sm) (seconds ms) uuid l (refresh_timeout (sm_config sm)) = Inr (rtok, rc)"
    and j: "sm_json_encode sm \<lparr>di_rid = uuid, di_login_time = ms, di_login_ip = lp_login_ip p,
              di_user_agent = lp_user_agent p\<rparr> = Inr json"
    and V1: "V1 = view (seconds ms) s |` (- policy_drops l d (view (seconds ms) s))"
  shows "\<exists>victims. evicts l V1 victims \<and>
    eff (seconds ms) (login sm ms uuid p) s
      (Inr \<lparr>access_token = atok, refresh_token = rtok, expires_in = access_timeout (sm_config sm)\<rparr>)
      (\<lambda>t V. (V |` (- (policy_drops l d (view (seconds ms) s) \<union> victim_keys victims)))
         (refresh_key uuid := if lives (refresh_timeout (sm_config sm)) (t - seconds ms) then Some (refresh_value l d) else None,
          device_key l d := if lives (refresh_timeout (sm_config sm)) (t - seconds ms) then Some json else None))"
proof -
  obtain vs where vs: "evicts l V1 vs" and p: "eff (seconds ms) (handle_device_policy sm ms l d) s (Inr ())
      (\<lambda>t V. V |` (- (policy_drops l d (view (seconds ms) s) \<union> victim_keys vs)))"
    using eff_policy [OF i V1] by blast
  have rid: "rc_rid rc = uuid" using encode_refresh_Inr(1) [OF r] by simp
  note w = eff_set [OF effD(2) [OF p], of ms "refresh_key uuid" "refresh_value l d" "refresh_timeout (sm_config sm)"]
  note x = eff_store_device [OF effD(2) [OF w] j, of l d]
  show ?thesis
    unfolding login_def l Let_def
    by (intro exI [of _ vs] conjI vs, rule eff_cong, rule eff_bind [OF p], rule eff_bind_lift [OF a], unfold prod.case,
        rule eff_bind_lift [OF r], unfold prod.case rid, rule eff_bind [OF w], rule eff_bind [OF x],
        rule eff_ok [OF effD(2) [OF x]]) (rule refl)
qed

text \<open>The number of sessions after a login stays within the limit.\<close>

lemma card_after_evict:
  assumes "evicts l V victims" "0 < max_devices (sm_config sm)" "\<forall>k \<in> device_keys l V. info_at sm V k \<noteq> None"
    and "finite (device_keys l V)"
  shows "card (device_keys l (V |` (- victim_keys victims))) < max_devices (sm_config sm)"
proof -
  have v: "fst ` set victims \<subseteq> device_keys l V" "distinct (map fst victims)"
    "card (device_keys l V) < max_devices (sm_config sm) + length victims"
    using assms by (auto simp: evicts_def)
  have c: "card (fst ` set victims) = length victims" using distinct_card [OF v(2)] by simp
  have "fst ` set victims \<subseteq> victim_keys victims" by (force simp: victim_keys_def)
  then have "device_keys l (V |` (- victim_keys victims)) \<subseteq> device_keys l V - fst ` set victims"
    by (auto simp: device_keys_def restrict_map_def)
  then have "card (device_keys l (V |` (- victim_keys victims))) \<le> card (device_keys l V - fst ` set victims)"
    using assms(4) by (simp add: card_mono)
  also have "\<dots> = card (device_keys l V) - length victims"
    using v(1) assms(4) c by (simp add: card_Diff_subset finite_subset)
  finally show ?thesis using v(3) card_mono [OF assms(4) v(1)] c assms(2) by linarith
qed

section \<open>Refresh\<close>

lemma bind_s_Inr:
  assumes "fst (bind_s m g s) = Inr y"
  obtains x where "fst (m s) = Inr x" "bind_s m g s = g x (snd (m s))" "fst (g x (snd (m s))) = Inr y"
  using assms by (cases "m s") (auto simp: bind_s_def split: sum.splits)

lemma bind_lift_Inr:
  assumes "fst (bind_s (lift_r r) g s) = Inr y"
  obtains x where "r = Inr x" "bind_s (lift_r r) g s = g x s" "fst (g x s) = Inr y"
  using assms by (auto simp: bind_s_def lift_r_def split: sum.splits)

lemma update_rid_frame:
  assumes "inv s"
  shows "\<exists>f. eff (seconds ms) (update_device_rid sm ms l d rid) s (Inr ()) f \<and>
    (\<forall>t V k. k \<noteq> device_key l d \<longrightarrow> f t V k = V k)"
proof -
  note g = eff_try_get_info [OF assms, of ms "device_key l d"]
  let ?s = "snd (try_get_info sm ms (device_key l d) s)"
  let ?m = "\<lambda>info. case info of None \<Rightarrow> ok_s () | Some i \<Rightarrow>
      (case sm_json_encode sm (i\<lparr>di_rid := rid\<rparr>) of Inl _ \<Rightarrow> ok_s ()
       | Inr json \<Rightarrow> bind_s (attempt (set_string sm ms (device_key l d) json (refresh_timeout (sm_config sm)))) (\<lambda>_. ok_s ()))"
  have "\<exists>f. eff (seconds ms) (?m info) ?s (Inr ()) f \<and> (\<forall>t V k. k \<noteq> device_key l d \<longrightarrow> f t V k = V k)" for info
  proof (cases "\<exists>i json. info = Some i \<and> sm_json_encode sm (i\<lparr>di_rid := rid\<rparr>) = Inr json")
    case True
    then obtain i json where ij: "info = Some i" "sm_json_encode sm (i\<lparr>di_rid := rid\<rparr>) = Inr json" by blast
    note w = eff_attempt [OF eff_set [OF effD(2) [OF g], of ms "device_key l d" json "refresh_timeout (sm_config sm)"]]
    from eff_bind [OF w, where g = "\<lambda>_. ok_s ()", OF eff_ok [OF effD(2) [OF w]]] show ?thesis
      unfolding ij option.case sum.case by (intro exI conjI) (assumption, simp)
  next
    case False
    then have "(?m info :: ('s, auth_error, unit) sm) = ok_s ()" by (auto split: option.splits sum.splits)
    then show ?thesis using eff_ok [OF effD(2) [OF g], of "seconds ms" "()"] by (intro exI conjI) auto
  qed
  then obtain f where f: "eff (seconds ms) (?m (info_at sm (view (seconds ms) s) (device_key l d))) ?s (Inr ()) f"
    "\<forall>t V k. k \<noteq> device_key l d \<longrightarrow> f t V k = V k" by blast
  have "eff (seconds ms) (update_device_rid sm ms l d rid) s (Inr ()) f"
    unfolding update_device_rid_def Let_def by (rule eff_cong, rule eff_bind [OF g], rule f(1)) simp
  then show ?thesis using f(2) by blast
qed

text \<open>What the first steps of a refresh answer, read off the store.\<close>

definition lookup_result ::
  "int \<Rightarrow> string \<Rightarrow> (string \<rightharpoonup> string) \<Rightarrow> auth_error + (refresh_claims \<times> login_id \<times> device_type)" where
  "lookup_result ms tok V =
     bind_r (decode_refresh (sm_jwt sm) (seconds ms) tok)
       (\<lambda>rc. bind_r (ok_or InvalidRefreshToken (login_decode (rc_sub rc)))
         (\<lambda>l. bind_r (ok_or InvalidRefreshToken (V (refresh_key (rc_rid rc))))
           (\<lambda>rv. bind_r (ok_or InvalidRefreshToken (rsplit_once CHR '':'' rv))
             (\<lambda>(_, dev). if V (deny_key l) = Some ''banned'' then Inl AccountBanned else Inr (rc, l, device_of dev)))))"

lemma eff_bind_lift_r:
  "(\<And>x. r = Inr x \<Longrightarrow> eff now (g x) s (h x) (\<lambda>t V. V)) \<Longrightarrow> inv s \<Longrightarrow>
   eff now (bind_s (lift_r r) g) s (bind_r r h) (\<lambda>t V. V)"
  by (cases r) (auto simp: eff_def bind_s_def lift_r_def bind_r_def)

lemma eff_lookup:
  assumes "inv s"
  shows "eff (seconds ms) (refresh_lookup sm ms tok) s (lookup_result ms tok (view (seconds ms) s)) (\<lambda>t V. V)"
  unfolding refresh_lookup_def lookup_result_def
proof (intro eff_bind_lift_r assms)
  fix rc :: refresh_claims and l :: login_id
  note g = eff_get [OF assms, of ms "refresh_key (rc_rid rc)"]
  let ?s = "snd (get_string sm ms (refresh_key (rc_rid rc)) s)"
  have v: "view (seconds ms) ?s = view (seconds ms) s" using effD(3) [OF g, of "seconds ms"] by simp
  show "eff (seconds ms)
     (bind_s (get_string sm ms (refresh_key (rc_rid rc)))
       (\<lambda>v. bind_s (lift_r (ok_or InvalidRefreshToken v))
         (\<lambda>rv. bind_s (lift_r (ok_or InvalidRefreshToken (rsplit_once CHR '':'' rv)))
           (\<lambda>(_, dev). bind_s (get_string sm ms (deny_key l))
             (\<lambda>deny. if deny = Some ''banned'' then err_s AccountBanned else ok_s (rc, l, device_of dev))))))
     s
     (bind_r (ok_or InvalidRefreshToken (view (seconds ms) s (refresh_key (rc_rid rc))))
       (\<lambda>rv. bind_r (ok_or InvalidRefreshToken (rsplit_once CHR '':'' rv))
         (\<lambda>(_, dev). if view (seconds ms) s (deny_key l) = Some ''banned'' then Inl AccountBanned
                     else Inr (rc, l, device_of dev))))
     (\<lambda>t V. V)"
  proof (rule eff_bind [OF g, where h = "\<lambda>t V. V"], intro eff_bind_lift_r effD(2) [OF g])
    fix rv :: string and p :: "string \<times> string"
    note d = eff_get [OF effD(2) [OF g], of ms "deny_key l", unfolded v]
    have "eff (seconds ms) (if view (seconds ms) s (deny_key l) = Some ''banned'' then err_s AccountBanned
          else ok_s (rc, l, device_of (snd p))) (snd (get_string sm ms (deny_key l) ?s))
        (if view (seconds ms) s (deny_key l) = Some ''banned'' then Inl AccountBanned else Inr (rc, l, device_of (snd p)))
        (\<lambda>t V. V)"
      using effD(2) [OF d] by (simp add: eff_def err_s_def ok_s_def)
    note this = eff_bind [OF d, where h = "\<lambda>t V. V", of
        "\<lambda>deny. if deny = Some ''banned'' then err_s AccountBanned else ok_s (rc, l, device_of (snd p))", OF this]
    then show "eff (seconds ms)
        (case p of (_, dev) \<Rightarrow> bind_s (get_string sm ms (deny_key l))
           (\<lambda>deny. if deny = Some ''banned'' then err_s AccountBanned else ok_s (rc, l, device_of dev))) ?s
        (case p of (_, dev) \<Rightarrow> if view (seconds ms) s (deny_key l) = Some ''banned'' then Inl AccountBanned
                                else Inr (rc, l, device_of dev)) (\<lambda>t V. V)"
      by (cases p) (simp only: prod.case snd_conv)
  qed
qed

lemma eff_issue:
  assumes "inv s"
    and a: "encode_access (sm_jwt sm) (sm_config sm) (seconds ms) l d profile (encode_permissions sm profile)
              (access_timeout (sm_config sm)) = Inr (atok, ac)"
    and r: "encode_refresh (sm_jwt sm) (seconds ms) uuid l (refresh_timeout (sm_config sm)) = Inr (rtok, nrc)"
  shows "\<exists>f. eff (seconds ms) (refresh_issue sm ms uuid profile rc l d) s
      (Inr \<lparr>access_token = atok, refresh_token = rtok, expires_in = access_timeout (sm_config sm)\<rparr>) f \<and>
    (\<forall>t V k. k \<noteq> device_key l d \<longrightarrow> f t V k =
       (if k = refresh_key (rc_rid rc) then None
        else if k = refresh_key uuid then (if lives (refresh_timeout (sm_config sm)) (t - seconds ms)
                                           then Some (refresh_value l d) else None)
        else V k))"
proof -
  have rid: "rc_rid nrc = uuid" using encode_refresh_Inr(1) [OF r] by simp
  note w = eff_set [OF assms(1), of ms "refresh_key uuid" "refresh_value l d" "refresh_timeout (sm_config sm)"]
  note x = eff_try_delete [OF effD(2) [OF w], of ms "refresh_key (rc_rid rc)"]
  obtain f where f: "eff (seconds ms) (update_device_rid sm ms l d uuid)
      (snd (try_delete sm ms (refresh_key (rc_rid rc)) (snd (set_string sm ms (refresh_key uuid) (refresh_value l d)
        (refresh_timeout (sm_config sm)) s)))) (Inr ()) f" "\<forall>t V k. k \<noteq> device_key l d \<longrightarrow> f t V k = V k"
    using update_rid_frame [OF effD(2) [OF x], of ms l d uuid] by blast
  show ?thesis
    unfolding refresh_issue_def Let_def
    by (intro exI conjI, rule eff_bind_lift [OF a], unfold prod.case, rule eff_bind_lift [OF r], unfold prod.case rid,
        rule eff_bind [OF w], rule eff_bind [OF x], rule eff_bind [OF f(1)], rule eff_ok [OF effD(2) [OF f(1)]])
      (auto simp: f(2) restrict_map_def)
qed

lemma issue_Inr:
  assumes "fst (refresh_issue sm ms uuid profile rc l d s) = Inr tp"
  shows "\<exists>ac nrc. encode_access (sm_jwt sm) (sm_config sm) (seconds ms) l d profile (encode_permissions sm profile)
      (access_timeout (sm_config sm)) = Inr (access_token tp, ac)
    \<and> encode_refresh (sm_jwt sm) (seconds ms) uuid l (refresh_timeout (sm_config sm)) = Inr (refresh_token tp, nrc)"
proof -
  obtain p where p: "encode_access (sm_jwt sm) (sm_config sm) (seconds ms) l d profile (encode_permissions sm profile)
      (access_timeout (sm_config sm)) = Inr p"
    and ok: "fst ((case p of (atok, _) \<Rightarrow>
        bind_s (lift_r (encode_refresh (sm_jwt sm) (seconds ms) uuid l (refresh_timeout (sm_config sm))))
          (\<lambda>(rtok, nrc). bind_s (set_string sm ms (refresh_key (rc_rid nrc)) (refresh_value l d) (refresh_timeout (sm_config sm)))
            (\<lambda>_. bind_s (try_delete sm ms (refresh_key (rc_rid rc)))
              (\<lambda>_. bind_s (update_device_rid sm ms l d (rc_rid nrc))
                (\<lambda>_. ok_s \<lparr>access_token = atok, refresh_token = rtok, expires_in = access_timeout (sm_config sm)\<rparr>))))) s)
      = Inr tp"
    using assms unfolding refresh_issue_def Let_def by (elim bind_lift_Inr) blast
  obtain atok ac where pa: "p = (atok, ac)" by (cases p) auto
  obtain q where q: "encode_refresh (sm_jwt sm) (seconds ms) uuid l (refresh_timeout (sm_config sm)) = Inr q"
    and ok2: "fst ((case q of (rtok, nrc) \<Rightarrow>
        bind_s (set_string sm ms (refresh_key (rc_rid nrc)) (refresh_value l d) (refresh_timeout (sm_config sm)))
            (\<lambda>_. bind_s (try_delete sm ms (refresh_key (rc_rid rc)))
              (\<lambda>_. bind_s (update_device_rid sm ms l d (rc_rid nrc))
                (\<lambda>_. ok_s \<lparr>access_token = atok, refresh_token = rtok, expires_in = access_timeout (sm_config sm)\<rparr>)))) s)
      = Inr tp"
    using ok unfolding pa prod.case by (elim bind_lift_Inr) blast
  obtain rtok nrc where qa: "q = (rtok, nrc)" by (cases q) auto
  have "tp = \<lparr>access_token = atok, refresh_token = rtok, expires_in = access_timeout (sm_config sm)\<rparr>"
    using ok2 unfolding qa prod.case by (elim bind_s_Inr) (simp add: ok_s_def)
  then show ?thesis using p q by (simp add: pa qa)
qed

text \<open>A successful refresh: what it found in the store, and what it leaves there.\<close>

lemma refresh_Inr:
  assumes i: "inv s" and ok: "fst (refresh sm ms uuid tok profile s) = Inr tp"
  shows "\<exists>rc l d. lookup_result ms tok (view (seconds ms) s) = Inr (rc, l, d)
    \<and> inv (snd (refresh sm ms uuid tok profile s))
    \<and> (\<exists>ac nrc. encode_access (sm_jwt sm) (sm_config sm) (seconds ms) l d profile (encode_permissions sm profile)
           (access_timeout (sm_config sm)) = Inr (access_token tp, ac)
       \<and> encode_refresh (sm_jwt sm) (seconds ms) uuid l (refresh_timeout (sm_config sm)) = Inr (refresh_token tp, nrc))
    \<and> (\<forall>t k. seconds ms \<le> t \<longrightarrow> k \<noteq> device_key l d \<longrightarrow> view t (snd (refresh sm ms uuid tok profile s)) k =
         (if k = refresh_key (rc_rid rc) then None
          else if k = refresh_key uuid then (if lives (refresh_timeout (sm_config sm)) (t - seconds ms)
                                             then Some (refresh_value l d) else None)
          else view t s k))"
proof -
  note e = eff_lookup [OF i, of ms tok]
  from ok obtain x where "fst (refresh_lookup sm ms tok s) = Inr x"
    and x: "refresh sm ms uuid tok profile s = (case x of (rc, l, d) \<Rightarrow> refresh_issue sm ms uuid profile rc l d)
               (snd (refresh_lookup sm ms tok s))"
    unfolding refresh_def by (elim bind_s_Inr) blast
  then have look: "lookup_result ms tok (view (seconds ms) s) = Inr x" using effD(1) [OF e] by simp
  obtain rc l d where xa: "x = (rc, l, d)" by (cases x) auto
  let ?s = "snd (refresh_lookup sm ms tok s)"
  have r: "refresh sm ms uuid tok profile s = refresh_issue sm ms uuid profile rc l d ?s" using x xa by simp
  obtain ac nrc where enc: "encode_access (sm_jwt sm) (sm_config sm) (seconds ms) l d profile (encode_permissions sm profile)
           (access_timeout (sm_config sm)) = Inr (access_token tp, ac)"
    "encode_refresh (sm_jwt sm) (seconds ms) uuid l (refresh_timeout (sm_config sm)) = Inr (refresh_token tp, nrc)"
    using issue_Inr ok r by metis
  obtain f where f: "inv (snd (refresh_issue sm ms uuid profile rc l d ?s))"
    "\<forall>t. seconds ms \<le> t \<longrightarrow> view t (snd (refresh_issue sm ms uuid profile rc l d ?s)) = f t (view t ?s)"
    "\<forall>t V k. k \<noteq> device_key l d \<longrightarrow> f t V k =
       (if k = refresh_key (rc_rid rc) then None
        else if k = refresh_key uuid then (if lives (refresh_timeout (sm_config sm)) (t - seconds ms)
                                           then Some (refresh_value l d) else None)
        else V k)"
    using eff_issue [OF effD(2) [OF e] enc, of rc] by (auto simp: eff_def)
  have "view t ?s = view t s" if "seconds ms \<le> t" for t using effD(3) [OF e that] .
  then show ?thesis using look enc f by (intro exI [of _ rc] exI [of _ l] exI [of _ d]) (auto simp: r xa)
qed

lemma login_Inr:
  assumes "inv s" "fst (login sm ms uuid p s) = Inr tp"
  shows "\<exists>ac rc. encode_access (sm_jwt sm) (sm_config sm) (seconds ms) (lp_login_id p) (lp_device p) (lp_profile p)
      (encode_permissions sm (lp_profile p)) (access_timeout (sm_config sm)) = Inr (access_token tp, ac)
    \<and> encode_refresh (sm_jwt sm) (seconds ms) uuid (lp_login_id p) (refresh_timeout (sm_config sm)) = Inr (refresh_token tp, rc)"
proof -
  obtain s' where x: "fst (bind_s (lift_r (encode_access (sm_jwt sm) (sm_config sm) (seconds ms) (lp_login_id p) (lp_device p)
        (lp_profile p) (encode_permissions sm (lp_profile p)) (access_timeout (sm_config sm))))
      (\<lambda>(atok, _). bind_s (lift_r (encode_refresh (sm_jwt sm) (seconds ms) uuid (lp_login_id p) (refresh_timeout (sm_config sm))))
        (\<lambda>(rtok, rclaims).
          bind_s (set_string sm ms (refresh_key (rc_rid rclaims)) (refresh_value (lp_login_id p) (lp_device p)) (refresh_timeout (sm_config sm)))
            (\<lambda>_. bind_s (store_device_info sm ms (lp_login_id p) (lp_device p) (rc_rid rclaims) (lp_login_ip p) (lp_user_agent p))
              (\<lambda>_. ok_s \<lparr>access_token = atok, refresh_token = rtok, expires_in = access_timeout (sm_config sm)\<rparr>)))) s')
      = Inr tp"
    by (rule bind_s_Inr [OF assms(2) [unfolded login_def Let_def]], rule that, assumption)
  obtain p' where p': "encode_access (sm_jwt sm) (sm_config sm) (seconds ms) (lp_login_id p) (lp_device p)
        (lp_profile p) (encode_permissions sm (lp_profile p)) (access_timeout (sm_config sm)) = Inr p'"
    and y: "fst ((case p' of (atok, _) \<Rightarrow>
        bind_s (lift_r (encode_refresh (sm_jwt sm) (seconds ms) uuid (lp_login_id p) (refresh_timeout (sm_config sm))))
        (\<lambda>(rtok, rclaims).
          bind_s (set_string sm ms (refresh_key (rc_rid rclaims)) (refresh_value (lp_login_id p) (lp_device p)) (refresh_timeout (sm_config sm)))
            (\<lambda>_. bind_s (store_device_info sm ms (lp_login_id p) (lp_device p) (rc_rid rclaims) (lp_login_ip p) (lp_user_agent p))
              (\<lambda>_. ok_s \<lparr>access_token = atok, refresh_token = rtok, expires_in = access_timeout (sm_config sm)\<rparr>)))) s')
      = Inr tp"
    by (rule bind_lift_Inr [OF x], rule that, assumption+)
  obtain atok ac where pa: "p' = (atok, ac)" by (cases p') auto
  obtain q
    where q: "encode_refresh (sm_jwt sm) (seconds ms) uuid (lp_login_id p) (refresh_timeout (sm_config sm)) = Inr q"
    and z: "fst ((case q of (rtok, rclaims) \<Rightarrow>
          bind_s (set_string sm ms (refresh_key (rc_rid rclaims)) (refresh_value (lp_login_id p) (lp_device p)) (refresh_timeout (sm_config sm)))
            (\<lambda>_. bind_s (store_device_info sm ms (lp_login_id p) (lp_device p) (rc_rid rclaims) (lp_login_ip p) (lp_user_agent p))
              (\<lambda>_. ok_s \<lparr>access_token = atok, refresh_token = rtok, expires_in = access_timeout (sm_config sm)\<rparr>))) s')
      = Inr tp"
    by (rule bind_lift_Inr [OF y [unfolded pa prod.case]], rule that, assumption+)
  obtain rtok rc where qa: "q = (rtok, rc)" by (cases q) auto
  have "tp = \<lparr>access_token = atok, refresh_token = rtok, expires_in = access_timeout (sm_config sm)\<rparr>"
    using z unfolding qa prod.case by (elim bind_s_Inr) (simp add: ok_s_def)
  then show ?thesis using p' q by (simp add: pa qa)
qed

section \<open>Validation\<close>

definition access_of :: "access_claims \<Rightarrow> login_id \<Rightarrow> validated_access" where
  "access_of claims l = \<lparr>va_login_id = l, va_device = device_of (ac_dev claims), va_user_name = ac_user_name claims,
     va_nick_name = ac_nick_name claims, va_roles = ac_roles claims, va_permissions = claims_permissions sm claims\<rparr>"

lemma validate_result:
  assumes "inv s"
  shows "eff (seconds ms) (validate_token sm ms tok) s
    (bind_r (decode_access (sm_jwt sm) (sm_config sm) (seconds ms) tok)
      (\<lambda>claims. bind_r (ok_or InvalidToken (login_decode (ac_sub claims)))
        (\<lambda>l. bind_r (if per_request_deny_check (sm_config sm) then
                       (case view (seconds ms) s (deny_key l) of Some v \<Rightarrow> deny_verdict (ac_iat claims) v | None \<Rightarrow> Inr ())
                     else Inr ())
           (\<lambda>_. Inr (access_of claims l))))) (\<lambda>t V. V)"
  unfolding validate_token_def
proof (intro eff_bind_lift_r assms)
  fix claims :: access_claims and l :: login_id
  note g = eff_get [OF assms, of ms "deny_key l"]
  have e: "fst (m s) = fst (m' s) \<Longrightarrow> eff now m' s r f \<Longrightarrow> snd (m s) = snd (m' s) \<Longrightarrow> eff now m s r f"
    for m m' :: "('s, auth_error, validated_access) sm" and now r f by (simp add: eff_def)
  show "eff (seconds ms)
     (bind_s
       (if per_request_deny_check (sm_config sm) then
          bind_s (get_string sm ms (deny_key l))
            (\<lambda>deny. case deny of Some v \<Rightarrow> lift_r (deny_verdict (ac_iat claims) v) | None \<Rightarrow> ok_s ())
        else ok_s ())
       (\<lambda>_. ok_s \<lparr>va_login_id = l, va_device = device_of (ac_dev claims), va_user_name = ac_user_name claims,
                  va_nick_name = ac_nick_name claims, va_roles = ac_roles claims,
                  va_permissions = claims_permissions sm claims\<rparr>)) s
     (bind_r (if per_request_deny_check (sm_config sm) then
                (case view (seconds ms) s (deny_key l) of Some v \<Rightarrow> deny_verdict (ac_iat claims) v | None \<Rightarrow> Inr ())
              else Inr ()) (\<lambda>_. Inr (access_of claims l))) (\<lambda>t V. V)"
    using g assms
    by (cases "get_string sm ms (deny_key l) s"; cases "view (seconds ms) s (deny_key l)")
      (auto simp: eff_def bind_s_def ok_s_def lift_r_def bind_r_def access_of_def split: sum.splits)
qed

end

interpretation mem_session: session_store memory_ops mem_storage_inv mem_view mem_lives "sm\<lparr>sm_ops := memory_ops\<rparr>"
  for sm :: "memory_storage session_manager"
  by unfold_locales simp

end
