(* ===== verification/Auth_Session_Calls.thy ===== *)
theory Auth_Session_Calls
  imports Auth_Session_Laws
begin

text \<open>
  Sequences of calls on a session manager, as the request handlers of the service interleave them: every
  public operation of \<open>SessionManager\<close> is a \<open>session_call\<close>, a run is a list of calls with their instants.
  \<open>obeys k Q now s\<close> states what can be read under one key from \<open>now\<close> on; \<open>call_obeys\<close> says which calls
  keep such a statement, and the invariants over runs are instances of it.
\<close>

datatype session_call =
    CLogin string login_params
  | CLogout login_id device_type
  | CLogoutAll login_id
  | CForceRefresh login_id
  | CKickOut login_id "device_type option"
  | CBan login_id
  | CUnban login_id
  | CRefresh string string user_profile
  | CValidate string
  | CGetDevices login_id

fun session_step :: "'s session_manager \<Rightarrow> int \<Rightarrow> session_call \<Rightarrow> 's \<Rightarrow> 's" where
  "session_step sm ms (CLogin uuid p) s = snd (login sm ms uuid p s)"
| "session_step sm ms (CLogout l d) s = snd (logout sm ms l d s)"
| "session_step sm ms (CLogoutAll l) s = snd (logout_all sm ms l s)"
| "session_step sm ms (CForceRefresh l) s = snd (force_refresh sm ms l s)"
| "session_step sm ms (CKickOut l d) s = snd (kick_out sm ms l d s)"
| "session_step sm ms (CBan l) s = snd (ban_user sm ms l s)"
| "session_step sm ms (CUnban l) s = snd (unban_user sm ms l s)"
| "session_step sm ms (CRefresh uuid tok profile) s = snd (refresh sm ms uuid tok profile s)"
| "session_step sm ms (CValidate tok) s = snd (validate_token sm ms tok s)"
| "session_step sm ms (CGetDevices l) s = snd (get_devices sm ms l s)"

fun session_run :: "'s session_manager \<Rightarrow> (int \<times> session_call) list \<Rightarrow> 's \<Rightarrow> 's" where
  "session_run sm [] s = s"
| "session_run sm ((ms, c) # cs) s = session_run sm cs (session_step sm ms c s)"

text \<open>The instants of a run do not go back, from \<open>ms\<close> to \<open>ms'\<close>.\<close>

fun clock_runs :: "int \<Rightarrow> (int \<times> 'c) list \<Rightarrow> int \<Rightarrow> bool" where
  "clock_runs ms [] ms' \<longleftrightarrow> ms \<le> ms'"
| "clock_runs ms ((m, c) # cs) ms' \<longleftrightarrow> ms \<le> m \<and> clock_runs m cs ms'"

text \<open>The value, if any, a call writes under the deny key of a user: \<open>None\<close> for no write.\<close>

fun denies :: "session_call \<Rightarrow> login_id option" where
  "denies (CLogout l d) = Some l"
| "denies (CLogoutAll l) = Some l"
| "denies (CForceRefresh l) = Some l"
| "denies (CKickOut l d) = Some l"
| "denies _ = None"

text \<open>The identifier a call draws for a new refresh token.\<close>

fun draws :: "session_call \<Rightarrow> string option" where
  "draws (CLogin uuid p) = Some uuid"
| "draws (CRefresh uuid tok profile) = Some uuid"
| "draws _ = None"

lemma clock_runs_le: "clock_runs ms cs ms' \<Longrightarrow> ms \<le> ms'"
  by (induction ms cs ms' rule: clock_runs.induct) auto

lemma seconds_mono: "ms \<le> ms' \<Longrightarrow> seconds ms \<le> seconds ms'"
  by (simp add: seconds_def zdiv_mono1)

text \<open>
  The deny entry of a user from \<open>now\<close> on, until \<open>until\<close>: a ban, or a denial of every token issued by
  then. A denial keeps its strength whatever is called afterwards, short of an unban.
\<close>

definition denied_until :: "int \<Rightarrow> int \<Rightarrow> int \<Rightarrow> string option \<Rightarrow> bool" where
  "denied_until since until t x \<longleftrightarrow>
     (t \<le> until \<longrightarrow> x = Some ''banned'' \<or> (\<exists>ts. since \<le> ts \<and> in_i64 ts \<and> x = Some (''refresh:'' @ show_int ts)))"

lemma denied_verdict:
  assumes "denied_until since until t (Some v)" "t \<le> until" "iat \<le> since"
  shows "deny_verdict iat v \<in> {Inl AccountBanned, Inl RefreshRequired}"
proof -
  consider "v = ''banned''" | ts where "since \<le> ts" "in_i64 ts" "v = ''refresh:'' @ show_int ts"
    using assms by (auto simp: denied_until_def)
  then show ?thesis
  proof cases
    case 2
    then have "v \<noteq> ''banned''" "prefix ''refresh:'' v" "parse_i64 (drop 8 v) = Some ts" by (auto simp: parse_show_int)
    then show ?thesis using 2 assms(3) by (simp add: deny_verdict_def)
  qed (simp add: deny_verdict_def)
qed

lemma clock_runs_mem: "clock_runs ms cs ms' \<Longrightarrow> (m, c) \<in> set cs \<Longrightarrow> ms \<le> m \<and> m \<le> ms'"
  by (induction ms cs ms' rule: clock_runs.induct) (auto dest: clock_runs_le)

text \<open>The keys that hold sessions.\<close>

definition session_entry :: "string \<Rightarrow> bool" where
  "session_entry k \<longleftrightarrow> (\<exists>r. k = refresh_key r) \<or> (\<exists>l. prefix (device_prefix l) k)"

lemma session_entry_keys [simp]: "\<not> session_entry (deny_key l)" "session_entry (refresh_key r)" "session_entry (device_key l d)"
proof -
  show "session_entry (device_key l d)"
    unfolding session_entry_def device_key_prefix by (intro disjI2 exI [of _ l] prefixI [OF refl])
qed (auto simp: session_entry_def)

context session_store
begin

definition obeys :: "string \<Rightarrow> (int \<Rightarrow> string option \<Rightarrow> bool) \<Rightarrow> int \<Rightarrow> 's \<Rightarrow> bool" where
  "obeys k Q now s \<longleftrightarrow> inv s \<and> (\<forall>t. now \<le> t \<longrightarrow> Q t (view t s k))"

definition pres :: "string \<Rightarrow> (int \<Rightarrow> string option \<Rightarrow> bool) \<Rightarrow> int \<Rightarrow> ('s, auth_error, 'a) sm \<Rightarrow> bool" where
  "pres k Q now m \<longleftrightarrow> (\<forall>s. obeys k Q now s \<longrightarrow> obeys k Q now (snd (m s)))"

lemma obeys_later: "obeys k Q now s \<Longrightarrow> now \<le> t \<Longrightarrow> obeys k Q t s"
  by (simp add: obeys_def)

lemma presD: "pres k Q now m \<Longrightarrow> obeys k Q now s \<Longrightarrow> obeys k Q now (snd (m s))"
  by (simp add: pres_def)

lemma pres_eff:
  assumes "\<And>s. inv s \<Longrightarrow> \<exists>r f. eff now m s r f \<and> (\<forall>t. now \<le> t \<longrightarrow> Q t (view t s k) \<longrightarrow> Q t (f t (view t s) k))"
  shows "pres k Q now m"
  using assms unfolding pres_def obeys_def eff_def by metis

lemma pres_ok [simp, intro]: "pres k Q now (ok_s x)"
  by (simp add: pres_def ok_s_def)

lemma pres_err [simp, intro]: "pres k Q now (err_s e)"
  by (simp add: pres_def err_s_def)

lemma pres_lift [simp, intro]: "pres k Q now (lift_r r)"
  by (simp add: pres_def lift_r_def)

lemma pres_bind [intro]:
  assumes "pres k Q now m" "\<And>x. pres k Q now (g x)"
  shows "pres k Q now (bind_s m g)"
  using assms unfolding pres_def bind_s_def by (auto split: prod.splits sum.splits)

lemma pres_attempt [intro]: "pres k Q now m \<Longrightarrow> pres k Q now (attempt m :: ('s, auth_error, auth_error + 'a) sm)"
  unfolding pres_def attempt_def by (auto split: prod.splits)

lemma pres_get [simp, intro]: "pres k Q (seconds ms) (get_string sm ms k')"
  by (rule pres_eff) (use eff_get in blast)

lemma pres_keys [simp, intro]: "pres k Q (seconds ms) (keys_by_prefix sm ms p)"
  by (rule pres_eff) (use eff_keys in blast)

lemma pres_try_get_info [simp, intro]: "pres k Q (seconds ms) (try_get_info sm ms k')"
  by (rule pres_eff) (use eff_try_get_info in blast)

lemma pres_set:
  assumes "k' = k \<Longrightarrow> \<forall>t. seconds ms \<le> t \<longrightarrow> Q t (if lives ttl (t - seconds ms) then Some v else None)"
  shows "pres k Q (seconds ms) (set_string sm ms k' v ttl)"
proof (rule pres_eff)
  fix s assume i: "inv s"
  show "\<exists>r f. eff (seconds ms) (set_string sm ms k' v ttl) s r f \<and>
      (\<forall>t. seconds ms \<le> t \<longrightarrow> Q t (view t s k) \<longrightarrow> Q t (f t (view t s) k))"
    by (intro exI conjI, rule eff_set [OF i]) (use assms in auto)
qed

text \<open>What a deletion of session entries needs: it touches refresh keys and device keys only.\<close>

definition droppable :: "string \<Rightarrow> (int \<Rightarrow> string option \<Rightarrow> bool) \<Rightarrow> bool" where
  "droppable k Q \<longleftrightarrow> \<not> session_entry k \<or> (\<forall>t. Q t None)"

lemma pres_restrict:
  assumes "\<And>s. inv s \<Longrightarrow> \<exists>r X. eff now m s r (\<lambda>t V. V |` (- X)) \<and> X \<subseteq> Collect session_entry" and "droppable k Q"
  shows "pres k Q now m"
proof (rule pres_eff)
  fix s assume "inv s"
  then obtain r X where e: "eff now m s r (\<lambda>t V. V |` (- X))" "X \<subseteq> Collect session_entry" using assms(1) by blast
  show "\<exists>r f. eff now m s r f \<and> (\<forall>t. now \<le> t \<longrightarrow> Q t (view t s k) \<longrightarrow> Q t (f t (view t s) k))"
    by (intro exI conjI, rule e(1)) (use e(2) assms(2) in \<open>auto simp: restrict_map_def droppable_def\<close>)
qed

lemma dropped_entries: "session_entry k \<Longrightarrow> dropped sm V k \<subseteq> Collect session_entry"
  by (auto simp: dropped_def split: option.splits)

lemma device_keys_entries: "device_keys l V \<subseteq> Collect session_entry"
  by (auto simp: device_keys_def session_entry_def)

lemma drops_entries: "(\<Union>k \<in> device_keys l V. dropped sm V k) \<subseteq> Collect session_entry"
  using device_keys_entries dropped_entries by blast

lemma policy_drops_entries: "policy_drops l d V \<subseteq> Collect session_entry"
  using drops_entries dropped_entries by (simp add: policy_drops_def)

lemma victims_entries: "evicts l V vs \<Longrightarrow> victim_keys vs \<subseteq> Collect session_entry"
  using device_keys_entries [of l V] by (auto simp: evicts_def victim_keys_def)

lemma pres_try_delete_refresh:
  "droppable k Q \<Longrightarrow> pres k Q (seconds ms) (try_delete sm ms (refresh_key r))"
  by (rule pres_restrict) (auto intro!: exI conjI eff_try_delete)

lemma pres_cleanup: "droppable k Q \<Longrightarrow> pres k Q (seconds ms) (cleanup_device sm ms l d)"
  unfolding cleanup_device_def
  by (rule pres_restrict, intro exI conjI, rule eff_drop_key) (simp_all add: dropped_entries)

lemma pres_drop_all: "droppable k Q \<Longrightarrow> pres k Q (seconds ms) (drop_all_devices sm ms l)"
  by (rule pres_restrict, intro exI conjI, rule eff_drop_all, assumption, rule drops_entries)

lemma pres_policy: "droppable k Q \<Longrightarrow> pres k Q (seconds ms) (handle_device_policy sm ms l d)"
proof (rule pres_restrict)
  fix s assume "inv s"
  from eff_policy [OF this refl, of l ms d] obtain vs
    where v: "evicts l (view (seconds ms) s |` (- policy_drops l d (view (seconds ms) s))) vs"
      and e: "eff (seconds ms) (handle_device_policy sm ms l d) s (Inr ())
        (\<lambda>t V. V |` (- (policy_drops l d (view (seconds ms) s) \<union> victim_keys vs)))" by blast
  show "\<exists>r X. eff (seconds ms) (handle_device_policy sm ms l d) s r (\<lambda>t V. V |` (- X)) \<and> X \<subseteq> Collect session_entry"
    by (intro exI conjI, rule e) (use policy_drops_entries victims_entries [OF v] in blast)
qed

section \<open>Which calls keep a statement\<close>

text \<open>A refresh rewrites a device entry that is there: absent entries stay absent.\<close>

definition device_writes_ok :: "string \<Rightarrow> (int \<Rightarrow> string option \<Rightarrow> bool) \<Rightarrow> bool" where
  "device_writes_ok k Q \<longleftrightarrow> Q = (\<lambda>t x. x = None) \<or> (\<forall>i json t. sm_json_encode sm i = Inr json \<longrightarrow> Q t (Some json))"

definition call_writes_ok :: "int \<Rightarrow> session_call \<Rightarrow> string \<Rightarrow> (int \<Rightarrow> string option \<Rightarrow> bool) \<Rightarrow> bool" where
  "call_writes_ok ms c k Q \<longleftrightarrow>
     (\<forall>l. denies c = Some l \<and> k = deny_key l \<longrightarrow>
        (\<forall>t. seconds ms \<le> t \<longrightarrow>
           Q t (if lives (access_timeout (sm_config sm)) (t - seconds ms) then Some (deny_refresh_value ms) else None))) \<and>
     (\<forall>l. c = CBan l \<and> k = deny_key l \<longrightarrow>
        (\<forall>t. seconds ms \<le> t \<longrightarrow> Q t (if lives (365 * 24 * 3600) (t - seconds ms) then Some ''banned'' else None))) \<and>
     (\<forall>l. c = CUnban l \<and> k = deny_key l \<longrightarrow> (\<forall>t. Q t None)) \<and>
     (\<forall>u. draws c = Some u \<longrightarrow> k \<noteq> refresh_key u) \<and>
     (\<forall>u p i json. c = CLogin u p \<and> k = device_key (lp_login_id p) (lp_device p) \<and> sm_json_encode sm i = Inr json \<longrightarrow>
        (\<forall>t. Q t (Some json))) \<and>
     (\<forall>u tok profile l d. c = CRefresh u tok profile \<and> k = device_key l d \<longrightarrow> device_writes_ok k Q)"

lemma pres_deny:
  "(\<And>t. k = deny_key l \<Longrightarrow> seconds ms \<le> t \<Longrightarrow>
      Q t (if lives (access_timeout (sm_config sm)) (t - seconds ms) then Some (deny_refresh_value ms) else None)) \<Longrightarrow>
   pres k Q (seconds ms) (deny_old_tokens sm ms l)"
  unfolding deny_old_tokens_def by (intro pres_set) auto

lemma pres_device_set:
  assumes "\<And>i json t. k = device_key l d \<Longrightarrow> sm_json_encode sm i = Inr json \<Longrightarrow> Q t (Some json)"
    and "droppable k Q" and "sm_json_encode sm i = Inr json"
  shows "pres k Q (seconds ms) (set_string sm ms (device_key l d) json ttl)"
proof (intro pres_set allI impI)
  fix t assume k: "device_key l d = k"
  then have "Q t None" using assms(2) by (auto simp: droppable_def)
  then show "Q t (if lives ttl (t - seconds ms) then Some json else None)" using assms(1,3) k by auto
qed

lemma pres_store_device:
  assumes "\<And>i json t. k = device_key l d \<Longrightarrow> sm_json_encode sm i = Inr json \<Longrightarrow> Q t (Some json)"
    and "droppable k Q"
  shows "pres k Q (seconds ms) (store_device_info sm ms l d rid ip ua)"
proof -
  have "pres k Q (seconds ms) (bind_s (lift_r (map_err AuthInternal r))
      (\<lambda>json. set_string sm ms (device_key l d) json ttl))" if "\<And>j. r = Inr j \<Longrightarrow> \<exists>i. sm_json_encode sm i = Inr j" for r ttl
  proof (cases r)
    case (Inr j)
    with that obtain i where "sm_json_encode sm i = Inr j" by blast
    from pres_device_set [OF assms this] show ?thesis
      by (simp add: Inr pres_def bind_s_def lift_r_def map_err_def)
  qed (simp add: pres_def bind_s_def lift_r_def map_err_def)
  then show ?thesis unfolding store_device_info_def Let_def by blast
qed

lemma pres_update_rid:
  assumes "k = device_key l d \<Longrightarrow> device_writes_ok k Q" and "droppable k Q"
  shows "pres k Q (seconds ms) (update_device_rid sm ms l d rid)"
proof (cases "k = device_key l d \<and> Q = (\<lambda>t x. x = None)")
  case True
  have "obeys k Q (seconds ms) (snd (update_device_rid sm ms l d rid s))" if o: "obeys k Q (seconds ms) s" for s
  proof -
    have i: "inv s" "info_at sm (view (seconds ms) s) k = None" using o True by (auto simp: obeys_def info_at_def)
    have "snd (update_device_rid sm ms l d rid s) = snd (try_get_info sm ms k s)"
      using effD(1) [OF eff_try_get_info [OF i(1), of ms k]] i(2) True
      by (cases "try_get_info sm ms k s") (simp add: update_device_rid_def Let_def bind_s_def ok_s_def)
    then show ?thesis using presD [OF pres_try_get_info o] by simp
  qed
  then show ?thesis by (simp add: pres_def)
next
  case False
  then have w: "k = device_key l d \<Longrightarrow> sm_json_encode sm i = Inr json \<Longrightarrow> Q t (Some json)" for i json t
    using assms(1) by (auto simp: device_writes_ok_def)
  show ?thesis
    unfolding update_device_rid_def Let_def
    by (rule pres_bind) (auto split: option.splits sum.splits intro!: pres_bind pres_attempt pres_device_set w assms(2))
qed

lemma login_split:
  obtains rest where "login sm ms uuid p = bind_s (handle_device_policy sm ms (lp_login_id p) (lp_device p)) (\<lambda>_. rest)"
    "\<And>k Q. call_writes_ok ms (CLogin uuid p) k Q \<Longrightarrow> droppable k Q \<Longrightarrow> pres k Q (seconds ms) rest"
proof -
  have rid: "encode_refresh (sm_jwt sm) n uuid l ttl = Inr (tok, rc) \<Longrightarrow> rc_rid rc = uuid" for n l ttl tok rc
    using encode_refresh_Inr(1) by fastforce
  have lift: "pres k Q (seconds ms) (bind_s (lift_r r) g)"
    if "\<And>x. r = Inr x \<Longrightarrow> pres k Q (seconds ms) (g x)"
    for k Q and r :: "auth_error + 'b" and g :: "'b \<Rightarrow> ('s, auth_error, token_pair) sm"
    using that by (cases r) (auto simp: pres_def bind_s_def lift_r_def)
  show thesis
    by (rule that, unfold login_def Let_def, rule refl)
      (auto intro!: pres_bind lift pres_set pres_store_device simp: rid call_writes_ok_def)
qed

lemma pres_login:
  assumes "call_writes_ok ms (CLogin uuid p) k Q" "droppable k Q"
  shows "pres k Q (seconds ms) (login sm ms uuid p)"
  by (rule login_split [of ms uuid p]) (auto intro!: pres_bind pres_policy assms)

lemma pres_lookup [simp, intro]: "pres k Q (seconds ms) (refresh_lookup sm ms tok)"
  by (rule pres_eff) (use eff_lookup in blast)

lemma pres_refresh:
  assumes "call_writes_ok ms (CRefresh uuid tok profile) k Q" "droppable k Q"
  shows "pres k Q (seconds ms) (refresh sm ms uuid tok profile)"
proof -
  have rid: "encode_refresh (sm_jwt sm) n uuid l ttl = Inr (tok, rc) \<Longrightarrow> rc_rid rc = uuid" for n l ttl tok rc
    using encode_refresh_Inr(1) by fastforce
  have lift: "pres k Q (seconds ms) (bind_s (lift_r r) g)"
    if "\<And>x. r = Inr x \<Longrightarrow> pres k Q (seconds ms) (g x)" for r :: "auth_error + 'b" and g :: "'b \<Rightarrow> ('s, auth_error, token_pair) sm"
    using that by (cases r) (auto simp: pres_def bind_s_def lift_r_def)
  show ?thesis
    unfolding refresh_def refresh_issue_def Let_def
    using assms
    by (auto intro!: pres_bind lift pres_set pres_try_delete_refresh pres_update_rid simp: rid call_writes_ok_def)
qed

lemma pres_device_sessions: "pres k Q (seconds ms) (device_sessions sm ms l keys)"
  by (induction keys) (auto intro!: pres_bind split: option.splits)

lemma pres_validate: "pres k Q (seconds ms) (validate_token sm ms tok)"
  by (rule pres_eff) (use validate_result in blast)

lemma call_obeys:
  assumes o: "obeys k Q (seconds ms) s" and w: "call_writes_ok ms c k Q" and d: "droppable k Q"
  shows "obeys k Q (seconds ms) (session_step sm ms c s)"
proof (cases c)
  case (CKickOut l dev)
  show ?thesis
    using w unfolding CKickOut session_step.simps kick_out_def
    by (cases dev) (auto simp: logout_def logout_all_def call_writes_ok_def
        intro!: presD [OF _ o] pres_bind pres_cleanup [OF d] pres_drop_all [OF d] pres_deny)
next
  case (CBan l)
  show ?thesis
    using w unfolding CBan session_step.simps ban_user_def
    by (auto simp: call_writes_ok_def intro!: presD [OF _ o] pres_bind pres_drop_all [OF d] pres_set)
next
  case (CUnban l)
  have "pres k Q (seconds ms) (unban_user sm ms l)"
  proof (rule pres_eff)
    fix s assume "inv s"
    then show "\<exists>r f. eff (seconds ms) (unban_user sm ms l) s r f \<and>
        (\<forall>t. seconds ms \<le> t \<longrightarrow> Q t (view t s k) \<longrightarrow> Q t (f t (view t s) k))"
      unfolding unban_user_def
      by (intro exI conjI, rule eff_delete) (use w in \<open>auto simp: restrict_map_def CUnban call_writes_ok_def\<close>)
  qed
  then show ?thesis using presD [OF _ o] by (simp add: CUnban)
qed (use w in \<open>auto simp: logout_def logout_all_def force_refresh_def get_devices_def call_writes_ok_def
      intro!: presD [OF _ o] pres_bind pres_cleanup [OF d] pres_drop_all [OF d] pres_deny pres_validate pres_device_sessions
        pres_login [OF _ d] pres_refresh [OF _ d]\<close>)

lemma run_obeys:
  assumes "obeys k Q (seconds ms) s" "clock_runs ms cs ms'" "droppable k Q"
    and "\<And>m c. (m, c) \<in> set cs \<Longrightarrow> call_writes_ok m c k Q"
  shows "obeys k Q (seconds ms') (session_run sm cs s)"
  using assms
proof (induction cs arbitrary: ms s)
  case Nil
  then show ?case by (auto intro: obeys_later seconds_mono)
next
  case (Cons x cs)
  obtain m c where x: "x = (m, c)" by (cases x) auto
  have "obeys k Q (seconds m) (session_step sm m c s)"
    using Cons.prems x by (intro call_obeys obeys_later [OF Cons.prems(1)] seconds_mono) auto
  then show ?case using Cons.prems by (auto simp: x intro!: Cons.IH)
qed

section \<open>Tokens the manager issued\<close>

lemma validate_issued:
  assumes i: "inv s" and j: "jwt_faithful (sm_jwt sm)" and u: "in_i64 (li_user_id l)"
    and e: "encode_access (sm_jwt sm) (sm_config sm) iat l d profile pb ttl = Inr (tok, ac)"
    and c: "per_request_deny_check (sm_config sm)"
  shows "fst (validate_token sm ms tok s) =
    (if iat + ttl < seconds ms then Inl TokenExpired
     else case view (seconds ms) s (deny_key l) of None \<Rightarrow> Inr (access_of ac l)
          | Some v \<Rightarrow> bind_r (deny_verdict iat v) (\<lambda>_. Inr (access_of ac l)))"
proof -
  have ac: "ac_sub ac = login_encode l" "ac_iat ac = iat"
    using encode_access_Inr(1) [OF e] by (simp_all add: access_claims_of_def)
  show ?thesis
    unfolding effD(1) [OF validate_result [OF i, of ms tok]] decode_access_encoded [OF j e]
    by (simp add: bind_r_def ac u c ok_or_def split: option.splits)
qed

lemma refresh_issued:
  assumes i: "inv s" and j: "jwt_faithful (sm_jwt sm)" and u: "in_i64 (li_user_id l)"
    and e: "encode_refresh (sm_jwt sm) iat rid l ttl = Inr (tok, rc)"
  shows "lookup_result ms tok (view (seconds ms) s) =
    (if iat + ttl < seconds ms then Inl RefreshTokenExpired
     else bind_r (ok_or InvalidRefreshToken (view (seconds ms) s (refresh_key rid)))
       (\<lambda>rv. bind_r (ok_or InvalidRefreshToken (rsplit_once CHR '':'' rv))
         (\<lambda>(_, dev). if view (seconds ms) s (deny_key l) = Some ''banned'' then Inl AccountBanned
                     else Inr (rc, l, device_of dev))))"
proof -
  have rc: "rc_sub rc = login_encode l" "rc_rid rc = rid"
    using encode_refresh_Inr(1) [OF e] by simp_all
  show ?thesis
    unfolding lookup_result_def decode_refresh_encoded [OF j e]
    by (simp add: bind_r_def rc u ok_or_def cong: if_cong)
qed

lemma refresh_Inl:
  assumes "inv s" "lookup_result ms tok (view (seconds ms) s) = Inl e"
  shows "fst (refresh sm ms uuid tok profile s) = Inl e"
  using eff_lookup [OF assms(1), of ms tok] unfolding assms(2) refresh_def
  by (intro effD(1) eff_bind_Inl)

lemma refresh_consumes:
  assumes "inv s" "fst (refresh sm ms uuid tok profile s) = Inr tp"
  obtains rc l d where "lookup_result ms tok (view (seconds ms) s) = Inr (rc, l, d)"
    "obeys (refresh_key (rc_rid rc)) (\<lambda>t x. x = None) (seconds ms) (snd (refresh sm ms uuid tok profile s))"
proof -
  from refresh_Inr [OF assms] obtain rc l d where *:
    "lookup_result ms tok (view (seconds ms) s) = Inr (rc, l, d)" "inv (snd (refresh sm ms uuid tok profile s))"
    "\<forall>t k. seconds ms \<le> t \<longrightarrow> k \<noteq> device_key l d \<longrightarrow> view t (snd (refresh sm ms uuid tok profile s)) k =
         (if k = refresh_key (rc_rid rc) then None
          else if k = refresh_key uuid then (if lives (refresh_timeout (sm_config sm)) (t - seconds ms)
                                             then Some (refresh_value l d) else None)
          else view t s k)" by blast
  show thesis by (rule that [OF *(1)]) (use *(2,3) in \<open>simp add: obeys_def\<close>)
qed

section \<open>What a denial leaves\<close>

lemma deny_written:
  assumes i: "inv s" and c: "denies c = Some l"
  shows "obeys (deny_key l) (\<lambda>t x. x = (if lives (access_timeout (sm_config sm)) (t - seconds ms)
      then Some (deny_refresh_value ms) else None)) (seconds ms) (session_step sm ms c s)"
proof -
  have e: "obeys k (\<lambda>t x. x = W t) now (snd (m s))" if "eff now m s r f" "\<And>t. f t (view t s) k = W t"
    for k W now f r and m :: "('s, auth_error, unit) sm"
    using that by (simp add: obeys_def eff_def)
  show ?thesis
    using c
    by (cases c) (auto simp: kick_out_def force_refresh_def split: option.splits
        intro!: e [OF eff_logout [OF i]] e [OF eff_logout_all [OF i]] e [OF eff_deny [OF i]])
qed

lemma ban_written:
  assumes "inv s"
  shows "obeys (deny_key l) (\<lambda>t x. x = (if lives (365 * 24 * 3600) (t - seconds ms) then Some ''banned'' else None))
    (seconds ms) (session_step sm ms (CBan l) s)"
  using eff_ban [OF assms, of ms l] by (simp add: obeys_def eff_def)

section \<open>The device limit\<close>

text \<open>
  Every device entry of the store can be read back, and no user has more entries than the limit; a
  user without concurrent login has at most one. The codec must read what it wrote.
\<close>

definition codec_reads :: bool where
  "codec_reads \<longleftrightarrow> (\<forall>i json. sm_json_encode sm i = Inr json \<longrightarrow> sm_json_decode sm json \<noteq> None)"

definition readable :: "int \<Rightarrow> 's \<Rightarrow> bool" where
  "readable now s \<longleftrightarrow> (\<forall>l d. obeys (device_key l d) (\<lambda>t x. \<forall>v. x = Some v \<longrightarrow> sm_json_decode sm v \<noteq> None) now s)"

definition device_limit :: "login_id \<Rightarrow> nat \<Rightarrow> bool" where
  "device_limit l n \<longleftrightarrow> (0 < max_devices (sm_config sm) \<longrightarrow> n \<le> max_devices (sm_config sm))
     \<and> (\<not> concurrent_login (sm_config sm) \<longrightarrow> n \<le> 1)"

definition within_limit :: "int \<Rightarrow> 's \<Rightarrow> bool" where
  "within_limit now s \<longleftrightarrow> (\<forall>l. finite (device_keys l (view now s)) \<and> device_limit l (card (device_keys l (view now s))))"

lemma device_limit_le: "device_limit l n \<Longrightarrow> m \<le> n \<Longrightarrow> device_limit l m"
  by (auto simp: device_limit_def)

lemma within_subset:
  assumes "within_limit now s" "device_keys l V \<subseteq> device_keys l (view now s)"
  shows "finite (device_keys l V) \<and> device_limit l (card (device_keys l V))"
  using assms unfolding within_limit_def by (meson card_mono device_limit_le finite_subset)

lemma device_keys_fade: "inv s \<Longrightarrow> t \<le> t' \<Longrightarrow> device_keys l (view t' s) \<subseteq> device_keys l (view t s)"
proof
  fix k assume "inv s" "t \<le> t'" "k \<in> device_keys l (view t' s)"
  then show "k \<in> device_keys l (view t s)" using fades [of s t t' k] by (auto simp: device_keys_def)
qed

lemma device_key_of: "k \<in> device_keys l V \<Longrightarrow> \<exists>d. k = device_key l d"
proof -
  assume "k \<in> device_keys l V"
  then obtain x where "k = device_prefix l @ x" by (auto simp: device_keys_def prefix_def)
  then have "k = device_key l (device_of x)" by (simp add: device_key_prefix)
  then show ?thesis ..
qed

lemma device_key_login [simp]: "device_key l d = device_key l' d' \<longleftrightarrow> l = l' \<and> device_str d = device_str d'"
proof
  assume eq: "device_key l d = device_key l' d'"
  then have "prefix (device_prefix l) (device_prefix l' @ device_str d')" by (metis device_key_prefix prefixI)
  then have "l = l'" by (simp add: device_prefix_login)
  then show "l = l' \<and> device_str d = device_str d'" using eq by (simp add: device_key_prefix)
qed (simp add: device_key_prefix)

lemma absent_obeys:
  assumes "inv s" "view now s k = None"
  shows "obeys k (\<lambda>t x. x = None) now s"
  using fades [OF assms(1), of now _ k] assms by (auto simp: obeys_def)

lemma absent_writes_ok:
  assumes "\<And>u p. c = CLogin u p \<Longrightarrow> device_key l d \<noteq> device_key (lp_login_id p) (lp_device p)"
  shows "call_writes_ok ms c (device_key l d) (\<lambda>t x. x = None)"
  using assms by (auto simp: call_writes_ok_def device_writes_ok_def)

lemma no_new_devices:
  assumes i: "inv s" and c: "\<And>u p. c = CLogin u p \<Longrightarrow> lp_login_id p \<noteq> l"
  shows "device_keys l (view (seconds ms) (session_step sm ms c s)) \<subseteq> device_keys l (view (seconds ms) s)"
proof
  fix k assume k: "k \<in> device_keys l (view (seconds ms) (session_step sm ms c s))"
  then obtain d where d: "k = device_key l d" using device_key_of by blast
  show "k \<in> device_keys l (view (seconds ms) s)"
  proof (rule ccontr)
    assume "k \<notin> device_keys l (view (seconds ms) s)"
    then have "view (seconds ms) s k = None" using k by (auto simp: device_keys_def)
    then have "obeys k (\<lambda>t x. x = None) (seconds ms) s" by (rule absent_obeys [OF i])
    then have "obeys k (\<lambda>t x. x = None) (seconds ms) (session_step sm ms c s)"
      unfolding d using c by (intro call_obeys absent_writes_ok) (auto simp: droppable_def)
    then show False using k by (auto simp: obeys_def device_keys_def)
  qed
qed

lemma policy_room:
  assumes i: "inv s" and rd: "readable (seconds ms) s" and w: "within_limit (seconds ms) s"
  shows "\<exists>s'. handle_device_policy sm ms l d s = (Inr (), s') \<and> inv s'
    \<and> finite (device_keys l (view (seconds ms) s')) \<and> device_limit l (card (device_keys l (view (seconds ms) s')) + 1)"
proof -
  let ?V = "view (seconds ms) s" and ?s = "snd (handle_device_policy sm ms l d s)"
  define V1 where "V1 = ?V |` (- policy_drops l d ?V)"
  obtain vs where ev: "evicts l V1 vs"
    and e: "eff (seconds ms) (handle_device_policy sm ms l d) s (Inr ()) (\<lambda>t V. V |` (- (policy_drops l d ?V \<union> victim_keys vs)))"
    using eff_policy [OF i V1_def] by auto
  have V': "view (seconds ms) ?s = V1 |` (- victim_keys vs)"
    using effD(3) [OF e order_refl] by (auto simp: V1_def restrict_map_def fun_eq_iff)
  have sub: "device_keys l V1 \<subseteq> device_keys l ?V" by (auto simp: V1_def device_keys_def restrict_map_def)
  have fin: "finite (device_keys l V1)" using w sub finite_subset unfolding within_limit_def by blast
  have info: "\<forall>k \<in> device_keys l V1. info_at sm V1 k \<noteq> None"
  proof
    fix k assume k: "k \<in> device_keys l V1"
    then obtain d' v where "k = device_key l d'" "V1 k = Some v" "?V k = Some v"
      using device_key_of [OF k] by (auto simp: device_keys_def V1_def restrict_map_def split: if_splits)
    then show "info_at sm V1 k \<noteq> None" using rd by (fastforce simp: readable_def obeys_def info_at_def)
  qed
  have le: "card (device_keys l (V1 |` (- victim_keys vs))) \<le> card (device_keys l V1)"
    using fin by (intro card_mono) (auto simp: device_keys_def restrict_map_def)
  have "device_keys l V1 = {}" if "\<not> concurrent_login (sm_config sm)"
    using that by (auto simp: V1_def policy_drops_def device_keys_def restrict_map_def dropped_def split: if_splits)
  then have "device_limit l (card (device_keys l (V1 |` (- victim_keys vs))) + 1)"
    using card_after_evict [OF ev _ info fin] le unfolding device_limit_def by fastforce
  moreover have "finite (device_keys l (V1 |` (- victim_keys vs)))"
    using fin by (rule rev_finite_subset) (auto simp: device_keys_def restrict_map_def)
  ultimately show ?thesis
    using effD(1,2) [OF e] V' by (intro exI [of _ ?s]) (cases "handle_device_policy sm ms l d s", simp)
qed

lemma login_within:
  assumes i: "inv s" and rd: "readable (seconds ms) s" and w: "within_limit (seconds ms) s" and l: "lp_login_id p = l"
  shows "finite (device_keys l (view (seconds ms) (session_step sm ms (CLogin u p) s)))
    \<and> device_limit l (card (device_keys l (view (seconds ms) (session_step sm ms (CLogin u p) s))))"
proof -
  let ?n = "seconds ms" and ?k = "device_key l (lp_device p)"
  obtain rest where r: "login sm ms u p = bind_s (handle_device_policy sm ms (lp_login_id p) (lp_device p)) (\<lambda>_. rest)"
    and pr: "\<And>k Q. call_writes_ok ms (CLogin u p) k Q \<Longrightarrow> droppable k Q \<Longrightarrow> pres k Q ?n rest"
    by (rule login_split [of ms u p]) blast
  obtain s' where s': "handle_device_policy sm ms l (lp_device p) s = (Inr (), s')" "inv s'"
    "finite (device_keys l (view ?n s'))" "device_limit l (card (device_keys l (view ?n s')) + 1)"
    using policy_room [OF i rd w] by blast
  have eq: "session_step sm ms (CLogin u p) s = snd (rest s')" using s'(1) l by (simp add: r bind_s_def)
  have sub: "device_keys l (view ?n (snd (rest s'))) \<subseteq> insert ?k (device_keys l (view ?n s'))"
  proof
    fix k assume k: "k \<in> device_keys l (view ?n (snd (rest s')))"
    then obtain d where d: "k = device_key l d" using device_key_of by blast
    show "k \<in> insert ?k (device_keys l (view ?n s'))"
    proof (rule ccontr)
      assume no: "\<not> k \<in> insert ?k (device_keys l (view ?n s'))"
      then have "view ?n s' k = None" using k by (auto simp: device_keys_def)
      then have "obeys k (\<lambda>t x. x = None) ?n s'" by (rule absent_obeys [OF s'(2)])
      moreover have "pres k (\<lambda>t x. x = None) ?n rest"
        using no l unfolding d by (intro pr absent_writes_ok) (auto simp: droppable_def)
      ultimately have "obeys k (\<lambda>t x. x = None) ?n (snd (rest s'))" by (rule presD [rotated])
      then show False using k by (auto simp: obeys_def device_keys_def)
    qed
  qed
  have "card (device_keys l (view ?n (snd (rest s')))) \<le> card (insert ?k (device_keys l (view ?n s')))"
    using sub s'(3) by (intro card_mono) auto
  also have "\<dots> \<le> card (device_keys l (view ?n s')) + 1" using s'(3) by (simp add: card_insert_if)
  finally show ?thesis using s'(3,4) sub device_limit_le finite_subset [OF sub] unfolding eq by blast
qed

lemma step_within:
  assumes c: codec_reads and i: "inv s" and rd: "readable (seconds ms) s" and w: "within_limit (seconds ms) s"
  shows "readable (seconds ms) (session_step sm ms c s) \<and> within_limit (seconds ms) (session_step sm ms c s)"
proof
  have "call_writes_ok ms c (device_key l d) (\<lambda>t x. \<forall>v. x = Some v \<longrightarrow> sm_json_decode sm v \<noteq> None)" for l d
    using c by (auto simp: call_writes_ok_def device_writes_ok_def codec_reads_def)
  then show "readable (seconds ms) (session_step sm ms c s)"
    using rd unfolding readable_def by (auto intro!: call_obeys simp: droppable_def)
  show "within_limit (seconds ms) (session_step sm ms c s)"
    unfolding within_limit_def
  proof
    fix l
    show "finite (device_keys l (view (seconds ms) (session_step sm ms c s))) \<and>
      device_limit l (card (device_keys l (view (seconds ms) (session_step sm ms c s))))"
    proof (cases "\<exists>u p. c = CLogin u p \<and> lp_login_id p = l")
      case True
      then show ?thesis using login_within [OF i rd w] by blast
    next
      case False
      then show ?thesis by (intro within_subset [OF w] no_new_devices i) blast
    qed
  qed
qed

lemma step_inv: "inv s \<Longrightarrow> inv (session_step sm ms c s)"
  using call_obeys [of "device_key (login_id_new 0) Web" "\<lambda>t x. True" ms s c]
  by (simp add: obeys_def call_writes_ok_def device_writes_ok_def droppable_def)

lemma run_within:
  assumes "codec_reads" "inv s" "readable (seconds ms) s" "within_limit (seconds ms) s" "clock_runs ms cs ms'"
  shows "within_limit (seconds ms') (session_run sm cs s)"
  using assms(2-)
proof (induction cs arbitrary: ms s)
  have later: "readable (seconds m') s \<and> within_limit (seconds m') s"
    if "inv s" "readable (seconds m) s" "within_limit (seconds m) s" "m \<le> m'" for m m' s
  proof -
    note t = seconds_mono [OF that(4)]
    show ?thesis
      using that(2) obeys_later [OF _ t] within_subset [OF that(3) device_keys_fade [OF that(1) t]]
      unfolding readable_def within_limit_def by blast
  qed
  {
    case Nil
    then show ?case using later [of s ms ms'] by simp
  next
    case (Cons x cs)
    obtain m c where x: "x = (m, c)" by (cases x) auto
    have "readable (seconds m) s \<and> within_limit (seconds m) s" using Cons.prems x by (intro later) auto
    then have "readable (seconds m) (session_step sm m c s) \<and> within_limit (seconds m) (session_step sm m c s)"
      using assms(1) Cons.prems(1) by (intro step_within) auto
    then show ?case using Cons.prems x by (auto intro!: Cons.IH step_inv)
  }
qed

end

end
