(* ===== verification/Auth_Session_Properties.thy ===== *)
theory Auth_Session_Properties
  imports Auth_Session_Calls
begin

text \<open>
  Properties of the session manager over the memory store, on every sequence of calls: revocation and
  bans stick, refresh tokens work once, a login's tokens work until revoked. The lemmas of
  \<open>session_store\<close> enter through its interpretation \<open>mem_session\<close>.
\<close>

lemma over [simp]: "sm_ops m = memory_ops \<Longrightarrow> m\<lparr>sm_ops := memory_ops\<rparr> = m"
  by simp

text \<open>A manager with codecs that write a value as it is, and a JWT library that keeps a table of claims.\<close>

definition show_claims :: "access_claims \<Rightarrow> string" where
  "show_claims c = ac_sub c @ ''/'' @ show_int (ac_iat c) @ ''/'' @ show_int (ac_exp c)"

definition sample_jwt :: "access_claims \<Rightarrow> refresh_claims \<Rightarrow> refresh_claims \<Rightarrow> jwt_lib" where
  "sample_jwt ac rc rc2 =
     \<lparr>jwt_encode_access = (\<lambda>c. if c = ac then Inr ''a.jwt'' else Inl ''unsupported''),
      jwt_encode_refresh = (\<lambda>c. if c = rc then Inr ''r.jwt'' else if c = rc2 then Inr ''r2.jwt'' else Inl ''unsupported''),
      jwt_decode_access = (\<lambda>now iss aud tok. if tok = ''a.jwt'' \<and> iss = ac_iss ac \<and> aud = ac_aud ac
         then (if ac_exp ac < now then Inl ExpiredSignature else Inr ac) else Inl OtherJwtError),
      jwt_decode_refresh = (\<lambda>now tok. if tok = ''r.jwt''
         then (if rc_exp rc < now then Inl ExpiredSignature else Inr rc)
         else if tok = ''r2.jwt'' then (if rc_exp rc2 < now then Inl ExpiredSignature else Inr rc2) else Inl OtherJwtError)\<rparr>"

definition sample_auth_config :: auth_config where
  "sample_auth_config = \<lparr>token_name = ''Authorization'', token_prefix = Some ''Bearer '', access_timeout = 3600,
     refresh_timeout = 604800, concurrent_login = True, max_devices = 5, per_request_deny_check = True,
     is_read_cookie = False, cookie_name = None, qr_code_timeout = 300, jwt_issuer = ''summerrs'', jwt_audience = ''admin''\<rparr>"

definition sample_user :: login_id where
  "sample_user = login_id_new 7"

definition sample_profile :: user_profile where
  "sample_profile = \<lparr>user_name = ''ann'', nick_name = ''Ann'', roles = [''admin''], permissions = [''system:*'']\<rparr>"

definition sample_access :: "int \<Rightarrow> access_claims" where
  "sample_access iat = access_claims_of sample_auth_config iat sample_user Web sample_profile None 3600"

definition sample_refresh :: "string \<Rightarrow> int \<Rightarrow> refresh_claims" where
  "sample_refresh rid iat = \<lparr>rc_sub = login_encode sample_user, rc_typ = Refresh, rc_iat = iat, rc_exp = iat + 604800, rc_rid = rid\<rparr>"

definition sample_manager :: "int \<Rightarrow> int \<Rightarrow> memory_storage session_manager" where
  "sample_manager iat riat = \<lparr>sm_ops = memory_ops, sm_config = sample_auth_config, sm_perm_map = None,
     sm_jwt = sample_jwt (sample_access iat) (sample_refresh ''r1'' riat) (sample_refresh ''r2'' iat), sm_b64_encode = (\<lambda>bs. map (\<lambda>b. char_of (unat b)) bs),
     sm_b64_decode = (\<lambda>s. Some (map (\<lambda>c. of_nat (of_char c)) s)),
     sm_json_encode = (\<lambda>i. Inr (di_rid i)), sm_json_decode = (\<lambda>j. Some \<lparr>di_rid = j, di_login_time = 0, di_login_ip = '''', di_user_agent = ''''\<rparr>)\<rparr>"

lemma sample_manager_ops [simp]: "sm_ops (sample_manager i r) = memory_ops" "sm_config (sample_manager i r) = sample_auth_config"
  "sm_jwt (sample_manager i r) = sample_jwt (sample_access i) (sample_refresh ''r1'' r) (sample_refresh ''r2'' i)"
  by (simp_all add: sample_manager_def)

lemma sample_jwt_faithful [simp]: "jwt_faithful (sample_jwt ac rc rc2)"
  by (simp add: jwt_faithful_def sample_jwt_def)

lemma sample_encodes [simp]:
  "encode_access (sample_jwt (sample_access i) rc rc2) sample_auth_config i sample_user Web sample_profile None 3600 = Inr (''a.jwt'', sample_access i)"
  "encode_refresh (sample_jwt ac (sample_refresh ''r1'' r) rc2) r ''r1'' sample_user 604800 = Inr (''r.jwt'', sample_refresh ''r1'' r)"
  by (simp_all add: encode_access_def encode_refresh_def sample_jwt_def sample_access_def sample_refresh_def bind_r_def map_err_def)

lemma sample_user_i64 [simp]: "in_i64 (li_user_id sample_user)"
  by (simp add: sample_user_def login_id_new_def in_i64_def i64_min_def i64_max_def)

lemma in_i64_small: "0 \<le> x \<Longrightarrow> x \<le> 9223372036854775807 \<Longrightarrow> in_i64 x"
  by (simp add: in_i64_def i64_min_def i64_max_def)

lemma empty_store_inv [simp]: "mem_storage_inv memory_storage_new"
  by (simp add: mem_storage_inv_def memory_storage_new_def)

lemma empty_view [simp]: "mem_view t memory_storage_new = Map.empty"
  by (simp add: mem_view_def memory_storage_new_def fun_eq_iff)

lemma sample_timeouts [simp]: "access_timeout sample_auth_config = 3600" "refresh_timeout sample_auth_config = 604800"
  "per_request_deny_check sample_auth_config"
  by (simp_all add: sample_auth_config_def)

section \<open>Revocation\<close>

lemma denied_after:
  assumes m: "sm_ops m = memory_ops" and i: "mem_storage_inv s" and c: "denies c = Some l"
    and cs: "clock_runs ms0 cs ms" "\<And>t. (t, CUnban l) \<notin> set cs"
    and u: "in_i64 (seconds ms0)" "in_i64 (seconds ms)" and a: "access_timeout (sm_config m) \<le> 365 * 24 * 3600"
  shows "mem_session.obeys (deny_key l) (denied_until (seconds ms0) (seconds ms0 + access_timeout (sm_config m)))
    (seconds ms) (session_run m ((ms0, c) # cs) s)"
proof -
  let ?Q = "denied_until (seconds ms0) (seconds ms0 + access_timeout (sm_config m))"
  note over [OF m, simp]
  note w = mem_session.call_writes_ok_def [of m, unfolded over [OF m]]
  have "mem_session.obeys (deny_key l) ?Q (seconds ms0) (session_step m ms0 c s)"
    using mem_session.deny_written [where sm = m and s = s and l = l and ms = ms0 and c = c] i c u
    by (auto simp: mem_session.obeys_def denied_until_def mem_lives_def deny_refresh_value_def)
  moreover have "mem_session.call_writes_ok m t d (deny_key l) ?Q" if "(t, d) \<in> set cs" for t d
  proof -
    have t: "seconds ms0 \<le> seconds t" "in_i64 (seconds t)"
      using clock_runs_mem [OF cs(1) that] u seconds_mono [of ms0 t] seconds_mono [of t ms] by (auto simp: in_i64_def)
    then show ?thesis
      using that cs(2) a
      by (auto simp: w denied_until_def mem_lives_def deny_refresh_value_def)
  qed
  ultimately show ?thesis
    using mem_session.run_obeys [where sm = m and k = "deny_key l" and Q = ?Q and s = "session_step m ms0 c s"] cs(1)
    by (simp add: mem_session.droppable_def)
qed

lemma revoked_verdict:
  assumes "sm_ops m = memory_ops" "mem_storage_inv s" "jwt_faithful (sm_jwt m)" "per_request_deny_check (sm_config m)"
    and "access_timeout (sm_config m) \<le> 365 * 24 * 3600"
    and "in_i64 (li_user_id l)" "in_i64 (seconds ms0)" "in_i64 (seconds ms)"
    and "denies c = Some l" "clock_runs ms0 cs ms" "\<forall>t. (t, CUnban l) \<notin> set cs"
    and "encode_access (sm_jwt m) (sm_config m) iat l d profile pb (access_timeout (sm_config m)) = Inr (tok, ac)"
    and "iat \<le> seconds ms0"
  shows "fst (validate_token m ms tok (session_run m ((ms0, c) # cs) s)) \<in> {Inl RefreshRequired, Inl AccountBanned, Inl TokenExpired}"
proof -
  let ?s = "session_run m ((ms0, c) # cs) s" and ?u = "seconds ms0 + access_timeout (sm_config m)"
  note over [OF assms(1), simp]
  have o: "mem_storage_inv ?s" "denied_until (seconds ms0) ?u (seconds ms) (mem_view (seconds ms) ?s (deny_key l))"
    using denied_after [OF assms(1,2,9,10) _ assms(7,8,5)] assms(11) by (auto simp: mem_session.obeys_def)
  have v: "fst (validate_token m ms tok ?s) =
    (if iat + access_timeout (sm_config m) < seconds ms then Inl TokenExpired
     else case mem_view (seconds ms) ?s (deny_key l) of None \<Rightarrow> Inr (mem_session.access_of m ac l)
          | Some v \<Rightarrow> bind_r (deny_verdict iat v) (\<lambda>_. Inr (mem_session.access_of m ac l)))"
    using mem_session.validate_issued [of ?s m l iat d profile pb "access_timeout (sm_config m)" tok ac ms] o(1) assms by simp
  show ?thesis
  proof (cases "iat + access_timeout (sm_config m) < seconds ms")
    case False
    then obtain x where x: "mem_view (seconds ms) ?s (deny_key l) = Some x" using o(2) assms(13) by (auto simp: denied_until_def)
    have "deny_verdict iat x \<in> {Inl AccountBanned, Inl RefreshRequired}"
      using denied_verdict o(2) x False assms(13) by fastforce
    then show ?thesis using False by (auto simp: v x bind_r_def simp del: session_run.simps)
  qed (simp add: v del: session_run.simps)
qed

text \<open>
  C1. Revocation holds: after a logout, a logout of all devices, a forced refresh or a kick-out of a user,
  no access token issued to the user by then is ever accepted again, whatever calls follow (of any
  user, at any later times, logins and refreshes included), as long as the user's ban is not lifted
  explicitly. The check per request must be on, and the access lifetime at most a year.
\<close>

theorem revocation_holds:
  assumes "sm_ops m = memory_ops" "mem_storage_inv s" "jwt_faithful (sm_jwt m)" "per_request_deny_check (sm_config m)"
    and "access_timeout (sm_config m) \<le> 365 * 24 * 3600"
    and "in_i64 (li_user_id l)" "in_i64 (seconds ms0)" "in_i64 (seconds ms)"
    and "denies c = Some l" "clock_runs ms0 cs ms" "\<forall>t. (t, CUnban l) \<notin> set cs"
    and "encode_access (sm_jwt m) (sm_config m) iat l d profile pb (access_timeout (sm_config m)) = Inr (tok, ac)"
    and "iat \<le> seconds ms0"
  shows "fst (validate_token m ms tok (session_run m ((ms0, c) # cs) s)) \<in> {Inl RefreshRequired, Inl AccountBanned, Inl TokenExpired}"
  by (rule revoked_verdict [OF assms])

theorem revocation_holds_witness:
  "fst (validate_token (sample_manager 100 100) 250000 ''a.jwt''
     (session_run (sample_manager 100 100) [(100900, CForceRefresh sample_user), (200000, CGetDevices sample_user)] memory_storage_new))
   \<in> {Inl RefreshRequired, Inl AccountBanned, Inl TokenExpired}"
  by (rule revocation_holds [where iat = 100 and d = Web and profile = sample_profile and pb = None and l = sample_user
        and ac = "sample_access 100"])
    (simp_all add: seconds_def in_i64_small)

section \<open>Bans\<close>

text \<open>What stays readable under a key over a run, with the conditions on its calls written out.\<close>

lemma run_keeps:
  assumes m: "sm_ops m = memory_ops" and o: "mem_session.obeys k Q (seconds ms0) s" and cs: "clock_runs ms0 cs ms"
    and k: "(\<exists>l. k = deny_key l) \<or> (\<exists>r. k = refresh_key r) \<and> (\<forall>t. Q t None)"
    and w: "\<And>t c. (t, c) \<in> set cs \<Longrightarrow> (\<forall>l. k = deny_key l \<longrightarrow> denies c \<noteq> Some l \<and> c \<noteq> CUnban l \<and> c \<noteq> CBan l) \<and>
      (\<forall>r. draws c = Some r \<longrightarrow> k \<noteq> refresh_key r)"
  shows "mem_session.obeys k Q (seconds ms) (session_run m cs s)"
proof -
  note over [OF m, simp]
  have "mem_session.call_writes_ok m t c k Q" if "(t, c) \<in> set cs" for t c
    using w [OF that] k by (auto simp: mem_session.call_writes_ok_def [of m, unfolded over [OF m]])
  then show ?thesis
    using mem_session.run_obeys [where sm = m and k = k and Q = Q and s = s] o cs k
    by (auto simp: mem_session.droppable_def)
qed

text \<open>
  C2. A ban holds: for a year after \<open>ban_user\<close>, whatever is called in between except lifting it
  or overwriting it for the same user, every access token of the user - those issued after the ban
  included - is refused, and no refresh token of the user yields new tokens.
\<close>

theorem ban_holds:
  assumes "sm_ops m = memory_ops" "mem_storage_inv s" "jwt_faithful (sm_jwt m)" "per_request_deny_check (sm_config m)"
    and "in_i64 (li_user_id l)" "clock_runs ms0 cs ms" "seconds ms \<le> seconds ms0 + 365 * 24 * 3600"
    and "\<forall>(t, c) \<in> set cs. denies c \<noteq> Some l \<and> c \<noteq> CUnban l \<and> c \<noteq> CBan l"
    and "encode_access (sm_jwt m) (sm_config m) iat l d profile pb ttl = Inr (tok, ac)"
    and "encode_refresh (sm_jwt m) iat' rid l ttl' = Inr (rtok, rc)"
  shows "fst (validate_token m ms tok (session_run m ((ms0, CBan l) # cs) s)) \<in> {Inl AccountBanned, Inl TokenExpired}
    \<and> fst (refresh m ms uuid rtok profile' (session_run m ((ms0, CBan l) # cs) s))
        \<in> {Inl AccountBanned, Inl InvalidRefreshToken, Inl RefreshTokenExpired}"
proof -
  let ?Q = "\<lambda>t x. x = (if mem_lives (365 * 24 * 3600) (t - seconds ms0) then Some ''banned'' else None)"
  let ?s = "session_run m cs (session_step m ms0 (CBan l) s)"
  note over [OF assms(1), simp]
  have "mem_session.obeys (deny_key l) ?Q (seconds ms0) (session_step m ms0 (CBan l) s)"
    using mem_session.ban_written [where sm = m and s = s and l = l and ms = ms0] assms(2) by simp
  then have "mem_session.obeys (deny_key l) ?Q (seconds ms) ?s"
    using assms(8) by (intro run_keeps [OF assms(1) _ assms(6)]) auto
  then have o: "mem_storage_inv ?s" "mem_view (seconds ms) ?s (deny_key l) = Some ''banned''"
    using assms(7) by (auto simp: mem_session.obeys_def mem_lives_def)
  have v: "fst (validate_token m ms tok ?s) \<in> {Inl AccountBanned, Inl TokenExpired}"
    using mem_session.validate_issued [of ?s m l iat d profile pb ttl tok ac ms] o assms(3-5,9)
    by (simp add: deny_verdict_def bind_r_def)
  have "\<exists>e \<in> {AccountBanned, InvalidRefreshToken, RefreshTokenExpired}.
      mem_session.lookup_result m ms rtok (mem_view (seconds ms) ?s) = Inl e"
    using mem_session.refresh_issued [of ?s m l iat' rid ttl' rtok rc ms] o assms(3,5,10)
    by (auto simp: bind_r_def ok_or_def split: option.splits)
  then show ?thesis using v mem_session.refresh_Inl [of ?s m ms rtok _ uuid profile'] o(1) by auto
qed

theorem ban_holds_witness:
  "fst (validate_token (sample_manager 100 100) 150000 ''a.jwt''
     (session_run (sample_manager 100 100) [(90000, CBan sample_user), (140000, CGetDevices sample_user)] memory_storage_new))
     \<in> {Inl AccountBanned, Inl TokenExpired}
   \<and> fst (refresh (sample_manager 100 100) 150000 ''r2'' ''r.jwt'' sample_profile
     (session_run (sample_manager 100 100) [(90000, CBan sample_user), (140000, CGetDevices sample_user)] memory_storage_new))
     \<in> {Inl AccountBanned, Inl InvalidRefreshToken, Inl RefreshTokenExpired}"
  by (rule ban_holds [where iat = 100 and d = Web and profile = sample_profile and pb = None and l = sample_user
        and ac = "sample_access 100" and iat' = 100 and rid = "''r1''" and rc = "sample_refresh ''r1'' 100" and ttl = 3600 and ttl' = 604800])
    (simp_all add: seconds_def)

text \<open>
  A denial lifts a ban: \<open>logout\<close>, \<open>logout_all\<close>, \<open>force_refresh\<close> and \<open>kick_out\<close> overwrite the deny
  entry, so a token issued after such a call - logging in does not look at the entry - is accepted
  although the user is banned.
\<close>

theorem denial_lifts_ban:
  assumes "sm_ops m = memory_ops" "mem_storage_inv s" "jwt_faithful (sm_jwt m)" "per_request_deny_check (sm_config m)"
    and "in_i64 (li_user_id l)" "in_i64 (seconds ms1)" "denies c = Some l"
    and "encode_access (sm_jwt m) (sm_config m) iat l d profile pb ttl = Inr (tok, ac)"
    and "seconds ms1 < iat" "iat \<le> seconds ms" "seconds ms \<le> iat + ttl"
  shows "\<exists>va. fst (validate_token m ms tok (session_run m [(ms0, CBan l), (ms1, c)] s)) = Inr va \<and> va_login_id va = l"
proof -
  let ?s1 = "session_step m ms0 (CBan l) s"
  let ?s = "session_step m ms1 c ?s1"
  note over [OF assms(1), simp]
  have i: "mem_storage_inv ?s1"
    using mem_session.ban_written [where sm = m and s = s and l = l and ms = ms0] assms(2) by (simp add: mem_session.obeys_def)
  have o: "mem_storage_inv ?s" "mem_view (seconds ms) ?s (deny_key l) =
      (if mem_lives (access_timeout (sm_config m)) (seconds ms - seconds ms1) then Some (deny_refresh_value ms1) else None)"
    using mem_session.deny_written [where sm = m and s = ?s1 and l = l and ms = ms1 and c = c] i assms(7,9,10) by (auto simp: mem_session.obeys_def)
  have "deny_verdict iat (deny_refresh_value ms1) = Inr ()"
    using assms(6,9) by (simp add: deny_verdict_def deny_refresh_value_def)
  then have "fst (validate_token m ms tok ?s) = Inr (mem_session.access_of m ac l)"
    using mem_session.validate_issued [of ?s m l iat d profile pb ttl tok ac ms] o assms(3-5,8,11)
    by (simp add: bind_r_def)
  moreover have "va_login_id (mem_session.access_of m ac l) = l" by (simp add: mem_session.access_of_def [of m, unfolded over [OF assms(1)]])
  ultimately show ?thesis by simp
qed

theorem denial_lifts_ban_witness:
  "\<exists>va. fst (validate_token (sample_manager 100 100) 150000 ''a.jwt''
     (session_run (sample_manager 100 100) [(90000, CBan sample_user), (95000, CLogout sample_user Web)] memory_storage_new)) = Inr va
     \<and> va_login_id va = sample_user"
  by (rule denial_lifts_ban [where iat = 100 and d = Web and profile = sample_profile and pb = None
        and ac = "sample_access 100" and ttl = 3600])
    (simp_all add: seconds_def in_i64_small)

section \<open>Refresh tokens\<close>

text \<open>
  C3. A refresh token works once: after a successful refresh with it, every later refresh with the same
  token is refused, whatever calls come in between, as long as no call draws its identifier again.
\<close>

theorem refresh_works_once:
  assumes "sm_ops m = memory_ops" "mem_storage_inv s" "jwt_faithful (sm_jwt m)" "in_i64 (li_user_id l)"
    and "encode_refresh (sm_jwt m) iat rid l ttl = Inr (tok, rc)"
    and "fst (refresh m ms0 uuid tok profile s) = Inr tp" "uuid \<noteq> rid"
    and "clock_runs ms0 cs ms" "\<forall>(t, c) \<in> set cs. draws c \<noteq> Some rid"
  shows "fst (refresh m ms uuid' tok profile' (session_run m ((ms0, CRefresh uuid tok profile) # cs) s))
    \<in> {Inl InvalidRefreshToken, Inl RefreshTokenExpired}"
proof -
  let ?Q = "\<lambda>t x. x = None"
  let ?a = "session_step m ms0 (CRefresh uuid tok profile) s"
  let ?s = "session_run m cs ?a"
  note over [OF assms(1), simp]
  have "fst (refresh (m\<lparr>sm_ops := memory_ops\<rparr>) ms0 uuid tok profile s) = Inr tp" using assms(6) by simp
  note use_it = mem_session.refresh_consumes [OF assms(2) this, unfolded over [OF assms(1)]]
  obtain rc' l' d where look: "mem_session.lookup_result m ms0 tok (mem_view (seconds ms0) s) = Inr (rc', l', d)"
    and gone: "mem_session.obeys (refresh_key (rc_rid rc')) ?Q (seconds ms0) ?a"
    by (rule use_it) auto
  have "rc' = rc"
    using look mem_session.refresh_issued [of s m l iat rid ttl tok rc ms0] assms(2-5)
    by (auto simp: bind_r_def split: if_splits sum.splits prod.splits)
  then have "rc_rid rc' = rid" using encode_refresh_Inr(1) [OF assms(5)] by simp
  then have "mem_session.obeys (refresh_key rid) ?Q (seconds ms0) ?a" using gone by simp
  then have "mem_session.obeys (refresh_key rid) ?Q (seconds ms) ?s"
    using assms(9) by (intro run_keeps [OF assms(1) _ assms(8)]) auto
  then have o: "mem_storage_inv ?s" "mem_view (seconds ms) ?s (refresh_key rid) = None"
    by (auto simp: mem_session.obeys_def)
  have "\<exists>e \<in> {InvalidRefreshToken, RefreshTokenExpired}. mem_session.lookup_result m ms tok (mem_view (seconds ms) ?s) = Inl e"
    using mem_session.refresh_issued [of ?s m l iat rid ttl tok rc ms] o assms(3-5) by (simp add: bind_r_def ok_or_def)
  then show ?thesis using mem_session.refresh_Inl [of ?s m ms tok _ uuid' profile'] o(1) by auto
qed

definition sample_store :: memory_storage where
  "sample_store = \<lparr>ms_data = [(refresh_key ''r1'', \<lparr>en_value = refresh_value sample_user Web, en_expires_at = None\<rparr>)],
     ms_write_count = 1\<rparr>"

lemma sample_store_inv [simp]: "mem_storage_inv sample_store"
  by (simp add: mem_storage_inv_def sample_store_def)

theorem refresh_works_once_witness:
  "fst (refresh (sample_manager 100 50) 180000 ''r3'' ''r.jwt'' sample_profile
     (session_run (sample_manager 100 50) [(100000, CRefresh ''r2'' ''r.jwt'' sample_profile), (170000, CLogout sample_user Web)] sample_store))
   \<in> {Inl InvalidRefreshToken, Inl RefreshTokenExpired}"
proof (rule refresh_works_once [where iat = 50 and rid = "''r1''" and l = sample_user and rc = "sample_refresh ''r1'' 50" and ttl = 604800])
  show "fst (refresh (sample_manager 100 50) 100000 ''r2'' ''r.jwt'' sample_profile sample_store) =
      Inr \<lparr>access_token = ''a.jwt'', refresh_token = ''r2.jwt'', expires_in = 3600\<rparr>"
    by code_simp
qed simp_all

section \<open>Logins\<close>

text \<open>
  C5. The access token of a successful login of a user without a deny entry (neither banned nor under a
  denial left by an earlier logout, forced refresh or kick-out) is accepted until it expires, with the
  identity, device and roles of the login, whatever is called in between, as long as no call logs this
  user out, forces a refresh on, kicks out, bans or unbans the user. The manager looks at the deny entry
  on every request, and the JWT library decodes what it encodes.
\<close>

theorem login_token_accepted:
  assumes "sm_ops m = memory_ops" "mem_storage_inv s" "jwt_faithful (sm_jwt m)" "per_request_deny_check (sm_config m)"
    and "fst (login m ms0 uuid p s) = Inr tp" "in_i64 (li_user_id (lp_login_id p))"
    and "mem_view (seconds ms0) s (deny_key (lp_login_id p)) = None"
    and "clock_runs ms0 cs ms" "seconds ms \<le> seconds ms0 + access_timeout (sm_config m)"
    and "\<forall>(t, c) \<in> set cs. denies c \<noteq> Some (lp_login_id p) \<and> c \<noteq> CUnban (lp_login_id p) \<and> c \<noteq> CBan (lp_login_id p)"
  shows "fst (validate_token m ms (access_token tp) (session_run m ((ms0, CLogin uuid p) # cs) s)) =
    Inr \<lparr>va_login_id = lp_login_id p, va_device = device_of (device_str (lp_device p)),
         va_user_name = user_name (lp_profile p), va_nick_name = nick_name (lp_profile p), va_roles = roles (lp_profile p),
         va_permissions = claims_permissions m (access_claims_of (sm_config m) (seconds ms0) (lp_login_id p) (lp_device p)
           (lp_profile p) (encode_permissions m (lp_profile p)) (access_timeout (sm_config m)))\<rparr>"
proof -
  let ?l = "lp_login_id p" and ?s = "session_run m ((ms0, CLogin uuid p) # cs) s"
  note over [OF assms(1), simp]
  obtain ac where e: "encode_access (sm_jwt m) (sm_config m) (seconds ms0) ?l (lp_device p) (lp_profile p)
      (encode_permissions m (lp_profile p)) (access_timeout (sm_config m)) = Inr (access_token tp, ac)"
    using mem_session.login_Inr [of s m ms0 uuid p tp] assms(2,5) by auto
  have "mem_session.obeys (deny_key ?l) (\<lambda>t x. x = None) (seconds ms0) s"
    using mem_session.absent_obeys [OF assms(2,7)] .
  then have "mem_session.obeys (deny_key ?l) (\<lambda>t x. x = None) (seconds ms) ?s"
    using assms(8,10) by (intro run_keeps [OF assms(1)]) auto
  then have o: "mem_storage_inv ?s" "mem_view (seconds ms) ?s (deny_key ?l) = None"
    by (auto simp: mem_session.obeys_def)
  have "fst (validate_token m ms (access_token tp) ?s) = Inr (mem_session.access_of m ac ?l)"
    using mem_session.validate_issued [of ?s m ?l "seconds ms0" "lp_device p" "lp_profile p"
        "encode_permissions m (lp_profile p)" "access_timeout (sm_config m)" "access_token tp" ac ms] o e assms(3,4,6,9)
    by (simp del: session_run.simps)
  then show ?thesis
    using encode_access_Inr(1) [OF e]
    by (simp add: mem_session.access_of_def [of m, unfolded over [OF assms(1)]] access_claims_of_def del: session_run.simps)
qed

definition sample_login :: login_params where
  "sample_login = \<lparr>lp_login_id = sample_user, lp_device = Web, lp_login_ip = ''10.0.0.1'', lp_user_agent = ''curl'',
     lp_profile = sample_profile\<rparr>"

theorem login_token_accepted_witness:
  "fst (validate_token (sample_manager 100 50) 900000 ''a.jwt''
     (session_run (sample_manager 100 50) [(100000, CLogin ''r2'' sample_login), (400000, CGetDevices sample_user)] memory_storage_new)) =
   Inr \<lparr>va_login_id = sample_user, va_device = Web, va_user_name = ''ann'', va_nick_name = ''Ann'', va_roles = [''admin''],
        va_permissions = [''system:*'']\<rparr>"
proof -
  have ok: "fst (login (sample_manager 100 50) 100000 ''r2'' sample_login memory_storage_new) =
      Inr \<lparr>access_token = ''a.jwt'', refresh_token = ''r2.jwt'', expires_in = 3600\<rparr>"
    by code_simp
  have "fst (validate_token (sample_manager 100 50) 900000 (access_token \<lparr>access_token = ''a.jwt'', refresh_token = ''r2.jwt'', expires_in = 3600\<rparr>)
     (session_run (sample_manager 100 50) [(100000, CLogin ''r2'' sample_login), (400000, CGetDevices sample_user)] memory_storage_new)) =
    Inr \<lparr>va_login_id = lp_login_id sample_login, va_device = device_of (device_str (lp_device sample_login)),
         va_user_name = user_name (lp_profile sample_login), va_nick_name = nick_name (lp_profile sample_login),
         va_roles = roles (lp_profile sample_login),
         va_permissions = claims_permissions (sample_manager 100 50) (access_claims_of (sm_config (sample_manager 100 50)) (seconds 100000)
           (lp_login_id sample_login) (lp_device sample_login) (lp_profile sample_login)
           (encode_permissions (sample_manager 100 50) (lp_profile sample_login)) (access_timeout (sm_config (sample_manager 100 50))))\<rparr>"
    by (rule login_token_accepted [OF _ _ _ _ ok])
      (simp_all add: sample_login_def seconds_def)
  moreover have "claims_permissions (sample_manager 100 50) (access_claims_of (sm_config (sample_manager 100 50)) (seconds 100000)
           (lp_login_id sample_login) (lp_device sample_login) (lp_profile sample_login)
           (encode_permissions (sample_manager 100 50) (lp_profile sample_login)) (access_timeout (sm_config (sample_manager 100 50)))) = [''system:*'']"
    by (simp add: claims_permissions_def access_claims_of_def encode_permissions_def sample_manager_def sample_login_def sample_profile_def)
  ultimately show ?thesis by (simp add: sample_login_def sample_profile_def device_of_def)
qed

section \<open>Sessions per user\<close>

text \<open>
  C4. Whatever calls are made from the empty store, no user ever holds more session entries than
  \<open>max_devices\<close>, and with concurrent login switched off at most one.
\<close>

theorem devices_within_limit:
  assumes "sm_ops m = memory_ops" "\<forall>i json. sm_json_encode m i = Inr json \<longrightarrow> sm_json_decode m json \<noteq> None"
    and "clock_runs ms0 cs ms"
  shows "(0 < max_devices (sm_config m) \<longrightarrow>
        card (device_keys l (mem_view (seconds ms) (session_run m cs memory_storage_new))) \<le> max_devices (sm_config m)) \<and>
    (\<not> concurrent_login (sm_config m) \<longrightarrow>
        card (device_keys l (mem_view (seconds ms) (session_run m cs memory_storage_new))) \<le> 1)"
proof -
  note over [OF assms(1), simp]
  have "mem_session.within_limit m (seconds ms) (session_run m cs memory_storage_new)"
    using mem_session.run_within [of m memory_storage_new ms0 cs ms] assms
    by (simp add: mem_session.codec_reads_def [of m, unfolded over [OF assms(1)]] mem_session.readable_def [of m, unfolded over [OF assms(1)]]
        mem_session.within_limit_def [of m, unfolded over [OF assms(1)]] mem_session.obeys_def device_keys_def
        mem_session.device_limit_def [of m, unfolded over [OF assms(1)]])
  then show ?thesis
    by (simp add: mem_session.within_limit_def [of m, unfolded over [OF assms(1)]]
        mem_session.device_limit_def [of m, unfolded over [OF assms(1)]])
qed

theorem devices_within_limit_witness:
  "card (device_keys sample_user (mem_view 900 (session_run (sample_manager 100 50)
      [(100000, CLogin ''r2'' sample_login), (400000, CLogin ''r3'' sample_login)] memory_storage_new))) \<le> 5"
  using devices_within_limit [of "sample_manager 100 50" 100000
      "[(100000, CLogin ''r2'' sample_login), (400000, CLogin ''r3'' sample_login)]" 900000 sample_user]
  by (simp add: seconds_def sample_manager_def sample_auth_config_def)

end
