(* ===== verification/Auth_Qr.thy ===== *)
theory Auth_Qr
  imports Auth_Session_Calls
begin

text \<open>
  Logging in by QR code, \<^verbatim>\<open>crates/summer-auth/src/qrcode.rs\<close>: the five operations over the session
  store, the abstract state machine they implement (\<open>qr_move\<close>), and the simulation of one by the
  other for every operation of the session manager. JSON is the parameter \<open>qr_codec\<close>.
\<close>

datatype qr_code_state =
  Pending
| Scanned (qr_scanned_by: login_id)
| Confirmed (qr_tokens: token_pair)
| Cancelled

record qr_codec =
  qr_encode :: "qr_code_state \<Rightarrow> string + string"
  qr_decode :: "string \<Rightarrow> string + qr_code_state"

definition qr_key :: "string \<Rightarrow> string" where
  "qr_key code = ''auth:qr:'' @ code"

text \<open>Serialising a state and storing it: the end of every operation that changes the state.\<close>

definition qr_put :: "qr_codec \<Rightarrow> 's session_manager \<Rightarrow> int \<Rightarrow> string \<Rightarrow> qr_code_state \<Rightarrow> ('s, auth_error, unit) sm" where
  "qr_put cod sm ms code st =
     bind_s (lift_r (map_err AuthInternal (qr_encode cod st)))
       (\<lambda>json. set_string sm ms (qr_key code) json (qr_code_timeout (sm_config sm)))"

definition create_qr_code :: "qr_codec \<Rightarrow> 's session_manager \<Rightarrow> int \<Rightarrow> string \<Rightarrow> ('s, auth_error, string) sm" where
  "create_qr_code cod sm ms uuid = bind_s (qr_put cod sm ms uuid Pending) (\<lambda>_. ok_s uuid)"

definition get_qr_state_internal :: "qr_codec \<Rightarrow> 's session_manager \<Rightarrow> int \<Rightarrow> string \<Rightarrow> ('s, auth_error, qr_code_state) sm" where
  "get_qr_state_internal cod sm ms code =
     bind_s (get_string sm ms (qr_key code))
       (\<lambda>v. bind_s (lift_r (ok_or QrCodeNotFound v))
         (\<lambda>json. lift_r (map_err AuthInternal (qr_decode cod json))))"

definition get_qr_code_state :: "qr_codec \<Rightarrow> 's session_manager \<Rightarrow> int \<Rightarrow> string \<Rightarrow> ('s, auth_error, qr_code_state) sm" where
  "get_qr_code_state cod sm ms code = get_qr_state_internal cod sm ms code"

definition scan_qr_code :: "qr_codec \<Rightarrow> 's session_manager \<Rightarrow> int \<Rightarrow> string \<Rightarrow> login_id \<Rightarrow> ('s, auth_error, unit) sm" where
  "scan_qr_code cod sm ms code l =
     bind_s (get_qr_state_internal cod sm ms code)
       (\<lambda>st. if st = Pending then qr_put cod sm ms code (Scanned l) else err_s QrCodeInvalidState)"

text \<open>
  Confirming is a check and then a login with the storing of its tokens; other requests can come in
  between.
\<close>

definition confirm_check :: "qr_codec \<Rightarrow> 's session_manager \<Rightarrow> int \<Rightarrow> string \<Rightarrow> login_params \<Rightarrow> ('s, auth_error, unit) sm" where
  "confirm_check cod sm ms code p =
     bind_s (get_qr_state_internal cod sm ms code)
       (\<lambda>st. if st = Scanned (lp_login_id p) then ok_s () else err_s QrCodeInvalidState)"

definition confirm_finish ::
  "qr_codec \<Rightarrow> 's session_manager \<Rightarrow> int \<Rightarrow> string \<Rightarrow> string \<Rightarrow> login_params \<Rightarrow> ('s, auth_error, unit) sm" where
  "confirm_finish cod sm ms code uuid p =
     bind_s (login sm ms uuid p) (\<lambda>tp. qr_put cod sm ms code (Confirmed tp))"

definition confirm_qr_code ::
  "qr_codec \<Rightarrow> 's session_manager \<Rightarrow> int \<Rightarrow> string \<Rightarrow> string \<Rightarrow> login_params \<Rightarrow> ('s, auth_error, unit) sm" where
  "confirm_qr_code cod sm ms code uuid p =
     bind_s (confirm_check cod sm ms code p) (\<lambda>_. confirm_finish cod sm ms code uuid p)"

definition cancel_qr_code :: "qr_codec \<Rightarrow> 's session_manager \<Rightarrow> int \<Rightarrow> string \<Rightarrow> ('s, auth_error, unit) sm" where
  "cancel_qr_code cod sm ms code =
     bind_s (get_qr_state_internal cod sm ms code)
       (\<lambda>st. case st of Pending \<Rightarrow> qr_put cod sm ms code Cancelled
                    | Scanned _ \<Rightarrow> qr_put cod sm ms code Cancelled
                    | _ \<Rightarrow> err_s QrCodeInvalidState)"

section \<open>Calls and the state machine\<close>

datatype qr_call =
  QCreate string | QScan string login_id | QConfirm string string login_params | QCancel string | QPoll string
| QSession session_call

fun qr_step :: "qr_codec \<Rightarrow> 's session_manager \<Rightarrow> int \<Rightarrow> qr_call \<Rightarrow> 's \<Rightarrow> 's" where
  "qr_step cod sm ms (QCreate uuid) s = snd (create_qr_code cod sm ms uuid s)"
| "qr_step cod sm ms (QScan code l) s = snd (scan_qr_code cod sm ms code l s)"
| "qr_step cod sm ms (QConfirm code uuid p) s = snd (confirm_qr_code cod sm ms code uuid p s)"
| "qr_step cod sm ms (QCancel code) s = snd (cancel_qr_code cod sm ms code s)"
| "qr_step cod sm ms (QPoll code) s = snd (get_qr_code_state cod sm ms code s)"
| "qr_step cod sm ms (QSession c) s = session_step sm ms c s"

text \<open>What a code stands for in the store.\<close>

definition qr_at :: "qr_codec \<Rightarrow> (string \<rightharpoonup> string) \<Rightarrow> string \<Rightarrow> qr_code_state option" where
  "qr_at cod V code =
     (case V (qr_key code) of None \<Rightarrow> None
      | Some json \<Rightarrow> (case qr_decode cod json of Inl _ \<Rightarrow> None | Inr st \<Rightarrow> Some st))"

text \<open>The state machine of one code: what a call may do to it.\<close>

inductive qr_move :: "string \<Rightarrow> qr_call \<Rightarrow> qr_code_state option \<Rightarrow> qr_code_state option \<Rightarrow> bool" where
  stay: "qr_move q c x x"
| create: "qr_move q (QCreate q) x (Some Pending)"
| scan: "qr_move q (QScan q l) (Some Pending) (Some (Scanned l))"
| confirm: "qr_move q (QConfirm q uuid p) (Some (Scanned (lp_login_id p))) (Some (Confirmed tp))"
| cancel_pending: "qr_move q (QCancel q) (Some Pending) (Some Cancelled)"
| cancel_scanned: "qr_move q (QCancel q) (Some (Scanned l)) (Some Cancelled)"

inductive_cases qr_move_scannedE: "qr_move q c x (Some (Scanned l))"
inductive_cases qr_move_confirmedE: "qr_move q c x (Some (Confirmed tp))"

lemma qr_key_inj [simp]: "qr_key a = qr_key b \<longleftrightarrow> a = b"
  by (simp add: qr_key_def)

lemma qr_key_apart [simp]:
  "qr_key q \<noteq> deny_key l" "qr_key q \<noteq> refresh_key r" "qr_key q \<noteq> device_key l d" "\<not> session_entry (qr_key q)"
  "deny_key l \<noteq> qr_key q" "refresh_key r \<noteq> qr_key q" "device_key l d \<noteq> qr_key q"
  by (auto simp: qr_key_def deny_key_def refresh_key_def device_key_def session_entry_def device_prefix_def)

definition qr_faithful :: "qr_codec \<Rightarrow> bool" where
  "qr_faithful cod \<longleftrightarrow> (\<forall>st json. qr_encode cod st = Inr json \<longrightarrow> qr_decode cod json = Inr st)"

section \<open>The simulation\<close>

context session_store
begin

definition qr_result :: "qr_codec \<Rightarrow> (string \<rightharpoonup> string) \<Rightarrow> string \<Rightarrow> auth_error + qr_code_state" where
  "qr_result cod V code =
     bind_r (ok_or QrCodeNotFound (V (qr_key code))) (\<lambda>json. map_err AuthInternal (qr_decode cod json))"

lemma eff_qr_get:
  assumes "inv s"
  shows "eff (seconds ms) (get_qr_state_internal cod sm ms code) s (qr_result cod (view (seconds ms) s) code) (\<lambda>t V. V)"
proof -
  note g = eff_get [OF assms, of ms "qr_key code"]
  have e: "eff now (lift_r r) s' r (\<lambda>t V. V)" if "inv s'" for r :: "auth_error + qr_code_state" and s' now
    using that by (simp add: eff_def lift_r_def)
  show ?thesis
    unfolding get_qr_state_internal_def qr_result_def
    by (rule eff_bind [OF g, where h = "\<lambda>t V. V"], rule eff_bind_lift_r) (auto intro: e effD(2) [OF g])
qed

lemma qr_result_Inr: "qr_result cod V q = Inr st \<longleftrightarrow> qr_at cod V q = Some st"
  by (auto simp: qr_result_def qr_at_def bind_r_def ok_or_def map_err_def split: option.splits sum.splits)

lemma pres_qr_put: "code \<noteq> q \<Longrightarrow> pres (qr_key q) Q (seconds ms) (qr_put cod sm ms code st)"
  unfolding qr_put_def by (auto intro!: pres_bind pres_set)

lemma pres_qr_get: "pres (qr_key q) Q (seconds ms) (get_qr_state_internal cod sm ms code)"
  unfolding get_qr_state_internal_def by (auto intro!: pres_bind)

lemma pres_login_qr: "pres (qr_key q) Q (seconds ms) (login sm ms uuid p)"
  by (rule pres_login) (auto simp: call_writes_ok_def droppable_def)

lemma obeys_view: "inv s \<Longrightarrow> obeys k (\<lambda>t x. x = view t s k) now s"
  by (simp add: obeys_def)

lemma pres_view:
  assumes "inv s" "\<And>Q. pres k Q now m"
  shows "inv (snd (m s)) \<and> view now (snd (m s)) k = view now s k"
  using presD [OF assms(2) obeys_view [OF assms(1)]] by (auto simp: obeys_def)

lemma qr_put_at:
  assumes "qr_faithful cod" "inv s"
  shows "inv (snd (qr_put cod sm ms q st s)) \<and>
    (qr_at cod (view (seconds ms) (snd (qr_put cod sm ms q st s))) q \<in> {Some st, qr_at cod (view (seconds ms) s) q})"
proof (cases "qr_encode cod st")
  case (Inl e)
  then show ?thesis using assms by (simp add: qr_put_def map_err_def bind_s_def lift_r_def)
next
  case (Inr json)
  have "qr_put cod sm ms q st s = set_string sm ms (qr_key q) json (qr_code_timeout (sm_config sm)) s"
    using Inr by (simp add: qr_put_def map_err_def bind_s_def lift_r_def)
  then show ?thesis
    using effD(2) [OF eff_set [OF assms(2), of ms "qr_key q" json "qr_code_timeout (sm_config sm)"]]
      effD(3) [OF eff_set [OF assms(2), of ms "qr_key q" json "qr_code_timeout (sm_config sm)"], of "seconds ms"]
      assms(1) Inr lives_zero by (simp add: qr_at_def qr_faithful_def)
qed

text \<open>An operation that looks at the state of its code and then acts on it or fails.\<close>

lemma qr_guarded:
  assumes i: "inv s" and act: "\<And>st s'. inv s' \<Longrightarrow> view (seconds ms) s' = view (seconds ms) s \<Longrightarrow>
      qr_at cod (view (seconds ms) s) q = Some st \<Longrightarrow> inv (snd (g st s')) \<and> R (snd (g st s'))"
    and same: "\<And>s'. inv s' \<Longrightarrow> view (seconds ms) s' = view (seconds ms) s \<Longrightarrow> R s'"
  shows "inv (snd (bind_s (get_qr_state_internal cod sm ms q) g s)) \<and> R (snd (bind_s (get_qr_state_internal cod sm ms q) g s))"
proof -
  note e = eff_qr_get [OF i, of ms cod q]
  let ?s = "snd (get_qr_state_internal cod sm ms q s)"
  have s': "inv ?s" "view (seconds ms) ?s = view (seconds ms) s" using effD(2,3) [OF e] by auto
  show ?thesis
  proof (cases "fst (get_qr_state_internal cod sm ms q s)")
    case (Inl x)
    then have "snd (bind_s (get_qr_state_internal cod sm ms q) g s) = ?s"
      by (cases "get_qr_state_internal cod sm ms q s") (simp add: bind_s_def)
    then show ?thesis using s' same by simp
  next
    case (Inr st)
    then have "qr_at cod (view (seconds ms) s) q = Some st" using effD(1) [OF e] by (simp add: qr_result_Inr)
    moreover have "bind_s (get_qr_state_internal cod sm ms q) g s = g st ?s"
      using Inr by (cases "get_qr_state_internal cod sm ms q s") (simp add: bind_s_def)
    ultimately show ?thesis using act s' by simp
  qed
qed

lemma confirm_finish_at:
  assumes "qr_faithful cod" "inv s"
  shows "inv (snd (confirm_finish cod sm ms q uuid p s)) \<and>
    (qr_at cod (view (seconds ms) (snd (confirm_finish cod sm ms q uuid p s))) q = qr_at cod (view (seconds ms) s) q \<or>
     (\<exists>tp. qr_at cod (view (seconds ms) (snd (confirm_finish cod sm ms q uuid p s))) q = Some (Confirmed tp)))"
proof -
  have l: "inv (snd (login sm ms uuid p s))"
    "qr_at cod (view (seconds ms) (snd (login sm ms uuid p s))) q = qr_at cod (view (seconds ms) s) q"
    using pres_view [where k = "qr_key q" and now = "seconds ms" and m = "login sm ms uuid p", OF assms(2) pres_login_qr] by (simp_all add: qr_at_def)
  show ?thesis
  proof (cases "fst (login sm ms uuid p s)")
    case (Inl e)
    then show ?thesis using l by (cases "login sm ms uuid p s") (simp add: confirm_finish_def bind_s_def)
  next
    case (Inr tp)
    then have "confirm_finish cod sm ms q uuid p s = qr_put cod sm ms q (Confirmed tp) (snd (login sm ms uuid p s))"
      by (cases "login sm ms uuid p s") (simp add: confirm_finish_def bind_s_def)
    then show ?thesis using qr_put_at [OF assms(1) l(1), of ms q "Confirmed tp"] l(2) by auto
  qed
qed

lemma qr_other:
  assumes "inv s" and "\<And>Q. pres (qr_key q) Q (seconds ms) m"
  shows "inv (snd (m s)) \<and> qr_move q c (qr_at cod (view (seconds ms) s) q) (qr_at cod (view (seconds ms) (snd (m s))) q)"
  using pres_view [OF assms] by (simp add: qr_at_def stay)

lemma qr_step_move:
  assumes f: "qr_faithful cod" and i: "inv s"
  shows "inv (qr_step cod sm ms c s) \<and>
    qr_move q c (qr_at cod (view (seconds ms) s) q) (qr_at cod (view (seconds ms) (qr_step cod sm ms c s)) q)"
proof (cases c)
  case (QCreate u)
  have e: "snd (create_qr_code cod sm ms u s) = snd (qr_put cod sm ms u Pending s)"
    by (cases "qr_put cod sm ms u Pending s") (simp add: create_qr_code_def bind_s_def ok_s_def split: sum.splits)
  show ?thesis
  proof (cases "u = q")
    case True
    show ?thesis
      unfolding QCreate qr_step.simps e unfolding True using qr_put_at [OF f i, of ms q Pending] by (auto intro: qr_move.intros)
  next
    case False
    then show ?thesis unfolding QCreate qr_step.simps e by (intro qr_other i pres_qr_put)
  qed
next
  case (QScan u l)
  show ?thesis
  proof (cases "u = q")
    case True
    show ?thesis
      unfolding QScan qr_step.simps scan_qr_code_def True
    proof (rule qr_guarded [OF i])
      fix st s' assume s': "inv s'" "view (seconds ms) s' = view (seconds ms) s" "qr_at cod (view (seconds ms) s) q = Some st"
      then show "inv (snd ((if st = Pending then qr_put cod sm ms q (Scanned l) else err_s QrCodeInvalidState) s')) \<and>
        qr_move q (QScan q l) (qr_at cod (view (seconds ms) s) q)
          (qr_at cod (view (seconds ms) (snd ((if st = Pending then qr_put cod sm ms q (Scanned l) else err_s QrCodeInvalidState) s'))) q)"
        using qr_put_at [OF f s'(1), of ms q "Scanned l"] by (auto simp: err_s_def intro: qr_move.intros)
    qed (auto intro: qr_move.intros)
  next
    case False
    then show ?thesis unfolding QScan qr_step.simps scan_qr_code_def
      by (intro qr_other i pres_bind pres_qr_get) (auto intro: pres_qr_put)
  qed
next
  case (QConfirm u uuid p)
  have e: "snd (confirm_qr_code cod sm ms u uuid p s) = snd (bind_s (get_qr_state_internal cod sm ms u)
      (\<lambda>st. if st = Scanned (lp_login_id p) then confirm_finish cod sm ms u uuid p else err_s QrCodeInvalidState) s)"
    by (auto simp: confirm_qr_code_def confirm_check_def bind_s_def ok_s_def err_s_def split: prod.splits sum.splits)
  show ?thesis
  proof (cases "u = q")
    case True
    show ?thesis
      unfolding QConfirm qr_step.simps e unfolding True
    proof (rule qr_guarded [OF i])
      fix st s' assume s': "inv s'" "view (seconds ms) s' = view (seconds ms) s" "qr_at cod (view (seconds ms) s) q = Some st"
      let ?g = "if st = Scanned (lp_login_id p) then confirm_finish cod sm ms q uuid p else err_s QrCodeInvalidState"
      show "inv (snd (?g s')) \<and> qr_move q (QConfirm q uuid p) (qr_at cod (view (seconds ms) s) q)
          (qr_at cod (view (seconds ms) (snd (?g s'))) q)"
        using confirm_finish_at [OF f s'(1), of ms q uuid p] s' by (auto simp: err_s_def intro: qr_move.intros)
    qed (auto intro: qr_move.intros)
  next
    case False
    then show ?thesis unfolding QConfirm qr_step.simps e
      by (intro qr_other i pres_bind pres_qr_get) (auto simp: confirm_finish_def intro!: pres_bind pres_login_qr pres_qr_put)
  qed
next
  case (QCancel u)
  show ?thesis
  proof (cases "u = q")
    case True
    show ?thesis
      unfolding QCancel qr_step.simps cancel_qr_code_def True
    proof (rule qr_guarded [OF i])
      fix st s' assume s': "inv s'" "view (seconds ms) s' = view (seconds ms) s" "qr_at cod (view (seconds ms) s) q = Some st"
      let ?g = "case st of Pending \<Rightarrow> qr_put cod sm ms q Cancelled | Scanned _ \<Rightarrow> qr_put cod sm ms q Cancelled
        | _ \<Rightarrow> err_s QrCodeInvalidState"
      show "inv (snd (?g s')) \<and> qr_move q (QCancel q) (qr_at cod (view (seconds ms) s) q)
          (qr_at cod (view (seconds ms) (snd (?g s'))) q)"
        using qr_put_at [OF f s'(1), of ms q Cancelled] s' by (cases st) (auto simp: err_s_def intro: qr_move.intros)
    qed (auto intro: qr_move.intros)
  next
    case False
    then show ?thesis unfolding QCancel qr_step.simps cancel_qr_code_def
      by (intro qr_other i pres_bind pres_qr_get) (auto intro: pres_qr_put split: qr_code_state.splits)
  qed
next
  case (QPoll u)
  show ?thesis unfolding QPoll qr_step.simps get_qr_code_state_def by (intro qr_other i pres_qr_get)
next
  case (QSession c')
  have "obeys (qr_key q) (\<lambda>t x. x = view t s (qr_key q)) (seconds ms) (session_step sm ms c' s)"
    by (intro call_obeys obeys_view i) (auto simp: call_writes_ok_def droppable_def)
  then show ?thesis by (auto simp: QSession obeys_def qr_at_def intro: stay)
qed

end

end
