(* ===== verification/Auth_Qr_Properties.thy ===== *)
theory Auth_Qr_Properties
  imports Auth_Qr Auth_Session_Properties
begin

text \<open>
  Properties of the QR login over the memory store: every operation of the session manager refines the
  state machine \<open>qr_move\<close>, and in every run a confirmed code was scanned and then confirmed by the
  same user.
\<close>

fun qr_run :: "qr_codec \<Rightarrow> 's session_manager \<Rightarrow> (int \<times> qr_call) list \<Rightarrow> 's \<Rightarrow> 's" where
  "qr_run cod sm [] s = s"
| "qr_run cod sm ((ms, c) # cs) s = qr_run cod sm cs (qr_step cod sm ms c s)"

lemma qr_run_snoc: "qr_run cod sm (cs @ [(ms, c)]) s = qr_step cod sm ms c (qr_run cod sm cs s)"
  by (induction cod sm cs s rule: qr_run.induct) auto

lemma clock_runs_snoc: "clock_runs ms (cs @ [(m, c)]) ms' \<longleftrightarrow> clock_runs ms cs m \<and> m \<le> ms'"
  by (induction ms cs m rule: clock_runs.induct) auto

text \<open>The history a state needs: who scanned, and who confirmed after that.\<close>

definition scanned_in :: "string \<Rightarrow> (int \<times> qr_call) list \<Rightarrow> login_id \<Rightarrow> bool" where
  "scanned_in q cs l \<longleftrightarrow> (\<exists>A t B. cs = A @ (t, QScan q l) # B)"

definition confirmed_in :: "string \<Rightarrow> (int \<times> qr_call) list \<Rightarrow> bool" where
  "confirmed_in q cs \<longleftrightarrow>
     (\<exists>A t l B t' uuid p C. cs = A @ (t, QScan q l) # B @ (t', QConfirm q uuid p) # C \<and> lp_login_id p = l)"

definition accounted :: "string \<Rightarrow> (int \<times> qr_call) list \<Rightarrow> qr_code_state option \<Rightarrow> bool" where
  "accounted q cs x \<longleftrightarrow> (\<forall>l. x = Some (Scanned l) \<longrightarrow> scanned_in q cs l) \<and> (\<forall>tp. x = Some (Confirmed tp) \<longrightarrow> confirmed_in q cs)"

lemma scanned_in_snoc: "scanned_in q cs l \<Longrightarrow> scanned_in q (cs @ [c]) l"
  unfolding scanned_in_def by (metis append.assoc append_Cons)

lemma confirmed_in_snoc: "confirmed_in q cs \<Longrightarrow> confirmed_in q (cs @ [c])"
  unfolding confirmed_in_def by (metis append.assoc append_Cons)

lemma scan_snoc: "scanned_in q (cs @ [(t, QScan q l)]) l"
  unfolding scanned_in_def by blast

lemma confirm_snoc:
  assumes "scanned_in q cs (lp_login_id p)"
  shows "confirmed_in q (cs @ [(t, QConfirm q uuid p)])"
proof -
  obtain A t' B where "cs = A @ (t', QScan q (lp_login_id p)) # B" using assms by (auto simp: scanned_in_def)
  then have "cs @ [(t, QConfirm q uuid p)] = A @ (t', QScan q (lp_login_id p)) # B @ (t, QConfirm q uuid p) # []" by simp
  then show ?thesis unfolding confirmed_in_def by blast
qed

lemma accounted_move:
  assumes "qr_move q c x y" "accounted q cs x"
  shows "accounted q (cs @ [(t, c)]) y"
  using assms by cases (auto simp: accounted_def scan_snoc confirm_snoc intro: scanned_in_snoc confirmed_in_snoc)

lemma accounted_None: "accounted q cs None"
  by (simp add: accounted_def)

lemma qr_at_fades:
  assumes "mem_storage_inv s" "t \<le> t'"
  shows "qr_at cod (mem_view t' s) q = None \<or> qr_at cod (mem_view t' s) q = qr_at cod (mem_view t s) q"
  using mem_store.fades [OF assms, of "qr_key q"] by (auto simp: qr_at_def)

lemma qr_step_mem:
  assumes "sm_ops m = memory_ops" "qr_faithful cod" "mem_storage_inv s"
  shows "mem_storage_inv (qr_step cod m ms c s) \<and>
    qr_move q c (qr_at cod (mem_view (seconds ms) s) q) (qr_at cod (mem_view (seconds ms) (qr_step cod m ms c s)) q)"
  using mem_session.qr_step_move [where sm = m, unfolded over [OF assms(1)], OF assms(2,3)] .

lemma run_accounted:
  assumes m: "sm_ops m = memory_ops" and f: "qr_faithful cod" and i: "mem_storage_inv s"
    and none: "qr_at cod (mem_view (seconds ms0) s) q = None" and clock: "clock_runs ms0 cs ms"
  shows "mem_storage_inv (qr_run cod m cs s) \<and> accounted q cs (qr_at cod (mem_view (seconds ms) (qr_run cod m cs s)) q)"
  using clock
proof (induction cs arbitrary: ms rule: rev_induct)
  case Nil
  then have "seconds ms0 \<le> seconds ms" by (auto intro: seconds_mono)
  then have "qr_at cod (mem_view (seconds ms) s) q = None" using qr_at_fades [OF i, of "seconds ms0"] none by fastforce
  then show ?case using i by (simp add: accounted_None)
next
  case (snoc x cs)
  obtain t c where x: "x = (t, c)" by (cases x) auto
  have c: "clock_runs ms0 cs t" "t \<le> ms" using snoc.prems by (auto simp: x clock_runs_snoc)
  let ?s = "qr_run cod m cs s"
  have IH: "mem_storage_inv ?s" "accounted q cs (qr_at cod (mem_view (seconds t) ?s) q)" using snoc.IH [OF c(1)] by auto
  note step = qr_step_mem [OF m f IH(1), of t c q]
  have "accounted q (cs @ [x]) (qr_at cod (mem_view (seconds t) (qr_step cod m t c ?s)) q)"
    using accounted_move [OF step [THEN conjunct2] IH(2)] by (simp add: x)
  then have "accounted q (cs @ [x]) (qr_at cod (mem_view (seconds ms) (qr_step cod m t c ?s)) q)"
    using qr_at_fades [OF step [THEN conjunct1] seconds_mono [OF c(2)], of cod q] accounted_None by metis
  then show ?case using step by (simp add: x qr_run_snoc)
qed

definition sample_qr :: qr_codec where
  "sample_qr =
     \<lparr>qr_encode = (\<lambda>st. case st of Pending \<Rightarrow> Inr ''pending'' | Scanned l \<Rightarrow> if l = sample_user then Inr ''scanned'' else Inl ''unsupported''
        | Confirmed tp \<Rightarrow> if tp = \<lparr>access_token = ''a.jwt'', refresh_token = ''r2.jwt'', expires_in = 3600\<rparr> then Inr ''confirmed'' else Inl ''unsupported''
        | Cancelled \<Rightarrow> Inr ''cancelled''),
      qr_decode = (\<lambda>j. if j = ''pending'' then Inr Pending else if j = ''scanned'' then Inr (Scanned sample_user)
        else if j = ''confirmed'' then Inr (Confirmed \<lparr>access_token = ''a.jwt'', refresh_token = ''r2.jwt'', expires_in = 3600\<rparr>)
        else if j = ''cancelled'' then Inr Cancelled else Inl ''json'')\<rparr>"

lemma sample_qr_faithful [simp]: "qr_faithful sample_qr"
  by (auto simp: qr_faithful_def sample_qr_def split: qr_code_state.splits if_splits)

section \<open>Properties\<close>

text \<open>
  C18. The QR operations implement the state machine: whatever operation of the session manager runs, a code
  stays as it is or makes one of the moves pending to scanned, scanned to confirmed by the user who
  scanned it, pending or scanned to cancelled; a fresh code is pending.
\<close>

theorem qr_refines_machine:
  assumes "sm_ops m = memory_ops" "qr_faithful cod" "mem_storage_inv s"
  shows "qr_move q c (qr_at cod (mem_view (seconds ms) s) q) (qr_at cod (mem_view (seconds ms) (qr_step cod m ms c s)) q)"
  using qr_step_mem [OF assms] by blast

theorem qr_refines_machine_witness:
  "qr_move ''c1'' (QScan ''c1'' sample_user) (qr_at sample_qr (mem_view 100 (qr_step sample_qr (sample_manager 100 50) 100000 (QCreate ''c1'') memory_storage_new)) ''c1'')
     (qr_at sample_qr (mem_view 100 (qr_step sample_qr (sample_manager 100 50) 100500 (QScan ''c1'' sample_user)
       (qr_step sample_qr (sample_manager 100 50) 100000 (QCreate ''c1'') memory_storage_new))) ''c1'')"
  using qr_refines_machine [of "sample_manager 100 50" sample_qr
      "qr_step sample_qr (sample_manager 100 50) 100000 (QCreate ''c1'') memory_storage_new" "''c1''" "QScan ''c1'' sample_user" 100500]
    qr_step_mem [of "sample_manager 100 50" sample_qr memory_storage_new 100000 "QCreate ''c1''"]
  by (simp add: seconds_def)

text \<open>
  C19. Only the user who scanned a code can log in with it: in every run from a state in which the code is not
  known, a code that is confirmed was scanned by some user and afterwards confirmed by that user.
\<close>

theorem qr_confirmed_by_scanner:
  assumes "sm_ops m = memory_ops" "qr_faithful cod" "mem_storage_inv s"
    and "qr_at cod (mem_view (seconds ms0) s) q = None" "clock_runs ms0 cs ms"
    and "qr_at cod (mem_view (seconds ms) (qr_run cod m cs s)) q = Some (Confirmed tp)"
  shows "\<exists>A t l B t' uuid p C. cs = A @ (t, QScan q l) # B @ (t', QConfirm q uuid p) # C \<and> lp_login_id p = l"
  using run_accounted [OF assms(1-5)] assms(6) unfolding accounted_def confirmed_in_def by blast

theorem qr_confirmed_by_scanner_witness:
  "\<exists>A t l B t' uuid p C. [(100000 :: int, QCreate ''c1''), (100100, QScan ''c1'' sample_user), (100200, QConfirm ''c1'' ''r2'' sample_login)]
     = A @ (t, QScan ''c1'' l) # B @ (t', QConfirm ''c1'' uuid p) # C \<and> lp_login_id p = l"
proof (rule qr_confirmed_by_scanner)
  show "qr_at sample_qr (mem_view (seconds 100300) (qr_run sample_qr (sample_manager 100 50)
      [(100000, QCreate ''c1''), (100100, QScan ''c1'' sample_user), (100200, QConfirm ''c1'' ''r2'' sample_login)] memory_storage_new)) ''c1''
    = Some (Confirmed \<lparr>access_token = ''a.jwt'', refresh_token = ''r2.jwt'', expires_in = 3600\<rparr>)"
    by code_simp
  show "qr_at sample_qr (mem_view (seconds 100000) memory_storage_new) ''c1'' = None"
    by (simp add: qr_at_def)
qed simp_all

end
