(* ===== verification/Auth_Web.thy ===== *)
theory Auth_Web
  imports Auth_Session Auth_Path Auth_Permission Text_Http
begin

text \<open>
  The web side of \<^verbatim>\<open>crates/summer-auth\<close>: the authentication middleware (\<^verbatim>\<open>middleware.rs\<close>), the user
  extractors (\<^verbatim>\<open>extractor.rs\<close>) and the list of online users (\<^verbatim>\<open>online.rs\<close>). The typed header
  \<open>Authorization<Bearer>\<close> of the HTTP library is the parameter \<open>bearer\<close>.
\<close>

section \<open>The middleware\<close>

record request =
  rq_method :: string
  rq_path :: string
  rq_headers :: "(string \<times> string) list"

definition extract_token_from_header :: "((string \<times> string) list \<Rightarrow> string option) \<Rightarrow> request \<Rightarrow> auth_config \<Rightarrow> string option" where
  "extract_token_from_header bearer req cfg =
     (case (if eq_ignore_ascii_case (token_name cfg) ''authorization'' then bearer (rq_headers req) else None) of
        Some tok \<Rightarrow> Some tok
      | None \<Rightarrow>
          (case Option.bind (header_get (rq_headers req) (token_name cfg)) header_to_str of
             None \<Rightarrow> None
           | Some v \<Rightarrow>
               (case token_prefix cfg of
                  None \<Rightarrow> Some v
                | Some pre \<Rightarrow> if pre = [] then Some v
                             else (case strip_prefix pre v of Some tok \<Rightarrow> Some tok | None \<Rightarrow> Some v))))"

fun find_cookie :: "string \<Rightarrow> string list \<Rightarrow> string option" where
  "find_cookie name [] = None"
| "find_cookie name (pair # pairs) =
     (case split_once CHR ''='' (trim pair) of
        Some (n, v) \<Rightarrow> if trim n = name then Some (trim v) else find_cookie name pairs
      | None \<Rightarrow> find_cookie name pairs)"

definition extract_token_from_cookie :: "request \<Rightarrow> auth_config \<Rightarrow> string option" where
  "extract_token_from_cookie req cfg =
     (case Option.bind (header_get (rq_headers req) ''cookie'') header_to_str of
        None \<Rightarrow> None
      | Some c \<Rightarrow> find_cookie (case cookie_name cfg of Some n \<Rightarrow> n | None \<Rightarrow> token_name cfg) (split_on CHR '';'' c))"

definition extract_token :: "((string \<times> string) list \<Rightarrow> string option) \<Rightarrow> request \<Rightarrow> auth_config \<Rightarrow> string option" where
  "extract_token bearer req cfg =
     (case extract_token_from_header bearer req cfg of
        Some tok \<Rightarrow> Some tok
      | None \<Rightarrow> if is_read_cookie cfg then extract_token_from_cookie req cfg else None)"

definition build_profile_from_validated :: "validated_access \<Rightarrow> user_profile" where
  "build_profile_from_validated v =
     \<lparr>user_name = va_user_name v, nick_name = va_nick_name v, roles = va_roles v, permissions = va_permissions v\<rparr>"

definition session_of :: "validated_access \<Rightarrow> user_session" where
  "session_of v = \<lparr>us_login_id = va_login_id v, us_device = va_device v, us_profile = build_profile_from_validated v\<rparr>"

text \<open>
  \<open>AuthMiddleware::call\<close>: an error is the response, a value means that the inner service runs, with the
  session extension if there is one. \<open>mgr\<close> is the component look-up.
\<close>

definition auth_call ::
  "((string \<times> string) list \<Rightarrow> string option) \<Rightarrow> path_auth_config \<Rightarrow> string + 's session_manager \<Rightarrow> int \<Rightarrow> request
   \<Rightarrow> ('s, auth_error, user_session option) sm" where
  "auth_call bearer pc mgr ms req =
     (case mgr of
        Inl e \<Rightarrow> err_s (AuthInternal e)
      | Inr sm \<Rightarrow>
          (let required = requires_auth pc (rq_method req) (rq_path req)
           in case extract_token bearer req (sm_config sm) of
                Some tok \<Rightarrow>
                  bind_s (attempt (validate_token sm ms tok) :: ('s, auth_error, auth_error + validated_access) sm)
                    (\<lambda>r. case r of
                       Inr v \<Rightarrow> ok_s (Some (session_of v))
                     | Inl e \<Rightarrow> if required then err_s e else ok_s None)
              | None \<Rightarrow> if required then err_s NotLogin else ok_s None))"

definition layer_for_group :: "(string \<Rightarrow> (string \<Rightarrow> bool) option) \<Rightarrow> public_route list \<Rightarrow> string \<Rightarrow> path_auth_config" where
  "layer_for_group mi routes g =
     extend_excludes_from_public_routes mi routes g (push_include mi (rule_any ''/**'') path_auth_new)"

definition layer_for_group_with ::
  "(string \<Rightarrow> (string \<Rightarrow> bool) option) \<Rightarrow> public_route list \<Rightarrow> string \<Rightarrow> path_auth_config \<Rightarrow> path_auth_config" where
  "layer_for_group_with mi routes g pc = extend_excludes_from_public_routes mi routes g pc"

section \<open>Extractors\<close>

record login_user =
  lu_login_id :: login_id
  lu_profile :: user_profile
  lu_session :: user_session

definition login_user_of :: "user_session option \<Rightarrow> auth_error + login_user" where
  "login_user_of ext =
     bind_r (ok_or NotLogin ext)
       (\<lambda>session. Inr \<lparr>lu_login_id = us_login_id session, lu_profile = us_profile session, lu_session = session\<rparr>)"

definition optional_login_user_of :: "user_session option \<Rightarrow> login_user option" where
  "optional_login_user_of ext = (case login_user_of ext of Inr u \<Rightarrow> Some u | Inl _ \<Rightarrow> None)"

section \<open>Online users\<close>

record online_user_query =
  ouq_page :: nat
  ouq_page_size :: nat

record online_user_item =
  ou_login_id :: string
  ou_device :: string
  ou_login_time :: int
  ou_login_ip :: string

record online_user_page =
  oup_total :: nat
  oup_items :: "online_user_item list"

definition parse_device_key :: "string \<Rightarrow> (login_id \<times> string) option" where
  "parse_device_key key =
     Option.bind (strip_prefix ''auth:device:'' key)
       (\<lambda>rest. Option.bind (rsplit_once CHR '':'' rest)
         (\<lambda>(login_str, device_str). map_option (\<lambda>l. (l, device_str)) (login_decode login_str)))"

fun online_items :: "'s session_manager \<Rightarrow> int \<Rightarrow> string list \<Rightarrow> ('s, auth_error, online_user_item list) sm" where
  "online_items sm ms [] = ok_s []"
| "online_items sm ms (key # keys) =
     (case parse_device_key key of
        None \<Rightarrow> online_items sm ms keys
      | Some (l, d) \<Rightarrow>
          bind_s (try_get_info sm ms key)
            (\<lambda>info. bind_s (online_items sm ms keys)
              (\<lambda>rest. ok_s (case info of
                 None \<Rightarrow> rest
               | Some i \<Rightarrow> \<lparr>ou_login_id = login_encode l, ou_device = d, ou_login_time = di_login_time i,
                           ou_login_ip = di_login_ip i\<rparr> # rest))))"

text \<open>One page of a list; the products are those of \<open>usize\<close> as far as they do not overflow.\<close>

definition page_of :: "online_user_query \<Rightarrow> 'a list \<Rightarrow> 'a list" where
  "page_of q items =
     (let page = max (ouq_page q) 1; start = (page - 1) * ouq_page_size q
      in take (ouq_page_size q) (drop start items))"

definition online_users :: "'s session_manager \<Rightarrow> int \<Rightarrow> online_user_query \<Rightarrow> ('s, auth_error, online_user_page) sm" where
  "online_users sm ms q =
     bind_s (keys_by_prefix sm ms ''auth:device:'')
       (\<lambda>keys. bind_s (online_items sm ms keys)
         (\<lambda>items. let sorted_items = sort_key (\<lambda>i. - ou_login_time i) items
                  in ok_s \<lparr>oup_total = length sorted_items, oup_items = page_of q sorted_items\<rparr>))"

end
