(* ===== verification/Auth_Web_Properties.thy ===== *)
theory Auth_Web_Properties
  imports Auth_Web Auth_Session_Properties
begin

text \<open>
  Properties across the components of the authentication crate: the middleware over the session manager
  and the path rules, and the pages of the online users.
\<close>

lemma validated_in_store:
  assumes "sm_ops m = memory_ops" "mem_storage_inv s" "fst (auth_call bearer pc (Inr m) ms req s) = Inr (Some us)"
  shows "\<exists>tok v. extract_token bearer req (sm_config m) = Some tok \<and> fst (validate_token m ms tok s) = Inr v \<and> us = session_of v"
  using assms(3)
  by (auto simp: auth_call_def Let_def bind_s_def attempt_def ok_s_def err_s_def
      split: option.splits if_splits prod.splits sum.splits)

text \<open>
  C20. A revoked token gives no identity: after a logout, forced refresh or kick-out of a user, whatever is
  called later short of an unban, a request that carries an access token issued to the user by then is
  refused on every path that requires authentication and passes anonymously on every other path.
\<close>

theorem revoked_request_refused:
  assumes "sm_ops m = memory_ops" "mem_storage_inv s" "jwt_faithful (sm_jwt m)" "per_request_deny_check (sm_config m)"
    and "access_timeout (sm_config m) \<le> 365 * 24 * 3600"
    and "in_i64 (li_user_id l)" "in_i64 (seconds ms0)" "in_i64 (seconds ms)"
    and "denies c = Some l" "clock_runs ms0 cs ms" "\<forall>t. (t, CUnban l) \<notin> set cs"
    and "encode_access (sm_jwt m) (sm_config m) iat l d profile pb (access_timeout (sm_config m)) = Inr (tok, ac)"
    and "iat \<le> seconds ms0" and "extract_token bearer req (sm_config m) = Some tok"
  shows "\<exists>e \<in> {RefreshRequired, AccountBanned, TokenExpired}.
    fst (auth_call bearer pc (Inr m) ms req (session_run m ((ms0, c) # cs) s)) =
      (if requires_auth pc (rq_method req) (rq_path req) then Inl e else Inr None)"
  using revoked_verdict [OF assms(1-13)] assms(14)
  by (cases "validate_token m ms tok (session_run m ((ms0, c) # cs) s)")
    (auto simp: auth_call_def Let_def bind_s_def attempt_def ok_s_def err_s_def)

definition sample_request :: request where
  "sample_request = \<lparr>rq_method = ''GET'', rq_path = ''/api/user'', rq_headers = [(''authorization'', ''Bearer a.jwt'')]\<rparr>"

lemma sample_request_token: "extract_token (\<lambda>_. Some ''a.jwt'') sample_request sample_auth_config = Some ''a.jwt''"
  by code_simp

theorem revoked_request_refused_witness:
  "\<exists>e \<in> {RefreshRequired, AccountBanned, TokenExpired}.
    fst (auth_call (\<lambda>_. Some ''a.jwt'') (push_include (\<lambda>_. None) (rule_any ''/**'') path_auth_new) (Inr (sample_manager 100 50)) 250000
      sample_request (session_run (sample_manager 100 50) [(100900, CLogout sample_user Web), (200000, CGetDevices sample_user)] memory_storage_new)) =
      (if requires_auth (push_include (\<lambda>_. None) (rule_any ''/**'') path_auth_new) (rq_method sample_request) (rq_path sample_request)
       then Inl e else Inr None)"
  by (rule revoked_request_refused [where iat = 100 and d = Web and profile = sample_profile and pb = None and l = sample_user
        and ac = "sample_access 100" and tok = "''a.jwt''"])
    (simp_all add: seconds_def in_i64_small sample_request_token)

section \<open>Online users\<close>

lemma pages_cover:
  "concat (map (\<lambda>p. page_of \<lparr>ouq_page = p, ouq_page_size = n\<rparr> xs) [1..<Suc k]) = take (k * n) xs"
proof (induction k)
  case (Suc k)
  have "[1..<Suc (Suc k)] = [1..<Suc k] @ [Suc k]" by simp
  then have "concat (map (\<lambda>p. page_of \<lparr>ouq_page = p, ouq_page_size = n\<rparr> xs) [1..<Suc (Suc k)])
      = take (k * n) xs @ take n (drop (k * n) xs)" using Suc by (simp add: page_of_def)
  then show ?case by (simp add: take_add [symmetric] add.commute)
qed simp

context session_store
begin

fun online_view :: "(string \<rightharpoonup> string) \<Rightarrow> string list \<Rightarrow> online_user_item list" where
  "online_view V [] = []"
| "online_view V (key # keys) =
     (case (parse_device_key key, info_at sm V key) of
        (Some (l, d), Some i) \<Rightarrow> \<lparr>ou_login_id = login_encode l, ou_device = d, ou_login_time = di_login_time i,
                           ou_login_ip = di_login_ip i\<rparr> # online_view V keys
      | _ \<Rightarrow> online_view V keys)"

lemma eff_online_items:
  "inv s \<Longrightarrow> eff (seconds ms) (online_items sm ms keys) s (Inr (online_view (view (seconds ms) s) keys)) (\<lambda>t V. V)"
proof (induction keys arbitrary: s)
  case Nil
  then show ?case by (simp add: eff_ok)
next
  case (Cons k keys)
  show ?case
  proof (cases "parse_device_key k")
    case None
    then show ?thesis using Cons by simp
  next
    case (Some p)
    obtain l d where p: "p = (l, d)" by (cases p) auto
    note g = eff_try_get_info [OF Cons.prems, of ms k]
    note c = Cons.IH [OF effD(2) [OF g]]
    have v: "view (seconds ms) (snd (try_get_info sm ms k s)) = view (seconds ms) s"
      using effD(3) [OF g, of "seconds ms"] by simp
    have e: "eff (seconds ms) (ok_s x) (snd (online_items sm ms keys (snd (try_get_info sm ms k s)))) (Inr x) (\<lambda>t V. V)" for x
      by (rule eff_ok [OF effD(2) [OF c]])
    show ?thesis
      unfolding online_items.simps Some p option.case prod.case online_view.simps
      by (rule eff_cong, rule eff_bind [OF g], rule eff_bind [OF c])
        (auto simp: v intro: e split: option.splits)
  qed
qed

lemma online_result:
  assumes "inv s"
  obtains keys where "distinct keys" "set keys = {k. prefix ''auth:device:'' k \<and> view (seconds ms) s k \<noteq> None}"
    "\<And>q. fst (online_users sm ms q s) =
      (let items = sort_key (\<lambda>i. - ou_login_time i) (online_view (view (seconds ms) s) keys)
       in Inr \<lparr>oup_total = length items, oup_items = page_of q items\<rparr>)"
proof -
  obtain ks where k: "eff (seconds ms) (keys_by_prefix sm ms ''auth:device:'') s (Inr ks) (\<lambda>t V. V)"
    "distinct ks" "set ks = {k. prefix ''auth:device:'' k \<and> view (seconds ms) s k \<noteq> None}"
    using eff_keys [OF assms, of ms "''auth:device:''"] by auto
  note c = eff_online_items [OF effD(2) [OF k(1)], of ms ks]
  have v: "view (seconds ms) (snd (keys_by_prefix sm ms ''auth:device:'' s)) = view (seconds ms) s"
    using effD(3) [OF k(1), of "seconds ms"] by simp
  have "fst (online_users sm ms q s) =
      (let items = sort_key (\<lambda>i. - ou_login_time i) (online_view (view (seconds ms) s) ks)
       in Inr \<lparr>oup_total = length items, oup_items = page_of q items\<rparr>)" for q
    unfolding online_users_def
    using effD(1) [OF k(1)] effD(1) [OF c, unfolded v]
    by (cases "keys_by_prefix sm ms ''auth:device:'' s"; cases "online_items sm ms ks (snd (keys_by_prefix sm ms ''auth:device:'' s))")
      (simp add: bind_s_def ok_s_def Let_def)
  then show thesis using that k by blast
qed

end

text \<open>
  The pages of the online users cover the list: there is one list of all online users, latest login
  first, such that every query answers its length and one slice of it, page 0 like page 1, and the
  pages from 1 to any \<open>n\<close> put together are its first \<open>n\<close> times page size entries.
\<close>

theorem online_pages_cover:
  assumes "sm_ops m = memory_ops" "mem_storage_inv s"
  shows "\<exists>items. sorted_wrt (\<lambda>a b. ou_login_time b \<le> ou_login_time a) items
    \<and> (\<forall>q. \<exists>page. fst (online_users m ms q s) = Inr \<lparr>oup_total = length items, oup_items = page\<rparr>
          \<and> page = take (ouq_page_size q) (drop ((max (ouq_page q) 1 - 1) * ouq_page_size q) items))
    \<and> (\<forall>n size. concat (map (\<lambda>p. case fst (online_users m ms \<lparr>ouq_page = p, ouq_page_size = size\<rparr> s) of
                                   Inr r \<Rightarrow> oup_items r | Inl _ \<Rightarrow> []) [1..<Suc n]) = take (n * size) items)"
proof -
  obtain keys where k: "\<And>q. fst (online_users m ms q s) =
      (let items = sort_key (\<lambda>i. - ou_login_time i) (mem_session.online_view m (mem_view (seconds ms) s) keys)
       in Inr \<lparr>oup_total = length items, oup_items = page_of q items\<rparr>)"
    using mem_session.online_result [where sm = m, unfolded over [OF assms(1)], OF assms(2)] over [OF assms(1)] by metis
  define items where "items = sort_key (\<lambda>i. - ou_login_time i) (mem_session.online_view m (mem_view (seconds ms) s) keys)"
  have r: "fst (online_users m ms q s) = Inr \<lparr>oup_total = length items, oup_items = page_of q items\<rparr>" for q
    using k [of q] by (simp add: items_def Let_def)
  have "sorted (map (\<lambda>i. - ou_login_time i) items)" by (simp add: items_def)
  then have "sorted_wrt (\<lambda>a b. ou_login_time b \<le> ou_login_time a) items" by (simp add: sorted_map)
  moreover have "concat (map (\<lambda>p. case fst (online_users m ms \<lparr>ouq_page = p, ouq_page_size = size\<rparr> s) of
      Inr r \<Rightarrow> oup_items r | Inl _ \<Rightarrow> []) [1..<Suc n]) = take (n * size) items" for n size
    using pages_cover [of size items n] by (simp only: r sum.case online_user_page.simps)
  ultimately show ?thesis by (intro exI [of _ items]) (simp add: r page_of_def Let_def)
qed

theorem online_pages_cover_witness:
  "\<exists>items. sorted_wrt (\<lambda>a b. ou_login_time b \<le> ou_login_time a) items
    \<and> (\<forall>q. \<exists>page. fst (online_users (sample_manager 100 50) 5000 q sample_store) = Inr \<lparr>oup_total = length items, oup_items = page\<rparr>
          \<and> page = take (ouq_page_size q) (drop ((max (ouq_page q) 1 - 1) * ouq_page_size q) items))
    \<and> (\<forall>n size. concat (map (\<lambda>p. case fst (online_users (sample_manager 100 50) 5000 \<lparr>ouq_page = p, ouq_page_size = size\<rparr> sample_store) of
                                   Inr r \<Rightarrow> oup_items r | Inl _ \<Rightarrow> []) [1..<Suc n]) = take (n * size) items)"
  by (rule online_pages_cover) simp_all

end
