(* ===== verification/Sync_Plan.thy ===== *)
theory Sync_Plan
  imports Api_Error
begin

text \<open>
  \<^verbatim>\<open>crates/summer-domain/src/sync.rs\<close>: the report of a synchronisation, a list of changes with its counts.
\<close>

datatype sync_action = SyncCreate | SyncUpdate | SyncNoop

record sync_change =
  sc_target :: string
  sc_key :: string
  sc_action :: sync_action
  sc_fields :: "string list"

record sync_summary =
  create_count :: nat
  update_count :: nat
  noop_count :: nat

record sync_plan =
  sp_summary :: sync_summary
  sp_changes :: "sync_change list"

definition count_change :: "sync_change \<Rightarrow> sync_summary \<Rightarrow> sync_summary" where
  "count_change c s =
     (case sc_action c of
        SyncCreate \<Rightarrow> s\<lparr>create_count := create_count s + 1\<rparr>
      | SyncUpdate \<Rightarrow> s\<lparr>update_count := update_count s + 1\<rparr>
      | SyncNoop \<Rightarrow> s\<lparr>noop_count := noop_count s + 1\<rparr>)"

definition sync_plan_new :: "sync_change list \<Rightarrow> sync_plan" where
  "sync_plan_new changes =
     \<lparr>sp_summary = fold count_change changes \<lparr>create_count = 0, update_count = 0, noop_count = 0\<rparr>, sp_changes = changes\<rparr>"

text \<open>The action of a change: an absent target is created, one without differing fields left alone.\<close>

definition change_action :: "'a option \<Rightarrow> string list \<Rightarrow> sync_action" where
  "change_action existing fs = (if existing = None then SyncCreate else if fs = [] then SyncNoop else SyncUpdate)"

definition actions_of :: "sync_action \<Rightarrow> sync_change list \<Rightarrow> nat" where
  "actions_of a changes = length (filter (\<lambda>c. sc_action c = a) changes)"

lemma actions_of_simps [simp]:
  "actions_of a [] = 0" "actions_of a (c # cs) = (if sc_action c = a then 1 else 0) + actions_of a cs"
  "actions_of a (xs @ ys) = actions_of a xs + actions_of a ys"
  by (simp_all add: actions_of_def)

lemma fold_count:
  "fold count_change cs s = \<lparr>create_count = create_count s + actions_of SyncCreate cs,
     update_count = update_count s + actions_of SyncUpdate cs, noop_count = noop_count s + actions_of SyncNoop cs\<rparr>"
proof (induction cs arbitrary: s)
  case (Cons c cs)
  then show ?case by (cases "sc_action c") (simp_all add: count_change_def)
qed (cases s, simp)

lemma summary_new [simp]:
  "sp_summary (sync_plan_new cs) =
     \<lparr>create_count = actions_of SyncCreate cs, update_count = actions_of SyncUpdate cs, noop_count = actions_of SyncNoop cs\<rparr>"
  "sp_changes (sync_plan_new cs) = cs"
  by (simp_all add: sync_plan_new_def fold_count)

end
