(* ===== verification/Requests.thy ===== *)
theory Requests
  imports Text_Http
begin

text \<open>
  What the domain services share: defaults of optional fields, the length limits of the validator crate,
  which count characters (the bytes that do not continue one), and transactions, which change nothing
  when they fail.
\<close>

definition unwrap_or :: "'a \<Rightarrow> 'a option \<Rightarrow> 'a" where
  "unwrap_or d x = (case x of Some v \<Rightarrow> v | None \<Rightarrow> d)"

definition char_count :: "string \<Rightarrow> nat" where
  "char_count s = length (filter (\<lambda>c. (of_char c :: nat) div 64 \<noteq> 2) s)"

definition length_between :: "nat \<Rightarrow> nat \<Rightarrow> string \<Rightarrow> bool" where
  "length_between lo hi s \<longleftrightarrow> lo \<le> char_count s \<and> char_count s \<le> hi"

definition opt_length :: "nat \<Rightarrow> nat \<Rightarrow> string option \<Rightarrow> bool" where
  "opt_length lo hi x \<longleftrightarrow> (case x of Some s \<Rightarrow> length_between lo hi s | None \<Rightarrow> True)"

definition transaction :: "('s, 'e, 'a) sm \<Rightarrow> ('s, 'e, 'a) sm" where
  "transaction m w = (case m w of (Inr x, w') \<Rightarrow> (Inr x, w') | (Inl e, _) \<Rightarrow> (Inl e, w))"

lemma transaction_Inr: "transaction m w = (Inr x, w') \<longleftrightarrow> m w = (Inr x, w')"
  by (auto simp: transaction_def split: prod.splits sum.splits)

lemma transaction_Inl: "transaction m w = (Inl e, w') \<Longrightarrow> w' = w"
  by (auto simp: transaction_def split: prod.splits sum.splits)

end
