(* ===== verification/Menu_Model.thy ===== *)
theory Menu_Model
  imports Sync_Plan Requests
begin

text \<open>
  The data of the menus: rows of the table \<open>sys.menu\<close> (\<^verbatim>\<open>summer-system/model/src/entity/sys_menu.rs\<close>), the
  requests of \<^verbatim>\<open>dto/sys_menu.rs\<close> with their validation and their effect on a row, and the declarative
  menu configuration of \<^verbatim>\<open>summer-domain/src/menu.rs\<close>.
\<close>

named_theorems menu_defs "definitions of the menu model"

declare unwrap_or_def [menu_defs]

section \<open>Rows\<close>

datatype menu_type = Menu | Button

record menu_row =
  m_id :: int
  m_parent_id :: int
  m_menu_type :: menu_type
  m_name :: string
  m_path :: string
  m_component :: string
  m_redirect :: string
  m_icon :: string
  m_title :: string
  m_link :: string
  m_is_iframe :: bool
  m_is_hide :: bool
  m_is_hide_tab :: bool
  m_is_full_page :: bool
  m_is_first_level :: bool
  m_keep_alive :: bool
  m_fixed_tab :: bool
  m_show_badge :: bool
  m_show_text_badge :: string
  m_active_path :: string
  m_auth_name :: string
  m_auth_mark :: string
  m_bit_position :: "int option"
  m_sort :: int
  m_enabled :: bool
  m_create_time :: int
  m_update_time :: int

text \<open>A row as the code fills it for an insert; identity and time stamps are set by the data base layer.\<close>

definition blank_row :: menu_row where
  [menu_defs]: "blank_row =
     \<lparr>m_id = 0, m_parent_id = 0, m_menu_type = Menu, m_name = [], m_path = [], m_component = [], m_redirect = [],
      m_icon = [], m_title = [], m_link = [], m_is_iframe = False, m_is_hide = False, m_is_hide_tab = False, m_is_full_page = False, m_is_first_level = False, m_keep_alive = False, m_fixed_tab = False, m_show_badge = False,
      m_show_text_badge = [], m_active_path = [], m_auth_name = [], m_auth_mark = [], m_bit_position = None,
      m_sort = 0, m_enabled = True, m_create_time = 0, m_update_time = 0\<rparr>"

section \<open>Requests\<close>

record create_menu_dto =
  cm_parent_id :: "int option"
  cm_name :: string
  cm_path :: "string option"
  cm_component :: "string option"
  cm_redirect :: "string option"
  cm_icon :: "string option"
  cm_title :: string
  cm_link :: "string option"
  cm_is_iframe :: "bool option"
  cm_is_hide :: "bool option"
  cm_is_hide_tab :: "bool option"
  cm_is_full_page :: "bool option"
  cm_is_first_level :: "bool option"
  cm_keep_alive :: "bool option"
  cm_fixed_tab :: "bool option"
  cm_show_badge :: "bool option"
  cm_show_text_badge :: "string option"
  cm_active_path :: "string option"
  cm_sort :: "int option"
  cm_enabled :: "bool option"

definition create_menu_dto_valid :: "create_menu_dto \<Rightarrow> bool" where
  "create_menu_dto_valid d \<longleftrightarrow> length_between 1 64 (cm_name d)
     \<and> opt_length 0 256 (cm_path d)
     \<and> opt_length 0 256 (cm_component d)
     \<and> opt_length 0 256 (cm_redirect d)
     \<and> opt_length 0 64 (cm_icon d)
     \<and> length_between 1 64 (cm_title d) \<and> opt_length 0 512 (cm_link d)
     \<and> opt_length 0 32 (cm_show_text_badge d) \<and> opt_length 0 256 (cm_active_path d)"

definition row_of_create_menu :: "create_menu_dto \<Rightarrow> menu_row" where
  [menu_defs]: "row_of_create_menu d = blank_row
     \<lparr>m_parent_id := unwrap_or 0 (cm_parent_id d), m_menu_type := Menu, m_name := cm_name d, m_path := unwrap_or [] (cm_path d),
      m_component := unwrap_or [] (cm_component d), m_redirect := unwrap_or [] (cm_redirect d),
      m_icon := unwrap_or [] (cm_icon d), m_title := cm_title d, m_link := unwrap_or [] (cm_link d),
      m_is_iframe := unwrap_or False (cm_is_iframe d),
      m_is_hide := unwrap_or False (cm_is_hide d),
      m_is_hide_tab := unwrap_or False (cm_is_hide_tab d),
      m_is_full_page := unwrap_or False (cm_is_full_page d),
      m_is_first_level := unwrap_or False (cm_is_first_level d),
      m_keep_alive := unwrap_or False (cm_keep_alive d),
      m_fixed_tab := unwrap_or False (cm_fixed_tab d),
      m_show_badge := unwrap_or False (cm_show_badge d),
      m_show_text_badge := unwrap_or [] (cm_show_text_badge d), m_active_path := unwrap_or [] (cm_active_path d),
      m_auth_name := [], m_auth_mark := [], m_bit_position := None, m_sort := unwrap_or 0 (cm_sort d),
      m_enabled := unwrap_or True (cm_enabled d)\<rparr>"

record create_button_dto =
  cb_parent_id :: int
  cb_auth_name :: string
  cb_auth_mark :: string
  cb_sort :: "int option"
  cb_enabled :: "bool option"

definition row_of_create_button :: "create_button_dto \<Rightarrow> menu_row" where
  [menu_defs]: "row_of_create_button d = blank_row
     \<lparr>m_parent_id := cb_parent_id d, m_menu_type := Button, m_title := cb_auth_name d, m_auth_name := cb_auth_name d,
      m_auth_mark := cb_auth_mark d, m_bit_position := None, m_sort := unwrap_or 0 (cb_sort d),
      m_enabled := unwrap_or True (cb_enabled d)\<rparr>"

record update_menu_dto =
  um_parent_id :: "int option"
  um_name :: "string option"
  um_path :: "string option"
  um_component :: "string option"
  um_redirect :: "string option"
  um_icon :: "string option"
  um_title :: "string option"
  um_link :: "string option"
  um_is_iframe :: "bool option"
  um_is_hide :: "bool option"
  um_is_hide_tab :: "bool option"
  um_is_full_page :: "bool option"
  um_is_first_level :: "bool option"
  um_keep_alive :: "bool option"
  um_fixed_tab :: "bool option"
  um_show_badge :: "bool option"
  um_show_text_badge :: "string option"
  um_active_path :: "string option"
  um_sort :: "int option"
  um_enabled :: "bool option"

definition update_menu_dto_valid :: "update_menu_dto \<Rightarrow> bool" where
  "update_menu_dto_valid d \<longleftrightarrow> opt_length 1 64 (um_name d)
     \<and> opt_length 0 256 (um_path d)
     \<and> opt_length 0 256 (um_component d)
     \<and> opt_length 0 256 (um_redirect d)
     \<and> opt_length 0 64 (um_icon d)
     \<and> opt_length 1 64 (um_title d) \<and> opt_length 0 512 (um_link d)
     \<and> opt_length 0 32 (um_show_text_badge d) \<and> opt_length 0 256 (um_active_path d)"

definition set_opt :: "'v option \<Rightarrow> ('v \<Rightarrow> menu_row \<Rightarrow> menu_row) \<Rightarrow> menu_row \<Rightarrow> menu_row" where
  [menu_defs]: "set_opt x f r = (case x of Some v \<Rightarrow> f v r | None \<Rightarrow> r)"

definition update_menu_apply :: "update_menu_dto \<Rightarrow> menu_row \<Rightarrow> menu_row" where
  [menu_defs]: "update_menu_apply d =
     set_opt (um_enabled d) (\<lambda>v r. r\<lparr>m_enabled := v\<rparr>) \<circ> set_opt (um_sort d) (\<lambda>v r. r\<lparr>m_sort := v\<rparr>)
     \<circ> set_opt (um_active_path d) (\<lambda>v r. r\<lparr>m_active_path := v\<rparr>)
     \<circ> set_opt (um_show_text_badge d) (\<lambda>v r. r\<lparr>m_show_text_badge := v\<rparr>)
     \<circ> set_opt (um_show_badge d) (\<lambda>v r. r\<lparr>m_show_badge := v\<rparr>)
     \<circ> set_opt (um_fixed_tab d) (\<lambda>v r. r\<lparr>m_fixed_tab := v\<rparr>)
     \<circ> set_opt (um_keep_alive d) (\<lambda>v r. r\<lparr>m_keep_alive := v\<rparr>)
     \<circ> set_opt (um_is_first_level d) (\<lambda>v r. r\<lparr>m_is_first_level := v\<rparr>)
     \<circ> set_opt (um_is_full_page d) (\<lambda>v r. r\<lparr>m_is_full_page := v\<rparr>)
     \<circ> set_opt (um_is_hide_tab d) (\<lambda>v r. r\<lparr>m_is_hide_tab := v\<rparr>)
     \<circ> set_opt (um_is_hide d) (\<lambda>v r. r\<lparr>m_is_hide := v\<rparr>)
     \<circ> set_opt (um_is_iframe d) (\<lambda>v r. r\<lparr>m_is_iframe := v\<rparr>)
     \<circ> set_opt (um_link d) (\<lambda>v r. r\<lparr>m_link := v\<rparr>) \<circ> set_opt (um_title d) (\<lambda>v r. r\<lparr>m_title := v\<rparr>)
     \<circ> set_opt (um_icon d) (\<lambda>v r. r\<lparr>m_icon := v\<rparr>) \<circ> set_opt (um_redirect d) (\<lambda>v r. r\<lparr>m_redirect := v\<rparr>)
     \<circ> set_opt (um_component d) (\<lambda>v r. r\<lparr>m_component := v\<rparr>) \<circ> set_opt (um_path d) (\<lambda>v r. r\<lparr>m_path := v\<rparr>)
     \<circ> set_opt (um_name d) (\<lambda>v r. r\<lparr>m_name := v\<rparr>) \<circ> set_opt (um_parent_id d) (\<lambda>v r. r\<lparr>m_parent_id := v\<rparr>)"

record update_button_dto =
  ub_parent_id :: "int option"
  ub_auth_name :: "string option"
  ub_auth_mark :: "string option"
  ub_sort :: "int option"
  ub_enabled :: "bool option"

definition update_button_apply :: "update_button_dto \<Rightarrow> menu_row \<Rightarrow> menu_row" where
  [menu_defs]: "update_button_apply d =
     set_opt (ub_enabled d) (\<lambda>v r. r\<lparr>m_enabled := v\<rparr>) \<circ> set_opt (ub_sort d) (\<lambda>v r. r\<lparr>m_sort := v\<rparr>)
     \<circ> set_opt (ub_auth_mark d) (\<lambda>v r. r\<lparr>m_auth_mark := v\<rparr>)
     \<circ> set_opt (ub_auth_name d) (\<lambda>v r. r\<lparr>m_auth_name := v, m_title := v\<rparr>)
     \<circ> set_opt (ub_parent_id d) (\<lambda>v r. r\<lparr>m_parent_id := v\<rparr>)"

definition validate_menu_route_semantics :: "string \<Rightarrow> string \<Rightarrow> bool \<Rightarrow> string + unit" where
  "validate_menu_route_semantics path link is_iframe =
     (let has_path = trim path \<noteq> []; has_link = trim link \<noteq> []
      in if has_link \<and> \<not> is_iframe then Inr ()
         else if \<not> has_path then (if is_iframe then Inl ''iframe menu needs a path'' else Inl ''path is empty'')
         else Inr ())"

definition validate_for_save :: "create_menu_dto \<Rightarrow> string + unit" where
  "validate_for_save d =
     (if \<not> create_menu_dto_valid d then Inl ''validation failed''
      else validate_menu_route_semantics (unwrap_or [] (cm_path d)) (unwrap_or [] (cm_link d)) (unwrap_or False (cm_is_iframe d)))"

definition validate_for_existing :: "update_menu_dto \<Rightarrow> menu_row \<Rightarrow> string + unit" where
  "validate_for_existing d existing =
     (if \<not> update_menu_dto_valid d then Inl ''validation failed''
      else validate_menu_route_semantics (unwrap_or (m_path existing) (um_path d)) (unwrap_or (m_link existing) (um_link d))
             (unwrap_or (m_is_iframe existing) (um_is_iframe d)))"

section \<open>Declarative configuration\<close>

record menu_button_spec =
  bs_auth_name :: string
  bs_auth_mark :: string
  bs_sort :: "int option"
  bs_enabled :: "bool option"

record menu_attrs =
  ns_name :: string
  ns_path :: string
  ns_component :: "string option"
  ns_redirect :: "string option"
  ns_icon :: "string option"
  ns_title :: string
  ns_link :: "string option"
  ns_is_iframe :: "bool option"
  ns_is_hide :: "bool option"
  ns_is_hide_tab :: "bool option"
  ns_is_full_page :: "bool option"
  ns_is_first_level :: "bool option"
  ns_keep_alive :: "bool option"
  ns_fixed_tab :: "bool option"
  ns_show_badge :: "bool option"
  ns_show_text_badge :: "string option"
  ns_active_path :: "string option"
  ns_sort :: "int option"
  ns_enabled :: "bool option"

datatype menu_node = Node (node_attrs: menu_attrs) (node_buttons: "menu_button_spec list") (node_children: "menu_node list")

definition desired_component :: "menu_attrs \<Rightarrow> string" where [menu_defs]: "desired_component a = unwrap_or [] (ns_component a)"
definition desired_redirect :: "menu_attrs \<Rightarrow> string" where [menu_defs]: "desired_redirect a = unwrap_or [] (ns_redirect a)"
definition desired_icon :: "menu_attrs \<Rightarrow> string" where [menu_defs]: "desired_icon a = unwrap_or [] (ns_icon a)"
definition desired_link :: "menu_attrs \<Rightarrow> string" where [menu_defs]: "desired_link a = unwrap_or [] (ns_link a)"
definition desired_show_text_badge :: "menu_attrs \<Rightarrow> string" where [menu_defs]: "desired_show_text_badge a = unwrap_or [] (ns_show_text_badge a)"
definition desired_active_path :: "menu_attrs \<Rightarrow> string" where [menu_defs]: "desired_active_path a = unwrap_or [] (ns_active_path a)"
definition desired_is_iframe :: "menu_attrs \<Rightarrow> bool" where [menu_defs]: "desired_is_iframe a = unwrap_or False (ns_is_iframe a)"
definition desired_is_hide :: "menu_attrs \<Rightarrow> bool" where [menu_defs]: "desired_is_hide a = unwrap_or False (ns_is_hide a)"
definition desired_is_hide_tab :: "menu_attrs \<Rightarrow> bool" where [menu_defs]: "desired_is_hide_tab a = unwrap_or False (ns_is_hide_tab a)"
definition desired_is_full_page :: "menu_attrs \<Rightarrow> bool" where [menu_defs]: "desired_is_full_page a = unwrap_or False (ns_is_full_page a)"
definition desired_is_first_level :: "menu_attrs \<Rightarrow> bool" where [menu_defs]: "desired_is_first_level a = unwrap_or False (ns_is_first_level a)"
definition desired_keep_alive :: "menu_attrs \<Rightarrow> bool" where [menu_defs]: "desired_keep_alive a = unwrap_or False (ns_keep_alive a)"
definition desired_fixed_tab :: "menu_attrs \<Rightarrow> bool" where [menu_defs]: "desired_fixed_tab a = unwrap_or False (ns_fixed_tab a)"
definition desired_show_badge :: "menu_attrs \<Rightarrow> bool" where [menu_defs]: "desired_show_badge a = unwrap_or False (ns_show_badge a)"
definition desired_sort :: "menu_attrs \<Rightarrow> int" where [menu_defs]: "desired_sort a = unwrap_or 0 (ns_sort a)"
definition desired_enabled :: "menu_attrs \<Rightarrow> bool" where [menu_defs]: "desired_enabled a = unwrap_or True (ns_enabled a)"
definition button_sort :: "menu_button_spec \<Rightarrow> int" where [menu_defs]: "button_sort b = unwrap_or 0 (bs_sort b)"
definition button_enabled :: "menu_button_spec \<Rightarrow> bool" where [menu_defs]: "button_enabled b = unwrap_or True (bs_enabled b)"

definition menu_changed_fields :: "menu_row \<Rightarrow> menu_attrs \<Rightarrow> string list" where
  "menu_changed_fields e s =
     (if m_name e \<noteq> ns_name s then [''name''] else [])
     @ (if m_title e \<noteq> ns_title s then [''title''] else [])
     @ (if m_component e \<noteq> desired_component s then [''component''] else [])
     @ (if m_redirect e \<noteq> desired_redirect s then [''redirect''] else [])
     @ (if m_icon e \<noteq> desired_icon s then [''icon''] else [])
     @ (if m_link e \<noteq> desired_link s then [''link''] else [])
     @ (if m_is_iframe e \<noteq> desired_is_iframe s then [''is_iframe''] else [])
     @ (if m_is_hide e \<noteq> desired_is_hide s then [''is_hide''] else [])
     @ (if m_is_hide_tab e \<noteq> desired_is_hide_tab s then [''is_hide_tab''] else [])
     @ (if m_is_full_page e \<noteq> desired_is_full_page s then [''is_full_page''] else [])
     @ (if m_is_first_level e \<noteq> desired_is_first_level s then [''is_first_level''] else [])
     @ (if m_keep_alive e \<noteq> desired_keep_alive s then [''keep_alive''] else [])
     @ (if m_fixed_tab e \<noteq> desired_fixed_tab s then [''fixed_tab''] else [])
     @ (if m_show_badge e \<noteq> desired_show_badge s then [''show_badge''] else [])
     @ (if m_show_text_badge e \<noteq> desired_show_text_badge s then [''show_text_badge''] else [])
     @ (if m_active_path e \<noteq> desired_active_path s then [''active_path''] else [])
     @ (if m_sort e \<noteq> desired_sort s then [''sort''] else [])
     @ (if m_enabled e \<noteq> desired_enabled s then [''enabled''] else [])"

definition button_changed_fields :: "menu_row \<Rightarrow> menu_button_spec \<Rightarrow> string list" where
  "button_changed_fields e s =
     (if m_auth_name e \<noteq> bs_auth_name s then [''auth_name''] else [])
     @ (if m_sort e \<noteq> button_sort s then [''sort''] else [])
     @ (if m_enabled e \<noteq> button_enabled s then [''enabled''] else [])"

text \<open>The assignments of \<open>apply_existing_menu\<close> and \<open>apply_existing_button\<close>, the rows of the two inserts.\<close>

definition set_menu_fields :: "menu_attrs \<Rightarrow> menu_row \<Rightarrow> menu_row" where
  "set_menu_fields s r = r
     \<lparr>m_name := ns_name s, m_title := ns_title s, m_component := desired_component s,
      m_redirect := desired_redirect s,
      m_icon := desired_icon s,
      m_link := desired_link s,
      m_is_iframe := desired_is_iframe s,
      m_is_hide := desired_is_hide s,
      m_is_hide_tab := desired_is_hide_tab s,
      m_is_full_page := desired_is_full_page s,
      m_is_first_level := desired_is_first_level s,
      m_keep_alive := desired_keep_alive s,
      m_fixed_tab := desired_fixed_tab s,
      m_show_badge := desired_show_badge s,
      m_show_text_badge := desired_show_text_badge s,
      m_active_path := desired_active_path s,
      m_sort := desired_sort s,
      m_enabled := desired_enabled s\<rparr>"

definition set_button_fields :: "menu_button_spec \<Rightarrow> menu_row \<Rightarrow> menu_row" where
  "set_button_fields s r = r
     \<lparr>m_auth_name := bs_auth_name s, m_title := bs_auth_name s, m_sort := button_sort s, m_enabled := button_enabled s\<rparr>"

definition row_of_menu_spec :: "int \<Rightarrow> menu_attrs \<Rightarrow> menu_row" where
  "row_of_menu_spec parent_id s = blank_row
     \<lparr>m_parent_id := parent_id, m_menu_type := Menu, m_name := ns_name s, m_path := ns_path s, m_title := ns_title s,
      m_component := desired_component s,
      m_redirect := desired_redirect s,
      m_icon := desired_icon s,
      m_link := desired_link s,
      m_is_iframe := desired_is_iframe s,
      m_is_hide := desired_is_hide s,
      m_is_hide_tab := desired_is_hide_tab s,
      m_is_full_page := desired_is_full_page s,
      m_is_first_level := desired_is_first_level s,
      m_keep_alive := desired_keep_alive s,
      m_fixed_tab := desired_fixed_tab s,
      m_show_badge := desired_show_badge s,
      m_show_text_badge := desired_show_text_badge s,
      m_active_path := desired_active_path s,
      m_sort := desired_sort s,
      m_enabled := desired_enabled s,
      m_auth_name := [], m_auth_mark := []\<rparr>"

definition row_of_button_spec :: "int \<Rightarrow> menu_button_spec \<Rightarrow> int \<Rightarrow> menu_row" where
  "row_of_button_spec parent_id s next_bit_position = blank_row
     \<lparr>m_parent_id := parent_id, m_menu_type := Button, m_title := bs_auth_name s, m_auth_name := bs_auth_name s,
      m_auth_mark := bs_auth_mark s, m_bit_position := Some next_bit_position, m_sort := button_sort s,
      m_enabled := button_enabled s\<rparr>"

lemma set_menu_fields_keeps [simp]:
  "m_id (set_menu_fields s r) = m_id r" "m_parent_id (set_menu_fields s r) = m_parent_id r"
  "m_menu_type (set_menu_fields s r) = m_menu_type r" "m_path (set_menu_fields s r) = m_path r"
  "m_auth_mark (set_menu_fields s r) = m_auth_mark r" "m_bit_position (set_menu_fields s r) = m_bit_position r"
  "m_name (set_menu_fields s r) = ns_name s"
  by (simp_all add: set_menu_fields_def)

lemma set_button_fields_keeps [simp]:
  "m_id (set_button_fields s r) = m_id r" "m_parent_id (set_button_fields s r) = m_parent_id r"
  "m_menu_type (set_button_fields s r) = m_menu_type r" "m_path (set_button_fields s r) = m_path r"
  "m_auth_mark (set_button_fields s r) = m_auth_mark r" "m_bit_position (set_button_fields s r) = m_bit_position r"
  "m_name (set_button_fields s r) = m_name r"
  by (simp_all add: set_button_fields_def)

lemma row_of_spec_fields [simp]:
  "m_parent_id (row_of_menu_spec p a) = p" "m_menu_type (row_of_menu_spec p a) = Menu" "m_path (row_of_menu_spec p a) = ns_path a"
  "m_name (row_of_menu_spec p a) = ns_name a" "m_bit_position (row_of_menu_spec p a) = None"
  "m_parent_id (row_of_button_spec p b n) = p" "m_menu_type (row_of_button_spec p b n) = Button"
  "m_auth_mark (row_of_button_spec p b n) = bs_auth_mark b" "m_bit_position (row_of_button_spec p b n) = Some n"
  by (simp_all add: row_of_menu_spec_def row_of_button_spec_def blank_row_def)

lemma in_sync_after_set [simp]:
  "menu_changed_fields (set_menu_fields s r) s = []" "menu_changed_fields (row_of_menu_spec p s) s = []"
  "button_changed_fields (set_button_fields b r) b = []" "button_changed_fields (row_of_button_spec p b n) b = []"
  by (simp_all add: menu_changed_fields_def set_menu_fields_def row_of_menu_spec_def button_changed_fields_def
      set_button_fields_def row_of_button_spec_def)

lemma changed_fields_stamps [simp]:
  "menu_changed_fields (r\<lparr>m_id := i\<rparr>) s = menu_changed_fields r s"
  "menu_changed_fields (r\<lparr>m_create_time := t\<rparr>) s = menu_changed_fields r s"
  "menu_changed_fields (r\<lparr>m_update_time := t\<rparr>) s = menu_changed_fields r s"
  "button_changed_fields (r\<lparr>m_id := i\<rparr>) b = button_changed_fields r b"
  "button_changed_fields (r\<lparr>m_create_time := t\<rparr>) b = button_changed_fields r b"
  "button_changed_fields (r\<lparr>m_update_time := t\<rparr>) b = button_changed_fields r b"
  by (simp_all add: menu_changed_fields_def button_changed_fields_def)

lemma in_sync_name:
  assumes "menu_changed_fields r s = []"
  shows "m_name r = ns_name s"
proof -
  have "(if m_name r \<noteq> ns_name s then [''name''] else []) = []"
    using assms unfolding menu_changed_fields_def append_is_Nil_conv by (elim conjE)
  then show ?thesis by (auto split: if_splits)
qed

end
