(* ===== verification/Menu_Service.thy ===== *)
theory Menu_Service
  imports Menu_Model
begin

text \<open>
  \<open>MenuDomainService\<close> of \<^verbatim>\<open>crates/summer-domain/src/menu.rs\<close>: the tables it works on, checking and planning
  a menu configuration, applying it, the single-row operations, the permission map and the menu tree.
  The list of rows is in the data base's own order; queries ordered by \<open>sort\<close> sort it stably. A write
  the table refuses (\<open>accepts\<close>, its column limits) is an internal error; a transaction that fails
  changes nothing.
\<close>

record menu_world =
  mw_rows :: "menu_row list"
  mw_next_id :: int
  mw_role_menus :: "(int \<times> int) list"
  mw_user_roles :: "(int \<times> int) list"
  mw_roles :: "(int \<times> string) list"
  mw_permission_map :: "(string \<times> int) list"

record menu_db =
  accepts :: "menu_row \<Rightarrow> bool"
  db_now :: int

type_synonym 'a menu_op = "(menu_world, api_errors, 'a) sm"

section \<open>The data base layer\<close>

definition db_insert :: "menu_db \<Rightarrow> string \<Rightarrow> menu_row \<Rightarrow> menu_row menu_op" where
  "db_insert db what row w =
     (let r = row\<lparr>m_id := mw_next_id w, m_create_time := db_now db, m_update_time := db_now db\<rparr>
      in if accepts db r then (Inr r, w\<lparr>mw_rows := mw_rows w @ [r], mw_next_id := mw_next_id w + 1\<rparr>)
         else (Inl (Internal (Text what)), w))"

text \<open>An update by primary key; the layer reports an error when the row is gone.\<close>

definition db_update :: "menu_db \<Rightarrow> string \<Rightarrow> int \<Rightarrow> (menu_row \<Rightarrow> menu_row) \<Rightarrow> menu_row menu_op" where
  "db_update db what i f w =
     (case find (\<lambda>r. m_id r = i) (mw_rows w) of
        None \<Rightarrow> (Inl (Internal (Text what)), w)
      | Some r \<Rightarrow>
          (let r' = (f r)\<lparr>m_update_time := db_now db\<rparr>
           in if accepts db r'
              then (Inr r', w\<lparr>mw_rows := map (\<lambda>x. if m_id x = i then (f x)\<lparr>m_update_time := db_now db\<rparr> else x) (mw_rows w)\<rparr>)
              else (Inl (Internal (Text what)), w)))"

definition find_by_id :: "int \<Rightarrow> menu_world \<Rightarrow> menu_row option" where
  "find_by_id i w = find (\<lambda>r. m_id r = i) (mw_rows w)"

definition by_sort :: "menu_world \<Rightarrow> menu_row list" where
  "by_sort w = sort_key m_sort (mw_rows w)"

section \<open>Checking a configuration\<close>

definition menu_key :: "string \<Rightarrow> string \<Rightarrow> string \<Rightarrow> string" where
  "menu_key parent_key path nm =
     (let segment = (if trim path = [] then nm else path)
      in if parent_key = [] then segment else parent_key @ ''/'' @ segment)"

fun validate_buttons :: "menu_button_spec list \<Rightarrow> string set \<Rightarrow> string set \<Rightarrow> api_errors + string set" where
  "validate_buttons [] siblings marks = Inr marks"
| "validate_buttons (b # bs) siblings marks =
     (if trim (bs_auth_name b) = [] then Inl (BadRequest (Text ''button.auth_name is empty''))
      else if trim (bs_auth_mark b) = [] then Inl (BadRequest (Text ''button.auth_mark is empty''))
      else if bs_auth_mark b \<in> siblings then Inl (BadRequest (Text ''duplicate button.auth_mark in one menu''))
      else if bs_auth_mark b \<in> marks then Inl (BadRequest (Text ''duplicate button.auth_mark''))
      else validate_buttons bs (insert (bs_auth_mark b) siblings) (insert (bs_auth_mark b) marks))"

text \<open>The loop over one level; \<open>paths\<close> are the sibling paths, names and marks those of the whole tree so far.\<close>

fun validate_menu_nodes ::
  "menu_node list \<Rightarrow> string set \<Rightarrow> string set \<Rightarrow> string set \<Rightarrow> api_errors + (string set \<times> string set)" where
  "validate_menu_nodes [] paths names marks = Inr (names, marks)"
| "validate_menu_nodes (Node a bs cs # ns) paths names marks =
     (if trim (ns_name a) = [] then Inl (BadRequest (Text ''menu.name is empty''))
      else if trim (ns_path a) = [] then Inl (BadRequest (Text ''menu.path is empty''))
      else if trim (ns_title a) = [] then Inl (BadRequest (Text ''menu.title is empty''))
      else if ns_path a \<in> paths then Inl (BadRequest (Text ''duplicate path among siblings''))
      else if ns_name a \<in> names then Inl (BadRequest (Text ''duplicate menu name''))
      else bind_r (validate_buttons bs {} marks)
        (\<lambda>marks. bind_r (validate_menu_nodes cs {} (insert (ns_name a) names) marks)
          (\<lambda>(names, marks). validate_menu_nodes ns (insert (ns_path a) paths) names marks)))"

definition validate_menu_config_spec :: "menu_node list \<Rightarrow> api_errors + unit" where
  "validate_menu_config_spec menus = bind_r (validate_menu_nodes menus {} {} {}) (\<lambda>_. Inr ())"

section \<open>Planning\<close>

definition find_existing_menu :: "menu_row list \<Rightarrow> int \<Rightarrow> string \<Rightarrow> menu_row option" where
  "find_existing_menu existing parent_id path =
     find (\<lambda>r. m_parent_id r = parent_id \<and> m_menu_type r = Menu \<and> m_path r = path) existing"

definition find_existing_button :: "menu_row list \<Rightarrow> int \<Rightarrow> string \<Rightarrow> menu_row option" where
  "find_existing_button existing parent_id mark =
     find (\<lambda>r. m_parent_id r = parent_id \<and> m_menu_type r = Button \<and> m_auth_mark r = mark) existing"

definition ensure_menu_name_available :: "menu_row list \<Rightarrow> int option \<Rightarrow> string \<Rightarrow> api_errors + unit" where
  "ensure_menu_name_available existing current_id nm =
     (if list_ex (\<lambda>r. m_menu_type r = Menu \<and> m_name r = nm \<and> Some (m_id r) \<noteq> current_id) existing
      then Inl (BadRequest (Text ''menu name exists'')) else Inr ())"

definition ensure_button_auth_mark_available :: "menu_row list \<Rightarrow> int option \<Rightarrow> string \<Rightarrow> api_errors + unit" where
  "ensure_button_auth_mark_available existing current_id mark =
     (if list_ex (\<lambda>r. m_menu_type r = Button \<and> m_auth_mark r = mark \<and> Some (m_id r) \<noteq> current_id) existing
      then Inl (BadRequest (Text ''auth mark exists'')) else Inr ())"

definition all_menu_fields :: "string list" where
  "all_menu_fields = [''name'', ''title'', ''component'', ''redirect'', ''icon'', ''link'', ''is_iframe'', ''is_hide'',
     ''is_hide_tab'', ''is_full_page'', ''is_first_level'', ''keep_alive'', ''fixed_tab'', ''show_badge'', ''show_text_badge'',
     ''active_path'', ''sort'', ''enabled'']"

definition build_menu_change :: "menu_row option \<Rightarrow> string \<Rightarrow> menu_attrs \<Rightarrow> sync_change" where
  "build_menu_change existing key spec =
     (let fs = (case existing of Some e \<Rightarrow> menu_changed_fields e spec | None \<Rightarrow> all_menu_fields)
      in \<lparr>sc_target = ''menu'', sc_key = key, sc_action = change_action existing fs, sc_fields = fs\<rparr>)"

definition build_button_change :: "menu_row option \<Rightarrow> string \<Rightarrow> menu_button_spec \<Rightarrow> sync_change" where
  "build_button_change existing key spec =
     (let fs = (case existing of Some e \<Rightarrow> button_changed_fields e spec | None \<Rightarrow> [''auth_name'', ''sort'', ''enabled''])
      in \<lparr>sc_target = ''button'', sc_key = key, sc_action = change_action existing fs, sc_fields = fs\<rparr>)"

definition button_key :: "string \<Rightarrow> menu_button_spec \<Rightarrow> string" where
  "button_key parent_key b = parent_key @ ''#'' @ bs_auth_mark b"

definition plan_all_create_for_buttons :: "string \<Rightarrow> menu_button_spec list \<Rightarrow> sync_change list" where
  "plan_all_create_for_buttons parent_key bs = map (\<lambda>b. build_button_change None (button_key parent_key b) b) bs"

fun plan_all_create_for_nodes :: "string \<Rightarrow> menu_node list \<Rightarrow> sync_change list" where
  "plan_all_create_for_nodes parent_key [] = []"
| "plan_all_create_for_nodes parent_key (Node a bs cs # ns) =
     (let key = menu_key parent_key (ns_path a) (ns_name a)
      in build_menu_change None key a # plan_all_create_for_buttons key bs @ plan_all_create_for_nodes key cs
         @ plan_all_create_for_nodes parent_key ns)"

fun plan_button_specs :: "menu_row list \<Rightarrow> int \<Rightarrow> string \<Rightarrow> menu_button_spec list \<Rightarrow> api_errors + sync_change list" where
  "plan_button_specs existing parent_id parent_key [] = Inr []"
| "plan_button_specs existing parent_id parent_key (b # bs) =
     (let e = find_existing_button existing parent_id (bs_auth_mark b)
      in bind_r (ensure_button_auth_mark_available existing (map_option m_id e) (bs_auth_mark b))
        (\<lambda>_. bind_r (plan_button_specs existing parent_id parent_key bs)
          (\<lambda>rest. Inr (build_button_change e (button_key parent_key b) b # rest))))"

fun plan_menu_nodes :: "menu_row list \<Rightarrow> int \<Rightarrow> string \<Rightarrow> menu_node list \<Rightarrow> api_errors + sync_change list" where
  "plan_menu_nodes existing parent_id parent_key [] = Inr []"
| "plan_menu_nodes existing parent_id parent_key (Node a bs cs # ns) =
     (let key = menu_key parent_key (ns_path a) (ns_name a);
          e = find_existing_menu existing parent_id (ns_path a)
      in bind_r (ensure_menu_name_available existing (map_option m_id e) (ns_name a))
        (\<lambda>_. bind_r (case e of
              Some r \<Rightarrow> bind_r (plan_button_specs existing (m_id r) key bs)
                (\<lambda>buttons. bind_r (plan_menu_nodes existing (m_id r) key cs) (\<lambda>children. Inr (buttons @ children)))
            | None \<Rightarrow> Inr (plan_all_create_for_buttons key bs @ plan_all_create_for_nodes key cs))
          (\<lambda>below. bind_r (plan_menu_nodes existing parent_id parent_key ns)
            (\<lambda>rest. Inr (build_menu_change e key a # below @ rest)))))"

definition build_menu_config_plan :: "menu_row list \<Rightarrow> menu_node list \<Rightarrow> api_errors + sync_plan" where
  "build_menu_config_plan existing menus =
     bind_r (validate_menu_config_spec menus)
       (\<lambda>_. bind_r (plan_menu_nodes existing 0 [] menus) (\<lambda>changes. Inr (sync_plan_new changes)))"

definition plan_menu_config :: "menu_node list \<Rightarrow> sync_plan menu_op" where
  "plan_menu_config menus w =
     (bind_r (validate_menu_config_spec menus) (\<lambda>_. build_menu_config_plan (by_sort w) menus), w)"

section \<open>Applying\<close>

definition next_button_bit_position :: "menu_row list \<Rightarrow> int" where
  "next_button_bit_position existing =
     (case List.map_filter m_bit_position existing of [] \<Rightarrow> 0 | p # ps \<Rightarrow> wrap_i32 (fold max ps p + 1))"

definition apply_existing_menu :: "menu_db \<Rightarrow> menu_row \<Rightarrow> menu_attrs \<Rightarrow> unit menu_op" where
  "apply_existing_menu db existing spec =
     (if menu_changed_fields existing spec = [] then ok_s ()
      else bind_s (db_update db ''update menu'' (m_id existing) (set_menu_fields spec)) (\<lambda>_. ok_s ()))"

definition create_menu_from_spec :: "menu_db \<Rightarrow> int \<Rightarrow> menu_attrs \<Rightarrow> int menu_op" where
  "create_menu_from_spec db parent_id spec =
     bind_s (db_insert db ''insert menu'' (row_of_menu_spec parent_id spec)) (\<lambda>r. ok_s (m_id r))"

definition apply_existing_button :: "menu_db \<Rightarrow> menu_row \<Rightarrow> menu_button_spec \<Rightarrow> bool menu_op" where
  "apply_existing_button db existing spec =
     (if button_changed_fields existing spec = [] then ok_s False
      else bind_s (db_update db ''update button'' (m_id existing) (set_button_fields spec))
        (\<lambda>_. ok_s (m_enabled existing \<noteq> button_enabled spec)))"

text \<open>The reference \<open>next_bit_position\<close> is threaded: each function returns its flag and the next position.\<close>

definition create_button_from_spec :: "menu_db \<Rightarrow> int \<Rightarrow> menu_button_spec \<Rightarrow> int \<Rightarrow> int menu_op" where
  "create_button_from_spec db parent_id spec next_bit =
     bind_s (db_insert db ''insert button'' (row_of_button_spec parent_id spec next_bit)) (\<lambda>_. ok_s (wrap_i32 (next_bit + 1)))"

fun apply_button_specs :: "menu_db \<Rightarrow> menu_row list \<Rightarrow> int \<Rightarrow> menu_button_spec list \<Rightarrow> int \<Rightarrow> (bool \<times> int) menu_op" where
  "apply_button_specs db existing parent_id [] next_bit = ok_s (False, next_bit)"
| "apply_button_specs db existing parent_id (b # bs) next_bit =
     (let e = find_existing_button existing parent_id (bs_auth_mark b)
      in bind_s (lift_r (ensure_button_auth_mark_available existing (map_option m_id e) (bs_auth_mark b)))
        (\<lambda>_. bind_s (case e of
              Some r \<Rightarrow> bind_s (apply_existing_button db r b) (\<lambda>changed. ok_s (changed, next_bit))
            | None \<Rightarrow> bind_s (create_button_from_spec db parent_id b next_bit) (\<lambda>n. ok_s (True, n)))
          (\<lambda>(c, n). bind_s (apply_button_specs db existing parent_id bs n) (\<lambda>(c', n'). ok_s (c \<or> c', n')))))"

fun apply_menu_nodes :: "menu_db \<Rightarrow> menu_row list \<Rightarrow> int \<Rightarrow> menu_node list \<Rightarrow> int \<Rightarrow> (bool \<times> int) menu_op" where
  "apply_menu_nodes db existing parent_id [] next_bit = ok_s (False, next_bit)"
| "apply_menu_nodes db existing parent_id (Node a bs cs # ns) next_bit =
     (let e = find_existing_menu existing parent_id (ns_path a)
      in bind_s (lift_r (ensure_menu_name_available existing (map_option m_id e) (ns_name a)))
        (\<lambda>_. bind_s (case e of
              Some r \<Rightarrow> bind_s (apply_existing_menu db r a) (\<lambda>_. ok_s (m_id r))
            | None \<Rightarrow> create_menu_from_spec db parent_id a)
          (\<lambda>menu_id. bind_s (apply_button_specs db existing menu_id bs next_bit)
            (\<lambda>(c1, n1). bind_s (apply_menu_nodes db existing menu_id cs n1)
              (\<lambda>(c2, n2). bind_s (apply_menu_nodes db existing parent_id ns n2)
                (\<lambda>(c3, n3). ok_s (c1 \<or> c2 \<or> c3, n3)))))))"

section \<open>The permission map\<close>

definition load_permission_mappings :: "menu_world \<Rightarrow> (string \<times> int) list" where
  "load_permission_mappings w =
     List.map_filter (\<lambda>r. map_option (\<lambda>pos. (m_auth_mark r, pos mod 4294967296)) (m_bit_position r))
       (filter (\<lambda>r. m_auth_mark r \<noteq> [])
         (filter (\<lambda>r. m_menu_type r = Button \<and> m_enabled r \<and> m_bit_position r \<noteq> None) (mw_rows w)))"

definition reload_permission_map :: "unit menu_op" where
  "reload_permission_map w = (Inr (), w\<lparr>mw_permission_map := load_permission_mappings w\<rparr>)"

definition apply_menu_config :: "menu_db \<Rightarrow> menu_node list \<Rightarrow> sync_plan menu_op" where
  "apply_menu_config db menus =
     bind_s (lift_r (validate_menu_config_spec menus))
       (\<lambda>_. bind_s (transaction (\<lambda>w.
            let existing = by_sort w
            in bind_s (lift_r (build_menu_config_plan existing menus))
              (\<lambda>result. bind_s (apply_menu_nodes db existing 0 menus (next_button_bit_position existing))
                (\<lambda>(changed, _). ok_s (result, changed))) w))
         (\<lambda>(result, changed). bind_s (if changed then reload_permission_map else ok_s ()) (\<lambda>_. ok_s result)))"

section \<open>Single rows\<close>

definition menu_name_taken :: "string \<Rightarrow> int option \<Rightarrow> menu_world \<Rightarrow> bool" where
  "menu_name_taken nm except w \<longleftrightarrow>
     list_ex (\<lambda>r. m_name r = nm \<and> m_menu_type r = Menu \<and> Some (m_id r) \<noteq> except) (mw_rows w)"

record menu_vo =
  v_id :: int
  v_parent_id :: int
  v_menu_type :: menu_type
  v_name :: string
  v_path :: string
  v_component :: string
  v_redirect :: string
  v_icon :: string
  v_title :: string
  v_link :: string
  v_is_iframe :: bool
  v_is_hide :: bool
  v_is_hide_tab :: bool
  v_is_full_page :: bool
  v_is_first_level :: bool
  v_keep_alive :: bool
  v_fixed_tab :: bool
  v_show_badge :: bool
  v_show_text_badge :: string
  v_active_path :: string
  v_auth_name :: string
  v_auth_mark :: string
  v_sort :: int
  v_enabled :: bool
  v_create_time :: int
  v_update_time :: int

definition menu_vo_of :: "menu_row \<Rightarrow> menu_vo" where
  "menu_vo_of r =
     \<lparr>v_id = m_id r, v_parent_id = m_parent_id r, v_menu_type = m_menu_type r, v_name = m_name r,
      v_path = m_path r, v_component = m_component r, v_redirect = m_redirect r, v_icon = m_icon r,
      v_title = m_title r, v_link = m_link r, v_is_iframe = m_is_iframe r, v_is_hide = m_is_hide r,
      v_is_hide_tab = m_is_hide_tab r, v_is_full_page = m_is_full_page r,
      v_is_first_level = m_is_first_level r, v_keep_alive = m_keep_alive r, v_fixed_tab = m_fixed_tab r,
      v_show_badge = m_show_badge r, v_show_text_badge = m_show_text_badge r,
      v_active_path = m_active_path r, v_auth_name = m_auth_name r, v_auth_mark = m_auth_mark r,
      v_sort = m_sort r, v_enabled = m_enabled r, v_create_time = m_create_time r,
      v_update_time = m_update_time r\<rparr>"

definition to_vo :: "menu_row menu_op \<Rightarrow> menu_vo menu_op" where
  "to_vo m = bind_s m (\<lambda>r. ok_s (menu_vo_of r))"

definition create_menu :: "menu_db \<Rightarrow> create_menu_dto \<Rightarrow> menu_vo menu_op" where
  "create_menu db d =
     bind_s (lift_r (map_err (\<lambda>m. BadRequest (Text m)) (validate_for_save d)))
       (\<lambda>_ w. if menu_name_taken (cm_name d) None w then (Inl (BadRequest (Text ''menu name exists'')), w)
              else to_vo (db_insert db ''insert menu'' (row_of_create_menu d)) w)"

definition create_button :: "menu_db \<Rightarrow> create_button_dto \<Rightarrow> menu_vo menu_op" where
  "create_button db d w =
     (if find_by_id (cb_parent_id d) w = None then (Inl (BadRequest (Text ''parent menu does not exist'')), w)
      else
        (let next_pos = next_button_bit_position (mw_rows w)
         in bind_s (db_insert db ''insert button'' ((row_of_create_button d)\<lparr>m_bit_position := Some next_pos\<rparr>))
              (\<lambda>r. bind_s reload_permission_map (\<lambda>_. ok_s (menu_vo_of r))) w))"

definition update_menu :: "menu_db \<Rightarrow> int \<Rightarrow> update_menu_dto \<Rightarrow> menu_vo menu_op" where
  "update_menu db i d w =
     (case find_by_id i w of
        None \<Rightarrow> (Inl (NotFound (Text ''menu does not exist'')), w)
      | Some r \<Rightarrow>
          if m_menu_type r \<noteq> Menu then (Inl (BadRequest (Text ''not a menu'')), w)
          else bind_s (lift_r (map_err (\<lambda>m. BadRequest (Text m)) (validate_for_existing d r)))
            (\<lambda>_ w. case um_name d of
               Some nm \<Rightarrow> if menu_name_taken nm (Some i) w then (Inl (BadRequest (Text ''menu name exists'')), w)
                          else to_vo (db_update db ''update menu'' i (update_menu_apply d)) w
             | None \<Rightarrow> to_vo (db_update db ''update menu'' i (update_menu_apply d)) w) w)"

definition update_button :: "menu_db \<Rightarrow> int \<Rightarrow> update_button_dto \<Rightarrow> menu_vo menu_op" where
  "update_button db i d w =
     (case find_by_id i w of
        None \<Rightarrow> (Inl (NotFound (Text ''button does not exist'')), w)
      | Some r \<Rightarrow>
          if m_menu_type r \<noteq> Button then (Inl (BadRequest (Text ''not a button'')), w)
          else (let need_reload = ub_auth_mark d \<noteq> None \<or> ub_enabled d \<noteq> None
                in bind_s (db_update db ''update button'' i (update_button_apply d))
                     (\<lambda>r'. bind_s (if need_reload then reload_permission_map else ok_s ()) (\<lambda>_. ok_s (menu_vo_of r'))) w))"

definition delete_menu :: "int \<Rightarrow> int menu_op" where
  "delete_menu i w =
     (case find_by_id i w of
        None \<Rightarrow> (Inl (NotFound (Text ''menu does not exist'')), w)
      | Some r \<Rightarrow>
          if list_ex (\<lambda>x. m_parent_id x = i) (mw_rows w) then (Inl (BadRequest (Text ''menu has children'')), w)
          else if list_ex (\<lambda>(_, m). m = i) (mw_role_menus w) then (Inl (BadRequest (Text ''menu is used by a role'')), w)
          else (let w' = w\<lparr>mw_rows := filter (\<lambda>x. m_id x \<noteq> i) (mw_rows w)\<rparr>
                in bind_s (if m_menu_type r = Button then reload_permission_map else ok_s ()) (\<lambda>_. ok_s i) w'))"

section \<open>The menu tree\<close>

record auth_item =
  ai_id :: int
  ai_parent_id :: int
  ai_title :: string
  ai_auth_name :: string
  ai_auth_mark :: string
  ai_sort :: int
  ai_enabled :: bool
  ai_create_time :: int
  ai_update_time :: int

record menu_meta =
  mm_title :: string
  mm_icon :: string
  mm_is_hide :: bool
  mm_is_hide_tab :: bool
  mm_link :: string
  mm_is_iframe :: bool
  mm_keep_alive :: bool
  mm_roles :: "string list"
  mm_is_first_level :: bool
  mm_fixed_tab :: bool
  mm_active_path :: string
  mm_is_full_page :: bool
  mm_show_badge :: bool
  mm_show_text_badge :: string
  mm_sort :: int
  mm_enabled :: bool
  mm_auth_list :: "auth_item list"

record tree_entry =
  te_id :: int
  te_parent_id :: int
  te_menu_type :: menu_type
  te_path :: string
  te_name :: string
  te_component :: string
  te_redirect :: string
  te_meta :: menu_meta
  te_create_time :: int
  te_update_time :: int

datatype menu_tree = MenuTree (mt_entry: tree_entry) (mt_children: "menu_tree list")

definition auth_item_of :: "menu_row \<Rightarrow> auth_item" where
  "auth_item_of r =
     \<lparr>ai_id = m_id r, ai_parent_id = m_parent_id r, ai_title = m_title r, ai_auth_name = m_auth_name r,
      ai_auth_mark = m_auth_mark r, ai_sort = m_sort r, ai_enabled = m_enabled r,
      ai_create_time = m_create_time r, ai_update_time = m_update_time r\<rparr>"

definition tree_entry_of :: "menu_row \<Rightarrow> auth_item list \<Rightarrow> string list \<Rightarrow> tree_entry" where
  "tree_entry_of r auth_list role_codes =
     \<lparr>te_id = m_id r, te_parent_id = m_parent_id r, te_menu_type = m_menu_type r, te_path = m_path r,
      te_name = m_name r, te_component = m_component r, te_redirect = m_redirect r,
      te_meta = 
      \<lparr>mm_title = m_title r, mm_icon = m_icon r, mm_is_hide = m_is_hide r,
      mm_is_hide_tab = m_is_hide_tab r, mm_link = m_link r, mm_is_iframe = m_is_iframe r,
      mm_keep_alive = m_keep_alive r, mm_roles = role_codes, mm_is_first_level = m_is_first_level r,
      mm_fixed_tab = m_fixed_tab r, mm_active_path = m_active_path r, mm_is_full_page = m_is_full_page r,
      mm_show_badge = m_show_badge r, mm_show_text_badge = m_show_text_badge r, mm_sort = m_sort r,
      mm_enabled = m_enabled r, mm_auth_list = auth_list\<rparr>
      ,
      te_create_time = m_create_time r, te_update_time = m_update_time r\<rparr>"

text \<open>
  \<open>build_menu_tree\<close> calls itself on the rows below each menu. The code recurses as deep as the rows
  lead it; the fuel is the depth, \<open>None\<close> that it did not suffice.
\<close>

fun build_menu_tree :: "nat \<Rightarrow> menu_row list \<Rightarrow> int \<Rightarrow> string list \<Rightarrow> menu_tree list option" where
  "build_menu_tree 0 menus parent_id role_codes = None"
| "build_menu_tree (Suc n) menus parent_id role_codes =
     those (map (\<lambda>menu.
         let auth_list = map auth_item_of (filter (\<lambda>item. m_parent_id item = m_id menu \<and> m_menu_type item = Button) menus)
         in map_option (MenuTree (tree_entry_of menu auth_list role_codes)) (build_menu_tree n menus (m_id menu) role_codes))
       (filter (\<lambda>menu. m_parent_id menu = parent_id \<and> m_menu_type menu = Menu) menus))"

definition list_menus :: "nat \<Rightarrow> menu_world \<Rightarrow> menu_tree list option" where
  "list_menus fuel w = build_menu_tree fuel (by_sort w) 0 []"

definition get_menu_tree_for_user_id :: "nat \<Rightarrow> int \<Rightarrow> menu_world \<Rightarrow> menu_tree list option" where
  "get_menu_tree_for_user_id fuel user_id w =
     (let role_ids = map snd (filter (\<lambda>(u, _). u = user_id) (mw_user_roles w))
      in if role_ids = [] then Some []
         else
           (let menus = filter (\<lambda>m. m_enabled m \<and> list_ex (\<lambda>(r, i). r \<in> set role_ids \<and> i = m_id m) (mw_role_menus w)) (by_sort w);
                role_codes = map snd (filter (\<lambda>(i, _). i \<in> set role_ids) (mw_roles w))
            in build_menu_tree fuel menus 0 role_codes))"

end
