(* ===== verification/Menu_Items.thy ===== *)
theory Menu_Items
  imports Menu_Service
begin

text \<open>
  A menu configuration as the flat list of its menus and buttons in the order in which the code works on
  them: what validation says about the list, and the run of \<open>apply_menu_nodes\<close> as a run over the
  list. An address is the list of paths from the root; the environment maps addresses to row ids.
\<close>

datatype item = MItem "string list" menu_attrs | BItem "string list" menu_button_spec

fun flat :: "string list \<Rightarrow> menu_node list \<Rightarrow> item list" where
  "flat ps [] = []"
| "flat ps (Node a bs cs # ns) =
     MItem ps a # map (BItem (ps @ [ns_path a])) bs @ flat (ps @ [ns_path a]) cs @ flat ps ns"

definition addrs :: "item list \<Rightarrow> string list list" where
  "addrs xs = List.map_filter (\<lambda>x. case x of MItem ps a \<Rightarrow> Some (ps @ [ns_path a]) | BItem _ _ \<Rightarrow> None) xs"

definition names :: "item list \<Rightarrow> string list" where
  "names xs = List.map_filter (\<lambda>x. case x of MItem ps a \<Rightarrow> Some (ns_name a) | BItem _ _ \<Rightarrow> None) xs"

definition marks :: "item list \<Rightarrow> string list" where
  "marks xs = List.map_filter (\<lambda>x. case x of MItem ps a \<Rightarrow> None | BItem _ b \<Rightarrow> Some (bs_auth_mark b)) xs"

lemma map_filter_simps' [simp]:
  "List.map_filter f [] = []" "List.map_filter f (x # xs) = (case f x of None \<Rightarrow> List.map_filter f xs | Some y \<Rightarrow> y # List.map_filter f xs)"
  "List.map_filter f (xs @ ys) = List.map_filter f xs @ List.map_filter f ys"
  by (simp_all add: map_filter_def split: option.splits)

lemma item_lists_simps [simp]:
  "addrs [] = []" "addrs (MItem ps a # xs) = (ps @ [ns_path a]) # addrs xs" "addrs (BItem ps b # xs) = addrs xs"
  "addrs (xs @ ys) = addrs xs @ addrs ys"
  "names [] = []" "names (MItem ps a # xs) = ns_name a # names xs" "names (BItem ps b # xs) = names xs"
  "names (xs @ ys) = names xs @ names ys"
  "marks [] = []" "marks (MItem ps a # xs) = marks xs" "marks (BItem ps b # xs) = bs_auth_mark b # marks xs"
  "marks (xs @ ys) = marks xs @ marks ys"
  by (simp_all add: addrs_def names_def marks_def)

lemma item_lists_map [simp]:
  "addrs (map (BItem ps) bs) = []" "names (map (BItem ps) bs) = []" "marks (map (BItem ps) bs) = map bs_auth_mark bs"
  by (induction bs) auto

section \<open>Validation\<close>

text \<open>What one item must have, and the paths of one level.\<close>

fun item_filled :: "item \<Rightarrow> bool" where
  "item_filled (MItem ps a) \<longleftrightarrow> trim (ns_name a) \<noteq> [] \<and> trim (ns_path a) \<noteq> [] \<and> trim (ns_title a) \<noteq> []"
| "item_filled (BItem ps b) \<longleftrightarrow> trim (bs_auth_name b) \<noteq> [] \<and> trim (bs_auth_mark b) \<noteq> []"

abbreviation level_paths :: "menu_node list \<Rightarrow> string list" where
  "level_paths ns \<equiv> map (\<lambda>n. ns_path (node_attrs n)) ns"

fun paths_distinct :: "menu_node list \<Rightarrow> bool" where
  "paths_distinct [] \<longleftrightarrow> True"
| "paths_distinct (Node a bs cs # ns) \<longleftrightarrow> ns_path a \<notin> set (level_paths ns) \<and> paths_distinct cs \<and> paths_distinct ns"

text \<open>A list that adds distinct new elements to a set.\<close>

definition adds :: "string list \<Rightarrow> string set \<Rightarrow> string set \<Rightarrow> bool" where
  "adds xs A B \<longleftrightarrow> distinct xs \<and> set xs \<inter> A = {} \<and> B = A \<union> set xs"

lemma adds_simps [simp]:
  "adds [] A B \<longleftrightarrow> B = A"
  "adds (x # xs) A B \<longleftrightarrow> x \<notin> A \<and> adds xs (insert x A) B"
  by (auto simp: adds_def)

lemma adds_append: "adds (xs @ ys) A C \<longleftrightarrow> (\<exists>B. adds xs A B \<and> adds ys B C)"
  by (auto simp: adds_def)

lemma adds_empty: "adds xs {} B \<longleftrightarrow> distinct xs \<and> B = set xs"
  by (auto simp: adds_def)

lemma validate_buttons_Inr:
  assumes "sib \<subseteq> m"
  shows "validate_buttons bs sib m = Inr m' \<longleftrightarrow>
     (\<forall>b \<in> set bs. item_filled (BItem ps b)) \<and> adds (map bs_auth_mark bs) m m'"
  using assms
proof (induction bs sib m rule: validate_buttons.induct)
  case (2 b bs siblings marks)
  from 2(2) have "insert (bs_auth_mark b) siblings \<subseteq> insert (bs_auth_mark b) marks" by auto
  then show ?case using 2 by auto
qed auto

lemma split_middle:
  "((I \<and> P1 \<and> N1) \<and> (\<exists>m1 n2 m2. (Fb \<and> A1 m1) \<and> (Fc \<and> Pc \<and> A2 n2 \<and> A3 m1 m2) \<and> (Fn \<and> Pn \<and> (L \<and> L') \<and> A4 n2 \<and> A5 m2))) \<longleftrightarrow>
   (I \<and> Fb \<and> Fc \<and> Fn) \<and> (L \<and> Pc \<and> Pn) \<and> (P1 \<and> L') \<and> (N1 \<and> (\<exists>B. A2 B \<and> A4 B)) \<and> (\<exists>B. A1 B \<and> (\<exists>B'. A3 B B' \<and> A5 B'))"
  by blast

lemma validate_nodes_Inr:
  "validate_menu_nodes ns P N M = Inr (N', M') \<longleftrightarrow>
     (\<forall>x \<in> set (flat ps ns). item_filled x) \<and> paths_distinct ns \<and> set (level_paths ns) \<inter> P = {} \<and>
     adds (names (flat ps ns)) N N' \<and> adds (marks (flat ps ns)) M M'"
proof (induction ns P N M arbitrary: ps N' M' rule: validate_menu_nodes.induct)
  case (1 P N M)
  then show ?case by auto
next
  case (2 a bs cs ns P N M)
  let ?qs = "ps @ [ns_path a]"
  let ?ok = "item_filled (MItem ps a) \<and> ns_path a \<notin> P \<and> ns_name a \<notin> N"
  have "validate_menu_nodes (Node a bs cs # ns) P N M = Inr (N', M') \<longleftrightarrow> ?ok \<and>
      (\<exists>m1 n2 m2. validate_buttons bs {} M = Inr m1 \<and> validate_menu_nodes cs {} (insert (ns_name a) N) m1 = Inr (n2, m2)
         \<and> validate_menu_nodes ns (insert (ns_path a) P) n2 m2 = Inr (N', M'))"
    by (auto simp: bind_r_Inr)
  also have "\<dots> \<longleftrightarrow> ?ok \<and>
      (\<exists>m1 n2 m2. ((\<forall>b \<in> set bs. item_filled (BItem ?qs b)) \<and> adds (map bs_auth_mark bs) M m1)
         \<and> ((\<forall>x \<in> set (flat ?qs cs). item_filled x) \<and> paths_distinct cs
            \<and> adds (names (flat ?qs cs)) (insert (ns_name a) N) n2 \<and> adds (marks (flat ?qs cs)) m1 m2)
         \<and> ((\<forall>x \<in> set (flat ps ns). item_filled x) \<and> paths_distinct ns \<and> set (level_paths ns) \<inter> insert (ns_path a) P = {}
            \<and> adds (names (flat ps ns)) n2 N' \<and> adds (marks (flat ps ns)) m2 M'))"
  proof (cases ?ok)
    case True
    have ok: "trim (ns_name a) \<noteq> []" "trim (ns_path a) \<noteq> []" "trim (ns_title a) \<noteq> []" "ns_path a \<notin> P" "ns_name a \<notin> N"
      using True by auto
    have b: "validate_buttons bs {} M = Inr m1 \<longleftrightarrow> (\<forall>b \<in> set bs. item_filled (BItem ?qs b)) \<and> adds (map bs_auth_mark bs) M m1" for m1
      by (rule validate_buttons_Inr) simp
    have c: "validate_menu_nodes cs {} (insert (ns_name a) N) m1 = Inr (n2, m2) \<longleftrightarrow>
        (\<forall>x \<in> set (flat ?qs cs). item_filled x) \<and> paths_distinct cs
            \<and> adds (names (flat ?qs cs)) (insert (ns_name a) N) n2 \<and> adds (marks (flat ?qs cs)) m1 m2" for m1 n2 m2
      using 2(1) [where ps = ?qs] ok by simp
    have d: "validate_menu_nodes ns (insert (ns_path a) P) n2 m2 = Inr (N', M') \<longleftrightarrow>
        (\<forall>x \<in> set (flat ps ns). item_filled x) \<and> paths_distinct ns \<and> set (level_paths ns) \<inter> insert (ns_path a) P = {}
            \<and> adds (names (flat ps ns)) n2 N' \<and> adds (marks (flat ps ns)) m2 M'" for n2 m2
      using 2(2) [where ps = ps] ok by simp
    show ?thesis unfolding b c d ..
  next
    case False
    then show ?thesis by blast
  qed
  also have "\<dots> \<longleftrightarrow> (\<forall>x \<in> set (flat ps (Node a bs cs # ns)). item_filled x) \<and> paths_distinct (Node a bs cs # ns)
     \<and> set (level_paths (Node a bs cs # ns)) \<inter> P = {}
     \<and> adds (names (flat ps (Node a bs cs # ns))) N N' \<and> adds (marks (flat ps (Node a bs cs # ns))) M M'"
  proof -
    have l: "set (level_paths (Node a bs cs # ns)) \<inter> P = {} \<longleftrightarrow> ns_path a \<notin> P \<and> set (level_paths ns) \<inter> P = {}" by auto
    have i: "set (level_paths ns) \<inter> insert (ns_path a) P = {} \<longleftrightarrow> ns_path a \<notin> set (level_paths ns) \<and> set (level_paths ns) \<inter> P = {}" by auto
    have f: "(\<forall>x \<in> set (MItem ps a # map (BItem ?qs) bs @ flat ?qs cs @ flat ps ns). item_filled x) \<longleftrightarrow> item_filled (MItem ps a)
      \<and> (\<forall>b \<in> set bs. item_filled (BItem ?qs b)) \<and> (\<forall>x \<in> set (flat ?qs cs). item_filled x) \<and> (\<forall>x \<in> set (flat ps ns). item_filled x)"
      by (auto simp del: item_filled.simps)
    show ?thesis
      unfolding l i flat.simps f item_lists_simps item_lists_map append_Cons append_Nil adds_simps adds_append paths_distinct.simps
      by (rule split_middle)
  qed
  finally show ?case .
qed

text \<open>The accepted configurations.\<close>

definition spec_ok :: "menu_node list \<Rightarrow> bool" where
  "spec_ok menus \<longleftrightarrow> (\<forall>x \<in> set (flat [] menus). item_filled x) \<and> paths_distinct menus
     \<and> distinct (names (flat [] menus)) \<and> distinct (marks (flat [] menus))"

lemma validate_spec_Inr: "validate_menu_config_spec menus = Inr () \<longleftrightarrow> spec_ok menus"
  using validate_nodes_Inr [of menus "{}" "{}" "{}" _ _ "[]"]
  by (auto simp: validate_menu_config_spec_def bind_r_Inr spec_ok_def adds_empty)

text \<open>Distinct paths on every level make the addresses distinct.\<close>

lemma addrs_extend: "q \<in> set (addrs (flat ps ns)) \<Longrightarrow> \<exists>p rs. p \<in> set (level_paths ns) \<and> q = ps @ p # rs"
proof (induction ps ns arbitrary: q rule: flat.induct)
  case (2 ps a bs cs ns)
  then consider (own) "q = ps @ [ns_path a]" | (below) "q \<in> set (addrs (flat (ps @ [ns_path a]) cs))"
    | (rest) "q \<in> set (addrs (flat ps ns))" by auto
  then show ?case
  proof cases
    case own
    then show ?thesis by (intro exI [of _ "ns_path a"] exI [of _ "[]"]) simp
  next
    case below
    then obtain p rs where "q = (ps @ [ns_path a]) @ p # rs" using "2.IH"(1) by blast
    then show ?thesis by (intro exI [of _ "ns_path a"] exI [of _ "p # rs"]) simp
  next
    case rest
    then show ?thesis using "2.IH"(2) by fastforce
  qed
qed simp

lemma addrs_distinct: "paths_distinct ns \<Longrightarrow> distinct (addrs (flat ps ns))"
proof (induction ps ns rule: flat.induct)
  case (2 ps a bs cs ns)
  let ?qs = "ps @ [ns_path a]"
  have "?qs \<notin> set (addrs (flat ?qs cs))" using addrs_extend [of ?qs ?qs cs] by auto
  moreover have "?qs \<notin> set (addrs (flat ps ns))" using addrs_extend [of ?qs ps ns] 2(3) by auto
  moreover have "set (addrs (flat ?qs cs)) \<inter> set (addrs (flat ps ns)) = {}"
  proof (rule ccontr)
    assume "\<not> ?thesis"
    then obtain q where q: "q \<in> set (addrs (flat ?qs cs))" "q \<in> set (addrs (flat ps ns))" by auto
    obtain p rs where "q = ?qs @ p # rs" using addrs_extend [OF q(1)] by blast
    moreover obtain p' rs' where "p' \<in> set (level_paths ns)" "q = ps @ p' # rs'" using addrs_extend [OF q(2)] by blast
    ultimately show False using 2(3) by auto
  qed
  ultimately show ?case using 2 by simp
qed simp

end
