(* ===== verification/Menu_Apply.thy ===== *)
theory Menu_Apply
  imports Menu_Items
begin

text \<open>
  Applying a configuration as a run over its items: what one item does to the table, the invariant of the
  run, and what the table is like afterwards. An item is found by its parent and its path or mark; the
  environment maps the address of an item to the id of its row.
\<close>

datatype addr = MA "string list" | BA string

fun addr_of :: "item \<Rightarrow> addr" where
  "addr_of (MItem ps a) = MA (ps @ [ns_path a])"
| "addr_of (BItem ps b) = BA (bs_auth_mark b)"

fun site :: "item \<Rightarrow> string list" where
  "site (MItem ps a) = ps"
| "site (BItem ps b) = ps"

fun item_key :: "item \<Rightarrow> int \<Rightarrow> menu_row \<Rightarrow> bool" where
  "item_key (MItem ps a) pid r \<longleftrightarrow> m_parent_id r = pid \<and> m_menu_type r = Menu \<and> m_path r = ns_path a"
| "item_key (BItem ps b) pid r \<longleftrightarrow> m_parent_id r = pid \<and> m_menu_type r = Button \<and> m_auth_mark r = bs_auth_mark b"

fun item_clash :: "item \<Rightarrow> menu_row \<Rightarrow> bool" where
  "item_clash (MItem ps a) r \<longleftrightarrow> m_menu_type r = Menu \<and> m_name r = ns_name a"
| "item_clash (BItem ps b) r \<longleftrightarrow> m_menu_type r = Button \<and> m_auth_mark r = bs_auth_mark b"

fun item_in_sync :: "item \<Rightarrow> menu_row \<Rightarrow> bool" where
  "item_in_sync (MItem ps a) r \<longleftrightarrow> menu_changed_fields r a = []"
| "item_in_sync (BItem ps b) r \<longleftrightarrow> button_changed_fields r b = []"

definition item_free :: "menu_row list \<Rightarrow> item \<Rightarrow> int option \<Rightarrow> bool" where
  "item_free existing x i \<longleftrightarrow> (\<forall>r \<in> set existing. item_clash x r \<longrightarrow> Some (m_id r) = i)"

definition item_at :: "menu_row list \<Rightarrow> item \<Rightarrow> int \<Rightarrow> menu_row option" where
  "item_at existing x pid = find (item_key x pid) existing"

fun set_item :: "item \<Rightarrow> menu_row \<Rightarrow> menu_row" where
  "set_item (MItem ps a) = set_menu_fields a"
| "set_item (BItem ps b) = set_button_fields b"

fun item_row :: "item \<Rightarrow> int \<Rightarrow> int \<Rightarrow> menu_row" where
  "item_row (MItem ps a) pid nb = row_of_menu_spec pid a"
| "item_row (BItem ps b) pid nb = row_of_button_spec pid b nb"

fun bits_used :: "item \<Rightarrow> int \<Rightarrow> int" where
  "bits_used (MItem ps a) nb = nb"
| "bits_used (BItem ps b) nb = wrap_i32 (nb + 1)"

text \<open>Whether an item changes the permission map.\<close>

fun item_flag :: "item \<Rightarrow> menu_row option \<Rightarrow> bool" where
  "item_flag (MItem ps a) e \<longleftrightarrow> False"
| "item_flag (BItem ps b) e \<longleftrightarrow> (case e of Some r \<Rightarrow> m_enabled r \<noteq> button_enabled b | None \<Rightarrow> True)"

text \<open>What one item does, when it succeeds: the flag, the next bit position and the new world.\<close>

definition do_item :: "menu_db \<Rightarrow> menu_row list \<Rightarrow> item \<Rightarrow> int \<Rightarrow> int \<Rightarrow> menu_world \<Rightarrow> ((bool \<times> int) \<times> menu_world) option" where
  "do_item db existing x pid nb w =
     (let e = item_at existing x pid
      in if \<not> item_free existing x (map_option m_id e) then None
         else case e of
           Some r \<Rightarrow>
             if item_in_sync x r then Some ((False, nb), w)
             else (case db_update db [] (m_id r) (set_item x) w of (Inr _, w') \<Rightarrow> Some ((item_flag x e, nb), w') | (Inl _, _) \<Rightarrow> None)
         | None \<Rightarrow> (case db_insert db [] (item_row x pid nb) w of (Inr _, w') \<Rightarrow> Some ((item_flag x e, bits_used x nb), w') | (Inl _, _) \<Rightarrow> None))"

definition item_id :: "menu_row list \<Rightarrow> item \<Rightarrow> int \<Rightarrow> menu_world \<Rightarrow> int" where
  "item_id existing x pid w = (case item_at existing x pid of Some r \<Rightarrow> m_id r | None \<Rightarrow> mw_next_id w)"

type_synonym run_result = "((addr \<Rightarrow> int) \<times> (bool \<times> int) \<times> menu_world) option"

definition then_run :: "bool \<Rightarrow> run_result \<Rightarrow> run_result" where
  "then_run c res = map_option (\<lambda>(env, (c', nb), w). (env, (c \<or> c', nb), w)) res"

fun run_items :: "menu_db \<Rightarrow> menu_row list \<Rightarrow> (addr \<Rightarrow> int) \<Rightarrow> item list \<Rightarrow> int \<Rightarrow> menu_world \<Rightarrow> run_result" where
  "run_items db existing env [] nb w = Some (env, (False, nb), w)"
| "run_items db existing env (x # xs) nb w =
     (let pid = env (MA (site x))
      in case do_item db existing x pid nb w of
           None \<Rightarrow> None
         | Some ((c, nb'), w') \<Rightarrow> then_run c (run_items db existing (env(addr_of x := item_id existing x pid w)) xs nb' w'))"

lemma then_run_simps [simp]:
  "then_run c None = None" "then_run c (Some (env, q, w)) = Some (env, (c \<or> fst q, snd q), w)"
  "then_run c (then_run c' res) = then_run (c \<or> c') res"
  by (cases res; auto simp: then_run_def case_prod_beta)+

lemma then_run_Some: "then_run c res = Some (env, q, w) \<longleftrightarrow> (\<exists>c'. res = Some (env, (c', snd q), w) \<and> fst q = (c \<or> c'))"
  by (cases q) (auto simp: then_run_def)

lemma run_items_append:
  "run_items db existing env xs nb w = Some (env1, q, w1) \<Longrightarrow>
   run_items db existing env (xs @ ys) nb w = then_run (fst q) (run_items db existing env1 ys (snd q) w1)"
proof (induction xs arbitrary: env nb w q)
  case Nil
  then show ?case by (cases "run_items db existing env1 ys (snd q) w1") auto
next
  case (Cons x xs)
  let ?env = "env(addr_of x := item_id existing x (env (MA (site x))) w)"
  obtain c nb' w' c' where step: "do_item db existing x (env (MA (site x))) nb w = Some ((c, nb'), w')"
    and rest: "run_items db existing ?env xs nb' w' = Some (env1, (c', snd q), w1)" and q: "fst q = (c \<or> c')"
    using Cons(2) by (auto simp: Let_def then_run_Some split: option.splits prod.splits)
  show ?case using step Cons(1) [OF rest] q by (simp add: Let_def del: fun_upd_apply)
qed

section \<open>The recursion of the code as a run\<close>

lemma item_free_menu: "ensure_menu_name_available existing e (ns_name a) = Inr () \<longleftrightarrow> item_free existing (MItem ps a) e"
  by (auto simp: ensure_menu_name_available_def item_free_def list_ex_iff)

lemma item_free_button: "ensure_button_auth_mark_available existing e (bs_auth_mark b) = Inr () \<longleftrightarrow> item_free existing (BItem ps b) e"
  by (auto simp: ensure_button_auth_mark_available_def item_free_def list_ex_iff)

lemma item_at_eq:
  "item_at existing (MItem ps a) pid = find_existing_menu existing pid (ns_path a)"
  "item_at existing (BItem ps b) pid = find_existing_button existing pid (bs_auth_mark b)"
  by (simp_all add: item_at_def find_existing_menu_def find_existing_button_def item_key.simps [abs_def])

text \<open>The message of a refused write does not matter for its success.\<close>

lemma db_insert_what: "db_insert db what row w = (Inr r, w') \<longleftrightarrow> db_insert db [] row w = (Inr r, w')"
  by (auto simp: db_insert_def Let_def)

lemma db_update_what: "db_update db what i f w = (Inr r, w') \<longleftrightarrow> db_update db [] i f w = (Inr r, w')"
  by (auto simp: db_update_def Let_def split: option.splits)

lemma apply_buttons_run:
  "apply_button_specs db existing pid bs nb w = (Inr q, w') \<Longrightarrow> env (MA ps) = pid \<Longrightarrow>
   \<exists>env'. run_items db existing env (map (BItem ps) bs) nb w = Some (env', q, w') \<and> (\<forall>qs. env' (MA qs) = env (MA qs))"
proof (induction bs arbitrary: nb w env q)
  case (Cons b bs)
  let ?x = "BItem ps b"
  let ?e = "item_at existing ?x pid"
  let ?env = "env(addr_of ?x := item_id existing ?x pid w)"
  from Cons(2) obtain q1 w1 q2 where free: "item_free existing ?x (map_option m_id ?e)"
    and step: "(case ?e of Some r \<Rightarrow> bind_s (apply_existing_button db r b) (\<lambda>changed. ok_s (changed, nb))
                | None \<Rightarrow> bind_s (create_button_from_spec db pid b nb) (\<lambda>n. ok_s (True, n))) w = (Inr q1, w1)"
    and rest: "apply_button_specs db existing pid bs (snd q1) w1 = (Inr q2, w')" and q: "q = (fst q1 \<or> fst q2, snd q2)"
    by (auto simp: result_simps Let_def bind_s_iff item_free_button [where ps = ps] item_at_eq case_prod_beta)
  have "do_item db existing ?x pid nb w = Some (q1, w1)"
    using free step
    by (auto simp: result_simps do_item_def Let_def bind_s_iff apply_existing_button_def create_button_from_spec_def db_insert_what [of db "''insert button''"]
          db_update_what [of db "''update button''"] split: option.splits if_splits)
  moreover have "?env (MA ps) = pid" using Cons(3) by simp
  then obtain env' where "run_items db existing ?env (map (BItem ps) bs) (snd q1) w1 = Some (env', q2, w')"
    "\<forall>qs. env' (MA qs) = ?env (MA qs)"
    using Cons(1) [OF rest] by blast
  ultimately show ?case using Cons(3) q by (cases q1) (auto simp: Let_def)
qed (auto simp: result_simps)

lemma apply_nodes_run:
  "apply_menu_nodes db existing pid ns nb w = (Inr q, w') \<Longrightarrow> env (MA ps) = pid \<Longrightarrow>
   \<exists>env'. run_items db existing env (flat ps ns) nb w = Some (env', q, w') \<and>
     (\<forall>qs. (\<nexists>p rs. qs = ps @ p # rs) \<longrightarrow> env' (MA qs) = env (MA qs))"
proof (induction ps ns arbitrary: pid nb w env q w' rule: flat.induct)
  case (2 ps a bs cs ns)
  let ?x = "MItem ps a" and ?qs = "ps @ [ns_path a]"
  let ?e = "item_at existing ?x pid"
  let ?env = "env(addr_of ?x := item_id existing ?x pid w)"
  from 2(3) obtain i w1 q1 w2 q2 w3 q3 where free: "item_free existing ?x (map_option m_id ?e)"
    and step: "(case ?e of Some r \<Rightarrow> bind_s (apply_existing_menu db r a) (\<lambda>_. ok_s (m_id r))
                | None \<Rightarrow> create_menu_from_spec db pid a) w = (Inr i, w1)"
    and buttons: "apply_button_specs db existing i bs nb w1 = (Inr q1, w2)"
    and children: "apply_menu_nodes db existing i cs (snd q1) w2 = (Inr q2, w3)"
    and rest: "apply_menu_nodes db existing pid ns (snd q2) w3 = (Inr q3, w')" and q: "q = (fst q1 \<or> fst q2 \<or> fst q3, snd q3)"
    by (auto simp: result_simps Let_def bind_s_iff item_free_menu [where ps = ps] item_at_eq case_prod_beta)
  have item: "do_item db existing ?x pid nb w = Some ((False, nb), w1)"
    using free step
    by (auto simp: result_simps do_item_def Let_def bind_s_iff apply_existing_menu_def create_menu_from_spec_def db_insert_what [of db "''insert menu''"]
          db_update_what [of db "''update menu''"] split: option.splits if_splits)
  have i: "item_id existing ?x pid w = i"
    using step by (auto simp: result_simps item_id_def bind_s_iff create_menu_from_spec_def db_insert_def Let_def split: option.splits if_splits)
  have "?env (MA ?qs) = i" using i by simp
  then obtain e1 where r1: "run_items db existing ?env (map (BItem ?qs) bs) nb w1 = Some (e1, q1, w2)" and e1: "\<forall>qs. e1 (MA qs) = ?env (MA qs)"
    using apply_buttons_run [OF buttons] by blast
  have "e1 (MA ?qs) = i" using e1 i by simp
  then obtain e2 where r2: "run_items db existing e1 (flat ?qs cs) (snd q1) w2 = Some (e2, q2, w3)"
    and e2: "\<forall>qs. (\<nexists>p rs. qs = ?qs @ p # rs) \<longrightarrow> e2 (MA qs) = e1 (MA qs)"
    using 2(1) [OF children] by blast
  have "e2 (MA ps) = pid" using e2 e1 2(4) by auto
  then obtain e3 where r3: "run_items db existing e2 (flat ps ns) (snd q2) w3 = Some (e3, q3, w')"
    and e3: "\<forall>qs. (\<nexists>p rs. qs = ps @ p # rs) \<longrightarrow> e3 (MA qs) = e2 (MA qs)"
    using 2(2) [OF rest] by blast
  have "run_items db existing env (flat ps (Node a bs cs # ns)) nb w = Some (e3, q, w')"
    using item 2(4) run_items_append [OF r1] run_items_append [OF r2] r3 q by (simp add: Let_def)
  moreover have "e3 (MA qs) = env (MA qs)" if none: "\<nexists>p rs. qs = ps @ p # rs" for qs
  proof -
    have "\<nexists>p rs. qs = ?qs @ p # rs" "qs \<noteq> ?qs" using none by auto
    then show ?thesis using none e3 e2 e1 by simp
  qed
  ultimately show ?case by blast
qed (auto simp: result_simps)

section \<open>The order of the items\<close>

text \<open>A menu comes before what is below it.\<close>

fun grounded :: "string list set \<Rightarrow> item list \<Rightarrow> bool" where
  "grounded A [] \<longleftrightarrow> True"
| "grounded A (MItem ps a # xs) \<longleftrightarrow> ps \<in> A \<and> grounded (insert (ps @ [ns_path a]) A) xs"
| "grounded A (BItem ps b # xs) \<longleftrightarrow> ps \<in> A \<and> grounded A xs"

lemma grounded_append: "grounded A (xs @ ys) \<longleftrightarrow> grounded A xs \<and> grounded (A \<union> set (addrs xs)) ys"
  by (induction A xs rule: grounded.induct) auto

lemma grounded_buttons: "ps \<in> A \<Longrightarrow> grounded A (map (BItem ps) bs)"
  by (induction bs arbitrary: A) auto

lemma grounded_flat: "ps \<in> A \<Longrightarrow> grounded A (flat ps ns)"
  by (induction ps ns arbitrary: A rule: flat.induct) (auto simp: grounded_append grounded_buttons)

lemma addr_in: "MA q \<in> addr_of ` set xs \<longleftrightarrow> q \<in> set (addrs xs)" "BA m \<in> addr_of ` set xs \<longleftrightarrow> m \<in> set (marks xs)"
proof -
  have "(MA q \<in> addr_of ` set xs \<longleftrightarrow> q \<in> set (addrs xs)) \<and> (BA m \<in> addr_of ` set xs \<longleftrightarrow> m \<in> set (marks xs))"
  proof (induction xs)
    case (Cons x xs)
    then show ?case by (cases x) simp_all
  qed simp
  then show "MA q \<in> addr_of ` set xs \<longleftrightarrow> q \<in> set (addrs xs)" "BA m \<in> addr_of ` set xs \<longleftrightarrow> m \<in> set (marks xs)" by auto
qed

lemma distinct_addr_of: "distinct (map addr_of xs) \<longleftrightarrow> distinct (addrs xs) \<and> distinct (marks xs)"
proof (induction xs)
  case (Cons x xs)
  then show ?case using addr_in [of _ xs] by (cases x) auto
qed simp

lemma addr_of_ne [simp]: "addr_of x \<noteq> MA []"
  by (cases x) auto

lemma MA_of_addrs: "q \<in> set (addrs xs) \<Longrightarrow> \<exists>ps a. MItem ps a \<in> set xs \<and> q = ps @ [ns_path a]"
proof (induction xs)
  case (Cons x xs)
  then show ?case by (cases x) auto
qed simp

lemma spec_ok_order:
  assumes "spec_ok menus"
  shows "grounded {[]} (flat [] menus)" "distinct (map addr_of (flat [] menus))"
  using assms addrs_distinct [of menus "[]"] by (auto simp: spec_ok_def distinct_addr_of grounded_flat)

section \<open>The invariant of the run\<close>

definition settled :: "menu_row list \<Rightarrow> (addr \<Rightarrow> int) \<Rightarrow> menu_row list \<Rightarrow> item \<Rightarrow> bool" where
  "settled existing env rows x \<longleftrightarrow>
     item_free existing x (Some (env (addr_of x)))
     \<and> (case item_at existing x (env (MA (site x))) of Some r0 \<Rightarrow> m_id r0 = env (addr_of x)
         | None \<Rightarrow> env (addr_of x) \<notin> m_id ` set existing)
     \<and> (\<exists>r \<in> set rows. m_id r = env (addr_of x) \<and> item_key x (env (MA (site x))) r \<and> item_in_sync x r)"

definition ids_ok :: "menu_world \<Rightarrow> bool" where
  "ids_ok w \<longleftrightarrow> 0 < mw_next_id w \<and> distinct (map m_id (mw_rows w)) \<and> (\<forall>r \<in> set (mw_rows w). 0 < m_id r \<and> m_id r < mw_next_id w)"

lemma ids_ok_map:
  assumes "ids_ok w" "map m_id (mw_rows w') = map m_id (mw_rows w)" "mw_next_id w' = mw_next_id w"
  shows "ids_ok w'"
proof -
  have all: "(\<forall>r \<in> set (mw_rows v). P (m_id r)) \<longleftrightarrow> list_all P (map m_id (mw_rows v))" for P v
    by (simp add: list_all_iff)
  show ?thesis using assms unfolding ids_ok_def all [of _ "\<lambda>i. 0 < i \<and> i < _"] by simp
qed

definition run_inv :: "menu_row list \<Rightarrow> (addr \<Rightarrow> int) \<Rightarrow> item list \<Rightarrow> menu_world \<Rightarrow> bool" where
  "run_inv existing env xs w \<longleftrightarrow>
     ids_ok w \<and> env (MA []) = 0
     \<and> (\<forall>x \<in> set xs. site x \<in> insert [] (set (addrs xs)) \<and> settled existing env (mw_rows w) x)
     \<and> (\<forall>r \<in> set (mw_rows w). r \<in> set existing \<or> m_id r \<in> (\<lambda>x. env (addr_of x)) ` set xs)
     \<and> m_id ` set existing \<subseteq> m_id ` set (mw_rows w)"

lemma run_inv_item: "run_inv existing env xs w \<Longrightarrow> x \<in> set xs \<Longrightarrow> site x \<in> insert [] (set (addrs xs)) \<and> settled existing env (mw_rows w) x"
  unfolding run_inv_def by blast

lemma run_inv_row: "run_inv existing env xs w \<Longrightarrow> r \<in> set (mw_rows w) \<Longrightarrow> r \<in> set existing \<or> (\<exists>x \<in> set xs. m_id r = env (addr_of x))"
  unfolding run_inv_def by blast

lemma run_inv_existing: "run_inv existing env xs w \<Longrightarrow> r \<in> set existing \<Longrightarrow> \<exists>r' \<in> set (mw_rows w). m_id r' = m_id r"
proof -
  assume "run_inv existing env xs w" "r \<in> set existing"
  then have "m_id r \<in> m_id ` set (mw_rows w)" unfolding run_inv_def by blast
  then show ?thesis by auto
qed

lemma run_inv_ids: "run_inv existing env xs w \<Longrightarrow> ids_ok w"
  unfolding run_inv_def by blast

lemma settled_row: "settled existing env rows x \<Longrightarrow> env (addr_of x) \<in> m_id ` set rows"
  unfolding settled_def by force

lemma same_id: "distinct (map m_id rows) \<Longrightarrow> r \<in> set rows \<Longrightarrow> r' \<in> set rows \<Longrightarrow> m_id r = m_id r' \<Longrightarrow> r = r'"
  by (metis distinct_map inj_onD)

lemma run_inv_inj:
  assumes inv: "run_inv existing env xs w"
  shows "ps \<in> insert [] (set (addrs xs)) \<Longrightarrow> qs \<in> insert [] (set (addrs xs)) \<Longrightarrow> env (MA ps) = env (MA qs) \<Longrightarrow> ps = qs"
proof (induction ps arbitrary: qs rule: rev_induct)
  have row: "\<exists>a. MItem us a \<in> set xs \<and> ns_path a = p
      \<and> (\<exists>r \<in> set (mw_rows w). m_id r = env (MA (us @ [p])) \<and> m_parent_id r = env (MA us) \<and> m_path r = p) \<and> 0 < env (MA (us @ [p]))"
    if "us @ [p] \<in> set (addrs xs)" for us p
    using MA_of_addrs [OF that] inv by (fastforce simp: run_inv_def settled_def ids_ok_def)
  {
    case Nil
    show ?case
    proof (cases qs rule: rev_cases)
      case (snoc vs q)
      then have "0 < env (MA qs)" using row [of vs q] Nil(2) by auto
      then show ?thesis using Nil(3) inv by (simp add: run_inv_def)
    qed simp
  next
    case (snoc p us)
    have up: "us @ [p] \<in> set (addrs xs)" using snoc(2) by simp
    have "qs \<noteq> []" using row [OF up] snoc(4) inv by (auto simp: run_inv_def)
    then obtain vs q where qs: "qs = vs @ [q]" by (metis rev_exhaust)
    then have vq: "vs @ [q] \<in> set (addrs xs)" using snoc(3) by simp
    obtain a r where a: "MItem us a \<in> set xs" and r: "r \<in> set (mw_rows w)" "m_id r = env (MA (us @ [p]))" "m_parent_id r = env (MA us)" "m_path r = p"
      using row [OF up] by blast
    obtain b r' where b: "MItem vs b \<in> set xs" and r': "r' \<in> set (mw_rows w)" "m_id r' = env (MA (vs @ [q]))" "m_parent_id r' = env (MA vs)" "m_path r' = q"
      using row [OF vq] by blast
    have "r = r'" using same_id [of "mw_rows w" r r'] r r' snoc(4) qs inv by (simp add: run_inv_def ids_ok_def)
    moreover have "us \<in> insert [] (set (addrs xs))" "vs \<in> insert [] (set (addrs xs))"
      using a b inv by (force simp: run_inv_def)+
    ultimately show ?case using snoc(1) [of vs] r r' qs by auto
  }
qed

text \<open>What one item does to the table.\<close>

lemma item_row_fields [simp]:
  "item_key x pid ((item_row x pid nb)\<lparr>m_id := i, m_create_time := t, m_update_time := t'\<rparr>)"
  "item_in_sync x ((item_row x pid nb)\<lparr>m_id := i, m_create_time := t, m_update_time := t'\<rparr>)"
  by (cases x; simp)+

lemma set_item_fields [simp]:
  "item_key x pid r \<Longrightarrow> item_key x pid ((set_item x r)\<lparr>m_update_time := t\<rparr>)"
  "item_in_sync x ((set_item x r)\<lparr>m_update_time := t\<rparr>)"
  "m_id (set_item x r) = m_id r" "m_bit_position (set_item x r) = m_bit_position r"
  by (cases x; simp)+

lemma do_item_new:
  assumes "do_item db existing x pid nb w = Some (q, w')" "item_at existing x pid = None"
  shows "item_free existing x None"
    "\<exists>r. m_id r = mw_next_id w \<and> item_key x pid r \<and> item_in_sync x r \<and> mw_rows w' = mw_rows w @ [r] \<and> mw_next_id w' = mw_next_id w + 1"
  using assms by (auto simp: do_item_def db_insert_def Let_def split: if_splits)

lemma do_item_old:
  assumes "do_item db existing x pid nb w = Some (q, w')" "item_at existing x pid = Some r0"
    and ids: "distinct (map m_id (mw_rows w))" and r0: "r0 \<in> set (mw_rows w)"
  shows "item_free existing x (Some (m_id r0))" "mw_next_id w' = mw_next_id w"
    "\<exists>r. m_id r = m_id r0 \<and> item_key x pid r \<and> item_in_sync x r
       \<and> mw_rows w' = map (\<lambda>y. if m_id y = m_id r0 then r else y) (mw_rows w)"
proof -
  have k: "item_key x pid r0" using assms(2) by (auto simp: item_at_def find_Some_iff)
  have f: "find (\<lambda>r. m_id r = m_id r0) (mw_rows w) = Some r0"
    using same_id [OF ids _ r0] r0 by (intro find_only) auto
  show "item_free existing x (Some (m_id r0))" "mw_next_id w' = mw_next_id w"
    using assms(1,2) by (auto simp: do_item_def db_update_def Let_def split: if_splits option.splits)
  show "\<exists>r. m_id r = m_id r0 \<and> item_key x pid r \<and> item_in_sync x r
       \<and> mw_rows w' = map (\<lambda>y. if m_id y = m_id r0 then r else y) (mw_rows w)"
  proof (cases "item_in_sync x r0")
    case True
    then have "w' = w" using assms(1,2) by (auto simp: do_item_def Let_def split: if_splits)
    moreover have "map (\<lambda>y. if m_id y = m_id r0 then r0 else y) (mw_rows w) = mw_rows w"
      using same_id [OF ids _ r0] by (intro map_idI) auto
    ultimately have "mw_rows w' = map (\<lambda>y. if m_id y = m_id r0 then r0 else y) (mw_rows w)" by simp
    then show ?thesis using k True by blast
  next
    case False
    let ?r = "(set_item x r0)\<lparr>m_update_time := db_now db\<rparr>"
    have "mw_rows w' = map (\<lambda>y. if m_id y = m_id r0 then (set_item x y)\<lparr>m_update_time := db_now db\<rparr> else y) (mw_rows w)"
      using assms(1,2) f False by (auto simp: do_item_def db_update_def Let_def split: if_splits)
    also have "\<dots> = map (\<lambda>y. if m_id y = m_id r0 then ?r else y) (mw_rows w)"
      using same_id [OF ids _ r0] by (intro map_cong refl) metis
    finally have "mw_rows w' = map (\<lambda>y. if m_id y = m_id r0 then ?r else y) (mw_rows w)" .
    then show ?thesis using k by (intro exI [of _ ?r]) simp
  qed
qed

text \<open>An item found among the existing rows finds its row as it was.\<close>

lemma untouched:
  assumes inv: "run_inv existing env xs w" and ids: "distinct (map m_id existing)"
    and x: "site x \<in> insert [] (set (addrs xs))" "addr_of x \<notin> addr_of ` set xs"
    and at: "item_at existing x (env (MA (site x))) = Some r0"
  shows "r0 \<in> set (mw_rows w)" "\<And>y. y \<in> set xs \<Longrightarrow> env (addr_of y) \<noteq> m_id r0"
proof -
  have r0: "r0 \<in> set existing" "item_key x (env (MA (site x))) r0" using at by (auto simp: item_at_def find_Some_iff)
  show ne: "env (addr_of y) \<noteq> m_id r0" if y: "y \<in> set xs" for y
  proof
    assume e: "env (addr_of y) = m_id r0"
    have st: "settled existing env (mw_rows w) y" and sy: "site y \<in> insert [] (set (addrs xs))" using inv y by (auto simp: run_inv_def)
    have "item_at existing y (env (MA (site y))) = Some r0"
    proof (cases "item_at existing y (env (MA (site y)))")
      case None
      then show ?thesis using st e r0(1) by (auto simp: settled_def)
    next
      case (Some r1)
      then have "m_id r1 = m_id r0" "r1 \<in> set existing" using st e find_hit [OF Some [unfolded item_at_def]] by (auto simp: settled_def)
      then show ?thesis using Some same_id [OF ids _ r0(1)] by simp
    qed
    then have ky: "item_key y (env (MA (site y))) r0" by (auto simp: item_at_def find_Some_iff)
    then have "env (MA (site x)) = env (MA (site y))" using r0(2) by (cases x; cases y) auto
    then have "site x = site y" using run_inv_inj [OF inv x(1) sy] by simp
    then have "addr_of x = addr_of y" using r0(2) ky by (cases x; cases y) auto
    then show False using x(2) y by auto
  qed
  obtain r where r: "r \<in> set (mw_rows w)" "m_id r = m_id r0" using run_inv_existing [OF inv r0(1)] by blast
  then have "r \<in> set existing" using run_inv_row [OF inv r(1)] ne by metis
  then show "r0 \<in> set (mw_rows w)" using same_id [OF ids _ r0(1)] r by auto
qed

lemma run_inv_step:
  assumes inv: "run_inv existing env xs w" and ids: "distinct (map m_id existing)"
    and x: "site x \<in> insert [] (set (addrs xs))" "addr_of x \<notin> addr_of ` set xs"
    and step: "do_item db existing x (env (MA (site x))) nb w = Some (q, w')"
  shows "run_inv existing (env(addr_of x := item_id existing x (env (MA (site x))) w)) (xs @ [x]) w'"
proof -
  let ?pid = "env (MA (site x))"
  let ?i = "item_id existing x ?pid w"
  let ?env = "env(addr_of x := ?i)"
  have iw: "distinct (map m_id (mw_rows w))" "\<And>r. r \<in> set (mw_rows w) \<Longrightarrow> 0 < m_id r \<and> m_id r < mw_next_id w"
    using inv by (auto simp: run_inv_def ids_ok_def)
  have env_y: "?env (addr_of y) = env (addr_of y)" if "y \<in> set xs" for y using x(2) that by (metis fun_upd_other image_eqI)
  have env_p: "?env (MA ps) = env (MA ps)" if "ps \<in> insert [] (set (addrs xs))" for ps
    using that x(2) addr_in(1) [of ps xs] addr_of_ne [of x] by (cases "addr_of x = MA ps") auto
  have eff: "\<exists>r. m_id r = ?i \<and> item_key x ?pid r \<and> item_in_sync x r \<and> item_free existing x (Some ?i)
      \<and> (case item_at existing x ?pid of Some r0 \<Rightarrow> m_id r0 = ?i | None \<Rightarrow> ?i \<notin> m_id ` set existing)
      \<and> ids_ok w' \<and> set (mw_rows w') = insert r {y \<in> set (mw_rows w). m_id y \<noteq> ?i} \<and> (\<forall>y \<in> set xs. env (addr_of y) \<noteq> ?i)"
  proof (cases "item_at existing x ?pid")
    case None
    have i: "?i = mw_next_id w" using None by (simp add: item_id_def)
    obtain r where r: "m_id r = mw_next_id w" "item_key x ?pid r" "item_in_sync x r" "mw_rows w' = mw_rows w @ [r]" "mw_next_id w' = mw_next_id w + 1"
      using do_item_new(2) [OF step None] by blast
    have fresh: "mw_next_id w \<notin> m_id ` set (mw_rows w)" using iw(2) by fastforce
    then have "mw_next_id w \<notin> m_id ` set existing" using inv by (auto simp: run_inv_def)
    moreover have "env (addr_of y) \<noteq> mw_next_id w" if "y \<in> set xs" for y
      using run_inv_item [OF inv that] settled_row fresh by metis
    moreover have "ids_ok w'"
      using r(1,4,5) iw fresh run_inv_ids [OF inv] by (auto simp: ids_ok_def less_Suc_eq dest!: iw(2))
    moreover have "set (mw_rows w') = insert r {y \<in> set (mw_rows w). m_id y \<noteq> mw_next_id w}" using r(4) fresh by force
    moreover have "item_free existing x (Some (mw_next_id w))" using do_item_new(1) [OF step None] by (simp add: item_free_def)
    ultimately show ?thesis using r None i by (intro exI [of _ r]) auto
  next
    case (Some r0)
    note u = untouched [OF inv ids x Some]
    have i: "?i = m_id r0" using Some by (simp add: item_id_def)
    obtain r where r: "m_id r = m_id r0" "item_key x ?pid r" "item_in_sync x r" "mw_rows w' = map (\<lambda>y. if m_id y = m_id r0 then r else y) (mw_rows w)"
      using do_item_old(3) [OF step Some iw(1) u(1)] by blast
    have m: "map m_id (mw_rows w') = map m_id (mw_rows w)" using r(1,4) by simp
    have "ids_ok w'"
      using run_inv_ids [OF inv] m do_item_old(2) [OF step Some iw(1) u(1)] by (rule ids_ok_map)
    moreover have "set (mw_rows w') = insert r {y \<in> set (mw_rows w). m_id y \<noteq> m_id r0}" using r(4) u(1) by auto
    ultimately show ?thesis using r Some i u(2) do_item_old(1) [OF step Some iw(1) u(1)] by (intro exI [of _ r]) auto
  qed
  then obtain r where r: "m_id r = ?i" "item_key x ?pid r" "item_in_sync x r" "item_free existing x (Some ?i)"
      "case item_at existing x ?pid of Some r0 \<Rightarrow> m_id r0 = ?i | None \<Rightarrow> ?i \<notin> m_id ` set existing"
      and w': "ids_ok w'" "set (mw_rows w') = insert r {y \<in> set (mw_rows w). m_id y \<noteq> ?i}" and other: "\<And>y. y \<in> set xs \<Longrightarrow> env (addr_of y) \<noteq> ?i"
    by blast
  have new: "settled existing ?env (mw_rows w') x"
    using r w'(2) unfolding settled_def env_p [OF x(1)] fun_upd_same by auto
  have old: "settled existing ?env (mw_rows w') y \<and> site y \<in> insert [] (set (addrs xs))" if y: "y \<in> set xs" for y
  proof -
    have s: "settled existing env (mw_rows w) y" "site y \<in> insert [] (set (addrs xs))" using inv y by (auto simp: run_inv_def)
    then show ?thesis using other [OF y] w'(2) by (auto simp only: settled_def env_y [OF y] env_p)
  qed
  have rows: "z \<in> set existing \<or> m_id z \<in> (\<lambda>y. ?env (addr_of y)) ` set (xs @ [x])" if z: "z \<in> set (mw_rows w')" for z
  proof (cases "z = r")
    case True
    then show ?thesis using r(1) by simp
  next
    case False
    then have "z \<in> set existing \<or> m_id z \<in> (\<lambda>y. env (addr_of y)) ` set xs" using z w'(2) inv by (auto simp: run_inv_def)
    then show ?thesis using env_y by fastforce
  qed
  have "m_id ` set (mw_rows w) \<subseteq> m_id ` set (mw_rows w')" using w'(2) r(1) by auto
  moreover have "m_id ` set existing \<subseteq> m_id ` set (mw_rows w)" using inv unfolding run_inv_def by blast
  ultimately have "m_id ` set existing \<subseteq> m_id ` set (mw_rows w')" by (rule order.trans [rotated])
  moreover have "?env (MA []) = 0" using env_p [of "[]"] inv by (simp add: run_inv_def)
  ultimately show ?thesis
    unfolding run_inv_def using w'(1) new old rows x(1) by auto
qed

lemma grounded_Cons: "grounded A (x # xs) \<longleftrightarrow> site x \<in> A \<and> grounded (A \<union> set (addrs [x])) xs"
  by (cases x) auto

lemma run_items_inv:
  assumes "run_items db existing env xs nb w = Some (env', q, w')" "run_inv existing env ds w" "distinct (map m_id existing)"
    "grounded (insert [] (set (addrs ds))) xs" "distinct (map addr_of (ds @ xs))"
  shows "run_inv existing env' (ds @ xs) w'"
  using assms
proof (induction xs arbitrary: env nb w ds q)
  case (Cons x xs)
  let ?pid = "env (MA (site x))"
  obtain c1 nb1 w1 q1 where step: "do_item db existing x ?pid nb w = Some ((c1, nb1), w1)"
    and rest: "run_items db existing (env(addr_of x := item_id existing x ?pid w)) xs nb1 w1 = Some (env', q1, w')"
    using Cons(2) by (auto simp: Let_def then_run_Some split: option.splits prod.splits)
  have g: "site x \<in> insert [] (set (addrs ds))" "grounded (insert [] (set (addrs (ds @ [x])))) xs"
    using Cons(5) by (simp_all add: grounded_Cons)
  have "addr_of x \<notin> addr_of ` set ds" using Cons(6) by auto
  from Cons(1) [OF rest run_inv_step [OF Cons(3,4) g(1) this step] Cons(4) g(2)] Cons(6)
  show ?case by simp
qed simp

section \<open>After the run\<close>

text \<open>No two menus share a parent and a route path.\<close>

definition siblings_ok :: "menu_row list \<Rightarrow> bool" where
  "siblings_ok rows \<longleftrightarrow> (\<forall>r \<in> set rows. \<forall>r' \<in> set rows. m_menu_type r = Menu \<and> m_menu_type r' = Menu
     \<and> m_parent_id r = m_parent_id r' \<and> m_path r = m_path r' \<and> trim (m_path r) \<noteq> [] \<longrightarrow> r = r')"

lemma name_in: "MItem ps a \<in> set xs \<Longrightarrow> ns_name a \<in> set (names xs)"
proof (induction xs)
  case (Cons x xs)
  then show ?case by (cases x) auto
qed simp

lemma name_unique:
  "distinct (names xs) \<Longrightarrow> MItem ps a \<in> set xs \<Longrightarrow> MItem qs b \<in> set xs \<Longrightarrow> ns_name a = ns_name b \<Longrightarrow> ps = qs \<and> a = b"
proof (induction xs)
  case (Cons x xs)
  then show ?case by (cases x) (auto dest: name_in)
qed simp

definition item_done :: "menu_row list \<Rightarrow> (addr \<Rightarrow> int) \<Rightarrow> item \<Rightarrow> bool" where
  "item_done E env x \<longleftrightarrow> (\<exists>r. item_at E x (env (MA (site x))) = Some r \<and> m_id r = env (addr_of x) \<and> item_in_sync x r
     \<and> item_free E x (Some (m_id r)))"

lemma key_addr: "item_key x p r \<Longrightarrow> item_key y q r \<Longrightarrow> (p = q \<Longrightarrow> site x = site y) \<Longrightarrow> addr_of x = addr_of y"
  by (cases x; cases y) auto

lemma touched_row:
  assumes "run_inv existing env xs w" "z \<in> set (mw_rows w)" "y \<in> set xs" "m_id z = env (addr_of y)"
  shows "item_key y (env (MA (site y))) z" "item_in_sync y z"
proof -
  obtain r where r: "r \<in> set (mw_rows w)" "m_id r = env (addr_of y)" "item_key y (env (MA (site y))) r" "item_in_sync y r"
    using run_inv_item [OF assms(1,3)] unfolding settled_def by blast
  have "z = r" using same_id [OF _ assms(2) r(1)] run_inv_ids [OF assms(1)] assms(4) r(2) by (simp add: ids_ok_def)
  then show "item_key y (env (MA (site y))) z" "item_in_sync y z" using r by simp_all
qed

lemma clash_in_sync: "item_clash x z \<Longrightarrow> item_key y p z \<Longrightarrow> item_in_sync y z \<Longrightarrow> distinct (names xs) \<Longrightarrow> x \<in> set xs \<Longrightarrow> y \<in> set xs
    \<Longrightarrow> addr_of y = addr_of x"
proof (cases x; cases y)
  fix ps a qs b
  assume z: "item_clash x z" "item_in_sync y z" and d: "distinct (names xs)" "x \<in> set xs" "y \<in> set xs" and e: "x = MItem ps a" "y = MItem qs b"
  have "m_name z = ns_name b" using z(2) e by (simp add: in_sync_name)
  then have "ns_name a = ns_name b" using z(1) e by simp
  then show ?thesis using name_unique [OF d(1)] d(2,3) e by blast
qed auto

lemma all_done:
  assumes inv: "run_inv existing env xs w" and ids: "distinct (map m_id existing)" and sib: "siblings_ok existing"
    and da: "distinct (map addr_of xs)" and dn: "distinct (names xs)" and fill: "\<forall>x \<in> set xs. item_filled x"
    and E: "set E = set (mw_rows w)" and x: "x \<in> set xs"
  shows "item_done E env x"
proof -
  let ?pid = "env (MA (site x))" and ?i = "env (addr_of x)"
  have iw: "distinct (map m_id (mw_rows w))" using run_inv_ids [OF inv] by (simp add: ids_ok_def)
  have st: "settled existing env (mw_rows w) x" "site x \<in> insert [] (set (addrs xs))" using run_inv_item [OF inv x] by auto
  obtain r where r: "r \<in> set (mw_rows w)" "m_id r = ?i" "item_key x ?pid r" "item_in_sync x r"
    using st(1) by (auto simp: settled_def)
  have free: "item_free existing x (Some ?i)" using st(1) by (simp add: settled_def)
  have same: "y = x" if "y \<in> set xs" "addr_of y = addr_of x" for y
    using da that x by (metis distinct_map inj_onD)
  have own: "m_id z = ?i" if z: "z \<in> set (mw_rows w)" "item_key x ?pid z" for z
  proof (cases "z \<in> set existing")
    case True
    then obtain r0 where r0: "item_at existing x ?pid = Some r0" "m_id r0 = ?i" using st(1) z(2)
      by (auto simp: settled_def item_at_def find_None_iff split: option.splits)
    have k: "r0 \<in> set existing" "item_key x ?pid r0" using find_hit [OF r0(1) [unfolded item_at_def]] by auto
    show ?thesis
    proof (cases x)
      case (MItem ps a)
      then have "z = r0" using sib k z(2) True bspec [OF fill x] by (auto simp: siblings_ok_def)
      then show ?thesis using r0(2) by simp
    next
      case (BItem ps b)
      then show ?thesis using free True z(2) by (auto simp: item_free_def)
    qed
  next
    case False
    then obtain y where y: "y \<in> set xs" "m_id z = env (addr_of y)" using run_inv_row [OF inv z(1)] by blast
    then have sy: "site y \<in> insert [] (set (addrs xs))" using run_inv_item [OF inv] by auto
    have "item_key y (env (MA (site y))) z" by (rule touched_row [OF inv z(1) y])
    then have "addr_of y = addr_of x" using z(2) run_inv_inj [OF inv sy st(2)] by (rule key_addr)
    then show ?thesis using same y by simp
  qed
  have "item_at E x ?pid = Some r"
    unfolding item_at_def using E r own same_id [OF iw] by (intro find_only) auto
  moreover have "item_free E x (Some ?i)"
    unfolding item_free_def
  proof (intro ballI impI)
    fix z assume z: "z \<in> set E" "item_clash x z"
    show "Some (m_id z) = Some ?i"
    proof (cases "z \<in> set existing")
      case True
      then show ?thesis using free z(2) by (simp add: item_free_def)
    next
      case False
      have zw: "z \<in> set (mw_rows w)" using z(1) E by simp
      then obtain y where y: "y \<in> set xs" "m_id z = env (addr_of y)" using run_inv_row [OF inv zw] False by blast
      then have "addr_of y = addr_of x" using clash_in_sync [OF z(2) touched_row [OF inv zw y] dn x y(1)] by simp
      then show ?thesis using same y by simp
    qed
  qed
  ultimately show ?thesis using r unfolding item_done_def by auto
qed

end
