(* ===== verification/Menu_Calls.thy ===== *)
theory Menu_Calls
  imports Menu_Apply
begin

text \<open>
  The menu service as a sequence of calls on its tables, and what every call keeps: row ids, the uniqueness
  of menu names and of bit positions, and the agreement of the permission map with the table.
\<close>

section \<open>Applying a configuration as a whole\<close>

lemma by_sort_set [simp]: "set (by_sort w) = set (mw_rows w)"
  by (simp add: by_sort_def)

lemma by_sort_ids: "ids_ok w \<Longrightarrow> distinct (map m_id (by_sort w))"
  by (simp add: ids_ok_def distinct_map by_sort_def)

lemma reload_eq: "reload_permission_map w = (Inr (), w\<lparr>mw_permission_map := load_permission_mappings w\<rparr>)"
  by (simp add: reload_permission_map_def)

lemma reload_if: "(if c then reload_permission_map else ok_s ()) w
    = (Inr (), if c then w\<lparr>mw_permission_map := load_permission_mappings w\<rparr> else w)"
  by (simp add: reload_eq result_simps)

lemma apply_config_nodes:
  assumes "apply_menu_config db menus w = (Inr p, w')"
  shows "\<exists>q w1. validate_menu_config_spec menus = Inr () \<and> build_menu_config_plan (by_sort w) menus = Inr p
    \<and> apply_menu_nodes db (by_sort w) 0 menus (next_button_bit_position (by_sort w)) w = (Inr q, w1)
    \<and> w' = (if fst q then w1\<lparr>mw_permission_map := load_permission_mappings w1\<rparr> else w1)"
  using assms unfolding apply_menu_config_def bind_s_iff transaction_Inr Let_def case_prod_beta
  by (auto simp: result_simps reload_if case_prod_beta bind_s_iff simp del: if_split)

lemma apply_config_run:
  assumes "apply_menu_config db menus w = (Inr p, w')"
  obtains env q w1 where "spec_ok menus" "build_menu_config_plan (by_sort w) menus = Inr p"
    "run_items db (by_sort w) (\<lambda>_. 0) (flat [] menus) (next_button_bit_position (by_sort w)) w = Some (env, q, w1)"
    "w' = (if fst q then w1\<lparr>mw_permission_map := load_permission_mappings w1\<rparr> else w1)"
proof -
  obtain q w1 where a: "validate_menu_config_spec menus = Inr ()" "build_menu_config_plan (by_sort w) menus = Inr p"
    "apply_menu_nodes db (by_sort w) 0 menus (next_button_bit_position (by_sort w)) w = (Inr q, w1)"
    and w': "w' = (if fst q then w1\<lparr>mw_permission_map := load_permission_mappings w1\<rparr> else w1)"
    using apply_config_nodes [OF assms] by blast
  obtain env where "run_items db (by_sort w) (\<lambda>_. 0) (flat [] menus) (next_button_bit_position (by_sort w)) w = Some (env, q, w1)"
    using apply_nodes_run [OF a(3), of "\<lambda>_. 0" "[]"] by auto
  then show thesis using that a w' validate_spec_Inr by blast
qed

lemma apply_config_error: "apply_menu_config db menus w = (Inl e, w') \<Longrightarrow> w' = w"
  unfolding apply_menu_config_def bind_s_def [of "lift_r _"] bind_s_def [of "transaction _"]
  by (auto simp: result_simps reload_eq bind_s_def [of reload_permission_map] bind_s_def [of "ok_s ()"] dest: transaction_Inl
      split: prod.splits sum.splits if_splits)

lemma run_inv_start: "ids_ok w \<Longrightarrow> run_inv (by_sort w) (\<lambda>_. 0) [] w"
  by (simp add: run_inv_def)

lemma run_items_keeps:
  assumes "run_items db existing env xs nb w = Some (env', q, w')" "run_inv existing env ds w" "distinct (map m_id existing)"
    "grounded (insert [] (set (addrs ds))) xs" "distinct (map addr_of (ds @ xs))" "P xs c nb w"
    and step: "\<And>x xs pid nb w c c1 nb1 w1. do_item db existing x pid nb w = Some ((c1, nb1), w1) \<Longrightarrow> ids_ok w \<Longrightarrow>
        (\<And>r0. item_at existing x pid = Some r0 \<Longrightarrow> r0 \<in> set (mw_rows w)) \<Longrightarrow> P (x # xs) c nb w \<Longrightarrow> P xs (c \<or> c1) nb1 w1"
  shows "P [] (c \<or> fst q) (snd q) w'"
  using assms(1-6)
proof (induction xs arbitrary: env nb w ds q c)
  case (Cons x xs)
  let ?pid = "env (MA (site x))"
  obtain c1 nb1 w1 q1 where do_x: "do_item db existing x ?pid nb w = Some ((c1, nb1), w1)"
    and rest: "run_items db existing (env(addr_of x := item_id existing x ?pid w)) xs nb1 w1 = Some (env', q1, w')"
    and q: "q = (c1 \<or> fst q1, snd q1)"
    using Cons(2) by (cases q) (auto simp: Let_def then_run_Some split: option.splits prod.splits)
  have g: "site x \<in> insert [] (set (addrs ds))" "grounded (insert [] (set (addrs (ds @ [x])))) xs"
    using Cons(5) by (simp_all add: grounded_Cons)
  have n: "addr_of x \<notin> addr_of ` set ds" using Cons(6) by auto
  have "P xs (c \<or> c1) nb1 w1"
    using step [OF do_x run_inv_ids [OF Cons(3)] untouched(1) [OF Cons(3,4) g(1) n] Cons(7)] .
  from Cons(1) [OF rest run_inv_step [OF Cons(3,4) g(1) n do_x] Cons(4) g(2) _ this] Cons(6) q
  show ?case by (simp add: disj_assoc)
qed simp

lemma apply_config_keeps:
  assumes "apply_menu_config db menus w = (Inr p, w')" "ids_ok w" "P (flat [] menus) False (next_button_bit_position (by_sort w)) w"
    and step: "\<And>x xs pid nb w0 c c1 nb1 w1. do_item db (by_sort w) x pid nb w0 = Some ((c1, nb1), w1) \<Longrightarrow> ids_ok w0 \<Longrightarrow>
        (\<And>r0. item_at (by_sort w) x pid = Some r0 \<Longrightarrow> r0 \<in> set (mw_rows w0)) \<Longrightarrow> P (x # xs) c nb w0 \<Longrightarrow> P xs (c \<or> c1) nb1 w1"
  obtains c nb w1 where "P [] c nb w1" "w' = (if c then w1\<lparr>mw_permission_map := load_permission_mappings w1\<rparr> else w1)"
proof -
  obtain env q w1 where r: "spec_ok menus" "run_items db (by_sort w) (\<lambda>_. 0) (flat [] menus) (next_button_bit_position (by_sort w)) w = Some (env, q, w1)"
    "w' = (if fst q then w1\<lparr>mw_permission_map := load_permission_mappings w1\<rparr> else w1)"
    using apply_config_run [OF assms(1)] by metis
  have "P [] (False \<or> fst q) (snd q) w1"
    using spec_ok_order [OF r(1)]
    by (intro run_items_keeps [where P = P, OF r(2) run_inv_start [OF assms(2)] by_sort_ids [OF assms(2)] _ _ assms(3) step]) auto
  then show thesis using that r(3) by simp
qed

lemma apply_config_inv:
  assumes "apply_menu_config db menus w = (Inr p, w')" "ids_ok w"
  obtains env where "run_inv (by_sort w) env (flat [] menus) w'" "spec_ok menus"
proof -
  obtain env q w1 where r: "spec_ok menus" "run_items db (by_sort w) (\<lambda>_. 0) (flat [] menus) (next_button_bit_position (by_sort w)) w = Some (env, q, w1)"
    "w' = (if fst q then w1\<lparr>mw_permission_map := load_permission_mappings w1\<rparr> else w1)"
    using apply_config_run [OF assms(1)] by metis
  have "run_inv (by_sort w) env ([] @ flat [] menus) w1"
    using spec_ok_order [OF r(1)] by (intro run_items_inv [OF r(2) run_inv_start [OF assms(2)] by_sort_ids [OF assms(2)]]) auto
  moreover have "run_inv (by_sort w) env xs w' = run_inv (by_sort w) env xs w1" for xs
    using r(3) by (simp add: run_inv_def ids_ok_def)
  ultimately have "run_inv (by_sort w) env (flat [] menus) w'" by simp
  then show thesis using r(1) by (rule that)
qed

section \<open>Calls\<close>

datatype menu_call =
    CApply "menu_node list" | CCreateMenu create_menu_dto | CCreateButton create_button_dto | CUpdateMenu int update_menu_dto
  | CUpdateButton int update_button_dto | CDelete int | CReload

fun menu_step :: "menu_db \<Rightarrow> menu_call \<Rightarrow> menu_world \<Rightarrow> menu_world" where
  "menu_step db (CApply menus) w = snd (apply_menu_config db menus w)"
| "menu_step db (CCreateMenu d) w = snd (create_menu db d w)"
| "menu_step db (CCreateButton d) w = snd (create_button db d w)"
| "menu_step db (CUpdateMenu i d) w = snd (update_menu db i d w)"
| "menu_step db (CUpdateButton i d) w = snd (update_button db i d w)"
| "menu_step db (CDelete i) w = snd (delete_menu i w)"
| "menu_step db CReload w = snd (reload_permission_map w)"

text \<open>The clock and the mood of the data base may differ from call to call.\<close>

definition menu_run :: "(menu_db \<times> menu_call) list \<Rightarrow> menu_world \<Rightarrow> menu_world" where
  "menu_run cs w = fold (\<lambda>(db, c). menu_step db c) cs w"

lemma menu_run_simps [simp]: "menu_run [] w = w" "menu_run ((db, c) # cs) w = menu_run cs (menu_step db c w)"
  by (simp_all add: menu_run_def)

text \<open>What a write does to the rows.\<close>

definition stamped :: "menu_db \<Rightarrow> (menu_row \<Rightarrow> menu_row) \<Rightarrow> int \<Rightarrow> menu_row \<Rightarrow> menu_row" where
  "stamped db f i x = (if m_id x = i then (f x)\<lparr>m_update_time := db_now db\<rparr> else x)"

lemma db_insert_world:
  "snd (db_insert db what row w) = w \<or>
   snd (db_insert db what row w) = w\<lparr>mw_rows := mw_rows w @ [row\<lparr>m_id := mw_next_id w, m_create_time := db_now db, m_update_time := db_now db\<rparr>],
      mw_next_id := mw_next_id w + 1\<rparr>"
  by (simp add: db_insert_def Let_def)

lemma db_update_world:
  "snd (db_update db what i f w) = w \<or> snd (db_update db what i f w) = w\<lparr>mw_rows := map (stamped db f i) (mw_rows w)\<rparr>"
  by (auto simp: db_update_def Let_def stamped_def [abs_def] split: option.splits)

lemma to_vo_world [simp]: "snd (to_vo m w) = snd (m w)"
  by (auto simp: to_vo_def bind_s_def result_simps split: prod.splits sum.splits)

definition reloaded :: "menu_world \<Rightarrow> menu_world" where
  "reloaded w = w\<lparr>mw_permission_map := load_permission_mappings w\<rparr>"

text \<open>The world after a call: refused, or one write, with a reload of the permission map where it matters.\<close>

lemma create_menu_world:
  "snd (create_menu db d w) = w \<or> \<not> menu_name_taken (cm_name d) None w \<and>
     snd (create_menu db d w) = snd (db_insert db ''insert menu'' (row_of_create_menu d) w)"
  by (auto simp: create_menu_def bind_s_def result_simps split: sum.splits prod.splits)

lemma create_button_world:
  "snd (create_button db d w) = w \<or>
     snd (create_button db d w) = reloaded (snd (db_insert db ''insert button'' ((row_of_create_button d)\<lparr>m_bit_position := Some (next_button_bit_position (mw_rows w))\<rparr>) w))"
  by (auto simp: create_button_def bind_s_def result_simps reload_eq reloaded_def Let_def db_insert_def split: sum.splits prod.splits)

lemma update_menu_world:
  "snd (update_menu db i d w) = w \<or> (\<exists>r. find_by_id i w = Some r \<and> m_menu_type r = Menu)
     \<and> (\<forall>nm. um_name d = Some nm \<longrightarrow> \<not> menu_name_taken nm (Some i) w)
     \<and> snd (update_menu db i d w) = snd (db_update db ''update menu'' i (update_menu_apply d) w)"
  by (auto simp: update_menu_def bind_s_def result_simps split: sum.splits prod.splits option.splits)

lemma update_button_world:
  "snd (update_button db i d w) = w \<or> (\<exists>r. find_by_id i w = Some r \<and> m_menu_type r = Button)
     \<and> (let w1 = snd (db_update db ''update button'' i (update_button_apply d) w)
        in snd (update_button db i d w) = (if ub_auth_mark d \<noteq> None \<or> ub_enabled d \<noteq> None then reloaded w1 else w1))"
  by (auto simp: update_button_def bind_s_def result_simps reload_eq reloaded_def Let_def db_update_def split: sum.splits prod.splits option.splits)

lemma delete_menu_world:
  "snd (delete_menu i w) = w \<or> (\<exists>r. find_by_id i w = Some r
     \<and> (let w1 = w\<lparr>mw_rows := filter (\<lambda>x. m_id x \<noteq> i) (mw_rows w)\<rparr>
        in snd (delete_menu i w) = (if m_menu_type r = Button then reloaded w1 else w1)))"
  by (auto simp: delete_menu_def bind_s_def result_simps reload_eq reloaded_def Let_def split: sum.splits prod.splits option.splits)

lemma apply_menu_world: "snd (apply_menu_config db menus w) = w \<or> (\<exists>p w'. apply_menu_config db menus w = (Inr p, w'))"
proof (cases "apply_menu_config db menus w")
  case (Pair r w')
  then show ?thesis using apply_config_error [of db menus w _ w'] by (cases r) auto
qed

lemma reloaded_rows [simp]: "mw_rows (reloaded w) = mw_rows w" "mw_next_id (reloaded w) = mw_next_id w"
  by (simp_all add: reloaded_def)

definition keeps :: "(menu_row \<Rightarrow> 'v) \<Rightarrow> (menu_row \<Rightarrow> menu_row) \<Rightarrow> bool" where
  "keeps g f \<longleftrightarrow> (\<forall>r. g (f r) = g r)"

lemma keepsD: "keeps g f \<Longrightarrow> g (f r) = g r"
  by (simp add: keeps_def)

lemma keeps_intros: "keeps g f \<Longrightarrow> keeps g f' \<Longrightarrow> keeps g (f \<circ> f')" "(\<And>v r. g (h v r) = g r) \<Longrightarrow> keeps g (set_opt x h)"
  by (auto simp: keeps_def set_opt_def split: option.split)

lemma update_menu_apply_keeps [simp]:
  "m_id (update_menu_apply d r) = m_id r" "m_menu_type (update_menu_apply d r) = m_menu_type r"
  "m_bit_position (update_menu_apply d r) = m_bit_position r" "m_auth_mark (update_menu_apply d r) = m_auth_mark r"
  by (rule keepsD, unfold update_menu_apply_def, intro keeps_intros; simp)+

lemma update_menu_apply_name [simp]: "m_name (update_menu_apply d r) = unwrap_or (m_name r) (um_name d)"
proof -
  have "m_name ((f \<circ> set_opt x (\<lambda>v r. r\<lparr>m_name := v\<rparr>) \<circ> set_opt y (\<lambda>v r. r\<lparr>m_parent_id := v\<rparr>)) r) = unwrap_or (m_name r) x" if "keeps m_name f" for f x y
    using keepsD [OF that] by (simp add: set_opt_def unwrap_or_def split: option.split)
  note name = this
  show ?thesis unfolding update_menu_apply_def by (rule name) (intro keeps_intros; simp)
qed

lemma update_button_apply_keeps [simp]:
  "m_id (update_button_apply d r) = m_id r" "m_menu_type (update_button_apply d r) = m_menu_type r"
  "m_bit_position (update_button_apply d r) = m_bit_position r" "m_name (update_button_apply d r) = m_name r"
  by (rule keepsD, unfold update_button_apply_def, intro keeps_intros; simp)+

lemma update_button_apply_unset [simp]:
  "ub_auth_mark d = None \<Longrightarrow> m_auth_mark (update_button_apply d r) = m_auth_mark r"
  "ub_enabled d = None \<Longrightarrow> m_enabled (update_button_apply d r) = m_enabled r"
  by (simp_all add: update_button_apply_def set_opt_def split: option.split)

end
