(* ===== verification/Menu_Invariants.thy ===== *)
theory Menu_Invariants
  imports Menu_Calls
begin

text \<open>
  Invariants of the menu tables under every sequence of calls: ids, unique menu names, the permission map
  of the table, and distinct bit positions within the range of \<open>i32\<close>.
\<close>

section \<open>Ids\<close>

lemma ids_ok_reloaded [simp]: "ids_ok (reloaded w) = ids_ok w"
  by (simp add: ids_ok_def)

lemma ids_ok_insert: "ids_ok w \<Longrightarrow> ids_ok (snd (db_insert db what row w))"
  using db_insert_world [of db what row w] unfolding ids_ok_def by (elim disjE) (fastforce intro: less_imp_le)+

lemma stamped_id: "(\<And>r. m_id (f r) = m_id r) \<Longrightarrow> m_id (stamped db f i x) = m_id x"
  by (simp add: stamped_def)

lemma ids_ok_update: "ids_ok w \<Longrightarrow> (\<And>r. m_id (f r) = m_id r) \<Longrightarrow> ids_ok (snd (db_update db what i f w))"
  using db_update_world [of db what i f w]
  by (auto intro!: ids_ok_map [of w] simp: stamped_id simp del: map_map simp: comp_def stamped_id map_map)

lemma ids_ok_step: "ids_ok w \<Longrightarrow> ids_ok (menu_step db c w)"
proof (cases c)
  case (CApply menus)
  assume ids: "ids_ok w"
  show ?thesis
  proof (cases "apply_menu_config db menus w")
    case (Pair r w')
    show ?thesis
    proof (cases r)
      case (Inl e)
      then show ?thesis using apply_config_error [of db menus w e w'] Pair ids CApply by simp
    next
      case (Inr p)
      then show ?thesis using apply_config_inv [of db menus w p w'] run_inv_ids Pair ids CApply by (metis menu_step.simps(1) snd_conv)
    qed
  qed
next
  case (CDelete i)
  assume "ids_ok w"
  then show ?thesis using delete_menu_world [of i w] CDelete
    by (auto simp: ids_ok_def Let_def distinct_map_filter split: if_splits)
next
  case (CCreateMenu d)
  assume ids: "ids_ok w"
  then show ?thesis using create_menu_world [of db d w] ids_ok_insert [OF ids] CCreateMenu by auto
next
  case (CCreateButton d)
  assume ids: "ids_ok w"
  then show ?thesis using create_button_world [of db d w] ids_ok_insert [OF ids] CCreateButton by auto
next
  case (CUpdateMenu i d)
  assume ids: "ids_ok w"
  then show ?thesis using update_menu_world [of db i d w] ids_ok_update [OF ids, of "update_menu_apply d" db _ i] CUpdateMenu by auto
next
  case (CUpdateButton i d)
  assume ids: "ids_ok w"
  then show ?thesis using update_button_world [of db i d w] ids_ok_update [OF ids, of "update_button_apply d" db _ i] CUpdateButton
    by (auto simp: Let_def split: if_splits)
qed (simp add: reload_eq flip: reloaded_def)

section \<open>Menu names\<close>

definition names_ok :: "menu_row list \<Rightarrow> bool" where
  "names_ok rows \<longleftrightarrow> (\<forall>r \<in> set rows. \<forall>r' \<in> set rows. m_menu_type r = Menu \<and> m_menu_type r' = Menu \<and> m_name r = m_name r' \<longrightarrow> m_id r = m_id r')"

lemma names_okI:
  "(\<And>r r'. r \<in> set rows \<Longrightarrow> r' \<in> set rows \<Longrightarrow> m_menu_type r = Menu \<Longrightarrow> m_menu_type r' = Menu \<Longrightarrow> m_name r = m_name r' \<Longrightarrow> m_id r = m_id r')
    \<Longrightarrow> names_ok rows"
  unfolding names_ok_def by blast

lemma names_okD:
  "names_ok rows \<Longrightarrow> r \<in> set rows \<Longrightarrow> r' \<in> set rows \<Longrightarrow> m_menu_type r = Menu \<Longrightarrow> m_menu_type r' = Menu \<Longrightarrow> m_name r = m_name r' \<Longrightarrow> m_id r = m_id r'"
  unfolding names_ok_def by blast

lemma names_ok_subset: "names_ok rows \<Longrightarrow> set rows' \<subseteq> set rows \<Longrightarrow> names_ok rows'"
  unfolding names_ok_def by blast

lemma names_ok_add:
  assumes n: "names_ok rows" and new: "\<And>y. m_menu_type r = Menu \<Longrightarrow> y \<in> set rows \<Longrightarrow> m_menu_type y = Menu \<Longrightarrow> m_name y \<noteq> m_name r"
  shows "names_ok (rows @ [r])"
proof (rule names_okI)
  fix x y assume xy: "x \<in> set (rows @ [r])" "y \<in> set (rows @ [r])" "m_menu_type x = Menu" "m_menu_type y = Menu" "m_name x = m_name y"
  consider "x \<in> set rows" "y \<in> set rows" | "x = y" | "x \<in> set rows" "y = r" | "x = r" "y \<in> set rows" using xy(1,2) by auto
  then show "m_id x = m_id y"
  proof cases
    case 1
    then show ?thesis using names_okD [OF n _ _ xy(3-5)] by blast
  next
    case 3
    then show ?thesis using new [of x] xy by simp
  next
    case 4
    then show ?thesis using new [of y] xy by simp
  qed simp
qed

lemma names_ok_stamped:
  assumes "names_ok rows" "\<And>r. m_id (f r) = m_id r" "\<And>r. m_menu_type (f r) = m_menu_type r"
    and "\<And>x y. x \<in> set rows \<Longrightarrow> y \<in> set rows \<Longrightarrow> m_id x = i \<Longrightarrow> m_menu_type x = Menu \<Longrightarrow> m_menu_type y = Menu \<Longrightarrow> m_name (f x) = m_name y \<Longrightarrow> m_id y = i"
  shows "names_ok (map (stamped db f i) rows)"
proof -
  have t: "m_menu_type (stamped db f i x) = m_menu_type x" for x using assms(3) by (simp add: stamped_def)
  have "m_id x = m_id y" if "x \<in> set rows" "y \<in> set rows" "m_menu_type x = Menu" "m_menu_type y = Menu"
    and e: "m_name (stamped db f i x) = m_name (stamped db f i y)" for x y
  proof (cases "m_id x = i"; cases "m_id y = i")
    assume "m_id x = i" "m_id y \<noteq> i"
    then show ?thesis using assms(4) [of x y] that e by (simp add: stamped_def)
  next
    assume "m_id x \<noteq> i" "m_id y = i"
    then show ?thesis using assms(4) [of y x] that e by (simp add: stamped_def)
  next
    assume "m_id x \<noteq> i" "m_id y \<noteq> i"
    then show ?thesis using that e bspec [OF bspec [OF assms(1) [unfolded names_ok_def] that(1)] that(2)] by (simp add: stamped_def)
  qed simp
  note claim = this
  show ?thesis
  proof (rule names_okI)
    fix r r' assume r: "r \<in> set (map (stamped db f i) rows)" "r' \<in> set (map (stamped db f i) rows)"
      "m_menu_type r = Menu" "m_menu_type r' = Menu" "m_name r = m_name r'"
    obtain x where x: "x \<in> set rows" "r = stamped db f i x" using r(1) by auto
    obtain y where y: "y \<in> set rows" "r' = stamped db f i y" using r(2) by auto
    have "m_id x = m_id y"
      using claim [OF x(1) y(1)] r(3-5) unfolding x(2) y(2) t by blast
    then show "m_id r = m_id r'" unfolding x(2) y(2) stamped_id [OF assms(2)] .
  qed
qed

lemma names_ok_apply:
  assumes "apply_menu_config db menus w = (Inr p, w')" "ids_ok w" "names_ok (mw_rows w)"
  shows "names_ok (mw_rows w')"
  unfolding names_ok_def
proof (intro ballI impI, elim conjE)
  obtain env where inv: "run_inv (by_sort w) env (flat [] menus) w'" and ok: "spec_ok menus"
    using apply_config_inv [OF assms(1,2)] by blast
  have dn: "distinct (names (flat [] menus))" using ok by (simp add: spec_ok_def)
  have touched: "m_id z = m_id r"
    if z: "z \<in> set (mw_rows w')" "m_menu_type z = Menu" and r: "r \<in> set (mw_rows w')" "m_menu_type r = Menu" "m_name r = m_name z"
      and y: "y \<in> set (flat [] menus)" "m_id r = env (addr_of y)" for z r y
  proof -
    note ty = touched_row [OF inv r(1) y]
    then obtain qs b where yb: "y = MItem qs b" using r(2) by (cases y) auto
    have clash: "item_clash y z" using ty(2) yb r(3) z(2) by (simp add: in_sync_name)
    show ?thesis
    proof (cases "z \<in> set (by_sort w)")
      case True
      then show ?thesis using clash run_inv_item [OF inv y(1)] y(2) by (auto simp: settled_def item_free_def simp del: by_sort_set)
    next
      case False
      then obtain x where x: "x \<in> set (flat [] menus)" "m_id z = env (addr_of x)" using run_inv_row [OF inv z(1)] by blast
      then show ?thesis using clash_in_sync [OF clash touched_row [OF inv z(1) x] dn y(1) x(1)] y(2) by simp
    qed
  qed
  fix r z assume r: "r \<in> set (mw_rows w')" "z \<in> set (mw_rows w')" "m_menu_type r = Menu" "m_menu_type z = Menu" "m_name r = m_name z"
  show "m_id r = m_id z"
  proof (cases "r \<in> set (mw_rows w) \<and> z \<in> set (mw_rows w)")
    case True
    then show ?thesis using names_okD [OF assms(3)] r by blast
  next
    case False
    then show ?thesis using touched [of z r] touched [of r z] r run_inv_row [OF inv] by fastforce
  qed
qed

lemma not_taken: "\<not> menu_name_taken nm e w \<Longrightarrow> r \<in> set (mw_rows w) \<Longrightarrow> m_menu_type r = Menu \<Longrightarrow> m_name r = nm \<Longrightarrow> Some (m_id r) = e"
  by (auto simp: menu_name_taken_def list_ex_iff)

lemma row_of_create [simp]:
  "m_menu_type (row_of_create_menu d) = Menu" "m_name (row_of_create_menu d) = cm_name d" "m_bit_position (row_of_create_menu d) = None"
  "m_menu_type (row_of_create_button d') = Button"
  by (simp_all add: row_of_create_menu_def row_of_create_button_def blank_row_def)

lemma names_ok_step: "ids_ok w \<Longrightarrow> names_ok (mw_rows w) \<Longrightarrow> names_ok (mw_rows (menu_step db c w))"
proof (cases c)
  case (CApply menus)
  assume "ids_ok w" "names_ok (mw_rows w)"
  then show ?thesis using apply_menu_world [of db menus w] CApply names_ok_apply [of db menus w] by auto
next
  case (CDelete i)
  assume "names_ok (mw_rows w)"
  then have "names_ok (filter (\<lambda>x. m_id x \<noteq> i) (mw_rows w))" by (rule names_ok_subset) auto
  then show ?thesis using delete_menu_world [of i w] CDelete \<open>names_ok (mw_rows w)\<close> by (auto simp: Let_def split: if_splits)
next
  case (CCreateMenu d)
  assume n: "names_ok (mw_rows w)"
  have "names_ok (mw_rows (snd (db_insert db ''insert menu'' (row_of_create_menu d) w)))" if "\<not> menu_name_taken (cm_name d) None w"
    using db_insert_world [of db "''insert menu''" "row_of_create_menu d" w] n not_taken [OF that] by (auto intro!: names_ok_add)
  then show ?thesis using create_menu_world [of db d w] CCreateMenu n by auto
next
  case (CCreateButton d)
  assume n: "names_ok (mw_rows w)"
  have "names_ok (mw_rows (snd (db_insert db what ((row_of_create_button d)\<lparr>m_bit_position := b\<rparr>) w)))" for what b
    using db_insert_world [of db what "(row_of_create_button d)\<lparr>m_bit_position := b\<rparr>" w] n by (auto intro!: names_ok_add)
  then show ?thesis using create_button_world [of db d w] CCreateButton n by auto
next
  case (CUpdateMenu i d)
  assume ids: "ids_ok w" and n: "names_ok (mw_rows w)"
  have "names_ok (mw_rows (snd (db_update db ''update menu'' i (update_menu_apply d) w)))"
    if nt: "\<forall>nm. um_name d = Some nm \<longrightarrow> \<not> menu_name_taken nm (Some i) w"
  proof -
    have "names_ok (map (stamped db (update_menu_apply d) i) (mw_rows w))"
    proof (rule names_ok_stamped [OF n])
      fix x y assume xy: "x \<in> set (mw_rows w)" "y \<in> set (mw_rows w)" "m_id x = i" "m_menu_type x = Menu" "m_menu_type y = Menu"
        "m_name (update_menu_apply d x) = m_name y"
      show "m_id y = i"
      proof (cases "um_name d")
        case None
        then show ?thesis using names_okD [OF n xy(1,2,4,5)] xy(3,6) by (simp add: unwrap_or_def)
      next
        case (Some nm)
        then have "m_name y = nm" using xy(6) by (simp add: unwrap_or_def)
        then show ?thesis using not_taken [OF _ xy(2,5)] nt Some by blast
      qed
    qed simp_all
    then show ?thesis using db_update_world [of db "''update menu''" i "update_menu_apply d" w] n by auto
  qed
  then show ?thesis using update_menu_world [of db i d w] CUpdateMenu n by auto
next
  case (CUpdateButton i d)
  assume n: "names_ok (mw_rows w)"
  have "names_ok (map (stamped db (update_button_apply d) i) (mw_rows w))"
  proof (rule names_ok_stamped [OF n])
    fix x y assume xy: "x \<in> set (mw_rows w)" "y \<in> set (mw_rows w)" "m_id x = i" "m_menu_type x = Menu" "m_menu_type y = Menu"
      "m_name (update_button_apply d x) = m_name y"
    show "m_id y = i" using names_okD [OF n xy(1,2,4,5)] xy(3,6) by simp
  qed simp_all
  then have "names_ok (mw_rows (snd (db_update db ''update button'' i (update_button_apply d) w)))"
    using db_update_world [of db "''update button''" i "update_button_apply d" w] n by auto
  then show ?thesis using update_button_world [of db i d w] CUpdateButton n by (auto simp: Let_def split: if_splits)
qed (simp add: reload_eq)

section \<open>The permission map\<close>

definition row_mapping :: "menu_row \<Rightarrow> (string \<times> int) list" where
  "row_mapping r = (if m_menu_type r = Button \<and> m_enabled r \<and> m_auth_mark r \<noteq> []
     then (case m_bit_position r of Some pos \<Rightarrow> [(m_auth_mark r, pos mod 4294967296)] | None \<Rightarrow> []) else [])"

lemma load_eq: "load_permission_mappings w = concat (map row_mapping (mw_rows w))"
proof -
  have "List.map_filter (\<lambda>r. map_option (\<lambda>pos. (m_auth_mark r, pos mod 4294967296)) (m_bit_position r))
       (filter (\<lambda>r. m_auth_mark r \<noteq> []) (filter (\<lambda>r. m_menu_type r = Button \<and> m_enabled r \<and> m_bit_position r \<noteq> None) rows))
      = concat (map row_mapping rows)" for rows
    by (induction rows) (auto simp: row_mapping_def)
  then show ?thesis by (simp add: load_permission_mappings_def)
qed

definition map_current :: "menu_world \<Rightarrow> bool" where
  "map_current w \<longleftrightarrow> mw_permission_map w = load_permission_mappings w"

lemma map_current_reloaded [simp]: "map_current (reloaded w)"
  by (simp add: map_current_def reloaded_def load_eq)

lemma map_current_if: "(\<not> b \<Longrightarrow> map_current w) \<Longrightarrow> map_current (if b then reloaded w else w)"
  by simp

lemma map_current_rows:
  assumes "map_current w" "mw_permission_map w' = mw_permission_map w" "concat (map row_mapping (mw_rows w')) = concat (map row_mapping (mw_rows w))"
  shows "map_current w'"
  using assms by (simp add: map_current_def load_eq)

lemma row_mapping_stamp [simp]:
  "row_mapping (r\<lparr>m_update_time := t\<rparr>) = row_mapping r" "row_mapping (r\<lparr>m_create_time := t\<rparr>) = row_mapping r" "row_mapping (r\<lparr>m_id := i\<rparr>) = row_mapping r"
  by (simp_all add: row_mapping_def split: option.split)

lemma row_mapping_menu [simp]: "m_menu_type r = Menu \<Longrightarrow> row_mapping r = []"
  by (simp add: row_mapping_def)

lemma find_by_id_row: "ids_ok w \<Longrightarrow> find_by_id i w = Some r \<Longrightarrow> x \<in> set (mw_rows w) \<Longrightarrow> m_id x = i \<Longrightarrow> x = r"
  using find_hit [of "\<lambda>r. m_id r = i" "mw_rows w" r] same_id [of "mw_rows w" x r] by (simp add: find_by_id_def ids_ok_def)

lemma concat_map_same: "(\<And>x. x \<in> set xs \<Longrightarrow> f (g x) = f x) \<Longrightarrow> concat (map f (map g xs)) = concat (map f xs)"
  by (induction xs) auto

lemma concat_map_filter: "(\<And>x. x \<in> set xs \<Longrightarrow> \<not> P x \<Longrightarrow> f x = []) \<Longrightarrow> concat (map f (filter P xs)) = concat (map f xs)"
  by (induction xs) auto

lemma map_current_update:
  assumes "map_current w" "\<And>x. x \<in> set (mw_rows w) \<Longrightarrow> m_id x = i \<Longrightarrow> row_mapping (f x) = row_mapping x"
  shows "map_current (snd (db_update db what i f w))"
proof -
  have "concat (map row_mapping (map (stamped db f i) (mw_rows w))) = concat (map row_mapping (mw_rows w))"
    using assms(2) by (intro concat_map_same) (simp add: stamped_def)
  then have "map_current (w\<lparr>mw_rows := map (stamped db f i) (mw_rows w)\<rparr>)" by (intro map_current_rows [OF assms(1)]) simp_all
  then show ?thesis using db_update_world [of db what i f w] assms(1) by metis
qed

lemma do_item_map:
  assumes "do_item db existing x pid nb w = Some ((False, nb'), w')" "ids_ok w" "\<And>r0. item_at existing x pid = Some r0 \<Longrightarrow> r0 \<in> set (mw_rows w)"
  shows "concat (map row_mapping (mw_rows w')) = concat (map row_mapping (mw_rows w))"
proof (cases "item_at existing x pid")
  case None
  then obtain ps a where x: "x = MItem ps a" using assms(1) by (cases x) (auto simp: do_item_def Let_def split: if_splits prod.splits sum.splits)
  then show ?thesis using assms(1) None by (auto simp: do_item_def Let_def db_insert_def split: if_splits)
next
  case (Some r0)
  let ?s = "\<lambda>y. if m_id y = m_id r0 then (set_item x y)\<lparr>m_update_time := db_now db\<rparr> else y"
  have r0: "r0 \<in> set (mw_rows w)" using assms(3) Some .
  have "w' = w \<or> \<not> item_flag x (Some r0) \<and> mw_rows w' = map ?s (mw_rows w)"
    using assms(1) Some by (auto simp: do_item_def Let_def db_update_def split: if_splits option.splits)
  then consider "w' = w" | "\<not> item_flag x (Some r0)" "mw_rows w' = map ?s (mw_rows w)" by blast
  then show ?thesis
  proof cases
    case 2
    have "row_mapping (set_item x r0) = row_mapping r0"
      using 2(1) find_hit [OF Some [unfolded item_at_def]] by (cases x) (auto simp: row_mapping_def set_button_fields_def split: option.split)
    then have "row_mapping (?s y) = row_mapping y" if "y \<in> set (mw_rows w)" for y
      using same_id [OF _ that r0] assms(2) by (auto simp: ids_ok_def)
    then show ?thesis unfolding 2(2) by (rule concat_map_same)
  qed simp
qed

lemma do_item_permission_map: "do_item db existing x pid nb w = Some (q, w') \<Longrightarrow> mw_permission_map w' = mw_permission_map w"
  by (auto simp: do_item_def Let_def db_insert_def db_update_def split: if_splits option.splits)

lemma map_current_apply:
  assumes "apply_menu_config db menus w = (Inr p, w')" "ids_ok w" "map_current w"
  shows "map_current w'"
proof -
  let ?P = "\<lambda>(xs :: item list) c (nb :: int) w1. mw_permission_map w1 = mw_permission_map w \<and>
     (c \<or> concat (map row_mapping (mw_rows w1)) = concat (map row_mapping (mw_rows w)))"
  have step: "?P xs (c \<or> c1) nb1 w1" if d: "do_item db (by_sort w) x pid nb w0 = Some ((c1, nb1), w1)" and ids: "ids_ok w0"
     and at: "\<And>r0. item_at (by_sort w) x pid = Some r0 \<Longrightarrow> r0 \<in> set (mw_rows w0)" and P: "?P (x # xs) c nb w0" for x xs pid nb w0 c c1 nb1 w1
    using P do_item_permission_map [OF d] do_item_map [of db "by_sort w" x pid nb w0 nb1 w1] d ids at by (cases c1) auto
  obtain c nb w1 where "?P [] c nb w1" "w' = (if c then w1\<lparr>mw_permission_map := load_permission_mappings w1\<rparr> else w1)"
    by (rule apply_config_keeps [where P = ?P, OF assms(1,2) _ step]) auto
  then show ?thesis
    using map_current_rows [OF assms(3)] map_current_reloaded [of w1] by (cases c) (auto simp: reloaded_def)
qed

lemma map_current_step:
  assumes ids: "ids_ok w" and cur: "map_current w"
  shows "map_current (menu_step db c w)"
proof (cases c)
  case (CApply menus)
  then show ?thesis using apply_menu_world [of db menus w] map_current_apply [OF _ ids cur] cur by auto
next
  case (CCreateMenu d)
  have "map_current (snd (db_insert db ''insert menu'' (row_of_create_menu d) w))"
    using db_insert_world [of db "''insert menu''" "row_of_create_menu d" w] cur map_current_rows [OF cur] by fastforce
  then show ?thesis using create_menu_world [of db d w] CCreateMenu cur by auto
next
  case (CCreateButton d)
  then show ?thesis using create_button_world [of db d w] cur by auto
next
  case (CUpdateMenu i d)
  have "map_current (snd (db_update db ''update menu'' i (update_menu_apply d) w))"
    if "find_by_id i w = Some r" "m_menu_type r = Menu" for r
    using find_by_id_row [OF ids that(1)] that(2) by (intro map_current_update [OF cur]) auto
  then show ?thesis using update_menu_world [of db i d w] CUpdateMenu cur by auto
next
  case (CUpdateButton i d)
  have "map_current (snd (db_update db ''update button'' i (update_button_apply d) w))" if "ub_auth_mark d = None" "ub_enabled d = None"
    using that by (intro map_current_update [OF cur]) (simp add: row_mapping_def split: option.split)
  then show ?thesis using update_button_world [of db i d w] CUpdateButton cur by (auto simp: Let_def simp del: if_split intro!: map_current_if)
next
  case (CDelete i)
  have "map_current (w\<lparr>mw_rows := filter (\<lambda>x. m_id x \<noteq> i) (mw_rows w)\<rparr>)" if f: "find_by_id i w = Some r" "m_menu_type r \<noteq> Button" for r
  proof -
    have "m_menu_type r = Menu" using f(2) by (cases "m_menu_type r") auto
    then have "concat (map row_mapping (filter (\<lambda>x. m_id x \<noteq> i) (mw_rows w))) = concat (map row_mapping (mw_rows w))"
      using find_by_id_row [OF ids f(1)] by (intro concat_map_filter) auto
    then show ?thesis by (intro map_current_rows [OF cur]) simp_all
  qed
  then show ?thesis using delete_menu_world [of i w] CDelete cur by (auto simp: Let_def simp del: if_split intro!: map_current_if)
next
  case CReload
  then show ?thesis by (simp add: reload_eq flip: reloaded_def)
qed

section \<open>Bit positions\<close>

definition bits :: "menu_row list \<Rightarrow> int list" where
  "bits rows = List.map_filter m_bit_position rows"

lemma bits_simps [simp]:
  "bits [] = []" "bits (r # rows) = (case m_bit_position r of None \<Rightarrow> bits rows | Some b \<Rightarrow> b # bits rows)" "bits (xs @ ys) = bits xs @ bits ys"
  by (simp_all add: bits_def split: option.split)

lemma bits_map: "(\<And>r. m_bit_position (g r) = m_bit_position r) \<Longrightarrow> bits (map g rows) = bits rows"
  by (induction rows) (auto split: option.split)

lemma bits_filter: "set (bits (filter P rows)) \<subseteq> set (bits rows) \<and> (distinct (bits rows) \<longrightarrow> distinct (bits (filter P rows)))"
  by (induction rows) (auto split: option.split)

lemma set_bits: "set (bits rows) = {b. \<exists>r \<in> set rows. m_bit_position r = Some b}"
  by (induction rows) (auto split: option.splits)

lemma bits_by_sort: "set (bits (by_sort w)) = set (bits (mw_rows w))"
  by (simp add: set_bits)

text \<open>Distinct positions from 0 up to \<open>n\<close>, excluded.\<close>

definition bits_ok :: "int \<Rightarrow> menu_row list \<Rightarrow> bool" where
  "bits_ok n rows \<longleftrightarrow> 0 \<le> n \<and> distinct (bits rows) \<and> (\<forall>b \<in> set (bits rows). 0 \<le> b \<and> b < n)"

lemma bits_ok_mono: "bits_ok n rows \<Longrightarrow> n \<le> n' \<Longrightarrow> bits_ok n' rows"
  by (force simp: bits_ok_def)

lemma fold_max: "fold max ps (p :: int) = Max (set (p # ps))"
proof (induction ps arbitrary: p)
  case (Cons q ps)
  show ?case using Cons [of "max q p"] by (cases "ps = []") (auto simp: ac_simps)
qed simp

text \<open>The next position is one above the largest, and fits.\<close>

lemma next_bit:
  assumes "\<forall>b \<in> set (bits rows). 0 \<le> b \<and> b < n" "0 \<le> n" "n < 2147483648"
  shows "next_button_bit_position rows = (if bits rows = [] then 0 else Max (set (bits rows)) + 1)"
    "0 \<le> next_button_bit_position rows" "next_button_bit_position rows \<le> n" "\<forall>b \<in> set (bits rows). b < next_button_bit_position rows"
proof -
  have e: "next_button_bit_position rows = (if bits rows = [] then 0 else Max (set (bits rows)) + 1)"
  proof (cases "bits rows")
    case Nil
    then show ?thesis by (simp add: next_button_bit_position_def bits_def)
  next
    case (Cons p ps)
    have "Max (set (p # ps)) \<in> set (bits rows)" unfolding Cons by (rule Max_in) auto
    then have "0 \<le> Max (set (p # ps)) + 1" "Max (set (p # ps)) + 1 < 2147483648" using assms(1,3) by force+
    then have "wrap_i32 (fold max ps p + 1) = Max (set (p # ps)) + 1" unfolding fold_max by (rule wrap_i32_id)
    then show ?thesis using Cons by (simp add: next_button_bit_position_def bits_def)
  qed
  have m: "b \<le> Max (set (bits rows))" if "b \<in> set (bits rows)" for b using that by simp
  have mi: "bits rows \<noteq> [] \<Longrightarrow> Max (set (bits rows)) \<in> set (bits rows)" by (intro Max_in) auto
  show "next_button_bit_position rows = (if bits rows = [] then 0 else Max (set (bits rows)) + 1)" by (rule e)
  have "bits rows \<noteq> [] \<Longrightarrow> 0 \<le> Max (set (bits rows)) \<and> Max (set (bits rows)) < n" using mi assms(1) by blast
  then show "0 \<le> next_button_bit_position rows" "next_button_bit_position rows \<le> n" unfolding e using assms(2) by (auto simp del: Max_less_iff)
  show "\<forall>b \<in> set (bits rows). b < next_button_bit_position rows" using e m by (auto simp: zless_add1_eq le_less)
qed

text \<open>The positions a call may hand out.\<close>

fun call_bits :: "menu_call \<Rightarrow> nat" where
  "call_bits (CApply menus) = length (marks (flat [] menus))"
| "call_bits (CCreateButton d) = 1"
| "call_bits _ = 0"

lemma bits_ok_apply:
  assumes "apply_menu_config db menus w = (Inr p, w')" "ids_ok w" "bits_ok n (mw_rows w)" "n + int (call_bits (CApply menus)) < 2147483648"
  shows "bits_ok (n + int (call_bits (CApply menus))) (mw_rows w')"
proof -
  let ?K = "n + int (call_bits (CApply menus))"
  let ?P = "\<lambda>xs (c :: bool) nb w1. 0 \<le> nb \<and> nb + int (length (marks xs)) \<le> ?K \<and> distinct (bits (mw_rows w1)) \<and> (\<forall>b \<in> set (bits (mw_rows w1)). 0 \<le> b \<and> b < nb)"
  have step: "?P xs (c \<or> c1) nb1 w1" if d: "do_item db (by_sort w) x pid nb w0 = Some ((c1, nb1), w1)" and P: "?P (x # xs) c nb w0"
    for x xs pid nb w0 c c1 nb1 w1
  proof (cases "item_at (by_sort w) x pid")
    case None
    then have w1: "mw_rows w1 = mw_rows w0 @ [(item_row x pid nb)\<lparr>m_id := mw_next_id w0, m_create_time := db_now db, m_update_time := db_now db\<rparr>]"
      and nb1: "nb1 = bits_used x nb" using d by (auto simp: do_item_def Let_def db_insert_def split: if_splits)
    show ?thesis
    proof (cases x)
      case (MItem ps a)
      then show ?thesis using w1 nb1 P by simp
    next
      case (BItem ps b)
      have "nb + 1 < 2147483648" using P BItem assms(4) by simp
      then have "nb1 = nb + 1" using nb1 BItem P wrap_i32_id [of "nb + 1"] by simp
      then show ?thesis using w1 BItem P by auto
    qed
  next
    case (Some r0)
    have "nb1 = nb \<and> bits (mw_rows w1) = bits (mw_rows w0)"
      using d Some by (auto simp: do_item_def Let_def db_update_def bits_map split: if_splits option.splits)
    then show ?thesis using P by (cases x) auto
  qed
  have nx: "0 \<le> next_button_bit_position (by_sort w)" "next_button_bit_position (by_sort w) \<le> n"
    "\<forall>b \<in> set (bits (mw_rows w)). b < next_button_bit_position (by_sort w)"
    using next_bit [of "by_sort w" n] assms(3,4) by (auto simp: bits_ok_def bits_by_sort)
  obtain c nb w1 where "?P [] c nb w1" "w' = (if c then w1\<lparr>mw_permission_map := load_permission_mappings w1\<rparr> else w1)"
    by (rule apply_config_keeps [where P = ?P, OF assms(1,2) _ step]) (use nx assms(3) in \<open>auto simp: bits_ok_def\<close>)
  then show ?thesis by (force simp: bits_ok_def)
qed

lemma bits_ok_step:
  assumes ids: "ids_ok w" and b: "bits_ok n (mw_rows w)" and room: "n + int (call_bits c) < 2147483648"
  shows "bits_ok (n + int (call_bits c)) (mw_rows (menu_step db c w))"
proof (cases c)
  case (CApply menus)
  then show ?thesis using apply_menu_world [of db menus w] bits_ok_apply [OF _ ids b, of db menus] room bits_ok_mono [OF b] by auto
next
  case (CCreateMenu d)
  then show ?thesis using create_menu_world [of db d w] db_insert_world [of db "''insert menu''" "row_of_create_menu d" w] b
    by (auto simp: bits_ok_def)
next
  case (CCreateButton d)
  let ?nx = "next_button_bit_position (mw_rows w)"
  let ?r = "(row_of_create_button d)\<lparr>m_bit_position := Some ?nx\<rparr>"
  have nx: "0 \<le> ?nx" "?nx \<le> n" "\<forall>b \<in> set (bits (mw_rows w)). b < ?nx"
    using next_bit [of "mw_rows w" n] b room by (auto simp: bits_ok_def)
  have "bits_ok (n + 1) (mw_rows (snd (db_insert db what ?r w)))" for what
    using db_insert_world [of db what ?r w] b nx by (auto simp: bits_ok_def) force+
  then show ?thesis using create_button_world [of db d w] CCreateButton bits_ok_mono [OF b] by auto
next
  case (CUpdateMenu i d)
  have "bits (map (stamped db (update_menu_apply d) i) (mw_rows w)) = bits (mw_rows w)" by (rule bits_map) (simp add: stamped_def)
  then have "bits_ok n (mw_rows (snd (db_update db ''update menu'' i (update_menu_apply d) w)))"
    using db_update_world [of db "''update menu''" i "update_menu_apply d" w] b by (auto simp: bits_ok_def)
  then show ?thesis using update_menu_world [of db i d w] CUpdateMenu b by auto
next
  case (CUpdateButton i d)
  have "bits (map (stamped db (update_button_apply d) i) (mw_rows w)) = bits (mw_rows w)" by (rule bits_map) (simp add: stamped_def)
  then have "bits_ok n (mw_rows (snd (db_update db ''update button'' i (update_button_apply d) w)))"
    using db_update_world [of db "''update button''" i "update_button_apply d" w] b by (auto simp: bits_ok_def)
  then show ?thesis using update_button_world [of db i d w] CUpdateButton b by (auto simp: Let_def)
next
  case (CDelete i)
  have "bits_ok n (filter (\<lambda>x. m_id x \<noteq> i) (mw_rows w))" using b bits_filter [of "\<lambda>x. m_id x \<noteq> i" "mw_rows w"] by (auto simp: bits_ok_def)
  then show ?thesis using delete_menu_world [of i w] CDelete b by (auto simp: Let_def)
qed (use b in \<open>simp add: reload_eq\<close>)

end
