(* ===== verification/Menu_Tree.thy ===== *)
theory Menu_Tree
  imports Menu_Calls
begin

text \<open>
  The menu tree: the recursion of \<open>build_menu_tree\<close> ends from the root on every table, whatever cycles
  its rows contain, and shows the menus below the root once each.
\<close>

fun tree_ids :: "menu_tree \<Rightarrow> int list" where
  "tree_ids (MenuTree e ts) = te_id e # concat (map tree_ids ts)"

definition forest_ids :: "menu_tree list \<Rightarrow> int list" where
  "forest_ids ts = concat (map tree_ids ts)"

text \<open>From the id of a parent to the id of a menu below it.\<close>

definition menu_edges :: "menu_row list \<Rightarrow> (int \<times> int) set" where
  "menu_edges rows = {(m_parent_id r, m_id r) | r. r \<in> set rows \<and> m_menu_type r = Menu}"

lemma those_map_Some: "those (map f xs) = Some ys \<longleftrightarrow> (\<forall>x \<in> set xs. f x \<noteq> None) \<and> ys = map (the \<circ> f) xs"
  by (induction xs arbitrary: ys) (auto split: option.splits)

text \<open>One level of the tree, and the tree of one menu.\<close>

definition menus_below :: "menu_row list \<Rightarrow> int \<Rightarrow> menu_row list" where
  "menus_below rows pid = filter (\<lambda>menu. m_parent_id menu = pid \<and> m_menu_type menu = Menu) rows"

definition menu_entry :: "menu_row list \<Rightarrow> string list \<Rightarrow> menu_row \<Rightarrow> tree_entry" where
  "menu_entry rows codes menu =
     tree_entry_of menu (map auth_item_of (filter (\<lambda>item. m_parent_id item = m_id menu \<and> m_menu_type item = Button) rows)) codes"

lemma build_Suc: "build_menu_tree (Suc n) rows pid codes = Some ts \<longleftrightarrow>
   (\<forall>menu \<in> set (menus_below rows pid). build_menu_tree n rows (m_id menu) codes \<noteq> None)
   \<and> ts = map (\<lambda>menu. MenuTree (menu_entry rows codes menu) (the (build_menu_tree n rows (m_id menu) codes))) (menus_below rows pid)"
proof -
  let ?f = "\<lambda>menu. map_option (MenuTree (menu_entry rows codes menu)) (build_menu_tree n rows (m_id menu) codes)"
  have e1: "build_menu_tree (Suc n) rows pid codes = those (map ?f (menus_below rows pid))"
    by (simp add: menus_below_def menu_entry_def Let_def)
  have e2: "map (the \<circ> ?f) (menus_below rows pid) =
     map (\<lambda>menu. MenuTree (menu_entry rows codes menu) (the (build_menu_tree n rows (m_id menu) codes))) (menus_below rows pid)"
    if "\<forall>menu \<in> set (menus_below rows pid). build_menu_tree n rows (m_id menu) codes \<noteq> None"
    using that by (intro map_cong refl) (simp add: option.map_sel)
  show ?thesis
  proof (cases "\<forall>menu \<in> set (menus_below rows pid). build_menu_tree n rows (m_id menu) codes \<noteq> None")
    case True
    show ?thesis unfolding e1 those_map_Some e2 [OF True] using True by simp
  next
    case False
    then show ?thesis unfolding e1 those_map_Some by auto
  qed
qed

lemma edge_iff: "(i, j) \<in> menu_edges rows \<longleftrightarrow> (\<exists>menu \<in> set (menus_below rows i). m_id menu = j)"
  by (auto simp: menu_edges_def menus_below_def)

lemma edge_parent:
  assumes "distinct (map m_id rows)" "(p, i) \<in> menu_edges rows" "(q, i) \<in> menu_edges rows"
  shows "p = q"
proof -
  obtain r r' where "r \<in> set rows" "r' \<in> set rows" "m_id r = m_id r'" "m_parent_id r = p" "m_parent_id r' = q"
    using assms(2,3) by (auto simp: menu_edges_def)
  then show ?thesis using same_id [OF assms(1)] by blast
qed

lemma build_acyclic: "build_menu_tree n rows i codes = Some ts \<Longrightarrow> (i, i) \<notin> (menu_edges rows)\<^sup>+"
proof (induction n arbitrary: i ts)
  case (Suc n)
  show ?case
  proof
    assume "(i, i) \<in> (menu_edges rows)\<^sup>+"
    then obtain j where j: "(i, j) \<in> menu_edges rows" "(j, i) \<in> (menu_edges rows)\<^sup>*" by (meson tranclD)
    then have "(j, j) \<in> (menu_edges rows)\<^sup>+" by (meson rtrancl_into_trancl1)
    moreover obtain ts' where "build_menu_tree n rows j codes = Some ts'"
      using Suc(2) j(1) unfolding build_Suc edge_iff by blast
    ultimately show False using Suc(1) by blast
  qed
qed simp

lemma te_id_entry [simp]: "te_id (menu_entry rows codes menu) = m_id menu"
  by (simp add: menu_entry_def tree_entry_of_def)

lemma forest_ids_build:
  assumes "build_menu_tree (Suc n) rows i codes = Some ts"
  shows "forest_ids ts = concat (map (\<lambda>menu. m_id menu # forest_ids (the (build_menu_tree n rows (m_id menu) codes))) (menus_below rows i))"
proof -
  have "ts = map (\<lambda>menu. MenuTree (menu_entry rows codes menu) (the (build_menu_tree n rows (m_id menu) codes))) (menus_below rows i)"
    using assms unfolding build_Suc by blast
  then show ?thesis by (simp add: forest_ids_def comp_def)
qed

lemma build_ids: "build_menu_tree n rows i codes = Some ts \<Longrightarrow> set (forest_ids ts) = {j. (i, j) \<in> (menu_edges rows)\<^sup>+}"
proof (induction n arbitrary: i ts)
  case (Suc n)
  have below: "set (forest_ids (the (build_menu_tree n rows (m_id menu) codes))) = {j. (m_id menu, j) \<in> (menu_edges rows)\<^sup>+}"
    if "menu \<in> set (menus_below rows i)" for menu
    using Suc(2) that unfolding build_Suc by (metis Suc.IH option.exhaust_sel)
  have "set (forest_ids ts) = (\<Union>menu \<in> set (menus_below rows i). insert (m_id menu) {j. (m_id menu, j) \<in> (menu_edges rows)\<^sup>+})"
    unfolding forest_ids_build [OF Suc(2)] using below by auto
  also have "\<dots> = {j. \<exists>m. (i, m) \<in> menu_edges rows \<and> (j = m \<or> (m, j) \<in> (menu_edges rows)\<^sup>+)}"
    unfolding edge_iff by auto
  also have "\<dots> = {j. (i, j) \<in> (menu_edges rows)\<^sup>+}"
    by (blast intro: trancl_into_trancl2 r_into_trancl elim: converse_tranclE)
  finally show ?case .
qed simp

text \<open>Two menus side by side have nothing below them in common.\<close>

lemma subtrees_disjoint:
  assumes ids: "distinct (map m_id rows)" and acyc: "(i, i) \<notin> (menu_edges rows)\<^sup>+"
    and m: "(i, m) \<in> menu_edges rows" "(i, m') \<in> menu_edges rows" "m \<noteq> m'"
  shows "(m, j) \<in> (menu_edges rows)\<^sup>* \<Longrightarrow> (m', j) \<notin> (menu_edges rows)\<^sup>*"
proof (induction rule: rtrancl_induct)
  case base
  show ?case
  proof
    assume "(m', m) \<in> (menu_edges rows)\<^sup>*"
    then obtain p where "(m', p) \<in> (menu_edges rows)\<^sup>*" "(p, m) \<in> menu_edges rows" using m(3) by (metis rtranclE)
    then show False using edge_parent [OF ids m(1)] acyc m(2) by (metis rtrancl_into_trancl2)
  qed
next
  case (step p j)
  show ?case
  proof
    assume a: "(m', j) \<in> (menu_edges rows)\<^sup>*"
    show False
    proof (cases "m' = j")
      case True
      then have "p = i" using edge_parent [OF ids step(2)] m(2) by blast
      then show False using step(1) m(1) acyc by (metis rtrancl_into_trancl2)
    next
      case False
      then obtain q where "(m', q) \<in> (menu_edges rows)\<^sup>*" "(q, j) \<in> menu_edges rows" using a by (metis rtranclE)
      then show False using edge_parent [OF ids step(2)] step(3) by metis
    qed
  qed
qed

lemma distinct_concat_map: "distinct xs \<Longrightarrow> (\<And>x. x \<in> set xs \<Longrightarrow> distinct (f x)) \<Longrightarrow>
   (\<And>x y. x \<in> set xs \<Longrightarrow> y \<in> set xs \<Longrightarrow> x \<noteq> y \<Longrightarrow> set (f x) \<inter> set (f y) = {}) \<Longrightarrow> distinct (concat (map f xs))"
proof (induction xs)
  case (Cons x xs)
  have "set (f x) \<inter> set (f y) = {}" if "y \<in> set xs" for y using Cons.prems(1,3) that by (intro Cons.prems(3)) auto
  then show ?case using Cons by auto
qed simp

lemma build_distinct:
  assumes ids: "distinct (map m_id rows)"
  shows "build_menu_tree n rows i codes = Some ts \<Longrightarrow> distinct (forest_ids ts)"
proof (induction n arbitrary: i ts)
  case (Suc n)
  let ?sub = "\<lambda>menu. forest_ids (the (build_menu_tree n rows (m_id menu) codes))"
  have sub: "\<exists>ts'. build_menu_tree n rows (m_id menu) codes = Some ts'" if "menu \<in> set (menus_below rows i)" for menu
    using Suc(2) that unfolding build_Suc by blast
  have dis: "distinct (map m_id (menus_below rows i))" using ids by (simp add: menus_below_def distinct_map_filter)
  have set: "set (m_id menu # ?sub menu) = {j. (m_id menu, j) \<in> (menu_edges rows)\<^sup>*}" if "menu \<in> set (menus_below rows i)" for menu
    using sub [OF that] build_ids by (auto simp: rtrancl_eq_or_trancl)
  show ?case
    unfolding forest_ids_build [OF Suc(2)]
  proof (rule distinct_concat_map)
    show "distinct (menus_below rows i)" using dis by (simp add: distinct_map)
    fix x assume x: "x \<in> set (menus_below rows i)"
    show "distinct (m_id x # ?sub x)" using sub [OF x] Suc.IH build_ids build_acyclic by auto
    fix y assume y: "y \<in> set (menus_below rows i)" "x \<noteq> y"
    have "m_id x \<noteq> m_id y" using same_id [OF dis x y(1)] y(2) by blast
    moreover have "(i, m_id x) \<in> menu_edges rows" "(i, m_id y) \<in> menu_edges rows" using x y unfolding edge_iff by blast+
    ultimately show "set (m_id x # ?sub x) \<inter> set (m_id y # ?sub y) = {}"
      unfolding set [OF x] set [OF y(1)] using subtrees_disjoint [OF ids build_acyclic [OF Suc(2)]] by blast
  qed
qed simp

section \<open>Termination\<close>

lemma root_acyclic:
  assumes ids: "distinct (map m_id rows)" "\<forall>r \<in> set rows. m_id r \<noteq> 0"
  shows "(0, i) \<in> (menu_edges rows)\<^sup>* \<Longrightarrow> (i, i) \<notin> (menu_edges rows)\<^sup>+"
proof (induction rule: rtrancl_induct)
  case base
  show ?case using ids(2) by (auto simp: menu_edges_def dest!: tranclD2)
next
  case (step p i)
  show ?case
  proof
    assume "(i, i) \<in> (menu_edges rows)\<^sup>+"
    then obtain q where "(i, q) \<in> (menu_edges rows)\<^sup>*" "(q, i) \<in> menu_edges rows" by (meson tranclD2)
    then show False using edge_parent [OF ids(1) step(2)] step(2,3) by (metis rtrancl_into_trancl2)
  qed
qed

lemma build_total:
  assumes ids: "distinct (map m_id rows)" "\<forall>r \<in> set rows. m_id r \<noteq> 0"
  shows "(0, i) \<in> (menu_edges rows)\<^sup>* \<Longrightarrow> card {j. (i, j) \<in> (menu_edges rows)\<^sup>+} < n \<Longrightarrow> \<exists>ts. build_menu_tree n rows i codes = Some ts"
proof (induction n arbitrary: i)
  case (Suc n)
  have fin: "finite {j. (i, j) \<in> (menu_edges rows)\<^sup>+}" for i
    by (rule finite_subset [of _ "m_id ` set rows"]) (auto simp: menu_edges_def dest!: tranclD2)
  have "build_menu_tree n rows (m_id menu) codes \<noteq> None" if "menu \<in> set (menus_below rows i)" for menu
  proof -
    have e: "(i, m_id menu) \<in> menu_edges rows" using that edge_iff by blast
    then have r: "(0, m_id menu) \<in> (menu_edges rows)\<^sup>*" using Suc(2) by (rule rtrancl.rtrancl_into_rtrancl [rotated])
    have "{j. (m_id menu, j) \<in> (menu_edges rows)\<^sup>+} \<subset> {j. (i, j) \<in> (menu_edges rows)\<^sup>+}"
      using e root_acyclic [OF ids r] by (auto intro: trancl_into_trancl2)
    then have "card {j. (m_id menu, j) \<in> (menu_edges rows)\<^sup>+} < card {j. (i, j) \<in> (menu_edges rows)\<^sup>+}"
      by (rule psubset_card_mono [OF fin])
    then have "card {j. (m_id menu, j) \<in> (menu_edges rows)\<^sup>+} < n" using Suc(3) by linarith
    then show ?thesis using Suc(1) [OF r] by blast
  qed
  then show ?case unfolding build_Suc by blast
qed simp

lemma root_card:
  "card {j. (0, j) \<in> (menu_edges rows)\<^sup>+} \<le> length rows"
proof -
  have "{j. (0, j) \<in> (menu_edges rows)\<^sup>+} \<subseteq> m_id ` set rows" by (auto simp: menu_edges_def dest!: tranclD2)
  then have "card {j. (0, j) \<in> (menu_edges rows)\<^sup>+} \<le> card (m_id ` set rows)" by (intro card_mono) auto
  also have "\<dots> \<le> length rows" using card_image_le [of "set rows" m_id] card_length [of rows] by simp
  finally show ?thesis .
qed

end
