(* ===== verification/Menu_Properties.thy ===== *)
theory Menu_Properties
  imports Menu_Invariants Menu_Tree
begin

text \<open>
  Properties of the menu service: applying a configuration converges and its report counts the rows it
  inserts; names, bit positions and the permission map stay right on every sequence of calls; the menu
  tree is complete on every table.
\<close>

section \<open>Sample data\<close>

definition sample_attrs :: "string \<Rightarrow> string \<Rightarrow> menu_attrs" where
  "sample_attrs nm path =
     \<lparr>ns_name = nm, ns_path = path, ns_component = None, ns_redirect = None, ns_icon = None, ns_title = nm, ns_link = None,
      ns_is_iframe = None, ns_is_hide = None, ns_is_hide_tab = None, ns_is_full_page = None, ns_is_first_level = None,
      ns_keep_alive = Some True, ns_fixed_tab = None, ns_show_badge = None, ns_show_text_badge = None, ns_active_path = None,
      ns_sort = None, ns_enabled = None\<rparr>"

definition sample_menus :: "menu_node list" where
  "sample_menus =
     [Node (sample_attrs ''System'' ''/system'') []
        [Node (sample_attrs ''User'' ''user'')
           [\<lparr>bs_auth_name = ''Add'', bs_auth_mark = ''user:add'', bs_sort = None, bs_enabled = None\<rparr>] []]]"

definition sample_menu_row :: menu_row where
  "sample_menu_row = blank_row\<lparr>m_id := 1, m_name := ''Old'', m_path := ''/system'', m_title := ''Old''\<rparr>"

definition sample_world :: menu_world where
  "sample_world = \<lparr>mw_rows = [sample_menu_row], mw_next_id = 2, mw_role_menus = [], mw_user_roles = [], mw_roles = [], mw_permission_map = []\<rparr>"

definition sample_menu_db :: menu_db where
  "sample_menu_db = \<lparr>accepts = (\<lambda>_. True), db_now = 0\<rparr>"

definition sample_button :: create_button_dto where
  "sample_button = \<lparr>cb_parent_id = 1, cb_auth_name = ''Del'', cb_auth_mark = ''user:del'', cb_sort = None, cb_enabled = None\<rparr>"

lemma sample_world_ids: "ids_ok sample_world" "names_ok (mw_rows sample_world)" "siblings_ok (mw_rows sample_world)" "bits_ok 0 (mw_rows sample_world)"
  "map_current sample_world"
  by (simp_all add: sample_world_def sample_menu_row_def blank_row_def ids_ok_def names_ok_def siblings_ok_def bits_ok_def map_current_def load_permission_mappings_def)

lemma bind_weak: "r = r' \<Longrightarrow> bind_r r f = bind_r r' f" "m = m' \<Longrightarrow> bind_s m g = bind_s m' g"
  by simp_all

lemma sample_visible: "visible CHR ''S''" "visible CHR ''m''" "visible CHR ''/''" "visible CHR ''U''"  "visible CHR ''r''" "visible CHR ''u''"
  "visible CHR ''A''" "visible CHR ''d''"
  by code_simp+

lemma sample_valid: "validate_menu_config_spec sample_menus = Inr ()"
  by (simp add: sample_menus_def sample_attrs_def trim_visible sample_visible validate_menu_config_spec_def bind_r_def)

lemmas sample_defs = sample_menus_def sample_attrs_def sample_menu_row_def blank_row_def sample_menu_db_def sample_world_def

lemmas menu_eval = find_existing_menu_def find_existing_button_def ensure_menu_name_available_def ensure_button_auth_mark_available_def
  Let_def bind_s_def result_simps apply_existing_menu_def create_menu_from_spec_def apply_existing_button_def create_button_from_spec_def
  db_insert_def db_update_def

lemma sample_sorted: "by_sort sample_world = [sample_menu_row]"
  by (simp add: by_sort_def sample_world_def)

lemma sample_changed: "menu_changed_fields sample_menu_row (sample_attrs ''System'' ''/system'') \<noteq> []"
  by code_simp

lemma sample_plan: "\<exists>p. build_menu_config_plan [sample_menu_row] sample_menus = Inr p"
  unfolding build_menu_config_plan_def sample_valid bind_r_simps
  by (simp add: sample_defs menu_eval bind_r_def cong: if_weak_cong)

lemma sample_nodes: "\<exists>q w'. apply_menu_nodes sample_menu_db [sample_menu_row] 0 sample_menus nb sample_world = (Inr q, w')"
  by (simp add: sample_changed sample_defs menu_eval cong: bind_weak(2) if_weak_cong) blast

lemma sample_apply: "\<exists>p w'. apply_menu_config sample_menu_db sample_menus sample_world = (Inr p, w')"
proof -
  obtain p where p: "build_menu_config_plan [sample_menu_row] sample_menus = Inr p" using sample_plan by blast
  obtain q w' where "apply_menu_nodes sample_menu_db [sample_menu_row] 0 sample_menus (next_button_bit_position [sample_menu_row]) sample_world = (Inr q, w')"
    using sample_nodes by blast
  then show ?thesis
    using p sample_valid by (cases q) (simp add: apply_menu_config_def bind_s_def result_simps transaction_def sample_sorted reload_eq Let_def)
qed

section \<open>Convergence\<close>

lemma item_done_button:
  assumes "item_done E env (BItem ps b)"
  obtains r where "find_existing_button E (env (MA ps)) (bs_auth_mark b) = Some r" "button_changed_fields r b = []"
    "ensure_button_auth_mark_available E (Some (m_id r)) (bs_auth_mark b) = Inr ()"
  using assms unfolding item_done_def item_at_eq item_free_button [where ps = ps] site.simps item_in_sync.simps by blast

lemma item_done_menu:
  assumes "item_done E env (MItem ps a)"
  obtains r where "find_existing_menu E (env (MA ps)) (ns_path a) = Some r" "m_id r = env (MA (ps @ [ns_path a]))" "menu_changed_fields r a = []"
    "ensure_menu_name_available E (Some (m_id r)) (ns_name a) = Inr ()"
  using assms unfolding item_done_def item_at_eq item_free_menu [where ps = ps] site.simps item_in_sync.simps addr_of.simps by blast

lemma plan_buttons_done:
  "\<forall>b \<in> set bs. item_done E env (BItem ps b) \<Longrightarrow> \<exists>cs. plan_button_specs E (env (MA ps)) key bs = Inr cs \<and> (\<forall>c \<in> set cs. sc_action c = SyncNoop)"
proof (induction bs)
  case (Cons b bs)
  obtain r where r: "find_existing_button E (env (MA ps)) (bs_auth_mark b) = Some r" "button_changed_fields r b = []"
      "ensure_button_auth_mark_available E (Some (m_id r)) (bs_auth_mark b) = Inr ()"
    using item_done_button Cons(2) list.set_intros(1) by metis
  show ?case using Cons r by (auto simp: result_simps build_button_change_def change_action_def Let_def)
qed simp

lemma plan_nodes_done:
  "\<forall>x \<in> set (flat ps ns). item_done E env x \<Longrightarrow> \<exists>cs. plan_menu_nodes E (env (MA ps)) key ns = Inr cs \<and> (\<forall>c \<in> set cs. sc_action c = SyncNoop)"
proof (induction ps ns arbitrary: key rule: flat.induct)
  case (2 ps a bs cs ns)
  let ?key = "menu_key key (ns_path a) (ns_name a)"
  obtain r where r: "find_existing_menu E (env (MA ps)) (ns_path a) = Some r" "m_id r = env (MA (ps @ [ns_path a]))" "menu_changed_fields r a = []"
      and free: "ensure_menu_name_available E (Some (m_id r)) (ns_name a) = Inr ()"
    using item_done_menu [of E env ps a] 2(3) by auto
  have "\<forall>b \<in> set bs. item_done E env (BItem (ps @ [ns_path a]) b)" using 2(3) by simp
  from plan_buttons_done [OF this, of ?key] obtain c1 where c1: "plan_button_specs E (m_id r) ?key bs = Inr c1" "\<forall>c \<in> set c1. sc_action c = SyncNoop"
    unfolding r(2) by blast
  obtain c2 where c2: "plan_menu_nodes E (m_id r) ?key cs = Inr c2" "\<forall>c \<in> set c2. sc_action c = SyncNoop"
    using 2(1) [of ?key] 2(3) unfolding r(2) by auto
  obtain c3 where c3: "plan_menu_nodes E (env (MA ps)) key ns = Inr c3" "\<forall>c \<in> set c3. sc_action c = SyncNoop"
    using 2(2) [of key] 2(3) by auto
  show ?case using r(1,3) free c1 c2 c3 by (auto simp: result_simps build_menu_change_def change_action_def Let_def)
qed simp

lemma apply_buttons_done:
  "\<forall>b \<in> set bs. item_done E env (BItem ps b) \<Longrightarrow> apply_button_specs db E (env (MA ps)) bs nb w = (Inr (False, nb), w)"
proof (induction bs)
  case (Cons b bs)
  obtain r where r: "find_existing_button E (env (MA ps)) (bs_auth_mark b) = Some r" "button_changed_fields r b = []"
      "ensure_button_auth_mark_available E (Some (m_id r)) (bs_auth_mark b) = Inr ()"
    using item_done_button Cons(2) list.set_intros(1) by metis
  show ?case using Cons r by (auto simp: result_simps bind_s_def apply_existing_button_def Let_def)
qed (simp add: result_simps)

lemma apply_nodes_done:
  "\<forall>x \<in> set (flat ps ns). item_done E env x \<Longrightarrow> apply_menu_nodes db E (env (MA ps)) ns nb w = (Inr (False, nb), w)"
proof (induction ps ns rule: flat.induct)
  case (2 ps a bs cs ns)
  obtain r where r: "find_existing_menu E (env (MA ps)) (ns_path a) = Some r" "m_id r = env (MA (ps @ [ns_path a]))" "menu_changed_fields r a = []"
      and free: "ensure_menu_name_available E (Some (m_id r)) (ns_name a) = Inr ()"
    using item_done_menu [of E env ps a] 2(3) by auto
  have "\<forall>b \<in> set bs. item_done E env (BItem (ps @ [ns_path a]) b)" using 2(3) by simp
  from apply_buttons_done [OF this] show ?case
    using 2 r(1-3) free by (simp add: result_simps bind_s_def apply_existing_menu_def Let_def)
qed (simp add: result_simps)

lemma config_done:
  assumes "apply_menu_config db menus w = (Inr p, w')" "ids_ok w" "siblings_ok (mw_rows w)"
  obtains env where "env (MA []) = 0" "\<forall>x \<in> set (flat [] menus). item_done (by_sort w') env x" "spec_ok menus"
proof -
  obtain env where inv: "run_inv (by_sort w) env (flat [] menus) w'" and ok: "spec_ok menus"
    using apply_config_inv [OF assms(1,2)] by blast
  have "siblings_ok (by_sort w)" using assms(3) by (simp add: siblings_ok_def)
  then have "\<forall>x \<in> set (flat [] menus). item_done (by_sort w') env x"
    using all_done [OF inv by_sort_ids [OF assms(2)] _ spec_ok_order(2) [OF ok]] ok by (auto simp: spec_ok_def)
  moreover have "env (MA []) = 0" using inv unfolding run_inv_def by blast
  ultimately show thesis using that ok by blast
qed

text \<open>
  C22. Applying a menu configuration converges: after a successful apply on a table with distinct ids and
  without two menus of one parent and (non-empty) route path, planning the same configuration reports every
  entry as unchanged, and applying it again changes nothing at all. A bundle finds a menu by parent and path;
  \<open>create_menu\<close> and \<open>update_menu\<close> check the names only, so they do not keep such pairs out.
\<close>

theorem menu_apply_converges:
  assumes "apply_menu_config db menus w = (Inr p, w')" "ids_ok w" "siblings_ok (mw_rows w)"
  shows "\<exists>q. plan_menu_config menus w' = (Inr q, w') \<and> apply_menu_config db' menus w' = (Inr q, w')
    \<and> (\<forall>c \<in> set (sp_changes q). sc_action c = SyncNoop)"
proof -
  obtain env where env: "env (MA []) = 0" "\<forall>x \<in> set (flat [] menus). item_done (by_sort w') env x" and ok: "spec_ok menus"
    using config_done [OF assms] by blast
  obtain cs where cs: "plan_menu_nodes (by_sort w') 0 [] menus = Inr cs" "\<forall>c \<in> set cs. sc_action c = SyncNoop"
    using plan_nodes_done [OF env(2), of "[]"] unfolding env(1) by blast
  have valid: "validate_menu_config_spec menus = Inr ()" using ok validate_spec_Inr by blast
  then have plan: "build_menu_config_plan (by_sort w') menus = Inr (sync_plan_new cs)"
    using cs(1) by (simp add: build_menu_config_plan_def result_simps)
  have apply_nodes: "apply_menu_nodes db' (by_sort w') 0 menus nb w' = (Inr (False, nb), w')" for nb
    using apply_nodes_done [OF env(2)] unfolding env(1) by blast
  have "plan_menu_config menus w' = (Inr (sync_plan_new cs), w')"
    using plan valid by (simp add: plan_menu_config_def result_simps)
  moreover have "apply_menu_config db' menus w' = (Inr (sync_plan_new cs), w')"
    using plan valid apply_nodes by (simp add: apply_menu_config_def result_simps bind_s_def transaction_def Let_def)
  ultimately show ?thesis using cs(2) by auto
qed

theorem menu_apply_converges_witness:
  "\<exists>p w'. apply_menu_config sample_menu_db sample_menus sample_world = (Inr p, w') \<and>
     (\<exists>q. plan_menu_config sample_menus w' = (Inr q, w') \<and> apply_menu_config sample_menu_db sample_menus w' = (Inr q, w')
       \<and> (\<forall>c \<in> set (sp_changes q). sc_action c = SyncNoop))"
  using sample_apply menu_apply_converges [OF _ sample_world_ids(1,3)] by blast

section \<open>The report\<close>

text \<open>Below a menu created in the same run nothing exists yet.\<close>

lemma find_none: "(\<And>r. r \<in> set rows \<Longrightarrow> m_parent_id r \<noteq> pid) \<Longrightarrow> find_existing_menu rows pid p = None \<and> find_existing_button rows pid m = None"
  by (auto simp: find_existing_menu_def find_existing_button_def find_None_iff)

lemma insert_rows: "db_insert db what row w = (Inr r, w') \<Longrightarrow> length (mw_rows w') = Suc (length (mw_rows w)) \<and> mw_next_id w' = mw_next_id w + 1 \<and> m_id r = mw_next_id w"
  by (auto simp: db_insert_def Let_def split: if_splits)

lemma update_rows: "db_update db what i f w = (Inr r, w') \<Longrightarrow> length (mw_rows w') = length (mw_rows w) \<and> mw_next_id w' = mw_next_id w"
  by (auto simp: db_update_def Let_def split: if_splits option.splits)

lemma apply_existing_rows:
  "apply_existing_menu db r a w = (Inr u, w') \<Longrightarrow> length (mw_rows w') = length (mw_rows w) \<and> mw_next_id w' = mw_next_id w"
  "apply_existing_button db r b w = (Inr c, w') \<Longrightarrow> length (mw_rows w') = length (mw_rows w) \<and> mw_next_id w' = mw_next_id w"
  using update_rows by (auto simp: apply_existing_menu_def apply_existing_button_def bind_s_iff result_simps split: if_splits)

definition grown :: "menu_world \<Rightarrow> menu_world \<Rightarrow> nat \<Rightarrow> bool" where
  "grown w w' n \<longleftrightarrow> length (mw_rows w') = length (mw_rows w) + n \<and> mw_next_id w \<le> mw_next_id w'"

lemma grown_trans: "grown w w1 n \<Longrightarrow> grown w1 w2 m \<Longrightarrow> k = n + m \<Longrightarrow> grown w w2 k"
  by (auto simp: grown_def)

lemma grown_refl: "grown w w 0"
  by (simp add: grown_def)

lemma all_create: "\<forall>c \<in> set (plan_all_create_for_buttons key bs). sc_action c = SyncCreate"
  "\<forall>c \<in> set (plan_all_create_for_nodes key ns). sc_action c = SyncCreate"
proof -
  show b: "\<forall>c \<in> set (plan_all_create_for_buttons key bs). sc_action c = SyncCreate" for key bs
    by (auto simp: plan_all_create_for_buttons_def build_button_change_def change_action_def)
  show "\<forall>c \<in> set (plan_all_create_for_nodes key ns). sc_action c = SyncCreate"
  proof (induction key ns rule: plan_all_create_for_nodes.induct)
    case (2 key a bs cs ns)
    then show ?case using b by (auto simp: Let_def build_menu_change_def change_action_def)
  qed simp
qed

lemma actions_all: "\<forall>c \<in> set cs. sc_action c = a \<Longrightarrow> actions_of a cs = length cs"
  by (induction cs) auto

lemma apply_buttons_new:
  "apply_button_specs db existing pid bs nb w = (Inr q, w') \<Longrightarrow> (\<And>r. r \<in> set existing \<Longrightarrow> m_parent_id r \<noteq> pid) \<Longrightarrow> grown w w' (length bs)"
proof (induction bs arbitrary: nb w q)
  case (Cons b bs)
  obtain n1 w1 q1 where c: "create_button_from_spec db pid b nb w = (Inr n1, w1)" and rest: "apply_button_specs db existing pid bs n1 w1 = (Inr q1, w')"
    using Cons(2) find_none [OF Cons(3)] by (auto simp: Let_def bind_s_iff result_simps)
  have "grown w w1 1" using c insert_rows by (fastforce simp: create_button_from_spec_def bind_s_iff result_simps grown_def)
  moreover have "grown w1 w' (length bs)" by (rule Cons(1) [OF rest Cons(3)])
  ultimately show ?case by (simp add: grown_def)
qed (simp add: result_simps grown_refl)

lemma apply_nodes_new:
  "apply_menu_nodes db existing pid ns nb w = (Inr q, w') \<Longrightarrow> (\<And>r. r \<in> set existing \<Longrightarrow> m_parent_id r < pid) \<Longrightarrow>
   (\<And>r. r \<in> set existing \<Longrightarrow> m_parent_id r < mw_next_id w) \<Longrightarrow> grown w w' (length (plan_all_create_for_nodes key ns))"
proof (induction key ns arbitrary: pid nb w q w' rule: plan_all_create_for_nodes.induct)
  case (2 key a bs cs ns)
  let ?key = "menu_key key (ns_path a) (ns_name a)"
  have "\<And>r. r \<in> set existing \<Longrightarrow> m_parent_id r \<noteq> pid" using 2(4) by force
  then obtain i w1 q1 w2 q2 w3 q3 where c: "create_menu_from_spec db pid a w = (Inr i, w1)"
    and b: "apply_button_specs db existing i bs nb w1 = (Inr q1, w2)" and ch: "apply_menu_nodes db existing i cs (snd q1) w2 = (Inr q2, w3)"
    and rest: "apply_menu_nodes db existing pid ns (snd q2) w3 = (Inr q3, w')"
    using 2(3) find_none [of existing pid] by (auto simp: Let_def bind_s_iff result_simps case_prod_beta)
  have i: "i = mw_next_id w" "grown w w1 1" using c insert_rows by (fastforce simp: create_menu_from_spec_def bind_s_iff result_simps grown_def)+
  have low: "\<And>r. r \<in> set existing \<Longrightarrow> m_parent_id r < i" using 2(5) i(1) by simp
  have g2: "grown w1 w2 (length bs)" using apply_buttons_new [OF b] low by fastforce
  have "\<And>r. r \<in> set existing \<Longrightarrow> m_parent_id r < mw_next_id w2" using 2(5) i(2) g2 by (fastforce simp: grown_def)
  then have g3: "grown w2 w3 (length (plan_all_create_for_nodes ?key cs))" using 2(1) [OF refl ch low] by blast
  have "\<And>r. r \<in> set existing \<Longrightarrow> m_parent_id r < mw_next_id w3" using 2(5) i(2) g2 g3 by (fastforce simp: grown_def)
  then have g4: "grown w3 w' (length (plan_all_create_for_nodes key ns))" using 2(2) [OF refl rest 2(4)] by blast
  show ?case
    using grown_trans [OF grown_trans [OF grown_trans [OF i(2) g2 refl] g3 refl] g4 refl]
    by (simp add: Let_def plan_all_create_for_buttons_def add.assoc)
qed (simp add: result_simps grown_refl)

lemma apply_buttons_count:
  "apply_button_specs db existing pid bs nb w = (Inr q, w') \<Longrightarrow> plan_button_specs existing pid key bs = Inr cs \<Longrightarrow> grown w w' (actions_of SyncCreate cs)"
proof (induction bs arbitrary: nb w q cs)
  case (Cons b bs)
  let ?e = "find_existing_button existing pid (bs_auth_mark b)"
  obtain q1 w1 q2 where step: "(case ?e of Some r \<Rightarrow> bind_s (apply_existing_button db r b) (\<lambda>changed. ok_s (changed, nb))
                | None \<Rightarrow> bind_s (create_button_from_spec db pid b nb) (\<lambda>n. ok_s (True, n))) w = (Inr q1, w1)"
    and rest: "apply_button_specs db existing pid bs (snd q1) w1 = (Inr q2, w')"
    using Cons(2) by (auto simp: Let_def bind_s_iff result_simps case_prod_beta)
  obtain cs' where cs: "plan_button_specs existing pid key bs = Inr cs'" "cs = build_button_change ?e (button_key key b) b # cs'"
    using Cons(3) by (auto simp: Let_def bind_r_Inr)
  have "grown w w1 (actions_of SyncCreate [build_button_change ?e (button_key key b) b])"
  proof (cases ?e)
    case None
    then show ?thesis using step insert_rows
      by (fastforce simp: create_button_from_spec_def bind_s_iff result_simps grown_def build_button_change_def change_action_def)
  next
    case (Some r)
    then have "grown w w1 0" using step apply_existing_rows(2) by (fastforce simp: bind_s_iff result_simps grown_def)
    then show ?thesis using Some by (simp add: build_button_change_def change_action_def Let_def)
  qed
  moreover have "grown w1 w' (actions_of SyncCreate cs')" by (rule Cons(1) [OF rest cs(1)])
  ultimately show ?case by (simp add: grown_def cs(2))
qed (simp add: result_simps grown_refl)

lemma apply_nodes_count:
  "apply_menu_nodes db existing pid ns nb w = (Inr q, w') \<Longrightarrow> plan_menu_nodes existing pid key ns = Inr cs \<Longrightarrow>
   (\<And>r. r \<in> set existing \<Longrightarrow> m_parent_id r < mw_next_id w) \<Longrightarrow> grown w w' (actions_of SyncCreate cs)"
proof (induction existing pid key ns arbitrary: nb w q w' cs rule: plan_menu_nodes.induct)
  case (2 existing pid key a bs cs0 ns)
  let ?key = "menu_key key (ns_path a) (ns_name a)" and ?e = "find_existing_menu existing pid (ns_path a)"
  obtain i w1 q1 w2 q2 w3 q3 where step: "(case ?e of Some r \<Rightarrow> bind_s (apply_existing_menu db r a) (\<lambda>_. ok_s (m_id r))
                | None \<Rightarrow> create_menu_from_spec db pid a) w = (Inr i, w1)"
    and b: "apply_button_specs db existing i bs nb w1 = (Inr q1, w2)" and ch: "apply_menu_nodes db existing i cs0 (snd q1) w2 = (Inr q2, w3)"
    and rest: "apply_menu_nodes db existing pid ns (snd q2) w3 = (Inr q3, w')"
    using 2(3) by (auto simp: Let_def bind_s_iff result_simps case_prod_beta)
  obtain below cs' where ensure: "ensure_menu_name_available existing (map_option m_id ?e) (ns_name a) = Inr ()"
    and below: "(case ?e of
              Some r \<Rightarrow> bind_r (plan_button_specs existing (m_id r) ?key bs)
                (\<lambda>buttons. bind_r (plan_menu_nodes existing (m_id r) ?key cs0) (\<lambda>children. Inr (buttons @ children)))
            | None \<Rightarrow> Inr (plan_all_create_for_buttons ?key bs @ plan_all_create_for_nodes ?key cs0)) = Inr below"
    and rest_plan: "plan_menu_nodes existing pid key ns = Inr cs'" and cs: "cs = build_menu_change ?e ?key a # below @ cs'"
    using 2(4) by (auto simp: Let_def bind_r_Inr)
  note bound = 2(5)
  have upto: "grown w w3 (actions_of SyncCreate (build_menu_change ?e ?key a # below))"
  proof (cases ?e)
    case None
    have i: "i = mw_next_id w" "grown w w1 1" using step None insert_rows by (fastforce simp: create_menu_from_spec_def bind_s_iff result_simps grown_def)+
    have low: "\<And>r. r \<in> set existing \<Longrightarrow> m_parent_id r < i" using bound i(1) by simp
    have g2: "grown w1 w2 (length bs)" using apply_buttons_new [OF b] low by fastforce
    have "\<And>r. r \<in> set existing \<Longrightarrow> m_parent_id r < mw_next_id w2" using bound i(2) g2 by (fastforce simp: grown_def)
    then have g3: "grown w2 w3 (length (plan_all_create_for_nodes ?key cs0))" using apply_nodes_new [OF ch low] by blast
    have "actions_of SyncCreate below = length bs + length (plan_all_create_for_nodes ?key cs0)"
      using below None all_create [of ?key] by (auto simp: actions_all plan_all_create_for_buttons_def)
    then show ?thesis using i(2) g2 g3 None by (simp add: grown_def build_menu_change_def change_action_def)
  next
    case (Some r)
    have g1: "grown w w1 0" "i = m_id r" using step Some apply_existing_rows(1) by (fastforce simp: bind_s_iff result_simps grown_def)+
    obtain c1 c2 where c: "plan_button_specs existing (m_id r) ?key bs = Inr c1" "plan_menu_nodes existing (m_id r) ?key cs0 = Inr c2" "below = c1 @ c2"
      using below Some by (auto simp: bind_r_Inr)
    have g2: "grown w1 w2 (actions_of SyncCreate c1)" using apply_buttons_count [OF b] c(1) g1(2) by blast
    have "\<And>x. x \<in> set existing \<Longrightarrow> m_parent_id x < mw_next_id w2" using bound g1(1) g2 by (fastforce simp: grown_def)
    then have g3: "grown w2 w3 (actions_of SyncCreate c2)" using 2(1) [OF refl refl Some ch [unfolded g1(2)] c(2)] by blast
    show ?thesis using g1(1) g2 g3 Some c(3) by (auto simp: grown_def build_menu_change_def change_action_def Let_def)
  qed
  have "\<And>x. x \<in> set existing \<Longrightarrow> m_parent_id x < mw_next_id w3" using bound upto by (fastforce simp: grown_def)
  then have "grown w3 w' (actions_of SyncCreate cs')" using 2(2) [OF refl refl rest rest_plan] by blast
  then show ?case using upto cs by (auto simp: grown_def)
qed (simp add: result_simps grown_refl)

text \<open>
  The report of an apply is the plan: a plan made before on the same table is the report of the
  apply, and the apply inserts exactly as many rows as the report counts as created, where no row
  points to a parent id that was not handed out yet.
\<close>

theorem menu_report_counts:
  assumes "apply_menu_config db menus w = (Inr p, w')" "\<forall>r \<in> set (mw_rows w). m_parent_id r < mw_next_id w"
  shows "plan_menu_config menus w = (Inr p, w) \<and> length (mw_rows w') = length (mw_rows w) + create_count (sp_summary p)"
proof -
  obtain q w1 where valid: "validate_menu_config_spec menus = Inr ()" and plan: "build_menu_config_plan (by_sort w) menus = Inr p"
    and nodes: "apply_menu_nodes db (by_sort w) 0 menus (next_button_bit_position (by_sort w)) w = (Inr q, w1)"
    and w': "w' = (if fst q then w1\<lparr>mw_permission_map := load_permission_mappings w1\<rparr> else w1)"
    using apply_config_nodes [OF assms(1)] by blast
  obtain cs where cs: "plan_menu_nodes (by_sort w) 0 [] menus = Inr cs" "p = sync_plan_new cs"
    using plan by (auto simp: build_menu_config_plan_def bind_r_Inr)
  have "grown w w1 (actions_of SyncCreate cs)"
    using assms(2) by (intro apply_nodes_count [OF nodes cs(1)]) simp
  then show ?thesis using w' cs(2) valid plan by (simp add: grown_def plan_menu_config_def result_simps)
qed

theorem menu_report_counts_witness:
  "\<exists>p w'. apply_menu_config sample_menu_db sample_menus sample_world = (Inr p, w') \<and>
     plan_menu_config sample_menus sample_world = (Inr p, sample_world) \<and> length (mw_rows w') = 1 + create_count (sp_summary p)"
proof -
  have "\<forall>r \<in> set (mw_rows sample_world). m_parent_id r < mw_next_id sample_world" "length (mw_rows sample_world) = 1"
    by (simp_all add: sample_defs)
  then show ?thesis using sample_apply menu_report_counts [of sample_menu_db sample_menus sample_world] by metis
qed

section \<open>Invariants of all runs\<close>

text \<open>The positions a sequence of calls may hand out.\<close>

definition run_bits :: "(menu_db \<times> menu_call) list \<Rightarrow> nat" where
  "run_bits cs = sum_list (map (\<lambda>(db, c). call_bits c) cs)"

definition sample_calls :: "(menu_db \<times> menu_call) list" where
  "sample_calls = [(sample_menu_db, CApply sample_menus), (sample_menu_db, CCreateButton sample_button), (sample_menu_db, CDelete 4)]"

lemma run_ids: "ids_ok w \<Longrightarrow> ids_ok (menu_run cs w)"
  by (induction cs arbitrary: w) (auto simp: ids_ok_step)

text \<open>
  Menu names stay unique: no sequence of calls, successful or refused, gives two menus the same name.
\<close>

theorem menu_names_unique:
  assumes "ids_ok w" "names_ok (mw_rows w)"
  shows "names_ok (mw_rows (menu_run cs w))"
  using assms by (induction cs arbitrary: w) (auto simp: ids_ok_step names_ok_step)

theorem menu_names_unique_witness: "names_ok (mw_rows (menu_run sample_calls sample_world))"
  by (rule menu_names_unique [OF sample_world_ids(1,2)])

text \<open>
  The permission map handed to the authentication never falls behind the table: after every call of every
  sequence it is the list of the enabled buttons' marks with their bit positions.
\<close>

theorem permission_map_current:
  assumes "ids_ok w" "mw_permission_map w = load_permission_mappings w"
  shows "mw_permission_map (menu_run cs w) = load_permission_mappings (menu_run cs w)"
proof -
  have "map_current (menu_run cs w)"
    using assms(1) assms(2) [folded map_current_def] by (induction cs arbitrary: w) (auto simp: ids_ok_step map_current_step)
  then show ?thesis by (simp add: map_current_def)
qed

theorem permission_map_current_witness:
  "mw_permission_map (menu_run sample_calls sample_world) = load_permission_mappings (menu_run sample_calls sample_world)"
  by (rule permission_map_current [OF sample_world_ids(1) sample_world_ids(5) [unfolded map_current_def]])

text \<open>
  C24. Every button keeps a bit position of its own: as long as the positions handed out stay below 2^31, no
  sequence of calls gives two buttons one position, so no two marks of the permission map share a bit.
\<close>

theorem bit_positions_distinct:
  assumes "ids_ok w" "bits_ok n (mw_rows w)" "n + int (run_bits cs) < 2 ^ 31"
  shows "bits_ok (n + int (run_bits cs)) (mw_rows (menu_run cs w)) \<and> distinct (map snd (load_permission_mappings (menu_run cs w)))"
proof -
  have b: "bits_ok (n + int (run_bits cs)) (mw_rows (menu_run cs w))"
    using assms
  proof (induction cs arbitrary: w n)
    case (Cons x cs)
    obtain db c where x: "x = (db, c)" by (cases x)
    have "bits_ok (n + int (call_bits c)) (mw_rows (menu_step db c w))"
      using Cons(4) x by (intro bits_ok_step [OF Cons(2,3)]) (simp add: run_bits_def)
    then show ?case using Cons(1) [OF ids_ok_step [OF Cons(2)], of "n + int (call_bits c)" db c] Cons(4) x
      by (simp add: run_bits_def add.assoc)
  qed (simp add: run_bits_def)
  have "distinct (map snd (concat (map row_mapping rows))) \<and> set (map snd (concat (map row_mapping rows))) \<subseteq> set (bits rows)"
    if "distinct (bits rows)" "\<forall>b \<in> set (bits rows). 0 \<le> b \<and> b < 4294967296" for rows
    using that
  proof (induction rows)
    case (Cons r rows)
    have ih: "distinct (map snd (concat (map row_mapping rows)))" "set (map snd (concat (map row_mapping rows))) \<subseteq> set (bits rows)"
      using Cons by (auto split: option.splits)
    consider "map snd (row_mapping r) = []" | b where "m_bit_position r = Some b" "map snd (row_mapping r) = [b]"
    proof (cases "m_bit_position r")
      case (Some b)
      then have "b mod 4294967296 = b" using Cons(3) by simp
      then show ?thesis using that Some by (cases "m_menu_type r = Button \<and> m_enabled r \<and> m_auth_mark r \<noteq> []") (auto simp: row_mapping_def)
    qed (use that in \<open>simp add: row_mapping_def\<close>)
    then show ?case
    proof cases
      case 1
      then show ?thesis using ih by (auto split: option.split)
    next
      case (2 b)
      then have "b \<notin> set (bits rows)" using Cons(2) by simp
      then show ?thesis using 2 ih by auto
    qed
  qed simp
  moreover have "\<forall>b \<in> set (bits (mw_rows (menu_run cs w))). 0 \<le> b \<and> b < 4294967296" using b assms(3) by (fastforce simp: bits_ok_def)
  ultimately show ?thesis using b by (simp add: bits_ok_def load_eq)
qed

theorem bit_positions_distinct_witness:
  "bits_ok 2 (mw_rows (menu_run sample_calls sample_world)) \<and> distinct (map snd (load_permission_mappings (menu_run sample_calls sample_world)))"
proof -
  have "run_bits sample_calls = 2" by (simp add: run_bits_def sample_calls_def sample_menus_def)
  then show ?thesis using bit_positions_distinct [OF sample_world_ids(1,4), of sample_calls] by simp
qed

section \<open>Reuse of positions\<close>

lemma bits_owner:
  "distinct (bits rows) \<Longrightarrow> r \<in> set rows \<Longrightarrow> r' \<in> set rows \<Longrightarrow> m_bit_position r = Some b \<Longrightarrow> m_bit_position r' = Some b \<Longrightarrow> r = r'"
proof (induction rows)
  case (Cons x rows)
  then show ?case by (auto simp: set_bits split: option.splits)
qed simp

text \<open>
  A deleted button's bit position is handed out again: when the button with the highest position is
  deleted and the position below it is in use (or it was the first), the next created button gets exactly the
  deleted position, so a token issued before carries the new permission.
\<close>

theorem deleted_bit_reused:
  assumes "bits_ok n (mw_rows w)" "n < 2 ^ 31"
    and r: "r \<in> set (mw_rows w)" "m_bit_position r = Some b" "next_button_bit_position (mw_rows w) = b + 1"
    and below: "b = 0 \<or> b - 1 \<in> set (bits (mw_rows w))" and ids: "ids_ok w"
    and del: "delete_menu (m_id r) w = (Inr i, w1)" and create: "create_button db d w1 = (Inr v, w2)"
  shows "\<exists>r' \<in> set (mw_rows w2). m_auth_mark r' = cb_auth_mark d \<and> m_bit_position r' = Some b"
proof -
  let ?rows = "filter (\<lambda>x. m_id x \<noteq> m_id r) (mw_rows w)"
  have n31: "n < 2147483648" using assms(2) by simp
  have bi: "\<forall>x \<in> set (bits (mw_rows w)). 0 \<le> x \<and> x < n" "0 \<le> n" "distinct (bits (mw_rows w))" using assms(1) by (auto simp: bits_ok_def)
  have top: "\<forall>x \<in> set (bits (mw_rows w)). x \<le> b" using next_bit(4) [OF bi(1,2) n31] r(3) by auto
  have rows1: "mw_rows w1 = ?rows"
    using del by (auto simp: delete_menu_def bind_s_def result_simps reload_eq Let_def split: option.splits if_splits)
  have sub: "set (bits ?rows) \<subseteq> set (bits (mw_rows w)) - {b}"
  proof
    fix x assume "x \<in> set (bits ?rows)"
    then obtain y where y: "y \<in> set (mw_rows w)" "m_id y \<noteq> m_id r" "m_bit_position y = Some x" by (auto simp: set_bits)
    have "x \<noteq> b" using bits_owner [OF bi(3) y(1) r(1) y(3)] r(2) y(2) by auto
    then show "x \<in> set (bits (mw_rows w)) - {b}" using y by (auto simp: set_bits)
  qed
  then have lt: "\<forall>x \<in> set (bits ?rows). 0 \<le> x \<and> x < b" using top bi(1) by force
  have b: "0 \<le> b" "b < 2147483648" using bi(1) r(1,2) n31 by (fastforce simp: set_bits)+
  note nb = next_bit [OF lt b]
  have "next_button_bit_position ?rows = b"
  proof (cases "b = 0")
    case True
    then show ?thesis using nb(2,3) by simp
  next
    case False
    then obtain y where y: "y \<in> set (mw_rows w)" "m_bit_position y = Some (b - 1)" using below by (auto simp: set_bits)
    then have "m_id y \<noteq> m_id r" using same_id [OF _ y(1) r(1)] ids r(2) by (auto simp: ids_ok_def)
    then have "b - 1 \<in> set (bits ?rows)" using y by (auto simp: set_bits)
    then show ?thesis using nb(3,4) by force
  qed
  then show ?thesis
    using create rows1
    by (auto simp: create_button_def bind_s_def result_simps reload_eq Let_def db_insert_def row_of_create_button_def blank_row_def split: if_splits)
qed

definition sample_bit_row :: menu_row where
  "sample_bit_row = (row_of_create_button sample_button)\<lparr>m_id := 2, m_bit_position := Some 0\<rparr>"

definition sample_bit_world :: menu_world where
  "sample_bit_world = sample_world\<lparr>mw_rows := [sample_menu_row, sample_bit_row], mw_next_id := 3\<rparr>"

lemma sample_bit_next: "next_button_bit_position (mw_rows sample_bit_world) = 0 + 1"
  by (simp add: next_button_bit_position_def sample_bit_world_def sample_bit_row_def sample_defs wrap_i32_def)

lemma sample_bit_ok: "bits_ok 1 (mw_rows sample_bit_world)" "ids_ok sample_bit_world"
  by (simp_all add: sample_bit_world_def sample_bit_row_def sample_defs bits_ok_def ids_ok_def)

lemma sample_bit_calls:
  "\<exists>i w1 v w2. delete_menu (m_id sample_bit_row) sample_bit_world = (Inr i, w1) \<and> create_button sample_menu_db sample_button w1 = (Inr v, w2)"
  by (simp add: delete_menu_def create_button_def find_by_id_def sample_bit_world_def sample_bit_row_def sample_defs sample_button_def
      row_of_create_button_def menu_eval reload_eq)

theorem deleted_bit_reused_witness:
  "\<exists>i w1 v w2. delete_menu (m_id sample_bit_row) sample_bit_world = (Inr i, w1) \<and> create_button sample_menu_db sample_button w1 = (Inr v, w2)
     \<and> (\<exists>r' \<in> set (mw_rows w2). m_auth_mark r' = ''user:del'' \<and> m_bit_position r' = Some 0)"
proof -
  obtain i w1 v w2 where c: "delete_menu (m_id sample_bit_row) sample_bit_world = (Inr i, w1)" "create_button sample_menu_db sample_button w1 = (Inr v, w2)"
    using sample_bit_calls by blast
  have r: "sample_bit_row \<in> set (mw_rows sample_bit_world)" "m_bit_position sample_bit_row = Some 0"
    by (simp_all add: sample_bit_world_def sample_bit_row_def)
  have "cb_auth_mark sample_button = ''user:del''" by (simp add: sample_button_def)
  then show ?thesis using deleted_bit_reused [OF sample_bit_ok(1) _ r sample_bit_next _ sample_bit_ok(2) c] c by auto
qed

section \<open>The tree\<close>

text \<open>The menus a user's roles grant: enabled, and bound to a role the user has.\<close>

definition granted_menus :: "int \<Rightarrow> menu_world \<Rightarrow> menu_row list" where
  "granted_menus u w =
     filter (\<lambda>m. m_enabled m \<and> list_ex (\<lambda>(x, r). x = u \<and> (r, m_id m) \<in> set (mw_role_menus w)) (mw_user_roles w)) (mw_rows w)"

lemma granted_menus_set:
  "set (granted_menus u w) =
     {m \<in> set (mw_rows w). m_enabled m \<and> (\<exists>r. (u, r) \<in> set (mw_user_roles w) \<and> (r, m_id m) \<in> set (mw_role_menus w))}"
  by (fastforce simp: granted_menus_def list_ex_iff)

lemma user_menus:
  "\<exists>rows codes. set rows = set (granted_menus u w) \<and> length rows \<le> length (mw_rows w)
    \<and> (distinct (map m_id (mw_rows w)) \<longrightarrow> distinct (map m_id rows))
    \<and> (get_menu_tree_for_user_id fuel u w = build_menu_tree fuel rows 0 codes
       \<or> rows = [] \<and> get_menu_tree_for_user_id fuel u w = Some [])"
proof -
  let ?roles = "map snd (filter (\<lambda>(x, _). x = u) (mw_user_roles w))"
  let ?rows = "filter (\<lambda>m. m_enabled m \<and> list_ex (\<lambda>(r, i). r \<in> set ?roles \<and> i = m_id m) (mw_role_menus w)) (by_sort w)"
  have rows: "set ?rows = set (granted_menus u w)" unfolding granted_menus_set by (fastforce simp: list_ex_iff)
  have len: "length ?rows \<le> length (mw_rows w)" using length_filter_le [of _ "by_sort w"] by (simp add: by_sort_def)
  have d: "distinct (map m_id ?rows)" if "distinct (map m_id (mw_rows w))"
    using that by (simp add: by_sort_def distinct_map inj_on_def)
  show ?thesis
  proof (cases "?roles = []")
    case True
    have "granted_menus u w = []" using True by (auto simp: granted_menus_def filter_empty_conv list_ex_iff)
    then show ?thesis using True by (intro exI [of _ "[]"]) (simp add: get_menu_tree_for_user_id_def)
  next
    case False
    have "get_menu_tree_for_user_id fuel u w =
        build_menu_tree fuel ?rows 0 (map snd (filter (\<lambda>(i, _). i \<in> set ?roles) (mw_roles w)))"
      using False unfolding get_menu_tree_for_user_id_def Let_def by (simp only: if_False)
    then show ?thesis using rows len d by blast
  qed
qed

text \<open>
  C23. The menu tree is total and complete: on every table with distinct nonzero ids, even one whose
  parents form cycles, the recursion ends within one level more than there are rows, and the tree
  shows each menu with a chain of parents to the root exactly once and nothing else.
\<close>

theorem menu_tree_complete:
  assumes "ids_ok w"
  shows "\<exists>ts. list_menus (Suc (length (mw_rows w))) w = Some ts \<and> distinct (forest_ids ts)
    \<and> set (forest_ids ts) = {i. (0, i) \<in> (menu_edges (mw_rows w))\<^sup>+}"
proof -
  have ids: "distinct (map m_id (by_sort w))" "\<forall>r \<in> set (by_sort w). m_id r \<noteq> 0" using by_sort_ids [OF assms] assms by (auto simp: ids_ok_def)
  have len: "length (by_sort w) = length (mw_rows w)" by (simp add: by_sort_def)
  have e: "menu_edges (by_sort w) = menu_edges (mw_rows w)" by (simp add: menu_edges_def)
  obtain ts where ts: "build_menu_tree (Suc (length (mw_rows w))) (by_sort w) 0 [] = Some ts"
    using build_total [OF ids, of 0 "Suc (length (mw_rows w))" "[]"] root_card [of "by_sort w"] len by auto
  have "list_menus (Suc (length (mw_rows w))) w = Some ts" using ts unfolding list_menus_def .
  then show ?thesis
    using build_distinct [OF ids(1) ts] build_ids [OF ts, unfolded e] by (intro exI [of _ ts] conjI)
qed

theorem menu_tree_complete_witness:
  "\<exists>ts. list_menus 2 sample_world = Some ts \<and> distinct (forest_ids ts) \<and> set (forest_ids ts) = {i. (0, i) \<in> (menu_edges (mw_rows sample_world))\<^sup>+}"
proof -
  have "Suc (length (mw_rows sample_world)) = 2" by (simp add: sample_world_def)
  then show ?thesis using menu_tree_complete [OF sample_world_ids(1)] by metis
qed

lemma user_tree_ids:
  assumes "get_menu_tree_for_user_id fuel u w = Some ts"
  shows "set (forest_ids ts) = {i. (0, i) \<in> (menu_edges (granted_menus u w))\<^sup>+}"
proof -
  obtain rows codes where r: "set rows = set (granted_menus u w)"
    "get_menu_tree_for_user_id fuel u w = build_menu_tree fuel rows 0 codes
       \<or> rows = [] \<and> get_menu_tree_for_user_id fuel u w = Some []"
    using user_menus by blast
  have e: "menu_edges rows = menu_edges (granted_menus u w)" using r(1) by (simp add: menu_edges_def)
  show ?thesis using r(2)
  proof
    assume "get_menu_tree_for_user_id fuel u w = build_menu_tree fuel rows 0 codes"
    then show ?thesis using build_ids [of fuel rows 0 codes ts] assms e by simp
  next
    assume "rows = [] \<and> get_menu_tree_for_user_id fuel u w = Some []"
    then have "ts = []" "menu_edges (granted_menus u w) = {}" using assms e by (auto simp: menu_edges_def)
    then show ?thesis by (simp add: forest_ids_def)
  qed
qed

text \<open>
  C25. A user's menu tree is built for every user, within one level more than there are rows, on every
  table with distinct nonzero ids, and shows exactly the menus granted to the user (enabled and bound to
  a role of the user) that a chain of granted parents links to the root, each once: every menu in it is
  granted, and so are all menus above it.
\<close>

theorem user_tree_granted:
  assumes "ids_ok w"
  shows "\<exists>ts. get_menu_tree_for_user_id (Suc (length (mw_rows w))) u w = Some ts \<and> distinct (forest_ids ts)
    \<and> set (forest_ids ts) = {i. (0, i) \<in> (menu_edges (granted_menus u w))\<^sup>+}
    \<and> (\<forall>i \<in> set (forest_ids ts). \<exists>m \<in> set (mw_rows w). m_id m = i \<and> m_enabled m
         \<and> (\<exists>r. (u, r) \<in> set (mw_user_roles w) \<and> (r, i) \<in> set (mw_role_menus w))
         \<and> (m_parent_id m = 0 \<or> m_parent_id m \<in> set (forest_ids ts)))"
proof -
  obtain rows codes where r: "set rows = set (granted_menus u w)" "length rows \<le> length (mw_rows w)" "distinct (map m_id rows)"
    "get_menu_tree_for_user_id (Suc (length (mw_rows w))) u w = build_menu_tree (Suc (length (mw_rows w))) rows 0 codes
       \<or> rows = [] \<and> get_menu_tree_for_user_id (Suc (length (mw_rows w))) u w = Some []"
    using user_menus [of u w "Suc (length (mw_rows w))"] assms by (auto simp: ids_ok_def)
  have nz: "\<forall>r \<in> set rows. m_id r \<noteq> 0" using r(1) assms by (auto simp: granted_menus_set ids_ok_def)
  have "\<exists>ts. build_menu_tree (Suc (length (mw_rows w))) rows 0 codes = Some ts"
    using build_total [OF r(3) nz, of 0 "Suc (length (mw_rows w))" codes] root_card [of rows] r(2) by auto
  then obtain ts where ts: "get_menu_tree_for_user_id (Suc (length (mw_rows w))) u w = Some ts" "distinct (forest_ids ts)"
    using r(4) build_distinct [OF r(3)] by (fastforce simp: forest_ids_def)
  note ids = user_tree_ids [OF ts(1)]
  have "\<exists>m \<in> set (mw_rows w). m_id m = i \<and> m_enabled m \<and> (\<exists>r. (u, r) \<in> set (mw_user_roles w) \<and> (r, i) \<in> set (mw_role_menus w))
    \<and> (m_parent_id m = 0 \<or> m_parent_id m \<in> set (forest_ids ts))" if "i \<in> set (forest_ids ts)" for i
  proof -
    have "(0, i) \<in> (menu_edges (granted_menus u w))\<^sup>+" using that ids by blast
    then obtain p where p: "(0, p) \<in> (menu_edges (granted_menus u w))\<^sup>*" "(p, i) \<in> menu_edges (granted_menus u w)"
      by (meson tranclD2)
    then obtain m where m: "m \<in> set (granted_menus u w)" "m_id m = i" "m_parent_id m = p" by (auto simp: menu_edges_def)
    have "p = 0 \<or> p \<in> set (forest_ids ts)" using p(1) ids by (auto simp: rtrancl_eq_or_trancl)
    then show ?thesis using m by (auto simp: granted_menus_set)
  qed
  then show ?thesis using ts ids by blast
qed

definition sample_user_world :: menu_world where
  "sample_user_world = sample_world\<lparr>mw_user_roles := [(7, 3)], mw_role_menus := [(3, 1)]\<rparr>"

theorem user_tree_granted_witness:
  "\<exists>ts. get_menu_tree_for_user_id 2 7 sample_user_world = Some ts \<and> distinct (forest_ids ts)
    \<and> set (forest_ids ts) = {i. (0, i) \<in> (menu_edges (granted_menus 7 sample_user_world))\<^sup>+}
    \<and> 1 \<in> set (forest_ids ts)"
proof -
  have w: "ids_ok sample_user_world" "Suc (length (mw_rows sample_user_world)) = 2"
    using sample_world_ids(1) by (simp_all add: sample_user_world_def ids_ok_def sample_world_def)
  have "\<exists>ts. get_menu_tree_for_user_id 2 7 sample_user_world = Some ts \<and> 1 \<in> set (forest_ids ts)"
    by (simp add: get_menu_tree_for_user_id_def sample_user_world_def by_sort_def sample_defs numeral_2_eq_2 forest_ids_def tree_entry_of_def)
  then show ?thesis using user_tree_granted [OF w(1), of 7] w(2) by auto
qed

end
