(* ===== verification/Sql_Scanner.thy ===== *)
theory Sql_Scanner
  imports Text_Http
begin

text \<open>
  The guard of the SQL tools, \<^verbatim>\<open>crates/summer-mcp/src/table_tools/sql_scanner.rs\<close>: the scanner that splits
  a statement into its words and skips strings, quoted identifiers, comments and dollar quotes, and the
  checks of the two tools. The loop over an index is a recursion over the remaining text. Errors carry
  a short text in place of the message.
\<close>

section \<open>Characters\<close>

definition is_word_start :: "char \<Rightarrow> bool" where
  "is_word_start c \<longleftrightarrow> is_ascii_alphabetic c \<or> c = CHR ''_''"

definition is_word_char :: "char \<Rightarrow> bool" where
  "is_word_char c \<longleftrightarrow> is_ascii_alphabetic c \<or> is_digit c \<or> c = CHR ''_''"

abbreviation (input) squote :: char where "squote \<equiv> CHR 0x27"
abbreviation (input) dquote :: char where "dquote \<equiv> CHR 0x22"
abbreviation (input) newline :: char where "newline \<equiv> CHR 0x0A"

definition starts_with :: "char \<Rightarrow> string \<Rightarrow> bool" where
  "starts_with c s \<longleftrightarrow> (case s of [] \<Rightarrow> False | x # _ \<Rightarrow> x = c)"

lemma starts_with_simps [simp]: "\<not> starts_with c []" "starts_with c (x # s) \<longleftrightarrow> x = c"
  by (simp_all add: starts_with_def)

section \<open>The scanner\<close>

datatype scan_state = Normal | SingleQuoted | DoubleQuoted | LineComment | BlockComment nat | DollarQuoted string

definition parse_dollar_quote_tag :: "string \<Rightarrow> string option" where
  "parse_dollar_quote_tag s =
     (case s of
        [] \<Rightarrow> None
      | c # r \<Rightarrow>
          if c \<noteq> CHR ''$'' then None
          else if starts_with (CHR ''$'') (dropWhile is_word_char r) then Some (c # takeWhile is_word_char r @ [CHR ''$''])
          else None)"

text \<open>One pass of the loop in the state \<open>Normal\<close>: the next state, the tokens pushed, the text left.\<close>

definition normal_step :: "string \<Rightarrow> string + (scan_state \<times> string list \<times> string)" where
  "normal_step s =
     (if prefix ''--'' s then Inr (LineComment, [], drop 2 s)
      else if prefix ''/*'' s then Inr (BlockComment 1, [], drop 2 s)
      else if prefix [CHR ''E'', squote] s \<or> prefix [CHR ''e'', squote] s then Inr (SingleQuoted, [], drop 2 s)
      else if prefix [CHR ''U'', CHR ''&'', squote] s \<or> prefix [CHR ''u'', CHR ''&'', squote] s then Inr (SingleQuoted, [], drop 3 s)
      else if prefix [CHR ''U'', CHR ''&'', dquote] s \<or> prefix [CHR ''u'', CHR ''&'', dquote] s then Inr (DoubleQuoted, [], drop 3 s)
      else if starts_with squote s then Inr (SingleQuoted, [], drop 1 s)
      else if starts_with dquote s then Inr (DoubleQuoted, [], drop 1 s)
      else case parse_dollar_quote_tag s of
        Some tag \<Rightarrow> Inr (DollarQuoted tag, [], drop (length tag) s)
      | None \<Rightarrow>
          if starts_with (CHR '';'') s then Inl ''only a single statement''
          else if is_word_start (hd s) then Inr (Normal, [to_ascii_lowercase (takeWhile is_word_char s)], dropWhile is_word_char s)
          else Inr (Normal, [], drop 1 s))"

definition quoted_step :: "char \<Rightarrow> scan_state \<Rightarrow> string \<Rightarrow> scan_state \<times> string" where
  "quoted_step q st s =
     (if starts_with q s then (if starts_with q (drop 1 s) then (st, drop 2 s) else (Normal, drop 1 s)) else (st, drop 1 s))"

definition scan_step :: "scan_state \<Rightarrow> string \<Rightarrow> string + (scan_state \<times> string list \<times> string)" where
  "scan_step st s =
     (case st of
        Normal \<Rightarrow> normal_step s
      | SingleQuoted \<Rightarrow> (let (st', s') = quoted_step squote SingleQuoted s in Inr (st', [], s'))
      | DoubleQuoted \<Rightarrow> (let (st', s') = quoted_step dquote DoubleQuoted s in Inr (st', [], s'))
      | LineComment \<Rightarrow> Inr (if starts_with newline s then Normal else LineComment, [], drop 1 s)
      | BlockComment depth \<Rightarrow>
          if prefix ''/*'' s then Inr (BlockComment (depth + 1), [], drop 2 s)
          else if prefix ''*/'' s then Inr (if depth - 1 = 0 then Normal else BlockComment (depth - 1), [], drop 2 s)
          else Inr (BlockComment depth, [], drop 1 s)
      | DollarQuoted tag \<Rightarrow> if prefix tag s then Inr (Normal, [], drop (length tag) s) else Inr (DollarQuoted tag, [], drop 1 s))"

lemma span_all: "list_all P n \<Longrightarrow> \<not> P x \<Longrightarrow> takeWhile P (n @ x # r) = n \<and> dropWhile P (n @ x # r) = x # r"
  by (induction n) auto

lemma parse_tag_Some:
  "parse_dollar_quote_tag s = Some tag \<longleftrightarrow> (\<exists>n r. tag = CHR ''$'' # n @ [CHR ''$''] \<and> s = tag @ r \<and> list_all is_word_char n)"
proof
  assume "parse_dollar_quote_tag s = Some tag"
  then obtain r where r: "s = CHR ''$'' # r" "starts_with (CHR ''$'') (dropWhile is_word_char r)" "tag = CHR ''$'' # takeWhile is_word_char r @ [CHR ''$'']"
    by (auto simp: parse_dollar_quote_tag_def split: list.splits if_splits)
  then obtain r' where "dropWhile is_word_char r = CHR ''$'' # r'" by (cases "dropWhile is_word_char r") auto
  then have e: "takeWhile is_word_char r @ CHR ''$'' # r' = r" using takeWhile_dropWhile_id [of is_word_char r] by simp
  have "s = tag @ r'" unfolding r(1,3) using e by simp
  moreover have "list_all is_word_char (takeWhile is_word_char r)" by (auto simp: list_all_iff dest: set_takeWhileD)
  ultimately show "\<exists>n r. tag = CHR ''$'' # n @ [CHR ''$''] \<and> s = tag @ r \<and> list_all is_word_char n"
    using r(3) by blast
next
  assume "\<exists>n r. tag = CHR ''$'' # n @ [CHR ''$''] \<and> s = tag @ r \<and> list_all is_word_char n"
  then obtain n r where s: "tag = CHR ''$'' # n @ [CHR ''$'']" "s = CHR ''$'' # n @ CHR ''$'' # r" "list_all is_word_char n" by auto
  have "\<not> is_word_char (CHR ''$'')" by code_simp
  then show "parse_dollar_quote_tag s = Some tag"
    using span_all [OF s(3)] unfolding s(1,2) by (simp add: parse_dollar_quote_tag_def)
qed

lemma normal_step_shrinks:
  assumes n: "normal_step s = Inr (st, ts, s')" and s: "s \<noteq> []"
  shows "length s' < length s"
proof -
  have drops: "0 < k \<Longrightarrow> length (drop k s) < length s" for k using s by simp
  have word: "is_word_start (hd s) \<Longrightarrow> length (dropWhile is_word_char s) < length s"
  proof -
    assume "is_word_start (hd s)"
    then have "is_word_char (hd s)" by (auto simp: is_word_start_def is_word_char_def)
    then show ?thesis using s length_dropWhile_le [of is_word_char "tl s"] by (cases s) auto
  qed
  have tag: "parse_dollar_quote_tag s = Some tag \<Longrightarrow> 0 < length tag" for tag using parse_tag_Some by auto
  let ?len = "\<lambda>r. case r of Inl _ \<Rightarrow> True | Inr (_, _, s') \<Rightarrow> length s' < length s"
  have "?len (normal_step s)"
    unfolding normal_step_def using drops word tag by (simp split: option.split del: length_drop)
  then show ?thesis using n by simp
qed

function scan :: "scan_state \<Rightarrow> string \<Rightarrow> string + (scan_state \<times> string list)" where
  "scan st s =
     (if s = [] then Inr (st, [])
      else case scan_step st s of
        Inl e \<Rightarrow> Inl e
      | Inr (st', ts, s') \<Rightarrow> (case scan st' s' of Inl e \<Rightarrow> Inl e | Inr (st'', ts') \<Rightarrow> Inr (st'', ts @ ts')))"
  by pat_completeness auto
termination
proof (relation "measures [\<lambda>(st, s). length s, \<lambda>(st, s). if st = Normal then 0 else 1]")
  fix st s x y st' ts s'
  assume "s \<noteq> []" "scan_step st s = Inr x" "(st', y) = x" "(ts, s') = y"
  then have step: "scan_step st s = Inr (st', ts, s')" and s: "s \<noteq> []" by auto
  show "((st', s'), st, s) \<in> measures [\<lambda>(st, s). length s, \<lambda>(st, s). if st = Normal then 0 else 1]"
  proof (cases st)
    case Normal
    then show ?thesis using normal_step_shrinks step s by (simp add: scan_step_def)
  next
    case (DollarQuoted tag)
    then show ?thesis using step s by (cases "tag = []") (auto simp: scan_step_def split: if_splits)
  qed (use step s in \<open>auto simp: scan_step_def quoted_step_def split: if_splits\<close>)
qed simp

declare scan.simps [simp del]

definition collect_sql_tokens :: "string \<Rightarrow> string + string list" where
  "collect_sql_tokens s =
     (case scan Normal s of
        Inl e \<Rightarrow> Inl e
      | Inr (st, ts) \<Rightarrow>
          (case st of
             Normal \<Rightarrow> Inr ts
           | LineComment \<Rightarrow> Inr ts
           | SingleQuoted \<Rightarrow> Inl ''unterminated single-quoted string''
           | DoubleQuoted \<Rightarrow> Inl ''unterminated quoted identifier''
           | BlockComment _ \<Rightarrow> Inl ''unterminated block comment''
           | DollarQuoted _ \<Rightarrow> Inl ''unterminated dollar-quoted string''))"

section \<open>The checks of the tools\<close>

definition FORBIDDEN_READONLY_SQL_KEYWORDS :: "string list" where
  "FORBIDDEN_READONLY_SQL_KEYWORDS =
     [''alter'', ''begin'', ''call'', ''cluster'', ''comment'', ''commit'', ''copy'', ''create'', ''deallocate'', ''delete'',
      ''discard'', ''do'', ''drop'', ''execute'', ''grant'', ''insert'', ''listen'', ''lock'', ''merge'', ''notify'', ''prepare'',
      ''refresh'', ''reindex'', ''release'', ''reset'', ''revoke'', ''rollback'', ''savepoint'', ''set'', ''start'', ''truncate'',
      ''unlisten'', ''update'', ''vacuum'']"

definition EXEC_SQL_KEYWORDS :: "string list" where
  "EXEC_SQL_KEYWORDS =
     [''alter'', ''analyze'', ''call'', ''cluster'', ''comment'', ''copy'', ''create'', ''deallocate'', ''delete'', ''discard'',
      ''do'', ''drop'', ''execute'', ''grant'', ''insert'', ''listen'', ''lock'', ''merge'', ''notify'', ''prepare'', ''refresh'',
      ''reindex'', ''reset'', ''revoke'', ''set'', ''truncate'', ''unlisten'', ''update'', ''vacuum'']"

definition normalize_single_statement_sql :: "string \<Rightarrow> string + string" where
  "normalize_single_statement_sql sql =
     (let trimmed = trim sql
      in if trimmed = [] then Inl ''non-empty sql required''
         else Inr (case strip_suffix '';'' trimmed of Some s \<Rightarrow> trim_end s | None \<Rightarrow> trimmed))"

definition normalize_readonly_sql :: "string \<Rightarrow> string + string" where
  "normalize_readonly_sql sql =
     bind_r (normalize_single_statement_sql sql) (\<lambda>normalized.
       bind_r (collect_sql_tokens normalized) (\<lambda>tokens.
         case tokens of
           [] \<Rightarrow> Inl ''no statement''
         | first # _ \<Rightarrow>
             if first \<notin> {''select'', ''with''} then Inl ''only SELECT or WITH''
             else if first = ''with'' \<and> ''select'' \<notin> set tokens then Inl ''WITH needs SELECT''
             else if list_ex (\<lambda>t. t \<in> set FORBIDDEN_READONLY_SQL_KEYWORDS) tokens then Inl ''forbidden keyword''
             else Inr normalized))"

definition normalize_exec_sql :: "string \<Rightarrow> string + string" where
  "normalize_exec_sql sql =
     bind_r (normalize_single_statement_sql sql) (\<lambda>normalized.
       bind_r (collect_sql_tokens normalized) (\<lambda>tokens.
         case tokens of
           [] \<Rightarrow> Inl ''no statement''
         | first # _ \<Rightarrow>
             if first = ''select'' then Inl ''SELECT not accepted''
             else if first = ''with'' \<and> \<not> list_ex (\<lambda>t. t \<in> set EXEC_SQL_KEYWORDS) tokens then Inl ''read-only WITH''
             else Inr normalized))"

end
