(* ===== verification/Sql_Lexemes.thy ===== *)
theory Sql_Lexemes
  imports Sql_Scanner
begin

text \<open>
  What the scanner of \<open>Sql_Scanner\<close> is to recognise, stated without states or indices: a text is a
  sequence of lexemes, each spelled out and followed by a text that does not extend it. The scanner
  returns the lower-cased words of such a reading, and returns them exactly when there is one.
\<close>

section \<open>Lexemes\<close>

datatype lexeme =
    Word string
  | Quoted string char string
  | Line_Comment string
  | Last_Comment string
  | Block_Comment string
  | Dollar string string
  | Other char

text \<open>Inside quotes, the quote is written twice.\<close>

fun doubled :: "char \<Rightarrow> string \<Rightarrow> string" where
  "doubled q [] = []"
| "doubled q (c # cs) = (if c = q then q # q # doubled q cs else c # doubled q cs)"

text \<open>A text that closes \<open>n\<close> open block comments, and closes the last one with its last two characters.\<close>

inductive closes :: "nat \<Rightarrow> string \<Rightarrow> bool" where
  closes_open: "closes (Suc n) b \<Longrightarrow> closes n (''/*'' @ b)"
| closes_last: "closes 1 ''*/''"
| closes_inner: "closes (Suc n) b \<Longrightarrow> closes (Suc (Suc n)) (''*/'' @ b)"
| closes_char: "closes n b \<Longrightarrow> \<not> prefix ''/*'' (c # b) \<Longrightarrow> \<not> prefix ''*/'' (c # b) \<Longrightarrow> closes n (c # b)"

definition dollar_tag :: "string \<Rightarrow> bool" where
  "dollar_tag tag \<longleftrightarrow> (\<exists>n. tag = CHR ''$'' # n @ [CHR ''$''] \<and> list_all is_word_char n)"

definition string_prefixes :: "string set" where
  "string_prefixes = {[], ''E'', ''e'', ''U&'', ''u&''}"

definition ident_prefixes :: "string set" where
  "ident_prefixes = {[], ''U&'', ''u&''}"

fun spell :: "lexeme \<Rightarrow> string" where
  "spell (Word w) = w"
| "spell (Quoted p q b) = p @ q # doubled q b @ [q]"
| "spell (Line_Comment b) = ''--'' @ b @ [newline]"
| "spell (Last_Comment b) = ''--'' @ b"
| "spell (Block_Comment b) = ''/*'' @ b"
| "spell (Dollar tag b) = tag @ b @ tag"
| "spell (Other c) = [c]"

text \<open>\<open>fits l r\<close>: the lexeme \<open>l\<close> can stand before the text \<open>r\<close>.\<close>

fun fits :: "lexeme \<Rightarrow> string \<Rightarrow> bool" where
  "fits (Word w) r \<longleftrightarrow>
     w \<noteq> [] \<and> is_word_start (hd w) \<and> list_all is_word_char w \<and> (\<forall>c r'. r = c # r' \<longrightarrow> \<not> is_word_char c) \<and>
     \<not> (w \<in> {''E'', ''e''} \<and> starts_with squote r) \<and>
     \<not> (w \<in> {''U'', ''u''} \<and> (prefix [CHR ''&'', squote] r \<or> prefix [CHR ''&'', dquote] r))"
| "fits (Quoted p q b) r \<longleftrightarrow>
     (q = squote \<and> p \<in> string_prefixes \<or> q = dquote \<and> p \<in> ident_prefixes) \<and> \<not> starts_with q r"
| "fits (Line_Comment b) r \<longleftrightarrow> newline \<notin> set b"
| "fits (Last_Comment b) r \<longleftrightarrow> newline \<notin> set b \<and> r = []"
| "fits (Block_Comment b) r \<longleftrightarrow> closes 1 b"
| "fits (Dollar tag b) r \<longleftrightarrow> dollar_tag tag \<and> (\<forall>k < length b. \<not> prefix tag (drop k (b @ tag)))"
| "fits (Other c) r \<longleftrightarrow>
     c \<notin> {squote, dquote, CHR '';''} \<and> \<not> is_word_start c \<and> \<not> (c = CHR ''-'' \<and> starts_with (CHR ''-'') r) \<and>
     \<not> (c = CHR ''/'' \<and> starts_with (CHR ''*'') r) \<and> \<not> (\<exists>tag t. dollar_tag tag \<and> c # r = tag @ t)"

inductive reads :: "string \<Rightarrow> lexeme list \<Rightarrow> bool" where
  reads_end: "reads [] []"
| reads_next: "fits l r \<Longrightarrow> reads r ls \<Longrightarrow> reads (spell l @ r) (l # ls)"

definition words_of :: "lexeme \<Rightarrow> string list" where
  "words_of l = (case l of Word w \<Rightarrow> [to_ascii_lowercase w] | _ \<Rightarrow> [])"

section \<open>The scanner from a state\<close>

definition finish :: "scan_state \<Rightarrow> string + string list" where
  "finish st = (case st of
             Normal \<Rightarrow> Inr []
           | LineComment \<Rightarrow> Inr []
           | SingleQuoted \<Rightarrow> Inl ''unterminated single-quoted string''
           | DoubleQuoted \<Rightarrow> Inl ''unterminated quoted identifier''
           | BlockComment _ \<Rightarrow> Inl ''unterminated block comment''
           | DollarQuoted _ \<Rightarrow> Inl ''unterminated dollar-quoted string'')"

definition push :: "string list \<Rightarrow> string + string list \<Rightarrow> string + string list" where
  "push ts r = bind_r r (\<lambda>ts'. Inr (ts @ ts'))"

definition collect_from :: "scan_state \<Rightarrow> string \<Rightarrow> string + string list" where
  "collect_from st s = bind_r (scan st s) (\<lambda>(st', ts). push ts (finish st'))"

lemma push_simps [simp]: "push ts (Inl e) = Inl e" "push ts (Inr ts') = Inr (ts @ ts')" "push [] r = r"
  by (simp_all add: push_def) (cases r; simp)

lemma push_push: "push ts (push us r) = push (ts @ us) r"
  by (cases r) simp_all

lemma push_Inr: "push ts r = Inr us \<longleftrightarrow> (\<exists>vs. r = Inr vs \<and> us = ts @ vs)"
  by (cases r) auto

lemma collect_is: "collect_sql_tokens s = collect_from Normal s"
proof -
  have "(case st of
             Normal \<Rightarrow> Inr ts
           | LineComment \<Rightarrow> Inr ts
           | SingleQuoted \<Rightarrow> Inl ''unterminated single-quoted string''
           | DoubleQuoted \<Rightarrow> Inl ''unterminated quoted identifier''
           | BlockComment _ \<Rightarrow> Inl ''unterminated block comment''
           | DollarQuoted _ \<Rightarrow> Inl ''unterminated dollar-quoted string'') = push ts (finish st)" for st ts
    by (cases st) (simp_all add: finish_def)
  then show ?thesis by (auto simp: collect_sql_tokens_def collect_from_def split: sum.split)
qed

lemma collect_from_end: "collect_from st [] = finish st"
  by (simp add: collect_from_def scan.simps)

lemma collect_from_step:
  "s \<noteq> [] \<Longrightarrow> collect_from st s = bind_r (scan_step st s) (\<lambda>(st', ts, s'). push ts (collect_from st' s'))"
  by (subst collect_from_def, subst scan.simps)
     (auto simp: collect_from_def push_push split: sum.split)

section \<open>The scanner inside a lexeme\<close>

definition quote_state :: "char \<Rightarrow> scan_state" where
  "quote_state q = (if q = squote then SingleQuoted else DoubleQuoted)"

lemma quote_step: "q = squote \<or> q = dquote \<Longrightarrow> scan_step (quote_state q) s = (let (st', s') = quoted_step q (quote_state q) s in Inr (st', [], s'))"
  by (auto simp: scan_step_def quote_state_def)

lemma starts_with_Cons: "starts_with q s \<Longrightarrow> \<exists>r. s = q # r"
  by (cases s) auto

lemma collect_quoted:
  assumes q: "q = squote \<or> q = dquote" and r: "\<not> starts_with q r"
  shows "collect_from (quote_state q) (doubled q b @ q # r) = collect_from Normal r"
proof (induction b)
  case Nil
  show ?case using r q by (simp add: collect_from_step quote_step quoted_step_def)
next
  case (Cons c b)
  then show ?case using q by (auto simp: collect_from_step quote_step quoted_step_def)
qed

lemma collect_quoted_only:
  assumes q: "q = squote \<or> q = dquote"
  shows "collect_from (quote_state q) s = Inr ts \<Longrightarrow> \<exists>b r. s = doubled q b @ q # r \<and> \<not> starts_with q r"
proof (induction s rule: length_induct)
  case (1 s)
  show ?case
  proof (cases s)
    case Nil
    then show ?thesis using 1 q by (auto simp: collect_from_end quote_state_def finish_def)
  next
    case (Cons c s1)
    note c = this
    show ?thesis
    proof (cases "c = q")
      case False
      then have "collect_from (quote_state q) s1 = Inr ts"
        using 1(2) q c by (simp add: collect_from_step quote_step quoted_step_def)
      then obtain b r where "s1 = doubled q b @ q # r" "\<not> starts_with q r" using 1(1) c by auto
      then show ?thesis using c False by (intro exI [of _ "c # b"] exI [of _ r]) simp
    next
      case True
      note cq = this
      show ?thesis
      proof (cases "starts_with q s1")
        case True
        then obtain s2 where s2: "s1 = q # s2" using starts_with_Cons by blast
        then have "collect_from (quote_state q) s2 = Inr ts"
          using 1(2) q c cq by (simp add: collect_from_step quote_step quoted_step_def)
        moreover have "length s2 < length s" using c s2 by simp
        ultimately obtain b r where "s2 = doubled q b @ q # r" "\<not> starts_with q r" using 1(1) by blast
        then show ?thesis using c cq s2 by (intro exI [of _ "q # b"] exI [of _ r]) simp
      next
        case False
        then show ?thesis using c cq by (intro exI [of _ "[]"] exI [of _ s1]) simp
      qed
    qed
  qed
qed

lemma collect_line: "newline \<notin> set b \<Longrightarrow> collect_from LineComment (b @ newline # r) = collect_from Normal r"
  by (induction b) (auto simp: collect_from_step scan_step_def)

lemma collect_last: "newline \<notin> set b \<Longrightarrow> collect_from LineComment b = Inr []"
  by (induction b) (auto simp: collect_from_step collect_from_end finish_def scan_step_def)

lemma closes_long: "closes n b \<Longrightarrow> \<exists>c d b'. b = c # d # b'"
  by (induction rule: closes.induct) auto

lemma block_char:
  "\<not> prefix ''/*'' (c # t) \<Longrightarrow> \<not> prefix ''*/'' (c # t) \<Longrightarrow> collect_from (BlockComment n) (c # t) = collect_from (BlockComment n) t"
  by (simp add: collect_from_step scan_step_def del: Cons_prefix_Cons)

lemma collect_block: "closes n b \<Longrightarrow> collect_from (BlockComment n) (b @ r) = collect_from Normal r"
proof (induction rule: closes.induct)
  case (closes_char n b c)
  obtain d e b' where b: "b = d # e # b'" using closes_long [OF closes_char(1)] by blast
  have "collect_from (BlockComment n) ((c # b) @ r) = collect_from (BlockComment n) (b @ r)"
    using block_char [of c "b @ r" n] closes_char(2,3) unfolding b by simp
  then show ?case using closes_char(4) by simp
qed (simp_all add: collect_from_step scan_step_def)

lemma collect_block_only:
  "collect_from (BlockComment n) s = Inr ts \<Longrightarrow> n \<noteq> 0 \<Longrightarrow> \<exists>b r. s = b @ r \<and> closes n b"
proof (induction s arbitrary: n rule: length_induct)
  case (1 s)
  show ?case
  proof (cases "s = []")
    case True
    then show ?thesis using 1 by (simp add: collect_from_end finish_def)
  next
    case False
    consider t where "s = ''/*'' @ t" | t where "s = ''*/'' @ t"
      | c t where "\<not> prefix ''/*'' s" "\<not> prefix ''*/'' s" "s = c # t"
      using False by (meson list.exhaust prefix_def)
    then show ?thesis
    proof cases
      case (1 t)
      then have "collect_from (BlockComment (Suc n)) t = Inr ts"
        using "1.prems"(1) by (simp add: collect_from_step scan_step_def)
      moreover have "length t < length s" using 1 by simp
      ultimately obtain b r where "t = b @ r" "closes (Suc n) b" using "1.IH" by blast
      then show ?thesis using 1 closes_open [of n b] by (intro exI [of _ "''/*'' @ b"] exI [of _ r]) simp
    next
      case (2 t)
      show ?thesis
      proof (cases "n = 1")
        case True
        then show ?thesis using 2 closes_last by (intro exI [of _ "''*/''"] exI [of _ t]) simp
      next
        case False
        then obtain m where m: "n = Suc (Suc m)" using "1.prems"(2) by (metis One_nat_def not0_implies_Suc)
        then have "collect_from (BlockComment (Suc m)) t = Inr ts"
          using "1.prems"(1) 2 by (simp add: collect_from_step scan_step_def)
        moreover have "length t < length s" using 2 by simp
        ultimately obtain b r where "t = b @ r" "closes (Suc m) b" using "1.IH" by blast
        then show ?thesis using 2 m closes_inner [of m b] by (intro exI [of _ "''*/'' @ b"] exI [of _ r]) simp
      qed
    next
      case (3 c t)
      then have "collect_from (BlockComment n) t = Inr ts"
        using "1.prems"(1) block_char [of c t n] by simp
      moreover have "length t < length s" using 3 by simp
      ultimately obtain b r where b: "t = b @ r" "closes n b" using "1.IH" "1.prems"(2) by blast
      have "prefix (c # b) s" using b(1) 3(3) by simp
      then have "\<not> prefix ''/*'' (c # b)" "\<not> prefix ''*/'' (c # b)" using 3(1,2) prefix_order.trans by blast+
      then show ?thesis using closes_char [OF b(2)] b(1) 3(3) by (intro exI [of _ "c # b"] exI [of _ r]) simp
    qed
  qed
qed

lemma dollar_tag_ne: "dollar_tag tag \<Longrightarrow> tag \<noteq> []"
  by (auto simp: dollar_tag_def)

lemma prefix_late: "k \<le> length b \<Longrightarrow> prefix tag (drop k (b @ tag @ r)) \<longleftrightarrow> prefix tag (drop k (b @ tag))"
proof -
  assume k: "k \<le> length b"
  have "drop k (b @ tag @ r) = drop k (b @ tag) @ r" using k by simp
  moreover have "length tag \<le> length (drop k (b @ tag))" using k by simp
  ultimately show ?thesis by (metis prefix_append prefix_length_prefix prefix_order.eq_refl prefixI)
qed

lemma collect_dollar:
  "tag \<noteq> [] \<Longrightarrow> \<forall>k < length b. \<not> prefix tag (drop k (b @ tag)) \<Longrightarrow>
   collect_from (DollarQuoted tag) (b @ tag @ r) = collect_from Normal r"
proof (induction b)
  case Nil
  then show ?case by (simp add: collect_from_step scan_step_def)
next
  case (Cons c b)
  have "\<not> prefix tag ((c # b) @ tag @ r)" using Cons.prems(2) prefix_late [of 0 "c # b" tag r] by auto
  moreover have "\<forall>k < length b. \<not> prefix tag (drop k (b @ tag))" using Cons.prems(2) by auto
  ultimately show ?case using Cons.IH Cons.prems(1) by (simp add: collect_from_step scan_step_def)
qed

lemma collect_dollar_only:
  "collect_from (DollarQuoted tag) s = Inr ts \<Longrightarrow> \<exists>b r. s = b @ tag @ r \<and> (\<forall>k < length b. \<not> prefix tag (drop k (b @ tag)))"
proof (induction s)
  case Nil
  then show ?case by (simp add: collect_from_end finish_def)
next
  case (Cons c s)
  show ?case
  proof (cases "prefix tag (c # s)")
    case True
    then obtain r where "c # s = tag @ r" by (auto simp: prefix_def)
    then show ?thesis by (intro exI [of _ "[]"] exI [of _ r]) simp
  next
    case False
    then have "collect_from (DollarQuoted tag) s = Inr ts" using Cons.prems by (simp add: collect_from_step scan_step_def)
    then obtain b r where b: "s = b @ tag @ r" "\<forall>k < length b. \<not> prefix tag (drop k (b @ tag))" using Cons.IH by auto
    have "\<not> prefix tag ((c # b) @ tag)" using False b(1) prefix_late [of 0 "c # b" tag r] by simp
    then have "\<forall>k < length (c # b). \<not> prefix tag (drop k ((c # b) @ tag))"
      using b(2) by (auto simp: less_Suc_eq_0_disj)
    then show ?thesis using b(1) by (intro exI [of _ "c # b"] exI [of _ r]) simp
  qed
qed

section \<open>The scanner at the start of a lexeme\<close>

lemma parse_is_tag: "parse_dollar_quote_tag s = Some tag \<longleftrightarrow> dollar_tag tag \<and> prefix tag s"
  unfolding parse_tag_Some dollar_tag_def prefix_def by blast

lemma parse_no_tag: "parse_dollar_quote_tag s = None \<longleftrightarrow> \<not> (\<exists>tag t. dollar_tag tag \<and> s = tag @ t)"
proof -
  have "parse_dollar_quote_tag s = None \<longleftrightarrow> (\<forall>tag. parse_dollar_quote_tag s \<noteq> Some tag)" by simp
  then show ?thesis unfolding parse_is_tag prefix_def by blast
qed

lemma parse_no_dollar: "c \<noteq> CHR ''$'' \<Longrightarrow> parse_dollar_quote_tag (c # r) = None"
  by (simp add: parse_dollar_quote_tag_def)

lemma not_word_starts [simp]:
  "\<not> is_word_start (CHR ''-'')" "\<not> is_word_start (CHR ''/'')" "\<not> is_word_start (CHR ''$'')" "\<not> is_word_start squote"
  "\<not> is_word_start dquote" "\<not> is_word_start (CHR '';'')" "\<not> is_word_char (CHR ''&'')" "\<not> is_word_char squote" "\<not> is_word_char dquote"
  "is_word_start (CHR ''E'')" "is_word_start (CHR ''e'')" "is_word_start (CHR ''U'')" "is_word_start (CHR ''u'')"
  "\<not> is_word_char (CHR ''-'')" "\<not> is_word_char (CHR ''/'')" "\<not> is_word_char (CHR ''$'')" "\<not> is_word_char (CHR '';'')"
  by code_simp+

lemma word_start_char: "is_word_start c \<Longrightarrow> is_word_char c"
  by (auto simp: is_word_start_def is_word_char_def)

lemma prefix_one: "prefix [c] s \<longleftrightarrow> starts_with c s"
  by (cases s) auto

lemma prefix_two: "prefix [c, d] s \<longleftrightarrow> (\<exists>t. s = c # t \<and> starts_with d t)"
  by (cases s) (auto simp: prefix_one)

lemma normal_word:
  assumes "fits (Word w) r"
  shows "normal_step (w @ r) = Inr (Normal, [to_ascii_lowercase w], r)"
proof -
  obtain c w' where w: "w = c # w'" using assms by (cases w) auto
  have c: "is_word_start c" and all: "list_all is_word_char (c # w')" using assms w by auto
  have stop: "takeWhile is_word_char (w @ r) = w \<and> dropWhile is_word_char (w @ r) = r"
    using assms all w span_all [of is_word_char w] by (cases r) (auto simp: list_all_iff)
  have ne: "c \<noteq> CHR ''-''" "c \<noteq> CHR ''/''" "c \<noteq> CHR ''$''" "c \<noteq> squote" "c \<noteq> dquote" "c \<noteq> CHR '';''"
    using c by (auto simp del: One_nat_def)
  have E: "\<not> (c \<in> {CHR ''E'', CHR ''e''} \<and> starts_with squote (w' @ r))"
    using assms all unfolding w by (cases w') auto
  have U: "\<not> (c \<in> {CHR ''U'', CHR ''u''} \<and> (prefix [CHR ''&'', squote] (w' @ r) \<or> prefix [CHR ''&'', dquote] (w' @ r)))"
    using assms all unfolding w by (cases w') auto
  have "\<not> prefix ''--'' (w @ r)" "\<not> prefix ''/*'' (w @ r)" "\<not> starts_with squote (w @ r)" "\<not> starts_with dquote (w @ r)"
    "\<not> starts_with (CHR '';'') (w @ r)" "parse_dollar_quote_tag (w @ r) = None" "is_word_start (hd (w @ r))"
    using ne c w by (simp_all add: parse_no_dollar)
  moreover have "\<not> prefix [CHR ''E'', squote] (w @ r)" "\<not> prefix [CHR ''e'', squote] (w @ r)"
    using E w by (auto simp: prefix_one)
  moreover have "\<not> prefix [CHR ''U'', CHR ''&'', squote] (w @ r)" "\<not> prefix [CHR ''u'', CHR ''&'', squote] (w @ r)"
    "\<not> prefix [CHR ''U'', CHR ''&'', dquote] (w @ r)" "\<not> prefix [CHR ''u'', CHR ''&'', dquote] (w @ r)"
    using U w by auto
  ultimately show ?thesis using stop unfolding normal_step_def by simp
qed

lemma normal_other:
  assumes "fits (Other c) r"
  shows "normal_step (c # r) = Inr (Normal, [], r)"
proof -
  have ne: "c \<noteq> squote" "c \<noteq> dquote" "c \<noteq> CHR '';''" "\<not> is_word_start c" using assms by auto
  have nw: "c \<noteq> CHR ''E''" "c \<noteq> CHR ''e''" "c \<noteq> CHR ''U''" "c \<noteq> CHR ''u''" using ne(4) by auto
  have cm: "\<not> prefix ''--'' (c # r)" "\<not> prefix ''/*'' (c # r)" using assms by (auto simp: prefix_one)
  have "parse_dollar_quote_tag (c # r) = None" using assms by (simp add: parse_no_tag)
  then show ?thesis using ne nw cm unfolding normal_step_def by simp
qed

lemma normal_quotes:
  "normal_step (squote # t) = Inr (SingleQuoted, [], t)"
  "normal_step (CHR ''E'' # squote # t) = Inr (SingleQuoted, [], t)"
  "normal_step (CHR ''e'' # squote # t) = Inr (SingleQuoted, [], t)"
  "normal_step (CHR ''U'' # CHR ''&'' # squote # t) = Inr (SingleQuoted, [], t)"
  "normal_step (CHR ''u'' # CHR ''&'' # squote # t) = Inr (SingleQuoted, [], t)"
  "normal_step (dquote # t) = Inr (DoubleQuoted, [], t)"
  "normal_step (CHR ''U'' # CHR ''&'' # dquote # t) = Inr (DoubleQuoted, [], t)"
  "normal_step (CHR ''u'' # CHR ''&'' # dquote # t) = Inr (DoubleQuoted, [], t)"
  by (simp_all add: normal_step_def)

lemma normal_quoted:
  "q = squote \<and> p \<in> string_prefixes \<or> q = dquote \<and> p \<in> ident_prefixes \<Longrightarrow> normal_step (p @ q # t) = Inr (quote_state q, [], t)"
  unfolding string_prefixes_def ident_prefixes_def quote_state_def by (elim disjE conjE insertE emptyE; simp add: normal_quotes)

lemma normal_dollar: "dollar_tag tag \<Longrightarrow> normal_step (tag @ t) = Inr (DollarQuoted tag, [], t)"
proof -
  assume d: "dollar_tag tag"
  then obtain n where n: "tag = CHR ''$'' # n" by (auto simp: dollar_tag_def)
  have "parse_dollar_quote_tag (tag @ t) = Some tag" using d by (simp add: parse_is_tag)
  then show ?thesis using n unfolding normal_step_def by simp
qed

lemma collect_lexeme: "fits l r \<Longrightarrow> collect_from Normal (spell l @ r) = push (words_of l) (collect_from Normal r)"
proof (cases l)
  case (Word w)
  assume f: "fits l r"
  then have "w @ r \<noteq> []" using Word by simp
  then show ?thesis using normal_word [of w r] f Word by (simp add: collect_from_step scan_step_def words_of_def)
next
  case (Quoted p q b)
  assume f: "fits l r"
  then have q: "q = squote \<and> p \<in> string_prefixes \<or> q = dquote \<and> p \<in> ident_prefixes" using Quoted by simp
  have "collect_from Normal (spell l @ r) = collect_from (quote_state q) (doubled q b @ q # r)"
    using normal_quoted [OF q, of "doubled q b @ q # r"] Quoted by (simp add: collect_from_step scan_step_def)
  then show ?thesis using collect_quoted [of q r b] q f Quoted by (auto simp: words_of_def)
next
  case (Line_Comment b)
  assume f: "fits l r"
  then show ?thesis
    using collect_line [of b r] Line_Comment by (simp add: collect_from_step scan_step_def normal_step_def words_of_def)
next
  case (Last_Comment b)
  assume f: "fits l r"
  then show ?thesis
    using collect_last [of b] Last_Comment
    by (simp add: collect_from_step collect_from_end finish_def scan_step_def normal_step_def words_of_def)
next
  case (Block_Comment b)
  assume f: "fits l r"
  then show ?thesis
    using collect_block [of 1 b r] Block_Comment by (simp add: collect_from_step scan_step_def normal_step_def words_of_def)
next
  case (Dollar tag b)
  assume f: "fits l r"
  then have "dollar_tag tag" "tag \<noteq> []" using Dollar dollar_tag_ne by auto
  then show ?thesis
    using normal_dollar [of tag "b @ tag @ r"] collect_dollar [of tag b r] f Dollar
    by (simp add: collect_from_step scan_step_def words_of_def)
next
  case (Other c)
  assume f: "fits l r"
  then show ?thesis using normal_other [of c r] Other by (simp add: collect_from_step scan_step_def words_of_def)
qed

text \<open>Conversely, a text on which the scanner does not fail starts with a lexeme.\<close>

lemma quoted_lexeme:
  assumes "collect_from Normal (p @ q # t) = Inr ts" "q = squote \<and> p \<in> string_prefixes \<or> q = dquote \<and> p \<in> ident_prefixes"
  shows "\<exists>l r. p @ q # t = spell l @ r \<and> fits l r"
proof -
  have qq: "q = squote \<or> q = dquote" using assms(2) by (elim disjE conjE) simp_all
  have "collect_from (quote_state q) t = Inr ts"
    using assms normal_quoted [OF assms(2)] by (simp add: collect_from_step scan_step_def)
  then have "\<exists>b r. t = doubled q b @ q # r \<and> \<not> starts_with q r" by (rule collect_quoted_only [OF qq])
  then obtain b r where "t = doubled q b @ q # r" "\<not> starts_with q r" by (elim exE conjE)
  then have "p @ q # t = spell (Quoted p q b) @ r \<and> fits (Quoted p q b) r"
    using assms(2) unfolding fits.simps by simp
  then show ?thesis by blast
qed

lemma comment_lexeme: "\<exists>l r. ''--'' @ t = spell l @ r \<and> fits l r"
proof (cases "newline \<in> set t")
  case True
  then obtain b r where "t = b @ newline # r" "newline \<notin> set b" using split_list_first by fastforce
  then show ?thesis by (intro exI [of _ "Line_Comment b"] exI [of _ r]) simp
next
  case False
  then show ?thesis by (intro exI [of _ "Last_Comment t"] exI [of _ "[]"]) simp
qed

lemma block_lexeme:
  assumes "collect_from Normal (''/*'' @ t) = Inr ts"
  shows "\<exists>l r. ''/*'' @ t = spell l @ r \<and> fits l r"
proof -
  have "collect_from (BlockComment 1) t = Inr ts" using assms by (simp add: collect_from_step scan_step_def normal_step_def)
  then obtain b r where "t = b @ r" "closes 1 b" using collect_block_only by blast
  then show ?thesis by (intro exI [of _ "Block_Comment b"] exI [of _ r]) simp
qed

lemma dollar_lexeme:
  assumes "collect_from Normal (tag @ t) = Inr ts" "dollar_tag tag"
  shows "\<exists>l r. tag @ t = spell l @ r \<and> fits l r"
proof -
  have "tag \<noteq> []" using assms(2) dollar_tag_ne by blast
  then have "collect_from (DollarQuoted tag) t = Inr ts"
    using assms normal_dollar by (simp add: collect_from_step scan_step_def)
  then obtain b r where "t = b @ tag @ r" "\<forall>k < length b. \<not> prefix tag (drop k (b @ tag))" using collect_dollar_only by blast
  then show ?thesis using assms(2) by (intro exI [of _ "Dollar tag b"] exI [of _ r]) simp
qed

lemma word_lexeme:
  assumes c: "is_word_start c"
    and nq: "\<not> (c \<in> {CHR ''E'', CHR ''e''} \<and> starts_with squote t)"
    and nu: "\<not> (c \<in> {CHR ''U'', CHR ''u''} \<and> (prefix [CHR ''&'', squote] t \<or> prefix [CHR ''&'', dquote] t))"
  shows "\<exists>l r. c # t = spell l @ r \<and> fits l r"
proof -
  let ?w = "takeWhile is_word_char t" and ?r = "dropWhile is_word_char t"
  have all: "list_all is_word_char (c # ?w)" using c word_start_char by (auto simp: list_all_iff dest: set_takeWhileD)
  have stop: "?r = d # r' \<Longrightarrow> \<not> is_word_char d" for d r' by (metis hd_dropWhile list.distinct(1) list.sel(1))
  have "?w = [] \<Longrightarrow> ?r = t" by (metis append_Nil takeWhile_dropWhile_id)
  then have "fits (Word (c # ?w)) ?r" using c all stop nq nu by auto
  then show ?thesis by (intro exI [of _ "Word (c # ?w)"] exI [of _ ?r]) simp
qed

lemma other_lexeme:
  assumes "c \<notin> {squote, dquote, CHR '';''}" "\<not> is_word_start c" "\<not> prefix ''--'' (c # t)" "\<not> prefix ''/*'' (c # t)"
    "\<not> (\<exists>tag t'. dollar_tag tag \<and> c # t = tag @ t')"
  shows "\<exists>l r. c # t = spell l @ r \<and> fits l r"
proof -
  have "\<not> (c = CHR ''-'' \<and> starts_with (CHR ''-'') t)" "\<not> (c = CHR ''/'' \<and> starts_with (CHR ''*'') t)"
    using assms(3,4) by (auto simp: prefix_one)
  then have "fits (Other c) t" using assms(1,2,5) unfolding fits.simps by blast
  then show ?thesis by (intro exI [of _ "Other c"] exI [of _ t]) simp
qed

lemma some_lexeme:
  assumes s: "s \<noteq> []" and ok: "collect_from Normal s = Inr ts"
  shows "\<exists>l r. s = spell l @ r \<and> fits l r"
proof -
  obtain c t where ct: "s = c # t" using s by (cases s) auto
  consider "prefix ''--'' s" | "prefix ''/*'' s"
    | p q u where "s = p @ q # u" "q = squote \<and> p \<in> string_prefixes \<or> q = dquote \<and> p \<in> ident_prefixes"
    | tag u where "s = tag @ u" "dollar_tag tag"
    | "\<not> prefix ''--'' s" "\<not> prefix ''/*'' s"
      "\<not> (\<exists>p q u. s = p @ q # u \<and> (q = squote \<and> p \<in> string_prefixes \<or> q = dquote \<and> p \<in> ident_prefixes))"
      "\<not> (\<exists>tag u. dollar_tag tag \<and> s = tag @ u)"
    by blast
  then show ?thesis
  proof cases
    case 1
    then obtain u where "s = ''--'' @ u" by (rule prefixE)
    then show ?thesis using comment_lexeme by simp
  next
    case 2
    then obtain u where "s = ''/*'' @ u" by (rule prefixE)
    then show ?thesis using block_lexeme ok by blast
  next
    case 3
    then show ?thesis using quoted_lexeme ok by blast
  next
    case 4
    then show ?thesis using dollar_lexeme ok by blast
  next
    case 5
    have noq: "s \<noteq> p @ q # u" if "q = squote \<and> p \<in> string_prefixes \<or> q = dquote \<and> p \<in> ident_prefixes" for p q u
      using 5(3) that by blast
    have nq: "c \<noteq> squote" "c \<noteq> dquote"
      using noq [of squote "[]" t] noq [of dquote "[]" t] ct by (simp_all add: string_prefixes_def ident_prefixes_def)
    show ?thesis
    proof (cases "is_word_start c")
      case True
      have "\<not> (c \<in> {CHR ''E'', CHR ''e''} \<and> starts_with squote t)"
        using noq [of squote "[c]" "tl t"] ct by (auto simp: string_prefixes_def dest!: starts_with_Cons)
      moreover have "\<not> (c \<in> {CHR ''U'', CHR ''u''} \<and> (prefix [CHR ''&'', squote] t \<or> prefix [CHR ''&'', dquote] t))"
        using noq [of squote "[c, CHR ''&'']" "drop 2 t"] noq [of dquote "[c, CHR ''&'']" "drop 2 t"] ct
        by (auto simp: string_prefixes_def ident_prefixes_def prefix_def)
      ultimately show ?thesis using word_lexeme [OF True] ct by blast
    next
      case False
      have "c \<noteq> CHR '';''"
      proof
        assume "c = CHR '';''"
        then have "normal_step s = Inl ''only a single statement''" using ct by (simp add: normal_step_def parse_no_dollar)
        then show False using ok s by (simp add: collect_from_step scan_step_def)
      qed
      then have "c \<notin> {squote, dquote, CHR '';''}" using nq by blast
      then show ?thesis using other_lexeme [OF _ False] 5(1,2,4) unfolding ct by blast
    qed
  qed
qed

section \<open>The scanner agrees with the grammar\<close>

lemma spell_ne: "fits l r \<Longrightarrow> spell l \<noteq> []"
  by (cases l) (auto simp: dollar_tag_def)

lemma reads_words: "reads s ls \<Longrightarrow> collect_sql_tokens s = Inr (concat (map words_of ls))"
  unfolding collect_is
  by (induction rule: reads.induct) (simp_all add: collect_from_end finish_def collect_lexeme)

lemma tokens_reads: "collect_sql_tokens s = Inr ts \<Longrightarrow> \<exists>ls. reads s ls"
proof (induction s arbitrary: ts rule: length_induct)
  case (1 s)
  show ?case
  proof (cases "s = []")
    case True
    then show ?thesis using reads_end by blast
  next
    case False
    then obtain l r where l: "s = spell l @ r" "fits l r" using some_lexeme 1(2) unfolding collect_is by blast
    then obtain us where "collect_sql_tokens r = Inr us" using 1(2) collect_lexeme [of l r] unfolding collect_is by (auto simp: push_Inr)
    moreover have "length r < length s" using l spell_ne by simp
    ultimately obtain ls where "reads r ls" using 1(1) by blast
    then show ?thesis using reads_next l by blast
  qed
qed

lemma tokens_iff: "collect_sql_tokens s = Inr ts \<longleftrightarrow> (\<exists>ls. reads s ls \<and> ts = concat (map words_of ls))"
  using reads_words tokens_reads by fastforce

end
