(* ===== verification/Sql_Properties.thy ===== *)
theory Sql_Properties
  imports Sql_Lexemes
begin

text \<open>
  The properties of the SQL guard: the scanner returns the words of the lexical grammar, the read-only
  check accepts exactly the single statements it is meant to accept, what both tools accept, and the
  escape strings that the scanner reads differently from the database.
\<close>

section \<open>One statement\<close>

lemma single_statement_iff:
  "normalize_single_statement_sql sql = Inr s \<longleftrightarrow>
     trim sql \<noteq> [] \<and> ((\<exists>t. trim sql = t @ '';'' \<and> s = trim_end t) \<or> \<not> suffix '';'' (trim sql) \<and> s = trim sql)"
proof (cases "suffix '';'' (trim sql)")
  case True
  then obtain t where "trim sql = t @ '';''" by (auto simp: suffix_def)
  then show ?thesis by (auto simp: normalize_single_statement_sql_def strip_suffix_def)
next
  case False
  then have "\<nexists>t. trim sql = t @ '';''" by (auto simp: suffix_def)
  moreover have "strip_suffix '';'' (trim sql) = None" using False by (simp add: strip_suffix_def)
  ultimately show ?thesis using False by (auto simp: normalize_single_statement_sql_def Let_def split: if_splits)
qed

lemma single_statement_plain:
  assumes "s \<noteq> []" "visible (hd s)" "visible (last s)" "last s \<noteq> CHR '';''"
  shows "normalize_single_statement_sql s = Inr s"
proof -
  have "trim s = s" using assms by (simp add: trim_visible)
  moreover have "\<not> suffix '';'' s" using assms(4) by (auto simp: suffix_def)
  ultimately show ?thesis using assms(1) by (simp add: normalize_single_statement_sql_def strip_suffix_def)
qed

section \<open>The scanner\<close>

text \<open>
  C26. The scanner agrees with the lexical grammar: it returns a list of words exactly when the text is a
  sequence of lexemes (words, quoted texts, comments nested to any depth, dollar-quoted texts, single
  characters other than a semicolon), and then returns the lower-cased words of that sequence; what
  stands inside quotes and comments is never returned.
\<close>

theorem scanner_agrees_with_grammar:
  "collect_sql_tokens s = Inr ts \<longleftrightarrow> (\<exists>ls. reads s ls \<and> ts = concat (map words_of ls))"
  by (rule tokens_iff)

section \<open>The checks\<close>

lemma readonly_iff:
  "normalize_readonly_sql sql = Inr s \<longleftrightarrow>
     normalize_single_statement_sql sql = Inr s \<and>
     (\<exists>first rest. collect_sql_tokens s = Inr (first # rest) \<and>
        (first = ''select'' \<or> first = ''with'' \<and> ''select'' \<in> set rest) \<and>
        set (first # rest) \<inter> set FORBIDDEN_READONLY_SQL_KEYWORDS = {})"
proof -
  have dis: "list_ex (\<lambda>t. t \<in> set FORBIDDEN_READONLY_SQL_KEYWORDS) ts \<longleftrightarrow> set ts \<inter> set FORBIDDEN_READONLY_SQL_KEYWORDS \<noteq> {}" for ts
    unfolding list_ex_iff by blast
  have if_Inr: "(if c then Inl e else x) = Inr (z :: string) \<longleftrightarrow> \<not> c \<and> x = Inr z" for c and e :: string and x z by simp
  have list: "(case ts of [] \<Rightarrow> Inl e | first # rest \<Rightarrow> f first rest) = Inr (z :: string) \<longleftrightarrow> (\<exists>first rest. ts = first # rest \<and> f first rest = Inr z)"
    for ts :: "string list" and e :: string and f z by (cases ts) simp_all
  have ne: "''with'' \<noteq> ''select''" by simp
  have inj: "Inr x = (Inr y :: string + string) \<longleftrightarrow> x = y" for x y by simp
  have kw: "first \<in> {''select'', ''with''} \<and> \<not> (first = ''with'' \<and> ''select'' \<notin> set (first # rest)) \<longleftrightarrow>
      first = ''select'' \<or> first = ''with'' \<and> ''select'' \<in> set rest" for first rest
    using ne by (cases "first = ''with''") simp_all
  have neg: "\<not> first \<notin> {''select'', ''with''} \<longleftrightarrow> first \<in> {''select'', ''with''}" for first by simp
  show ?thesis
    unfolding normalize_readonly_sql_def bind_r_Inr dis list if_Inr inj kw [symmetric] neg by blast
qed

lemma exec_iff:
  "normalize_exec_sql sql = Inr s \<longleftrightarrow>
     normalize_single_statement_sql sql = Inr s \<and>
     (\<exists>first rest. collect_sql_tokens s = Inr (first # rest) \<and> first \<noteq> ''select'' \<and>
        (first = ''with'' \<longrightarrow> set (first # rest) \<inter> set EXEC_SQL_KEYWORDS \<noteq> {}))"
proof -
  have dis: "list_ex (\<lambda>t. t \<in> set EXEC_SQL_KEYWORDS) ts \<longleftrightarrow> set ts \<inter> set EXEC_SQL_KEYWORDS \<noteq> {}" for ts
    unfolding list_ex_iff by blast
  have if_Inr: "(if c then Inl e else x) = Inr (z :: string) \<longleftrightarrow> \<not> c \<and> x = Inr z" for c and e :: string and x z by simp
  have list: "(case ts of [] \<Rightarrow> Inl e | first # rest \<Rightarrow> f first rest) = Inr (z :: string) \<longleftrightarrow> (\<exists>first rest. ts = first # rest \<and> f first rest = Inr z)"
    for ts :: "string list" and e :: string and f z by (cases ts) simp_all
  have inj: "Inr x = (Inr y :: string + string) \<longleftrightarrow> x = y" for x y by simp
  show ?thesis
    unfolding normalize_exec_sql_def bind_r_Inr dis list if_Inr inj by metis
qed

lemma no_semicolon: "reads s ls \<Longrightarrow> Other (CHR '';'') \<notin> set ls"
  by (induction rule: reads.induct) auto

lemma readsI: "fits l r \<Longrightarrow> s = spell l @ r \<Longrightarrow> reads r ls \<Longrightarrow> reads s (l # ls)"
  using reads_next by blast

text \<open>
  C27. The read-only guard: it accepts a text exactly when, trimmed and without one final semicolon, the text
  reads as lexemes whose first word is \<open>select\<close>, or \<open>with\<close> and a later \<open>select\<close>, and none of whose words is
  a forbidden keyword; it returns that text. No lexeme of an accepted text is a semicolon.
\<close>

theorem readonly_guard:
  "normalize_readonly_sql sql = Inr s \<longleftrightarrow>
     normalize_single_statement_sql sql = Inr s \<and>
     (\<exists>ls first rest. reads s ls \<and> Other (CHR '';'') \<notin> set ls \<and> concat (map words_of ls) = first # rest \<and>
        (first = ''select'' \<or> first = ''with'' \<and> ''select'' \<in> set rest) \<and>
        set (first # rest) \<inter> set FORBIDDEN_READONLY_SQL_KEYWORDS = {})"
  unfolding readonly_iff tokens_iff using no_semicolon by metis

text \<open>
  The two tools share next to nothing: a text that both guards accept starts with \<open>with\<close>, and its only
  words that make it a command for \<open>sql_exec\<close> are \<open>analyze\<close>.
\<close>

theorem guards_overlap:
  assumes "normalize_readonly_sql sql = Inr s" "normalize_exec_sql sql = Inr t"
  shows "t = s \<and> (\<exists>rest. collect_sql_tokens s = Inr (''with'' # rest) \<and> ''analyze'' \<in> set rest \<and>
           set (''with'' # rest) \<inter> set EXEC_SQL_KEYWORDS = {''analyze''})"
proof -
  have "list_all (\<lambda>w. w = ''analyze'' \<or> w \<in> set FORBIDDEN_READONLY_SQL_KEYWORDS) EXEC_SQL_KEYWORDS" by code_simp
  then have sub: "set EXEC_SQL_KEYWORDS \<subseteq> insert ''analyze'' (set FORBIDDEN_READONLY_SQL_KEYWORDS)"
    unfolding list_all_iff by blast
  have an: "''analyze'' \<in> set EXEC_SQL_KEYWORDS" by (simp add: EXEC_SQL_KEYWORDS_def)
  obtain first rest where r: "normalize_single_statement_sql sql = Inr s" "collect_sql_tokens s = Inr (first # rest)"
    "first = ''select'' \<or> first = ''with''" "set (first # rest) \<inter> set FORBIDDEN_READONLY_SQL_KEYWORDS = {}"
    using assms(1) unfolding readonly_iff by blast
  obtain first' rest' where e: "normalize_single_statement_sql sql = Inr t" "collect_sql_tokens t = Inr (first' # rest')"
    "first' \<noteq> ''select''" "first' = ''with'' \<longrightarrow> set (first' # rest') \<inter> set EXEC_SQL_KEYWORDS \<noteq> {}"
    using assms(2) unfolding exec_iff by blast
  have t: "t = s" using r(1) e(1) by simp
  then have f: "first' = first" "rest' = rest" using r(2) e(2) by simp_all
  then have w: "first = ''with''" using r(3) e(3) by blast
  then have "set (''with'' # rest) \<inter> set EXEC_SQL_KEYWORDS \<noteq> {}" using e(4) f by simp
  moreover have "set (''with'' # rest) \<inter> set EXEC_SQL_KEYWORDS \<subseteq> {''analyze''}" using sub r(4) w by blast
  ultimately have only: "set (''with'' # rest) \<inter> set EXEC_SQL_KEYWORDS = {''analyze''}" by blast
  then have "''analyze'' \<in> set (''with'' # rest)" by blast
  then have "''analyze'' \<in> set rest" by simp
  then show ?thesis using t r(2) w only by blast
qed

lemma guards_overlap_witness:
  "\<exists>rest. collect_sql_tokens ''with analyze as (select 1) select * from analyze'' = Inr (''with'' # rest) \<and> ''analyze'' \<in> set rest"
proof -
  let ?s = "''with analyze as (select 1) select * from analyze''"
  have one: "normalize_single_statement_sql ?s = Inr ?s" by (rule single_statement_plain) (simp_all add: visible_def)
  have words: "collect_sql_tokens ?s = Inr [''with'', ''analyze'', ''as'', ''select'', ''select'', ''from'', ''analyze'']" by code_simp
  have "normalize_readonly_sql ?s = Inr ?s"
    unfolding readonly_iff one words by (simp add: FORBIDDEN_READONLY_SQL_KEYWORDS_def)
  moreover have "normalize_exec_sql ?s = Inr ?s"
    unfolding exec_iff one words by (simp add: EXEC_SQL_KEYWORDS_def)
  ultimately show ?thesis using guards_overlap by blast
qed

section \<open>What the scanner does not see\<close>

definition escape_statement :: "string \<Rightarrow> string" where
  "escape_statement x = ''select E'' @ [squote, CHR 0x5C, squote, squote] @ x @ [squote]"

lemma reads_select_space: "reads r ls \<Longrightarrow> reads (''select '' @ r) (Word ''select'' # Other (CHR '' '') # ls)"
proof -
  assume r: "reads r ls"
  have "fits (Other (CHR '' '')) r" by (auto simp: dollar_tag_def is_word_start_def is_ascii_alphabetic_def)
  from reads_next [OF this r] have "reads (CHR '' '' # r) (Other (CHR '' '') # ls)" by simp
  moreover have "fits (Word ''select'') (CHR '' '' # r)"
    by (simp add: is_word_start_def is_word_char_def is_ascii_alphabetic_def is_digit_def)
  ultimately show ?thesis using readsI [of "Word ''select''" "CHR '' '' # r"] by simp
qed

lemma doubled_plain: "q \<notin> set x \<Longrightarrow> doubled q x = x"
  by (induction x) auto

lemma escape_reads:
  assumes "squote \<notin> set x"
  shows "reads (escape_statement x) [Word ''select'', Other (CHR '' ''), Quoted ''E'' squote ([CHR 0x5C, squote] @ x)]"
proof -
  have "fits (Quoted ''E'' squote ([CHR 0x5C, squote] @ x)) []" by (simp add: string_prefixes_def)
  from reads_next [OF this reads_end]
  have "reads (''E'' @ [squote, CHR 0x5C, squote, squote] @ x @ [squote]) [Quoted ''E'' squote ([CHR 0x5C, squote] @ x)]"
    using doubled_plain [OF assms] by simp
  from reads_select_space [OF this] show ?thesis by (simp add: escape_statement_def)
qed

text \<open>
  An escape string ends for the scanner where a plain string would: in \<open>E'\<backslash>'' .. '\<close> it reads the
  backslash as a character and the two quotes as one, so that whatever stands before the next quote is text
  to it. Every such statement passes the read-only guard, whatever \<open>x\<close> holds (for the database the string
  ends before \<open>x\<close>).
\<close>

theorem escape_string_hides:
  assumes "squote \<notin> set x"
  shows "normalize_readonly_sql (escape_statement x) = Inr (escape_statement x)"
proof -
  have "last (escape_statement x) = squote" "hd (escape_statement x) = CHR ''s''" "escape_statement x \<noteq> []"
    by (simp_all add: escape_statement_def)
  then have one: "normalize_single_statement_sql (escape_statement x) = Inr (escape_statement x)"
    by (intro single_statement_plain) (simp_all add: visible_def)
  have words: "collect_sql_tokens (escape_statement x) = Inr [''select'']"
    using reads_words [OF escape_reads [OF assms]] by (simp add: words_of_def to_ascii_lowercase_def)
  show ?thesis unfolding readonly_iff one words by (simp add: FORBIDDEN_READONLY_SQL_KEYWORDS_def)
qed

lemma escape_string_hides_witness:
  "normalize_readonly_sql (escape_statement ''; drop table sys_user; --'') = Inr (escape_statement ''; drop table sys_user; --'')"
  by (rule escape_string_hides) simp

end
