(* ===== verification/Table_Schema.thy ===== *)
theory Table_Schema
  imports Sql_Lexemes
begin

text \<open>
  The live table schemas of the table tools, \<^verbatim>\<open>crates/summer-mcp/src/table_tools/schema.rs\<close>: identifiers and
  their quoting, the columns derived from the catalogue rows, the readable columns, and the binding of a
  JSON value to a numbered placeholder. The JSON library is not under \<^verbatim>\<open>src/\<close>: a number is an element of
  the parameter type \<open>'n\<close>, and its printing and parsing are the fields of a \<open>serde\<close> argument. The catalogue
  queries are the argument rows. Errors carry a short text in place of the message.
\<close>

section \<open>JSON\<close>

datatype 'n json =
    JNull
  | JBool bool
  | JNumber 'n
  | JString string
  | JArray "'n json list"
  | JObject "(string \<times> 'n json) list"

record ('n, 'f) serde =
  number_text :: "'n \<Rightarrow> string"
  number_as_i64 :: "'n \<Rightarrow> int option"
  number_as_u64 :: "'n \<Rightarrow> int option"
  number_as_f64 :: "'n \<Rightarrow> 'f option"
  parse_f64 :: "string \<Rightarrow> 'f option"
  json_text :: "'n json \<Rightarrow> string option"
  json_parse :: "string \<Rightarrow> 'n json option"

text \<open>A \<open>sea_orm::Value\<close>, as far as the tools bind one.\<close>

datatype ('n, 'f) bound =
    Bound_String string
  | Bound_Bool bool
  | Bound_Int int
  | Bound_BigInt int
  | Bound_BigUnsigned int
  | Bound_Double 'f
  | Bound_Json "'n json option"

definition is_null :: "'n json \<Rightarrow> bool" where
  "is_null v \<longleftrightarrow> (case v of JNull \<Rightarrow> True | _ \<Rightarrow> False)"

section \<open>Schemas\<close>

definition HIDDEN_READ_COLUMN_NAMES :: "string list" where
  "HIDDEN_READ_COLUMN_NAMES =
     [''password'', ''password_hash'', ''passwd'', ''salt'', ''secret'', ''access_token'', ''refresh_token'']"

definition BLOCKED_WRITE_COLUMN_NAMES :: "string list" where
  "BLOCKED_WRITE_COLUMN_NAMES = [''create_time'', ''update_time'']"

definition PUBLIC_SCHEMA :: string where
  "PUBLIC_SCHEMA = ''public''"

record TableColumnSchema =
  col_name :: string
  pg_type :: string
  nullable :: bool
  primary_key :: bool
  hidden_on_read :: bool
  writable_on_create :: bool
  writable_on_update :: bool
  default_value :: "string option"
  col_comment :: "string option"
  is_identity :: bool
  is_generated :: bool
  enum_values :: "string list option"

text \<open>\<open>TableSchema\<close> without the indexes, foreign keys and check constraints, which the statements do not use.\<close>

record TableSchema =
  ts_schema :: string
  ts_table :: string
  ts_comment :: "string option"
  ts_primary_key :: "string list"
  ts_columns :: "TableColumnSchema list"

record 'n ColumnSchemaRow =
  table_comment :: "string option"
  column_name :: string
  row_pg_type :: string
  is_nullable :: bool
  column_default :: "string option"
  row_is_identity :: bool
  row_is_generated :: bool
  is_primary_key :: bool
  column_comment :: "string option"
  row_enum_values :: "'n json option"

definition quote_identifier :: "string \<Rightarrow> string" where
  "quote_identifier identifier = dquote # doubled dquote identifier @ [dquote]"

definition qualified_name :: "TableSchema \<Rightarrow> string" where
  "qualified_name schema = quote_identifier (ts_schema schema) @ ''.'' @ quote_identifier (ts_table schema)"

definition schema_column :: "TableSchema \<Rightarrow> string \<Rightarrow> TableColumnSchema option" where
  "schema_column schema name = find (\<lambda>c. col_name c = name) (ts_columns schema)"

definition primary_key_columns :: "TableSchema \<Rightarrow> TableColumnSchema list" where
  "primary_key_columns schema = filter primary_key (ts_columns schema)"

definition readable_columns :: "TableSchema \<Rightarrow> TableColumnSchema list" where
  "readable_columns schema = filter (\<lambda>c. \<not> hidden_on_read c) (ts_columns schema)"

definition ensure_valid_identifier :: "string \<Rightarrow> string + unit" where
  "ensure_valid_identifier identifier =
     (case identifier of
        [] \<Rightarrow> Inl ''identifier cannot be empty''
      | first # rest \<Rightarrow>
          if \<not> (first = CHR ''_'' \<or> is_ascii_alphabetic first) then Inl ''identifier is invalid''
          else if \<not> list_all is_word_char rest then Inl ''identifier is invalid''
          else Inr ())"

definition normalize_schema :: "string option \<Rightarrow> string + string" where
  "normalize_schema schema =
     (let schema = trim (case schema of Some s \<Rightarrow> s | None \<Rightarrow> PUBLIC_SCHEMA)
      in bind_r (ensure_valid_identifier schema) (\<lambda>_. Inr schema))"

fun collect_r :: "('a \<Rightarrow> 'e + 'b) \<Rightarrow> 'a list \<Rightarrow> 'e + 'b list" where
  "collect_r f [] = Inr []"
| "collect_r f (x # xs) = bind_r (f x) (\<lambda>y. bind_r (collect_r f xs) (\<lambda>ys. Inr (y # ys)))"

definition json_array_to_strings :: "'n json \<Rightarrow> string + string list" where
  "json_array_to_strings value =
     (case value of
        JArray items \<Rightarrow> collect_r (\<lambda>item. case item of JString s \<Rightarrow> Inr s | _ \<Rightarrow> Inl ''expected only strings'') items
      | _ \<Rightarrow> Inl ''expected a JSON array'')"

definition not_blank :: "string option \<Rightarrow> string option" where
  "not_blank x = (case x of Some v \<Rightarrow> if trim v = [] then None else Some v | None \<Rightarrow> None)"

definition column_of_row :: "'n ColumnSchemaRow \<Rightarrow> string + TableColumnSchema" where
  "column_of_row row =
     (let hidden = column_name row \<in> set HIDDEN_READ_COLUMN_NAMES;
          generated_by_sequence = (case column_default row of Some v \<Rightarrow> prefix ''nextval('' v | None \<Rightarrow> False);
          generated = row_is_identity row \<or> row_is_generated row \<or> generated_by_sequence;
          blocked_by_name = column_name row \<in> set BLOCKED_WRITE_COLUMN_NAMES
      in bind_r (case row_enum_values row of Some v \<Rightarrow> bind_r (json_array_to_strings v) (\<lambda>vs. Inr (Some vs)) | None \<Rightarrow> Inr None) (\<lambda>vs.
           Inr \<lparr> col_name = column_name row, pg_type = row_pg_type row, nullable = is_nullable row,
             primary_key = is_primary_key row, hidden_on_read = hidden,
             writable_on_create = (\<not> generated \<and> \<not> blocked_by_name),
             writable_on_update = (\<not> is_primary_key row \<and> \<not> generated \<and> \<not> blocked_by_name),
             default_value = column_default row, col_comment = not_blank (column_comment row),
             is_identity = row_is_identity row, is_generated = row_is_generated row, enum_values = vs \<rparr>))"

definition load_columns_and_primary_key :: "'n ColumnSchemaRow list \<Rightarrow> string + (string option \<times> TableColumnSchema list \<times> string list)" where
  "load_columns_and_primary_key column_rows =
     (case column_rows of
        [] \<Rightarrow> Inl ''table_not_found''
      | first # _ \<Rightarrow>
          bind_r (collect_r column_of_row column_rows) (\<lambda>columns.
            Inr (not_blank (table_comment first), columns, map col_name (filter primary_key columns))))"

section \<open>Reading and binding\<close>

fun resolve_requested :: "TableSchema \<Rightarrow> string list \<Rightarrow> string + TableColumnSchema list" where
  "resolve_requested schema [] = Inr []"
| "resolve_requested schema (name # names) =
     (case schema_column schema name of
        None \<Rightarrow> Inl ''column_not_found''
      | Some c \<Rightarrow>
          if hidden_on_read c then Inl ''hidden_column_access''
          else bind_r (resolve_requested schema names) (\<lambda>cs. Inr (c # cs)))"

definition resolve_readable_columns :: "TableSchema \<Rightarrow> string list option \<Rightarrow> string + TableColumnSchema list" where
  "resolve_readable_columns schema requested =
     bind_r
       (case requested of
          Some names \<Rightarrow> if names = [] then Inl ''invalid_columns'' else resolve_requested schema names
        | None \<Rightarrow> Inr (readable_columns schema))
       (\<lambda>columns. if columns = [] then Inl ''no_readable_columns'' else Inr columns)"

definition readable_select_list :: "TableSchema \<Rightarrow> string list option \<Rightarrow> string + string" where
  "readable_select_list schema requested =
     bind_r (resolve_readable_columns schema requested) (\<lambda>columns.
       Inr (join_with '', '' (map (\<lambda>c. quote_identifier (col_name c)) columns)))"

definition json_value_to_bound_string :: "('n, 'f) serde \<Rightarrow> 'n json \<Rightarrow> string + string option" where
  "json_value_to_bound_string S value =
     (case value of
        JNull \<Rightarrow> Inr None
      | JBool b \<Rightarrow> Inr (Some (if b then ''true'' else ''false''))
      | JNumber n \<Rightarrow> Inr (Some (number_text S n))
      | JString s \<Rightarrow> Inr (Some s)
      | JArray _ \<Rightarrow> bind_r (ok_or ''serialization_failed'' (json_text S value)) (\<lambda>t. Inr (Some t))
      | JObject _ \<Rightarrow> bind_r (ok_or ''serialization_failed'' (json_text S value)) (\<lambda>t. Inr (Some t)))"

definition bind_cast_value ::
  "('n, 'f) serde \<Rightarrow> nat \<Rightarrow> TableColumnSchema \<Rightarrow> 'n json \<Rightarrow> ('n, 'f) bound list \<Rightarrow> string + (string \<times> ('n, 'f) bound list)" where
  "bind_cast_value S placeholder_index column value params =
     bind_r (json_value_to_bound_string S value) (\<lambda>b.
       case b of
         None \<Rightarrow> Inr (''NULL'', params)
       | Some t \<Rightarrow> Inr (''CAST($'' @ show_nat placeholder_index @ '' AS '' @ pg_type column @ '')'', params @ [Bound_String t]))"

end
