(* ===== verification/Table_Query.thy ===== *)
theory Table_Query
  imports Table_Schema
begin

text \<open>
  The clauses of the table tools, \<^verbatim>\<open>crates/summer-mcp/src/table_tools/query_builder.rs\<close>: assignments, key and
  filter clauses with their bound values, the shorthand filters and sort keys, the order clause. A
  \<open>JsonMap\<close> (a \<open>BTreeMap\<close>) is the list of its entries in key order; the bound values, a mutable vector in
  the code, are passed along.
\<close>

type_synonym 'n JsonMap = "(string \<times> 'n json) list"

datatype FilterOp = Eq | Ne | Gt | Gte | Lt | Lte | Like | ILike | In | NotIn | Between | IsNull | IsNotNull

record 'n TableFilter =
  f_column :: string
  f_op :: FilterOp
  f_value :: "'n json option"
  f_values :: "'n json list option"

datatype 'n TableFilterInput =
    Structured "'n TableFilter"
  | Group "'n TableFilterInput list option" "'n TableFilterInput list option"
  | Shorthand string

datatype SortDirection = Asc | Desc

record TableSort =
  s_column :: string
  s_direction :: "SortDirection option"

datatype TableSortInput = Sort_Structured TableSort | Sort_Shorthand string

type_synonym ('n, 'f) clause = "string + (string \<times> ('n, 'f) bound list)"

section \<open>Assignments and keys\<close>

fun insert_columns ::
  "('n, 'f) serde \<Rightarrow> TableSchema \<Rightarrow> 'n JsonMap \<Rightarrow> ('n, 'f) bound list \<Rightarrow> string + (string list \<times> string list \<times> ('n, 'f) bound list)" where
  "insert_columns S schema [] params = Inr ([], [], params)"
| "insert_columns S schema ((name, value) # values) params =
     bind_r (ensure_valid_identifier name) (\<lambda>_.
       case schema_column schema name of
         None \<Rightarrow> Inl ''unknown column''
       | Some c \<Rightarrow>
           if \<not> writable_on_create c then Inl ''not writable on create''
           else bind_r (bind_cast_value S (length params + 1) c value params) (\<lambda>(placeholder, params).
                  bind_r (insert_columns S schema values params) (\<lambda>(columns, expressions, params).
                    Inr (quote_identifier (col_name c) # columns, placeholder # expressions, params))))"

definition build_insert_assignments ::
  "('n, 'f) serde \<Rightarrow> TableSchema \<Rightarrow> 'n JsonMap \<Rightarrow> string + (string \<times> string \<times> ('n, 'f) bound list)" where
  "build_insert_assignments S schema values =
     (if values = [] then Inl ''insert values cannot be empty''
      else bind_r (insert_columns S schema values []) (\<lambda>(columns, expressions, params).
             Inr (join_with '', '' columns, join_with '', '' expressions, params)))"

fun update_assignments ::
  "('n, 'f) serde \<Rightarrow> TableSchema \<Rightarrow> 'n JsonMap \<Rightarrow> ('n, 'f) bound list \<Rightarrow> string + (string list \<times> ('n, 'f) bound list)" where
  "update_assignments S schema [] params = Inr ([], params)"
| "update_assignments S schema ((name, value) # values) params =
     bind_r (ensure_valid_identifier name) (\<lambda>_.
       case schema_column schema name of
         None \<Rightarrow> Inl ''unknown column''
       | Some c \<Rightarrow>
           if \<not> writable_on_update c then Inl ''not writable on update''
           else bind_r (bind_cast_value S (length params + 1) c value params) (\<lambda>(placeholder, params).
                  bind_r (update_assignments S schema values params) (\<lambda>(assignments, params).
                    Inr ((quote_identifier (col_name c) @ '' = '' @ placeholder) # assignments, params))))"

definition build_update_assignments ::
  "('n, 'f) serde \<Rightarrow> TableSchema \<Rightarrow> 'n JsonMap \<Rightarrow> ('n, 'f) clause" where
  "build_update_assignments S schema values =
     (if values = [] then Inl ''update values cannot be empty''
      else bind_r (update_assignments S schema values []) (\<lambda>(assignments, params). Inr (join_with '', '' assignments, params)))"

fun key_clauses ::
  "('n, 'f) serde \<Rightarrow> 'n JsonMap \<Rightarrow> TableColumnSchema list \<Rightarrow> ('n, 'f) bound list \<Rightarrow> string + (string list \<times> ('n, 'f) bound list)" where
  "key_clauses S key [] params = Inr ([], params)"
| "key_clauses S key (c # cs) params =
     (case map_of key (col_name c) of
        None \<Rightarrow> Inl ''missing primary key column''
      | Some value \<Rightarrow>
          if is_null value then Inl ''primary key column cannot be null''
          else bind_r (bind_cast_value S (length params + 1) c value params) (\<lambda>(placeholder, params).
                 bind_r (key_clauses S key cs params) (\<lambda>(clauses, params).
                   Inr ((quote_identifier (col_name c) @ '' = '' @ placeholder) # clauses, params))))"

definition build_key_clause ::
  "('n, 'f) serde \<Rightarrow> TableSchema \<Rightarrow> 'n JsonMap \<Rightarrow> ('n, 'f) bound list \<Rightarrow> ('n, 'f) clause" where
  "build_key_clause S schema key params =
     (let primary_key_columns = primary_key_columns schema
      in if primary_key_columns = [] then Inl ''no primary key''
         else if length key \<noteq> length primary_key_columns then Inl ''requires key fields''
         else bind_r (key_clauses S key primary_key_columns params) (\<lambda>(clauses, params).
                Inr (join_with '' AND '' clauses, params)))"

section \<open>Shorthand filters\<close>

fun split_at_whitespace :: "string \<Rightarrow> (string \<times> string) option" where
  "split_at_whitespace [] = None"
| "split_at_whitespace (c # cs) =
     (case find (\<lambda>w. prefix w (c # cs)) ws_seqs of
        Some w \<Rightarrow> Some ([], drop (length w) (c # cs))
      | None \<Rightarrow> map_option (\<lambda>(a, r). (c # a, r)) (split_at_whitespace cs))"

text \<open>\<open>splitn(3, char::is_whitespace)\<close>: the column, the operator and the remainder, as far as they are there.\<close>

definition shorthand_parts :: "string \<Rightarrow> string \<times> string option \<times> string option" where
  "shorthand_parts s =
     (case split_at_whitespace s of
        None \<Rightarrow> (s, None, None)
      | Some (a, r) \<Rightarrow>
          (case split_at_whitespace r of None \<Rightarrow> (a, Some r, None) | Some (b, r') \<Rightarrow> (a, Some b, Some r')))"

definition parse_jsonish_literal :: "('n, 'f) serde \<Rightarrow> string \<Rightarrow> 'n json" where
  "parse_jsonish_literal S input = (case json_parse S input of Some v \<Rightarrow> v | None \<Rightarrow> JString input)"

definition parse_filter_value_literal :: "('n, 'f) serde \<Rightarrow> string \<Rightarrow> string + 'n json" where
  "parse_filter_value_literal S input =
     (let trimmed = trim input in if trimmed = [] then Inl ''shorthand requires a value'' else Inr (parse_jsonish_literal S trimmed))"

definition parse_filter_values_literal :: "('n, 'f) serde \<Rightarrow> string \<Rightarrow> string + 'n json list" where
  "parse_filter_values_literal S input =
     (let trimmed = trim input
      in if trimmed = [] then Inl ''requires a JSON array''
         else case json_parse S trimmed of
           Some (JArray values) \<Rightarrow> if values = [] then Inl ''requires at least one item'' else Inr values
         | _ \<Rightarrow> Inl ''requires a JSON array'')"

definition shorthand_value_ops :: "(string \<times> FilterOp) list" where
  "shorthand_value_ops =
     [(''='', Eq), (''eq'', Eq), (''!='', Ne), (''<>'', Ne), (''ne'', Ne), (''>'', Gt), (''gt'', Gt), (''>='', Gte), (''gte'', Gte),
      (''<'', Lt), (''lt'', Lt), (''<='', Lte), (''lte'', Lte), (''like'', Like), (''ilike'', ILike)]"

definition shorthand_values_ops :: "(string \<times> FilterOp) list" where
  "shorthand_values_ops = [(''in'', In), (''not_in'', NotIn), (''between'', Between)]"

definition shorthand_op ::
  "('n, 'f) serde \<Rightarrow> string \<Rightarrow> string \<Rightarrow> string + (FilterOp \<times> 'n json option \<times> 'n json list option)" where
  "shorthand_op S operator remainder =
     (case map_of shorthand_value_ops operator of
        Some op \<Rightarrow> bind_r (parse_filter_value_literal S remainder) (\<lambda>v. Inr (op, Some v, None))
      | None \<Rightarrow>
     (case map_of shorthand_values_ops operator of
        Some op \<Rightarrow> bind_r (parse_filter_values_literal S remainder) (\<lambda>vs. Inr (op, None, Some vs))
      | None \<Rightarrow>
          if operator = ''is_null'' then Inr (IsNull, None, None)
          else if operator = ''is_not_null'' then Inr (IsNotNull, None, None)
          else if operator = ''is'' \<and> eq_ignore_ascii_case remainder ''null'' then Inr (IsNull, None, None)
          else if operator = ''is'' \<and> eq_ignore_ascii_case remainder ''not null'' then Inr (IsNotNull, None, None)
          else Inl ''unsupported operator''))"

definition parse_filter_shorthand :: "('n, 'f) serde \<Rightarrow> string \<Rightarrow> string + 'n TableFilter" where
  "parse_filter_shorthand S input =
     (let trimmed = trim input
      in if trimmed = [] then Inl ''shorthand cannot be empty''
         else case shorthand_parts trimmed of
           (_, None, _) \<Rightarrow> Inl ''shorthand requires an operator''
         | (column, Some operator, rest) \<Rightarrow>
             (let remainder = (case rest of Some r \<Rightarrow> trim r | None \<Rightarrow> [])
              in bind_r (shorthand_op S (to_ascii_lowercase operator) remainder) (\<lambda>(op, value, values).
                   Inr \<lparr> f_column = column, f_op = op, f_value = value, f_values = values \<rparr>)))"

section \<open>Filters\<close>

definition require_single_filter_value :: "'n TableFilter \<Rightarrow> string + 'n json" where
  "require_single_filter_value flt = ok_or ''filter requires value'' (f_value flt)"

definition require_filter_values :: "'n TableFilter \<Rightarrow> string + 'n json list" where
  "require_filter_values flt =
     bind_r (ok_or ''filter requires values'' (f_values flt)) (\<lambda>values.
       if values = [] then Inl ''filter requires at least one item'' else Inr values)"

definition compare_clause ::
  "('n, 'f) serde \<Rightarrow> TableColumnSchema \<Rightarrow> string \<Rightarrow> string \<Rightarrow> 'n TableFilter \<Rightarrow> ('n, 'f) bound list \<Rightarrow> ('n, 'f) clause" where
  "compare_clause S column quoted operator flt params =
     bind_r (require_single_filter_value flt) (\<lambda>value.
       if is_null value then Inl ''operator does not support null''
       else bind_r (bind_cast_value S (length params + 1) column value params) (\<lambda>(placeholder, params).
              Inr (quoted @ '' '' @ operator @ '' '' @ placeholder, params)))"

definition pattern_clause ::
  "string \<Rightarrow> string \<Rightarrow> 'n TableFilter \<Rightarrow> ('n, 'f) bound list \<Rightarrow> ('n, 'f) clause" where
  "pattern_clause quoted operator flt params =
     bind_r (require_single_filter_value flt) (\<lambda>value.
       case value of
         JString pattern \<Rightarrow>
           (let params = params @ [Bound_String pattern]
            in Inr (''CAST('' @ quoted @ '' AS text) '' @ operator @ '' $'' @ show_nat (length params), params))
       | _ \<Rightarrow> Inl ''operator requires a string value'')"

fun multi_value_expressions ::
  "('n, 'f) serde \<Rightarrow> TableColumnSchema \<Rightarrow> 'n json list \<Rightarrow> ('n, 'f) bound list \<Rightarrow> string + (string list \<times> ('n, 'f) bound list)" where
  "multi_value_expressions S column [] params = Inr ([], params)"
| "multi_value_expressions S column (value # values) params =
     (if is_null value then Inl ''no null inside values''
      else bind_r (bind_cast_value S (length params + 1) column value params) (\<lambda>(placeholder, params).
             bind_r (multi_value_expressions S column values params) (\<lambda>(expressions, params).
               Inr (placeholder # expressions, params))))"

definition build_multi_value_expressions ::
  "('n, 'f) serde \<Rightarrow> TableColumnSchema \<Rightarrow> 'n TableFilter \<Rightarrow> ('n, 'f) bound list \<Rightarrow> string + (string list \<times> ('n, 'f) bound list)" where
  "build_multi_value_expressions S column flt params =
     bind_r (require_filter_values flt) (\<lambda>values. multi_value_expressions S column values params)"

definition build_filter_clause ::
  "('n, 'f) serde \<Rightarrow> TableColumnSchema \<Rightarrow> 'n TableFilter \<Rightarrow> ('n, 'f) bound list \<Rightarrow> ('n, 'f) clause" where
  "build_filter_clause S column flt params =
     (let quoted = quote_identifier (col_name column)
      in case f_op flt of
           Eq \<Rightarrow> bind_r (require_single_filter_value flt) (\<lambda>value.
             if is_null value then Inr (quoted @ '' IS NULL'', params)
             else bind_r (bind_cast_value S (length params + 1) column value params) (\<lambda>(placeholder, params).
                    Inr (quoted @ '' = '' @ placeholder, params)))
         | Ne \<Rightarrow> bind_r (require_single_filter_value flt) (\<lambda>value.
             if is_null value then Inr (quoted @ '' IS NOT NULL'', params)
             else bind_r (bind_cast_value S (length params + 1) column value params) (\<lambda>(placeholder, params).
                    Inr (quoted @ '' <> '' @ placeholder, params)))
         | Gt \<Rightarrow> compare_clause S column quoted ''>'' flt params
         | Gte \<Rightarrow> compare_clause S column quoted ''>='' flt params
         | Lt \<Rightarrow> compare_clause S column quoted ''<'' flt params
         | Lte \<Rightarrow> compare_clause S column quoted ''<='' flt params
         | Like \<Rightarrow> pattern_clause quoted ''LIKE'' flt params
         | ILike \<Rightarrow> pattern_clause quoted ''ILIKE'' flt params
         | In \<Rightarrow> bind_r (build_multi_value_expressions S column flt params) (\<lambda>(expressions, params).
             Inr (quoted @ '' IN ('' @ join_with '', '' expressions @ '')'', params))
         | NotIn \<Rightarrow> bind_r (build_multi_value_expressions S column flt params) (\<lambda>(expressions, params).
             Inr (quoted @ '' NOT IN ('' @ join_with '', '' expressions @ '')'', params))
         | Between \<Rightarrow> bind_r (require_filter_values flt) (\<lambda>values.
             if length values \<noteq> 2 then Inl ''between requires exactly two values''
             else if list_ex is_null values then Inl ''between does not support null values''
             else bind_r (bind_cast_value S (length params + 1) column (values ! 0) params) (\<lambda>(start, params).
                  bind_r (bind_cast_value S (length params + 1) column (values ! 1) params) (\<lambda>(end', params).
                    Inr (quoted @ '' BETWEEN '' @ start @ '' AND '' @ end', params))))
         | IsNull \<Rightarrow> Inr (quoted @ '' IS NULL'', params)
         | IsNotNull \<Rightarrow> Inr (quoted @ '' IS NOT NULL'', params))"

definition build_single_filter_clause ::
  "('n, 'f) serde \<Rightarrow> TableSchema \<Rightarrow> 'n TableFilter \<Rightarrow> ('n, 'f) bound list \<Rightarrow> ('n, 'f) clause" where
  "build_single_filter_clause S schema flt params =
     bind_r (ensure_valid_identifier (f_column flt)) (\<lambda>_.
       case schema_column schema (f_column flt) of
         None \<Rightarrow> Inl ''unknown filter column''
       | Some c \<Rightarrow>
           if hidden_on_read c then Inl ''hidden and cannot be filtered'' else build_filter_clause S c flt params)"

definition join_group :: "string \<Rightarrow> string list \<Rightarrow> string" where
  "join_group joiner clauses =
     (if length clauses = 1 then hd clauses else ''('' @ join_with ('' '' @ joiner @ '' '') clauses @ '')'')"

fun build_filter_input_clause ::
  "('n, 'f) serde \<Rightarrow> TableSchema \<Rightarrow> 'n TableFilterInput \<Rightarrow> ('n, 'f) bound list \<Rightarrow> ('n, 'f) clause"
and build_inputs ::
  "('n, 'f) serde \<Rightarrow> TableSchema \<Rightarrow> 'n TableFilterInput list \<Rightarrow> ('n, 'f) bound list \<Rightarrow> string + (string list \<times> ('n, 'f) bound list)" where
  "build_filter_input_clause S schema (Structured flt) params = build_single_filter_clause S schema flt params"
| "build_filter_input_clause S schema (Group (Some _) (Some _)) params = Inl ''both and and or''"
| "build_filter_input_clause S schema (Group None None) params = Inl ''either and or or''"
| "build_filter_input_clause S schema (Group (Some items) None) params =
     (if items = [] then Inl ''at least one item''
      else bind_r (build_inputs S schema items params) (\<lambda>(clauses, params). Inr (join_group ''AND'' clauses, params)))"
| "build_filter_input_clause S schema (Group None (Some items)) params =
     (if items = [] then Inl ''at least one item''
      else bind_r (build_inputs S schema items params) (\<lambda>(clauses, params). Inr (join_group ''OR'' clauses, params)))"
| "build_filter_input_clause S schema (Shorthand flt) params =
     bind_r (parse_filter_shorthand S flt) (\<lambda>flt. build_single_filter_clause S schema flt params)"
| "build_inputs S schema [] params = Inr ([], params)"
| "build_inputs S schema (input # inputs) params =
     bind_r (build_filter_input_clause S schema input params) (\<lambda>(clause, params).
       bind_r (build_inputs S schema inputs params) (\<lambda>(clauses, params). Inr (clause # clauses, params)))"

definition build_filters_clause ::
  "('n, 'f) serde \<Rightarrow> TableSchema \<Rightarrow> 'n TableFilterInput list option \<Rightarrow> string + (string option \<times> ('n, 'f) bound list)" where
  "build_filters_clause S schema filters =
     (case filters of
        None \<Rightarrow> Inr (None, [])
      | Some filters \<Rightarrow>
          bind_r (build_inputs S schema filters []) (\<lambda>(clauses, params).
            Inr (if clauses = [] then None else Some (join_with '' AND '' clauses), params)))"

section \<open>Order\<close>

lemma split_at_whitespace_shorter: "split_at_whitespace s = Some (a, r) \<Longrightarrow> length r < length s"
proof (induction s arbitrary: a)
  case (Cons c cs)
  show ?case
  proof (cases "find (\<lambda>w. prefix w (c # cs)) ws_seqs")
    case None
    then show ?thesis using Cons by fastforce
  next
    case (Some w)
    then have "w \<noteq> []" using ws_seqs_ne find_hit by metis
    then have "0 < length w" by simp
    moreover have "r = drop (length w) (c # cs)" using Some Cons.prems by simp
    ultimately show ?thesis by (simp only: length_drop length_Cons)
  qed
qed simp

function split_whitespace :: "string \<Rightarrow> string list" where
  "split_whitespace s =
     (case split_at_whitespace s of
        None \<Rightarrow> if s = [] then [] else [s]
      | Some (a, r) \<Rightarrow> if a = [] then split_whitespace r else a # split_whitespace r)"
  by pat_completeness auto
termination
  by (relation "measure length") (auto dest: split_at_whitespace_shorter)

definition parse_sort_shorthand :: "string \<Rightarrow> string + TableSort" where
  "parse_sort_shorthand input =
     (case split_whitespace (trim input) of
        [] \<Rightarrow> Inl ''order_by item cannot be empty''
      | [column] \<Rightarrow> Inr \<lparr> s_column = column, s_direction = None \<rparr>
      | column # direction # rest \<Rightarrow>
          bind_r (if eq_ignore_ascii_case direction ''asc'' then Inr Asc
                  else if eq_ignore_ascii_case direction ''desc'' then Inr Desc
                  else Inl ''unsupported sort direction'') (\<lambda>d.
            if rest \<noteq> [] then Inl ''invalid order_by shorthand'' else Inr \<lparr> s_column = column, s_direction = Some d \<rparr>))"

definition parse_sort_input :: "TableSortInput \<Rightarrow> string + TableSort" where
  "parse_sort_input srt = (case srt of Sort_Structured s \<Rightarrow> Inr s | Sort_Shorthand s \<Rightarrow> parse_sort_shorthand s)"

definition order_part :: "TableSchema \<Rightarrow> TableSortInput \<Rightarrow> string + string" where
  "order_part schema srt =
     bind_r (parse_sort_input srt) (\<lambda>srt.
     bind_r (ensure_valid_identifier (s_column srt)) (\<lambda>_.
       case schema_column schema (s_column srt) of
         None \<Rightarrow> Inl ''unknown order column''
       | Some c \<Rightarrow>
           if hidden_on_read c then Inl ''hidden and cannot be used for sorting''
           else Inr (quote_identifier (col_name c) @ '' '' @
                  (case (case s_direction srt of Some d \<Rightarrow> d | None \<Rightarrow> Asc) of Asc \<Rightarrow> ''ASC'' | Desc \<Rightarrow> ''DESC''))))"

definition build_order_clause :: "TableSchema \<Rightarrow> TableSortInput list option \<Rightarrow> string + string" where
  "build_order_clause schema order_by =
     bind_r (case order_by of Some sorts \<Rightarrow> collect_r (order_part schema) sorts | None \<Rightarrow> Inr []) (\<lambda>parts.
       if parts = [] then
         (if primary_key_columns schema = [] then Inr []
          else Inr ('' ORDER BY '' @ join_with '', '' (map (\<lambda>c. quote_identifier (col_name c) @ '' ASC'') (primary_key_columns schema))))
       else Inr ('' ORDER BY '' @ join_with '', '' parts))"

end
