(* ===== verification/Table_Tools.thy ===== *)
theory Table_Tools
  imports Table_Query
begin

text \<open>
  The table and SQL tools, \<^verbatim>\<open>crates/summer-mcp/src/table_tools/router.rs\<close>, and the values of SQL parameters
  (\<^verbatim>\<open>sql_scanner.rs\<close>). A statement is its text with its bound values. The database is a parameter: a
  record of the queries that the tools issue, each a state-passing call that may fail.
\<close>

type_synonym ('n, 'f) statement = "string \<times> ('n, 'f) bound list"

record ('db, 'n, 'f, 'row) database =
  load_column_rows :: "string \<Rightarrow> string \<Rightarrow> ('db, string, 'n ColumnSchemaRow list) sm"
  query_one :: "('n, 'f) statement \<Rightarrow> ('db, string, 'row option) sm"
  query_all :: "('n, 'f) statement \<Rightarrow> ('db, string, 'row list) sm"
  query_count :: "('n, 'f) statement \<Rightarrow> ('db, string, int option) sm"

definition describe_table_for_crud_in_schema ::
  "('db, 'n, 'f, 'row) database \<Rightarrow> string \<Rightarrow> string \<Rightarrow> ('db, string, TableSchema) sm" where
  "describe_table_for_crud_in_schema D schema table =
     bind_s (lift_r (normalize_schema (Some schema))) (\<lambda>schema.
     bind_s (lift_r (ensure_valid_identifier table)) (\<lambda>_.
     bind_s (load_column_rows D schema table) (\<lambda>rows.
     bind_s (lift_r (load_columns_and_primary_key rows)) (\<lambda>(comment, columns, pk).
       ok_s \<lparr> ts_schema = schema, ts_table = table, ts_comment = comment, ts_primary_key = pk, ts_columns = columns \<rparr>))))"

definition describe_for ::
  "('db, 'n, 'f, 'row) database \<Rightarrow> string option \<Rightarrow> string \<Rightarrow> ('db, string, TableSchema) sm" where
  "describe_for D schema table =
     bind_s (lift_r (normalize_schema schema)) (\<lambda>schema_name. describe_table_for_crud_in_schema D schema_name table)"

section \<open>Statements\<close>

definition DEFAULT_LIST_LIMIT :: nat where "DEFAULT_LIST_LIMIT = 20"
definition MAX_LIST_LIMIT :: nat where "MAX_LIST_LIMIT = 100"

definition list_window :: "nat option \<Rightarrow> nat option \<Rightarrow> nat \<times> nat" where
  "list_window limit offset =
     (max 1 (min MAX_LIST_LIMIT (case limit of Some l \<Rightarrow> l | None \<Rightarrow> DEFAULT_LIST_LIMIT)),
      case offset of Some n \<Rightarrow> n | None \<Rightarrow> 0)"

definition table_get_statement ::
  "('n, 'f) serde \<Rightarrow> TableSchema \<Rightarrow> 'n JsonMap \<Rightarrow> string + ('n, 'f) statement" where
  "table_get_statement S schema key =
     bind_r (readable_select_list schema None) (\<lambda>select_list.
     bind_r (build_key_clause S schema key []) (\<lambda>(where_clause, params).
       Inr (''SELECT '' @ select_list @ '' FROM '' @ qualified_name schema @ '' WHERE '' @ where_clause @ '' LIMIT 1'', params)))"

definition where_text :: "string option \<Rightarrow> string" where
  "where_text clause = (case clause of Some c \<Rightarrow> '' WHERE '' @ c | None \<Rightarrow> [])"

definition count_statement ::
  "TableSchema \<Rightarrow> string option \<Rightarrow> ('n, 'f) bound list \<Rightarrow> ('n, 'f) statement" where
  "count_statement schema where_clause params =
     (''SELECT COUNT(*)::bigint AS total FROM '' @ qualified_name schema @ where_text where_clause, params)"

definition items_statement ::
  "TableSchema \<Rightarrow> string \<Rightarrow> string option \<Rightarrow> string \<Rightarrow> nat \<times> nat \<Rightarrow> ('n, 'f) bound list \<Rightarrow> ('n, 'f) statement" where
  "items_statement schema select_list where_clause order_clause window params =
     (''SELECT '' @ select_list @ '' FROM '' @ qualified_name schema @ where_text where_clause @ order_clause @
        '' LIMIT '' @ show_nat (fst window) @ '' OFFSET '' @ show_nat (snd window), params)"

definition table_insert_statement ::
  "('n, 'f) serde \<Rightarrow> TableSchema \<Rightarrow> 'n JsonMap \<Rightarrow> string + ('n, 'f) statement" where
  "table_insert_statement S schema values =
     bind_r (build_insert_assignments S schema values) (\<lambda>(columns, expressions, params).
     bind_r (readable_select_list schema None) (\<lambda>returning.
       Inr (''INSERT INTO '' @ qualified_name schema @ '' ('' @ columns @ '') VALUES ('' @ expressions @ '') RETURNING '' @ returning, params)))"

definition table_update_statement ::
  "('n, 'f) serde \<Rightarrow> TableSchema \<Rightarrow> 'n JsonMap \<Rightarrow> 'n JsonMap \<Rightarrow> string + ('n, 'f) statement" where
  "table_update_statement S schema key values =
     bind_r (build_update_assignments S schema values) (\<lambda>(set_clause, params).
     bind_r (build_key_clause S schema key params) (\<lambda>(where_clause, params).
     bind_r (readable_select_list schema None) (\<lambda>returning.
       Inr (''UPDATE '' @ qualified_name schema @ '' SET '' @ set_clause @ '' WHERE '' @ where_clause @ '' RETURNING '' @ returning, params))))"

definition table_delete_statement ::
  "('n, 'f) serde \<Rightarrow> TableSchema \<Rightarrow> 'n JsonMap \<Rightarrow> string + ('n, 'f) statement" where
  "table_delete_statement S schema key =
     bind_r (build_key_clause S schema key []) (\<lambda>(where_clause, params).
       Inr (''DELETE FROM '' @ qualified_name schema @ '' WHERE '' @ where_clause @ '' RETURNING 1 AS deleted'', params))"

definition exists_statement ::
  "('n, 'f) serde \<Rightarrow> TableSchema \<Rightarrow> 'n JsonMap \<Rightarrow> string + ('n, 'f) statement" where
  "exists_statement S schema key =
     bind_r (build_key_clause S schema key []) (\<lambda>(key_where, params).
       Inr (''SELECT 1 AS v FROM '' @ qualified_name schema @ '' WHERE '' @ key_where @ '' LIMIT 1'', params))"

section \<open>Table tools\<close>

record 'row TableLookupResult =
  lk_schema :: string
  lk_table :: string
  lk_found :: bool
  lk_item :: "'row option"

record 'row TableListResult =
  li_schema :: string
  li_table :: string
  li_items :: "'row list"
  li_total :: nat
  li_limit :: nat
  li_offset :: nat

record 'row TableMutationResult =
  mu_schema :: string
  mu_table :: string
  mu_found :: bool
  mu_changed :: bool
  mu_item :: "'row option"

record TableDeleteResult =
  del_schema :: string
  del_table :: string
  del_found :: bool
  del_deleted :: bool
  del_rows_affected :: nat

definition table_get ::
  "('n, 'f) serde \<Rightarrow> ('db, 'n, 'f, 'row) database \<Rightarrow> string option \<Rightarrow> string \<Rightarrow> 'n JsonMap \<Rightarrow>
   ('db, string, 'row TableLookupResult) sm" where
  "table_get S D schema table key =
     bind_s (describe_for D schema table) (\<lambda>schema.
     bind_s (lift_r (table_get_statement S schema key)) (\<lambda>statement.
     bind_s (query_one D statement) (\<lambda>item.
       ok_s \<lparr> lk_schema = ts_schema schema, lk_table = ts_table schema, lk_found = (item \<noteq> None), lk_item = item \<rparr>)))"

definition table_query ::
  "('n, 'f) serde \<Rightarrow> ('db, 'n, 'f, 'row) database \<Rightarrow> string option \<Rightarrow> string \<Rightarrow> string list option \<Rightarrow>
   'n TableFilterInput list option \<Rightarrow> TableSortInput list option \<Rightarrow> nat option \<Rightarrow> nat option \<Rightarrow>
   ('db, string, 'row TableListResult) sm" where
  "table_query S D schema table columns filters order_by limit offset =
     bind_s (describe_for D schema table) (\<lambda>schema.
     bind_s (lift_r (readable_select_list schema columns)) (\<lambda>select_list.
     (let window = list_window limit offset in
     bind_s (lift_r (build_filters_clause S schema filters)) (\<lambda>(where_clause, params).
     bind_s (query_count D (count_statement schema where_clause params)) (\<lambda>total.
     bind_s (lift_r (build_order_clause schema order_by)) (\<lambda>order_clause.
     bind_s (query_all D (items_statement schema select_list where_clause order_clause window params)) (\<lambda>items.
       ok_s \<lparr> li_schema = ts_schema schema, li_table = ts_table schema, li_items = items,
              li_total = (case total of Some t \<Rightarrow> nat (max t 0) | None \<Rightarrow> 0),
              li_limit = fst window, li_offset = snd window \<rparr>)))))))"

definition table_insert ::
  "('n, 'f) serde \<Rightarrow> ('db, 'n, 'f, 'row) database \<Rightarrow> string option \<Rightarrow> string \<Rightarrow> 'n JsonMap \<Rightarrow>
   ('db, string, 'row TableMutationResult) sm" where
  "table_insert S D schema table values =
     bind_s (describe_for D schema table) (\<lambda>schema.
     bind_s (lift_r (table_insert_statement S schema values)) (\<lambda>statement.
     bind_s (query_one D statement) (\<lambda>item.
       ok_s \<lparr> mu_schema = ts_schema schema, mu_table = ts_table schema, mu_found = (item \<noteq> None),
              mu_changed = (item \<noteq> None), mu_item = item \<rparr>)))"

definition table_update ::
  "('n, 'f) serde \<Rightarrow> ('db, 'n, 'f, 'row) database \<Rightarrow> string option \<Rightarrow> string \<Rightarrow> 'n JsonMap \<Rightarrow> 'n JsonMap \<Rightarrow>
   ('db, string, 'row TableMutationResult) sm" where
  "table_update S D schema table key values =
     bind_s (describe_for D schema table) (\<lambda>schema.
     bind_s (lift_r (table_update_statement S schema key values)) (\<lambda>statement.
     bind_s (query_one D statement) (\<lambda>item.
     bind_s (if item \<noteq> None then ok_s (True, True)
             else bind_s (lift_r (exists_statement S schema key)) (\<lambda>exists_statement.
                  bind_s (query_one D exists_statement) (\<lambda>row. ok_s (row \<noteq> None, False)))) (\<lambda>(found, changed).
       ok_s \<lparr> mu_schema = ts_schema schema, mu_table = ts_table schema, mu_found = found, mu_changed = changed, mu_item = item \<rparr>))))"

definition table_delete ::
  "('n, 'f) serde \<Rightarrow> ('db, 'n, 'f, 'row) database \<Rightarrow> string option \<Rightarrow> string \<Rightarrow> 'n JsonMap \<Rightarrow> ('db, string, TableDeleteResult) sm" where
  "table_delete S D schema table key =
     bind_s (describe_for D schema table) (\<lambda>schema.
     bind_s (lift_r (table_delete_statement S schema key)) (\<lambda>statement.
     bind_s (query_one D statement) (\<lambda>row.
     (let deleted = (row \<noteq> None) in
     bind_s (if deleted then ok_s True
             else bind_s (lift_r (exists_statement S schema key)) (\<lambda>exists_statement.
                  bind_s (query_one D exists_statement) (\<lambda>row. ok_s (row \<noteq> None)))) (\<lambda>found.
       ok_s \<lparr> del_schema = ts_schema schema, del_table = ts_table schema, del_found = found, del_deleted = deleted,
              del_rows_affected = (if deleted then 1 else 0) \<rparr>)))))"

section \<open>SQL parameters\<close>

datatype SqlParamKind = Integer | Bigint | Float | Boolean | Kind_String | Json

datatype 'n SqlParamInput = Raw "'n json" | Typed SqlParamKind "'n json"

text \<open>
  \<open>#[serde(untagged)]\<close> tries the variants in their order and takes the first that accepts the value; \<open>Raw\<close>
  holds any JSON value, \<open>Typed\<close> an object with exactly the fields \<open>kind\<close> and \<open>value\<close>.
\<close>

definition param_kind :: "string \<Rightarrow> SqlParamKind option" where
  "param_kind s = map_of [(''integer'', Integer), (''bigint'', Bigint), (''float'', Float), (''boolean'', Boolean),
     (''string'', Kind_String), (''json'', Json)] s"

definition deserialize_raw :: "'n json \<Rightarrow> 'n SqlParamInput option" where
  "deserialize_raw v = Some (Raw v)"

definition deserialize_typed :: "'n json \<Rightarrow> 'n SqlParamInput option" where
  "deserialize_typed v =
     (case v of
        JObject ents \<Rightarrow>
          if set (map fst ents) \<subseteq> {''kind'', ''value''} then
            (case (map_of ents ''kind'', map_of ents ''value'') of
               (Some (JString k), Some x) \<Rightarrow> map_option (\<lambda>kind. Typed kind x) (param_kind k)
             | _ \<Rightarrow> None)
          else None
      | _ \<Rightarrow> None)"

definition deserialize_param :: "'n json \<Rightarrow> 'n SqlParamInput option" where
  "deserialize_param v = (case deserialize_raw v of Some p \<Rightarrow> Some p | None \<Rightarrow> deserialize_typed v)"

definition raw_json_param_to_value :: "('n, 'f) serde \<Rightarrow> 'n json \<Rightarrow> string + ('n, 'f) bound" where
  "raw_json_param_to_value S value =
     (case value of
        JNull \<Rightarrow> Inr (Bound_Json None)
      | JBool b \<Rightarrow> Inr (Bound_Bool b)
      | JNumber n \<Rightarrow>
          (case number_as_i64 S n of
             Some i \<Rightarrow> Inr (Bound_BigInt i)
           | None \<Rightarrow>
          (case number_as_u64 S n of
             Some u \<Rightarrow> Inr (Bound_BigUnsigned u)
           | None \<Rightarrow>
          (case number_as_f64 S n of
             Some f \<Rightarrow> Inr (Bound_Double f)
           | None \<Rightarrow> Inl ''unsupported numeric SQL parameter'')))
      | JString s \<Rightarrow> Inr (Bound_String s)
      | JArray _ \<Rightarrow> Inr (Bound_Json (Some value))
      | JObject _ \<Rightarrow> Inr (Bound_Json (Some value)))"

definition parse_typed_i64 :: "('n, 'f) serde \<Rightarrow> 'n json \<Rightarrow> string + int" where
  "parse_typed_i64 S value =
     (case value of
        JNumber n \<Rightarrow> ok_or ''must be an integer-compatible JSON number'' (number_as_i64 S n)
      | JString text \<Rightarrow> ok_or ''not a valid integer'' (parse_i64 text)
      | _ \<Rightarrow> Inl ''must be a number or numeric string'')"

definition parse_typed_f64 :: "('n, 'f) serde \<Rightarrow> 'n json \<Rightarrow> string + 'f" where
  "parse_typed_f64 S value =
     (case value of
        JNumber n \<Rightarrow> ok_or ''must be a numeric JSON value'' (number_as_f64 S n)
      | JString text \<Rightarrow> ok_or ''not a valid float'' (parse_f64 S text)
      | _ \<Rightarrow> Inl ''must be a number or numeric string'')"

definition parse_typed_bool :: "'n json \<Rightarrow> string + bool" where
  "parse_typed_bool value =
     (case value of
        JBool b \<Rightarrow> Inr b
      | JString text \<Rightarrow>
          if eq_ignore_ascii_case text ''true'' then Inr True
          else if eq_ignore_ascii_case text ''false'' then Inr False
          else Inl ''must be a bool''
      | _ \<Rightarrow> Inl ''must be a bool'')"

definition json_display :: "('n, 'f) serde \<Rightarrow> 'n json \<Rightarrow> string" where
  "json_display S value = (case json_text S value of Some t \<Rightarrow> t | None \<Rightarrow> [])"

definition parse_typed_string :: "('n, 'f) serde \<Rightarrow> 'n json \<Rightarrow> string" where
  "parse_typed_string S value = (case value of JString s \<Rightarrow> s | _ \<Rightarrow> json_display S value)"

definition typed_json_param_to_value :: "('n, 'f) serde \<Rightarrow> SqlParamKind \<Rightarrow> 'n json \<Rightarrow> string + ('n, 'f) bound" where
  "typed_json_param_to_value S kind value =
     (case kind of
        Integer \<Rightarrow> bind_r (parse_typed_i64 S value) (\<lambda>i.
          if - 2147483648 \<le> i \<and> i \<le> 2147483647 then Inr (Bound_Int i) else Inl ''out of range for i32'')
      | Bigint \<Rightarrow> bind_r (parse_typed_i64 S value) (\<lambda>i. Inr (Bound_BigInt i))
      | Float \<Rightarrow> bind_r (parse_typed_f64 S value) (\<lambda>f. Inr (Bound_Double f))
      | Boolean \<Rightarrow> bind_r (parse_typed_bool value) (\<lambda>b. Inr (Bound_Bool b))
      | Kind_String \<Rightarrow> Inr (Bound_String (parse_typed_string S value))
      | Json \<Rightarrow> Inr (Bound_Json (Some value)))"

definition json_param_to_value :: "('n, 'f) serde \<Rightarrow> 'n SqlParamInput \<Rightarrow> string + ('n, 'f) bound" where
  "json_param_to_value S param =
     (case param of Raw value \<Rightarrow> raw_json_param_to_value S value | Typed kind value \<Rightarrow> typed_json_param_to_value S kind value)"

definition convert_sql_params :: "('n, 'f) serde \<Rightarrow> 'n SqlParamInput list \<Rightarrow> string + ('n, 'f) bound list" where
  "convert_sql_params S params = collect_r (json_param_to_value S) params"

section \<open>SQL tools\<close>

definition DEFAULT_SQL_QUERY_LIMIT :: nat where "DEFAULT_SQL_QUERY_LIMIT = 200"
definition MAX_SQL_QUERY_LIMIT :: nat where "MAX_SQL_QUERY_LIMIT = 1000"

definition READONLY_SQL_SUBQUERY_ALIAS :: string where
  "READONLY_SQL_SUBQUERY_ALIAS = ''__summer_mcp_readonly''"

definition normalize_explicit_schema :: "string option \<Rightarrow> string + string option" where
  "normalize_explicit_schema schema =
     (case schema of None \<Rightarrow> Inr None | Some v \<Rightarrow> bind_r (normalize_schema (Some v)) (\<lambda>s. Inr (Some s)))"

definition search_path_statement :: "string \<Rightarrow> ('n, 'f) statement" where
  "search_path_statement schema = (''SET LOCAL search_path TO '' @ quote_identifier schema @ '', pg_catalog'', [])"

definition wrapped_sql :: "string \<Rightarrow> nat \<Rightarrow> string" where
  "wrapped_sql sql limit = ''SELECT * FROM ('' @ sql @ '') AS '' @ quote_identifier READONLY_SQL_SUBQUERY_ALIAS @ '' LIMIT '' @ show_nat limit"

text \<open>The statements of the transaction of each tool, in their order, and the limit that the result reports.\<close>

definition sql_query_readonly_plan ::
  "('n, 'f) serde \<Rightarrow> string option \<Rightarrow> string \<Rightarrow> 'n SqlParamInput list \<Rightarrow> nat option \<Rightarrow> string + (('n, 'f) statement list \<times> nat)" where
  "sql_query_readonly_plan S schema sql params limit =
     bind_r (normalize_readonly_sql sql) (\<lambda>sql.
     bind_r (normalize_explicit_schema schema) (\<lambda>search_path_schema.
     (let limit = max 1 (min MAX_SQL_QUERY_LIMIT (case limit of Some l \<Rightarrow> l | None \<Rightarrow> DEFAULT_SQL_QUERY_LIMIT)) in
     bind_r (convert_sql_params S params) (\<lambda>params.
       Inr ((case search_path_schema of Some s \<Rightarrow> [search_path_statement s] | None \<Rightarrow> []) @ [(wrapped_sql sql limit, params)], limit)))))"

definition sql_exec_plan ::
  "('n, 'f) serde \<Rightarrow> string option \<Rightarrow> string \<Rightarrow> 'n SqlParamInput list \<Rightarrow> string + ('n, 'f) statement list" where
  "sql_exec_plan S schema sql params =
     bind_r (normalize_exec_sql sql) (\<lambda>sql.
     bind_r (normalize_explicit_schema schema) (\<lambda>search_path_schema.
     bind_r (convert_sql_params S params) (\<lambda>params.
       Inr ((case search_path_schema of Some s \<Rightarrow> [search_path_statement s] | None \<Rightarrow> []) @ [(sql, params)]))))"

end
