(* ===== verification/Table_Fragments.thy ===== *)
theory Table_Fragments
  imports Table_Tools
begin

text \<open>
  How the pieces of a built statement read: \<open>frag\<close> says that a text is a sequence of lexemes wherever it
  stands, that its words and quoted identifiers come from given sets, that it holds no literal, comment or
  dollar quote, and which placeholders it has, in their order. The clauses of \<open>Table_Query\<close> are then read
  piece by piece.
\<close>

section \<open>Placeholders\<close>

definition digit_first :: "lexeme list \<Rightarrow> bool" where
  "digit_first ls \<longleftrightarrow> (case ls of Other c # _ \<Rightarrow> is_digit c | _ \<Rightarrow> False)"

inductive marks :: "lexeme list \<Rightarrow> nat list \<Rightarrow> bool" where
  marks_end: "marks [] []"
| marks_skip: "marks ls ns \<Longrightarrow> l \<noteq> Other (CHR ''$'') \<Longrightarrow> marks (l # ls) ns"
| marks_hole: "marks ls ns \<Longrightarrow> \<not> digit_first ls \<Longrightarrow> marks (Other (CHR ''$'') # map Other (show_nat n) @ ls) (n # ns)"

lemma marks_append: "marks ls ns \<Longrightarrow> marks ms ks \<Longrightarrow> \<not> digit_first ms \<Longrightarrow> marks (ls @ ms) (ns @ ks)"
proof (induction rule: marks.induct)
  case (marks_hole ls ns n)
  have "\<not> digit_first (ls @ ms)" using marks_hole by (cases ls) (auto simp: digit_first_def)
  then show ?case using marks.marks_hole [of "ls @ ms" "ns @ ks" n] marks_hole by simp
qed (auto intro: marks.intros)

lemma marks_none: "Other (CHR ''$'') \<notin> set ls \<Longrightarrow> marks ls []"
  by (induction ls) (auto intro: marks.intros)

section \<open>Fragments\<close>

definition safe_start :: "string \<Rightarrow> bool" where
  "safe_start r \<longleftrightarrow> r = [] \<or> hd r \<in> {CHR '' '', CHR '','', CHR '')''}"

definition allowed :: "string set \<Rightarrow> string set \<Rightarrow> lexeme \<Rightarrow> bool" where
  "allowed W I l \<longleftrightarrow>
     (case l of
        Word w \<Rightarrow> to_ascii_lowercase w \<in> W
      | Quoted p q b \<Rightarrow> p = [] \<and> q = dquote \<and> b \<in> I
      | Other _ \<Rightarrow> True
      | _ \<Rightarrow> False)"

definition frag :: "bool \<Rightarrow> string set \<Rightarrow> string set \<Rightarrow> string \<Rightarrow> nat list \<Rightarrow> bool" where
  "frag anywhere W I f ns \<longleftrightarrow>
     (\<exists>ls. ls \<noteq> [] \<and> (\<forall>r ms. anywhere \<or> safe_start r \<longrightarrow> reads r ms \<longrightarrow> reads (f @ r) (ls @ ms)) \<and>
        list_all (allowed W I) ls \<and> marks ls ns \<and> \<not> digit_first ls)"

lemma fragI:
  assumes "ls \<noteq> []" "\<And>r ms. anywhere \<or> safe_start r \<Longrightarrow> reads r ms \<Longrightarrow> reads (f @ r) (ls @ ms)"
    "list_all (allowed W I) ls" "marks ls ns" "\<not> digit_first ls"
  shows "frag anywhere W I f ns"
  unfolding frag_def using assms by blast

lemma frag_append:
  assumes f: "frag a W I f ns" and g: "frag b W I g ks" and s: "a \<or> g \<noteq> [] \<and> safe_start g"
  shows "frag b W I (f @ g) (ns @ ks)"
proof -
  obtain ls where ls: "ls \<noteq> []" "\<And>r ms. a \<or> safe_start r \<Longrightarrow> reads r ms \<Longrightarrow> reads (f @ r) (ls @ ms)"
    "list_all (allowed W I) ls" "marks ls ns" "\<not> digit_first ls"
    using f unfolding frag_def by blast
  obtain ms where ms: "ms \<noteq> []" "\<And>r us. b \<or> safe_start r \<Longrightarrow> reads r us \<Longrightarrow> reads (g @ r) (ms @ us)"
    "list_all (allowed W I) ms" "marks ms ks" "\<not> digit_first ms"
    using g unfolding frag_def by blast
  show ?thesis
  proof (rule fragI [of "ls @ ms"])
    fix r us assume r: "b \<or> safe_start r" and "reads r us"
    then have "reads (g @ r) (ms @ us)" using ms(2) by blast
    moreover have "a \<or> safe_start (g @ r)" using s by (auto simp: safe_start_def)
    ultimately have "reads (f @ g @ r) (ls @ ms @ us)" using ls(2) by blast
    then show "reads ((f @ g) @ r) ((ls @ ms) @ us)" by simp
  next
    show "\<not> digit_first (ls @ ms)" using ls(1,5) by (cases ls) (auto simp: digit_first_def)
  qed (use ls ms marks_append in auto)
qed

lemma frag_weaken: "frag a W I f ns \<Longrightarrow> frag False W I f ns"
  unfolding frag_def by blast

lemma allowed_mono: "allowed W I l \<Longrightarrow> W \<subseteq> W' \<Longrightarrow> I \<subseteq> I' \<Longrightarrow> allowed W' I' l"
  by (cases l) (auto simp: allowed_def)

lemma frag_mono: "frag a W I f ns \<Longrightarrow> W \<subseteq> W' \<Longrightarrow> I \<subseteq> I' \<Longrightarrow> frag a W' I' f ns"
  unfolding frag_def using allowed_mono list_all_iff by (metis (no_types, lifting))

lemma frag_reads: "frag a W I f ns \<Longrightarrow> \<exists>ls. reads f ls \<and> list_all (allowed W I) ls \<and> marks ls ns"
proof -
  assume "frag a W I f ns"
  then obtain ls where ls: "\<And>r ms. a \<or> safe_start r \<Longrightarrow> reads r ms \<Longrightarrow> reads (f @ r) (ls @ ms)"
    "list_all (allowed W I) ls" "marks ls ns"
    unfolding frag_def by blast
  have "reads (f @ []) (ls @ [])" using ls(1) [OF _ reads_end] by (simp add: safe_start_def)
  then show ?thesis using ls(2,3) by auto
qed

section \<open>Fixed texts\<close>

definition plain_char :: "char \<Rightarrow> bool" where
  "plain_char c \<longleftrightarrow> c \<in> set '' ,()=<>*.:!''"

function plain_lex :: "string \<Rightarrow> lexeme list" where
  "plain_lex [] = []"
| "plain_lex (c # cs) =
     (if is_word_start c then Word (c # takeWhile is_word_char cs) # plain_lex (dropWhile is_word_char cs)
      else Other c # plain_lex cs)"
  by pat_completeness auto
termination
  by (relation "measure length") (auto simp: le_imp_less_Suc length_dropWhile_le)

definition plain_text :: "string \<Rightarrow> bool" where
  "plain_text f \<longleftrightarrow> f \<noteq> [] \<and> list_all (\<lambda>c. plain_char c \<or> is_word_char c) f \<and> \<not> is_digit (hd f)"

definition text_words :: "string \<Rightarrow> string list" where
  "text_words f = concat (map words_of (plain_lex f))"

lemma plain_not: "plain_char c \<Longrightarrow> \<not> is_word_char c \<and> c \<notin> {squote, dquote, CHR '';'', CHR ''-'', CHR ''/'', CHR ''$'', CHR ''&''}"
  by (auto simp: plain_char_def is_word_char_def is_ascii_alphabetic_def is_digit_def)

lemma dollar_tag_hd: "dollar_tag tag \<Longrightarrow> \<exists>t. tag = CHR ''$'' # t"
  by (auto simp: dollar_tag_def)

lemma other_fits:
  assumes "plain_char c \<or> is_word_char c \<and> \<not> is_word_start c"
  shows "fits (Other c) r"
proof -
  have c: "c \<notin> {squote, dquote, CHR '';'', CHR ''-'', CHR ''/'', CHR ''$''}"
    using assms plain_not by (auto simp: is_word_char_def is_word_start_def is_digit_def)
  have w: "\<not> is_word_start c" using assms plain_not word_start_char by blast
  have "\<not> (\<exists>tag t. dollar_tag tag \<and> c # r = tag @ t)" using c dollar_tag_hd by fastforce
  then show ?thesis using c w by simp
qed

lemma word_fits:
  assumes "is_word_start c" "list_all is_word_char w"
    "r = [] \<or> plain_char (hd r) \<or> safe_start r"
  shows "fits (Word (c # w)) r"
proof -
  have d: "\<not> is_word_char d \<and> d \<notin> {squote, CHR ''&''}" if "r = d # r'" for d r'
  proof -
    have "plain_char d" using assms(3) that by (auto simp: safe_start_def plain_char_def)
    then show ?thesis using plain_not by blast
  qed
  have "list_all is_word_char (c # w)" using assms word_start_char by simp
  then show ?thesis using assms(1) d by (cases r) (auto simp: prefix_def)
qed

lemma reads_plain:
  "list_all (\<lambda>c. plain_char c \<or> is_word_char c) g \<Longrightarrow> g \<noteq> [] \<and> plain_char (last g) \<or> safe_start r \<Longrightarrow> reads r ms \<Longrightarrow>
   reads (g @ r) (plain_lex g @ ms)"
proof (induction g rule: plain_lex.induct)
  case (2 c cs)
  show ?case
  proof (cases "is_word_start c")
    case True
    let ?w = "takeWhile is_word_char cs" and ?d = "dropWhile is_word_char cs"
    have d: "list_all (\<lambda>c. plain_char c \<or> is_word_char c) ?d"
      using "2.prems"(1) by (auto simp: list_all_iff dest: set_dropWhileD)
    have "\<not> plain_char c" using True plain_not word_start_char by blast
    have last: "?d \<noteq> [] \<and> plain_char (last ?d) \<or> safe_start r"
    proof (cases "safe_start r")
      case False
      then have l: "plain_char (last (c # cs))" using "2.prems"(2) by simp
      then have cs: "cs \<noteq> []" using \<open>\<not> plain_char c\<close> by auto
      then have "plain_char (last cs)" using l by simp
      then have nw: "\<not> is_word_char (last cs)" using plain_not by blast
      have "?d \<noteq> []" using nw cs by (metis dropWhile_eq_Nil_conv last_in_set)
      moreover have "last ?d = last cs" using \<open>?d \<noteq> []\<close> by (metis last_append takeWhile_dropWhile_id)
      ultimately show ?thesis using \<open>plain_char (last cs)\<close> by simp
    qed simp
    have tail: "reads (?d @ r) (plain_lex ?d @ ms)" using "2.IH"(1) [OF True d last "2.prems"(3)] .
    have start: "?d @ r = [] \<or> plain_char (hd (?d @ r)) \<or> safe_start (?d @ r)"
    proof (cases "?d = []")
      case True
      then have "safe_start r" using last by blast
      then show ?thesis unfolding True by simp
    next
      case False
      then have "\<not> is_word_char (hd ?d)" by (rule hd_dropWhile)
      moreover have "hd ?d \<in> set ?d" using False by simp
      ultimately have "plain_char (hd ?d)" using d by (auto simp: list_all_iff)
      then show ?thesis using False by simp
    qed
    have "list_all is_word_char ?w" by (auto simp: list_all_iff dest: set_takeWhileD)
    then have "fits (Word (c # ?w)) (?d @ r)" using word_fits True start by blast
    from reads_next [OF this tail] show ?thesis using True by (simp add: takeWhile_dropWhile_id del: fits.simps flip: append_assoc)
  next
    case False
    have c: "plain_char c \<or> is_word_char c \<and> \<not> is_word_start c" using "2.prems"(1) False by auto
    have "reads (cs @ r) (plain_lex cs @ ms)"
    proof (cases "cs = []")
      case True
      then show ?thesis using "2.prems"(3) by simp
    next
      case cs: False
      then show ?thesis using "2.IH"(2) [OF False] "2.prems" by simp
    qed
    from reads_next [OF other_fits [OF c] this] show ?thesis using False by simp
  qed
qed simp

lemma plain_lex_ne: "plain_lex f = [] \<longleftrightarrow> f = []"
  by (cases f) auto

lemma plain_allowed: "set (text_words f) \<subseteq> W \<Longrightarrow> list_all (allowed W I) (plain_lex f)"
  unfolding text_words_def by (induction f rule: plain_lex.induct) (auto simp: allowed_def words_of_def)

lemma plain_no_dollar: "list_all (\<lambda>c. plain_char c \<or> is_word_char c) f \<Longrightarrow> Other (CHR ''$'') \<notin> set (plain_lex f)"
proof (induction f rule: plain_lex.induct)
  case (2 c cs)
  have "\<not> plain_char (CHR ''$'')" "\<not> is_word_char (CHR ''$'')" by code_simp+
  then have "c \<noteq> CHR ''$''" using 2(3) by auto
  moreover have "list_all (\<lambda>c. plain_char c \<or> is_word_char c) (dropWhile is_word_char cs)"
    using 2(3) by (auto simp: list_all_iff dest: set_dropWhileD)
  ultimately show ?case using 2 by simp
qed simp

lemma frag_plain:
  assumes f: "plain_text f" and w: "set (text_words f) \<subseteq> W" and a: "a \<longrightarrow> plain_char (last f)"
  shows "frag a W I f []"
proof (rule fragI [of "plain_lex f"])
  have all: "list_all (\<lambda>c. plain_char c \<or> is_word_char c) f" and ne: "f \<noteq> []" and d: "\<not> is_digit (hd f)"
    using f by (simp_all add: plain_text_def)
  show "plain_lex f \<noteq> []" using ne by (simp add: plain_lex_ne)
  show "reads (f @ r) (plain_lex f @ ms)" if "a \<or> safe_start r" "reads r ms" for r ms
    using reads_plain [OF all _ that(2)] that(1) a ne by blast
  show "list_all (allowed W I) (plain_lex f)" using w by (rule plain_allowed)
  show "marks (plain_lex f) []" using plain_no_dollar [OF all] by (rule marks_none)
  show "\<not> digit_first (plain_lex f)" using d ne by (cases f) (auto simp: digit_first_def)
qed

section \<open>Identifiers and placeholders\<close>

lemma not_dollar_tag_quote: "c \<noteq> CHR ''$'' \<Longrightarrow> \<not> (\<exists>tag t. dollar_tag tag \<and> c # r = tag @ t)"
  using dollar_tag_hd by fastforce

lemma reads_ident: "reads r ms \<Longrightarrow> \<not> starts_with dquote r \<Longrightarrow> reads (quote_identifier name @ r) (Quoted [] dquote name # ms)"
proof -
  assume r: "reads r ms" "\<not> starts_with dquote r"
  have "fits (Quoted [] dquote name) r" using r(2) by (simp add: ident_prefixes_def)
  from reads_next [OF this r(1)] show ?thesis by (simp add: quote_identifier_def)
qed

lemma safe_not_quote: "safe_start r \<Longrightarrow> \<not> starts_with dquote r"
  by (cases r) (auto simp: safe_start_def)

lemma frag_ident: "name \<in> I \<Longrightarrow> frag False W I (quote_identifier name) []"
  by (rule fragI [of "[Quoted [] dquote name]"])
     (auto simp: reads_ident safe_not_quote allowed_def digit_first_def intro: marks.intros)

lemma frag_qualified:
  assumes "ts_schema schema \<in> I" "ts_table schema \<in> I"
  shows "frag False W I (qualified_name schema) []"
proof (rule fragI [of "[Quoted [] dquote (ts_schema schema), Other (CHR ''.''), Quoted [] dquote (ts_table schema)]"])
  fix r ms assume r: "False \<or> safe_start r" "reads r ms"
  let ?t = "quote_identifier (ts_table schema)"
  have "reads (?t @ r) (Quoted [] dquote (ts_table schema) # ms)" using r by (simp add: reads_ident safe_not_quote)
  moreover have "fits (Other (CHR ''.'')) (?t @ r)" by (rule other_fits) (simp add: plain_char_def)
  ultimately have "reads (CHR ''.'' # ?t @ r) (Other (CHR ''.'') # Quoted [] dquote (ts_table schema) # ms)"
    using reads_next [of "Other (CHR ''.'')"] by fastforce
  then show "reads (qualified_name schema @ r)
      ([Quoted [] dquote (ts_schema schema), Other (CHR ''.''), Quoted [] dquote (ts_table schema)] @ ms)"
    using reads_ident [of "CHR ''.'' # ?t @ r" _ "ts_schema schema"] by (simp add: qualified_name_def)
qed (use assms in \<open>auto simp: allowed_def digit_first_def intro: marks.intros\<close>)

lemma digit_not_start: "is_digit c \<Longrightarrow> is_word_char c \<and> \<not> is_word_start c"
  by (auto simp: is_digit_def is_word_char_def is_word_start_def is_ascii_alphabetic_def)

lemma reads_digits: "list_all is_digit ds \<Longrightarrow> reads r ms \<Longrightarrow> reads (ds @ r) (map Other ds @ ms)"
proof (induction ds)
  case (Cons d ds)
  then have "fits (Other d) (ds @ r)" by (intro other_fits disjI2 digit_not_start) simp
  from reads_next [OF this] show ?case using Cons by simp
qed simp

lemma frag_hole: "frag False W I (CHR ''$'' # show_nat n) [n]"
proof (rule fragI [of "Other (CHR ''$'') # map Other (show_nat n)"])
  fix r ms assume r: "False \<or> safe_start r" "reads r ms"
  have notag: "\<not> (\<exists>tag t. dollar_tag tag \<and> CHR ''$'' # show_nat n @ r = tag @ t)"
  proof -
    have all: "list_all is_word_char (show_nat n)"
      using show_nat_digits [of n] digit_not_start by (auto simp: list_all_iff)
    have "\<not> starts_with (CHR ''$'') (dropWhile is_word_char r)"
    proof (cases r)
      case (Cons c r')
      then have "\<not> is_word_char c" "c \<noteq> CHR ''$''" using r(1) by (auto simp: safe_start_def is_word_char_def is_ascii_alphabetic_def is_digit_def)
      then show ?thesis using Cons by simp
    qed simp
    moreover have "dropWhile is_word_char (show_nat n @ r) = dropWhile is_word_char r"
      using all by (simp add: list_all_iff)
    ultimately have "parse_dollar_quote_tag (CHR ''$'' # show_nat n @ r) = None"
      by (simp add: parse_dollar_quote_tag_def)
    then show ?thesis by (simp add: parse_no_tag)
  qed
  have "reads (show_nat n @ r) (map Other (show_nat n) @ ms)" using show_nat_digits r(2) by (rule reads_digits)
  moreover have "fits (Other (CHR ''$'')) (show_nat n @ r)" using notag by simp
  ultimately show "reads ((CHR ''$'' # show_nat n) @ r) ((Other (CHR ''$'') # map Other (show_nat n)) @ ms)"
    using reads_next [of "Other (CHR ''$'')"] by fastforce
next
  show "marks (Other (CHR ''$'') # map Other (show_nat n)) [n]"
    using marks_hole [OF marks_end, of n] by (simp add: digit_first_def)
qed (auto simp: allowed_def digit_first_def is_digit_def list_all_iff)

lemma frag_join:
  assumes sep: "frag True W I sep []" "sep \<noteq> []" "safe_start sep"
  shows "list_all2 (frag False W I) fs nss \<Longrightarrow> fs \<noteq> [] \<Longrightarrow> frag False W I (join_with sep fs) (concat nss)"
proof (induction fs arbitrary: nss)
  case (Cons p ps)
  then obtain ns nss' where n: "nss = ns # nss'" "frag False W I p ns" "list_all2 (frag False W I) ps nss'"
    by (auto simp: list_all2_Cons1)
  show ?case
  proof (cases ps)
    case Nil
    then show ?thesis using n by simp
  next
    case (Cons q qs)
    then have "frag False W I (join_with sep ps) (concat nss')" using Cons.IH n(3) by simp
    from frag_append [OF sep(1) this] have "frag False W I (sep @ join_with sep ps) (concat nss')" by simp
    moreover have "sep @ join_with sep ps \<noteq> []" "safe_start (sep @ join_with sep ps)" using sep(2,3) by (auto simp: safe_start_def)
    ultimately have "frag False W I (p @ sep @ join_with sep ps) (ns @ concat nss')" using frag_append [OF n(2)] by blast
    then show ?thesis using n(1) Cons by simp
  qed
qed simp

end
