(* ===== verification/Table_Safety.thy ===== *)
theory Table_Safety
  imports Table_Fragments
begin

text \<open>
  What each clause of \<open>Table_Query\<close> reads as: its words are keywords of the tools and words of column
  types, its quoted identifiers are column names, and its placeholders continue the bound values.
\<close>

definition KEYWORDS :: "string list" where
  "KEYWORDS =
     [''select'', ''from'', ''where'', ''limit'', ''offset'', ''order'', ''by'', ''asc'', ''desc'', ''count'', ''bigint'', ''as'', ''total'',
      ''insert'', ''into'', ''values'', ''returning'', ''update'', ''set'', ''delete'', ''deleted'', ''v'', ''cast'', ''text'', ''null'',
      ''is'', ''not'', ''in'', ''between'', ''and'', ''or'', ''like'', ''ilike'']"

definition kw :: "string set \<Rightarrow> string set" where
  "kw V = set KEYWORDS \<union> V"

definition fixed_text :: "bool \<Rightarrow> string \<Rightarrow> bool" where
  "fixed_text a f \<longleftrightarrow> plain_text f \<and> list_all (\<lambda>w. w \<in> set KEYWORDS) (text_words f) \<and> (a \<longrightarrow> plain_char (last f))"

lemmas fixed_simps = fixed_text_def plain_text_def text_words_def KEYWORDS_def plain_char_def is_word_char_def is_word_start_def
  is_ascii_alphabetic_def is_digit_def words_of_def to_ascii_lowercase_def char_of_def bit_iff_odd safe_start_def

lemma frag_text: "fixed_text a f \<Longrightarrow> frag a (kw V) I f []"
  by (rule frag_plain) (auto simp: fixed_text_def kw_def list_all_iff)

text \<open>The placeholders that a clause adds to the values bound so far.\<close>

definition numbered :: "'a list \<Rightarrow> 'a list \<Rightarrow> nat list" where
  "numbered ps qs = [length ps + 1 ..< length qs + 1]"

lemma numbered_same [simp]: "numbered ps ps = []"
  by (simp add: numbered_def)

lemma numbered_one: "numbered ps (ps @ [x]) = [length ps + 1]"
  by (simp add: numbered_def)

lemma numbered_trans: "length ps \<le> length qs \<Longrightarrow> length qs \<le> length rs \<Longrightarrow> numbered ps qs @ numbered qs rs = numbered ps rs"
proof -
  assume "length ps \<le> length qs" "length qs \<le> length rs"
  then obtain k where "length rs + 1 = (length qs + 1) + k" by (metis add.assoc add.commute le_Suc_ex)
  then show ?thesis using upt_add_eq_append [of "length ps + 1" "length qs + 1" k] \<open>length ps \<le> length qs\<close>
    by (simp add: numbered_def)
qed

definition built :: "string set \<Rightarrow> string set \<Rightarrow> string \<Rightarrow> 'a list \<Rightarrow> 'a list \<Rightarrow> bool" where
  "built V I f ps qs \<longleftrightarrow> length ps \<le> length qs \<and> frag False (kw V) I f (numbered ps qs)"

definition built_all :: "string set \<Rightarrow> string set \<Rightarrow> string list \<Rightarrow> 'a list \<Rightarrow> 'a list \<Rightarrow> bool" where
  "built_all V I fs ps qs \<longleftrightarrow>
     length ps \<le> length qs \<and> (\<exists>nss. list_all2 (frag False (kw V) I) fs nss \<and> concat nss = numbered ps qs)"

lemma built_all_Nil: "built_all V I [] ps ps"
  by (simp add: built_all_def)

lemma built_all_Cons: "built V I f ps qs \<Longrightarrow> built_all V I fs qs rs \<Longrightarrow> built_all V I (f # fs) ps rs"
proof -
  assume f: "built V I f ps qs" and fs: "built_all V I fs qs rs"
  then obtain nss where n: "list_all2 (frag False (kw V) I) fs nss" "concat nss = numbered qs rs" by (auto simp: built_all_def)
  have "list_all2 (frag False (kw V) I) (f # fs) (numbered ps qs # nss)" using f n(1) by (simp add: built_def)
  moreover have "concat (numbered ps qs # nss) = numbered ps rs"
    using f fs n(2) numbered_trans [of ps qs rs] by (simp add: built_def built_all_def)
  ultimately show ?thesis using f fs unfolding built_def built_all_def by (meson le_trans)
qed

lemma built_join:
  assumes "built_all V I fs ps qs" "fs \<noteq> []" "fixed_text True sep" "safe_start sep"
  shows "built V I (join_with sep fs) ps qs"
proof -
  have "sep \<noteq> []" using assms(3) by (auto simp: fixed_text_def plain_text_def)
  then show ?thesis using assms frag_join [OF frag_text [OF assms(3)]] unfolding built_def built_all_def by metis
qed

lemma built_glue: "built V I f ps qs \<Longrightarrow> fixed_text a g \<Longrightarrow> safe_start g \<Longrightarrow> frag False (kw V) I (f @ g) (numbered ps qs)"
  unfolding built_def using frag_append [of False "kw V" I f "numbered ps qs" a g "[]"] frag_text frag_weaken
  by (metis append_Nil2 fixed_text_def plain_text_def)

section \<open>Values\<close>

text \<open>The hypothesis on a schema: every column type reads as a fragment, with words in \<open>V\<close> and identifiers in \<open>I\<close>.\<close>

definition type_ok :: "string set \<Rightarrow> string set \<Rightarrow> TableColumnSchema \<Rightarrow> bool" where
  "type_ok V I c \<longleftrightarrow> frag False (kw V) I (pg_type c) []"

lemma frag_cast: "type_ok V I c \<Longrightarrow> frag True (kw V) I (''CAST('' @ (CHR ''$'' # show_nat i) @ '' AS '' @ pg_type c @ '')'') [i]"
proof -
  assume t: "type_ok V I c"
  have "frag True (kw V) I (pg_type c @ '')'') []"
    using frag_append [of False _ _ "pg_type c" "[]" True "'')''" "[]"] t frag_text [of True "'')''"]
    by (simp add: type_ok_def safe_start_def fixed_text_def plain_text_def plain_char_def text_words_def is_word_start_def
        is_ascii_alphabetic_def is_digit_def words_of_def)
  moreover have "fixed_text True '' AS ''" by code_simp
  ultimately have as: "frag True (kw V) I ('' AS '' @ pg_type c @ '')'') []"
    using frag_append [OF frag_text, of True "'' AS ''"] by fastforce
  have "frag True (kw V) I ((CHR ''$'' # show_nat i) @ '' AS '' @ pg_type c @ '')'') [i]"
    using frag_append [OF frag_hole as, of i] by (simp add: safe_start_def)
  moreover have "fixed_text True ''CAST(''" by code_simp
  ultimately show ?thesis using frag_append [OF frag_text, of True "''CAST(''"] by fastforce
qed

lemma built_cast:
  assumes "bind_cast_value S (length ps + 1) c v ps = Inr (f, qs)" "type_ok V I c"
  shows "built V I f ps qs"
proof -
  obtain b where "json_value_to_bound_string S v = Inr b" using assms(1) by (auto simp: bind_cast_value_def bind_r_Inr)
  show ?thesis
  proof (cases b)
    case None
    have "fixed_text False ''NULL''" by code_simp
    then have "frag False (kw V) I ''NULL'' []" by (rule frag_text)
    then show ?thesis using assms(1) None \<open>json_value_to_bound_string S v = Inr b\<close> by (simp add: bind_cast_value_def built_def)
  next
    case (Some t)
    have "f = ''CAST('' @ (CHR ''$'' # show_nat (length ps + 1)) @ '' AS '' @ pg_type c @ '')''" "qs = ps @ [Bound_String t]"
      using assms(1) Some \<open>json_value_to_bound_string S v = Inr b\<close> by (simp_all add: bind_cast_value_def)
    then show ?thesis using frag_weaken [OF frag_cast [OF assms(2), of "length ps + 1"]] by (simp add: built_def numbered_one)
  qed
qed

text \<open>A quoted column, an operator, a value.\<close>

lemma built_column:
  assumes "built V I f ps qs" "name \<in> I" "fixed_text True op" "safe_start op"
  shows "built V I (quote_identifier name @ op @ f) ps qs"
proof -
  have ne: "op \<noteq> []" using assms(3) by (auto simp: fixed_text_def plain_text_def)
  have op: "frag True (kw V) I op []" using assms(3) by (rule frag_text)
  have "frag False (kw V) I (op @ f) (numbered ps qs)"
    using frag_append [OF op, of False f "numbered ps qs"] assms(1) by (simp add: built_def)
  moreover have "op @ f \<noteq> []" "safe_start (op @ f)" using assms(4) ne by (auto simp: safe_start_def)
  ultimately have "frag False (kw V) I (quote_identifier name @ op @ f) (numbered ps qs)"
    using frag_append [OF frag_ident [OF assms(2)]] by fastforce
  then show ?thesis using assms(1) by (simp add: built_def)
qed

lemma built_column_only:
  assumes "name \<in> I" "fixed_text False op" "safe_start op"
  shows "built V I (quote_identifier name @ op) ps ps"
proof -
  have ne: "op \<noteq> []" using assms(2) by (auto simp: fixed_text_def plain_text_def)
  then show ?thesis using frag_append [OF frag_ident [OF assms(1)] frag_text [OF assms(2)]] assms(3) by (fastforce simp: built_def)
qed

section \<open>Clauses\<close>

definition schema_ok :: "string set \<Rightarrow> string set \<Rightarrow> TableSchema \<Rightarrow> bool" where
  "schema_ok V I schema \<longleftrightarrow> (\<forall>c \<in> set (ts_columns schema). type_ok V I c)"

text \<open>The names of the columns with a property.\<close>

definition names_where :: "(TableColumnSchema \<Rightarrow> bool) \<Rightarrow> TableSchema \<Rightarrow> string set" where
  "names_where P schema = {col_name c | c. c \<in> set (ts_columns schema) \<and> P c}"

lemma column_hit: "schema_column schema name = Some c \<Longrightarrow> c \<in> set (ts_columns schema) \<and> col_name c = name"
  unfolding schema_column_def by (rule find_hit)

lemma name_where: "c \<in> set (ts_columns schema) \<Longrightarrow> P c \<Longrightarrow> names_where P schema \<subseteq> I \<Longrightarrow> col_name c \<in> I"
  unfolding names_where_def by blast

lemma column_type: "schema_ok V I schema \<Longrightarrow> schema_column schema name = Some c \<Longrightarrow> type_ok V I c"
  unfolding schema_ok_def using column_hit by blast

lemma fixed_seps: "fixed_text True '', ''" "safe_start '', ''" "fixed_text True '' AND ''" "safe_start '' AND ''"
  "fixed_text True '' = ''" "safe_start '' = ''" "fixed_text True '' OR ''" "safe_start '' OR ''"
  by (simp_all add: fixed_simps)

lemma insert_columns_built:
  "insert_columns S schema vals ps = Inr (cols, exprs, qs) \<Longrightarrow> schema_ok V I schema \<Longrightarrow> names_where writable_on_create schema \<subseteq> I \<Longrightarrow>
   built_all V I exprs ps qs \<and> list_all2 (frag False (kw V) I) cols (map (\<lambda>_. []) cols) \<and>
   length cols = length vals \<and> length exprs = length vals"
proof (induction vals arbitrary: ps cols exprs)
  case Nil
  then show ?case by (simp add: built_all_Nil)
next
  case (Cons nv vals)
  obtain name val where nv: "nv = (name, val)" by (cases nv)
  obtain c where c: "schema_column schema name = Some c" "writable_on_create c"
    using Cons.prems(1) nv by (auto simp: bind_r_Inr split: option.splits if_splits)
  then obtain p ps1 cols' exprs' where p: "bind_cast_value S (length ps + 1) c val ps = Inr (p, ps1)"
    "insert_columns S schema vals ps1 = Inr (cols', exprs', qs)" "cols = quote_identifier (col_name c) # cols'" "exprs = p # exprs'"
    using Cons.prems(1) nv by (auto simp: bind_r_Inr)
  have "built V I p ps ps1" by (rule built_cast [OF p(1) column_type [OF Cons.prems(2) c(1)]])
  moreover have "col_name c \<in> I" using name_where column_hit [OF c(1)] c(2) Cons.prems(3) by blast
  then have "frag False (kw V) I (quote_identifier (col_name c)) []" by (rule frag_ident)
  ultimately show ?case using Cons.IH [OF p(2) Cons.prems(2,3)] p(3,4) built_all_Cons by auto
qed

lemma update_assignments_built:
  "update_assignments S schema vals ps = Inr (cs, qs) \<Longrightarrow> schema_ok V I schema \<Longrightarrow> names_where writable_on_update schema \<subseteq> I \<Longrightarrow>
   built_all V I cs ps qs \<and> length cs = length vals"
proof (induction vals arbitrary: ps cs)
  case Nil
  then show ?case by (simp add: built_all_Nil)
next
  case (Cons nv vals)
  obtain name val where nv: "nv = (name, val)" by (cases nv)
  obtain c where c: "schema_column schema name = Some c" "writable_on_update c"
    using Cons.prems(1) nv by (auto simp: bind_r_Inr split: option.splits if_splits)
  then obtain p ps1 cs' where p: "bind_cast_value S (length ps + 1) c val ps = Inr (p, ps1)"
    "update_assignments S schema vals ps1 = Inr (cs', qs)" "cs = (quote_identifier (col_name c) @ '' = '' @ p) # cs'"
    using Cons.prems(1) nv by (auto simp: bind_r_Inr)
  have "built V I p ps ps1" by (rule built_cast [OF p(1) column_type [OF Cons.prems(2) c(1)]])
  moreover have "col_name c \<in> I" using name_where column_hit [OF c(1)] c(2) Cons.prems(3) by blast
  ultimately have "built V I (quote_identifier (col_name c) @ '' = '' @ p) ps ps1" using built_column fixed_seps by blast
  then show ?case using Cons.IH [OF p(2) Cons.prems(2,3)] p(3) built_all_Cons by auto
qed

lemma key_clauses_built:
  "key_clauses S key cols ps = Inr (cs, qs) \<Longrightarrow> \<forall>c \<in> set cols. type_ok V I c \<and> col_name c \<in> I \<Longrightarrow>
   built_all V I cs ps qs \<and> length cs = length cols"
proof (induction cols arbitrary: ps cs)
  case Nil
  then show ?case by (simp add: built_all_Nil)
next
  case (Cons c cols)
  obtain val where v: "map_of key (col_name c) = Some val" "\<not> is_null val"
    using Cons.prems(1) by (auto split: option.splits if_splits)
  then obtain p ps1 cs' where p: "bind_cast_value S (length ps + 1) c val ps = Inr (p, ps1)"
    "key_clauses S key cols ps1 = Inr (cs', qs)" "cs = (quote_identifier (col_name c) @ '' = '' @ p) # cs'"
    using Cons.prems(1) by (auto simp: bind_r_Inr)
  have "built V I p ps ps1" using built_cast [OF p(1)] Cons.prems(2) by simp
  then have "built V I (quote_identifier (col_name c) @ '' = '' @ p) ps ps1"
    using built_column [OF _ _ fixed_seps(5,6)] Cons.prems(2) by (metis list.set_intros(1))
  then show ?case using Cons.IH [OF p(2)] Cons.prems(2) p(3) built_all_Cons by auto
qed

lemma key_clause_built:
  assumes "build_key_clause S schema key ps = Inr (f, qs)" "schema_ok V I schema" "names_where primary_key schema \<subseteq> I"
  shows "built V I f ps qs"
proof -
  obtain cs where cs: "key_clauses S key (primary_key_columns schema) ps = Inr (cs, qs)" "f = join_with '' AND '' cs"
    "primary_key_columns schema \<noteq> []"
    using assms(1) by (auto simp: build_key_clause_def Let_def bind_r_Inr split: if_splits)
  have "\<forall>c \<in> set (primary_key_columns schema). type_ok V I c \<and> col_name c \<in> I"
    using assms(2,3) name_where [of _ schema primary_key I] by (auto simp: primary_key_columns_def schema_ok_def)
  from key_clauses_built [OF cs(1) this] have "built_all V I cs ps qs" "cs \<noteq> []" using cs(3) by auto
  then show ?thesis using built_join fixed_seps cs(2) by blast
qed

lemma multi_value_built:
  "multi_value_expressions S c vals ps = Inr (es, qs) \<Longrightarrow> type_ok V I c \<Longrightarrow> built_all V I es ps qs \<and> length es = length vals"
proof (induction vals arbitrary: ps es)
  case Nil
  then show ?case by (simp add: built_all_Nil)
next
  case (Cons v vals)
  then obtain p ps1 es' where p: "bind_cast_value S (length ps + 1) c v ps = Inr (p, ps1)"
    "multi_value_expressions S c vals ps1 = Inr (es', qs)" "es = p # es'"
    by (auto simp: bind_r_Inr split: if_splits)
  then show ?case using Cons.IH [OF p(2) Cons.prems(2)] built_cast [OF p(1) Cons.prems(2)] built_all_Cons by auto
qed

lemma fixed_ops:
  "fixed_text True '' = ''" "fixed_text True '' <> ''" "fixed_text True '' > ''" "fixed_text True '' >= ''" "fixed_text True '' < ''"
  "fixed_text True '' <= ''" "fixed_text False '' IS NULL''" "fixed_text False '' IS NOT NULL''" "fixed_text True '' IN (''"
  "fixed_text True '' NOT IN (''" "fixed_text True '')''" "fixed_text True '' BETWEEN ''" "fixed_text True ''CAST(''"
  "fixed_text True '' AS text) LIKE ''" "fixed_text True '' AS text) ILIKE ''" "fixed_text True ''(''"
  by (simp_all add: fixed_simps)

lemma safe_ops:
  "safe_start '' = ''" "safe_start '' <> ''" "safe_start '' > ''" "safe_start '' >= ''" "safe_start '' < ''"
  "safe_start '' <= ''" "safe_start '' IS NULL''" "safe_start '' IS NOT NULL''" "safe_start '' IN (''"
  "safe_start '' NOT IN (''" "safe_start '')''" "safe_start '' BETWEEN ''"
  "safe_start '' AS text) LIKE ''" "safe_start '' AS text) ILIKE ''"
  by (simp_all add: safe_start_def)

text \<open>Texts before, between and behind.\<close>

lemma built_before: "fixed_text True g \<Longrightarrow> built V I f ps qs \<Longrightarrow> built V I (g @ f) ps qs"
proof -
  assume "fixed_text True g" "built V I f ps qs"
  then have "frag True (kw V) I g []" "frag False (kw V) I f (numbered ps qs)" by (simp_all add: frag_text built_def)
  from frag_append [OF this] show ?thesis using \<open>built V I f ps qs\<close> by (simp add: built_def)
qed

lemma built_behind: "built V I f ps qs \<Longrightarrow> fixed_text False g \<Longrightarrow> safe_start g \<Longrightarrow> built V I (f @ g) ps qs"
  using built_glue [of V I f ps qs False g] by (simp add: built_def)

lemma fixed_weaken: "fixed_text True g \<Longrightarrow> fixed_text False g"
  by (simp add: fixed_text_def)

lemma built_between:
  assumes "built V I f ps qs" "built V I h qs rs" "fixed_text True g" "safe_start g"
  shows "built V I (f @ g @ h) ps rs"
proof -
  have "g @ h \<noteq> []" "safe_start (g @ h)" using assms(3,4) by (auto simp: safe_start_def fixed_text_def plain_text_def)
  moreover have "frag False (kw V) I (g @ h) (numbered qs rs)" using built_before [OF assms(3,2)] by (simp add: built_def)
  ultimately have "frag False (kw V) I (f @ g @ h) (numbered ps qs @ numbered qs rs)"
    using frag_append assms(1) unfolding built_def by blast
  then show ?thesis using numbered_trans [of ps qs rs] assms(1,2) by (simp add: built_def)
qed

lemma built_empty: "built V I f ps qs \<Longrightarrow> built V I g qs qs \<Longrightarrow> fixed_text True h \<Longrightarrow> safe_start h \<Longrightarrow> built V I (f @ h @ g) ps qs"
  by (rule built_between)

lemma ident_built: "name \<in> I \<Longrightarrow> built V I (quote_identifier name) ps ps"
  by (simp add: built_def frag_ident)

lemma compare_built:
  assumes "compare_clause S c (quote_identifier (col_name c)) op flt ps = Inr (f, qs)" "type_ok V I c" "col_name c \<in> I"
    "fixed_text True ('' '' @ op @ '' '')"
  shows "built V I f ps qs"
proof -
  obtain val p where p: "bind_cast_value S (length ps + 1) c val ps = Inr (p, qs)"
    "f = quote_identifier (col_name c) @ ('' '' @ op @ '' '') @ p"
    using assms(1) by (auto simp: compare_clause_def bind_r_Inr split: if_splits)
  have "safe_start ('' '' @ op @ '' '')" by (simp add: safe_start_def)
  then show ?thesis using built_column [OF built_cast [OF p(1) assms(2)] assms(3,4)] p(2) by simp
qed

lemma pattern_built:
  assumes "pattern_clause (quote_identifier name) op flt ps = Inr (f, qs)" "name \<in> I"
    "fixed_text True ('' AS text) '' @ op @ '' '')" "safe_start ('' AS text) '' @ op @ '' '')"
  shows "built V I f ps qs"
proof -
  obtain pat where q: "qs = ps @ [Bound_String pat]"
    and f: "f = ''CAST('' @ quote_identifier name @ ('' AS text) '' @ op @ '' '') @ (CHR ''$'' # show_nat (length ps + 1))"
  proof -
    obtain val where "require_single_filter_value flt = Inr val" and v: "(case val of JString pat \<Rightarrow>
           (let params = ps @ [Bound_String pat]
            in Inr (''CAST('' @ quote_identifier name @ '' AS text) '' @ op @ '' $'' @ show_nat (length params), params))
       | _ \<Rightarrow> Inl ''operator requires a string value'') = Inr (f, qs)"
      using assms(1) unfolding pattern_clause_def bind_r_Inr by blast
    show thesis using v by (cases val) (auto simp: Let_def intro: that)
  qed
  have "built V I (CHR ''$'' # show_nat (length ps + 1)) ps qs"
    unfolding built_def q numbered_one using frag_hole by simp
  then have "built V I (quote_identifier name @ ('' AS text) '' @ op @ '' '') @ (CHR ''$'' # show_nat (length ps + 1))) ps qs"
    using built_column assms(2-4) by blast
  then show ?thesis unfolding f using built_before fixed_ops(13) by blast
qed

lemma in_built:
  assumes "built_all V I es ps qs" "es \<noteq> []" "name \<in> I" "fixed_text True op" "safe_start op"
  shows "built V I (quote_identifier name @ op @ join_with '', '' es @ '')'') ps qs"
proof -
  have "built V I (join_with '', '' es) ps qs" using built_join assms(1,2) fixed_seps by blast
  then have "built V I (join_with '', '' es @ '')'') ps qs" using built_behind fixed_ops(11) fixed_weaken safe_ops(11) by blast
  then show ?thesis using built_column assms(3-5) by blast
qed

lemma filter_clause_built:
  assumes ok: "build_filter_clause S c flt ps = Inr (f, qs)" and t: "type_ok V I c" and n: "col_name c \<in> I"
  shows "built V I f ps qs"
proof -
  let ?q = "quote_identifier (col_name c)"
  have null: "built V I (?q @ '' IS NULL'') ps ps" "built V I (?q @ '' IS NOT NULL'') ps ps"
    using built_column_only [OF n] fixed_ops(7,8) safe_ops(7,8) by blast+
  have cmp: "built V I f ps qs" if "bind_cast_value S (length ps + 1) c val ps = Inr (p, qs)" "f = ?q @ op @ p" "fixed_text True op" "safe_start op" for val p op
    using built_column [OF built_cast [OF that(1) t] n that(3,4)] that(2) by simp
  show ?thesis
  proof (cases "f_op flt")
    case Eq
    then obtain val where "(if is_null val then Inr (?q @ '' IS NULL'', ps)
        else bind_r (bind_cast_value S (length ps + 1) c val ps) (\<lambda>(placeholder, params). Inr (?q @ '' = '' @ placeholder, params))) = Inr (f, qs)"
      using ok by (auto simp: Let_def build_filter_clause_def Let_def bind_r_Inr [of "require_single_filter_value flt"])
    then show ?thesis using null(1) cmp [OF _ _ fixed_ops(1) safe_ops(1)] by (cases "is_null val") (auto simp: bind_r_Inr)
  next
    case Ne
    then obtain val where "(if is_null val then Inr (?q @ '' IS NOT NULL'', ps)
        else bind_r (bind_cast_value S (length ps + 1) c val ps) (\<lambda>(placeholder, params). Inr (?q @ '' <> '' @ placeholder, params))) = Inr (f, qs)"
      using ok by (auto simp: Let_def build_filter_clause_def Let_def bind_r_Inr [of "require_single_filter_value flt"])
    then show ?thesis using null(2) cmp [OF _ _ fixed_ops(2) safe_ops(2)] by (cases "is_null val") (auto simp: bind_r_Inr)
  next
    case Gt
    then show ?thesis using ok compare_built [OF _ t n, of S "''>''"] fixed_ops(3) by (auto simp: Let_def build_filter_clause_def Let_def)
  next
    case Gte
    then show ?thesis using ok compare_built [OF _ t n, of S "''>=''"] fixed_ops(4) by (auto simp: Let_def build_filter_clause_def Let_def)
  next
    case Lt
    then show ?thesis using ok compare_built [OF _ t n, of S "''<''"] fixed_ops(5) by (auto simp: Let_def build_filter_clause_def Let_def)
  next
    case Lte
    then show ?thesis using ok compare_built [OF _ t n, of S "''<=''"] fixed_ops(6) by (auto simp: Let_def build_filter_clause_def Let_def)
  next
    case Like
    then show ?thesis using ok pattern_built [OF _ n, of "''LIKE''"] fixed_ops(14) safe_ops(13) by (auto simp: Let_def build_filter_clause_def Let_def)
  next
    case ILike
    then show ?thesis using ok pattern_built [OF _ n, of "''ILIKE''"] fixed_ops(15) safe_ops(14) by (auto simp: Let_def build_filter_clause_def Let_def)
  next
    case In
    then obtain vs es where es: "multi_value_expressions S c vs ps = Inr (es, qs)" "vs \<noteq> []" "f = ?q @ '' IN ('' @ join_with '', '' es @ '')''"
      using ok by (auto simp: Let_def build_filter_clause_def build_multi_value_expressions_def require_filter_values_def bind_r_Inr split: if_splits)
    then have "built_all V I es ps qs" "es \<noteq> []" using multi_value_built t by fastforce+
    then show ?thesis unfolding es(3) using in_built n fixed_ops(9) safe_ops(9) by blast
  next
    case NotIn
    then obtain vs es where es: "multi_value_expressions S c vs ps = Inr (es, qs)" "vs \<noteq> []" "f = ?q @ '' NOT IN ('' @ join_with '', '' es @ '')''"
      using ok by (auto simp: Let_def build_filter_clause_def build_multi_value_expressions_def require_filter_values_def bind_r_Inr split: if_splits)
    then have "built_all V I es ps qs" "es \<noteq> []" using multi_value_built t by fastforce+
    then show ?thesis unfolding es(3) using in_built n fixed_ops(10) safe_ops(10) by blast
  next
    case Between
    then obtain v w a b ps1 where ab: "bind_cast_value S (length ps + 1) c v ps = Inr (a, ps1)"
      "bind_cast_value S (length ps1 + 1) c w ps1 = Inr (b, qs)" "f = ?q @ '' BETWEEN '' @ a @ '' AND '' @ b"
      using ok by (auto simp: Let_def build_filter_clause_def bind_r_Inr split: if_splits)
    have "built V I (a @ '' AND '' @ b) ps qs"
      using built_between [OF built_cast [OF ab(1) t] built_cast [OF ab(2) t] fixed_seps(3,4)] .
    then show ?thesis unfolding ab(3) using built_column n fixed_ops(12) safe_ops(12) by blast
  next
    case IsNull
    then show ?thesis using ok null(1) by (auto simp: Let_def build_filter_clause_def Let_def)
  next
    case IsNotNull
    then show ?thesis using ok null(2) by (auto simp: Let_def build_filter_clause_def Let_def)
  qed
qed

definition shown :: "TableColumnSchema \<Rightarrow> bool" where
  "shown c \<longleftrightarrow> \<not> hidden_on_read c"

lemma single_filter_built:
  assumes "build_single_filter_clause S schema flt ps = Inr (f, qs)" "schema_ok V I schema" "names_where shown schema \<subseteq> I"
  shows "built V I f ps qs"
proof -
  obtain c where c: "schema_column schema (f_column flt) = Some c" "shown c" "build_filter_clause S c flt ps = Inr (f, qs)"
    using assms(1) by (auto simp: build_single_filter_clause_def bind_r_Inr shown_def split: option.splits if_splits)
  have "col_name c \<in> I" using name_where column_hit [OF c(1)] c(2) assms(3) by blast
  then show ?thesis using filter_clause_built [OF c(3)] column_type [OF assms(2) c(1)] by blast
qed

lemma group_built:
  assumes "built_all V I cs ps qs" "cs \<noteq> []" "j = ''AND'' \<or> j = ''OR''"
  shows "built V I (join_group j cs) ps qs"
proof -
  have sep: "fixed_text True ('' '' @ j @ '' '')" "safe_start ('' '' @ j @ '' '')" using assms(3) fixed_seps by auto
  then have joined: "built V I (join_with ('' '' @ j @ '' '') cs) ps qs" using built_join assms(1,2) by blast
  show ?thesis
  proof (cases "length cs = 1")
    case True
    then have "join_with ('' '' @ j @ '' '') cs = hd cs" by (cases cs rule: list.exhaust) auto
    then show ?thesis using joined True by (simp add: join_group_def)
  next
    case False
    have "built V I (join_with ('' '' @ j @ '' '') cs @ '')'') ps qs"
      using joined built_behind fixed_ops(11) fixed_weaken safe_ops(11) by blast
    then have "built V I (''('' @ join_with ('' '' @ j @ '' '') cs @ '')'') ps qs" using built_before fixed_ops(16) by blast
    then show ?thesis using False by (simp add: join_group_def)
  qed
qed

lemma inputs_built:
  "build_filter_input_clause S schema inp ps = Inr (f, qs) \<Longrightarrow> schema_ok V I schema \<Longrightarrow> names_where shown schema \<subseteq> I \<Longrightarrow> built V I f ps qs"
  "build_inputs S schema inps ps = Inr (cs, qs) \<Longrightarrow> schema_ok V I schema \<Longrightarrow> names_where shown schema \<subseteq> I \<Longrightarrow>
     built_all V I cs ps qs \<and> length cs = length inps"
proof (induction S schema inp ps and S schema inps ps arbitrary: f qs and cs qs rule: build_filter_input_clause_build_inputs.induct)
  case (4 S schema items ps)
  then obtain cs where cs: "items \<noteq> []" "build_inputs S schema items ps = Inr (cs, qs)" "f = join_group ''AND'' cs"
    by (auto simp: bind_r_Inr split: if_splits)
  then show ?case using 4(1) [OF cs(1,2)] 4(3,4) group_built by (metis length_0_conv)
next
  case (5 S schema items ps)
  then obtain cs where cs: "items \<noteq> []" "build_inputs S schema items ps = Inr (cs, qs)" "f = join_group ''OR'' cs"
    by (auto simp: bind_r_Inr split: if_splits)
  then show ?case using 5(1) [OF cs(1,2)] 5(3,4) group_built by (metis length_0_conv)
next
  case (8 S schema inp inps ps)
  obtain c ps1 cs' where c: "build_filter_input_clause S schema inp ps = Inr (c, ps1)" "build_inputs S schema inps ps1 = Inr (cs', qs)" "cs = c # cs'"
    using 8(3) by (auto simp: bind_r_Inr)
  have "built V I c ps ps1" using 8(1) [OF c(1) 8(4,5)] .
  moreover have "built_all V I cs' ps1 qs \<and> length cs' = length inps" using 8(2) c(1,2) 8(4,5) by simp
  ultimately show ?case using c(3) built_all_Cons by auto
qed (auto simp: built_all_Nil bind_r_Inr intro: single_filter_built)

lemma filters_built:
  assumes "build_filters_clause S schema filters = Inr (Some f, qs)" "schema_ok V I schema" "names_where shown schema \<subseteq> I"
  shows "built V I f [] qs"
proof -
  obtain fs cs where cs: "build_inputs S schema fs [] = Inr (cs, qs)" "cs \<noteq> []" "f = join_with '' AND '' cs"
    using assms(1) by (auto simp: build_filters_clause_def bind_r_Inr split: option.splits if_splits)
  then show ?thesis using inputs_built(2) [OF cs(1) assms(2,3)] built_join fixed_seps(3,4) by blast
qed

lemma no_filters: "build_filters_clause S schema filters = Inr (None, qs) \<Longrightarrow> qs = []"
proof -
  assume ok: "build_filters_clause S schema filters = Inr (None, qs)"
  have "cs = [] \<Longrightarrow> build_inputs S schema fs [] = Inr (cs, qs) \<Longrightarrow> qs = []" for fs cs
    by (cases fs) (auto simp: bind_r_Inr)
  then show ?thesis using ok by (auto simp: build_filters_clause_def bind_r_Inr split: option.splits if_splits)
qed

section \<open>Lists of columns\<close>

text \<open>A list of texts without placeholders, joined by commas.\<close>

lemma frag_list:
  assumes "\<forall>f \<in> set fs. frag False (kw V) I f []" "fs \<noteq> []"
  shows "frag False (kw V) I (join_with '', '' fs) []"
proof -
  have all: "list_all2 (frag False (kw V) I) fs (map (\<lambda>_. []) fs)" using assms(1) by (simp add: list_all2_conv_all_nth)
  have "frag False (kw V) I (join_with '', '' fs) (concat (map (\<lambda>_. []) fs))"
    by (rule frag_join [OF frag_text [OF fixed_seps(1)] _ fixed_seps(2) all assms(2)]) simp
  moreover have "concat (map (\<lambda>_. []) fs) = ([] :: nat list)" by simp
  ultimately show ?thesis by (simp only:)
qed

lemma resolve_requested_shown:
  "resolve_requested schema names = Inr cs \<Longrightarrow> c \<in> set cs \<Longrightarrow> c \<in> set (ts_columns schema) \<and> shown c"
proof (induction names arbitrary: cs)
  case (Cons n names)
  then obtain d ds where d: "schema_column schema n = Some d" "\<not> hidden_on_read d" "resolve_requested schema names = Inr ds" "cs = d # ds"
    by (auto simp: bind_r_Inr split: option.splits if_splits)
  then show ?case using Cons column_hit [OF d(1)] by (auto simp: shown_def)
qed simp

lemma readable_shown:
  assumes "resolve_readable_columns schema requested = Inr cs"
  shows "cs \<noteq> [] \<and> (\<forall>c \<in> set cs. c \<in> set (ts_columns schema) \<and> shown c)"
proof (cases requested)
  case None
  then show ?thesis using assms by (auto simp: resolve_readable_columns_def readable_columns_def shown_def split: if_splits)
next
  case (Some names)
  then have "resolve_requested schema names = Inr cs" "cs \<noteq> []"
    using assms by (auto simp: resolve_readable_columns_def bind_r_Inr split: if_splits)
  then show ?thesis using resolve_requested_shown by blast
qed

lemma select_list_built:
  assumes "readable_select_list schema requested = Inr f" "names_where shown schema \<subseteq> I"
  shows "frag False (kw V) I f []"
proof -
  obtain cs where cs: "resolve_readable_columns schema requested = Inr cs" "f = join_with '', '' (map (\<lambda>c. quote_identifier (col_name c)) cs)"
    using assms(1) by (auto simp: readable_select_list_def bind_r_Inr)
  have "\<forall>q \<in> set (map (\<lambda>c. quote_identifier (col_name c)) cs). frag False (kw V) I q []"
    using readable_shown [OF cs(1)] name_where [OF _ _ assms(2)] frag_ident by auto
  then show ?thesis unfolding cs(2) using frag_list readable_shown [OF cs(1)] by blast
qed

lemma insert_assignments_built:
  assumes "build_insert_assignments S schema vals = Inr (columns, expressions, qs)" "schema_ok V I schema"
    "names_where writable_on_create schema \<subseteq> I"
  shows "frag False (kw V) I columns [] \<and> built V I expressions [] qs"
proof -
  obtain cols exprs where i: "insert_columns S schema vals [] = Inr (cols, exprs, qs)" "vals \<noteq> []"
    "columns = join_with '', '' cols" "expressions = join_with '', '' exprs"
    using assms(1) by (auto simp: build_insert_assignments_def bind_r_Inr split: if_splits)
  note b = insert_columns_built [OF i(1) assms(2,3)]
  have "\<forall>f \<in> set cols. frag False (kw V) I f []" using b by (auto simp: list_all2_conv_all_nth in_set_conv_nth)
  moreover have "cols \<noteq> []" "exprs \<noteq> []" using b i(2) by auto
  ultimately show ?thesis unfolding i(3,4) using frag_list built_join fixed_seps(1,2) b by blast
qed

lemma update_assignments_joined:
  assumes "build_update_assignments S schema vals = Inr (f, qs)" "schema_ok V I schema" "names_where writable_on_update schema \<subseteq> I"
  shows "built V I f [] qs"
proof -
  obtain cs where cs: "update_assignments S schema vals [] = Inr (cs, qs)" "vals \<noteq> []" "f = join_with '', '' cs"
    using assms(1) by (auto simp: build_update_assignments_def bind_r_Inr split: if_splits)
  have "built_all V I cs [] qs" "cs \<noteq> []" using update_assignments_built [OF cs(1) assms(2,3)] cs(2) by auto
  then show ?thesis unfolding cs(3) using built_join fixed_seps(1,2) by blast
qed

section \<open>Order\<close>

lemma sort_dir: "fixed_text False '' ASC''" "fixed_text False '' DESC''" "safe_start '' ASC''" "safe_start '' DESC''"
  "fixed_text True '' ORDER BY ''" "safe_start '' ORDER BY ''"
  by (simp_all add: fixed_simps)

lemma sort_built: "name \<in> I \<Longrightarrow> d = '' ASC'' \<or> d = '' DESC'' \<Longrightarrow> frag False (kw V) I (quote_identifier name @ d) []"
  using built_column_only [of name I _ V "[] :: nat list"] sort_dir by (auto simp: built_def)

lemma order_part_built:
  assumes "order_part schema srt = Inr p" "names_where shown schema \<subseteq> I"
  shows "frag False (kw V) I p []"
proof -
  obtain sr :: TableSort where sr: "(case schema_column schema (s_column sr) of
         None \<Rightarrow> Inl ''unknown order column''
       | Some c \<Rightarrow>
           if hidden_on_read c then Inl ''hidden and cannot be used for sorting''
           else Inr (quote_identifier (col_name c) @ '' '' @
                  (case (case s_direction sr of Some d \<Rightarrow> d | None \<Rightarrow> Asc) of Asc \<Rightarrow> ''ASC'' | Desc \<Rightarrow> ''DESC''))) = Inr p"
    using assms(1) unfolding order_part_def bind_r_Inr by blast
  then obtain c where c: "schema_column schema (s_column sr) = Some c" by (cases "schema_column schema (s_column sr)") simp_all
  then have h: "\<not> hidden_on_read c" using sr by (cases "hidden_on_read c") simp_all
  obtain dir where dir: "dir = (case s_direction sr of Some d \<Rightarrow> d | None \<Rightarrow> Asc)" by simp
  have p: "p = quote_identifier (col_name c) @ '' '' @ (case dir of Asc \<Rightarrow> ''ASC'' | Desc \<Rightarrow> ''DESC'')"
    using sr unfolding c dir option.case using h by (simp only: if_False sum.inject)
  have "'' '' @ (case dir of Asc \<Rightarrow> ''ASC'' | Desc \<Rightarrow> ''DESC'') = '' ASC'' \<or> '' '' @ (case dir of Asc \<Rightarrow> ''ASC'' | Desc \<Rightarrow> ''DESC'') = '' DESC''"
    by (cases dir) simp_all
  moreover have "col_name c \<in> I" using name_where [of c schema shown I] column_hit [OF c] h assms(2) by (simp add: shown_def)
  ultimately show ?thesis unfolding p using sort_built by blast
qed

lemma collect_r_all: "collect_r f xs = Inr ys \<Longrightarrow> (\<And>x y. f x = Inr y \<Longrightarrow> P y) \<Longrightarrow> \<forall>y \<in> set ys. P y"
  by (induction xs arbitrary: ys) (auto simp: bind_r_Inr)

lemma order_clause_built:
  assumes ok: "build_order_clause schema order_by = Inr f" and n: "names_where shown schema \<union> names_where primary_key schema \<subseteq> I"
  shows "f = [] \<or> frag False (kw V) I f [] \<and> safe_start f"
proof -
  have ob: "frag False (kw V) I ('' ORDER BY '' @ join_with '', '' ps) [] \<and> safe_start ('' ORDER BY '' @ join_with '', '' ps)"
    if "\<forall>p \<in> set ps. frag False (kw V) I p []" "ps \<noteq> []" for ps
    using frag_append [OF frag_text [OF sort_dir(5)] frag_list [OF that]] by (simp add: safe_start_def)
  have shown: "names_where shown schema \<subseteq> I" using n by simp
  have pk: "\<forall>p \<in> set (map (\<lambda>c. quote_identifier (col_name c) @ '' ASC'') (primary_key_columns schema)). frag False (kw V) I p []"
    using n by (auto simp: primary_key_columns_def intro!: sort_built name_where [where P = primary_key])
  obtain parts where p: "\<forall>q \<in> set parts. frag False (kw V) I q []"
    "f = (if parts = [] then
         (if primary_key_columns schema = [] then []
          else '' ORDER BY '' @ join_with '', '' (map (\<lambda>c. quote_identifier (col_name c) @ '' ASC'') (primary_key_columns schema)))
       else '' ORDER BY '' @ join_with '', '' parts)"
  proof -
    obtain parts where c: "(case order_by of Some sorts \<Rightarrow> collect_r (order_part schema) sorts | None \<Rightarrow> Inr []) = Inr parts"
      "f = (if parts = [] then
         (if primary_key_columns schema = [] then []
          else '' ORDER BY '' @ join_with '', '' (map (\<lambda>c. quote_identifier (col_name c) @ '' ASC'') (primary_key_columns schema)))
       else '' ORDER BY '' @ join_with '', '' parts)"
      using ok by (auto simp: build_order_clause_def bind_r_Inr split: if_splits)
    moreover have "\<forall>q \<in> set parts. frag False (kw V) I q []"
    proof (cases order_by)
      case (Some sorts)
      then have "collect_r (order_part schema) sorts = Inr parts" using c by simp
      then show ?thesis by (rule collect_r_all) (rule order_part_built [OF _ shown])
    qed (use c in simp)
    ultimately show thesis using that by blast
  qed
  show ?thesis
  proof (cases "parts = []")
    case False
    then show ?thesis using ob [OF p(1) False] p(2) by simp
  next
    case True
    then show ?thesis using ob [OF pk] p(2) by (cases "primary_key_columns schema = []") simp_all
  qed
qed

end
