(* ===== verification/Table_Statements.thy ===== *)
theory Table_Statements
  imports Table_Safety
begin

text \<open>
  The statements of the table tools as built from a schema: whatever the request and the stored data, a statement that is built reads
  as keywords, type words, quoted names of the table's own columns and placeholders \<open>$1\<close>, \<open>$2\<close>, .. for
  exactly the values bound, in their order.
\<close>

section \<open>Statements\<close>

definition well_built :: "string set \<Rightarrow> string set \<Rightarrow> ('n, 'f) statement \<Rightarrow> bool" where
  "well_built V I st \<longleftrightarrow>
     (\<exists>ls. reads (fst st) ls \<and> list_all (allowed (kw V) I) ls \<and> marks ls [1 ..< length (snd st) + 1])"

lemma well_builtI: "frag a (kw V) I sql ns \<Longrightarrow> ns = [1 ..< length params + 1] \<Longrightarrow> well_built V I (sql, params)"
  using frag_reads unfolding well_built_def by fastforce

lemma built_frag: "built V I f [] qs \<Longrightarrow> frag False (kw V) I f [1 ..< length qs + 1]"
  by (simp add: built_def numbered_def)

text \<open>A fixed text, then a fragment; a fragment, then a fixed text and a fragment.\<close>

lemma frag_after: "fixed_text True g \<Longrightarrow> frag a (kw V) I f ns \<Longrightarrow> frag a (kw V) I (g @ f) ns"
  using frag_append [OF frag_text, of True g] by fastforce

lemma frag_then:
  assumes "frag False (kw V) I f ns" "fixed_text True g" "safe_start g" "frag a (kw V) I h ks"
  shows "frag a (kw V) I (f @ g @ h) (ns @ ks)"
proof -
  have "g @ h \<noteq> []" "safe_start (g @ h)" using assms(2,3) by (auto simp: safe_start_def fixed_text_def plain_text_def)
  then show ?thesis using frag_append [OF assms(1) frag_after [OF assms(2,4)]] by blast
qed

lemma frag_end: "frag False (kw V) I f ns \<Longrightarrow> fixed_text False g \<Longrightarrow> safe_start g \<Longrightarrow> frag False (kw V) I (f @ g) ns"
  using frag_append [of False "kw V" I f ns False g "[]"] frag_text by (auto simp: fixed_text_def plain_text_def)

lemma frag_number:
  assumes "fixed_text True g"
  shows "frag False (kw V) I (g @ show_nat n) []"
proof (rule fragI [of "plain_lex g @ map Other (show_nat n)"])
  have g: "list_all (\<lambda>c. plain_char c \<or> is_word_char c) g" "g \<noteq> []" "plain_char (last g)" "\<not> is_digit (hd g)" "set (text_words g) \<subseteq> kw V"
    using assms by (auto simp: fixed_text_def plain_text_def kw_def list_all_iff)
  show "plain_lex g @ map Other (show_nat n) \<noteq> []" by simp
  fix r ms assume "False \<or> safe_start r" "reads r ms"
  then have "reads (show_nat n @ r) (map Other (show_nat n) @ ms)" using reads_digits show_nat_digits by blast
  then show "reads ((g @ show_nat n) @ r) ((plain_lex g @ map Other (show_nat n)) @ ms)"
    using reads_plain [OF g(1)] g(2,3) by simp
next
  have g: "list_all (\<lambda>c. plain_char c \<or> is_word_char c) g" "g \<noteq> []" "\<not> is_digit (hd g)" "set (text_words g) \<subseteq> kw V"
    using assms by (auto simp: fixed_text_def plain_text_def kw_def list_all_iff)
  show "list_all (allowed (kw V) I) (plain_lex g @ map Other (show_nat n))"
    using plain_allowed [OF g(4)] by (auto simp: allowed_def list_all_iff)
  have "CHR ''$'' \<notin> set (show_nat n)" using show_nat_digits [of n] by (auto simp: list_all_iff is_digit_def)
  then show "marks (plain_lex g @ map Other (show_nat n)) []"
    using plain_no_dollar [OF g(1)] by (intro marks_none) auto
  show "\<not> digit_first (plain_lex g @ map Other (show_nat n))"
    using g(2,3) by (cases g) (auto simp: digit_first_def)
qed

definition own_names :: "TableSchema \<Rightarrow> string set" where
  "own_names schema = {ts_schema schema, ts_table schema} \<union> names_where shown schema \<union> names_where primary_key schema"

lemma fixed_stmts:
  "fixed_text True ''SELECT ''" "fixed_text True '' FROM ''" "fixed_text True '' WHERE ''" "fixed_text False '' LIMIT 1''"
  "fixed_text True ''SELECT COUNT(*)::bigint AS total FROM ''" "fixed_text True '' LIMIT ''" "fixed_text True '' OFFSET ''"
  "fixed_text True ''INSERT INTO ''" "fixed_text True '' (''" "fixed_text True '') VALUES (''" "fixed_text True '') RETURNING ''"
  "fixed_text True ''UPDATE ''" "fixed_text True '' SET ''" "fixed_text True '' RETURNING ''" "fixed_text True ''DELETE FROM ''"
  "fixed_text False '' RETURNING 1 AS deleted''" "fixed_text True ''SELECT 1 AS v FROM ''"
  by (simp_all add: fixed_simps)

lemma safe_stmts:
  "safe_start '' FROM ''" "safe_start '' WHERE ''" "safe_start '' LIMIT 1''" "safe_start '' LIMIT ''" "safe_start '' OFFSET ''"
  "safe_start '' (''" "safe_start '') VALUES (''" "safe_start '') RETURNING ''" "safe_start '' SET ''" "safe_start '' RETURNING ''"
  "safe_start '' RETURNING 1 AS deleted''"
  by (simp_all add: safe_start_def)

lemma own_sub:
  "ts_schema schema \<in> own_names schema \<union> J" "ts_table schema \<in> own_names schema \<union> J"
  "names_where shown schema \<subseteq> own_names schema \<union> J" "names_where primary_key schema \<subseteq> own_names schema \<union> J"
  by (auto simp: own_names_def)

lemma schema_ok_mono: "schema_ok V J schema \<Longrightarrow> schema_ok V (I \<union> J) schema"
  unfolding schema_ok_def type_ok_def using frag_mono by (metis Un_upper2 order_refl)

lemma where_read:
  assumes "build_filters_clause S schema filters = Inr (wh, qs)" "schema_ok V I schema" "names_where shown schema \<subseteq> I"
    and f: "frag False (kw V) I f []"
  shows "frag False (kw V) I (f @ where_text wh) [1 ..< length qs + 1]"
proof (cases wh)
  case None
  then show ?thesis using f no_filters assms(1) by (fastforce simp: where_text_def)
next
  case (Some w)
  then have "frag False (kw V) I w [1 ..< length qs + 1]" using built_frag filters_built assms(1-3) by blast
  from frag_then [OF f fixed_stmts(3) safe_stmts(2) this] show ?thesis using Some by (simp add: where_text_def)
qed

lemma count_read:
  assumes "build_filters_clause S schema filters = Inr (wh, qs)" "schema_ok V J schema"
  shows "well_built V (own_names schema \<union> J) (count_statement schema wh qs)"
proof -
  let ?I = "own_names schema \<union> J"
  have "frag False (kw V) ?I (''SELECT COUNT(*)::bigint AS total FROM '' @ qualified_name schema) []"
    using frag_after [OF fixed_stmts(5) frag_qualified [OF own_sub(1,2)]] .
  from where_read [OF assms(1) schema_ok_mono [OF assms(2)] own_sub(3) this]
  show ?thesis unfolding count_statement_def by (intro well_builtI [of False]) simp_all
qed

lemma items_read:
  assumes "readable_select_list schema columns = Inr sel" "build_filters_clause S schema filters = Inr (wh, qs)"
    "build_order_clause schema order_by = Inr ord" "schema_ok V J schema"
  shows "well_built V (own_names schema \<union> J) (items_statement schema sel wh ord window qs)"
proof -
  let ?I = "own_names schema \<union> J"
  have "frag False (kw V) ?I (sel @ '' FROM '' @ qualified_name schema) ([] @ [])"
    by (rule frag_then [OF select_list_built [OF assms(1) own_sub(3)] fixed_stmts(2) safe_stmts(1) frag_qualified [OF own_sub(1,2)]])
  then have "frag False (kw V) ?I (''SELECT '' @ sel @ '' FROM '' @ qualified_name schema) []"
    using frag_after [OF fixed_stmts(1)] by fastforce
  from where_read [OF assms(2) schema_ok_mono [OF assms(4)] own_sub(3) this]
  have w: "frag False (kw V) ?I ((''SELECT '' @ sel @ '' FROM '' @ qualified_name schema) @ where_text wh) [1 ..< length qs + 1]" .
  have o: "frag False (kw V) ?I (((''SELECT '' @ sel @ '' FROM '' @ qualified_name schema) @ where_text wh) @ ord) [1 ..< length qs + 1]"
  proof (cases "ord = []")
    case False
    then have "frag False (kw V) ?I ord []" "safe_start ord"
      using order_clause_built [OF assms(3)] own_sub(3,4) by (metis Un_subset_iff)+
    then show ?thesis using frag_append [OF w, of False ord "[]"] False by simp
  qed (use w in simp)
  have "frag False (kw V) ?I ((((''SELECT '' @ sel @ '' FROM '' @ qualified_name schema) @ where_text wh) @ ord) @
      ('' LIMIT '' @ show_nat (fst window)) @ '' OFFSET '' @ show_nat (snd window)) ([1 ..< length qs + 1] @ [] @ [])"
  proof (rule frag_append [OF o])
    show "frag False (kw V) ?I (('' LIMIT '' @ show_nat (fst window)) @ '' OFFSET '' @ show_nat (snd window)) ([] @ [])"
      by (rule frag_append [OF frag_number [OF fixed_stmts(6)] frag_number [OF fixed_stmts(7)]]) (simp add: safe_start_def)
  qed (simp add: safe_start_def)
  then show ?thesis unfolding items_statement_def by (intro well_builtI [of False]) simp_all
qed

lemma key_read:
  assumes "build_key_clause S schema key ps = Inr (f, qs)" "schema_ok V J schema"
  shows "built V (own_names schema \<union> J \<union> K) f ps qs"
  using key_clause_built [OF assms(1), of V "own_names schema \<union> J \<union> K"] own_sub(4) [of schema "J \<union> K"]
    schema_ok_mono [OF assms(2), of "own_names schema \<union> K"] by (simp add: Un_ac)

lemma get_read:
  assumes "table_get_statement S schema key = Inr st" "schema_ok V J schema"
  shows "well_built V (own_names schema \<union> J) st"
proof -
  let ?I = "own_names schema \<union> J"
  obtain sel wh qs where g: "readable_select_list schema None = Inr sel" "build_key_clause S schema key [] = Inr (wh, qs)"
    "st = (''SELECT '' @ sel @ '' FROM '' @ qualified_name schema @ '' WHERE '' @ wh @ '' LIMIT 1'', qs)"
    using assms(1) by (auto simp: table_get_statement_def bind_r_Inr)
  have "built V ?I wh [] qs" using key_read [OF g(2) assms(2), of "{}"] by simp
  from frag_end [OF built_frag [OF this] fixed_stmts(4) safe_stmts(3)] have wh: "frag False (kw V) ?I (wh @ '' LIMIT 1'') [1 ..< length qs + 1]" .
  have "frag False (kw V) ?I (sel @ '' FROM '' @ qualified_name schema @ '' WHERE '' @ wh @ '' LIMIT 1'') ([] @ [] @ [1 ..< length qs + 1])"
    by (rule frag_then [OF select_list_built [OF g(1) own_sub(3)] fixed_stmts(2) safe_stmts(1)
          frag_then [OF frag_qualified [OF own_sub(1,2)] fixed_stmts(3) safe_stmts(2) wh]])
  from frag_after [OF fixed_stmts(1) this] show ?thesis unfolding g(3) by (intro well_builtI [of False]) simp_all
qed

lemma delete_read:
  assumes "table_delete_statement S schema key = Inr st" "schema_ok V J schema"
  shows "well_built V (own_names schema \<union> J) st"
proof -
  let ?I = "own_names schema \<union> J"
  obtain wh qs where g: "build_key_clause S schema key [] = Inr (wh, qs)"
    "st = (''DELETE FROM '' @ qualified_name schema @ '' WHERE '' @ wh @ '' RETURNING 1 AS deleted'', qs)"
    using assms(1) by (auto simp: table_delete_statement_def bind_r_Inr)
  have "built V ?I wh [] qs" using key_read [OF g(1) assms(2), of "{}"] by simp
  from frag_end [OF built_frag [OF this] fixed_stmts(16) safe_stmts(11)] have wh: "frag False (kw V) ?I (wh @ '' RETURNING 1 AS deleted'') [1 ..< length qs + 1]" .
  from frag_after [OF fixed_stmts(15) frag_then [OF frag_qualified [OF own_sub(1,2)] fixed_stmts(3) safe_stmts(2) wh]]
  show ?thesis unfolding g(2) by (intro well_builtI [of False]) simp_all
qed

lemma exists_read:
  assumes "exists_statement S schema key = Inr st" "schema_ok V J schema"
  shows "well_built V (own_names schema \<union> J) st"
proof -
  let ?I = "own_names schema \<union> J"
  obtain wh qs where g: "build_key_clause S schema key [] = Inr (wh, qs)"
    "st = (''SELECT 1 AS v FROM '' @ qualified_name schema @ '' WHERE '' @ wh @ '' LIMIT 1'', qs)"
    using assms(1) by (auto simp: exists_statement_def bind_r_Inr)
  have "built V ?I wh [] qs" using key_read [OF g(1) assms(2), of "{}"] by simp
  from frag_end [OF built_frag [OF this] fixed_stmts(4) safe_stmts(3)] have wh: "frag False (kw V) ?I (wh @ '' LIMIT 1'') [1 ..< length qs + 1]" .
  from frag_after [OF fixed_stmts(17) frag_then [OF frag_qualified [OF own_sub(1,2)] fixed_stmts(3) safe_stmts(2) wh]]
  show ?thesis unfolding g(2) by (intro well_builtI [of False]) simp_all
qed

lemma insert_read:
  assumes "table_insert_statement S schema vals = Inr st" "schema_ok V J schema"
  shows "well_built V (own_names schema \<union> names_where writable_on_create schema \<union> J) st"
proof -
  let ?I = "own_names schema \<union> names_where writable_on_create schema \<union> J"
  obtain cols exprs ret qs where g: "build_insert_assignments S schema vals = Inr (cols, exprs, qs)" "readable_select_list schema None = Inr ret"
    "st = (''INSERT INTO '' @ qualified_name schema @ '' ('' @ cols @ '') VALUES ('' @ exprs @ '') RETURNING '' @ ret, qs)"
    using assms(1) by (auto simp: table_insert_statement_def bind_r_Inr)
  have ok: "schema_ok V ?I schema" using schema_ok_mono [OF assms(2)] .
  have cw: "frag False (kw V) ?I cols []" "frag False (kw V) ?I exprs [1 ..< length qs + 1]"
    using insert_assignments_built [OF g(1) ok] built_frag by blast+
  have own: "ts_schema schema \<in> ?I" "ts_table schema \<in> ?I" "names_where shown schema \<subseteq> ?I" by (auto simp: own_names_def)
  from frag_after [OF fixed_stmts(8) frag_then [OF frag_qualified [OF own(1,2)] fixed_stmts(9) safe_stmts(6)
        frag_then [OF cw(1) fixed_stmts(10) safe_stmts(7) frag_then [OF cw(2) fixed_stmts(11) safe_stmts(8) select_list_built [OF g(2) own(3)]]]]]
  show ?thesis unfolding g(3) by (intro well_builtI [of False]) simp_all
qed

lemma update_read:
  assumes "table_update_statement S schema key vals = Inr st" "schema_ok V J schema"
  shows "well_built V (own_names schema \<union> names_where writable_on_update schema \<union> J) st"
proof -
  let ?I = "own_names schema \<union> names_where writable_on_update schema \<union> J"
  obtain sc ps wh ret qs where g: "build_update_assignments S schema vals = Inr (sc, ps)" "build_key_clause S schema key ps = Inr (wh, qs)"
    "readable_select_list schema None = Inr ret"
    "st = (''UPDATE '' @ qualified_name schema @ '' SET '' @ sc @ '' WHERE '' @ wh @ '' RETURNING '' @ ret, qs)"
    using assms(1) by (auto simp: table_update_statement_def bind_r_Inr)
  have ok: "schema_ok V ?I schema" using schema_ok_mono [OF assms(2)] .
  have sc: "built V ?I sc [] ps" using update_assignments_joined [OF g(1) ok] by blast
  have wh: "built V ?I wh ps qs" using key_read [OF g(2) assms(2), of "names_where writable_on_update schema"] by (simp add: Un_ac)
  have own: "ts_schema schema \<in> ?I" "ts_table schema \<in> ?I" "names_where shown schema \<subseteq> ?I" by (auto simp: own_names_def)
  have both: "built V ?I (sc @ '' WHERE '' @ wh) [] qs" by (rule built_between [OF sc wh fixed_stmts(3) safe_stmts(2)])
  from frag_after [OF fixed_stmts(12) frag_then [OF frag_qualified [OF own(1,2)] fixed_stmts(13) safe_stmts(9)
        frag_then [OF built_frag [OF both] fixed_stmts(14) safe_stmts(10) select_list_built [OF g(3) own(3)]]]]
  show ?thesis unfolding g(4) by (intro well_builtI [of False]) simp_all
qed

end
