(* ===== verification/Table_Properties.thy ===== *)
theory Table_Properties
  imports Table_Statements Sql_Properties
begin

text \<open>
  The table tools as they run: what they send to the database is recorded by a database that answers
  anything, and every statement sent is one of those of \<open>Table_Statements\<close>.
\<close>

section \<open>What a call sends\<close>

text \<open>A database that records the statements; its answers are arbitrary functions of the record.\<close>

definition tracing ::
  "(string \<Rightarrow> string \<Rightarrow> 'n ColumnSchemaRow list) \<Rightarrow>
   (('n, 'f) statement list \<Rightarrow> ('n, 'f) statement \<Rightarrow> string + 'row option) \<Rightarrow>
   (('n, 'f) statement list \<Rightarrow> ('n, 'f) statement \<Rightarrow> string + 'row list) \<Rightarrow>
   (('n, 'f) statement list \<Rightarrow> ('n, 'f) statement \<Rightarrow> string + int option) \<Rightarrow>
   (('n, 'f) statement list, 'n, 'f, 'row) database" where
  "tracing rows one all cnt =
     \<lparr> load_column_rows = (\<lambda>s t log. (Inr (rows s t), log)),
       query_one = (\<lambda>st log. (one log st, log @ [st])),
       query_all = (\<lambda>st log. (all log st, log @ [st])),
       query_count = (\<lambda>st log. (cnt log st, log @ [st])) \<rparr>"

definition sends :: "('st \<Rightarrow> bool) \<Rightarrow> ('st list, string, 'a) sm \<Rightarrow> bool" where
  "sends P m \<longleftrightarrow> (\<forall>log r log'. m log = (r, log') \<longrightarrow> (\<exists>sent. log' = log @ sent \<and> list_all P sent))"

lemma sends_pure: "sends P (ok_s x)" "sends P (lift_r r)"
  by (simp_all add: sends_def sm_simps)

lemma sends_query:
  "P st \<Longrightarrow> sends P (query_one (tracing rows one all cnt) st)"
  "P st \<Longrightarrow> sends P (query_all (tracing rows one all cnt) st)"
  "P st \<Longrightarrow> sends P (query_count (tracing rows one all cnt) st)"
  by (simp_all add: sends_def tracing_def)

lemma sends_bind:
  assumes m: "sends P m" and f: "\<And>x log log'. m log = (Inr x, log') \<Longrightarrow> sends P (f x)"
  shows "sends P (bind_s m f)"
  unfolding sends_def
proof (intro allI impI)
  fix log r log' assume run: "bind_s m f log = (r, log')"
  obtain x log1 where x: "m log = (x, log1)" by (cases "m log")
  then obtain sent where s: "log1 = log @ sent" "list_all P sent" using m unfolding sends_def by blast
  show "\<exists>sent. log' = log @ sent \<and> list_all P sent"
  proof (cases x)
    case (Inl e)
    then show ?thesis using run x s by (auto simp: bind_s_def)
  next
    case (Inr y)
    then have "f y log1 = (r, log')" using run x by (simp add: bind_s_def)
    then obtain sent' where "log' = log1 @ sent'" "list_all P sent'" using f x Inr unfolding sends_def by blast
    then show ?thesis using s by auto
  qed
qed

lemma sends_lift: "(\<And>x. r = Inr x \<Longrightarrow> sends P (f x)) \<Longrightarrow> sends P (bind_s (lift_r r) f)"
  by (rule sends_bind) (auto simp: sends_pure sm_simps)

section \<open>Schemas from the catalogue\<close>

lemma valid_chars: "ensure_valid_identifier s = Inr u \<Longrightarrow> s \<noteq> [] \<and> list_all is_word_char s"
  by (auto simp: ensure_valid_identifier_def is_word_char_def split: list.splits if_splits)

lemma word_char_visible: "is_word_char c \<Longrightarrow> visible c"
  by (auto simp: is_word_char_def is_ascii_alphabetic_def is_digit_def visible_def Let_def)

lemma valid_trim: "ensure_valid_identifier s = Inr u \<Longrightarrow> trim s = s"
  using valid_chars trim_visible word_char_visible by (metis hd_in_set last_in_set list_all_iff)

lemma normalize_again: "normalize_schema schema = Inr s \<Longrightarrow> normalize_schema (Some s) = Inr s"
  using valid_trim by (auto simp: normalize_schema_def Let_def bind_r_Inr)

lemma column_of_row_Inr:
  "column_of_row row = Inr c \<Longrightarrow>
   col_name c = column_name row \<and> pg_type c = row_pg_type row \<and> primary_key c = is_primary_key row \<and>
   (hidden_on_read c \<longleftrightarrow> column_name row \<in> set HIDDEN_READ_COLUMN_NAMES)"
  by (auto simp: column_of_row_def Let_def bind_r_Inr)

lemma collect_r_from: "collect_r f xs = Inr ys \<Longrightarrow> y \<in> set ys \<Longrightarrow> \<exists>x \<in> set xs. f x = Inr y"
  by (induction xs arbitrary: ys) (auto simp: bind_r_Inr)

definition described :: "(string \<Rightarrow> string \<Rightarrow> 'n ColumnSchemaRow list) \<Rightarrow> string option \<Rightarrow> string \<Rightarrow> TableSchema \<Rightarrow> bool" where
  "described rows schema table sch \<longleftrightarrow>
     normalize_schema schema = Inr (ts_schema sch) \<and> ts_table sch = table \<and>
     (\<forall>c \<in> set (ts_columns sch). \<exists>row \<in> set (rows (ts_schema sch) table). column_of_row row = Inr c)"

lemma describe_for_tracing:
  assumes "describe_for (tracing rows one all cnt) schema table log = (r, log')"
  shows "log' = log \<and> (\<forall>sch. r = Inr sch \<longrightarrow> described rows schema table sch)"
proof (cases "normalize_schema schema")
  case (Inl e)
  then show ?thesis using assms by (auto simp: describe_for_def bind_s_def sm_simps)
next
  case (Inr s)
  note again = normalize_again [OF Inr]
  have "load_columns_and_primary_key (rows s table) = Inr (cm, cs, pk) \<Longrightarrow> collect_r column_of_row (rows s table) = Inr cs" for cm cs pk
    by (auto simp: load_columns_and_primary_key_def bind_r_Inr split: list.splits)
  then show ?thesis
    using assms Inr again collect_r_from [of column_of_row "rows s table"]
    by (fastforce simp: describe_for_def describe_table_for_crud_in_schema_def bind_s_def sm_simps described_def tracing_def
        split: sum.splits prod.splits)
qed

text \<open>The columns of a table by the name rules of the catalogue: those shown to readers and the keys.\<close>

definition readable_names :: "'n ColumnSchemaRow list \<Rightarrow> string set" where
  "readable_names rows = {column_name row | row. row \<in> set rows \<and> (column_name row \<notin> set HIDDEN_READ_COLUMN_NAMES \<or> is_primary_key row)}"

definition types_ok :: "string set \<Rightarrow> string set \<Rightarrow> 'n ColumnSchemaRow list \<Rightarrow> bool" where
  "types_ok V J rows \<longleftrightarrow> (\<forall>row \<in> set rows. frag False (kw V) J (row_pg_type row) [])"

text \<open>The writing tools may name any column of the table.\<close>

definition all_names :: "'n ColumnSchemaRow list \<Rightarrow> string set" where
  "all_names rs = column_name ` set rs"

lemma readable_all: "readable_names rs \<subseteq> all_names rs"
  by (auto simp: readable_names_def all_names_def)

lemma described_row:
  "described rows schema table sch \<Longrightarrow> c \<in> set (ts_columns sch) \<Longrightarrow> \<exists>row \<in> set (rows (ts_schema sch) table). column_of_row row = Inr c"
  unfolding described_def by simp

lemma described_types: "described rows schema table sch \<Longrightarrow> types_ok V J (rows (ts_schema sch) table) \<Longrightarrow> schema_ok V J sch"
proof -
  assume d: "described rows schema table sch" and t: "types_ok V J (rows (ts_schema sch) table)"
  have "frag False (kw V) J (pg_type c) []" if c: "c \<in> set (ts_columns sch)" for c
  proof -
    obtain row where row: "row \<in> set (rows (ts_schema sch) table)" "column_of_row row = Inr c" using described_row [OF d c] by (elim bexE)
    then have "frag False (kw V) J (row_pg_type row) []" using t unfolding types_ok_def by blast
    then show ?thesis using column_of_row_Inr [OF row(2)] by simp
  qed
  then show ?thesis unfolding schema_ok_def type_ok_def by blast
qed

lemma described_names: "described rows schema table sch \<Longrightarrow> own_names sch \<subseteq> {ts_schema sch, table} \<union> readable_names (rows (ts_schema sch) table)"
proof -
  assume d: "described rows schema table sch"
  have "col_name c \<in> readable_names (rows (ts_schema sch) table)" if c: "c \<in> set (ts_columns sch)" and sh: "shown c \<or> primary_key c" for c
  proof -
    obtain row where row: "row \<in> set (rows (ts_schema sch) table)" "column_of_row row = Inr c" using described_row [OF d c] by (elim bexE)
    note k = column_of_row_Inr [OF row(2)]
    have "column_name row \<notin> set HIDDEN_READ_COLUMN_NAMES \<or> is_primary_key row" using sh k unfolding shown_def by blast
    moreover have "col_name c = column_name row" using k by blast
    ultimately show ?thesis using row(1) unfolding readable_names_def by blast
  qed
  then show ?thesis using d by (auto simp: own_names_def names_where_def described_def)
qed

lemma described_all: "described rows schema table sch \<Longrightarrow> names_where P sch \<subseteq> all_names (rows (ts_schema sch) table)"
proof -
  assume d: "described rows schema table sch"
  have "col_name c \<in> all_names (rows (ts_schema sch) table)" if c: "c \<in> set (ts_columns sch)" for c
  proof -
    obtain row where row: "row \<in> set (rows (ts_schema sch) table)" "column_of_row row = Inr c" using described_row [OF d c] by (elim bexE)
    then show ?thesis using column_of_row_Inr [OF row(2)] by (simp add: all_names_def)
  qed
  then show ?thesis unfolding names_where_def by blast
qed

lemma well_built_mono: "well_built V I st \<Longrightarrow> I \<subseteq> I' \<Longrightarrow> well_built V I' st"
  unfolding well_built_def using allowed_mono by (metis (no_types, lifting) list_all_iff order_refl)

text \<open>What every statement of a call satisfies: \<open>N\<close> gives the column names that it may use.\<close>

definition sent_ok ::
  "('n ColumnSchemaRow list \<Rightarrow> string set) \<Rightarrow> (string \<Rightarrow> string \<Rightarrow> 'n ColumnSchemaRow list) \<Rightarrow> string set \<Rightarrow> string set \<Rightarrow>
   string option \<Rightarrow> string \<Rightarrow> ('n, 'f) statement \<Rightarrow> bool" where
  "sent_ok N rows V J schema table st \<longleftrightarrow>
     (\<exists>s. normalize_schema schema = Inr s \<and> well_built V ({s, table} \<union> N (rows s table) \<union> J) st)"

lemma sent_okI:
  assumes "described rows schema table sch" "well_built V I st"
    "I \<subseteq> {ts_schema sch, table} \<union> N (rows (ts_schema sch) table) \<union> J"
  shows "sent_ok N rows V J schema table st"
  using well_built_mono [OF assms(2,3)] assms(1) unfolding sent_ok_def described_def by blast

text \<open>The names that a writing statement uses.\<close>

lemma described_written:
  assumes "described rows schema table sch"
  shows "own_names sch \<union> names_where P sch \<union> J \<subseteq> {ts_schema sch, table} \<union> all_names (rows (ts_schema sch) table) \<union> J"
    "own_names sch \<union> J \<subseteq> {ts_schema sch, table} \<union> all_names (rows (ts_schema sch) table) \<union> J"
    "own_names sch \<union> J \<subseteq> {ts_schema sch, table} \<union> readable_names (rows (ts_schema sch) table) \<union> J"
proof -
  note own = described_names [OF assms] and all = described_all [OF assms, of P] and readable = readable_all [of "rows (ts_schema sch) table"]
  show r: "own_names sch \<union> J \<subseteq> {ts_schema sch, table} \<union> readable_names (rows (ts_schema sch) table) \<union> J" using own by blast
  then show w: "own_names sch \<union> J \<subseteq> {ts_schema sch, table} \<union> all_names (rows (ts_schema sch) table) \<union> J" using readable by blast
  then show "own_names sch \<union> names_where P sch \<union> J \<subseteq> {ts_schema sch, table} \<union> all_names (rows (ts_schema sch) table) \<union> J" using all by blast
qed

lemma sends_described:
  assumes "\<And>sch. described rows schema table sch \<Longrightarrow> sends P (f sch)"
  shows "sends P (bind_s (describe_for (tracing rows one all cnt) schema table) f)"
proof (rule sends_bind)
  show "sends P (describe_for (tracing rows one all cnt) schema table)"
    unfolding sends_def using describe_for_tracing by fastforce
qed (use describe_for_tracing assms in blast)

lemma get_sends:
  assumes "\<And>s. types_ok V J (rows s table)"
  shows "sends (sent_ok readable_names rows V J schema table) (table_get S (tracing rows one all cnt) schema table key)"
  unfolding table_get_def
proof (intro sends_described sends_lift sends_bind [OF sends_query(1)] sends_pure)
  fix sch st assume d: "described rows schema table sch" and st: "table_get_statement S sch key = Inr st"
  have "well_built V (own_names sch \<union> J) st" by (rule get_read [OF st described_types [OF d assms]])
  then show "sent_ok readable_names rows V J schema table st" by (rule sent_okI [where N = readable_names, OF d _ described_written(3) [OF d]])
qed

lemma query_sends:
  assumes "\<And>s. types_ok V J (rows s table)"
  shows "sends (sent_ok readable_names rows V J schema table)
     (table_query S (tracing rows one all cnt) schema table columns filters order_by limit offset)"
  unfolding table_query_def Let_def case_prod_unfold
proof (intro sends_described sends_lift sends_bind [OF sends_query(2)] sends_bind [OF sends_query(3)] sends_pure)
  fix sch sel x
  assume d: "described rows schema table sch" and x: "build_filters_clause S sch filters = Inr x"
    and sel: "readable_select_list sch columns = Inr sel"
  note ok = described_types [OF d assms]
  have x': "build_filters_clause S sch filters = Inr (fst x, snd x)" using x by simp
  have "well_built V (own_names sch \<union> J) (count_statement sch (fst x) (snd x))" by (rule count_read [OF x' ok])
  then show "sent_ok readable_names rows V J schema table (count_statement sch (fst x) (snd x))"
    by (rule sent_okI [where N = readable_names, OF d _ described_written(3) [OF d]])
  fix ord assume ord: "build_order_clause sch order_by = Inr ord"
  have "well_built V (own_names sch \<union> J) (items_statement sch sel (fst x) ord (list_window limit offset) (snd x))"
    by (rule items_read [OF sel x' ord ok])
  then show "sent_ok readable_names rows V J schema table (items_statement sch sel (fst x) ord (list_window limit offset) (snd x))"
    by (rule sent_okI [where N = readable_names, OF d _ described_written(3) [OF d]])
qed

lemma insert_sends:
  assumes "\<And>s. types_ok V J (rows s table)"
  shows "sends (sent_ok all_names rows V J schema table) (table_insert S (tracing rows one all cnt) schema table vals)"
  unfolding table_insert_def
proof (intro sends_described sends_lift sends_bind [OF sends_query(1)] sends_pure)
  fix sch st assume d: "described rows schema table sch" and st: "table_insert_statement S sch vals = Inr st"
  show "sent_ok all_names rows V J schema table st"
    by (rule sent_okI [where N = all_names, OF d insert_read [OF st described_types [OF d assms]] described_written(1) [OF d]])
qed

lemma exists_sends:
  assumes d: "described rows schema table sch" and t: "\<And>s. types_ok V J (rows s table)"
    and st: "exists_statement S sch key = Inr st"
  shows "sent_ok all_names rows V J schema table st"
  by (rule sent_okI [where N = all_names, OF d exists_read [OF st described_types [OF d t]] described_written(2) [OF d]])

lemma update_sends:
  assumes t: "\<And>s. types_ok V J (rows s table)"
  shows "sends (sent_ok all_names rows V J schema table) (table_update S (tracing rows one all cnt) schema table key vals)"
  unfolding table_update_def
proof (intro sends_described sends_lift sends_bind [OF sends_query(1)])
  fix sch st assume d: "described rows schema table sch" and st: "table_update_statement S sch key vals = Inr st"
  show "sent_ok all_names rows V J schema table st"
    by (rule sent_okI [where N = all_names, OF d update_read [OF st described_types [OF d t]] described_written(1) [OF d]])
  fix item
  show "sends (sent_ok all_names rows V J schema table)
     (bind_s (if item \<noteq> None then ok_s (True, True)
              else bind_s (lift_r (exists_statement S sch key)) (\<lambda>st. bind_s (query_one (tracing rows one all cnt) st) (\<lambda>row. ok_s (row \<noteq> None, False))))
       (\<lambda>(found, changed). ok_s \<lparr> mu_schema = ts_schema sch, mu_table = ts_table sch, mu_found = found, mu_changed = changed, mu_item = item \<rparr>))"
    by (cases "item = None")
       (auto intro!: sends_bind sends_lift sends_pure sends_query exists_sends [OF d t] simp: case_prod_unfold)
qed

lemma delete_sends:
  assumes t: "\<And>s. types_ok V J (rows s table)"
  shows "sends (sent_ok all_names rows V J schema table) (table_delete S (tracing rows one all cnt) schema table key)"
  unfolding table_delete_def Let_def
proof (intro sends_described sends_lift sends_bind [OF sends_query(1)])
  fix sch st assume d: "described rows schema table sch" and st: "table_delete_statement S sch key = Inr st"
  show "sent_ok all_names rows V J schema table st"
    by (rule sent_okI [where N = all_names, OF d delete_read [OF st described_types [OF d t]] described_written(2) [OF d]])
  fix row
  show "sends (sent_ok all_names rows V J schema table)
     (bind_s (if row \<noteq> None then ok_s True
              else bind_s (lift_r (exists_statement S sch key)) (\<lambda>st. bind_s (query_one (tracing rows one all cnt) st) (\<lambda>row. ok_s (row \<noteq> None))))
       (\<lambda>found. ok_s \<lparr> del_schema = ts_schema sch, del_table = ts_table sch, del_found = found, del_deleted = (row \<noteq> None),
              del_rows_affected = (if row \<noteq> None then 1 else 0) \<rparr>))"
    by (cases "row = None") (auto intro!: sends_bind sends_lift sends_pure sends_query exists_sends [OF d t])
qed

section \<open>Properties\<close>

text \<open>
  C28. The reading tools: whatever the request, the answers of the database and the catalogue, as long as the type
  of every column in it is the text of a type (\<open>types_ok\<close>: words, quoted names and punctuation), every statement
  that \<open>table_get\<close> and \<open>table_query\<close> send reads as keywords, words of column types, placeholders numbered from 1
  to the number of bound values in this order, and quoted names; a quoted name is the schema, the table, a
  column that is not hidden from readers or belongs to the primary key (a hidden key column is named in the
  order and in the comparison with the key), or a name inside a column type. There is no literal, no
  comment and no semicolon, and no value of the request is part of the text.
\<close>

theorem reading_tools_safe:
  assumes "\<And>s. types_ok V J (rows s table)"
  shows "sends (sent_ok readable_names rows V J schema table) (table_get S (tracing rows one all cnt) schema table key) \<and>
     sends (sent_ok readable_names rows V J schema table)
       (table_query S (tracing rows one all cnt) schema table columns filters order_by limit offset)"
  by (intro conjI get_sends query_sends assms)

text \<open>
  C29. The writing tools: every statement that \<open>table_insert\<close>, \<open>table_update\<close> and \<open>table_delete\<close> send reads the same way,
  with quoted names among the schema, the table and its columns; an update numbers the placeholders of its key
  after those of its assignments.
\<close>

theorem writing_tools_safe:
  assumes "\<And>s. types_ok V J (rows s table)"
  shows "sends (sent_ok all_names rows V J schema table) (table_insert S (tracing rows one all cnt) schema table vals) \<and>
     sends (sent_ok all_names rows V J schema table) (table_update S (tracing rows one all cnt) schema table key vals) \<and>
     sends (sent_ok all_names rows V J schema table) (table_delete S (tracing rows one all cnt) schema table key)"
  by (intro conjI insert_sends update_sends delete_sends assms)

text \<open>A table with a key, a hidden column and a text column, and a JSON library on integers.\<close>

definition sample_row :: "string \<Rightarrow> string \<Rightarrow> bool \<Rightarrow> int ColumnSchemaRow" where
  "sample_row name ty pk =
     \<lparr> table_comment = None, column_name = name, row_pg_type = ty, is_nullable = False, column_default = None,
       row_is_identity = False, row_is_generated = False, is_primary_key = pk, column_comment = None, row_enum_values = None \<rparr>"

definition sample_rows :: "string \<Rightarrow> string \<Rightarrow> int ColumnSchemaRow list" where
  "sample_rows s t = [sample_row ''id'' ''bigint'' True, sample_row ''password'' ''text'' False, sample_row ''name'' ''character varying(64)'' False]"

definition sample_serde :: "(int, unit) serde" where
  "sample_serde = \<lparr> number_text = show_int, number_as_i64 = Some, number_as_u64 = (\<lambda>_. None), number_as_f64 = (\<lambda>_. None),
     parse_f64 = (\<lambda>_. None), json_text = (\<lambda>_. None), json_parse = (\<lambda>s. map_option JNumber (parse_i64 s)) \<rparr>"

lemma sample_types: "types_ok {''character'', ''varying''} {} (sample_rows s t)"
proof -
  let ?V = "{''character'', ''varying''}"
  have "fixed_text False ''bigint''" "fixed_text False ''text''" by code_simp+
  then have "frag False (kw ?V) {} ''bigint'' []" "frag False (kw ?V) {} ''text'' []" by (simp_all add: frag_text)
  moreover have "frag False (kw ?V) {} ''character varying(64)'' []"
  proof (rule frag_plain)
    show "plain_text ''character varying(64)''" by code_simp
    have "text_words ''character varying(64)'' = [''character'', ''varying'']" by code_simp
    then show "set (text_words ''character varying(64)'') \<subseteq> kw ?V" by (simp add: kw_def)
  qed simp
  ultimately show ?thesis by (simp add: types_ok_def sample_rows_def sample_row_def)
qed

abbreviation (input) sample_db :: "((int, unit) statement list, int, unit, unit) database" where
  "sample_db \<equiv> tracing sample_rows (\<lambda>_ _. Inr (Some ())) (\<lambda>_ _. Inr [()]) (\<lambda>_ _. Inr (Some 1))"

definition sample_table :: TableSchema where
  "sample_table = \<lparr> ts_schema = ''public'', ts_table = ''sys_user'', ts_comment = None, ts_primary_key = [''id''],
     ts_columns = map (\<lambda>row. case column_of_row row of Inr c \<Rightarrow> c) (sample_rows ''public'' ''sys_user'') \<rparr>"

lemma sample_schema: "describe_for sample_db None ''sys_user'' log = (Inr sample_table, log)"
proof -
  have public: "normalize_schema None = Inr ''public''" "normalize_schema (Some ''public'') = Inr ''public''"
    using trim_visible [of "''public''"]
    by (simp_all add: normalize_schema_def PUBLIC_SCHEMA_def visible_def ensure_valid_identifier_def is_word_char_def is_ascii_alphabetic_def)
  have user: "ensure_valid_identifier ''sys_user'' = Inr ()" by code_simp
  show ?thesis
    by (simp add: describe_for_def describe_table_for_crud_in_schema_def bind_s_def sm_simps public user tracing_def sample_rows_def
        load_columns_and_primary_key_def sample_row_def column_of_row_def not_blank_def sample_table_def Let_def)
qed

lemma sample_get:
  "table_get_statement sample_serde sample_table [(''id'', JNumber 7)] =
     Inr (''SELECT '' @ quote_identifier ''id'' @ '', '' @ quote_identifier ''name'' @ '' FROM '' @ quote_identifier ''public'' @ ''.'' @
       quote_identifier ''sys_user'' @ '' WHERE '' @ quote_identifier ''id'' @ '' = CAST($1 AS bigint) LIMIT 1'', [Bound_String ''7''])"
proof -
  have "show_nat 1 = ''1''" "show_nat (Suc 0) = ''1''" "show_nat 7 = ''7''" by code_simp+
  then show ?thesis
    by (simp add: sample_table_def sample_rows_def sample_row_def column_of_row_def Let_def
        table_get_statement_def readable_select_list_def resolve_readable_columns_def readable_columns_def HIDDEN_READ_COLUMN_NAMES_def
        build_key_clause_def primary_key_columns_def is_null_def bind_cast_value_def json_value_to_bound_string_def sample_serde_def
        show_int_def qualified_name_def)
qed

lemma reading_tools_safe_witness:
  "sends (sent_ok readable_names sample_rows {''character'', ''varying''} {} None ''sys_user'')
     (table_get sample_serde sample_db None ''sys_user'' [(''id'', JNumber 7)]) \<and>
   snd (table_get sample_serde sample_db None ''sys_user'' [(''id'', JNumber 7)] []) =
     [(''SELECT '' @ quote_identifier ''id'' @ '', '' @ quote_identifier ''name'' @ '' FROM '' @ quote_identifier ''public'' @ ''.'' @
       quote_identifier ''sys_user'' @ '' WHERE '' @ quote_identifier ''id'' @ '' = CAST($1 AS bigint) LIMIT 1'', [Bound_String ''7''])]"
proof
  show "sends (sent_ok readable_names sample_rows {''character'', ''varying''} {} None ''sys_user'')
     (table_get sample_serde sample_db None ''sys_user'' [(''id'', JNumber 7)])"
    by (rule conjunct1 [OF reading_tools_safe [where rows = sample_rows, OF sample_types]])
  show "snd (table_get sample_serde sample_db None ''sys_user'' [(''id'', JNumber 7)] []) =
     [(''SELECT '' @ quote_identifier ''id'' @ '', '' @ quote_identifier ''name'' @ '' FROM '' @ quote_identifier ''public'' @ ''.'' @
       quote_identifier ''sys_user'' @ '' WHERE '' @ quote_identifier ''id'' @ '' = CAST($1 AS bigint) LIMIT 1'', [Bound_String ''7''])]"
    unfolding table_get_def bind_s_def sample_schema
    by (simp add: sm_simps sample_get del: append.simps) (simp add: tracing_def ok_s_def)
qed

lemma writing_tools_safe_witness:
  "sends (sent_ok all_names sample_rows {''character'', ''varying''} {} None ''sys_user'')
     (table_update sample_serde sample_db None ''sys_user'' [(''id'', JNumber 7)] [(''name'', JString ''x; drop'')])"
  by (rule conjunct1 [OF conjunct2 [OF writing_tools_safe [where rows = sample_rows, OF sample_types]]])

section \<open>The read-only wrapper\<close>

definition ends_in_comment :: "lexeme list \<Rightarrow> bool" where
  "ends_in_comment ls \<longleftrightarrow> (\<exists>ms b. ls = ms @ [Last_Comment b])"

lemma no_tag_append:
  assumes "\<not> (\<exists>tag t. dollar_tag tag \<and> c # r = tag @ t)" "u = CHR '')'' # u'"
  shows "\<not> (\<exists>tag t. dollar_tag tag \<and> c # r @ u = tag @ t)"
proof -
  have none: "parse_dollar_quote_tag (c # r) = None" using assms(1) by (simp add: parse_no_tag)
  have stop: "\<not> is_word_char (CHR '')'')" by code_simp
  have "\<not> starts_with (CHR ''$'') (dropWhile is_word_char (r @ u))" if "c = CHR ''$''"
  proof (cases "dropWhile is_word_char r")
    case Nil
    then have "dropWhile is_word_char (r @ u) = u" using stop assms(2) by (simp add: dropWhile_eq_Nil_conv)
    then show ?thesis using assms(2) by simp
  next
    case (Cons d ds)
    then have "dropWhile is_word_char (r @ u) = d # ds @ u" by (auto simp: dropWhile_append dropWhile_eq_Nil_conv [THEN iffD2])
    then show ?thesis using none that Cons by (simp add: parse_dollar_quote_tag_def split: if_splits)
  qed
  then have "parse_dollar_quote_tag (c # r @ u) = None" by (simp add: parse_dollar_quote_tag_def)
  then show ?thesis by (simp add: parse_no_tag)
qed

lemma fits_append:
  assumes "fits l r" "u = CHR '')'' # u'" "\<forall>b. l \<noteq> Last_Comment b"
  shows "fits l (r @ u)"
proof (cases l)
  case (Word w)
  have "\<not> is_word_char (CHR '')'')" by code_simp
  then have "\<forall>c r'. r @ u = c # r' \<longrightarrow> \<not> is_word_char c" using assms(1,2) Word by (cases r) auto
  moreover have "starts_with squote (r @ u) \<longleftrightarrow> starts_with squote r" using assms(2) by (cases r) auto
  moreover have "prefix [CHR ''&'', q] (r @ u) \<longleftrightarrow> prefix [CHR ''&'', q] r" if "q \<noteq> CHR '')''" for q
    using assms(2) that by (cases r; cases "tl r") (auto simp: prefix_one)
  ultimately show ?thesis using assms(1) Word by simp
next
  case (Quoted p q b)
  have "starts_with q (r @ u) \<longleftrightarrow> starts_with q r" using assms(1,2) Quoted by (cases r) auto
  then show ?thesis using assms(1) Quoted by simp
next
  case (Other c)
  have "\<not> (\<exists>tag t. dollar_tag tag \<and> c # r @ u = tag @ t)" using no_tag_append [of c r u u'] assms(1,2) Other by simp
  moreover have "starts_with d (r @ u) \<longleftrightarrow> starts_with d r" if "d \<noteq> CHR '')''" for d using assms(2) that by (cases r) auto
  ultimately show ?thesis using assms(1) Other by simp
qed (use assms in auto)

lemma reads_append:
  "reads s ls \<Longrightarrow> u = CHR '')'' # u' \<Longrightarrow> reads u ms \<Longrightarrow> newline \<notin> set u \<Longrightarrow>
   reads (s @ u) (if ends_in_comment ls then butlast ls @ [Last_Comment (drop 2 (spell (last ls)) @ u)] else ls @ ms)"
proof (induction rule: reads.induct)
  case reads_end
  then show ?case by (simp add: ends_in_comment_def)
next
  case (reads_next l r ls)
  show ?case
  proof (cases "\<exists>b. l = Last_Comment b")
    case True
    then obtain b where b: "l = Last_Comment b" by blast
    then have r: "r = []" "newline \<notin> set b" using reads_next(1) by simp_all
    have "reads [] ls" using reads_next(2) r(1) by simp
    then have ls: "ls = []" by (cases rule: reads.cases) (auto dest: spell_ne)
    have "fits (Last_Comment (b @ u)) []" using r(2) reads_next.prems(3) by simp
    from reads.reads_next [OF this reads.reads_end] show ?thesis using b r ls by (simp add: ends_in_comment_def)
  next
    case False
    then have f: "fits l (r @ u)" using fits_append [OF reads_next(1) reads_next.prems(1)] by blast
    have e: "ends_in_comment (l # ls) \<longleftrightarrow> ends_in_comment ls"
    proof
      assume "ends_in_comment (l # ls)"
      then obtain ms b where m: "l # ls = ms @ [Last_Comment b]" unfolding ends_in_comment_def by blast
      then obtain ms' where "ms = l # ms'" using False by (cases ms) auto
      then show "ends_in_comment ls" using m unfolding ends_in_comment_def by auto
    next
      assume "ends_in_comment ls"
      then show "ends_in_comment (l # ls)" unfolding ends_in_comment_def by (metis append_Cons)
    qed
    have ne: "ends_in_comment ls \<Longrightarrow> ls \<noteq> []" by (auto simp: ends_in_comment_def)
    from reads.reads_next [OF f reads_next.IH [OF reads_next.prems]] show ?thesis using e ne by auto
  qed
qed

lemma words_butlast: "ends_in_comment ls \<Longrightarrow> concat (map words_of (butlast ls)) = concat (map words_of ls)"
  by (auto simp: ends_in_comment_def words_of_def)

text \<open>
  The wrapper of the read-only tool: with a statement that reads as \<open>ls\<close>, the text that is executed reads as
  the select of the wrapper, the words of the statement, and then the alias and the limit, except when the
  statement ends in a line comment: then the alias and the limit are part of that comment, and no limit is
  left for the database.
\<close>

theorem wrapped_statement_words:
  assumes "reads s ls"
  shows "collect_sql_tokens (wrapped_sql s n) =
     Inr ([''select'', ''from''] @ concat (map words_of ls) @ (if ends_in_comment ls then [] else [''as'', ''limit'']))"
proof -
  let ?u = "'') AS '' @ quote_identifier READONLY_SQL_SUBQUERY_ALIAS @ '' LIMIT '' @ show_nat n"
  let ?h = "''SELECT * FROM (''"
  have h: "list_all (\<lambda>c. plain_char c \<or> is_word_char c) ?h" "?h \<noteq> []" "plain_char (last ?h)"
    by (simp_all add: fixed_simps)
  have hw: "concat (map words_of (plain_lex ?h)) = [''select'', ''from'']" by (simp add: fixed_simps)
  have dg: "newline \<notin> set (show_nat n)" using show_nat_digits [of n] by (auto simp: list_all_iff is_digit_def)
  have nl: "newline \<notin> set ?u" using dg by (simp add: quote_identifier_def READONLY_SQL_SUBQUERY_ALIAS_def)
  have num: "reads ('' LIMIT '' @ show_nat n) (plain_lex '' LIMIT '' @ map Other (show_nat n))"
    using reads_plain [of "'' LIMIT ''" "show_nat n"] reads_digits [OF show_nat_digits reads_end, of n] by (simp add: fixed_simps)
  have al: "reads (quote_identifier READONLY_SQL_SUBQUERY_ALIAS @ '' LIMIT '' @ show_nat n)
      (Quoted [] dquote READONLY_SQL_SUBQUERY_ALIAS # plain_lex '' LIMIT '' @ map Other (show_nat n))"
    using reads_ident [OF num] by simp
  have u: "reads ?u (plain_lex '') AS '' @ Quoted [] dquote READONLY_SQL_SUBQUERY_ALIAS # plain_lex '' LIMIT '' @ map Other (show_nat n))"
    using reads_plain [OF _ _ al, of "'') AS ''"] by (simp add: fixed_simps)
  have uw: "concat (map words_of (plain_lex '') AS '' @ Quoted [] dquote READONLY_SQL_SUBQUERY_ALIAS # plain_lex '' LIMIT '' @ map Other (show_nat n)))
      = [''as'', ''limit'']"
    by (auto simp: fixed_simps)
  have start: "?u = CHR '')'' # tl ?u" by simp
  let ?us = "plain_lex '') AS '' @ Quoted [] dquote READONLY_SQL_SUBQUERY_ALIAS # plain_lex '' LIMIT '' @ map Other (show_nat n)"
  let ?ls = "if ends_in_comment ls then butlast ls @ [Last_Comment (drop 2 (spell (last ls)) @ ?u)] else ls @ ?us"
  have body: "reads (s @ ?u) ?ls" by (rule reads_append [OF assms start u nl])
  have "reads (?h @ s @ ?u) (plain_lex ?h @ ?ls)" by (rule reads_plain [OF h(1) _ body]) (use h in simp)
  then have "collect_sql_tokens (?h @ s @ ?u) = Inr (concat (map words_of (plain_lex ?h @ ?ls)))" by (rule reads_words)
  moreover have "concat (map words_of (plain_lex ?h @ ?ls)) =
     [''select'', ''from''] @ concat (map words_of ls) @ (if ends_in_comment ls then [] else [''as'', ''limit''])"
    using words_butlast [of ls] uw hw by (simp add: words_of_def)
  ultimately show ?thesis by (simp add: wrapped_sql_def)
qed

lemma wrapped_statement_words_witness:
  "normalize_readonly_sql ''select 1) q --'' = Inr ''select 1) q --'' \<and>
   collect_sql_tokens (wrapped_sql ''select 1) q --'' 200) = Inr [''select'', ''from'', ''select'', ''q'']"
proof
  let ?s = "''select 1) q --''"
  have one: "normalize_single_statement_sql ?s = Inr ?s" by (rule single_statement_plain) (simp_all add: visible_def)
  have words: "collect_sql_tokens ?s = Inr [''select'', ''q'']" by code_simp
  show "normalize_readonly_sql ?s = Inr ?s"
    unfolding readonly_iff one words by (simp add: FORBIDDEN_READONLY_SQL_KEYWORDS_def)
  let ?ls = "plain_lex ''select 1) q '' @ [Last_Comment []]"
  have "fits (Last_Comment []) []" by simp
  from reads_next [OF this reads_end] have "reads ''--'' [Last_Comment []]" by simp
  then have r: "reads ?s ?ls" using reads_plain [of "''select 1) q ''" "''--''"] by (simp add: fixed_simps)
  have w: "concat (map words_of ?ls) = [''select'', ''q'']" by (simp add: fixed_simps)
  have e: "ends_in_comment ?ls" unfolding ends_in_comment_def by blast
  show "collect_sql_tokens (wrapped_sql ?s 200) = Inr [''select'', ''from'', ''select'', ''q'']"
    unfolding wrapped_statement_words [OF r] w using e by simp
qed

section \<open>Bound values\<close>

definition texts :: "('n, 'f) serde \<Rightarrow> 'n json list \<Rightarrow> ('n, 'f) bound list" where
  "texts S vs = concat (map (\<lambda>v. case json_value_to_bound_string S v of Inr (Some t) \<Rightarrow> [Bound_String t] | _ \<Rightarrow> []) vs)"

lemma texts_Nil [simp]: "texts S [] = []"
  by (simp add: texts_def)

lemma texts_more: "texts S (v # vs) = texts S [v] @ texts S vs"
  by (simp add: texts_def)

lemma cast_binds: "bind_cast_value S i c v ps = Inr (p, qs) \<Longrightarrow> qs = ps @ texts S [v]"
  by (auto simp: bind_cast_value_def bind_r_Inr texts_def split: option.splits)

lemma update_assignments_bind:
  "update_assignments S schema vals ps = Inr (cs, qs) \<Longrightarrow> qs = ps @ texts S (map snd vals)"
proof (induction vals arbitrary: ps cs)
  case (Cons nv vals)
  obtain name val where nv: "nv = (name, val)" by (cases nv)
  obtain c where "schema_column schema name = Some c" "writable_on_update c"
    using Cons.prems nv by (auto simp: bind_r_Inr split: option.splits if_splits)
  then obtain p ps1 cs' where "bind_cast_value S (length ps + 1) c val ps = Inr (p, ps1)" "update_assignments S schema vals ps1 = Inr (cs', qs)"
    using Cons.prems nv by (auto simp: bind_r_Inr)
  then have "qs = ps @ texts S [val] @ texts S (map snd vals)" using Cons.IH cast_binds by fastforce
  then show ?case using nv texts_more [of S val "map snd vals"] by simp
qed simp

lemma key_clauses_bind:
  "key_clauses S key cols ps = Inr (cs, qs) \<Longrightarrow>
   (\<forall>c \<in> set cols. map_of key (col_name c) \<noteq> None) \<and> qs = ps @ texts S (map (\<lambda>c. the (map_of key (col_name c))) cols)"
proof (induction cols arbitrary: ps cs)
  case (Cons c cols)
  obtain val where v: "map_of key (col_name c) = Some val" "\<not> is_null val"
    using Cons.prems by (auto split: option.splits if_splits)
  then obtain p ps1 cs' where "bind_cast_value S (length ps + 1) c val ps = Inr (p, ps1)" "key_clauses S key cols ps1 = Inr (cs', qs)"
    using Cons.prems by (auto simp: bind_r_Inr)
  then have "qs = ps @ texts S [val] @ texts S (map (\<lambda>c. the (map_of key (col_name c))) cols)"
    "\<forall>c \<in> set cols. map_of key (col_name c) \<noteq> None" using Cons.IH cast_binds by fastforce+
  then show ?case using v texts_more [of S val "map (\<lambda>c. the (map_of key (col_name c))) cols"] by simp
qed simp

text \<open>
  What an update binds: the values that the statement of \<open>table_update\<close> is sent with are the texts of the
  assigned values in the order of their columns (a null is written into the statement and binds nothing), then
  the texts of the key values in the order of the key columns of the table, each of which the request names.
\<close>

theorem update_binds_values:
  assumes "table_update_statement S schema key vals = Inr (sql, params)"
  shows "params = texts S (map snd vals) @ texts S (map (\<lambda>c. the (map_of key (col_name c))) (primary_key_columns schema)) \<and>
     (\<forall>c \<in> set (primary_key_columns schema). map_of key (col_name c) \<noteq> None) \<and>
     length key = length (primary_key_columns schema) \<and> vals \<noteq> []"
proof -
  obtain sc ps wh where g: "build_update_assignments S schema vals = Inr (sc, ps)" "build_key_clause S schema key ps = Inr (wh, params)"
    using assms by (auto simp: table_update_statement_def bind_r_Inr)
  obtain cs where u: "update_assignments S schema vals [] = Inr (cs, ps)" "vals \<noteq> []"
    using g(1) by (auto simp: build_update_assignments_def bind_r_Inr split: if_splits)
  obtain ds where k: "key_clauses S key (primary_key_columns schema) ps = Inr (ds, params)" "length key = length (primary_key_columns schema)"
    using g(2) by (auto simp: build_key_clause_def Let_def bind_r_Inr split: if_splits)
  show ?thesis using update_assignments_bind [OF u(1)] key_clauses_bind [OF k(1)] k(2) u(2) by simp
qed

lemma update_binds_values_witness:
  "\<exists>sql. table_update_statement sample_serde sample_table [(''id'', JNumber 7)] [(''name'', JString ''x'')] = Inr (sql, [Bound_String ''x'', Bound_String ''7''])"
proof -
  have n: "show_nat 1 = ''1''" "show_nat (Suc 0) = ''1''" "show_nat 2 = ''2''" "show_nat (Suc (Suc 0)) = ''2''" "show_nat 7 = ''7''" by code_simp+
  have name: "ensure_valid_identifier ''name'' = Inr ()" by code_simp
  have key: "primary_key_columns sample_table \<noteq> []" "map col_name (primary_key_columns sample_table) = [''id'']"
    by (simp_all add: sample_table_def sample_rows_def sample_row_def column_of_row_def Let_def primary_key_columns_def)
  obtain sql ps where s: "table_update_statement sample_serde sample_table [(''id'', JNumber 7)] [(''name'', JString ''x'')] = Inr (sql, ps)"
    by (simp add: sample_table_def sample_rows_def sample_row_def column_of_row_def Let_def table_update_statement_def
        build_update_assignments_def name schema_column_def readable_select_list_def resolve_readable_columns_def readable_columns_def
        HIDDEN_READ_COLUMN_NAMES_def BLOCKED_WRITE_COLUMN_NAMES_def build_key_clause_def primary_key_columns_def is_null_def bind_cast_value_def
        json_value_to_bound_string_def sample_serde_def show_int_def n)
  obtain c where c: "primary_key_columns sample_table = [c]" "col_name c = ''id''" using key(2) by auto
  have "ps = [Bound_String ''x'', Bound_String ''7'']"
    using update_binds_values [OF s] c by (simp add: texts_def json_value_to_bound_string_def sample_serde_def show_int_def n)
  then show ?thesis using s by blast
qed

lemma doubled_inj: "doubled q a @ q # r = doubled q b @ q # s \<Longrightarrow> \<not> starts_with q r \<Longrightarrow> \<not> starts_with q s \<Longrightarrow> a = b"
proof (induction a arbitrary: b)
  case Nil
  then show ?case by (cases b) (auto split: if_splits)
next
  case (Cons c a)
  then show ?case by (cases b) (auto split: if_splits)
qed

text \<open>
  Quoting of identifiers: a quoted identifier, whatever characters it has, reads as one lexeme that holds the
  identifier, and two identifiers that are quoted alike are the same.
\<close>

theorem quoting_roundtrip:
  "reads (quote_identifier a) [Quoted [] dquote a] \<and> (quote_identifier a = quote_identifier b \<longleftrightarrow> a = b)"
  using reads_ident [OF reads_end, of a] doubled_inj [of dquote a "[]" b "[]"] by (auto simp: quote_identifier_def)

text \<open>
  A typed parameter never reaches the server as one: every JSON value is taken as the first variant, so that
  the object with a kind and a value that the tool descriptions ask for is bound as a JSON document.
\<close>

lemma typed_parameters_unreachable:
  "deserialize_param v = Some (Raw v) \<and>
   json_param_to_value S (Raw (JObject [(''kind'', JString ''bigint''), (''value'', JString ''13'')])) =
     Inr (Bound_Json (Some (JObject [(''kind'', JString ''bigint''), (''value'', JString ''13'')]))) \<and>
   json_param_to_value S (Typed Bigint (JString ''13'')) = Inr (Bound_BigInt 13)"
proof -
  have "parse_i64 ''13'' = Some 13" by code_simp
  then show ?thesis
    by (simp add: deserialize_param_def deserialize_raw_def json_param_to_value_def raw_json_param_to_value_def
        typed_json_param_to_value_def parse_typed_i64_def)
qed

end
