(* ===== verification/Dict_Model.thy ===== *)
theory Dict_Model
  imports Sync_Plan Requests
begin

text \<open>
  The data of the dictionaries: rows of \<open>sys.dict_type\<close> and \<open>sys.dict_data\<close> (\<^verbatim>\<open>summer-system/model/src/entity\<close>),
  the requests of \<^verbatim>\<open>dto/sys_dict.rs\<close> with their validation and effect, the views of \<^verbatim>\<open>vo/sys_dict.rs\<close>, and the
  bundles of \<^verbatim>\<open>summer-domain/src/dict.rs\<close>.
\<close>

named_theorems dict_defs "definitions of the dictionary model"

section \<open>Rows\<close>

datatype dict_status = Enabled | Disabled

record dict_type_row =
  dt_id :: int
  dt_dict_name :: string
  dt_dict_type :: string
  dt_status :: dict_status
  dt_is_system :: bool
  dt_remark :: string
  dt_create_by :: string
  dt_create_time :: int
  dt_update_by :: string
  dt_update_time :: int

record dict_data_row =
  dd_id :: int
  dd_dict_type :: string
  dd_dict_label :: string
  dd_dict_value :: string
  dd_dict_sort :: int
  dd_css_class :: string
  dd_list_class :: string
  dd_is_default :: bool
  dd_status :: dict_status
  dd_is_system :: bool
  dd_remark :: string
  dd_create_by :: string
  dd_create_time :: int
  dd_update_by :: string
  dd_update_time :: int

section \<open>Requests\<close>

record create_dict_type_dto =
  ct_dict_name :: string
  ct_dict_type :: string
  ct_status :: "dict_status option"
  ct_remark :: "string option"

definition create_dict_type_dto_valid :: "create_dict_type_dto \<Rightarrow> bool" where
  "create_dict_type_dto_valid d \<longleftrightarrow>
     length_between 1 100 (ct_dict_name d) \<and> length_between 1 100 (ct_dict_type d) \<and> opt_length 0 500 (ct_remark d)"

text \<open>Rows as the code fills them for an insert; the data base layer sets the identity and the time stamps.\<close>

definition row_of_create_type :: "create_dict_type_dto \<Rightarrow> string \<Rightarrow> dict_type_row" where
  [dict_defs]: "row_of_create_type d operator =
     \<lparr>dt_id = 0, dt_dict_name = ct_dict_name d, dt_dict_type = ct_dict_type d, dt_status = unwrap_or Enabled (ct_status d),
      dt_is_system = False, dt_remark = unwrap_or [] (ct_remark d), dt_create_by = operator, dt_create_time = 0,
      dt_update_by = operator, dt_update_time = 0\<rparr>"

record update_dict_type_dto =
  ut_dict_name :: "string option"
  ut_status :: "dict_status option"
  ut_remark :: "string option"

definition update_dict_type_dto_valid :: "update_dict_type_dto \<Rightarrow> bool" where
  "update_dict_type_dto_valid d \<longleftrightarrow> opt_length 1 100 (ut_dict_name d) \<and> opt_length 0 500 (ut_remark d)"

definition update_type_apply :: "update_dict_type_dto \<Rightarrow> string \<Rightarrow> dict_type_row \<Rightarrow> dict_type_row" where
  [dict_defs]: "update_type_apply d operator r =
     r\<lparr>dt_update_by := operator, dt_dict_name := unwrap_or (dt_dict_name r) (ut_dict_name d),
       dt_status := unwrap_or (dt_status r) (ut_status d), dt_remark := unwrap_or (dt_remark r) (ut_remark d)\<rparr>"

record create_dict_data_dto =
  cd_dict_type :: string
  cd_dict_label :: string
  cd_dict_value :: string
  cd_dict_sort :: "int option"
  cd_css_class :: "string option"
  cd_list_class :: "string option"
  cd_is_default :: "bool option"
  cd_status :: "dict_status option"
  cd_remark :: "string option"

definition create_dict_data_dto_valid :: "create_dict_data_dto \<Rightarrow> bool" where
  "create_dict_data_dto_valid d \<longleftrightarrow>
     length_between 1 100 (cd_dict_type d) \<and> length_between 1 100 (cd_dict_label d) \<and> length_between 1 100 (cd_dict_value d) \<and>
     opt_length 0 100 (cd_css_class d) \<and> opt_length 0 100 (cd_list_class d) \<and> opt_length 0 500 (cd_remark d)"

definition row_of_create_data :: "create_dict_data_dto \<Rightarrow> string \<Rightarrow> dict_data_row" where
  [dict_defs]: "row_of_create_data d operator =
     \<lparr>dd_id = 0, dd_dict_type = cd_dict_type d, dd_dict_label = cd_dict_label d, dd_dict_value = cd_dict_value d,
      dd_dict_sort = unwrap_or 0 (cd_dict_sort d), dd_css_class = unwrap_or [] (cd_css_class d),
      dd_list_class = unwrap_or [] (cd_list_class d), dd_is_default = unwrap_or False (cd_is_default d),
      dd_status = unwrap_or Enabled (cd_status d), dd_is_system = False, dd_remark = unwrap_or [] (cd_remark d),
      dd_create_by = operator, dd_create_time = 0, dd_update_by = operator, dd_update_time = 0\<rparr>"

record update_dict_data_dto =
  ud_dict_label :: "string option"
  ud_dict_value :: "string option"
  ud_dict_sort :: "int option"
  ud_css_class :: "string option"
  ud_list_class :: "string option"
  ud_is_default :: "bool option"
  ud_status :: "dict_status option"
  ud_remark :: "string option"

definition update_dict_data_dto_valid :: "update_dict_data_dto \<Rightarrow> bool" where
  "update_dict_data_dto_valid d \<longleftrightarrow>
     opt_length 1 100 (ud_dict_label d) \<and> opt_length 1 100 (ud_dict_value d) \<and> opt_length 0 100 (ud_css_class d) \<and>
     opt_length 0 100 (ud_list_class d) \<and> opt_length 0 500 (ud_remark d)"

definition update_data_apply :: "update_dict_data_dto \<Rightarrow> string \<Rightarrow> dict_data_row \<Rightarrow> dict_data_row" where
  [dict_defs]: "update_data_apply d operator r =
     r\<lparr>dd_update_by := operator, dd_dict_label := unwrap_or (dd_dict_label r) (ud_dict_label d),
       dd_dict_value := unwrap_or (dd_dict_value r) (ud_dict_value d), dd_dict_sort := unwrap_or (dd_dict_sort r) (ud_dict_sort d),
       dd_css_class := unwrap_or (dd_css_class r) (ud_css_class d), dd_list_class := unwrap_or (dd_list_class r) (ud_list_class d),
       dd_is_default := unwrap_or (dd_is_default r) (ud_is_default d), dd_status := unwrap_or (dd_status r) (ud_status d),
       dd_remark := unwrap_or (dd_remark r) (ud_remark d)\<rparr>"

section \<open>Queries and views\<close>

text \<open>The conditions of the list queries; \<open>contains\<close> is SQL's \<open>LIKE\<close> with the text between two wildcards.\<close>

record dict_type_query =
  qt_dict_name :: "string option"
  qt_dict_type :: "string option"
  qt_status :: "dict_status option"

definition type_query_matches :: "(string \<Rightarrow> string \<Rightarrow> bool) \<Rightarrow> dict_type_query \<Rightarrow> dict_type_row \<Rightarrow> bool" where
  "type_query_matches contains q r \<longleftrightarrow>
     (case qt_dict_name q of Some n \<Rightarrow> contains (dt_dict_name r) n | None \<Rightarrow> True) \<and>
     (case qt_dict_type q of Some t \<Rightarrow> contains (dt_dict_type r) t | None \<Rightarrow> True) \<and>
     (case qt_status q of Some s \<Rightarrow> dt_status r = s | None \<Rightarrow> True)"

record dict_data_query =
  qd_dict_type :: "string option"
  qd_dict_label :: "string option"
  qd_status :: "dict_status option"

definition data_query_matches :: "(string \<Rightarrow> string \<Rightarrow> bool) \<Rightarrow> dict_data_query \<Rightarrow> dict_data_row \<Rightarrow> bool" where
  "data_query_matches contains q r \<longleftrightarrow>
     (case qd_dict_type q of Some t \<Rightarrow> dd_dict_type r = t | None \<Rightarrow> True) \<and>
     (case qd_dict_label q of Some l \<Rightarrow> contains (dd_dict_label r) l | None \<Rightarrow> True) \<and>
     (case qd_status q of Some s \<Rightarrow> dd_status r = s | None \<Rightarrow> True)"

record dict_type_vo =
  tv_id :: int
  tv_dict_name :: string
  tv_dict_type :: string
  tv_status :: dict_status
  tv_is_system :: bool
  tv_remark :: string
  tv_create_by :: string
  tv_create_time :: int
  tv_update_by :: string
  tv_update_time :: int

definition dict_type_vo_of :: "dict_type_row \<Rightarrow> dict_type_vo" where
  "dict_type_vo_of r =
     \<lparr>tv_id = dt_id r, tv_dict_name = dt_dict_name r, tv_dict_type = dt_dict_type r, tv_status = dt_status r,
      tv_is_system = dt_is_system r, tv_remark = dt_remark r, tv_create_by = dt_create_by r, tv_create_time = dt_create_time r,
      tv_update_by = dt_update_by r, tv_update_time = dt_update_time r\<rparr>"

record dict_data_vo =
  dv_id :: int
  dv_dict_type :: string
  dv_dict_label :: string
  dv_dict_value :: string
  dv_dict_sort :: int
  dv_css_class :: string
  dv_list_class :: string
  dv_is_default :: bool
  dv_status :: dict_status
  dv_is_system :: bool
  dv_remark :: string
  dv_create_by :: string
  dv_create_time :: int
  dv_update_by :: string
  dv_update_time :: int

definition dict_data_vo_of :: "dict_data_row \<Rightarrow> dict_data_vo" where
  "dict_data_vo_of r =
     \<lparr>dv_id = dd_id r, dv_dict_type = dd_dict_type r, dv_dict_label = dd_dict_label r, dv_dict_value = dd_dict_value r,
      dv_dict_sort = dd_dict_sort r, dv_css_class = dd_css_class r, dv_list_class = dd_list_class r,
      dv_is_default = dd_is_default r, dv_status = dd_status r, dv_is_system = dd_is_system r, dv_remark = dd_remark r,
      dv_create_by = dd_create_by r, dv_create_time = dd_create_time r, dv_update_by = dd_update_by r,
      dv_update_time = dd_update_time r\<rparr>"

record dict_data_simple_vo =
  sv_label :: string
  sv_value :: string
  sv_list_class :: string

definition simple_vo_of :: "dict_data_row \<Rightarrow> dict_data_simple_vo" where
  "simple_vo_of r = \<lparr>sv_label = dd_dict_label r, sv_value = dd_dict_value r, sv_list_class = dd_list_class r\<rparr>"

section \<open>Bundles\<close>

record dict_bundle_item =
  bi_dict_label :: string
  bi_dict_value :: string
  bi_dict_sort :: "int option"
  bi_css_class :: "string option"
  bi_list_class :: "string option"
  bi_is_default :: "bool option"
  bi_status :: "dict_status option"
  bi_remark :: "string option"

record dict_bundle =
  bu_dict_name :: string
  bu_dict_type :: string
  bu_status :: "dict_status option"
  bu_remark :: "string option"
  bu_items :: "dict_bundle_item list"

definition item_sort :: "dict_bundle_item \<Rightarrow> int" where [dict_defs]: "item_sort i = unwrap_or 0 (bi_dict_sort i)"
definition item_css_class :: "dict_bundle_item \<Rightarrow> string" where [dict_defs]: "item_css_class i = unwrap_or [] (bi_css_class i)"
definition item_list_class :: "dict_bundle_item \<Rightarrow> string" where [dict_defs]: "item_list_class i = unwrap_or [] (bi_list_class i)"
definition item_is_default :: "dict_bundle_item \<Rightarrow> bool" where [dict_defs]: "item_is_default i = unwrap_or False (bi_is_default i)"
definition item_status :: "dict_bundle_item \<Rightarrow> dict_status" where [dict_defs]: "item_status i = unwrap_or Enabled (bi_status i)"
definition item_remark :: "dict_bundle_item \<Rightarrow> string" where [dict_defs]: "item_remark i = unwrap_or [] (bi_remark i)"
definition bundle_status :: "dict_bundle \<Rightarrow> dict_status" where [dict_defs]: "bundle_status b = unwrap_or Enabled (bu_status b)"
definition bundle_remark :: "dict_bundle \<Rightarrow> string" where [dict_defs]: "bundle_remark b = unwrap_or [] (bu_remark b)"

definition dict_type_changed_fields :: "dict_type_row \<Rightarrow> dict_bundle \<Rightarrow> string list" where
  "dict_type_changed_fields existing spec =
     (if dt_dict_name existing \<noteq> bu_dict_name spec then [''dict_name''] else []) @
     (if dt_status existing \<noteq> bundle_status spec then [''status''] else []) @
     (if dt_remark existing \<noteq> bundle_remark spec then [''remark''] else [])"

definition dict_item_changed_fields :: "dict_data_row \<Rightarrow> dict_bundle_item \<Rightarrow> string list" where
  "dict_item_changed_fields existing spec =
     (if dd_dict_label existing \<noteq> bi_dict_label spec then [''dict_label''] else []) @
     (if dd_dict_sort existing \<noteq> item_sort spec then [''dict_sort''] else []) @
     (if dd_css_class existing \<noteq> item_css_class spec then [''css_class''] else []) @
     (if dd_list_class existing \<noteq> item_list_class spec then [''list_class''] else []) @
     (if dd_is_default existing \<noteq> item_is_default spec then [''is_default''] else []) @
     (if dd_status existing \<noteq> item_status spec then [''status''] else []) @
     (if dd_remark existing \<noteq> item_remark spec then [''remark''] else [])"

definition set_type_fields :: "dict_bundle \<Rightarrow> string \<Rightarrow> dict_type_row \<Rightarrow> dict_type_row" where
  [dict_defs]: "set_type_fields spec operator r =
     r\<lparr>dt_dict_name := bu_dict_name spec, dt_status := bundle_status spec, dt_remark := bundle_remark spec, dt_update_by := operator\<rparr>"

definition set_item_fields :: "dict_bundle_item \<Rightarrow> string \<Rightarrow> dict_data_row \<Rightarrow> dict_data_row" where
  [dict_defs]: "set_item_fields spec operator r =
     r\<lparr>dd_dict_label := bi_dict_label spec, dd_dict_sort := item_sort spec, dd_css_class := item_css_class spec,
       dd_list_class := item_list_class spec, dd_is_default := item_is_default spec, dd_status := item_status spec,
       dd_remark := item_remark spec, dd_update_by := operator\<rparr>"

definition row_of_bundle :: "dict_bundle \<Rightarrow> string \<Rightarrow> dict_type_row" where
  [dict_defs]: "row_of_bundle spec operator =
     \<lparr>dt_id = 0, dt_dict_name = bu_dict_name spec, dt_dict_type = bu_dict_type spec, dt_status = bundle_status spec,
      dt_is_system = False, dt_remark = bundle_remark spec, dt_create_by = operator, dt_create_time = 0,
      dt_update_by = operator, dt_update_time = 0\<rparr>"

definition row_of_item :: "string \<Rightarrow> dict_bundle_item \<Rightarrow> string \<Rightarrow> dict_data_row" where
  [dict_defs]: "row_of_item dict_type spec operator =
     \<lparr>dd_id = 0, dd_dict_type = dict_type, dd_dict_label = bi_dict_label spec, dd_dict_value = bi_dict_value spec,
      dd_dict_sort = item_sort spec, dd_css_class = item_css_class spec, dd_list_class = item_list_class spec,
      dd_is_default = item_is_default spec, dd_status = item_status spec, dd_is_system = False, dd_remark = item_remark spec,
      dd_create_by = operator, dd_create_time = 0, dd_update_by = operator, dd_update_time = 0\<rparr>"

text \<open>A row that agrees with the configuration has no changed fields, and an assignment makes it agree.\<close>

lemma type_fields_set [simp]: "dict_type_changed_fields (set_type_fields spec operator r) spec = []"
  "dict_type_changed_fields (row_of_bundle spec operator) spec = []"
  by (simp_all add: dict_type_changed_fields_def set_type_fields_def row_of_bundle_def)

lemma item_fields_set [simp]: "dict_item_changed_fields (set_item_fields spec operator r) spec = []"
  "dict_item_changed_fields (row_of_item t spec operator) spec = []"
  by (simp_all add: dict_item_changed_fields_def set_item_fields_def row_of_item_def)

lemma fields_stamps [simp]:
  "dict_type_changed_fields (r\<lparr>dt_update_time := t\<rparr>) spec = dict_type_changed_fields r spec"
  "dict_type_changed_fields (r\<lparr>dt_id := i, dt_create_time := t, dt_update_time := u\<rparr>) spec = dict_type_changed_fields r spec"
  "dict_item_changed_fields (d\<lparr>dd_update_time := t\<rparr>) item = dict_item_changed_fields d item"
  "dict_item_changed_fields (d\<lparr>dd_id := i, dd_create_time := t, dd_update_time := u\<rparr>) item = dict_item_changed_fields d item"
  by (simp_all add: dict_type_changed_fields_def dict_item_changed_fields_def)

end
