(* ===== verification/Dict_Service.thy ===== *)
theory Dict_Service
  imports Dict_Model
begin

text \<open>
  \<open>DictDomainService\<close> of \<^verbatim>\<open>crates/summer-domain/src/dict.rs\<close>: the two tables, checking, planning and applying a
  bundle, and the operations on single rows. The tables are lists in the data base's own order; a query
  ordered by \<open>dict_sort\<close> sorts stably. Only \<open>dict_type.dict_type\<close> has a unique index. A write the data base
  refuses is an internal error, and a transaction that fails changes nothing.
\<close>

record dict_world =
  dw_types :: "dict_type_row list"
  dw_data :: "dict_data_row list"
  dw_type_next :: int
  dw_data_next :: int

record dict_db =
  accepts_type :: "dict_type_row \<Rightarrow> bool"
  accepts_data :: "dict_data_row \<Rightarrow> bool"
  dict_now :: int

type_synonym 'a dict_op = "(dict_world, api_errors, 'a) sm"

section \<open>The data base layer\<close>

definition insert_type :: "dict_db \<Rightarrow> string \<Rightarrow> dict_type_row \<Rightarrow> dict_type_row dict_op" where
  "insert_type db what row w =
     (let r = row\<lparr>dt_id := dw_type_next w, dt_create_time := dict_now db, dt_update_time := dict_now db\<rparr>
      in if accepts_type db r \<and> dt_dict_type r \<notin> dt_dict_type ` set (dw_types w)
         then (Inr r, w\<lparr>dw_types := dw_types w @ [r], dw_type_next := dw_type_next w + 1\<rparr>)
         else (Inl (Internal (Text what)), w))"

definition insert_data :: "dict_db \<Rightarrow> string \<Rightarrow> dict_data_row \<Rightarrow> dict_data_row dict_op" where
  "insert_data db what row w =
     (let r = row\<lparr>dd_id := dw_data_next w, dd_create_time := dict_now db, dd_update_time := dict_now db\<rparr>
      in if accepts_data db r then (Inr r, w\<lparr>dw_data := dw_data w @ [r], dw_data_next := dw_data_next w + 1\<rparr>)
         else (Inl (Internal (Text what)), w))"

definition find_type_id :: "int \<Rightarrow> dict_world \<Rightarrow> dict_type_row option" where
  "find_type_id i w = find (\<lambda>r. dt_id r = i) (dw_types w)"

definition find_data_id :: "int \<Rightarrow> dict_world \<Rightarrow> dict_data_row option" where
  "find_data_id i w = find (\<lambda>r. dd_id r = i) (dw_data w)"

definition find_type :: "string \<Rightarrow> dict_world \<Rightarrow> dict_type_row option" where
  "find_type t w = find (\<lambda>r. dt_dict_type r = t) (dw_types w)"

text \<open>Updates by primary key write the changed columns; the layer reports an error when the row is gone.\<close>

definition update_type :: "dict_db \<Rightarrow> string \<Rightarrow> int \<Rightarrow> (dict_type_row \<Rightarrow> dict_type_row) \<Rightarrow> dict_type_row dict_op" where
  "update_type db what i f w =
     (let g = (\<lambda>r. (f r)\<lparr>dt_update_time := dict_now db\<rparr>)
      in case find_type_id i w of
           None \<Rightarrow> (Inl (Internal (Text what)), w)
         | Some r \<Rightarrow>
             if accepts_type db (g r) then (Inr (g r), w\<lparr>dw_types := map (\<lambda>x. if dt_id x = i then g x else x) (dw_types w)\<rparr>)
             else (Inl (Internal (Text what)), w))"

definition update_data :: "dict_db \<Rightarrow> string \<Rightarrow> int \<Rightarrow> (dict_data_row \<Rightarrow> dict_data_row) \<Rightarrow> dict_data_row dict_op" where
  "update_data db what i f w =
     (let g = (\<lambda>r. (f r)\<lparr>dd_update_time := dict_now db\<rparr>)
      in case find_data_id i w of
           None \<Rightarrow> (Inl (Internal (Text what)), w)
         | Some r \<Rightarrow>
             if accepts_data db (g r) then (Inr (g r), w\<lparr>dw_data := map (\<lambda>x. if dd_id x = i then g x else x) (dw_data w)\<rparr>)
             else (Inl (Internal (Text what)), w))"

section \<open>Checking a bundle\<close>

fun validate_items :: "dict_bundle_item list \<Rightarrow> string set \<Rightarrow> api_errors + unit" where
  "validate_items [] seen = Inr ()"
| "validate_items (i # is) seen =
     (if trim (bi_dict_label i) = [] then Inl (BadRequest (Text ''dict_label is empty''))
      else if trim (bi_dict_value i) = [] then Inl (BadRequest (Text ''dict_value is empty''))
      else if bi_dict_value i \<in> seen then Inl (BadRequest (Text (''duplicate dict_value: '' @ bi_dict_value i)))
      else validate_items is (insert (bi_dict_value i) seen))"

definition validate_dict_bundle_spec :: "dict_bundle \<Rightarrow> api_errors + unit" where
  "validate_dict_bundle_spec spec =
     (if trim (bu_dict_name spec) = [] then Inl (BadRequest (Text ''dict_name is empty''))
      else if trim (bu_dict_type spec) = [] then Inl (BadRequest (Text ''dict_type is empty''))
      else validate_items (bu_items spec) {})"

section \<open>Planning\<close>

text \<open>The rows of one dictionary, and the hash map of them by value: of rows with one value the last one stays.\<close>

definition items_of :: "string \<Rightarrow> dict_world \<Rightarrow> dict_data_row list" where
  "items_of t w = sort_key dd_dict_sort (filter (\<lambda>r. dd_dict_type r = t) (dw_data w))"

definition existing_by_value :: "dict_data_row list \<Rightarrow> string \<Rightarrow> dict_data_row option" where
  "existing_by_value items v = find (\<lambda>r. dd_dict_value r = v) (rev items)"

definition build_dict_type_change :: "dict_type_row option \<Rightarrow> dict_bundle \<Rightarrow> sync_change" where
  "build_dict_type_change existing spec =
     (let fs = (case existing of Some r \<Rightarrow> dict_type_changed_fields r spec | None \<Rightarrow> [''dict_name'', ''status'', ''remark''])
      in \<lparr>sc_target = ''dict_type'', sc_key = bu_dict_type spec, sc_action = change_action existing fs, sc_fields = fs\<rparr>)"

definition build_dict_item_change :: "dict_data_row option \<Rightarrow> string \<Rightarrow> dict_bundle_item \<Rightarrow> sync_change" where
  "build_dict_item_change existing dict_type spec =
     (let fs = (case existing of Some r \<Rightarrow> dict_item_changed_fields r spec
         | None \<Rightarrow> [''dict_label'', ''dict_sort'', ''css_class'', ''list_class'', ''is_default'', ''status'', ''remark''])
      in \<lparr>sc_target = ''dict_data'', sc_key = dict_type @ '':'' @ bi_dict_value spec, sc_action = change_action existing fs,
          sc_fields = fs\<rparr>)"

record bundle_result =
  br_dict_type :: string
  br_plan :: sync_plan

definition build_dict_bundle_plan :: "dict_type_row option \<Rightarrow> dict_data_row list \<Rightarrow> dict_bundle \<Rightarrow> api_errors + bundle_result" where
  "build_dict_bundle_plan existing_type existing_items spec =
     bind_r (validate_dict_bundle_spec spec)
       (\<lambda>_. Inr \<lparr>br_dict_type = bu_dict_type spec,
          br_plan = sync_plan_new (build_dict_type_change existing_type spec #
            map (\<lambda>i. build_dict_item_change (existing_by_value existing_items (bi_dict_value i)) (bu_dict_type spec) i)
              (bu_items spec))\<rparr>)"

definition plan_dict_bundle :: "dict_bundle \<Rightarrow> bundle_result dict_op" where
  "plan_dict_bundle spec w =
     (bind_r (validate_dict_bundle_spec spec)
       (\<lambda>_. build_dict_bundle_plan (find_type (bu_dict_type spec) w) (items_of (bu_dict_type spec) w) spec), w)"

section \<open>Applying\<close>

definition apply_dict_type_spec :: "dict_db \<Rightarrow> dict_type_row option \<Rightarrow> dict_bundle \<Rightarrow> string \<Rightarrow> unit dict_op" where
  "apply_dict_type_spec db existing spec operator =
     (case existing of
        Some r \<Rightarrow>
          if dict_type_changed_fields r spec = [] then ok_s ()
          else if dt_is_system r then lift_r (Inl (BadRequest (Text (''system dict type: '' @ bu_dict_type spec))))
          else bind_s (update_type db ''update dict type'' (dt_id r) (set_type_fields spec operator)) (\<lambda>_. ok_s ())
      | None \<Rightarrow> bind_s (insert_type db ''insert dict type'' (row_of_bundle spec operator)) (\<lambda>_. ok_s ()))"

definition apply_dict_item_spec ::
  "dict_db \<Rightarrow> dict_data_row option \<Rightarrow> string \<Rightarrow> dict_bundle_item \<Rightarrow> string \<Rightarrow> unit dict_op" where
  "apply_dict_item_spec db existing dict_type spec operator =
     (case existing of
        Some r \<Rightarrow>
          if dict_item_changed_fields r spec = [] then ok_s ()
          else if dd_is_system r
          then lift_r (Inl (BadRequest (Text (''system dict data: '' @ dict_type @ '':'' @ bi_dict_value spec))))
          else bind_s (update_data db ''update dict data'' (dd_id r) (set_item_fields spec operator)) (\<lambda>_. ok_s ())
      | None \<Rightarrow> bind_s (insert_data db ''insert dict data'' (row_of_item dict_type spec operator)) (\<lambda>_. ok_s ()))"

fun apply_items :: "dict_db \<Rightarrow> dict_data_row list \<Rightarrow> string \<Rightarrow> dict_bundle_item list \<Rightarrow> string \<Rightarrow> unit dict_op" where
  "apply_items db existing dict_type [] operator = ok_s ()"
| "apply_items db existing dict_type (i # is) operator =
     bind_s (apply_dict_item_spec db (existing_by_value existing (bi_dict_value i)) dict_type i operator)
       (\<lambda>_. apply_items db existing dict_type is operator)"

definition apply_dict_bundle :: "dict_db \<Rightarrow> dict_bundle \<Rightarrow> string \<Rightarrow> bundle_result dict_op" where
  "apply_dict_bundle db spec operator =
     bind_s (lift_r (validate_dict_bundle_spec spec))
       (\<lambda>_. transaction (\<lambda>w.
          let existing_type = find_type (bu_dict_type spec) w; existing_items = items_of (bu_dict_type spec) w
          in bind_s (lift_r (build_dict_bundle_plan existing_type existing_items spec))
            (\<lambda>result. bind_s (apply_dict_type_spec db existing_type spec operator)
              (\<lambda>_. bind_s (apply_items db existing_items (bu_dict_type spec) (bu_items spec) operator) (\<lambda>_. ok_s result))) w))"

section \<open>Single rows\<close>

definition create_dict_type :: "dict_db \<Rightarrow> create_dict_type_dto \<Rightarrow> string \<Rightarrow> dict_type_vo dict_op" where
  "create_dict_type db d operator w =
     (if find_type (ct_dict_type d) w \<noteq> None then (Inl (Conflict (Text (''dict type exists: '' @ ct_dict_type d))), w)
      else bind_s (insert_type db ''insert dict type'' (row_of_create_type d operator)) (\<lambda>r. ok_s (dict_type_vo_of r)) w)"

definition update_dict_type :: "dict_db \<Rightarrow> int \<Rightarrow> update_dict_type_dto \<Rightarrow> string \<Rightarrow> dict_type_vo dict_op" where
  "update_dict_type db i d operator w =
     (case find_type_id i w of
        None \<Rightarrow> (Inl (NotFound (Text ''dict type does not exist'')), w)
      | Some r \<Rightarrow>
          if dt_is_system r then (Inl (BadRequest (Text ''system dict type'')), w)
          else bind_s (update_type db ''update dict type'' i (update_type_apply d operator)) (\<lambda>r. ok_s (dict_type_vo_of r)) w)"

definition delete_dict_type :: "int \<Rightarrow> int dict_op" where
  "delete_dict_type i w =
     (case find_type_id i w of
        None \<Rightarrow> (Inl (NotFound (Text ''dict type does not exist'')), w)
      | Some r \<Rightarrow>
          if dt_is_system r then (Inl (BadRequest (Text ''system dict type'')), w)
          else if length (filter (\<lambda>x. dd_dict_type x = dt_dict_type r) (dw_data w)) > 0
          then (Inl (BadRequest (Text ''dict type has data'')), w)
          else (Inr i, w\<lparr>dw_types := filter (\<lambda>x. dt_id x \<noteq> i) (dw_types w)\<rparr>))"

definition create_dict_data :: "dict_db \<Rightarrow> create_dict_data_dto \<Rightarrow> string \<Rightarrow> dict_data_vo dict_op" where
  "create_dict_data db d operator w =
     (if find_type (cd_dict_type d) w = None then (Inl (BadRequest (Text (''no dict type: '' @ cd_dict_type d))), w)
      else if find (\<lambda>r. dd_dict_type r = cd_dict_type d \<and> dd_dict_value r = cd_dict_value d) (dw_data w) \<noteq> None
      then (Inl (Conflict (Text (''dict value exists: '' @ cd_dict_value d))), w)
      else bind_s (insert_data db ''insert dict data'' (row_of_create_data d operator)) (\<lambda>r. ok_s (dict_data_vo_of r)) w)"

definition update_dict_data :: "dict_db \<Rightarrow> int \<Rightarrow> update_dict_data_dto \<Rightarrow> string \<Rightarrow> dict_data_vo dict_op" where
  "update_dict_data db i d operator w =
     (case find_data_id i w of
        None \<Rightarrow> (Inl (NotFound (Text ''dict data does not exist'')), w)
      | Some r \<Rightarrow>
          if dd_is_system r then (Inl (BadRequest (Text ''system dict data'')), w)
          else bind_s (update_data db ''update dict data'' i (update_data_apply d operator)) (\<lambda>r. ok_s (dict_data_vo_of r)) w)"

definition delete_dict_data :: "int \<Rightarrow> int dict_op" where
  "delete_dict_data i w =
     (case find_data_id i w of
        None \<Rightarrow> (Inl (NotFound (Text ''dict data does not exist'')), w)
      | Some r \<Rightarrow>
          if dd_is_system r then (Inl (BadRequest (Text ''system dict data'')), w)
          else (Inr i, w\<lparr>dw_data := filter (\<lambda>x. dd_id x \<noteq> i) (dw_data w)\<rparr>))"

section \<open>Queries\<close>

definition list_dict_types :: "(string \<Rightarrow> string \<Rightarrow> bool) \<Rightarrow> dict_type_query \<Rightarrow> dict_world \<Rightarrow> dict_type_vo list" where
  "list_dict_types contains q w = map dict_type_vo_of (sort_key dt_id (filter (type_query_matches contains q) (dw_types w)))"

definition list_dict_data :: "(string \<Rightarrow> string \<Rightarrow> bool) \<Rightarrow> dict_data_query \<Rightarrow> dict_world \<Rightarrow> dict_data_vo list" where
  "list_dict_data contains q w = map dict_data_vo_of (sort_key dd_dict_sort (filter (data_query_matches contains q) (dw_data w)))"

definition get_dict_data_by_type :: "string \<Rightarrow> dict_world \<Rightarrow> dict_data_simple_vo list" where
  "get_dict_data_by_type t w =
     map simple_vo_of (sort_key dd_dict_sort (filter (\<lambda>r. dd_status r = Enabled) (filter (\<lambda>r. dd_dict_type r = t) (dw_data w))))"

text \<open>The loop that groups the enabled rows: each row is pushed to the list of its type.\<close>

definition push_item :: "dict_data_row \<Rightarrow> (string \<rightharpoonup> dict_data_simple_vo list) \<Rightarrow> (string \<rightharpoonup> dict_data_simple_vo list)" where
  "push_item r m = m(dd_dict_type r \<mapsto> unwrap_or [] (m (dd_dict_type r)) @ [simple_vo_of r])"

definition get_all_dict_data :: "dict_world \<Rightarrow> (string \<rightharpoonup> dict_data_simple_vo list)" where
  "get_all_dict_data w = fold push_item (sort_key dd_dict_sort (filter (\<lambda>r. dd_status r = Enabled) (dw_data w))) Map.empty"

end
