(* ===== verification/Dict_Laws.thy ===== *)
theory Dict_Laws
  imports Dict_Service
begin

text \<open>
  What the calls of the dictionary service do to its tables: each is a sequence of six kinds of writes, as a
  step relation, and the invariants of the tables follow by rule induction over the writes.
\<close>

section \<open>Writes\<close>

inductive dict_write :: "dict_world \<Rightarrow> dict_world \<Rightarrow> bool" where
  add_type: "dt_id r = dw_type_next w \<Longrightarrow> dt_dict_type r \<notin> dt_dict_type ` set (dw_types w) \<Longrightarrow> \<not> dt_is_system r \<Longrightarrow>
    dict_write w (w\<lparr>dw_types := dw_types w @ [r], dw_type_next := dw_type_next w + 1\<rparr>)"
| set_type: "r \<in> set (dw_types w) \<Longrightarrow> dt_id r = i \<Longrightarrow> \<not> dt_is_system r \<Longrightarrow>
    (\<And>x. dt_id (g x) = dt_id x \<and> dt_dict_type (g x) = dt_dict_type x \<and> dt_is_system (g x) = dt_is_system x) \<Longrightarrow>
    dict_write w (w\<lparr>dw_types := map (\<lambda>x. if dt_id x = i then g x else x) (dw_types w)\<rparr>)"
| drop_type: "r \<in> set (dw_types w) \<Longrightarrow> dt_id r = i \<Longrightarrow> \<not> dt_is_system r \<Longrightarrow> dt_dict_type r \<notin> dd_dict_type ` set (dw_data w) \<Longrightarrow>
    dict_write w (w\<lparr>dw_types := filter (\<lambda>x. dt_id x \<noteq> i) (dw_types w)\<rparr>)"
| add_data: "dd_id r = dw_data_next w \<Longrightarrow> dd_dict_type r \<in> dt_dict_type ` set (dw_types w) \<Longrightarrow> \<not> dd_is_system r \<Longrightarrow>
    dict_write w (w\<lparr>dw_data := dw_data w @ [r], dw_data_next := dw_data_next w + 1\<rparr>)"
| set_data: "r \<in> set (dw_data w) \<Longrightarrow> dd_id r = i \<Longrightarrow> \<not> dd_is_system r \<Longrightarrow>
    (\<And>x. dd_id (g x) = dd_id x \<and> dd_dict_type (g x) = dd_dict_type x \<and> dd_is_system (g x) = dd_is_system x) \<Longrightarrow>
    dict_write w (w\<lparr>dw_data := map (\<lambda>x. if dd_id x = i then g x else x) (dw_data w)\<rparr>)"
| drop_data: "r \<in> set (dw_data w) \<Longrightarrow> dd_id r = i \<Longrightarrow> \<not> dd_is_system r \<Longrightarrow>
    dict_write w (w\<lparr>dw_data := filter (\<lambda>x. dd_id x \<noteq> i) (dw_data w)\<rparr>)"

lemmas dict_writes = rtranclp.rtrancl_refl rtranclp.rtrancl_into_rtrancl r_into_rtranclp rtranclp_trans

section \<open>The data base layer\<close>

lemma map_if_key: "(\<And>x. k (g x) = k x) \<Longrightarrow> map k (map (\<lambda>x. if P x then g x else x) xs) = map k xs"
  by simp

lemma image_if_key: "(\<And>x. k (g x) = k x) \<Longrightarrow> k ` (\<lambda>x. if P x then g x else x) ` A = k ` A"
  unfolding image_image by (rule image_cong) auto

lemma find_Some: "find P xs = Some x \<Longrightarrow> x \<in> set xs \<and> P x"
  by (auto simp: find_Some_iff)

lemma find_type_None: "find_type t w = None \<longleftrightarrow> t \<notin> dt_dict_type ` set (dw_types w)"
  by (auto simp: find_type_def find_None_iff)

lemma find_type_Some: "find_type t w = Some r \<Longrightarrow> r \<in> set (dw_types w) \<and> dt_dict_type r = t"
  unfolding find_type_def using find_Some by fastforce

lemma find_ids: "find_type_id i w = Some r \<Longrightarrow> r \<in> set (dw_types w) \<and> dt_id r = i"
  "find_data_id i w = Some d \<Longrightarrow> d \<in> set (dw_data w) \<and> dd_id d = i"
  unfolding find_type_id_def find_data_id_def using find_Some by fastforce+

lemma insert_type_write: "w' = snd (insert_type db what row w) \<Longrightarrow> \<not> dt_is_system row \<Longrightarrow> w' = w \<or> dict_write w w'"
  by (auto simp: insert_type_def Let_def split: if_splits intro: add_type)

lemma insert_data_write:
  "w' = snd (insert_data db what row w) \<Longrightarrow> \<not> dd_is_system row \<Longrightarrow> dd_dict_type row \<in> dt_dict_type ` set (dw_types w) \<Longrightarrow>
    w' = w \<or> dict_write w w'"
  by (auto simp: insert_data_def Let_def split: if_splits intro: add_data)

text \<open>The assignments of the code write neither the identity, nor the dictionary, nor the system flag.\<close>

definition keeps_type_key :: "(dict_type_row \<Rightarrow> dict_type_row) \<Rightarrow> bool" where
  "keeps_type_key f \<longleftrightarrow> (\<forall>x. dt_id (f x) = dt_id x \<and> dt_dict_type (f x) = dt_dict_type x \<and> dt_is_system (f x) = dt_is_system x)"

definition keeps_data_key :: "(dict_data_row \<Rightarrow> dict_data_row) \<Rightarrow> bool" where
  "keeps_data_key f \<longleftrightarrow> (\<forall>x. dd_id (f x) = dd_id x \<and> dd_dict_type (f x) = dd_dict_type x \<and> dd_is_system (f x) = dd_is_system x)"

lemma keeps_keys [simp]: "keeps_type_key (set_type_fields spec operator)" "keeps_type_key (update_type_apply d operator)"
  "keeps_data_key (set_item_fields i operator)" "keeps_data_key (update_data_apply e operator)"
  by (simp_all add: keeps_type_key_def keeps_data_key_def dict_defs)

lemma update_type_write:
  assumes "w' = snd (update_type db what i f w)" "keeps_type_key f" "r \<in> set (dw_types w)" "dt_id r = i" "\<not> dt_is_system r"
  shows "w' = w \<or> dict_write w w'"
  using assms set_type [OF assms(3-5), of "\<lambda>r. (f r)\<lparr>dt_update_time := dict_now db\<rparr>"]
  by (auto simp: update_type_def Let_def keeps_type_key_def split: option.splits if_splits)

lemma update_data_write:
  assumes "w' = snd (update_data db what i f w)" "keeps_data_key f" "r \<in> set (dw_data w)" "dd_id r = i" "\<not> dd_is_system r"
  shows "w' = w \<or> dict_write w w'"
  using assms set_data [OF assms(3-5), of "\<lambda>r. (f r)\<lparr>dd_update_time := dict_now db\<rparr>"]
  by (auto simp: update_data_def Let_def keeps_data_key_def split: option.splits if_splits)

section \<open>Calls on single rows\<close>

lemma bind_ok_world: "snd (bind_s m (\<lambda>r. ok_s (f r)) w) = snd (m w)"
  by (auto simp: bind_s_def result_simps split: prod.splits sum.splits)

lemma create_type_write: "w' = snd (create_dict_type db d operator w) \<Longrightarrow> w' = w \<or> dict_write w w'"
  using insert_type_write [OF refl, where row = "row_of_create_type d operator"]
  by (auto simp: create_dict_type_def bind_ok_world row_of_create_type_def)

lemma update_type_call_write:
  assumes "w' = snd (update_dict_type db i d operator w)"
  shows "w' = w \<or> dict_write w w'"
proof (cases "find_type_id i w")
  case (Some r)
  show ?thesis
  proof (cases "dt_is_system r")
    case False
    then show ?thesis using assms Some update_type_write [OF refl keeps_keys(2) conjunct1 [OF find_ids(1) [OF Some]] conjunct2 [OF find_ids(1) [OF Some]]]
      by (simp add: update_dict_type_def bind_ok_world)
  qed (use assms Some in \<open>simp add: update_dict_type_def\<close>)
qed (use assms in \<open>simp add: update_dict_type_def\<close>)

lemma delete_type_write: "w' = snd (delete_dict_type i w) \<Longrightarrow> w' = w \<or> dict_write w w'"
  by (auto simp: delete_dict_type_def filter_empty_conv dest!: find_ids intro!: drop_type split: option.splits if_splits)

lemma create_data_write: "w' = snd (create_dict_data db d operator w) \<Longrightarrow> w' = w \<or> dict_write w w'"
  using insert_data_write [OF refl, where row = "row_of_create_data d operator"]
  by (auto simp: create_dict_data_def bind_ok_world row_of_create_data_def find_type_None)

lemma update_data_call_write:
  assumes "w' = snd (update_dict_data db i d operator w)"
  shows "w' = w \<or> dict_write w w'"
proof (cases "find_data_id i w")
  case (Some r)
  show ?thesis
  proof (cases "dd_is_system r")
    case False
    then show ?thesis using assms Some update_data_write [OF refl keeps_keys(4) conjunct1 [OF find_ids(2) [OF Some]] conjunct2 [OF find_ids(2) [OF Some]]]
      by (simp add: update_dict_data_def bind_ok_world)
  qed (use assms Some in \<open>simp add: update_dict_data_def\<close>)
qed (use assms in \<open>simp add: update_dict_data_def\<close>)

lemma delete_data_write: "w' = snd (delete_dict_data i w) \<Longrightarrow> w' = w \<or> dict_write w w'"
  by (auto simp: delete_dict_data_def dest!: find_ids intro!: drop_data split: option.splits if_splits)

section \<open>Applying a bundle\<close>

text \<open>The rows read before the writes still have their keys and flags in the table while the bundle is applied.\<close>

definition tracks :: "dict_data_row list \<Rightarrow> dict_world \<Rightarrow> bool" where
  "tracks E w \<longleftrightarrow> (\<forall>r \<in> set E. \<exists>x \<in> set (dw_data w). dd_id x = dd_id r \<and> dd_is_system x = dd_is_system r)"

lemma tracks_add: "tracks E w \<Longrightarrow> tracks E (w\<lparr>dw_data := dw_data w @ [r], dw_data_next := n\<rparr>)"
  by (fastforce simp: tracks_def)

lemma tracks_set:
  assumes "tracks E w" "\<And>x. dd_id (g x) = dd_id x \<and> dd_is_system (g x) = dd_is_system x"
  shows "tracks E (w\<lparr>dw_data := map (\<lambda>x. if dd_id x = i then g x else x) (dw_data w)\<rparr>)"
  unfolding tracks_def
proof
  fix r assume "r \<in> set E"
  then obtain x where "x \<in> set (dw_data w)" "dd_id x = dd_id r" "dd_is_system x = dd_is_system r"
    using assms(1) by (auto simp: tracks_def)
  then show "\<exists>x \<in> set (dw_data (w\<lparr>dw_data := map (\<lambda>x. if dd_id x = i then g x else x) (dw_data w)\<rparr>)).
      dd_id x = dd_id r \<and> dd_is_system x = dd_is_system r"
    using assms(2) [of x] by (intro bexI [of _ "if dd_id x = i then g x else x"]) auto
qed

lemma existing_by_value_Some: "existing_by_value E v = Some r \<Longrightarrow> r \<in> set E \<and> dd_dict_value r = v"
  unfolding existing_by_value_def using find_Some by fastforce

lemma insert_data_ok: "insert_data db what row w = (Inr r, w') \<Longrightarrow>
    r = row\<lparr>dd_id := dw_data_next w, dd_create_time := dict_now db, dd_update_time := dict_now db\<rparr> \<and>
    w' = w\<lparr>dw_data := dw_data w @ [r], dw_data_next := dw_data_next w + 1\<rparr>"
  by (auto simp: insert_data_def Let_def split: if_splits)

lemma update_data_ok: "update_data db what i f w = (Inr r, w') \<Longrightarrow>
    w' = w\<lparr>dw_data := map (\<lambda>x. if dd_id x = i then (f x)\<lparr>dd_update_time := dict_now db\<rparr> else x) (dw_data w)\<rparr>"
  by (auto simp: update_data_def Let_def split: option.splits if_splits)

lemma insert_type_ok: "insert_type db what row w = (Inr r, w') \<Longrightarrow>
    r = row\<lparr>dt_id := dw_type_next w, dt_create_time := dict_now db, dt_update_time := dict_now db\<rparr> \<and>
    w' = w\<lparr>dw_types := dw_types w @ [r], dw_type_next := dw_type_next w + 1\<rparr>"
  by (auto simp: insert_type_def Let_def split: if_splits)

lemma update_type_ok: "update_type db what i f w = (Inr r, w') \<Longrightarrow>
    w' = w\<lparr>dw_types := map (\<lambda>x. if dt_id x = i then (f x)\<lparr>dt_update_time := dict_now db\<rparr> else x) (dw_types w)\<rparr>"
  by (auto simp: update_type_def Let_def split: option.splits if_splits)

text \<open>One item that succeeds: nothing to change, an update of the known row, or a new row.\<close>

lemma apply_item_cases:
  assumes "apply_dict_item_spec db e t i operator w = (Inr u, w')"
  obtains (same) r where "e = Some r" "dict_item_changed_fields r i = []" "w' = w"
  | (updated) r where "e = Some r" "\<not> dd_is_system r"
      "w' = w\<lparr>dw_data := map (\<lambda>x. if dd_id x = dd_id r then (set_item_fields i operator x)\<lparr>dd_update_time := dict_now db\<rparr> else x)
                            (dw_data w)\<rparr>"
      "w' = snd (update_data db ''update dict data'' (dd_id r) (set_item_fields i operator) w)"
  | (added) r where "e = None" "w' = w\<lparr>dw_data := dw_data w @ [r], dw_data_next := dw_data_next w + 1\<rparr>"
      "r = (row_of_item t i operator)\<lparr>dd_id := dw_data_next w, dd_create_time := dict_now db, dd_update_time := dict_now db\<rparr>"
      "w' = snd (insert_data db ''insert dict data'' (row_of_item t i operator) w)"
proof (cases e)
  case None
  then obtain r where r: "insert_data db ''insert dict data'' (row_of_item t i operator) w = (Inr r, w')"
    using assms by (auto simp: apply_dict_item_spec_def bind_s_iff result_simps)
  show ?thesis using added [OF None _ _ ] insert_data_ok [OF r] r by simp
next
  case (Some r)
  show ?thesis
  proof (cases "dict_item_changed_fields r i = []")
    case True
    then show ?thesis using assms Some same [OF Some] by (simp add: apply_dict_item_spec_def result_simps)
  next
    case False
    then have ns: "\<not> dd_is_system r" using assms Some by (auto simp: apply_dict_item_spec_def result_simps)
    obtain x where x: "update_data db ''update dict data'' (dd_id r) (set_item_fields i operator) w = (Inr x, w')"
      using assms Some False ns by (auto simp: apply_dict_item_spec_def bind_s_iff result_simps)
    show ?thesis using updated [OF Some ns] update_data_ok [OF x] x by simp
  qed
qed

lemma apply_item_write:
  assumes "apply_dict_item_spec db (existing_by_value E v) t i operator w = (Inr u, w')" "tracks E w" "t \<in> dt_dict_type ` set (dw_types w)"
  shows "(w' = w \<or> dict_write w w') \<and> tracks E w' \<and> dw_types w' = dw_types w"
  using assms(1)
proof (cases rule: apply_item_cases)
  case (updated r)
  obtain x where "x \<in> set (dw_data w)" "dd_id x = dd_id r" "\<not> dd_is_system x"
    using assms(2) existing_by_value_Some [OF updated(1)] updated(2) by (auto simp: tracks_def)
  then have "w' = w \<or> dict_write w w'" using update_data_write [OF updated(4) keeps_keys(3)] by blast
  moreover have "tracks E w'" unfolding updated(3) by (rule tracks_set [OF assms(2)]) (simp add: set_item_fields_def)
  ultimately show ?thesis using updated(3) by simp
next
  case (added r)
  have "w' = w \<or> dict_write w w'" using insert_data_write [OF added(4)] assms(3) by (simp add: row_of_item_def)
  moreover have "tracks E w'" unfolding added(2) by (rule tracks_add [OF assms(2)])
  ultimately show ?thesis using added(2) by simp
qed (use assms in simp)

lemma apply_items_write:
  assumes "apply_items db E t is operator w = (Inr u, w')" "tracks E w" "t \<in> dt_dict_type ` set (dw_types w)"
  shows "dict_write\<^sup>*\<^sup>* w w'"
  using assms
proof (induction "is" arbitrary: w)
  case (Cons i "is")
  obtain x w1 where w1: "apply_dict_item_spec db (existing_by_value E (bi_dict_value i)) t i operator w = (Inr x, w1)"
    "apply_items db E t is operator w1 = (Inr u, w')"
    using Cons(2) by (auto simp: bind_s_iff)
  have "w1 = w \<or> dict_write w w1" "tracks E w1" "dw_types w1 = dw_types w"
    using apply_item_write [OF w1(1) Cons(3,4)] by auto
  then show ?case using Cons(1) [OF w1(2)] Cons(4) by (auto intro: dict_writes converse_rtranclp_into_rtranclp)
qed (simp add: result_simps)

lemma apply_type_cases:
  assumes "apply_dict_type_spec db e spec operator w = (Inr u, w')"
  obtains (same) r where "e = Some r" "dict_type_changed_fields r spec = []" "w' = w"
  | (updated) r where "e = Some r" "\<not> dt_is_system r"
      "w' = w\<lparr>dw_types := map (\<lambda>x. if dt_id x = dt_id r then (set_type_fields spec operator x)\<lparr>dt_update_time := dict_now db\<rparr> else x)
                            (dw_types w)\<rparr>"
      "w' = snd (update_type db ''update dict type'' (dt_id r) (set_type_fields spec operator) w)"
  | (added) r where "e = None" "w' = w\<lparr>dw_types := dw_types w @ [r], dw_type_next := dw_type_next w + 1\<rparr>"
      "r = (row_of_bundle spec operator)\<lparr>dt_id := dw_type_next w, dt_create_time := dict_now db, dt_update_time := dict_now db\<rparr>"
      "w' = snd (insert_type db ''insert dict type'' (row_of_bundle spec operator) w)"
proof (cases e)
  case None
  then obtain r where r: "insert_type db ''insert dict type'' (row_of_bundle spec operator) w = (Inr r, w')"
    using assms by (auto simp: apply_dict_type_spec_def bind_s_iff result_simps)
  show ?thesis using added [OF None] insert_type_ok [OF r] r by simp
next
  case (Some r)
  show ?thesis
  proof (cases "dict_type_changed_fields r spec = []")
    case True
    then show ?thesis using assms Some same [OF Some] by (simp add: apply_dict_type_spec_def result_simps)
  next
    case False
    then have ns: "\<not> dt_is_system r" using assms Some by (auto simp: apply_dict_type_spec_def result_simps)
    obtain x where x: "update_type db ''update dict type'' (dt_id r) (set_type_fields spec operator) w = (Inr x, w')"
      using assms Some False ns by (auto simp: apply_dict_type_spec_def bind_s_iff result_simps)
    show ?thesis using updated [OF Some ns] update_type_ok [OF x] x by simp
  qed
qed

lemma apply_type_write:
  assumes "apply_dict_type_spec db (find_type (bu_dict_type spec) w) spec operator w = (Inr u, w')"
  shows "(w' = w \<or> dict_write w w') \<and> dw_data w' = dw_data w \<and> bu_dict_type spec \<in> dt_dict_type ` set (dw_types w')"
  using assms
proof (cases rule: apply_type_cases)
  case (same r)
  then show ?thesis using find_type_Some [OF same(1)] by (auto intro: rev_image_eqI)
next
  case (updated r)
  have r: "r \<in> set (dw_types w)" "dt_dict_type r = bu_dict_type spec" using find_type_Some [OF updated(1)] by auto
  have "w' = w \<or> dict_write w w'" using update_type_write [OF updated(4) keeps_keys(1) r(1) refl updated(2)] .
  moreover have "dt_dict_type ` set (dw_types w') = dt_dict_type ` set (dw_types w)"
    unfolding updated(3) set_type_fields_def by (simp del: if_image_distrib image_image, rule image_if_key) simp
  moreover have "bu_dict_type spec \<in> dt_dict_type ` set (dw_types w)" using r by (auto intro: rev_image_eqI)
  moreover have "dw_data w' = dw_data w" by (simp add: updated(3))
  ultimately show ?thesis by simp
next
  case (added r)
  have "w' = w \<or> dict_write w w'" using insert_type_write [OF added(4)] by (simp add: row_of_bundle_def)
  then show ?thesis using added(2,3) by (simp add: row_of_bundle_def)
qed

lemma items_of_set: "set (items_of t w) = {r \<in> set (dw_data w). dd_dict_type r = t}"
  by (simp add: items_of_def)

lemma apply_bundle_run:
  assumes "apply_dict_bundle db spec operator w = (Inr p, w')"
  obtains w1 where "validate_dict_bundle_spec spec = Inr ()"
    "build_dict_bundle_plan (find_type (bu_dict_type spec) w) (items_of (bu_dict_type spec) w) spec = Inr p"
    "apply_dict_type_spec db (find_type (bu_dict_type spec) w) spec operator w = (Inr (), w1)"
    "apply_items db (items_of (bu_dict_type spec) w) (bu_dict_type spec) (bu_items spec) operator w1 = (Inr (), w')"
  using assms unfolding apply_dict_bundle_def bind_s_iff transaction_Inr Let_def
  by (auto simp: result_simps bind_s_iff)

lemma apply_bundle_error: "apply_dict_bundle db spec operator w = (Inl e, w') \<Longrightarrow> w' = w"
  unfolding apply_dict_bundle_def bind_s_def [of "lift_r _"]
  by (auto simp: result_simps dest: transaction_Inl split: prod.splits sum.splits if_splits)

lemma apply_bundle_write: "dict_write\<^sup>*\<^sup>* w (snd (apply_dict_bundle db spec operator w))"
proof (cases "apply_dict_bundle db spec operator w")
  case (Pair res w')
  show ?thesis
  proof (cases res)
    case (Inl e)
    then show ?thesis using Pair apply_bundle_error by fastforce
  next
    case (Inr p)
    obtain w1 where w1: "apply_dict_type_spec db (find_type (bu_dict_type spec) w) spec operator w = (Inr (), w1)"
      "apply_items db (items_of (bu_dict_type spec) w) (bu_dict_type spec) (bu_items spec) operator w1 = (Inr (), w')"
      using apply_bundle_run [OF Pair [unfolded Inr]] by blast
    note t = apply_type_write [OF w1(1)]
    have "tracks (items_of (bu_dict_type spec) w) w1" using t by (auto simp: tracks_def items_of_set)
    then have "dict_write\<^sup>*\<^sup>* w1 w'" using apply_items_write [OF w1(2)] t by blast
    then show ?thesis using t Pair by (auto intro: converse_rtranclp_into_rtranclp)
  qed
qed

section \<open>Calls\<close>

datatype dict_call =
  DApply dict_bundle string
| DCreateType create_dict_type_dto string
| DUpdateType int update_dict_type_dto string
| DDeleteType int
| DCreateData create_dict_data_dto string
| DUpdateData int update_dict_data_dto string
| DDeleteData int

fun dict_step :: "dict_db \<Rightarrow> dict_call \<Rightarrow> dict_world \<Rightarrow> dict_world" where
  "dict_step db (DApply spec operator) w = snd (apply_dict_bundle db spec operator w)"
| "dict_step db (DCreateType d operator) w = snd (create_dict_type db d operator w)"
| "dict_step db (DUpdateType i d operator) w = snd (update_dict_type db i d operator w)"
| "dict_step db (DDeleteType i) w = snd (delete_dict_type i w)"
| "dict_step db (DCreateData d operator) w = snd (create_dict_data db d operator w)"
| "dict_step db (DUpdateData i d operator) w = snd (update_dict_data db i d operator w)"
| "dict_step db (DDeleteData i) w = snd (delete_dict_data i w)"

definition dict_run :: "dict_db \<Rightarrow> dict_call list \<Rightarrow> dict_world \<Rightarrow> dict_world" where
  "dict_run db calls w = fold (dict_step db) calls w"

lemma dict_step_writes: "dict_write\<^sup>*\<^sup>* w (dict_step db c w)"
proof (cases c)
  case (DApply spec operator)
  then show ?thesis by (simp add: apply_bundle_write)
next
  case (DCreateType d operator)
  then show ?thesis using create_type_write [OF refl, where w = w and db = db and d = d and operator = operator] by (auto intro: dict_writes)
next
  case (DUpdateType i d operator)
  then show ?thesis using update_type_call_write [OF refl, where w = w and db = db and d = d and operator = operator and i = i] by (auto intro: dict_writes)
next
  case (DDeleteType i)
  then show ?thesis using delete_type_write [OF refl, where w = w and i = i] by (auto intro: dict_writes)
next
  case (DCreateData d operator)
  then show ?thesis using create_data_write [OF refl, where w = w and db = db and d = d and operator = operator] by (auto intro: dict_writes)
next
  case (DUpdateData i d operator)
  then show ?thesis using update_data_call_write [OF refl, where w = w and db = db and d = d and operator = operator and i = i] by (auto intro: dict_writes)
next
  case (DDeleteData i)
  then show ?thesis using delete_data_write [OF refl, where w = w and i = i] by (auto intro: dict_writes)
qed

lemma dict_run_writes: "dict_write\<^sup>*\<^sup>* w (dict_run db calls w)"
  unfolding dict_run_def by (induction calls arbitrary: w) (auto intro: rtranclp_trans [OF dict_step_writes])

section \<open>Invariants\<close>

definition dict_ok :: "dict_world \<Rightarrow> bool" where
  "dict_ok w \<longleftrightarrow>
     distinct (map dt_id (dw_types w)) \<and> (\<forall>r \<in> set (dw_types w). dt_id r < dw_type_next w) \<and>
     distinct (map dt_dict_type (dw_types w)) \<and>
     distinct (map dd_id (dw_data w)) \<and> (\<forall>r \<in> set (dw_data w). dd_id r < dw_data_next w) \<and>
     dd_dict_type ` set (dw_data w) \<subseteq> dt_dict_type ` set (dw_types w)"

definition system_types :: "dict_world \<Rightarrow> dict_type_row list" where
  "system_types w = filter dt_is_system (dw_types w)"

definition system_data :: "dict_world \<Rightarrow> dict_data_row list" where
  "system_data w = filter dd_is_system (dw_data w)"

lemma distinct_key_eq: "distinct (map k xs) \<Longrightarrow> x \<in> set xs \<Longrightarrow> y \<in> set xs \<Longrightarrow> k x = k y \<Longrightarrow> x = y"
  by (auto simp: distinct_map dest: inj_onD)

lemma dict_write_ok: "dict_write w w' \<Longrightarrow> dict_ok w \<Longrightarrow> dict_ok w'"
proof (induction rule: dict_write.induct)
  case (add_type r w)
  have less: "\<forall>x \<in> set (dw_types w). dt_id x < dw_type_next w" using add_type by (simp add: dict_ok_def)
  then have "dt_id r \<notin> dt_id ` set (dw_types w)" using add_type(1) by fastforce
  moreover have "\<forall>x \<in> set (dw_types w @ [r]). dt_id x < dw_type_next w + 1" using less add_type(1) by fastforce
  ultimately show ?case using add_type by (auto simp: dict_ok_def)
next
  case (set_type r w i g)
  let ?h = "\<lambda>x. if dt_id x = i then g x else x"
  have keys: "map dt_id (map ?h (dw_types w)) = map dt_id (dw_types w)" "map dt_dict_type (map ?h (dw_types w)) = map dt_dict_type (dw_types w)"
    "dt_dict_type ` set (map ?h (dw_types w)) = dt_dict_type ` set (dw_types w)" "dt_id ` set (map ?h (dw_types w)) = dt_id ` set (dw_types w)"
    using set_type(4) by (simp_all only: map_if_key image_if_key set_map)
  have "\<forall>x \<in> set (map ?h (dw_types w)). dt_id x < dw_type_next w"
    using set_type(4,5) by (auto simp: dict_ok_def)
  then show ?case using set_type(5) keys by (simp add: dict_ok_def del: map_map set_map)
next
  case (drop_type r w i)
  have only: "x = r" if "x \<in> set (dw_types w)" "dt_id x = i" for x
    using distinct_key_eq [of dt_id "dw_types w" x r] that drop_type by (auto simp: dict_ok_def)
  have "dd_dict_type d \<in> dt_dict_type ` set (filter (\<lambda>x. dt_id x \<noteq> i) (dw_types w))" if "d \<in> set (dw_data w)" for d
  proof -
    have "dd_dict_type d \<in> dt_dict_type ` set (dw_types w)" using that drop_type(5) unfolding dict_ok_def by blast
    then obtain x where x: "x \<in> set (dw_types w)" "dt_dict_type x = dd_dict_type d" by (metis imageE)
    have "dt_dict_type r \<noteq> dd_dict_type d" using drop_type(4) that by auto
    then have "dt_id x \<noteq> i" using only [of x] x by auto
    then show ?thesis using x by (auto intro: rev_image_eqI)
  qed
  then have "dd_dict_type ` set (dw_data w) \<subseteq> dt_dict_type ` set (filter (\<lambda>x. dt_id x \<noteq> i) (dw_types w))" by blast
  then show ?case using drop_type(5) by (simp add: dict_ok_def distinct_map_filter)
next
  case (add_data r w)
  have less: "\<forall>x \<in> set (dw_data w). dd_id x < dw_data_next w" using add_data by (simp add: dict_ok_def)
  then have "dd_id r \<notin> dd_id ` set (dw_data w)" using add_data(1) by fastforce
  moreover have "\<forall>x \<in> set (dw_data w @ [r]). dd_id x < dw_data_next w + 1" using less add_data(1) by fastforce
  ultimately show ?case using add_data by (auto simp: dict_ok_def)
next
  case (set_data r w i g)
  let ?h = "\<lambda>x. if dd_id x = i then g x else x"
  have keys: "map dd_id (map ?h (dw_data w)) = map dd_id (dw_data w)" "map dd_dict_type (map ?h (dw_data w)) = map dd_dict_type (dw_data w)"
    "dd_dict_type ` set (map ?h (dw_data w)) = dd_dict_type ` set (dw_data w)" "dd_id ` set (map ?h (dw_data w)) = dd_id ` set (dw_data w)"
    using set_data(4) by (simp_all only: map_if_key image_if_key set_map)
  have "\<forall>x \<in> set (map ?h (dw_data w)). dd_id x < dw_data_next w"
    using set_data(4,5) by (auto simp: dict_ok_def)
  then show ?case using set_data(5) keys by (simp add: dict_ok_def del: map_map set_map)
next
  case (drop_data r w i)
  then show ?case unfolding dict_ok_def by (auto simp: distinct_map_filter)
qed

end
