(* ===== verification/Dict_Properties.thy ===== *)
theory Dict_Properties
  imports Dict_Laws
begin

text \<open>
  The properties of the dictionary service: invariants of every run of calls, convergence and accounting of
  bundles, the two reading paths, and what an update of a single row can break.
\<close>

section \<open>System rows\<close>

lemma filter_map_if:
  "(\<And>x. x \<in> set xs \<Longrightarrow> P x \<Longrightarrow> \<not> S x \<and> \<not> S (g x)) \<Longrightarrow> filter S (map (\<lambda>x. if P x then g x else x) xs) = filter S xs"
  by (induction xs) auto

lemma filter_filter_if: "(\<And>x. x \<in> set xs \<Longrightarrow> \<not> P x \<Longrightarrow> \<not> S x) \<Longrightarrow> filter S (filter P xs) = filter S xs"
  by (induction xs) auto

lemma dict_write_system: "dict_write w w' \<Longrightarrow> dict_ok w \<Longrightarrow> system_types w' = system_types w \<and> system_data w' = system_data w"
proof (induction rule: dict_write.induct)
  case (set_type r w i g)
  have "x = r" if "x \<in> set (dw_types w)" "dt_id x = i" for x
    using distinct_key_eq [of dt_id "dw_types w" x r] that set_type by (auto simp: dict_ok_def)
  then show ?case using set_type(3,4) by (auto simp: system_types_def system_data_def intro!: filter_map_if)
next
  case (drop_type r w i)
  have "x = r" if "x \<in> set (dw_types w)" "dt_id x = i" for x
    using distinct_key_eq [of dt_id "dw_types w" x r] that drop_type by (auto simp: dict_ok_def)
  then show ?case using drop_type(3) by (auto simp: system_types_def system_data_def simp del: filter_filter intro!: filter_filter_if)
next
  case (set_data r w i g)
  have "x = r" if "x \<in> set (dw_data w)" "dd_id x = i" for x
    using distinct_key_eq [of dd_id "dw_data w" x r] that set_data by (auto simp: dict_ok_def)
  then show ?case using set_data(3,4) by (auto simp: system_types_def system_data_def intro!: filter_map_if)
next
  case (drop_data r w i)
  have "x = r" if "x \<in> set (dw_data w)" "dd_id x = i" for x
    using distinct_key_eq [of dd_id "dw_data w" x r] that drop_data by (auto simp: dict_ok_def)
  then show ?case using drop_data(3) by (auto simp: system_types_def system_data_def simp del: filter_filter intro!: filter_filter_if)
qed (auto simp: system_types_def system_data_def)

lemma dict_writes_keep:
  "dict_write\<^sup>*\<^sup>* w w' \<Longrightarrow> dict_ok w \<Longrightarrow> dict_ok w' \<and> system_types w' = system_types w \<and> system_data w' = system_data w"
  by (induction rule: rtranclp_induct) (auto simp: dict_write_system intro: dict_write_ok)

section \<open>Convergence\<close>

text \<open>The row of a value; with unique values it is the only row of the dictionary with that value.\<close>

definition values_unique :: "dict_world \<Rightarrow> bool" where
  "values_unique w \<longleftrightarrow> distinct (map (\<lambda>r. (dd_dict_type r, dd_dict_value r)) (dw_data w))"

definition row_at :: "string \<Rightarrow> dict_world \<Rightarrow> string \<Rightarrow> dict_data_row option" where
  "row_at t w v = existing_by_value (items_of t w) v"

definition data_keyed :: "dict_world \<Rightarrow> bool" where
  "data_keyed w \<longleftrightarrow> values_unique w \<and> distinct (map dd_id (dw_data w)) \<and> (\<forall>r \<in> set (dw_data w). dd_id r < dw_data_next w)"

lemma row_at_None: "row_at t w v = None \<longleftrightarrow> (\<forall>r \<in> set (dw_data w). dd_dict_type r = t \<longrightarrow> dd_dict_value r \<noteq> v)"
  by (auto simp: row_at_def existing_by_value_def find_None_iff items_of_set)

lemma row_at_Some:
  assumes "values_unique w"
  shows "row_at t w v = Some r \<longleftrightarrow> r \<in> set (dw_data w) \<and> dd_dict_type r = t \<and> dd_dict_value r = v"
proof
  assume "row_at t w v = Some r"
  then show "r \<in> set (dw_data w) \<and> dd_dict_type r = t \<and> dd_dict_value r = v"
    using existing_by_value_Some [of "items_of t w" v r] by (auto simp: row_at_def items_of_set)
next
  assume r: "r \<in> set (dw_data w) \<and> dd_dict_type r = t \<and> dd_dict_value r = v"
  then obtain r' where r': "row_at t w v = Some r'" using row_at_None [of t w v] by (cases "row_at t w v") auto
  then have "r' \<in> set (dw_data w) \<and> dd_dict_type r' = t \<and> dd_dict_value r' = v"
    using existing_by_value_Some [of "items_of t w" v r'] by (auto simp: row_at_def items_of_set)
  then have "r' = r" using r assms distinct_key_eq [of "\<lambda>r. (dd_dict_type r, dd_dict_value r)" "dw_data w" r' r]
    by (simp add: values_unique_def)
  then show "row_at t w v = Some r" using r' by simp
qed

lemma data_keyed_add:
  assumes "data_keyed w" "dd_id r = dw_data_next w" "row_at (dd_dict_type r) w (dd_dict_value r) = None"
  shows "data_keyed (w\<lparr>dw_data := dw_data w @ [r], dw_data_next := dw_data_next w + 1\<rparr>)"
proof -
  have "\<forall>x \<in> set (dw_data w). dd_id x < dd_id r" using assms(1,2) by (simp add: data_keyed_def)
  then have "dd_id r \<notin> dd_id ` set (dw_data w)" "\<forall>x \<in> set (dw_data w @ [r]). dd_id x < dw_data_next w + 1"
    using assms(2) by fastforce+
  then show ?thesis using assms(1,3) by (auto simp: data_keyed_def values_unique_def row_at_None)
qed

lemma data_keyed_set:
  assumes "data_keyed w" "\<And>x. dd_id (g x) = dd_id x" "\<And>x. dd_dict_type (g x) = dd_dict_type x" "\<And>x. dd_dict_value (g x) = dd_dict_value x"
  shows "data_keyed (w\<lparr>dw_data := map (\<lambda>x. if P x then g x else x) (dw_data w)\<rparr>)"
proof -
  let ?h = "\<lambda>x. if P x then g x else x"
  have keys: "map dd_id (map ?h (dw_data w)) = map dd_id (dw_data w)"
    "map (\<lambda>r. (dd_dict_type r, dd_dict_value r)) (map ?h (dw_data w)) = map (\<lambda>r. (dd_dict_type r, dd_dict_value r)) (dw_data w)"
    using assms(2-4) by (simp_all only: map_if_key)
  have "\<forall>x \<in> set (map ?h (dw_data w)). dd_id x < dw_data_next w" using assms(1,2) by (auto simp: data_keyed_def)
  then show ?thesis using assms(1) keys by (simp add: data_keyed_def values_unique_def del: map_map set_map)
qed

lemma set_map_one:
  assumes "r \<in> set xs" "\<And>x. x \<in> set xs \<Longrightarrow> P x \<longleftrightarrow> x = r"
  shows "set (map (\<lambda>x. if P x then g x else x) xs) = insert (g r) (set xs - {r})"
  using assms by auto

lemma option_ext: "(\<And>x. a = Some x \<longleftrightarrow> b = Some x) \<Longrightarrow> a = b"
  by (cases a) (metis not_None_eq)+

lemma apply_item_row:
  assumes ok: "data_keyed w" and run: "apply_dict_item_spec db (row_at t w (bi_dict_value i)) t i operator w = (Inr u, w')"
  shows "\<exists>r. row_at t w' = (row_at t w)(bi_dict_value i \<mapsto> r) \<and> dict_item_changed_fields r i = [] \<and> data_keyed w'"
  using run
proof (cases rule: apply_item_cases)
  case (same r)
  then show ?thesis using ok by (auto intro!: exI [of _ r])
next
  case (updated r)
  let ?v = "bi_dict_value i"
  let ?g = "\<lambda>x. (set_item_fields i operator x)\<lparr>dd_update_time := dict_now db\<rparr>"
  have u: "values_unique w" "distinct (map dd_id (dw_data w))" using ok by (simp_all add: data_keyed_def)
  have r: "r \<in> set (dw_data w)" "dd_dict_type r = t" "dd_dict_value r = ?v" using updated(1) row_at_Some [OF u(1)] by auto
  have g: "dd_id (?g x) = dd_id x" "dd_dict_type (?g x) = dd_dict_type x" "dd_dict_value (?g x) = dd_dict_value x" for x
    by (simp_all add: set_item_fields_def)
  have keyed: "data_keyed w'" unfolding updated(3) by (rule data_keyed_set [OF ok g])
  have only: "x = r" if "x \<in> set (dw_data w)" "dd_id x = dd_id r" for x
    using distinct_key_eq [OF u(2) that(1) r(1) that(2)] .
  have "set (dw_data w') = insert (?g r) (set (dw_data w) - {r})"
    using set_map_one [OF r(1), of "\<lambda>x. dd_id x = dd_id r" ?g] only updated(3) by (auto simp del: set_map)
  then obtain s where s: "set (dw_data w') = insert s (set (dw_data w) - {r})" "dd_dict_type s = t" "dd_dict_value s = ?v"
    and clean: "dict_item_changed_fields s i = []" using g r by (metis fields_stamps(3) item_fields_set(1))
  have u': "values_unique w'" using keyed by (simp add: data_keyed_def)
  have "row_at t w' v = ((row_at t w)(?v \<mapsto> s)) v" for v
  proof (cases "v = ?v")
    case True
    then show ?thesis using row_at_Some [OF u', of t v s] s by simp
  next
    case False
    have "row_at t w' v = row_at t w v" using False
      by (intro option_ext) (unfold row_at_Some [OF u'] row_at_Some [OF u(1)] s(1), use s(3) r(3) in auto)
    then show ?thesis using False by simp
  qed
  then show ?thesis using keyed clean by (intro exI [of _ s]) auto
next
  case (added r)
  have r: "dd_id r = dw_data_next w" "dd_dict_type r = t" "dd_dict_value r = bi_dict_value i" "dict_item_changed_fields r i = []"
    using added(3) by (simp_all add: row_of_item_def dict_item_changed_fields_def)
  have keyed: "data_keyed w'" unfolding added(2) using data_keyed_add [OF ok] added(1) r by simp
  then have u: "values_unique w" "values_unique w'" using ok by (simp_all add: data_keyed_def)
  have mem: "x \<in> set (dw_data w') \<longleftrightarrow> x = r \<or> x \<in> set (dw_data w)" for x using added(2) by auto
  have "row_at t w' v = ((row_at t w)(bi_dict_value i \<mapsto> r)) v" for v
  proof (cases "v = bi_dict_value i")
    case True
    then show ?thesis using row_at_Some [OF u(2), of t v r] mem r by simp
  next
    case False
    have "row_at t w' v = row_at t w v" using False
      by (intro option_ext) (unfold row_at_Some [OF u(2)] row_at_Some [OF u(1)] mem, use r in auto)
    then show ?thesis using False by simp
  qed
  then show ?thesis using keyed r by (intro exI [of _ r]) auto
qed

lemma apply_items_rows:
  assumes "apply_items db E t is operator w = (Inr u, w')" "data_keyed w" "distinct (map bi_dict_value is)"
    "\<forall>i \<in> set is. existing_by_value E (bi_dict_value i) = row_at t w (bi_dict_value i)"
  shows "(\<forall>i \<in> set is. \<exists>r. row_at t w' (bi_dict_value i) = Some r \<and> dict_item_changed_fields r i = []) \<and>
    (\<forall>v. v \<notin> bi_dict_value ` set is \<longrightarrow> row_at t w' v = row_at t w v) \<and> dw_types w' = dw_types w"
  using assms
proof (induction "is" arbitrary: w)
  case (Cons i "is")
  obtain x w1 where w1: "apply_dict_item_spec db (row_at t w (bi_dict_value i)) t i operator w = (Inr x, w1)"
    and rest: "apply_items db E t is operator w1 = (Inr u, w')"
    using Cons(2,5) by (auto simp: bind_s_iff)
  obtain r where r: "row_at t w1 = (row_at t w)(bi_dict_value i \<mapsto> r)" "dict_item_changed_fields r i = []" "data_keyed w1"
    using apply_item_row [OF Cons(3) w1] by blast
  have "\<forall>j \<in> set is. existing_by_value E (bi_dict_value j) = row_at t w1 (bi_dict_value j)"
    using Cons(4,5) r(1) by (auto simp: image_iff)
  note ih = Cons(1) [OF rest r(3) _ this]
  have "dw_types w1 = dw_types w" using w1 by (cases rule: apply_item_cases) auto
  moreover have "row_at t w' (bi_dict_value i) = Some r" using ih Cons(4) r(1) by simp
  ultimately show ?case using ih Cons(4) r by auto
qed (simp add: result_simps)

lemma validate_items_distinct:
  "validate_items is seen = Inr () \<Longrightarrow> distinct (map bi_dict_value is) \<and> bi_dict_value ` set is \<inter> seen = {}"
  by (induction "is" seen rule: validate_items.induct) (auto split: if_splits)

lemma validate_bundle_distinct: "validate_dict_bundle_spec spec = Inr () \<Longrightarrow> distinct (map bi_dict_value (bu_items spec))"
  using validate_items_distinct by (fastforce simp: validate_dict_bundle_spec_def split: if_splits)

lemma find_type_unique:
  assumes "dict_ok w" "r \<in> set (dw_types w)" "dt_dict_type r = t"
  shows "find_type t w = Some r"
proof (cases "find_type t w")
  case None
  then show ?thesis using assms by (auto simp: find_type_None)
next
  case (Some x)
  then show ?thesis using assms find_type_Some [OF Some] distinct_key_eq [of dt_dict_type "dw_types w" x r] by (simp add: dict_ok_def)
qed

lemma apply_type_row:
  assumes run: "apply_dict_type_spec db (find_type (bu_dict_type spec) w) spec operator w = (Inr u, w')" and ok: "dict_ok w"
  shows "\<exists>r. find_type (bu_dict_type spec) w' = Some r \<and> dict_type_changed_fields r spec = []"
proof -
  have ok': "dict_ok w'" using apply_type_write [OF run] ok dict_write_ok by blast
  from run show ?thesis
  proof (cases rule: apply_type_cases)
    case (same r)
    then show ?thesis by simp
  next
    case (updated r)
    let ?s = "(set_type_fields spec operator r)\<lparr>dt_update_time := dict_now db\<rparr>"
    have r: "r \<in> set (dw_types w)" "dt_dict_type r = bu_dict_type spec" using find_type_Some [OF updated(1)] by auto
    have "?s \<in> set (dw_types w')" unfolding updated(3) using r(1) by (auto intro!: image_eqI [of _ _ r])
    then have "find_type (bu_dict_type spec) w' = Some ?s"
      using r(2) by (intro find_type_unique [OF ok']) (simp_all add: set_type_fields_def)
    then show ?thesis by simp
  next
    case (added r)
    have "find_type (bu_dict_type spec) w' = Some r"
      using added(2,3) by (intro find_type_unique [OF ok']) (simp_all add: row_of_bundle_def)
    then show ?thesis using added(3) by (simp add: dict_type_changed_fields_def row_of_bundle_def)
  qed
qed

text \<open>A bundle whose rows all agree already: the plan is without work, and applying it writes nothing.\<close>

lemma apply_items_noop:
  assumes "\<forall>i \<in> set is. \<exists>r. existing_by_value E (bi_dict_value i) = Some r \<and> dict_item_changed_fields r i = []"
  shows "apply_items db E t is operator w = (Inr (), w)"
  using assms
proof (induction "is")
  case (Cons i "is")
  then obtain r where "existing_by_value E (bi_dict_value i) = Some r" "dict_item_changed_fields r i = []" by auto
  then have "apply_dict_item_spec db (existing_by_value E (bi_dict_value i)) t i operator w = (Inr (), w)"
    by (simp add: apply_dict_item_spec_def result_simps)
  then show ?case using Cons by (simp add: bind_s_def)
qed (simp add: result_simps)

lemma settled_bundle:
  assumes v: "validate_dict_bundle_spec spec = Inr ()"
    and t: "find_type (bu_dict_type spec) w = Some r" "dict_type_changed_fields r spec = []"
    and items: "\<forall>i \<in> set (bu_items spec). \<exists>r. row_at (bu_dict_type spec) w (bi_dict_value i) = Some r \<and> dict_item_changed_fields r i = []"
  shows "\<exists>p. plan_dict_bundle spec w = (Inr p, w) \<and> (\<forall>c \<in> set (sp_changes (br_plan p)). sc_action c = SyncNoop) \<and>
    apply_dict_bundle db spec operator w = (Inr p, w)"
proof -
  obtain p where p: "build_dict_bundle_plan (find_type (bu_dict_type spec) w) (items_of (bu_dict_type spec) w) spec = Inr p"
    and changes: "sp_changes (br_plan p) = build_dict_type_change (find_type (bu_dict_type spec) w) spec #
      map (\<lambda>i. build_dict_item_change (row_at (bu_dict_type spec) w (bi_dict_value i)) (bu_dict_type spec) i) (bu_items spec)"
    using v by (simp add: build_dict_bundle_plan_def row_at_def)
  have "sc_action c = SyncNoop" if "c \<in> set (sp_changes (br_plan p))" for c
    using that t items by (auto simp: changes build_dict_type_change_def build_dict_item_change_def change_action_def)
  moreover have "plan_dict_bundle spec w = (Inr p, w)" using v p by (simp add: plan_dict_bundle_def)
  moreover have "apply_items db (items_of (bu_dict_type spec) w) (bu_dict_type spec) (bu_items spec) operator w = (Inr (), w)"
    using items by (intro apply_items_noop) (simp add: row_at_def)
  then have "apply_dict_bundle db spec operator w = (Inr p, w)"
    using v p t by (simp add: apply_dict_bundle_def bind_s_def result_simps transaction_def Let_def apply_dict_type_spec_def)
  ultimately show ?thesis by blast
qed

lemma dict_ok_keyed: "dict_ok w \<Longrightarrow> values_unique w \<Longrightarrow> data_keyed w"
  by (simp add: dict_ok_def data_keyed_def)

text \<open>
  C30. Applying a dictionary bundle converges: when it succeeds, planning the same bundle finds nothing to do, and
  applying it again, by any operator, succeeds with that plan and leaves the tables as they are. The value of a
  dictionary item must be unique in its dictionary.
\<close>

theorem dict_bundle_converges:
  assumes "apply_dict_bundle db spec operator w = (Inr p, w')" "dict_ok w" "values_unique w"
  shows "\<exists>q. plan_dict_bundle spec w' = (Inr q, w') \<and> (\<forall>c \<in> set (sp_changes (br_plan q)). sc_action c = SyncNoop) \<and>
    apply_dict_bundle db' spec operator' w' = (Inr q, w')"
proof -
  let ?t = "bu_dict_type spec"
  obtain w1 where v: "validate_dict_bundle_spec spec = Inr ()"
    and a: "apply_dict_type_spec db (find_type ?t w) spec operator w = (Inr (), w1)"
      "apply_items db (items_of ?t w) ?t (bu_items spec) operator w1 = (Inr (), w')"
    using apply_bundle_run [OF assms(1)] by blast
  note t = apply_type_write [OF a(1)]
  have ok1: "dict_ok w1" using t assms(2) dict_write_ok by blast
  have u1: "values_unique w1" "row_at ?t w1 = row_at ?t w"
    using t assms(3) by (auto simp: values_unique_def row_at_def items_of_def fun_eq_iff)
  have "\<forall>i \<in> set (bu_items spec). existing_by_value (items_of ?t w) (bi_dict_value i) = row_at ?t w1 (bi_dict_value i)"
    using u1 by (simp add: row_at_def)
  note rows = apply_items_rows [OF a(2) dict_ok_keyed [OF ok1 u1(1)] validate_bundle_distinct [OF v] this]
  obtain r where "find_type ?t w1 = Some r" "dict_type_changed_fields r spec = []" using apply_type_row [OF a(1) assms(2)] by blast
  then have "find_type ?t w' = Some r" "dict_type_changed_fields r spec = []" using rows by (simp_all add: find_type_def)
  from settled_bundle [OF v this] rows show ?thesis by blast
qed

text \<open>
  C31. Under every sequence of calls the dictionary tables keep their order: identities below the sequences and
  distinct, distinct dictionary codes, and every item in a dictionary that exists.
\<close>

theorem dict_tables_stay_ok:
  assumes "dict_ok w"
  shows "dict_ok (dict_run db calls w)"
  using dict_writes_keep [OF dict_run_writes assms] by blast

text \<open>
  C32. No sequence of calls, bundles included, adds, changes or removes a system row of either table.
\<close>

theorem dict_system_rows_kept:
  assumes "dict_ok w"
  shows "system_types (dict_run db calls w) = system_types w \<and> system_data (dict_run db calls w) = system_data w"
  using dict_writes_keep [OF dict_run_writes assms] by blast

section \<open>The report of a bundle\<close>

lemma apply_items_count:
  "apply_items db E t is operator w = (Inr u, w') \<Longrightarrow>
    length (dw_data w') = length (dw_data w) + length (filter (\<lambda>i. existing_by_value E (bi_dict_value i) = None) is) \<and> dw_types w' = dw_types w"
proof (induction "is" arbitrary: w)
  case (Cons i "is")
  obtain x w1 where w1: "apply_dict_item_spec db (existing_by_value E (bi_dict_value i)) t i operator w = (Inr x, w1)"
    and rest: "apply_items db E t is operator w1 = (Inr u, w')"
    using Cons(2) by (auto simp: bind_s_iff)
  from w1 have "length (dw_data w1) = length (dw_data w) + (if existing_by_value E (bi_dict_value i) = None then 1 else 0) \<and> dw_types w1 = dw_types w"
    by (cases rule: apply_item_cases) auto
  then show ?case using Cons(1) [OF rest] by simp
qed (simp add: result_simps)

lemma created_changes:
  "actions_of SyncCreate (map (\<lambda>i. build_dict_item_change (f i) t i) is) = length (filter (\<lambda>i. f i = None) is)"
  by (induction "is") (simp_all add: build_dict_item_change_def change_action_def Let_def)

text \<open>
  The report of an applied bundle is the plan of the tables before it, and the rows the two tables grow by
  are exactly the changes the report counts as created.
\<close>

theorem dict_bundle_report:
  assumes "apply_dict_bundle db spec operator w = (Inr p, w')"
  shows "plan_dict_bundle spec w = (Inr p, w) \<and>
    length (dw_types w') + length (dw_data w') = length (dw_types w) + length (dw_data w) + create_count (sp_summary (br_plan p))"
proof -
  let ?t = "bu_dict_type spec"
  obtain w1 where v: "validate_dict_bundle_spec spec = Inr ()"
    and plan: "build_dict_bundle_plan (find_type ?t w) (items_of ?t w) spec = Inr p"
    and a: "apply_dict_type_spec db (find_type ?t w) spec operator w = (Inr (), w1)"
      "apply_items db (items_of ?t w) ?t (bu_items spec) operator w1 = (Inr (), w')"
    using apply_bundle_run [OF assms] by blast
  from a(1) have "length (dw_types w1) = length (dw_types w) + (if find_type ?t w = None then 1 else 0) \<and> dw_data w1 = dw_data w"
    by (cases rule: apply_type_cases) auto
  moreover have "create_count (sp_summary (br_plan p)) = (if find_type ?t w = None then 1 else 0) +
      length (filter (\<lambda>i. existing_by_value (items_of ?t w) (bi_dict_value i) = None) (bu_items spec))"
    using v plan by (auto simp: build_dict_bundle_plan_def created_changes build_dict_type_change_def change_action_def Let_def)
  ultimately show ?thesis using apply_items_count [OF a(2)] v plan by (simp add: plan_dict_bundle_def)
qed

section \<open>Reading\<close>

lemma push_items_fold:
  "fold push_item rs m t = (if filter (\<lambda>r. dd_dict_type r = t) rs = [] then m t
     else Some (unwrap_or [] (m t) @ map simple_vo_of (filter (\<lambda>r. dd_dict_type r = t) rs)))"
  by (induction rs arbitrary: m) (auto simp: push_item_def unwrap_or_def split: option.splits)

text \<open>
  The map of all dictionaries, built in one pass over the enabled items, agrees with the query of each single
  dictionary: a dictionary without enabled items has no entry, every other one the items of its own query, in order.
\<close>

theorem all_dicts_agree:
  "get_all_dict_data w t = (if get_dict_data_by_type t w = [] then None else Some (get_dict_data_by_type t w))"
  unfolding get_all_dict_data_def get_dict_data_by_type_def push_items_fold
  by (simp add: filter_sort unwrap_or_def conj_commute)

section \<open>Updating a single item\<close>

text \<open>
  Updating an item does not look at the other items, unlike creating one: an item can be given the value another
  item of its dictionary already has, and the values of the dictionary are then no longer unique.
\<close>

theorem update_can_duplicate_value:
  assumes "dict_ok w" "r \<in> set (dw_data w)" "r' \<in> set (dw_data w)" "r \<noteq> r'" "dd_dict_type r = dd_dict_type r'"
    and "\<not> dd_is_system r" "\<And>x. accepts_data db x"
    and "ud_dict_value d = Some (dd_dict_value r')"
  shows "(\<exists>vo w'. update_dict_data db (dd_id r) d operator w = (Inr vo, w') \<and> \<not> values_unique w') \<and>
    (\<forall>c. cd_dict_type c = dd_dict_type r' \<and> cd_dict_value c = dd_dict_value r' \<longrightarrow>
       create_dict_data db c operator w = (Inl (Conflict (Text (''dict value exists: '' @ dd_dict_value r'))), w))"
proof
  let ?g = "\<lambda>x. (update_data_apply d operator x)\<lparr>dd_update_time := dict_now db\<rparr>"
  let ?h = "\<lambda>x. if dd_id x = dd_id r then ?g x else x"
  let ?w = "w\<lparr>dw_data := map ?h (dw_data w)\<rparr>"
  have ids: "distinct (map dd_id (dw_data w))" using assms(1) by (simp add: dict_ok_def)
  have other: "dd_id r' \<noteq> dd_id r" using distinct_key_eq [OF ids assms(3,2)] assms(4) by auto
  obtain x where x: "find_data_id (dd_id r) w = Some x"
    using assms(2) by (cases "find_data_id (dd_id r) w") (auto simp: find_data_id_def find_None_iff)
  have "x = r" using find_ids(2) [OF x] distinct_key_eq [OF ids _ assms(2)] by auto
  then have "update_dict_data db (dd_id r) d operator w = (Inr (dict_data_vo_of (?g r)), ?w)"
    using x assms(6,7) by (simp add: update_dict_data_def update_data_def bind_s_def result_simps)
  moreover have "\<not> values_unique ?w"
  proof
    assume u: "values_unique ?w"
    have m: "?g r \<in> set (dw_data ?w)" "r' \<in> set (dw_data ?w)"
      using assms(2,3) other by (auto intro: image_eqI [of _ _ r] image_eqI [of _ _ r'])
    have "?g r = r'" using u m assms(5,8) unfolding values_unique_def
      by (elim distinct_key_eq) (simp_all add: update_data_apply_def unwrap_or_def)
    then have "dd_id (?g r) = dd_id r'" by simp
    then show False using other by (simp add: update_data_apply_def)
  qed
  ultimately show "\<exists>vo w'. update_dict_data db (dd_id r) d operator w = (Inr vo, w') \<and> \<not> values_unique w'" by blast
next
  have t: "find_type (dd_dict_type r') w \<noteq> None" using assms(1,3) by (auto simp: find_type_None dict_ok_def)
  have "find (\<lambda>x. dd_dict_type x = dd_dict_type r' \<and> dd_dict_value x = dd_dict_value r') (dw_data w) \<noteq> None"
    using assms(3) by (auto simp: find_None_iff)
  then show "\<forall>c. cd_dict_type c = dd_dict_type r' \<and> cd_dict_value c = dd_dict_value r' \<longrightarrow>
       create_dict_data db c operator w = (Inl (Conflict (Text (''dict value exists: '' @ dd_dict_value r'))), w)"
    using t by (auto simp: create_dict_data_def)
qed

section \<open>Concrete tables\<close>

definition sample_db :: dict_db where
  "sample_db = \<lparr>accepts_type = (\<lambda>_. True), accepts_data = (\<lambda>_. True), dict_now = 7\<rparr>"

definition empty_dicts :: dict_world where
  "empty_dicts = \<lparr>dw_types = [], dw_data = [], dw_type_next = 1, dw_data_next = 1\<rparr>"

definition sample_item :: "string \<Rightarrow> string \<Rightarrow> int \<Rightarrow> dict_bundle_item" where
  "sample_item label v n = \<lparr>bi_dict_label = label, bi_dict_value = v, bi_dict_sort = Some n, bi_css_class = None, bi_list_class = None,
     bi_is_default = None, bi_status = None, bi_remark = None\<rparr>"

definition sample_bundle :: "dict_bundle_item list \<Rightarrow> dict_bundle" where
  "sample_bundle items = \<lparr>bu_dict_name = ''State'', bu_dict_type = ''state'', bu_status = None, bu_remark = None, bu_items = items\<rparr>"

definition set_value :: "string \<Rightarrow> update_dict_data_dto" where
  "set_value v = \<lparr>ud_dict_label = None, ud_dict_value = Some v, ud_dict_sort = None, ud_css_class = None, ud_list_class = None,
     ud_is_default = None, ud_status = None, ud_remark = None\<rparr>"

lemma dict_letters: "visible CHR ''S''" "visible CHR ''s''" "visible CHR ''e''" "visible CHR ''o''" "visible CHR ''O''" "visible CHR ''n''"
  "visible CHR ''f''"
  by code_simp+

lemma dict_trims [simp]: "trim ''State'' \<noteq> []" "trim ''state'' \<noteq> []" "trim ''on'' \<noteq> []" "trim ''off'' \<noteq> []"
  "trim ''On'' \<noteq> []" "trim ''Off'' \<noteq> []"
  by (simp_all add: trim_visible dict_letters)

definition sample_dict_row :: "int \<Rightarrow> string \<Rightarrow> string \<Rightarrow> int \<Rightarrow> dict_data_row" where
  "sample_dict_row i v label n = (row_of_item ''state'' (sample_item label v n) ''root'')\<lparr>dd_id := i\<rparr>"

definition sample_dicts :: dict_world where
  "sample_dicts = \<lparr>dw_types = [(row_of_bundle (sample_bundle []) ''root'')\<lparr>dt_id := 1, dt_is_system := True\<rparr>],
     dw_data = [sample_dict_row 1 ''on'' ''On'' 0, sample_dict_row 2 ''off'' ''Off'' 1], dw_type_next = 2, dw_data_next = 3\<rparr>"

lemmas dict_sample_defs = sample_db_def sample_item_def sample_bundle_def set_value_def sample_dict_row_def sample_dicts_def dict_defs unwrap_or_def

lemmas dict_eval = validate_dict_bundle_spec_def apply_dict_bundle_def bind_s_def result_simps transaction_def find_type_def
  items_of_def build_dict_bundle_plan_def apply_dict_type_spec_def apply_dict_item_spec_def existing_by_value_def
  dict_type_changed_fields_def dict_item_changed_fields_def update_data_def find_data_id_def insert_data_def Let_def

definition grown_bundle :: dict_bundle where
  "grown_bundle = sample_bundle [sample_item ''On'' ''on'' 2, sample_item ''On'' ''off'' 1, sample_item ''Off'' ''Off'' 3]"

lemma dict_sample_ok: "dict_ok sample_dicts" "values_unique sample_dicts"
  by (simp_all add: dict_ok_def values_unique_def dict_sample_defs)

lemma dict_sample_applies: "\<exists>p w'. apply_dict_bundle sample_db grown_bundle ''root'' sample_dicts = (Inr p, w')"
  by (simp add: grown_bundle_def dict_sample_defs dict_eval)

theorem dict_bundle_converges_witness:
  "\<exists>w' q. plan_dict_bundle grown_bundle w' = (Inr q, w') \<and> (\<forall>c \<in> set (sp_changes (br_plan q)). sc_action c = SyncNoop)"
proof -
  obtain p w' where "apply_dict_bundle sample_db grown_bundle ''root'' sample_dicts = (Inr p, w')" using dict_sample_applies by blast
  from dict_bundle_converges [OF this dict_sample_ok, of sample_db "''root''"] show ?thesis by blast
qed

theorem dict_tables_stay_ok_witness: "dict_ok (dict_run sample_db [DApply grown_bundle ''root'', DDeleteData 1] sample_dicts)"
  by (rule dict_tables_stay_ok [OF dict_sample_ok(1)])

theorem dict_system_rows_kept_witness:
  "length (system_types (dict_run sample_db [DDeleteData 1, DDeleteData 2, DDeleteType 1] sample_dicts)) = 1"
  using dict_system_rows_kept [OF dict_sample_ok(1), of sample_db "[DDeleteData 1, DDeleteData 2, DDeleteType 1]"]
  by (simp add: system_types_def sample_dicts_def)

theorem dict_bundle_report_witness: "\<exists>p w'. apply_dict_bundle sample_db grown_bundle ''root'' sample_dicts = (Inr p, w') \<and>
    plan_dict_bundle grown_bundle sample_dicts = (Inr p, sample_dicts)"
proof -
  obtain p w' where "apply_dict_bundle sample_db grown_bundle ''root'' sample_dicts = (Inr p, w')" using dict_sample_applies by blast
  then show ?thesis using dict_bundle_report [of sample_db grown_bundle "''root''" sample_dicts p w'] by blast
qed

theorem update_can_duplicate_value_witness:
  "\<exists>vo w'. update_dict_data sample_db 2 (set_value ''on'') ''root'' sample_dicts = (Inr vo, w') \<and> \<not> values_unique w'"
  using update_can_duplicate_value [OF dict_sample_ok(1), of "sample_dict_row 2 ''off'' ''Off'' 1" "sample_dict_row 1 ''on'' ''On'' 0" sample_db
      "set_value ''on''" "''root''"]
  by (simp add: dict_sample_defs)

text \<open>
  Why convergence needs unique values: after an update has given a second item the value of another one, applying
  a bundle succeeds and a plan of the same bundle still reports an update.
\<close>

theorem duplicate_value_diverges:
  "\<exists>v p q w1 w2. update_dict_data sample_db 2 (set_value ''on'') ''root'' sample_dicts = (Inr v, w1) \<and>
     apply_dict_bundle sample_db (sample_bundle [sample_item ''On'' ''on'' (-1)]) ''root'' w1 = (Inr p, w2) \<and>
     plan_dict_bundle (sample_bundle [sample_item ''On'' ''on'' (-1)]) w2 = (Inr q, w2) \<and>
     update_count (sp_summary (br_plan q)) = 1"
  by (simp add: dict_sample_defs dict_eval update_dict_data_def plan_dict_bundle_def build_dict_type_change_def
      build_dict_item_change_def change_action_def Let_def)

end
