(* ===== verification/File_Names.thy ===== *)
theory File_Names
  imports Requests Api_Error
begin

text \<open>
  Names of files and folders: \<^verbatim>\<open>crates/summer-common/src/file_util.rs\<close> (object keys, suffixes, the check of size and
  type) and the path handling of \<^verbatim>\<open>service/sys_file_upload_service.rs\<close>. The clock's formatting, the random UUIDs and
  \<open>str::to_lowercase\<close> are parameters.
\<close>

section \<open>Generated names\<close>

datatype naming_strategy = Uuid | TimestampUuid | DatePath | DatePathTimestamp

definition join_name :: "string \<Rightarrow> string \<Rightarrow> string" where
  "join_name uuid sfx = (if sfx = [] then uuid else uuid @ ''.'' @ sfx)"

text \<open>\<open>fmt\<close> formats the time of the call; the last strategy draws its own UUID.\<close>

fun generate_name :: "(string \<Rightarrow> string) \<Rightarrow> string \<Rightarrow> string \<Rightarrow> naming_strategy \<Rightarrow> string \<Rightarrow> string" where
  "generate_name fmt uuid uuid' Uuid sfx = join_name uuid sfx"
| "generate_name fmt uuid uuid' TimestampUuid sfx = fmt ''%Y%m%d%H%M%S'' @ ''_'' @ join_name uuid sfx"
| "generate_name fmt uuid uuid' DatePath sfx = fmt ''%Y/%m/%d'' @ ''/'' @ join_name uuid sfx"
| "generate_name fmt uuid uuid' DatePathTimestamp sfx =
     fmt ''%Y/%m/%d'' @ ''/'' @ fmt ''%H%M%S'' @ ''_'' @ join_name uuid' sfx"

definition generate_object_key :: "(string \<Rightarrow> string) \<Rightarrow> string \<Rightarrow> string \<Rightarrow> string" where
  "generate_object_key fmt uuid sfx = generate_name fmt uuid uuid DatePath sfx"

definition generate_file_name :: "string \<Rightarrow> string \<Rightarrow> string" where
  "generate_file_name uuid sfx = generate_name (\<lambda>_. []) uuid uuid Uuid sfx"

text \<open>The simple form of a UUID is its text without hyphens.\<close>

definition simple_uuid :: "string \<Rightarrow> string" where
  "simple_uuid uuid = filter (\<lambda>c. c \<noteq> CHR ''-'') uuid"

definition generate_file_no :: "(string \<Rightarrow> string) \<Rightarrow> string \<Rightarrow> string" where
  "generate_file_no fmt uuid = ''F'' @ fmt ''%Y%m%d%H%M%S'' @ ''_'' @ take 8 (simple_uuid uuid)"

section \<open>Suffixes\<close>

text \<open>
  \<open>Path::file_name\<close> on a path of slashes: the last component that is neither empty nor a dot, unless it is two
  dots; \<open>Path::extension\<close>: what follows its last dot, unless nothing precedes that dot.
\<close>

definition path_file_name :: "string \<Rightarrow> string option" where
  "path_file_name p =
     (let cs = filter (\<lambda>c. c \<noteq> [] \<and> c \<noteq> ''.'') (split_on CHR ''/'' p)
      in if cs = [] \<or> last cs = ''..'' then None else Some (last cs))"

definition path_extension :: "string \<Rightarrow> string option" where
  "path_extension p =
     (case path_file_name p of
        None \<Rightarrow> None
      | Some f \<Rightarrow> (case rsplit_once CHR ''.'' f of Some (front, rest) \<Rightarrow> if front = [] then None else Some rest | None \<Rightarrow> None))"

definition extract_suffix :: "(string \<Rightarrow> string) \<Rightarrow> string \<Rightarrow> string" where
  "extract_suffix lower file_name = unwrap_or [] (map_option lower (path_extension file_name))"

definition extract_file_name_from_path :: "string \<Rightarrow> string" where
  "extract_file_name_from_path path = last (split_on CHR ''/'' path)"

section \<open>The check of size and type\<close>

definition validate_file :: "int \<Rightarrow> string \<Rightarrow> int \<Rightarrow> string list \<Rightarrow> api_errors + unit" where
  "validate_file file_size sfx max_file_size allowed =
     (if file_size > wrap_i64 max_file_size then Inl (BadRequest (Text ''file too large''))
      else if allowed \<noteq> [] \<and> sfx \<noteq> [] \<and> \<not> list_ex (\<lambda>e. eq_ignore_ascii_case e sfx) allowed
      then Inl (BadRequest (Text (''file type not allowed: '' @ sfx)))
      else Inr ())"

definition resolve_mime :: "string option \<Rightarrow> string" where
  "resolve_mime content_type = unwrap_or ''application/octet-stream'' content_type"

definition infer_kind :: "string \<Rightarrow> string" where
  "infer_kind mime =
     (if prefix ''image/'' mime then ''IMAGE''
      else if prefix ''video/'' mime then ''VIDEO''
      else if prefix ''audio/'' mime then ''AUDIO''
      else if mime = ''application/pdf'' then ''DOCUMENT''
      else ''FILE'')"

section \<open>Client paths\<close>

abbreviation backslash :: char where "backslash \<equiv> CHR 0x5C"

definition replace_char :: "char \<Rightarrow> char \<Rightarrow> string \<Rightarrow> string" where
  "replace_char a b s = map (\<lambda>c. if c = a then b else c) s"

definition is_slash :: "char \<Rightarrow> bool" where
  "is_slash c \<longleftrightarrow> c = CHR ''/'' \<or> c = backslash"

text \<open>\<open>s.chars().take(n)\<close> on UTF-8: a character is a byte that does not continue one and those that do.\<close>

fun take_chars :: "nat \<Rightarrow> string \<Rightarrow> string" where
  "take_chars n [] = []"
| "take_chars n (c # cs) =
     (if (of_char c :: nat) div 64 = 2 then c # take_chars n cs
      else (case n of 0 \<Rightarrow> [] | Suc m \<Rightarrow> c # take_chars m cs))"

definition sanitize_folder_segment :: "string \<Rightarrow> api_errors + (string \<times> string)" where
  "sanitize_folder_segment seg =
     (let segment = trim seg
      in if segment = [] then Inl (BadRequest (Text ''empty folder name''))
         else if segment = ''.'' then Inl (BadRequest (Text ''folder name .''))
         else if segment = ''..'' then Inl (BadRequest (Text ''folder name ..''))
         else
           (let slug = take_chars 128 (trim (map (\<lambda>c. if is_slash c then CHR ''-'' else c) segment))
            in if slug = [] then Inl (BadRequest (Text ''empty slug'')) else Inr (take_chars 128 segment, slug)))"

definition extract_upload_basename :: "string \<Rightarrow> api_errors + string" where
  "extract_upload_basename file_name =
     (let name = trim (rev (takeWhile (\<lambda>c. \<not> is_slash c) (rev file_name)))
      in if name = [] then Inl (BadRequest (Text ''empty file name''))
         else if name = ''.'' \<or> name = ''..'' then Inl (BadRequest (Text ''illegal file name''))
         else Inr name)"

text \<open>A browser's fake path, \<open>C:\\fakepath\\name\<close>, is not a folder.\<close>

definition is_fakepath :: "string \<Rightarrow> bool" where
  "is_fakepath p \<longleftrightarrow>
     11 \<le> length p \<and> p ! 1 = CHR '':'' \<and> p ! 2 = CHR ''/'' \<and> is_ascii_alphabetic (p ! 0) \<and>
     prefix ''fakepath/'' (to_ascii_lowercase (drop 3 p))"

fun collect_dirs :: "string list \<Rightarrow> api_errors + string list" where
  "collect_dirs [] = Inr []"
| "collect_dirs (s # ss) =
     (let segment = trim s
      in if segment = [] \<or> segment = ''.'' then collect_dirs ss
         else if segment = ''..'' then Inl (BadRequest (Text ''no .. in a path''))
         else bind_r (collect_dirs ss) (\<lambda>ds. Inr (segment # ds)))"

definition parse_relative_dirs :: "string \<Rightarrow> api_errors + string list" where
  "parse_relative_dirs file_name =
     (let normalized = trim_matches CHR ''/'' (replace_char backslash CHR ''/'' file_name)
      in if is_fakepath normalized then Inr []
         else
           (let parts = filter (\<lambda>s. s \<noteq> []) (split_on CHR ''/'' normalized)
            in if length parts \<le> 1 then Inr [] else collect_dirs (butlast parts)))"

section \<open>What the names can contain\<close>

lemma trim_start_set: "set (trim_start s) \<subseteq> set s"
proof (induction s rule: trim_start.induct)
  case (1 s)
  show ?case
  proof (cases "find (\<lambda>w. prefix w s) ws_seqs")
    case (Some w)
    then show ?thesis using 1 [OF Some] set_drop_subset [of "length w" s] by (subst trim_start.simps) auto
  qed (simp add: trim_start.simps)
qed

lemma trim_end_set: "set (trim_end s) \<subseteq> set s"
proof (induction s rule: trim_end.induct)
  case (1 s)
  show ?case
  proof (cases "find (\<lambda>w. suffix w s) ws_seqs")
    case (Some w)
    then show ?thesis using 1 [OF Some] set_take_subset [of "length s - length w" s] by (subst trim_end.simps) auto
  qed (simp add: trim_end.simps)
qed

lemma trim_set: "set (trim s) \<subseteq> set s"
  using trim_start_set trim_end_set by (auto simp: trim_def)

lemma take_chars_set: "set (take_chars n s) \<subseteq> set s"
  by (induction n s rule: take_chars.induct) (auto split: nat.splits)

lemma split_on_subset: "q \<in> set (split_on c s) \<Longrightarrow> set q \<subseteq> set s"
proof (induction s arbitrary: q)
  case (Cons x xs)
  obtain p ps where p: "split_on c xs = p # ps" using split_on_ne by (cases "split_on c xs") auto
  have "set p \<subseteq> set xs" "\<And>r. r \<in> set ps \<Longrightarrow> set r \<subseteq> set xs" using Cons(1) p by simp_all
  then show ?case using Cons(2) p by (auto split: if_splits)
qed simp

definition plain_name :: "string \<Rightarrow> bool" where
  "plain_name s \<longleftrightarrow> s \<noteq> [] \<and> s \<noteq> ''.'' \<and> s \<noteq> ''..'' \<and> (\<forall>c \<in> set s. \<not> is_slash c)"

lemma collect_dirs_plain:
  "collect_dirs ss = Inr ds \<Longrightarrow> (\<And>s c. s \<in> set ss \<Longrightarrow> c \<in> set s \<Longrightarrow> \<not> is_slash c) \<Longrightarrow> d \<in> set ds \<Longrightarrow> plain_name d"
proof (induction ss arbitrary: ds)
  case (Cons s ss)
  show ?case
  proof (cases "trim s = [] \<or> trim s = ''.''")
    case True
    then show ?thesis using Cons by (auto simp: Let_def)
  next
    case False
    then obtain ds' where ds': "trim s \<noteq> ''..''" "collect_dirs ss = Inr ds'" "ds = trim s # ds'"
      using Cons.prems(1) by (auto simp: Let_def bind_r_Inr split: if_splits)
    have "plain_name (trim s)" using False ds'(1) Cons.prems(2) [of s] trim_set [of s] by (auto simp: plain_name_def)
    then show ?thesis using Cons ds' by auto
  qed
qed simp

lemma parse_dirs_plain: "parse_relative_dirs f = Inr ds \<Longrightarrow> d \<in> set ds \<Longrightarrow> plain_name d"
proof -
  assume a: "parse_relative_dirs f = Inr ds" "d \<in> set ds"
  let ?n = "trim_matches CHR ''/'' (replace_char backslash CHR ''/'' f)"
  let ?ps = "butlast (filter (\<lambda>s. s \<noteq> []) (split_on CHR ''/'' ?n))"
  have ds: "collect_dirs ?ps = Inr ds" using a by (auto simp: parse_relative_dirs_def Let_def split: if_splits)
  have n: "set ?n \<subseteq> set (replace_char backslash CHR ''/'' f)"
    by (auto simp: trim_matches_def dest!: set_dropWhileD)
  have "backslash \<notin> set ?n" using n by (auto simp: replace_char_def)
  then have "\<not> is_slash c" if "p \<in> set ?ps" "c \<in> set p" for p c
    using that split_on_pieces [of p "CHR ''/''" ?n] split_on_subset [of p "CHR ''/''" ?n] by (auto simp: is_slash_def dest!: in_set_butlastD)
  then show ?thesis using collect_dirs_plain [OF ds _ a(2)] by blast
qed

lemma basename_plain: "extract_upload_basename f = Inr n \<Longrightarrow> plain_name n"
proof -
  assume a: "extract_upload_basename f = Inr n"
  let ?b = "rev (takeWhile (\<lambda>c. \<not> is_slash c) (rev f))"
  have n: "n = trim ?b" "n \<noteq> []" "n \<noteq> ''.''" "n \<noteq> ''..''" using a by (auto simp: extract_upload_basename_def Let_def split: if_splits)
  have "\<not> is_slash c" if "c \<in> set ?b" for c using that by (auto dest: set_takeWhileD)
  then show ?thesis using n trim_set [of ?b] by (auto simp: plain_name_def)
qed

lemma sanitized_slug_plain:
  assumes "sanitize_folder_segment s = Inr (nm, slug)"
  shows "slug \<noteq> [] \<and> (\<forall>c \<in> set slug. \<not> is_slash c)"
proof -
  let ?t = "map (\<lambda>c. if is_slash c then CHR ''-'' else c) (trim s)"
  have "slug = take_chars 128 (trim ?t)" "slug \<noteq> []"
    using assms by (auto simp: sanitize_folder_segment_def Let_def split: if_splits)
  then show ?thesis using take_chars_set [of 128 "trim ?t"] trim_set [of ?t] by (fastforce simp: is_slash_def)
qed

end
