(* ===== verification/File_Model.thy ===== *)
theory File_Model
  imports File_Names
begin

text \<open>
  The data of the file centre: rows of \<open>sys.file\<close> and \<open>sys.file_folder\<close>, the requests of \<^verbatim>\<open>dto/sys_file.rs\<close> and
  \<^verbatim>\<open>dto/sys_file_folder.rs\<close>, the views of \<^verbatim>\<open>vo/sys_file.rs\<close> and \<^verbatim>\<open>vo/sys_file_folder.rs\<close>. Times are nanoseconds,
  JSON columns their text.
\<close>

section \<open>Rows\<close>

record file_row =
  f_id :: int
  f_file_no :: string
  f_provider :: string
  f_bucket :: string
  f_object_key :: string
  f_etag :: string
  f_original_name :: string
  f_display_name :: string
  f_extension :: string
  f_mime_type :: string
  f_kind :: string
  f_size :: int
  f_file_md5 :: string
  f_width :: "int option"
  f_height :: "int option"
  f_duration :: "int option"
  f_page_count :: "int option"
  f_visibility :: string
  f_status :: string
  f_public_token :: "string option"
  f_public_url_expires_at :: "int option"
  f_tags :: string
  f_remark :: string
  f_metadata :: string
  f_deleted_at :: "int option"
  f_deleted_by :: "int option"
  f_purge_status :: string
  f_purged_at :: "int option"
  f_purge_error :: "string option"
  f_folder_id :: "int option"
  f_creator_id :: "int option"
  f_create_time :: int
  f_update_time :: int

record folder_row =
  fo_id :: int
  fo_parent_id :: int
  fo_name :: string
  fo_slug :: string
  fo_visibility :: string
  fo_sort :: int
  fo_create_time :: int
  fo_update_time :: int

text \<open>
  The rows the code inserts for an upload: the named columns are set, the others have their defaults (the last
  fields are set by the data base layer).
\<close>

definition new_file ::
  "string \<Rightarrow> string \<Rightarrow> string \<Rightarrow> string \<Rightarrow> string \<Rightarrow> string \<Rightarrow> string \<Rightarrow> string \<Rightarrow> int \<Rightarrow> string \<Rightarrow> int option \<Rightarrow> int \<Rightarrow> file_row" where
  "new_file file_no provider bucket object_key etag original_name extension mime sz md5 folder_id creator =
     \<lparr>f_id = 0, f_file_no = file_no, f_provider = provider, f_bucket = bucket, f_object_key = object_key, f_etag = etag,
      f_original_name = original_name, f_display_name = original_name, f_extension = extension, f_mime_type = mime,
      f_kind = infer_kind mime, f_size = sz, f_file_md5 = md5, f_width = None, f_height = None, f_duration = None,
      f_page_count = None, f_visibility = ''PRIVATE'', f_status = ''NORMAL'', f_public_token = None,
      f_public_url_expires_at = None, f_tags = ''[]'', f_remark = [], f_metadata = ''{}'', f_deleted_at = None,
      f_deleted_by = None, f_purge_status = ''NONE'', f_purged_at = None, f_purge_error = None, f_folder_id = folder_id,
      f_creator_id = Some creator, f_create_time = 0, f_update_time = 0\<rparr>"

section \<open>Requests\<close>

record file_query =
  fq_file_no :: "string option"
  fq_original_name :: "string option"
  fq_display_name :: "string option"
  fq_extension :: "string option"
  fq_bucket :: "string option"
  fq_provider :: "string option"
  fq_kind :: "string option"
  fq_visibility :: "string option"
  fq_status :: "string option"
  fq_folder_id :: "int option"
  fq_creator_id :: "int option"

text \<open>One condition of a query: nothing for an absent field; \<open>contains\<close> is SQL's \<open>LIKE\<close> between wildcards.\<close>

definition when_given :: "('a \<Rightarrow> bool) \<Rightarrow> 'a option \<Rightarrow> bool" where
  "when_given P x \<longleftrightarrow> (case x of Some v \<Rightarrow> P v | None \<Rightarrow> True)"

definition file_query_matches :: "(string \<Rightarrow> string \<Rightarrow> bool) \<Rightarrow> file_query \<Rightarrow> file_row \<Rightarrow> bool" where
  "file_query_matches contains q r \<longleftrightarrow>
     when_given (\<lambda>v. f_file_no r = v) (fq_file_no q) \<and>
     when_given (contains (f_original_name r)) (fq_original_name q) \<and>
     when_given (contains (f_display_name r)) (fq_display_name q) \<and>
     when_given (\<lambda>v. f_extension r = unwrap_or v (strip_prefix ''.'' v)) (fq_extension q) \<and>
     when_given (\<lambda>v. f_bucket r = v) (fq_bucket q) \<and>
     when_given (\<lambda>v. f_provider r = v) (fq_provider q) \<and>
     when_given (\<lambda>v. f_kind r = v) (fq_kind q) \<and>
     when_given (\<lambda>v. f_visibility r = v) (fq_visibility q) \<and>
     when_given (\<lambda>v. f_status r = v) (fq_status q) \<and>
     when_given (\<lambda>v. f_folder_id r = Some v) (fq_folder_id q) \<and>
     when_given (\<lambda>v. f_creator_id r = Some v) (fq_creator_id q)"

record presign_upload_dto =
  pu_file_name :: string
  pu_file_size :: int
  pu_file_md5 :: "string option"

definition presign_upload_dto_valid :: "presign_upload_dto \<Rightarrow> bool" where
  "presign_upload_dto_valid d \<longleftrightarrow> 1 \<le> char_count (pu_file_name d) \<and> opt_length 32 32 (pu_file_md5 d)"

record presign_callback_dto =
  pc_object_key :: string
  pc_original_name :: string
  pc_file_size :: int
  pc_file_md5 :: "string option"

definition presign_callback_dto_valid :: "presign_callback_dto \<Rightarrow> bool" where
  "presign_callback_dto_valid d \<longleftrightarrow> 1 \<le> char_count (pc_original_name d)"

record multipart_init_dto =
  mi_file_name :: string
  mi_file_size :: int
  mi_file_md5 :: string

definition multipart_init_dto_valid :: "multipart_init_dto \<Rightarrow> bool" where
  "multipart_init_dto_valid d \<longleftrightarrow> 1 \<le> char_count (mi_file_name d) \<and> length_between 32 32 (mi_file_md5 d)"

record multipart_list_dto =
  ml_upload_id :: string
  ml_object_key :: string
  ml_file_size :: int

record multipart_complete_dto =
  mc_upload_id :: string
  mc_object_key :: string
  mc_original_name :: string
  mc_file_size :: int
  mc_file_md5 :: "string option"

definition multipart_complete_dto_valid :: "multipart_complete_dto \<Rightarrow> bool" where
  "multipart_complete_dto_valid d \<longleftrightarrow> 1 \<le> char_count (mc_original_name d)"

record multipart_abort_dto =
  ma_upload_id :: string
  ma_object_key :: string

record create_folder_dto =
  cf_parent_id :: "int option"
  cf_name :: string
  cf_slug :: string
  cf_visibility :: "string option"
  cf_sort :: "int option"

definition create_folder_dto_valid :: "create_folder_dto \<Rightarrow> bool" where
  "create_folder_dto_valid d \<longleftrightarrow>
     length_between 1 128 (cf_name d) \<and> length_between 1 128 (cf_slug d) \<and> opt_length 1 32 (cf_visibility d)"

definition row_of_create_folder :: "create_folder_dto \<Rightarrow> folder_row" where
  "row_of_create_folder d =
     \<lparr>fo_id = 0, fo_parent_id = unwrap_or 0 (cf_parent_id d), fo_name = cf_name d, fo_slug = cf_slug d,
      fo_visibility = unwrap_or ''PRIVATE'' (cf_visibility d), fo_sort = unwrap_or 0 (cf_sort d), fo_create_time = 0, fo_update_time = 0\<rparr>"

record update_folder_dto =
  uf_name :: "string option"
  uf_slug :: "string option"
  uf_visibility :: "string option"
  uf_sort :: "int option"

definition update_folder_dto_valid :: "update_folder_dto \<Rightarrow> bool" where
  "update_folder_dto_valid d \<longleftrightarrow>
     opt_length 1 128 (uf_name d) \<and> opt_length 1 128 (uf_slug d) \<and> opt_length 1 32 (uf_visibility d)"

definition update_folder_apply :: "update_folder_dto \<Rightarrow> folder_row \<Rightarrow> folder_row" where
  "update_folder_apply d r =
     r\<lparr>fo_name := unwrap_or (fo_name r) (uf_name d), fo_slug := unwrap_or (fo_slug r) (uf_slug d),
       fo_visibility := unwrap_or (fo_visibility r) (uf_visibility d), fo_sort := unwrap_or (fo_sort r) (uf_sort d)\<rparr>"

section \<open>Views\<close>

record download_url_vo =
  du_url :: string
  du_expires_at :: "int option"

record file_upload_vo =
  fu_file_id :: int
  fu_file_no :: string
  fu_original_name :: string
  fu_size :: int
  fu_download :: download_url_vo

record folder_summary_vo =
  fs_id :: int
  fs_parent_id :: int
  fs_name :: string
  fs_slug :: string
  fs_visibility :: string
  fs_sort :: int

definition folder_summary_of :: "folder_row \<Rightarrow> folder_summary_vo" where
  "folder_summary_of f =
     \<lparr>fs_id = fo_id f, fs_parent_id = fo_parent_id f, fs_name = fo_name f, fs_slug = fo_slug f, fs_visibility = fo_visibility f,
      fs_sort = fo_sort f\<rparr>"

record creator_summary_vo =
  cr_id :: int
  cr_user_name :: string
  cr_nick_name :: string

record file_vo =
  fv_id :: int
  fv_file_no :: string
  fv_provider :: string
  fv_bucket :: string
  fv_object_key :: string
  fv_etag :: string
  fv_original_name :: string
  fv_display_name :: string
  fv_extension :: string
  fv_mime_type :: string
  fv_kind :: string
  fv_size :: int
  fv_width :: "int option"
  fv_height :: "int option"
  fv_duration :: "int option"
  fv_page_count :: "int option"
  fv_visibility :: string
  fv_status :: string
  fv_public_token :: string
  fv_public_url_expires_at :: "int option"
  fv_tags :: string
  fv_remark :: string
  fv_metadata :: string
  fv_deleted_at :: "int option"
  fv_deleted_by :: "int option"
  fv_purge_status :: string
  fv_purged_at :: "int option"
  fv_purge_error :: "string option"
  fv_folder :: "folder_summary_vo option"
  fv_creator :: "creator_summary_vo option"
  fv_created_at :: int
  fv_updated_at :: int

definition file_vo_of :: "file_row \<Rightarrow> file_vo" where
  "file_vo_of r =
     \<lparr>fv_id = f_id r, fv_file_no = f_file_no r, fv_provider = f_provider r, fv_bucket = f_bucket r,
      fv_object_key = f_object_key r, fv_etag = f_etag r, fv_original_name = f_original_name r,
      fv_display_name = f_display_name r, fv_extension = f_extension r, fv_mime_type = f_mime_type r, fv_kind = f_kind r,
      fv_size = f_size r, fv_width = f_width r, fv_height = f_height r, fv_duration = f_duration r,
      fv_page_count = f_page_count r, fv_visibility = f_visibility r, fv_status = f_status r,
      fv_public_token = unwrap_or [] (f_public_token r), fv_public_url_expires_at = f_public_url_expires_at r,
      fv_tags = f_tags r, fv_remark = f_remark r, fv_metadata = f_metadata r, fv_deleted_at = f_deleted_at r,
      fv_deleted_by = f_deleted_by r, fv_purge_status = f_purge_status r, fv_purged_at = f_purged_at r,
      fv_purge_error = f_purge_error r, fv_folder = None, fv_creator = None, fv_created_at = f_create_time r,
      fv_updated_at = f_update_time r\<rparr>"

record file_list_summary_vo =
  ls_total :: nat
  ls_private_count :: nat
  ls_public_count :: nat

record file_page_vo =
  fp_current :: nat
  fp_size :: nat
  fp_total :: nat
  fp_records :: "file_vo list"
  fp_summary :: file_list_summary_vo

record public_link_vo =
  pl_token :: string
  pl_visibility :: string
  pl_public_url :: string
  pl_expires_at :: "int option"

record presigned_upload_vo =
  pv_fast_uploaded :: bool
  pv_file :: "file_upload_vo option"
  pv_upload_url :: "string option"
  pv_object_key :: "string option"
  pv_expires_in :: "int option"

record presigned_download_vo =
  pd_download :: download_url_vo
  pd_expires_in :: int

record upload_failure_vo =
  fl_original_name :: string
  fl_reason :: api_errors

record batch_upload_vo =
  bv_success :: "file_upload_vo list"
  bv_failed :: "upload_failure_vo list"

record part_url =
  pt_number :: int
  pt_upload_url :: string

record multipart_init_vo =
  iv_fast_uploaded :: bool
  iv_file :: "file_upload_vo option"
  iv_upload_id :: "string option"
  iv_object_key :: "string option"
  iv_chunk_size :: "int option"
  iv_total_parts :: "int option"
  iv_part_urls :: "part_url list option"
  iv_expires_in :: "int option"

record uploaded_part =
  up_number :: int
  up_e_tag :: string
  up_size :: int

record list_parts_vo =
  lp_uploaded_parts :: "uploaded_part list"
  lp_pending_part_urls :: "part_url list"
  lp_expires_in :: int

record folder_vo =
  ov_id :: int
  ov_parent_id :: int
  ov_name :: string
  ov_slug :: string
  ov_visibility :: string
  ov_sort :: int
  ov_file_count :: int
  ov_create_time :: int
  ov_update_time :: int

definition folder_vo_of :: "folder_row \<Rightarrow> int \<Rightarrow> folder_vo" where
  "folder_vo_of m file_count =
     \<lparr>ov_id = fo_id m, ov_parent_id = fo_parent_id m, ov_name = fo_name m, ov_slug = fo_slug m, ov_visibility = fo_visibility m,
      ov_sort = fo_sort m, ov_file_count = file_count, ov_create_time = fo_create_time m, ov_update_time = fo_update_time m\<rparr>"

record tree_folder =
  tf_id :: int
  tf_parent_id :: int
  tf_name :: string
  tf_slug :: string
  tf_visibility :: string
  tf_sort :: int
  tf_file_count :: int

datatype folder_tree = FolderTree (ft_node: tree_folder) (ft_children: "folder_tree list")

end
