(* ===== verification/File_Store.thy ===== *)
theory File_Store
  imports File_Model
begin

text \<open>
  What the file services work on: the tables of files and folders, the object store, and the queue of background
  tasks. The object store is a service outside the repository: a record of its operations over a state of any
  type, with \<open>None\<close> or \<open>False\<close> for a failed request. Configuration, clock, hash, MIME tables and the limits of the
  table columns are fields of the environment of a call.
\<close>

section \<open>The object store\<close>

record object_head =
  oh_e_tag :: "string option"
  oh_content_length :: "int option"
  oh_content_type :: "string option"

record parts_page =
  pp_parts :: "(int option \<times> string option \<times> int option) list"
  pp_is_truncated :: "bool option"
  pp_next_marker :: "string option"

record 's s3_ops =
  s3_head_bucket :: "'s \<Rightarrow> string \<Rightarrow> bool"
  s3_create_bucket :: "string \<Rightarrow> 's \<Rightarrow> 's"
  s3_put :: "string \<Rightarrow> string \<Rightarrow> string \<Rightarrow> string \<Rightarrow> 's \<Rightarrow> bool \<times> 's"
  s3_head :: "'s \<Rightarrow> string \<Rightarrow> string \<Rightarrow> object_head option"
  s3_get :: "'s \<Rightarrow> string \<Rightarrow> string \<Rightarrow> string option"
  s3_delete :: "string \<Rightarrow> string \<Rightarrow> 's \<Rightarrow> string option \<times> 's"
  s3_create_multipart :: "string \<Rightarrow> string \<Rightarrow> string \<Rightarrow> 's \<Rightarrow> string option option \<times> 's"
  s3_upload_part :: "string \<Rightarrow> string \<Rightarrow> string \<Rightarrow> int \<Rightarrow> string \<Rightarrow> 's \<Rightarrow> string option option \<times> 's"
  s3_complete :: "string \<Rightarrow> string \<Rightarrow> string \<Rightarrow> (int \<times> string) list \<Rightarrow> 's \<Rightarrow> bool \<times> 's"
  s3_abort :: "string \<Rightarrow> string \<Rightarrow> string \<Rightarrow> 's \<Rightarrow> bool \<times> 's"
  s3_list_parts :: "'s \<Rightarrow> string \<Rightarrow> string \<Rightarrow> string \<Rightarrow> string option \<Rightarrow> parts_page option"
  s3_presign_get :: "int \<Rightarrow> string \<Rightarrow> string \<Rightarrow> string option"
  s3_presign_put :: "int \<Rightarrow> string \<Rightarrow> string \<Rightarrow> string \<Rightarrow> string option"
  s3_presign_part :: "int \<Rightarrow> string \<Rightarrow> string \<Rightarrow> string \<Rightarrow> int \<Rightarrow> string option"

section \<open>State and environment\<close>

record purge_task =
  pk_file_id :: int
  pk_bucket :: string
  pk_object_key :: string

record 's file_world =
  fw_files :: "file_row list"
  fw_folders :: "folder_row list"
  fw_file_next :: int
  fw_folder_next :: int
  fw_tasks :: "purge_task list"
  fw_draws :: nat
  fw_store :: 's

record 's files_env =
  fe_s3 :: "'s s3_ops"
  fe_bucket :: string
  fe_max_file_size :: int
  fe_allowed_extensions :: "string list"
  fe_presign_expiry :: int
  fe_multipart_threshold :: int
  fe_chunk_size :: int
  fe_now :: int
  fe_min_time :: int
  fe_max_time :: int
  fe_fmt :: "string \<Rightarrow> string"
  fe_uuid :: "nat \<Rightarrow> string"
  fe_lower :: "string \<Rightarrow> string"
  fe_md5 :: "string \<Rightarrow> string"
  fe_mime_of_suffix :: "string \<Rightarrow> string"
  fe_accepts_file :: "file_row \<Rightarrow> bool"
  fe_accepts_folder :: "folder_row \<Rightarrow> bool"
  fe_task_capacity :: nat

type_synonym ('s, 'a) file_op = "('s file_world, api_errors, 'a) sm"

text \<open>Operations with a loop that may not end: \<open>None\<close> is that it did not end within the fuel.\<close>

type_synonym ('s, 'a) file_run = "'s file_world \<Rightarrow> ((api_errors + 'a) \<times> 's file_world) option"

definition run_op :: "('s, 'a) file_op \<Rightarrow> ('s, 'a) file_run" where
  "run_op m w = Some (m w)"

definition bind_run :: "('s, 'a) file_run \<Rightarrow> ('a \<Rightarrow> ('s, 'b) file_run) \<Rightarrow> ('s, 'b) file_run" where
  "bind_run m f w = (case m w of None \<Rightarrow> None | Some (Inl e, w') \<Rightarrow> Some (Inl e, w') | Some (Inr x, w') \<Rightarrow> f x w')"

lemma bind_run_Some: "bind_run m f w = Some (r, w') \<longleftrightarrow>
    (\<exists>e. r = Inl e \<and> m w = Some (Inl e, w')) \<or> (\<exists>x w1. m w = Some (Inr x, w1) \<and> f x w1 = Some (r, w'))"
  by (auto simp: bind_run_def split: option.splits prod.splits sum.splits)

lemma run_op_Some: "run_op m w = Some (r, w') \<longleftrightarrow> m w = (r, w')"
  by (simp add: run_op_def)

definition draw_uuid :: "'s files_env \<Rightarrow> ('s, string) file_op" where
  "draw_uuid env w = (Inr (fe_uuid env (fw_draws w)), w\<lparr>fw_draws := fw_draws w + 1\<rparr>)"

definition on_store :: "('s \<Rightarrow> 'r \<times> 's) \<Rightarrow> ('s, 'r) file_op" where
  "on_store f w = (Inr (fst (f (fw_store w))), w\<lparr>fw_store := snd (f (fw_store w))\<rparr>)"

section \<open>The data base layer\<close>

definition find_file :: "int \<Rightarrow> 's file_world \<Rightarrow> file_row option" where
  "find_file i w = find (\<lambda>r. f_id r = i) (fw_files w)"

definition find_folder :: "int \<Rightarrow> 's file_world \<Rightarrow> folder_row option" where
  "find_folder i w = find (\<lambda>r. fo_id r = i) (fw_folders w)"

text \<open>The unique indexes: file numbers, public tokens that are not null, and slugs below one parent.\<close>

definition insert_file :: "'s files_env \<Rightarrow> string \<Rightarrow> file_row \<Rightarrow> ('s, file_row) file_op" where
  "insert_file env what row w =
     (let r = row\<lparr>f_id := fw_file_next w, f_create_time := fe_now env, f_update_time := fe_now env\<rparr>
      in if fe_accepts_file env r \<and> (\<forall>x \<in> set (fw_files w). f_file_no x \<noteq> f_file_no r)
         then (Inr r, w\<lparr>fw_files := fw_files w @ [r], fw_file_next := fw_file_next w + 1\<rparr>)
         else (Inl (Internal (Text what)), w))"

definition update_file :: "'s files_env \<Rightarrow> string \<Rightarrow> int \<Rightarrow> (file_row \<Rightarrow> file_row) \<Rightarrow> ('s, unit) file_op" where
  "update_file env what i f w =
     (let g = (\<lambda>r. (f r)\<lparr>f_update_time := fe_now env\<rparr>)
      in case find_file i w of
           None \<Rightarrow> (Inl (Internal (Text what)), w)
         | Some r \<Rightarrow>
             if fe_accepts_file env (g r) \<and>
                (f_public_token (g r) = None \<or> (\<forall>x \<in> set (fw_files w). f_id x \<noteq> i \<longrightarrow> f_public_token x \<noteq> f_public_token (g r)))
             then (Inr (), w\<lparr>fw_files := map (\<lambda>x. if f_id x = i then g x else x) (fw_files w)\<rparr>)
             else (Inl (Internal (Text what)), w))"

text \<open>\<open>update_many\<close> by primary key sets columns without the hook that stamps the update.\<close>

definition set_file_columns :: "int \<Rightarrow> (file_row \<Rightarrow> file_row) \<Rightarrow> 's file_world \<Rightarrow> 's file_world" where
  "set_file_columns i f w = w\<lparr>fw_files := map (\<lambda>x. if f_id x = i then f x else x) (fw_files w)\<rparr>"

definition insert_folder :: "'s files_env \<Rightarrow> string \<Rightarrow> folder_row \<Rightarrow> ('s, folder_row) file_op" where
  "insert_folder env what row w =
     (let r = row\<lparr>fo_id := fw_folder_next w, fo_create_time := fe_now env, fo_update_time := fe_now env\<rparr>
      in if fe_accepts_folder env r \<and> (\<forall>x \<in> set (fw_folders w). (fo_parent_id x, fo_slug x) \<noteq> (fo_parent_id r, fo_slug r))
         then (Inr r, w\<lparr>fw_folders := fw_folders w @ [r], fw_folder_next := fw_folder_next w + 1\<rparr>)
         else (Inl (Internal (Text what)), w))"

definition update_folder_row :: "'s files_env \<Rightarrow> string \<Rightarrow> int \<Rightarrow> (folder_row \<Rightarrow> folder_row) \<Rightarrow> ('s, folder_row) file_op" where
  "update_folder_row env what i f w =
     (let g = (\<lambda>r. (f r)\<lparr>fo_update_time := fe_now env\<rparr>)
      in case find_folder i w of
           None \<Rightarrow> (Inl (Internal (Text what)), w)
         | Some r \<Rightarrow>
             if fe_accepts_folder env (g r) \<and>
                (\<forall>x \<in> set (fw_folders w). fo_id x \<noteq> i \<longrightarrow> (fo_parent_id x, fo_slug x) \<noteq> (fo_parent_id (g r), fo_slug (g r)))
             then (Inr (g r), w\<lparr>fw_folders := map (\<lambda>x. if fo_id x = i then g x else x) (fw_folders w)\<rparr>)
             else (Inl (Internal (Text what)), w))"

end
