(* ===== verification/File_Service.thy ===== *)
theory File_Service
  imports File_Store
begin

text \<open>
  \<open>SysFileService\<close> (\<^verbatim>\<open>service/sys_file_service.rs\<close>) and \<open>SysFileFolderService\<close> (\<^verbatim>\<open>service/sys_file_folder_service.rs\<close>):
  lists, details, public links, moves and deletion of files, and the tree of folders. Deleting marks the row and,
  when no other live row has the object, queues its removal from the store.
\<close>

section \<open>Lists\<close>

text \<open>
  The loop of \<open>subtree_folder_ids\<close>; the stack has its top first, so the children pushed in order come reversed.
\<close>

definition children_of :: "(int \<times> int) list \<Rightarrow> int \<Rightarrow> int list" where
  "children_of rows i = map fst (filter (\<lambda>(_, parent). parent = i) rows)"

function subtree_loop :: "(int \<times> int) list \<Rightarrow> int list \<Rightarrow> int set \<Rightarrow> int list \<Rightarrow> int list" where
  "subtree_loop rows [] visited out = out"
| "subtree_loop rows (i # stack) visited out =
     (if i \<in> visited then subtree_loop rows stack visited out
      else subtree_loop rows (rev (children_of rows i) @ stack) (insert i visited) (out @ [i]))"
  by pat_completeness auto
termination
proof (relation "measure (\<lambda>(rows, stack, visited, out). length (filter (\<lambda>(_, parent). parent \<notin> visited) rows) + length stack)")
  fix rows :: "(int \<times> int) list" and i stack and visited :: "int set" and out :: "int list"
  assume new: "i \<notin> visited"
  have "length (filter (\<lambda>(_, parent). parent \<notin> insert i visited) rows) + length (filter (\<lambda>(_, parent). parent = i) rows)
      = length (filter (\<lambda>(_, parent). parent \<notin> visited) rows)"
    using new by (induction rows) auto
  then show "((rows, rev (children_of rows i) @ stack, insert i visited, out @ [i]), rows, i # stack, visited, out)
      \<in> measure (\<lambda>(rows, stack, visited, out). length (filter (\<lambda>(_, parent). parent \<notin> visited) rows) + length stack)"
    by (simp add: children_of_def)
qed simp_all

definition folder_edges :: "'s file_world \<Rightarrow> (int \<times> int) list" where
  "folder_edges w = map (\<lambda>f. (fo_id f, fo_parent_id f)) (fw_folders w)"

definition subtree_folder_ids :: "int \<Rightarrow> 's file_world \<Rightarrow> int list" where
  "subtree_folder_ids root w = subtree_loop (folder_edges w) [root] {} []"

definition list_condition :: "(string \<Rightarrow> string \<Rightarrow> bool) \<Rightarrow> file_query \<Rightarrow> 's file_world \<Rightarrow> file_row \<Rightarrow> bool" where
  "list_condition contains q w r \<longleftrightarrow>
     file_query_matches contains (q\<lparr>fq_folder_id := None\<rparr>) r \<and>
     when_given (\<lambda>folder. f_folder_id r \<in> Some ` set (subtree_folder_ids folder w)) (fq_folder_id q)"

definition with_summaries :: "'s file_world \<Rightarrow> creator_summary_vo list \<Rightarrow> file_row \<Rightarrow> file_vo" where
  "with_summaries w users m =
     (file_vo_of m)
       \<lparr>fv_folder := Option.bind (f_folder_id m) (\<lambda>i. map_option folder_summary_of (find_folder i w)),
        fv_creator := Option.bind (f_creator_id m) (\<lambda>i. find (\<lambda>u. cr_id u = i) users)\<rparr>"

text \<open>\<open>page\<close> is the pagination of the ORM: the slice of a page, its number and size.\<close>

definition list_files ::
  "(string \<Rightarrow> string \<Rightarrow> bool) \<Rightarrow> (file_row list \<Rightarrow> file_row list) \<Rightarrow> nat \<Rightarrow> nat \<Rightarrow> creator_summary_vo list \<Rightarrow> file_query \<Rightarrow>
   's file_world \<Rightarrow> file_page_vo" where
  "list_files contains page current sz users q w =
     (let found = filter (\<lambda>r. f_deleted_at r = None) (filter (list_condition contains q w) (fw_files w));
          content = page (sort_key (\<lambda>r. - f_create_time r) found)
      in \<lparr>fp_current = current, fp_size = sz, fp_total = length found, fp_records = map (with_summaries w users) content,
          fp_summary = \<lparr>ls_total = length found,
            ls_private_count = length (filter (\<lambda>r. f_visibility r = ''PRIVATE'') found),
            ls_public_count = length (filter (\<lambda>r. f_visibility r = ''PUBLIC'') found)\<rparr>\<rparr>)"

section \<open>Single files\<close>

definition existing_file :: "int \<Rightarrow> ('s, file_row) file_op" where
  "existing_file i w = (case find_file i w of Some r \<Rightarrow> (Inr r, w) | None \<Rightarrow> (Inl (NotFound (Text ''file does not exist'')), w))"

definition live_file :: "int \<Rightarrow> ('s, file_row) file_op" where
  "live_file i =
     bind_s (existing_file i)
       (\<lambda>r. if f_deleted_at r \<noteq> None then lift_r (Inl (NotFound (Text ''file does not exist''))) else ok_s r)"

definition get_file :: "creator_summary_vo list \<Rightarrow> int \<Rightarrow> ('s, file_vo) file_op" where
  "get_file users i = bind_s (live_file i) (\<lambda>r w. (Inr (with_summaries w users r), w))"

text \<open>
  The end of a link's validity; seconds are cast to \<open>i64\<close>. A duration or a time out of the range of the library
  panics, which the server answers as an internal error.
\<close>

definition link_expiry :: "'s files_env \<Rightarrow> int option \<Rightarrow> api_errors + int option" where
  "link_expiry env expires_in =
     (case expires_in of
        None \<Rightarrow> Inr None
      | Some s \<Rightarrow>
          if s \<le> 0 then Inr None
          else
            (let t = fe_now env + wrap_i64 s * 1000000000
             in if wrap_i64 s < -9223372036854776 \<or> 9223372036854775 < wrap_i64 s \<or> t < fe_min_time env \<or> fe_max_time env < t
                then Inl (Internal (Text ''panic'')) else Inr (Some t)))"

definition set_link :: "string \<Rightarrow> int option \<Rightarrow> file_row \<Rightarrow> file_row" where
  "set_link token expires_at r = r\<lparr>f_public_token := Some token, f_public_url_expires_at := expires_at, f_visibility := ''PUBLIC''\<rparr>"

definition clear_link :: "file_row \<Rightarrow> file_row" where
  "clear_link r = r\<lparr>f_public_token := None, f_public_url_expires_at := None, f_visibility := ''PRIVATE''\<rparr>"

definition generate_public_link :: "'s files_env \<Rightarrow> int \<Rightarrow> int option \<Rightarrow> ('s, public_link_vo) file_op" where
  "generate_public_link env i expires_in =
     bind_s (live_file i)
       (\<lambda>_. bind_s (draw_uuid env)
         (\<lambda>u. let token = simple_uuid u
              in bind_s (lift_r (link_expiry env expires_in))
                   (\<lambda>expires_at. bind_s (update_file env ''generate public link'' i (set_link token expires_at))
                     (\<lambda>_. ok_s \<lparr>pl_token = token, pl_visibility = ''PUBLIC'', pl_public_url = ''/api/public/file/'' @ token,
                        pl_expires_at = expires_at\<rparr>))))"

definition revoke_public_link :: "'s files_env \<Rightarrow> int \<Rightarrow> ('s, unit) file_op" where
  "revoke_public_link env i = bind_s (existing_file i) (\<lambda>_. update_file env ''revoke public link'' i clear_link)"

definition update_visibility :: "'s files_env \<Rightarrow> int \<Rightarrow> string \<Rightarrow> ('s, unit) file_op" where
  "update_visibility env i v = bind_s (existing_file i) (\<lambda>_. update_file env ''update visibility'' i (\<lambda>r. r\<lparr>f_visibility := v\<rparr>))"

definition update_status :: "'s files_env \<Rightarrow> int \<Rightarrow> string \<Rightarrow> ('s, unit) file_op" where
  "update_status env i s = bind_s (existing_file i) (\<lambda>_. update_file env ''update status'' i (\<lambda>r. r\<lparr>f_status := s\<rparr>))"

definition update_display_name :: "'s files_env \<Rightarrow> int \<Rightarrow> string \<Rightarrow> ('s, unit) file_op" where
  "update_display_name env i n = bind_s (existing_file i) (\<lambda>_. update_file env ''update display name'' i (\<lambda>r. r\<lparr>f_display_name := n\<rparr>))"

definition move_file :: "'s files_env \<Rightarrow> int \<Rightarrow> int option \<Rightarrow> ('s, unit) file_op" where
  "move_file env i folder w =
     (case folder of
        Some d \<Rightarrow>
          if find_folder d w = None then (Inl (BadRequest (Text ''folder does not exist'')), w)
          else bind_s (existing_file i) (\<lambda>_. update_file env ''move file'' i (\<lambda>r. r\<lparr>f_folder_id := folder\<rparr>)) w
      | None \<Rightarrow> bind_s (existing_file i) (\<lambda>_. update_file env ''move file'' i (\<lambda>r. r\<lparr>f_folder_id := folder\<rparr>)) w)"

section \<open>Deleting\<close>

definition mark_deleted :: "int \<Rightarrow> int option \<Rightarrow> file_row \<Rightarrow> file_row" where
  "mark_deleted now by_user r =
     r\<lparr>f_deleted_at := Some now, f_deleted_by := by_user, f_purge_status := ''NONE'', f_purge_error := None\<rparr>"

definition live_refs :: "string \<Rightarrow> string \<Rightarrow> 's file_world \<Rightarrow> nat" where
  "live_refs bucket key w =
     length (filter (\<lambda>r. f_object_key r = key \<and> f_bucket r = bucket \<and> f_deleted_at r = None) (fw_files w))"

text \<open>A full queue drops the task.\<close>

definition spawn_task :: "'s files_env \<Rightarrow> purge_task \<Rightarrow> ('s, unit) file_op" where
  "spawn_task env t w =
     (Inr (), if length (fw_tasks w) < fe_task_capacity env then w\<lparr>fw_tasks := fw_tasks w @ [t]\<rparr> else w)"

definition delete_file :: "'s files_env \<Rightarrow> int \<Rightarrow> int option \<Rightarrow> ('s, unit) file_op" where
  "delete_file env i by_user =
     bind_s (existing_file i)
       (\<lambda>r. if f_deleted_at r \<noteq> None then ok_s ()
            else bind_s (update_file env ''delete file'' i (mark_deleted (fe_now env) by_user))
              (\<lambda>_ w. if live_refs (f_bucket r) (f_object_key r) w = 0
                     then spawn_task env \<lparr>pk_file_id = i, pk_bucket = f_bucket r, pk_object_key = f_object_key r\<rparr>
                            (set_file_columns i (\<lambda>x. x\<lparr>f_purge_status := ''PENDING''\<rparr>) w)
                     else (Inr (), w)))"

text \<open>A worker takes a task from the queue and removes the object; the row records how that went.\<close>

definition run_purge :: "'s files_env \<Rightarrow> nat \<Rightarrow> 's file_world \<Rightarrow> 's file_world" where
  "run_purge env k w =
     (if length (fw_tasks w) \<le> k then w
      else
        (let t = fw_tasks w ! k;
             w1 = w\<lparr>fw_tasks := take k (fw_tasks w) @ drop (Suc k) (fw_tasks w),
                    fw_store := snd (s3_delete (fe_s3 env) (pk_bucket t) (pk_object_key t) (fw_store w))\<rparr>
         in case fst (s3_delete (fe_s3 env) (pk_bucket t) (pk_object_key t) (fw_store w)) of
              None \<Rightarrow> set_file_columns (pk_file_id t)
                (\<lambda>x. x\<lparr>f_purge_status := ''SUCCESS'', f_purged_at := Some (fe_now env), f_purge_error := None\<rparr>) w1
            | Some e \<Rightarrow> set_file_columns (pk_file_id t) (\<lambda>x. x\<lparr>f_purge_status := ''FAILED'', f_purge_error := Some e\<rparr>) w1))"

section \<open>Folders\<close>

definition existing_folder :: "int \<Rightarrow> ('s, folder_row) file_op" where
  "existing_folder i w = (case find_folder i w of Some r \<Rightarrow> (Inr r, w) | None \<Rightarrow> (Inl (NotFound (Text ''folder does not exist'')), w))"

definition folder_file_count :: "int \<Rightarrow> 's file_world \<Rightarrow> int" where
  "folder_file_count i w = int (length (filter (\<lambda>r. f_deleted_at r = None \<and> f_folder_id r = Some i) (fw_files w)))"

definition ensure_slug_unique :: "int \<Rightarrow> string \<Rightarrow> int option \<Rightarrow> ('s, unit) file_op" where
  "ensure_slug_unique parent slug except w =
     (if list_ex (\<lambda>r. fo_parent_id r = parent \<and> fo_slug r = slug \<and> Some (fo_id r) \<noteq> except) (fw_folders w)
      then (Inl (BadRequest (Text ''slug exists among siblings'')), w) else (Inr (), w))"

definition get_folder :: "int \<Rightarrow> ('s, folder_vo) file_op" where
  "get_folder i = bind_s (existing_folder i) (\<lambda>m w. (Inr (folder_vo_of m (folder_file_count i w)), w))"

definition create_folder :: "'s files_env \<Rightarrow> create_folder_dto \<Rightarrow> ('s, folder_vo) file_op" where
  "create_folder env d =
     bind_s (ensure_slug_unique (unwrap_or 0 (cf_parent_id d)) (cf_slug d) None)
       (\<lambda>_. bind_s (insert_folder env ''create folder'' (row_of_create_folder d)) (\<lambda>m. ok_s (folder_vo_of m 0)))"

definition update_folder :: "'s files_env \<Rightarrow> int \<Rightarrow> update_folder_dto \<Rightarrow> ('s, folder_vo) file_op" where
  "update_folder env i d =
     bind_s (existing_folder i)
       (\<lambda>m. bind_s (case uf_slug d of Some s \<Rightarrow> ensure_slug_unique (fo_parent_id m) s (Some i) | None \<Rightarrow> ok_s ())
         (\<lambda>_. bind_s (update_folder_row env ''update folder'' i (update_folder_apply d))
           (\<lambda>m' w. (Inr (folder_vo_of m' (folder_file_count i w)), w))))"

definition delete_folder :: "int \<Rightarrow> ('s, unit) file_op" where
  "delete_folder i =
     bind_s (existing_folder i)
       (\<lambda>_ w. if list_ex (\<lambda>r. fo_parent_id r = i) (fw_folders w) then (Inl (BadRequest (Text ''folder has subfolders'')), w)
              else if folder_file_count i w > 0 then (Inl (BadRequest (Text ''folder has files'')), w)
              else (Inr (), w\<lparr>fw_folders := filter (\<lambda>r. fo_id r \<noteq> i) (fw_folders w)\<rparr>))"

text \<open>
  The tree: \<open>by_parent\<close> maps a parent to its folders in the order of the query, and \<open>build_tree\<close> takes each
  entry out of the map as it descends. The depth of the recursion is fuel.
\<close>

definition tree_node :: "'s file_world \<Rightarrow> folder_row \<Rightarrow> tree_folder" where
  "tree_node w f =
     \<lparr>tf_id = fo_id f, tf_parent_id = fo_parent_id f, tf_name = fo_name f, tf_slug = fo_slug f, tf_visibility = fo_visibility f,
      tf_sort = fo_sort f, tf_file_count = folder_file_count (fo_id f) w\<rparr>"

definition ordered_folders :: "'s file_world \<Rightarrow> folder_row list" where
  "ordered_folders w = sort_key fo_parent_id (sort_key fo_sort (sort_key fo_id (fw_folders w)))"

definition by_parent :: "'s file_world \<Rightarrow> int \<Rightarrow> tree_folder list" where
  "by_parent w p = map (tree_node w) (filter (\<lambda>f. fo_parent_id f = p) (ordered_folders w))"

fun build_tree :: "nat \<Rightarrow> (int \<Rightarrow> tree_folder list) \<Rightarrow> int \<Rightarrow> (folder_tree list \<times> (int \<Rightarrow> tree_folder list)) option"
  and build_children :: "nat \<Rightarrow> (int \<Rightarrow> tree_folder list) \<Rightarrow> tree_folder list \<Rightarrow> (folder_tree list \<times> (int \<Rightarrow> tree_folder list)) option" where
  "build_tree 0 m p = None"
| "build_tree (Suc n) m p = build_children n (m(p := [])) (m p)"
| "build_children n m [] = Some ([], m)"
| "build_children n m (c # cs) =
     (case build_tree n m (tf_id c) of
        None \<Rightarrow> None
      | Some (below, m1) \<Rightarrow>
          (let count = sum_list (map (\<lambda>t. tf_file_count (ft_node t)) below)
           in case build_children n m1 cs of
                None \<Rightarrow> None
              | Some (rest, m2) \<Rightarrow>
                  Some (FolderTree (c\<lparr>tf_file_count := tf_file_count c + count\<rparr>) below # rest, m2)))"

definition folder_tree_of :: "nat \<Rightarrow> 's file_world \<Rightarrow> folder_tree list option" where
  "folder_tree_of fuel w = map_option fst (build_tree fuel (by_parent w) 0)"

end
