(* ===== verification/File_Upload.thy ===== *)
theory File_Upload
  imports File_Service
begin

text \<open>
  \<open>SysFileUploadService\<close> (\<^verbatim>\<open>service/sys_file_upload_service.rs\<close>): where an upload goes, uploads through the server,
  uploads of the client to the store with a confirmation or in parts, and downloads. Concurrent uploads of a batch
  run one after the other.
\<close>

section \<open>The target folder\<close>

text \<open>The cache of folders by parent and slug is part of the state: what it learnt stays when a later step fails.\<close>

type_synonym folder_cache = "int \<times> string \<Rightarrow> int option"

type_synonym ('s, 'a) cached_op = "('s file_world \<times> folder_cache, api_errors, 'a) sm"

definition find_child :: "int \<Rightarrow> string \<Rightarrow> 's file_world \<Rightarrow> folder_row option" where
  "find_child parent slug w = find (\<lambda>f. fo_parent_id f = parent \<and> fo_slug f = slug) (fw_folders w)"

definition new_folder :: "int \<Rightarrow> string \<Rightarrow> string \<Rightarrow> string \<Rightarrow> folder_row" where
  "new_folder parent name slug visibility =
     \<lparr>fo_id = 0, fo_parent_id = parent, fo_name = name, fo_slug = slug, fo_visibility = visibility, fo_sort = 0,
      fo_create_time = 0, fo_update_time = 0\<rparr>"

definition get_or_create_child_folder ::
  "'s files_env \<Rightarrow> int \<Rightarrow> string \<Rightarrow> string \<Rightarrow> ('s, int) cached_op" where
  "get_or_create_child_folder env parent seg visibility =
     bind_s (lift_r (sanitize_folder_segment seg))
       (\<lambda>(name, slug) (w, cache).
          case cache (parent, slug) of
            Some i \<Rightarrow> (Inr i, (w, cache))
          | None \<Rightarrow>
              (case find_child parent slug w of
                 Some f \<Rightarrow> (Inr (fo_id f), (w, cache((parent, slug) \<mapsto> fo_id f)))
               | None \<Rightarrow>
                   (case insert_folder env ''create folder'' (new_folder parent name slug visibility) w of
                      (Inr f, w') \<Rightarrow> (Inr (fo_id f), (w', cache((parent, slug) \<mapsto> fo_id f)))
                    | (Inl e, w') \<Rightarrow>
                        (case find_child parent slug w' of
                           Some f \<Rightarrow> (Inr (fo_id f), (w', cache((parent, slug) \<mapsto> fo_id f)))
                         | None \<Rightarrow> (Inl (Internal (Text ''create folder'')), (w', cache))))))"

fun create_path :: "'s files_env \<Rightarrow> int \<Rightarrow> string list \<Rightarrow> string \<Rightarrow> ('s, int) cached_op" where
  "create_path env parent [] visibility = ok_s parent"
| "create_path env parent (d # ds) visibility =
     bind_s (get_or_create_child_folder env parent d visibility) (\<lambda>i. create_path env i ds visibility)"

definition same_name :: "folder_row \<Rightarrow> string \<Rightarrow> bool" where
  "same_name base first \<longleftrightarrow> eq_ignore_ascii_case (fo_name base) first \<or> eq_ignore_ascii_case (fo_slug base) first"

definition ensure_folder_path :: "'s files_env \<Rightarrow> int option \<Rightarrow> string list \<Rightarrow> ('s, int option) cached_op" where
  "ensure_folder_path env base dirs =
     (if dirs = [] then ok_s base
      else
        (case base of
           None \<Rightarrow> bind_s (create_path env 0 dirs ''PRIVATE'') (\<lambda>i. ok_s (Some i))
         | Some b \<Rightarrow>
             (\<lambda>(w, cache).
                case find_folder b w of
                  None \<Rightarrow> (Inl (NotFound (Text ''target folder does not exist'')), (w, cache))
                | Some f \<Rightarrow>
                    bind_s (create_path env (fo_id f) (if same_name f (hd dirs) then tl dirs else dirs) (fo_visibility f))
                      (\<lambda>i. ok_s (Some i)) (w, cache))))"

definition with_cache :: "('s, 'a) cached_op \<Rightarrow> ('s, 'a) file_op" where
  "with_cache m w = (case m (w, Map.empty) of (r, (w', _)) \<Rightarrow> (r, w'))"

definition no_root :: "int option \<Rightarrow> int option" where
  "no_root folder = (if folder = Some 0 then None else folder)"

definition resolve_upload_target ::
  "'s files_env \<Rightarrow> int option \<Rightarrow> bool \<Rightarrow> string \<Rightarrow> ('s, string \<times> int option) file_op" where
  "resolve_upload_target env folder preserve_path client_name =
     bind_s (lift_r (extract_upload_basename client_name))
       (\<lambda>original. if \<not> preserve_path then ok_s (original, no_root folder)
          else bind_s (lift_r (parse_relative_dirs client_name))
            (\<lambda>dirs. bind_s (with_cache (ensure_folder_path env (no_root folder) dirs)) (\<lambda>f. ok_s (original, f))))"

section \<open>Shared steps\<close>

definition ensure_bucket_exists :: "'s files_env \<Rightarrow> ('s, unit) file_op" where
  "ensure_bucket_exists env w =
     (Inr (), if s3_head_bucket (fe_s3 env) (fw_store w) (fe_bucket env) then w
              else w\<lparr>fw_store := s3_create_bucket (fe_s3 env) (fe_bucket env) (fw_store w)\<rparr>)"

definition check_file :: "'s files_env \<Rightarrow> int \<Rightarrow> string \<Rightarrow> api_errors + unit" where
  "check_file env sz sfx = validate_file sz sfx (fe_max_file_size env) (fe_allowed_extensions env)"

definition find_existing_object :: "'s files_env \<Rightarrow> string \<Rightarrow> int \<Rightarrow> 's file_world \<Rightarrow> file_row option" where
  "find_existing_object env file_md5 sz w =
     (let md5 = trim file_md5
      in if md5 = [] \<or> sz \<le> 0 then None
         else
           (case sort_key (\<lambda>r. - f_id r) (filter (\<lambda>r. f_file_md5 r = md5 \<and> f_size r = sz \<and> f_provider r = ''S3'' \<and>
                f_bucket r = fe_bucket env \<and> f_deleted_at r = None) (fw_files w)) of
              [] \<Rightarrow> None
            | r # _ \<Rightarrow> Some r))"

definition presign_download_url :: "'s files_env \<Rightarrow> string \<Rightarrow> string \<Rightarrow> ('s, download_url_vo) file_op" where
  "presign_download_url env bucket key =
     lift_r (case s3_presign_get (fe_s3 env) (fe_presign_expiry env) bucket key of
        None \<Rightarrow> Inl (Internal (Text ''presign download''))
      | Some url \<Rightarrow> Inr \<lparr>du_url = url, du_expires_at = Some (fe_now env + fe_presign_expiry env * 1000000000)\<rparr>)"

text \<open>The end of every upload: the row is saved, then the download link of its object is signed.\<close>

definition save_file :: "'s files_env \<Rightarrow> file_row \<Rightarrow> ('s, file_upload_vo) file_op" where
  "save_file env row =
     bind_s (insert_file env ''save file'' row)
       (\<lambda>m. bind_s (presign_download_url env (f_bucket m) (f_object_key m))
         (\<lambda>d. ok_s \<lparr>fu_file_id = f_id m, fu_file_no = f_file_no m, fu_original_name = f_original_name m, fu_size = f_size m,
                    fu_download = d\<rparr>))"

definition fetch_page :: "(int option \<times> string option \<times> int option) list \<Rightarrow> uploaded_part list" where
  "fetch_page ps = map (\<lambda>(n, tag, sz). \<lparr>up_number = unwrap_or 0 n, up_e_tag = unwrap_or [] tag, up_size = unwrap_or 0 sz\<rparr>) ps"

definition list_page :: "'s files_env \<Rightarrow> string \<Rightarrow> string \<Rightarrow> string option \<Rightarrow> ('s, parts_page) file_op" where
  "list_page env key upload_id marker w =
     (case s3_list_parts (fe_s3 env) (fw_store w) (fe_bucket env) key upload_id marker of
        None \<Rightarrow> (Inl (Internal (Text ''list parts'')), w)
      | Some p \<Rightarrow> (Inr p, w))"

primrec fetch_all_parts ::
  "nat \<Rightarrow> 's files_env \<Rightarrow> string \<Rightarrow> string \<Rightarrow> string option \<Rightarrow> uploaded_part list \<Rightarrow> ('s, uploaded_part list) file_run" where
  "fetch_all_parts 0 env key upload_id marker acc = (\<lambda>w. None)"
| "fetch_all_parts (Suc n) env key upload_id marker acc =
     bind_run (run_op (list_page env key upload_id marker))
       (\<lambda>p. if unwrap_or False (pp_is_truncated p)
             then fetch_all_parts n env key upload_id (pp_next_marker p) (acc @ fetch_page (pp_parts p))
             else run_op (ok_s (acc @ fetch_page (pp_parts p))))"

section \<open>Upload through the server\<close>

definition part_end :: "'s files_env \<Rightarrow> string \<Rightarrow> nat \<Rightarrow> nat" where
  "part_end env data offset = min (offset + nat (fe_chunk_size env)) (length data)"

definition upload_one ::
  "'s files_env \<Rightarrow> string \<Rightarrow> string \<Rightarrow> string \<Rightarrow> nat \<Rightarrow> int \<Rightarrow> ('s, int \<times> string) file_op" where
  "upload_one env key upload_id data offset part =
     bind_s (on_store (s3_upload_part (fe_s3 env) (fe_bucket env) key upload_id part
                (take (part_end env data offset - offset) (drop offset data))))
       (\<lambda>res. case res of None \<Rightarrow> lift_r (Inl (Internal (Text ''upload part''))) | Some tag \<Rightarrow> ok_s (part, unwrap_or [] tag))"

primrec upload_parts ::
  "nat \<Rightarrow> 's files_env \<Rightarrow> string \<Rightarrow> string \<Rightarrow> string \<Rightarrow> nat \<Rightarrow> int \<Rightarrow> (int \<times> string) list \<Rightarrow> ('s, (int \<times> string) list) file_run" where
  "upload_parts 0 env key upload_id data offset part acc = (\<lambda>w. None)"
| "upload_parts (Suc n) env key upload_id data offset part acc =
     (if offset < length data
      then bind_run (run_op (upload_one env key upload_id data offset part))
        (\<lambda>p. upload_parts n env key upload_id data (part_end env data offset) (part + 1) (acc @ [p]))
      else run_op (ok_s acc))"

definition complete_or_fail :: "'s files_env \<Rightarrow> string \<Rightarrow> string \<Rightarrow> (int \<times> string) list \<Rightarrow> ('s, unit) file_op" where
  "complete_or_fail env key upload_id parts =
     bind_s (on_store (s3_complete (fe_s3 env) (fe_bucket env) key upload_id parts))
       (\<lambda>ok. if ok then ok_s () else lift_r (Inl (Internal (Text ''complete multipart upload''))))"

definition multipart_upload :: "nat \<Rightarrow> 's files_env \<Rightarrow> string \<Rightarrow> string \<Rightarrow> string \<Rightarrow> ('s, unit) file_run" where
  "multipart_upload fuel env key data mime =
     bind_run (run_op (on_store (s3_create_multipart (fe_s3 env) (fe_bucket env) key mime)))
       (\<lambda>res. case res of
          None \<Rightarrow> run_op (lift_r (Inl (Internal (Text ''create multipart upload''))))
        | Some None \<Rightarrow> run_op (lift_r (Inl (Internal (Text ''no upload id''))))
        | Some (Some upload_id) \<Rightarrow>
            (\<lambda>w. case bind_run (upload_parts fuel env key upload_id data 0 1 [])
                      (\<lambda>parts. run_op (complete_or_fail env key upload_id parts)) w of
                   Some (Inl e, w') \<Rightarrow> Some (Inl e, snd (on_store (s3_abort (fe_s3 env) (fe_bucket env) key upload_id) w'))
                 | r \<Rightarrow> r))"

text \<open>A new object under a fresh key; its tag is read back from the store.\<close>

definition store_new_object :: "nat \<Rightarrow> 's files_env \<Rightarrow> string \<Rightarrow> string \<Rightarrow> string \<Rightarrow> ('s, string \<times> string) file_run" where
  "store_new_object fuel env extension data mime =
     bind_run (run_op (draw_uuid env))
       (\<lambda>u. let key = generate_object_key (fe_fmt env) u extension
            in bind_run
                 (if fe_multipart_threshold env < int (length data) then multipart_upload fuel env key data mime
                  else run_op (bind_s (on_store (s3_put (fe_s3 env) (fe_bucket env) key data mime))
                         (\<lambda>ok. if ok then ok_s () else lift_r (Inl (Internal (Text ''put object''))))))
                 (\<lambda>_. run_op (\<lambda>w. case s3_head (fe_s3 env) (fw_store w) (fe_bucket env) key of
                    None \<Rightarrow> (Inl (Internal (Text ''head object'')), w)
                  | Some h \<Rightarrow> (Inr (key, unwrap_or [] (oh_e_tag h)), w))))"

definition upload_file ::
  "nat \<Rightarrow> 's files_env \<Rightarrow> string \<Rightarrow> string option \<Rightarrow> string \<Rightarrow> int option \<Rightarrow> int \<Rightarrow> ('s, file_upload_vo) file_run" where
  "upload_file fuel env original_name content_type data folder user =
     (let extension = extract_suffix (fe_lower env) original_name;
          sz = int (length data); md5 = fe_md5 env data; mime = resolve_mime content_type
      in bind_run (run_op (lift_r (check_file env sz extension)))
           (\<lambda>_. bind_run (run_op (ensure_bucket_exists env))
             (\<lambda>_. bind_run
                (\<lambda>w. case find_existing_object env md5 sz w of
                       Some e \<Rightarrow>
                         if s3_head (fe_s3 env) (fw_store w) (fe_bucket env) (f_object_key e) \<noteq> None
                         then Some (Inr (f_object_key e, f_etag e), w)
                         else store_new_object fuel env extension data mime w
                     | None \<Rightarrow> store_new_object fuel env extension data mime w)
                (\<lambda>(key, etag). run_op (bind_s (draw_uuid env)
                   (\<lambda>u. save_file env (new_file (generate_file_no (fe_fmt env) u) ''S3'' (fe_bucket env) key etag original_name
                      extension mime sz md5 folder user)))))))"

text \<open>Preparing a batch: names and folders of the files one after the other, failures set aside.\<close>

type_synonym client_file = "string \<times> string option \<times> string"

definition batch_target ::
  "'s files_env \<Rightarrow> int option \<Rightarrow> bool \<Rightarrow> string \<Rightarrow> ('s, string \<times> int option) cached_op" where
  "batch_target env folder preserve_path client_name =
     bind_s (lift_r (extract_upload_basename client_name))
       (\<lambda>original. bind_s (if preserve_path
           then bind_s (lift_r (parse_relative_dirs client_name)) (ensure_folder_path env folder) else ok_s folder)
         (\<lambda>f. ok_s (original, f)))"

primrec prepare_batch ::
  "'s files_env \<Rightarrow> int option \<Rightarrow> bool \<Rightarrow> client_file list \<Rightarrow> 's file_world \<times> folder_cache \<Rightarrow>
   ((string \<times> string option \<times> string \<times> int option) list \<times> upload_failure_vo list) \<times> ('s file_world \<times> folder_cache)" where
  "prepare_batch env folder preserve_path [] s = (([], []), s)"
| "prepare_batch env folder preserve_path (f # fs) s =
     (case batch_target env folder preserve_path (fst f) s of
        (Inl e, s1) \<Rightarrow>
          (let rest = prepare_batch env folder preserve_path fs s1
           in ((fst (fst rest), \<lparr>fl_original_name = fst f, fl_reason = e\<rparr> # snd (fst rest)), snd rest))
      | (Inr t, s1) \<Rightarrow>
          (let rest = prepare_batch env folder preserve_path fs s1
           in (((fst t, fst (snd f), snd (snd f), snd t) # fst (fst rest), snd (fst rest)), snd rest)))"

text \<open>An upload of the batch does not fail it: the error is part of the answer.\<close>

definition attempt_run :: "('s, 'a) file_run \<Rightarrow> ('s, api_errors + 'a) file_run" where
  "attempt_run m w = map_option (\<lambda>(r, w'). (Inr r, w')) (m w)"

primrec upload_all ::
  "nat \<Rightarrow> 's files_env \<Rightarrow> int \<Rightarrow> (string \<times> string option \<times> string \<times> int option) list \<Rightarrow>
   ('s, file_upload_vo list \<times> upload_failure_vo list) file_run" where
  "upload_all fuel env user [] = run_op (ok_s ([], []))"
| "upload_all fuel env user (f # fs) =
     bind_run (attempt_run (upload_file fuel env (fst f) (fst (snd f)) (fst (snd (snd f))) (snd (snd (snd f))) user))
       (\<lambda>r. bind_run (upload_all fuel env user fs)
         (\<lambda>(oks, errs). run_op (ok_s (case r of
              Inr vo \<Rightarrow> (vo # oks, errs)
            | Inl e \<Rightarrow> (oks, \<lparr>fl_original_name = fst f, fl_reason = e\<rparr> # errs)))))"

definition batch_upload ::
  "nat \<Rightarrow> 's files_env \<Rightarrow> client_file list \<Rightarrow> int option \<Rightarrow> bool \<Rightarrow> int \<Rightarrow> ('s, batch_upload_vo) file_run" where
  "batch_upload fuel env files folder preserve_path user w =
     (let prep = prepare_batch env (no_root folder) preserve_path files (w, Map.empty)
      in bind_run (upload_all fuel env user (fst (fst prep)))
           (\<lambda>(oks, errs). run_op (ok_s \<lparr>bv_success = oks, bv_failed = snd (fst prep) @ errs\<rparr>)) (fst (snd prep)))"

section \<open>Upload of the client with a signed link\<close>

text \<open>A file whose hash and size are known gets a new row for the known object.\<close>

definition copy_existing ::
  "'s files_env \<Rightarrow> file_row \<Rightarrow> string \<Rightarrow> string \<Rightarrow> string \<Rightarrow> int \<Rightarrow> string \<Rightarrow> int \<Rightarrow> ('s, file_upload_vo) file_op" where
  "copy_existing env e file_name extension mime sz md5 user =
     bind_s (draw_uuid env)
       (\<lambda>u. save_file env (new_file (generate_file_no (fe_fmt env) u) (f_provider e) (f_bucket e) (f_object_key e) (f_etag e)
          file_name extension mime sz md5 None user))"

definition generate_presigned_upload :: "'s files_env \<Rightarrow> presign_upload_dto \<Rightarrow> int \<Rightarrow> ('s, presigned_upload_vo) file_op" where
  "generate_presigned_upload env d user =
     (let extension = extract_suffix (fe_lower env) (pu_file_name d); mime = fe_mime_of_suffix env extension
      in bind_s (lift_r (check_file env (pu_file_size d) extension))
           (\<lambda>_. bind_s (ensure_bucket_exists env)
             (\<lambda>_ w. case Option.bind (pu_file_md5 d) (\<lambda>md5. map_option (Pair md5) (find_existing_object env md5 (pu_file_size d) w)) of
                Some (md5, e) \<Rightarrow>
                  bind_s (copy_existing env e (pu_file_name d) extension mime (pu_file_size d) md5 user)
                    (\<lambda>f. ok_s \<lparr>pv_fast_uploaded = True, pv_file = Some f, pv_upload_url = None, pv_object_key = None, pv_expires_in = None\<rparr>) w
              | None \<Rightarrow>
                  bind_s (draw_uuid env)
                    (\<lambda>u. let key = generate_object_key (fe_fmt env) u extension
                         in lift_r (case s3_presign_put (fe_s3 env) (fe_presign_expiry env) (fe_bucket env) key mime of
                              None \<Rightarrow> Inl (Internal (Text ''presign upload''))
                            | Some url \<Rightarrow> Inr \<lparr>pv_fast_uploaded = False, pv_file = None, pv_upload_url = Some url, pv_object_key = Some key,
                                pv_expires_in = Some (fe_presign_expiry env)\<rparr>)) w)))"

text \<open>The row of an object that is in the store already, with the name and the hash the client gives.\<close>

definition record_object ::
  "'s files_env \<Rightarrow> string \<Rightarrow> string \<Rightarrow> string option \<Rightarrow> int \<Rightarrow> object_head \<Rightarrow> int \<Rightarrow> ('s, file_upload_vo) file_op" where
  "record_object env key original_name md5 sz h user =
     (let extension = extract_suffix (fe_lower env) original_name;
          mime = (case oh_content_type h of Some t \<Rightarrow> t | None \<Rightarrow> fe_mime_of_suffix env extension)
      in bind_s (draw_uuid env)
           (\<lambda>u. save_file env (new_file (generate_file_no (fe_fmt env) u) ''S3'' (fe_bucket env) key (unwrap_or [] (oh_e_tag h))
              original_name extension mime sz (unwrap_or [] md5) None user)))"

definition confirm_presigned_upload :: "'s files_env \<Rightarrow> presign_callback_dto \<Rightarrow> int \<Rightarrow> ('s, file_upload_vo) file_op" where
  "confirm_presigned_upload env d user =
     bind_s (ensure_bucket_exists env)
       (\<lambda>_ w. case s3_head (fe_s3 env) (fw_store w) (fe_bucket env) (pc_object_key d) of
          None \<Rightarrow> (Inl (Internal (Text ''no such object'')), w)
        | Some h \<Rightarrow>
            record_object env (pc_object_key d) (pc_original_name d) (pc_file_md5 d)
              (unwrap_or (pc_file_size d) (oh_content_length h)) h user w)"

section \<open>Downloads\<close>

definition generate_presigned_download :: "'s files_env \<Rightarrow> int \<Rightarrow> ('s, presigned_download_vo) file_op" where
  "generate_presigned_download env i =
     bind_s (existing_file i)
       (\<lambda>r. bind_s (presign_download_url env (f_bucket r) (f_object_key r))
         (\<lambda>d. ok_s \<lparr>pd_download = d, pd_expires_in = fe_presign_expiry env\<rparr>))"

definition object_of :: "'s files_env \<Rightarrow> file_row \<Rightarrow> ('s, file_row \<times> string) file_op" where
  "object_of env r w =
     (case s3_get (fe_s3 env) (fw_store w) (f_bucket r) (f_object_key r) of
        None \<Rightarrow> (Inl (Internal (Text ''get object'')), w)
      | Some data \<Rightarrow> (Inr (r, data), w))"

definition download_file :: "'s files_env \<Rightarrow> int \<Rightarrow> ('s, file_row \<times> string) file_op" where
  "download_file env i = bind_s (live_file i) (object_of env)"

definition download_public_file :: "'s files_env \<Rightarrow> string \<Rightarrow> ('s, file_row \<times> string) file_op" where
  "download_public_file env token w =
     (if trim token = [] then (Inl (NotFound (Text ''file does not exist'')), w)
      else
        (case find (\<lambda>r. f_public_token r = Some token) (fw_files w) of
           None \<Rightarrow> (Inl (NotFound (Text ''file does not exist'')), w)
         | Some r \<Rightarrow>
             if f_deleted_at r \<noteq> None then (Inl (NotFound (Text ''file does not exist'')), w)
             else if f_visibility r \<noteq> ''PUBLIC'' then (Inl (Forbidden (Text ''file is not public'')), w)
             else if f_status r \<noteq> ''NORMAL'' then (Inl (Forbidden (Text ''file is not available'')), w)
             else if when_given (\<lambda>t. fe_now env \<le> t) (f_public_url_expires_at r) then object_of env r w
             else (Inl (Forbidden (Text ''public link has expired'')), w)))"

section \<open>Upload of the client in parts\<close>

text \<open>The number of parts, cast to \<open>i32\<close>; a part size of zero panics.\<close>

definition parts_count :: "'s files_env \<Rightarrow> int \<Rightarrow> int" where
  "parts_count env sz = wrap_i32 (div_ceil (as_u64 sz) (fe_chunk_size env))"

definition checked_count :: "'s files_env \<Rightarrow> int \<Rightarrow> api_errors + int" where
  "checked_count env sz = (if fe_chunk_size env = 0 then Inl (Internal (Text ''panic'')) else Inr (parts_count env sz))"

definition part_url_of :: "'s files_env \<Rightarrow> string \<Rightarrow> string \<Rightarrow> int \<Rightarrow> api_errors + part_url" where
  "part_url_of env key upload_id n =
     (case s3_presign_part (fe_s3 env) (fe_presign_expiry env) (fe_bucket env) key upload_id n of
        None \<Rightarrow> Inl (Internal (Text ''presign part''))
      | Some url \<Rightarrow> Inr \<lparr>pt_number = n, pt_upload_url = url\<rparr>)"

fun part_urls :: "'s files_env \<Rightarrow> string \<Rightarrow> string \<Rightarrow> int list \<Rightarrow> api_errors + part_url list" where
  "part_urls env key upload_id [] = Inr []"
| "part_urls env key upload_id (n # ns) =
     bind_r (part_url_of env key upload_id n) (\<lambda>u. bind_r (part_urls env key upload_id ns) (\<lambda>us. Inr (u # us)))"

text \<open>A negative number of parts, from a negative size, overflows the capacity of the list of links: a panic.\<close>

definition init_multipart_upload :: "'s files_env \<Rightarrow> multipart_init_dto \<Rightarrow> int \<Rightarrow> ('s, multipart_init_vo) file_op" where
  "init_multipart_upload env d user =
     (let extension = extract_suffix (fe_lower env) (mi_file_name d); mime = fe_mime_of_suffix env extension
      in bind_s (lift_r (check_file env (mi_file_size d) extension))
           (\<lambda>_. bind_s (ensure_bucket_exists env)
             (\<lambda>_ w. case find_existing_object env (mi_file_md5 d) (mi_file_size d) w of
                Some e \<Rightarrow>
                  bind_s (copy_existing env e (mi_file_name d) extension mime (mi_file_size d) (mi_file_md5 d) user)
                    (\<lambda>f. ok_s \<lparr>iv_fast_uploaded = True, iv_file = Some f, iv_upload_id = None, iv_object_key = None,
                       iv_chunk_size = None, iv_total_parts = None, iv_part_urls = None, iv_expires_in = None\<rparr>) w
              | None \<Rightarrow>
                  bind_s (draw_uuid env)
                    (\<lambda>u. let key = generate_object_key (fe_fmt env) u extension
                         in bind_s (on_store (s3_create_multipart (fe_s3 env) (fe_bucket env) key mime))
                              (\<lambda>res. lift_r (case res of
                                 None \<Rightarrow> Inl (Internal (Text ''create multipart upload''))
                               | Some None \<Rightarrow> Inl (Internal (Text ''no upload id''))
                               | Some (Some upload_id) \<Rightarrow>
                                   bind_r (bind_r (checked_count env (mi_file_size d))
                                       (\<lambda>n. if n < 0 then Inl (Internal (Text ''panic'')) else part_urls env key upload_id [1..n]))
                                     (\<lambda>urls. Inr \<lparr>iv_fast_uploaded = False, iv_file = None, iv_upload_id = Some upload_id,
                                        iv_object_key = Some key, iv_chunk_size = Some (fe_chunk_size env),
                                        iv_total_parts = Some (parts_count env (mi_file_size d)), iv_part_urls = Some urls,
                                        iv_expires_in = Some (fe_presign_expiry env)\<rparr>)))) w)))"

text \<open>The loop of \<open>list_uploaded_parts\<close> over the part numbers: a link for each that is not in the store.\<close>

fun pending_part_urls ::
  "'s files_env \<Rightarrow> string \<Rightarrow> string \<Rightarrow> int set \<Rightarrow> int list \<Rightarrow> api_errors + part_url list" where
  "pending_part_urls env key upload_id uploaded [] = Inr []"
| "pending_part_urls env key upload_id uploaded (n # ns) =
     (if n \<notin> uploaded then
        bind_r (part_url_of env key upload_id n)
          (\<lambda>u. bind_r (pending_part_urls env key upload_id uploaded ns) (\<lambda>us. Inr (u # us)))
      else pending_part_urls env key upload_id uploaded ns)"

definition list_uploaded_parts :: "nat \<Rightarrow> 's files_env \<Rightarrow> multipart_list_dto \<Rightarrow> ('s, list_parts_vo) file_run" where
  "list_uploaded_parts fuel env d =
     bind_run (run_op (ensure_bucket_exists env))
       (\<lambda>_. bind_run (run_op (lift_r (checked_count env (ml_file_size d))))
       (\<lambda>total_parts. bind_run (fetch_all_parts fuel env (ml_object_key d) (ml_upload_id d) None [])
         (\<lambda>parts. run_op (lift_r (bind_r
            (pending_part_urls env (ml_object_key d) (ml_upload_id d) (up_number ` set parts) [1..total_parts])
            (\<lambda>urls. Inr \<lparr>lp_uploaded_parts = parts, lp_pending_part_urls = urls, lp_expires_in = fe_presign_expiry env\<rparr>))))))"

text \<open>The message of an incomplete upload names the number of the missing parts and lists them.\<close>

definition missing_parts_message :: "int list \<Rightarrow> string" where
  "missing_parts_message missing =
     ''parts are missing: '' @ show_int (int (length missing)) @ '' parts: ['' @ join_with '', '' (map show_int missing) @ '']''"

definition complete_multipart_upload :: "nat \<Rightarrow> 's files_env \<Rightarrow> multipart_complete_dto \<Rightarrow> int \<Rightarrow> ('s, file_upload_vo) file_run" where
  "complete_multipart_upload fuel env d user =
     bind_run (run_op (ensure_bucket_exists env))
       (\<lambda>_. bind_run (fetch_all_parts fuel env (mc_object_key d) (mc_upload_id d) None [])
         (\<lambda>parts.
            if parts = [] then run_op (lift_r (Inl (BadRequest (Text ''no uploaded parts''))))
            else if fe_chunk_size env = 0 then run_op (lift_r (Inl (Internal (Text ''panic''))))
            else
            (let uploaded = up_number ` set parts;
                 missing = filter (\<lambda>n. n \<notin> uploaded) [1..parts_count env (mc_file_size d)]
             in if missing \<noteq> [] then run_op (lift_r (Inl (IncompleteUpload (Text (missing_parts_message missing)))))
            else run_op
              (bind_s (complete_or_fail env (mc_object_key d) (mc_upload_id d) (map (\<lambda>p. (up_number p, up_e_tag p)) parts))
                (\<lambda>_ w. case s3_head (fe_s3 env) (fw_store w) (fe_bucket env) (mc_object_key d) of
                   None \<Rightarrow> (Inl (Internal (Text ''no such object'')), w)
                 | Some h \<Rightarrow>
                     record_object env (mc_object_key d) (mc_original_name d) (mc_file_md5 d)
                       (unwrap_or 0 (oh_content_length h)) h user w)))))"

definition abort_multipart_upload :: "'s files_env \<Rightarrow> multipart_abort_dto \<Rightarrow> ('s, unit) file_op" where
  "abort_multipart_upload env d =
     bind_s (ensure_bucket_exists env)
       (\<lambda>_. bind_s (on_store (s3_abort (fe_s3 env) (fe_bucket env) (ma_object_key d) (ma_upload_id d)))
         (\<lambda>ok. if ok then ok_s () else lift_r (Inl (Internal (Text ''abort multipart upload'')))))"

end
