(* ===== verification/File_Laws.thy ===== *)
theory File_Laws
  imports File_Upload
begin

text \<open>
  What the calls of the file services do to the table of files, the queue and the store: uploads only append live
  rows of objects that exist, the calls on one row keep its object. The laws of the object store that the code
  relies on are a predicate on its operations.
\<close>

section \<open>The object store\<close>

definition alive :: "'s s3_ops \<Rightarrow> 's \<Rightarrow> string \<Rightarrow> string \<Rightarrow> bool" where
  "alive s3 st bucket key \<longleftrightarrow> s3_head s3 st bucket key \<noteq> None"

definition keeps_objects :: "'s s3_ops \<Rightarrow> 's \<Rightarrow> 's \<Rightarrow> bool" where
  "keeps_objects s3 st st' \<longleftrightarrow> (\<forall>b k. alive s3 st b k \<longrightarrow> alive s3 st' b k)"

text \<open>An object is found after a successful put; only a delete removes one, and only its own.\<close>

definition s3_laws :: "'s s3_ops \<Rightarrow> bool" where
  "s3_laws s3 \<longleftrightarrow>
     (\<forall>b st. keeps_objects s3 st (s3_create_bucket s3 b st)) \<and>
     (\<forall>b k data mime st. keeps_objects s3 st (snd (s3_put s3 b k data mime st))) \<and>
     (\<forall>b k mime st. keeps_objects s3 st (snd (s3_create_multipart s3 b k mime st))) \<and>
     (\<forall>b k u n data st. keeps_objects s3 st (snd (s3_upload_part s3 b k u n data st))) \<and>
     (\<forall>b k u parts st. keeps_objects s3 st (snd (s3_complete s3 b k u parts st))) \<and>
     (\<forall>b k u st. keeps_objects s3 st (snd (s3_abort s3 b k u st))) \<and>
     (\<forall>b k st b' k'. (b', k') \<noteq> (b, k) \<longrightarrow> alive s3 st b' k' \<longrightarrow> alive s3 (snd (s3_delete s3 b k st)) b' k')"

lemma keeps_refl [simp]: "keeps_objects s3 st st"
  by (simp add: keeps_objects_def)

lemma keeps_trans: "keeps_objects s3 a b \<Longrightarrow> keeps_objects s3 b c \<Longrightarrow> keeps_objects s3 a c"
  by (simp add: keeps_objects_def)

lemma s3_lawsD:
  assumes "s3_laws s3"
  shows "keeps_objects s3 st (s3_create_bucket s3 b st)" "keeps_objects s3 st (snd (s3_put s3 b k data mime st))"
    "keeps_objects s3 st (snd (s3_create_multipart s3 b k mime st))" "keeps_objects s3 st (snd (s3_upload_part s3 b k u n data st))"
    "keeps_objects s3 st (snd (s3_complete s3 b k u parts st))" "keeps_objects s3 st (snd (s3_abort s3 b k u st))"
    "(b', k') \<noteq> (b, k) \<Longrightarrow> alive s3 st b' k' \<Longrightarrow> alive s3 (snd (s3_delete s3 b k st)) b' k'"
  using assms by (simp_all add: s3_laws_def)

text \<open>
  The growth of a world is measured with the existence of objects in one store; an environment obeys it when its
  own store finds no more objects and its operations lose none.
\<close>

definition s3_obeys :: "'s s3_ops \<Rightarrow> 's files_env \<Rightarrow> bool" where
  "s3_obeys s3 env \<longleftrightarrow>
     (\<forall>b st. keeps_objects s3 st (s3_create_bucket (fe_s3 env) b st)) \<and>
     (\<forall>b k data mime st. keeps_objects s3 st (snd (s3_put (fe_s3 env) b k data mime st))) \<and>
     (\<forall>b k mime st. keeps_objects s3 st (snd (s3_create_multipart (fe_s3 env) b k mime st))) \<and>
     (\<forall>b k u n data st. keeps_objects s3 st (snd (s3_upload_part (fe_s3 env) b k u n data st))) \<and>
     (\<forall>b k u parts st. keeps_objects s3 st (snd (s3_complete (fe_s3 env) b k u parts st))) \<and>
     (\<forall>b k u st. keeps_objects s3 st (snd (s3_abort (fe_s3 env) b k u st))) \<and>
     (\<forall>st b k. alive (fe_s3 env) st b k \<longrightarrow> alive s3 st b k)"

lemma obeysD:
  assumes "s3_obeys s3 env"
  shows "keeps_objects s3 st (s3_create_bucket (fe_s3 env) b st)" "keeps_objects s3 st (snd (s3_put (fe_s3 env) b k data mime st))"
    "keeps_objects s3 st (snd (s3_create_multipart (fe_s3 env) b k mime st))"
    "keeps_objects s3 st (snd (s3_upload_part (fe_s3 env) b k u n data st))"
    "keeps_objects s3 st (snd (s3_complete (fe_s3 env) b k u parts st))" "keeps_objects s3 st (snd (s3_abort (fe_s3 env) b k u st))"
    "alive (fe_s3 env) st b k \<Longrightarrow> alive s3 st b k"
  using assms by (simp_all add: s3_obeys_def)

lemma laws_obey: "s3_laws (fe_s3 env) \<Longrightarrow> s3_obeys (fe_s3 env) env"
  by (simp add: s3_obeys_def s3_laws_def)

text \<open>A store that finds everything is obeyed by every environment.\<close>

definition finds_all :: "'s s3_ops \<Rightarrow> 's s3_ops" where
  "finds_all s3 = s3\<lparr>s3_head := \<lambda>_ _ _. Some \<lparr>oh_e_tag = None, oh_content_length = None, oh_content_type = None\<rparr>\<rparr>"

lemma finds_all_alive [simp]: "alive (finds_all s3) st b k"
  by (simp add: alive_def finds_all_def)

lemma all_obey: "s3_obeys (finds_all s3) env"
  by (simp add: s3_obeys_def keeps_objects_def)

section \<open>Growth\<close>

definition live_row :: "file_row \<Rightarrow> bool" where
  "live_row r \<longleftrightarrow> f_deleted_at r = None"

definition backed_row :: "'s s3_ops \<Rightarrow> 's file_world \<Rightarrow> file_row \<Rightarrow> bool" where
  "backed_row s3 w r \<longleftrightarrow> alive s3 (fw_store w) (f_bucket r) (f_object_key r)"

definition grows :: "'s s3_ops \<Rightarrow> 's file_world \<Rightarrow> 's file_world \<Rightarrow> bool" where
  "grows s3 w w' \<longleftrightarrow>
     (\<exists>rs. fw_files w' = fw_files w @ rs \<and>
        (\<forall>r \<in> set rs. live_row r \<and> f_public_token r = None \<and> backed_row s3 w' r \<and> fw_file_next w \<le> f_id r \<and> f_id r < fw_file_next w') \<and>
        distinct (map f_id rs)) \<and>
     fw_tasks w' = fw_tasks w \<and> keeps_objects s3 (fw_store w) (fw_store w') \<and> fw_file_next w \<le> fw_file_next w'"

lemma growsI:
  "fw_files w' = fw_files w @ rs \<Longrightarrow>
   (\<And>r. r \<in> set rs \<Longrightarrow> live_row r \<and> f_public_token r = None \<and> backed_row s3 w' r \<and> fw_file_next w \<le> f_id r \<and> f_id r < fw_file_next w') \<Longrightarrow>
   distinct (map f_id rs) \<Longrightarrow> fw_tasks w' = fw_tasks w \<Longrightarrow> keeps_objects s3 (fw_store w) (fw_store w') \<Longrightarrow>
   fw_file_next w \<le> fw_file_next w' \<Longrightarrow> grows s3 w w'"
  unfolding grows_def by blast

lemma growsE:
  assumes "grows s3 w w'"
  obtains rs where "fw_files w' = fw_files w @ rs"
    "\<forall>r \<in> set rs. live_row r \<and> f_public_token r = None \<and> backed_row s3 w' r \<and> fw_file_next w \<le> f_id r \<and> f_id r < fw_file_next w'"
    "distinct (map f_id rs)" "fw_tasks w' = fw_tasks w" "keeps_objects s3 (fw_store w) (fw_store w')" "fw_file_next w \<le> fw_file_next w'"
  using assms unfolding grows_def by blast

lemma grows_same:
  "fw_files w' = fw_files w \<Longrightarrow> fw_tasks w' = fw_tasks w \<Longrightarrow> fw_file_next w' = fw_file_next w \<Longrightarrow>
    keeps_objects s3 (fw_store w) (fw_store w') \<Longrightarrow> grows s3 w w'"
  by (rule growsI [where rs = "[]"]) simp_all

lemma grows_refl [simp]: "grows s3 w w"
  by (rule grows_same) simp_all

lemma grows_trans:
  assumes "grows s3 a b" "grows s3 b c"
  shows "grows s3 a c"
proof -
  obtain rs where rs: "fw_files b = fw_files a @ rs"
    "\<forall>r \<in> set rs. live_row r \<and> f_public_token r = None \<and> backed_row s3 b r \<and> fw_file_next a \<le> f_id r \<and> f_id r < fw_file_next b"
    "distinct (map f_id rs)" "fw_tasks b = fw_tasks a" "keeps_objects s3 (fw_store a) (fw_store b)" "fw_file_next a \<le> fw_file_next b"
    by (rule growsE [OF assms(1)])
  obtain qs where qs: "fw_files c = fw_files b @ qs"
    "\<forall>r \<in> set qs. live_row r \<and> f_public_token r = None \<and> backed_row s3 c r \<and> fw_file_next b \<le> f_id r \<and> f_id r < fw_file_next c"
    "distinct (map f_id qs)" "fw_tasks c = fw_tasks b" "keeps_objects s3 (fw_store b) (fw_store c)" "fw_file_next b \<le> fw_file_next c"
    by (rule growsE [OF assms(2)])
  show ?thesis
  proof (rule growsI [where rs = "rs @ qs"])
    fix r assume "r \<in> set (rs @ qs)"
    then show "live_row r \<and> f_public_token r = None \<and> backed_row s3 c r \<and> fw_file_next a \<le> f_id r \<and> f_id r < fw_file_next c"
    proof (cases "r \<in> set rs")
      case True
      then show ?thesis using bspec [OF rs(2) True] qs(5,6) by (auto simp: backed_row_def keeps_objects_def)
    next
      case False
      then have "r \<in> set qs" using \<open>r \<in> set (rs @ qs)\<close> by simp
      then show ?thesis using bspec [OF qs(2)] rs(6) by fastforce
    qed
  next
    have "f_id r < f_id q" if "r \<in> set rs" "q \<in> set qs" for r q using bspec [OF rs(2) that(1)] bspec [OF qs(2) that(2)] by simp
    then show "distinct (map f_id (rs @ qs))" using rs(3) qs(3) by (fastforce simp: image_iff)
  qed (use rs qs in \<open>auto intro: keeps_trans\<close>)
qed

text \<open>Operations that only grow the world, with either kind of composition.\<close>

definition grower :: "'s s3_ops \<Rightarrow> ('s, 'a) file_op \<Rightarrow> bool" where
  "grower s3 m \<longleftrightarrow> (\<forall>w. grows s3 w (snd (m w)))"

definition grower_run :: "'s s3_ops \<Rightarrow> ('s, 'a) file_run \<Rightarrow> bool" where
  "grower_run s3 m \<longleftrightarrow> (\<forall>w r w'. m w = Some (r, w') \<longrightarrow> grows s3 w w')"

lemma growerD: "grower s3 m \<Longrightarrow> grows s3 w (snd (m w))"
  by (simp add: grower_def)

lemma bind_grows:
  assumes "grows s3 w (snd (m w))" "\<And>x w1. m w = (Inr x, w1) \<Longrightarrow> grows s3 w1 (snd (f x w1))"
  shows "grows s3 w (snd (bind_s m f w))"
  using assms by (auto simp: bind_s_def split: prod.splits sum.splits intro: grows_trans)

lemma bind_grower: "grower s3 m \<Longrightarrow> (\<And>x. grower s3 (f x)) \<Longrightarrow> grower s3 (bind_s m f)"
  unfolding grower_def by (intro allI bind_grows) auto

lemma ret_grower [simp]: "grower s3 (ok_s x)" "grower s3 (lift_r r)"
  by (simp_all add: grower_def result_simps)

lemma run_op_grower: "grower s3 m \<Longrightarrow> grower_run s3 (run_op m)"
  unfolding grower_def grower_run_def run_op_Some by (metis snd_conv)

lemma bind_run_grows:
  assumes "grower_run s3 m" "\<And>x w1 r w'. m w = Some (Inr x, w1) \<Longrightarrow> f x w1 = Some (r, w') \<Longrightarrow> grows s3 w1 w'"
    and "bind_run m f w = Some (r, w')"
  shows "grows s3 w w'"
  using assms(3) unfolding bind_run_Some
proof (elim disjE exE conjE)
  fix e assume "m w = Some (Inl e, w')"
  then show ?thesis using assms(1) by (auto simp: grower_run_def)
next
  fix x w1 assume "m w = Some (Inr x, w1)" "f x w1 = Some (r, w')"
  then show ?thesis using assms(1,2) grows_trans unfolding grower_run_def by blast
qed

lemma bind_run_grower: "grower_run s3 m \<Longrightarrow> (\<And>x. grower_run s3 (f x)) \<Longrightarrow> grower_run s3 (bind_run m f)"
  unfolding grower_run_def [of s3 "bind_run m f"]
  by (intro allI impI, rule bind_run_grows) (auto simp: grower_run_def)

lemma on_store_grower: "(\<And>st. keeps_objects s3 st (snd (f st))) \<Longrightarrow> grower s3 (on_store f)"
  by (auto simp: grower_def on_store_def intro: grows_same)

lemma draw_grower [simp]: "grower s3 (draw_uuid env)"
  by (auto simp: grower_def draw_uuid_def intro: grows_same)

lemma presign_grower [simp]: "grower s3 (presign_download_url env b k)"
  by (simp add: presign_download_url_def)

lemma bucket_grower: "s3_obeys s3 env \<Longrightarrow> grower s3 (ensure_bucket_exists env)"
  by (auto simp: grower_def ensure_bucket_exists_def intro!: grows_same obeysD(1))

text \<open>A row is added for an object that exists.\<close>

lemma insert_grows:
  assumes "alive s3 (fw_store w) (f_bucket row) (f_object_key row)" "live_row row" "f_public_token row = None"
  shows "grows s3 w (snd (insert_file env what row w))"
proof (cases "fst (insert_file env what row w)")
  case (Inl e)
  then show ?thesis by (auto simp: insert_file_def Let_def split: if_splits)
next
  case (Inr r)
  have r: "snd (insert_file env what row w) = w\<lparr>fw_files := fw_files w @ [r], fw_file_next := fw_file_next w + 1\<rparr>"
    "r = row\<lparr>f_id := fw_file_next w, f_create_time := fe_now env, f_update_time := fe_now env\<rparr>"
    using Inr by (auto simp: insert_file_def Let_def split: if_splits)
  show ?thesis unfolding r(1)
    by (rule growsI [where rs = "[r]"]) (use assms r(2) in \<open>simp_all add: live_row_def backed_row_def\<close>)
qed

lemma save_grows:
  assumes "alive s3 (fw_store w) (f_bucket row) (f_object_key row)" "live_row row" "f_public_token row = None"
  shows "grows s3 w (snd (save_file env row w))"
  unfolding save_file_def
  by (rule bind_grows, rule insert_grows [OF assms]) (rule growerD, intro bind_grower presign_grower ret_grower)

lemma new_file_row [simp]: "f_bucket (new_file no p b k e n x m sz h d u) = b" "f_object_key (new_file no p b k e n x m sz h d u) = k"
  "live_row (new_file no p b k e n x m sz h d u)" "f_public_token (new_file no p b k e n x m sz h d u) = None"
  by (simp_all add: new_file_def live_row_def)

lemma draw_store: "draw_uuid env w = (Inr u, w1) \<Longrightarrow> fw_store w1 = fw_store w"
  by (auto simp: draw_uuid_def)

lemma draw_save_grows:
  assumes "alive s3 (fw_store w) b k"
  shows "grows s3 w (snd (bind_s (draw_uuid env) (\<lambda>u. save_file env (new_file (no u) p b k e n x m sz h d user)) w))"
  using assms by (intro bind_grows growerD [OF draw_grower] save_grows) (simp_all add: draw_store)

lemma draw_save_eq:
  assumes "bind_s (draw_uuid env) (\<lambda>u. save_file env (new_file (no u) p b k e n x m sz h d user)) w = (r, w')" "alive s3 (fw_store w) b k"
  shows "grows s3 w w'"
  using draw_save_grows [OF assms(2), of env no p e n x m sz h d user] assms(1) by simp

section \<open>Uploads\<close>

lemma upload_one_grower: "s3_obeys s3 env \<Longrightarrow> grower s3 (upload_one env key upload_id data offset part)"
  unfolding upload_one_def
  by (intro bind_grower on_store_grower obeysD) (auto split: option.splits)

lemma upload_parts_grower:
  "s3_obeys s3 env \<Longrightarrow> grower_run s3 (upload_parts n env key upload_id data offset part acc)"
proof (induction n arbitrary: offset part acc)
  case 0
  then show ?case by (simp add: grower_run_def)
next
  case (Suc n)
  then show ?case by (auto intro!: bind_run_grower run_op_grower upload_one_grower)
qed

lemma complete_grower: "s3_obeys s3 env \<Longrightarrow> grower s3 (complete_or_fail env key upload_id parts)"
  unfolding complete_or_fail_def by (intro bind_grower on_store_grower obeysD) auto

lemma multipart_grower:
  assumes laws: "s3_obeys s3 env"
  shows "grower_run s3 (multipart_upload fuel env key data mime)"
proof -
  have parts: "grower_run s3 (bind_run (upload_parts fuel env key u data 0 1 []) (\<lambda>ps. run_op (complete_or_fail env key u ps)))" for u
    by (intro bind_run_grower upload_parts_grower run_op_grower complete_grower laws)
  have abort: "grows s3 w (snd (on_store (s3_abort (fe_s3 env) (fe_bucket env) key u) w))" for u w
    by (intro growerD on_store_grower obeysD laws)
  have "grower_run s3 (\<lambda>w. case bind_run (upload_parts fuel env key u data 0 1 []) (\<lambda>ps. run_op (complete_or_fail env key u ps)) w of
          Some (Inl e, w') \<Rightarrow> Some (Inl e, snd (on_store (s3_abort (fe_s3 env) (fe_bucket env) key u) w')) | r \<Rightarrow> r)" for u
    using parts [of u] abort grows_trans unfolding grower_run_def by (fastforce split: option.splits prod.splits sum.splits)
  then show ?thesis unfolding multipart_upload_def
    by (intro bind_run_grower run_op_grower on_store_grower obeysD laws) (auto split: option.splits intro: run_op_grower)
qed

lemma store_new_grower:
  assumes laws: "s3_obeys s3 env"
  shows "grower_run s3 (store_new_object fuel env x data mime)"
proof -
  have put: "grower s3 (bind_s (on_store (s3_put (fe_s3 env) (fe_bucket env) key data mime))
      (\<lambda>ok. if ok then ok_s () else lift_r (Inl (Internal (Text ''put object'')))))" for key
    by (intro bind_grower on_store_grower obeysD laws) auto
  have "grower s3 (\<lambda>w. case s3_head (fe_s3 env) (fw_store w) (fe_bucket env) key of
      None \<Rightarrow> (Inl (Internal (Text ''head object'')), w) | Some h \<Rightarrow> (Inr (key, unwrap_or [] (oh_e_tag h)), w))" for key
    by (auto simp: grower_def split: option.splits)
  then show ?thesis unfolding store_new_object_def Let_def
    using put multipart_grower [OF laws] by (auto intro!: bind_run_grower run_op_grower)
qed

lemma store_new_alive: "store_new_object fuel env x data mime w = Some (Inr (key, tag), w') \<Longrightarrow> alive (fe_s3 env) (fw_store w') (fe_bucket env) key"
  by (auto simp: store_new_object_def Let_def bind_run_Some run_op_Some alive_def split: option.splits)

lemma upload_grower:
  assumes laws: "s3_obeys s3 env"
  shows "grower_run s3 (upload_file fuel env name ctype data folder user)"
proof -
  let ?object = "\<lambda>w. case find_existing_object env (fe_md5 env data) (int (length data)) w of
      Some e \<Rightarrow> if s3_head (fe_s3 env) (fw_store w) (fe_bucket env) (f_object_key e) \<noteq> None then Some (Inr (f_object_key e, f_etag e), w)
        else store_new_object fuel env (extract_suffix (fe_lower env) name) data (resolve_mime ctype) w
    | None \<Rightarrow> store_new_object fuel env (extract_suffix (fe_lower env) name) data (resolve_mime ctype) w"
  have grow: "grower_run s3 ?object"
    using store_new_grower [OF laws] unfolding grower_run_def by (auto split: option.splits if_splits)
  have alive: "alive (fe_s3 env) (fw_store w') (fe_bucket env) k" if "?object w = Some (Inr (k, tag), w')" for w w' k tag
    using that store_new_alive [of fuel env _ data _ w k tag w'] by (auto simp: alive_def split: option.splits if_splits)
  let ?save = "\<lambda>(key, etag). run_op (bind_s (draw_uuid env) (\<lambda>u. save_file env (new_file (generate_file_no (fe_fmt env) u) ''S3'' (fe_bucket env)
      key etag name (extract_suffix (fe_lower env) name) (resolve_mime ctype) (int (length data)) (fe_md5 env data) folder user)))"
  have "grows s3 w w'" if "bind_run ?object ?save w = Some (r, w')" for w r w'
    using _ that
  proof (rule bind_run_grows [OF grow])
    fix x w1 r w' assume x: "?object w = Some (Inr x, w1)" "?save x w1 = Some (r, w')"
    obtain k tag where k: "x = (k, tag)" by (cases x)
    then have "alive s3 (fw_store w1) (fe_bucket env) k" using obeysD(7) [OF laws alive [of w k tag w1]] x(1) by simp
    moreover have "bind_s (draw_uuid env) (\<lambda>u. save_file env (new_file (generate_file_no (fe_fmt env) u) ''S3'' (fe_bucket env)
      k tag name (extract_suffix (fe_lower env) name) (resolve_mime ctype) (int (length data)) (fe_md5 env data) folder user)) w1 = (r, w')"
      using x(2) k by (simp add: run_op_Some)
    ultimately show "grows s3 w1 w'" by (intro draw_save_eq)
  qed
  then have inner: "grower_run s3 (bind_run ?object ?save)" by (simp add: grower_run_def)
  show ?thesis unfolding upload_file_def Let_def
    by (rule bind_run_grower, intro run_op_grower ret_grower, rule bind_run_grower, intro run_op_grower bucket_grower laws, rule inner)
qed

lemma folder_world:
  "insert_folder env what row w = (r, w') \<Longrightarrow> grows s3 w w'" "update_folder_row env what i f w = (r', w') \<Longrightarrow> grows s3 w w'"
  by (auto simp: insert_folder_def update_folder_row_def Let_def intro!: grows_same split: if_splits option.splits)

lemma child_folder_grows: "get_or_create_child_folder env parent seg vis (w, c) = (r, (w', c')) \<Longrightarrow> grows s3 w w'"
  by (auto simp: get_or_create_child_folder_def bind_s_def result_simps split: option.splits prod.splits sum.splits dest: folder_world)

lemma create_path_grows: "create_path env parent ds vis (w, c) = (r, (w', c')) \<Longrightarrow> grows s3 w w'"
proof (induction ds arbitrary: parent w c)
  case Nil
  then show ?case by (simp add: result_simps)
next
  case (Cons d ds)
  obtain r1 w1 c1 where a: "get_or_create_child_folder env parent d vis (w, c) = (r1, (w1, c1))" by (metis prod.exhaust)
  have g: "grows s3 w w1" using child_folder_grows [OF a] .
  show ?case
  proof (cases r1)
    case (Inl e)
    then show ?thesis using Cons(2) a g by (simp add: bind_s_def)
  next
    case (Inr i)
    then have "create_path env i ds vis (w1, c1) = (r, (w', c'))" using Cons(2) a by (simp add: bind_s_def)
    then show ?thesis using Cons(1) g grows_trans by blast
  qed
qed

lemma bind_ok_pair: "bind_s m (\<lambda>i. ok_s (f i)) s = (r, s') \<Longrightarrow> \<exists>r0. m s = (r0, s')"
  by (auto simp: bind_s_def result_simps split: prod.splits sum.splits)

lemma folder_path_grows: "ensure_folder_path env base dirs (w, c) = (r, (w', c')) \<Longrightarrow> grows s3 w w'"
  unfolding ensure_folder_path_def
  by (auto simp: result_simps dest!: bind_ok_pair intro: create_path_grows split: if_splits option.splits)

lemma resolve_grower: "grower s3 (resolve_upload_target env folder keep name)"
proof -
  have "grower s3 (with_cache (ensure_folder_path env f dirs))" for f dirs
    by (auto simp: grower_def with_cache_def intro: folder_path_grows split: prod.splits)
  then show ?thesis unfolding resolve_upload_target_def by (auto intro!: bind_grower)
qed

lemma batch_target_grows: "batch_target env folder keep name (w, c) = (r, (w', c')) \<Longrightarrow> grows s3 w w'"
  unfolding batch_target_def
  by (auto simp: bind_s_def result_simps dest: folder_path_grows split: if_splits prod.splits sum.splits)

lemma prepare_batch_grows: "grows s3 (fst s) (fst (snd (prepare_batch env folder keep fs s)))"
proof (induction fs arbitrary: s)
  case (Cons f fs)
  obtain w c r w1 c1 where s: "s = (w, c)" "batch_target env folder keep (fst f) (w, c) = (r, (w1, c1))" by (metis prod.exhaust)
  have "grows s3 w w1" using batch_target_grows [OF s(2)] .
  then show ?case using Cons [of "(w1, c1)"] s grows_trans by (auto simp: Let_def split: sum.splits)
qed simp

lemma upload_all_grower: "s3_obeys s3 env \<Longrightarrow> grower_run s3 (upload_all fuel env user fs)"
proof (induction fs)
  case Nil
  then show ?case by (auto intro: run_op_grower)
next
  case (Cons f fs)
  have attempt: "grower_run s3 m \<Longrightarrow> grower_run s3 (attempt_run m)" for s3 :: "'a s3_ops" and m :: "('a, file_upload_vo) file_run"
    by (auto simp: grower_run_def attempt_run_def)
  show ?case using Cons
    by (auto intro!: bind_run_grower attempt upload_grower run_op_grower)
qed

lemma batch_grower:
  assumes laws: "s3_obeys s3 env"
  shows "grower_run s3 (batch_upload fuel env files folder keep user)"
  unfolding grower_run_def batch_upload_def Let_def
proof (intro allI impI)
  fix w r w'
  let ?p = "prepare_batch env (no_root folder) keep files (w, Map.empty)"
  assume "bind_run (upload_all fuel env user (fst (fst ?p))) (\<lambda>(oks, errs). run_op (ok_s \<lparr>bv_success = oks, bv_failed = snd (fst ?p) @ errs\<rparr>))
      (fst (snd ?p)) = Some (r, w')"
  moreover have "grower_run s3 (bind_run (upload_all fuel env user (fst (fst ?p)))
      (\<lambda>(oks, errs). run_op (ok_s \<lparr>bv_success = oks, bv_failed = snd (fst ?p) @ errs\<rparr>)))"
    by (intro bind_run_grower upload_all_grower laws) (auto intro: run_op_grower)
  ultimately have "grows s3 (fst (snd ?p)) w'" by (auto simp: grower_run_def)
  then show "grows s3 w w'" using prepare_batch_grows [of s3 "(w, Map.empty)"] grows_trans by fastforce
qed

section \<open>Uploads of the client\<close>

text \<open>Copies of a known object are rows of an object that exists, as long as the known row's object does.\<close>

definition rows_backed :: "'s s3_ops \<Rightarrow> 's file_world \<Rightarrow> bool" where
  "rows_backed s3 w \<longleftrightarrow> (\<forall>r \<in> set (fw_files w). live_row r \<longrightarrow> backed_row s3 w r)"

lemma find_existing_Some:
  assumes "find_existing_object env md5 sz w = Some e"
  shows "e \<in> set (fw_files w) \<and> live_row e \<and> f_file_md5 e = trim md5 \<and> f_size e = sz \<and> f_bucket e = fe_bucket env"
proof -
  let ?P = "\<lambda>r. f_file_md5 r = trim md5 \<and> f_size r = sz \<and> f_provider r = ''S3'' \<and> f_bucket r = fe_bucket env \<and> f_deleted_at r = None"
  obtain rest where "sort_key (\<lambda>r. - f_id r) (filter ?P (fw_files w)) = e # rest"
    using assms by (auto simp: find_existing_object_def Let_def split: if_splits list.splits)
  then have "e \<in> set (sort_key (\<lambda>r. - f_id r) (filter ?P (fw_files w)))" by simp
  then show ?thesis by (simp add: live_row_def)
qed

lemma copy_grows:
  assumes "rows_backed s3 w" "e \<in> set (fw_files w)" "live_row e"
  shows "grows s3 w (snd (copy_existing env e n x m sz md5 user w))"
  using assms unfolding copy_existing_def by (intro draw_save_grows) (simp add: rows_backed_def backed_row_def)

lemma grows_backed: "grows s3 w w' \<Longrightarrow> rows_backed s3 w \<Longrightarrow> rows_backed s3 w'"
  by (erule growsE) (auto simp: rows_backed_def backed_row_def keeps_objects_def)

lemma record_grows:
  "alive s3 (fw_store w) (fe_bucket env) key \<Longrightarrow> grows s3 w (snd (record_object env key n md5 sz h user w))"
  unfolding record_object_def Let_def by (intro draw_save_grows)

lemma presigned_upload_grows:
  assumes laws: "s3_obeys s3 env" and ok: "rows_backed s3 w"
  shows "grows s3 w (snd (generate_presigned_upload env d user w))"
  unfolding generate_presigned_upload_def Let_def
proof (intro bind_grows growerD [OF ret_grower(2)] growerD [OF bucket_grower [OF laws]], goal_cases)
  case (1 x w1 y w2)
  have w1: "w1 = w" using 1(1) by (simp add: result_simps)
  have "grows s3 w w2" using growerD [OF bucket_grower [OF laws], of w] 1(2) w1 by simp
  then have ok2: "rows_backed s3 w2" using grows_backed ok by blast
  show ?case
  proof (cases "Option.bind (pu_file_md5 d) (\<lambda>md5. map_option (Pair md5) (find_existing_object env md5 (pu_file_size d) w2))")
    case None
    then show ?thesis by simp (rule growerD, intro bind_grower draw_grower ret_grower)
  next
    case (Some p)
    then obtain md5 e where e: "p = (md5, e)" "find_existing_object env md5 (pu_file_size d) w2 = Some e"
      by (cases "pu_file_md5 d") auto
    then show ?thesis using Some find_existing_Some [OF e(2)]
      by (simp) (intro bind_grows copy_grows ok2 growerD [OF ret_grower(1)]; simp)
  qed
qed

lemma confirm_grows:
  assumes laws: "s3_obeys s3 env"
  shows "grows s3 w (snd (confirm_presigned_upload env d user w))"
  unfolding confirm_presigned_upload_def
  by (intro bind_grows growerD [OF bucket_grower [OF laws]]) (auto split: option.splits intro!: record_grows obeysD(7) [OF laws] simp: alive_def [of "fe_s3 env"])

lemma init_multipart_grows:
  assumes laws: "s3_obeys s3 env" and ok: "rows_backed s3 w"
  shows "grows s3 w (snd (init_multipart_upload env d user w))"
  unfolding init_multipart_upload_def Let_def
proof (intro bind_grows growerD [OF ret_grower(2)] growerD [OF bucket_grower [OF laws]], goal_cases)
  case (1 x w1 y w2)
  have w1: "w1 = w" using 1(1) by (simp add: result_simps)
  have "grows s3 w w2" using growerD [OF bucket_grower [OF laws], of w] 1(2) w1 by simp
  then have ok2: "rows_backed s3 w2" using grows_backed ok by blast
  show ?case
  proof (cases "find_existing_object env (mi_file_md5 d) (mi_file_size d) w2")
    case None
    then show ?thesis
      by simp (rule growerD, intro bind_grower draw_grower on_store_grower obeysD ret_grower laws)
  next
    case (Some e)
    then show ?thesis using find_existing_Some [OF Some]
      by (simp) (intro bind_grows copy_grows ok2 growerD [OF ret_grower(1)]; simp)
  qed
qed

lemma fetch_grower: "grower_run s3 (fetch_all_parts n env key upload_id marker acc)"
proof (induction n arbitrary: marker acc)
  case 0
  then show ?case by (simp add: grower_run_def)
next
  case (Suc n)
  have "grower s3 (list_page env key upload_id marker)" by (auto simp: grower_def list_page_def split: option.splits)
  then show ?case using Suc by (auto intro!: bind_run_grower run_op_grower)
qed

lemma list_parts_grower: "s3_obeys s3 env \<Longrightarrow> grower_run s3 (list_uploaded_parts fuel env d)"
  unfolding list_uploaded_parts_def
  by (intro bind_run_grower run_op_grower bucket_grower fetch_grower ret_grower)

lemma complete_upload_grower:
  assumes laws: "s3_obeys s3 env"
  shows "grower_run s3 (complete_multipart_upload fuel env d user)"
proof -
  have "grower s3 (bind_s (complete_or_fail env (mc_object_key d) (mc_upload_id d) ps)
      (\<lambda>_ w. case s3_head (fe_s3 env) (fw_store w) (fe_bucket env) (mc_object_key d) of
          None \<Rightarrow> (Inl (Internal (Text ''no such object'')), w)
        | Some h \<Rightarrow> record_object env (mc_object_key d) (mc_original_name d) (mc_file_md5 d) (unwrap_or 0 (oh_content_length h)) h user w))" for ps
    by (intro bind_grower complete_grower laws) (auto simp: grower_def alive_def [of "fe_s3 env"] intro!: record_grows obeysD(7) [OF laws] split: option.splits)
  then show ?thesis unfolding complete_multipart_upload_def
    by (intro bind_run_grower run_op_grower bucket_grower fetch_grower laws) (auto intro: run_op_grower)
qed

lemma abort_grower: "s3_obeys s3 env \<Longrightarrow> grower s3 (abort_multipart_upload env d)"
  unfolding abort_multipart_upload_def
  by (intro bind_grower bucket_grower on_store_grower obeysD) auto

end
