(* ===== verification/File_Runs.thy ===== *)
theory File_Runs
  imports File_Laws
begin

text \<open>
  The file services as sequences of calls, together with the workers that remove objects and the clients that use
  signed links, and two invariants: a link that was withdrawn stays withdrawn, and the object of every live row
  exists as long as no object that waits for its removal gets a new row.
\<close>

section \<open>Calls on one row\<close>

definition edits :: "string set \<Rightarrow> 's file_world \<Rightarrow> 's file_world \<Rightarrow> bool" where
  "edits tokens w w' \<longleftrightarrow>
     (\<exists>i g. fw_files w' = map (\<lambda>x. if f_id x = i then g x else x) (fw_files w) \<and>
        (\<forall>x. f_id (g x) = f_id x \<and> f_bucket (g x) = f_bucket x \<and> f_object_key (g x) = f_object_key x \<and>
             (live_row (g x) \<longrightarrow> live_row x) \<and> (\<forall>t. f_public_token (g x) = Some t \<longrightarrow> t \<in> tokens \<or> f_public_token x = Some t))) \<and>
     fw_tasks w' = fw_tasks w \<and> fw_store w' = fw_store w \<and> fw_file_next w' = fw_file_next w"

lemma editsI:
  assumes "fw_files w' = map (\<lambda>x. if f_id x = i then g x else x) (fw_files w)"
    "\<And>x. f_id (g x) = f_id x \<and> f_bucket (g x) = f_bucket x \<and> f_object_key (g x) = f_object_key x \<and> (live_row (g x) \<longrightarrow> live_row x)"
    "\<And>x t. f_public_token (g x) = Some t \<Longrightarrow> t \<in> tokens \<or> f_public_token x = Some t"
    "fw_tasks w' = fw_tasks w" "fw_store w' = fw_store w" "fw_file_next w' = fw_file_next w"
  shows "edits tokens w w'"
  unfolding edits_def using assms by blast

lemma edits_same: "fw_files w' = fw_files w \<Longrightarrow> fw_tasks w' = fw_tasks w \<Longrightarrow> fw_store w' = fw_store w \<Longrightarrow>
    fw_file_next w' = fw_file_next w \<Longrightarrow> edits tokens w w'"
  by (rule editsI [where i = 0 and g = "\<lambda>x. x"]) simp_all

lemma edits_refl [simp]: "edits tokens w w"
  by (rule edits_same) simp_all

text \<open>A row after an edit comes from a row with the same object, which was live if it is.\<close>

lemma edits_row:
  assumes "edits tokens w w'" "r' \<in> set (fw_files w')"
  shows "\<exists>r \<in> set (fw_files w). f_id r' = f_id r \<and> f_bucket r' = f_bucket r \<and> f_object_key r' = f_object_key r \<and>
    (live_row r' \<longrightarrow> live_row r) \<and> (\<forall>t. f_public_token r' = Some t \<longrightarrow> t \<in> tokens \<or> f_public_token r = Some t)"
proof -
  obtain i g where g: "fw_files w' = map (\<lambda>x. if f_id x = i then g x else x) (fw_files w)"
    "\<And>x. f_id (g x) = f_id x \<and> f_bucket (g x) = f_bucket x \<and> f_object_key (g x) = f_object_key x \<and> (live_row (g x) \<longrightarrow> live_row x) \<and>
      (\<forall>t. f_public_token (g x) = Some t \<longrightarrow> t \<in> tokens \<or> f_public_token x = Some t)"
    using assms(1) unfolding edits_def by blast
  obtain x where x: "x \<in> set (fw_files w)" "r' = (if f_id x = i then g x else x)" using assms(2) g(1) by auto
  show ?thesis using x(1) by (rule bexI [rotated]) (use x(2) g(2) [of x] in auto)
qed

definition keeps_object :: "string set \<Rightarrow> (file_row \<Rightarrow> file_row) \<Rightarrow> bool" where
  "keeps_object tokens f \<longleftrightarrow> (\<forall>x. f_id (f x) = f_id x \<and> f_bucket (f x) = f_bucket x \<and> f_object_key (f x) = f_object_key x \<and>
     (live_row (f x) \<longrightarrow> live_row x) \<and> (\<forall>t. f_public_token (f x) = Some t \<longrightarrow> t \<in> tokens \<or> f_public_token x = Some t))"

lemma keeps_object_simps [simp]:
  "keeps_object {t} (set_link t e)" "keeps_object T clear_link" "keeps_object T (\<lambda>r. r\<lparr>f_visibility := v\<rparr>)"
  "keeps_object T (\<lambda>r. r\<lparr>f_status := v\<rparr>)" "keeps_object T (\<lambda>r. r\<lparr>f_display_name := v\<rparr>)" "keeps_object T (\<lambda>r. r\<lparr>f_folder_id := d\<rparr>)"
  "keeps_object T (mark_deleted n u)" "keeps_object T (\<lambda>r. r\<lparr>f_purge_status := v\<rparr>)"
  "keeps_object T (\<lambda>x. x\<lparr>f_purge_status := v, f_purged_at := p, f_purge_error := er\<rparr>)"
  "keeps_object T (\<lambda>x. x\<lparr>f_purge_status := v, f_purge_error := er\<rparr>)"
  by (simp_all add: keeps_object_def set_link_def clear_link_def mark_deleted_def live_row_def)

lemma set_columns_edits: "keeps_object T f \<Longrightarrow> edits T w (set_file_columns i f w)"
  by (rule editsI [where i = i and g = f]) (simp_all add: set_file_columns_def keeps_object_def)

lemma update_file_edits: "keeps_object T f \<Longrightarrow> edits T w (snd (update_file env what i f w))"
proof -
  assume k: "keeps_object T f"
  have "edits T w (w\<lparr>fw_files := map (\<lambda>x. if f_id x = i then (f x)\<lparr>f_update_time := fe_now env\<rparr> else x) (fw_files w)\<rparr>)"
    by (rule editsI [where i = i and g = "\<lambda>x. (f x)\<lparr>f_update_time := fe_now env\<rparr>"]) (use k in \<open>simp_all add: keeps_object_def live_row_def\<close>)
  then show ?thesis by (auto simp: update_file_def Let_def split: option.splits)
qed

lemma existing_file_world: "existing_file i w = (r, w') \<Longrightarrow> w' = w" "live_file i w = (r, w') \<Longrightarrow> w' = w"
  by (auto simp: existing_file_def live_file_def bind_s_def result_simps split: option.splits if_splits)

lemma after_existing: "snd (bind_s (existing_file i) f w) = w \<or> (\<exists>r. find_file i w = Some r \<and> snd (bind_s (existing_file i) f w) = snd (f r w))"
  by (auto simp: bind_s_def existing_file_def split: option.splits)

lemma one_row_edits:
  "edits T w (snd (revoke_public_link env i w))" "edits T w (snd (update_visibility env i v w))"
  "edits T w (snd (update_status env i v w))" "edits T w (snd (update_display_name env i v w))" "edits T w (snd (move_file env i d w))"
proof -
  have "edits T w (snd (bind_s (existing_file i) (\<lambda>_. update_file env what i f) w))" if "keeps_object T f" for what f
    using after_existing [of i "\<lambda>_. update_file env what i f" w] update_file_edits [OF that] by auto
  then show "edits T w (snd (revoke_public_link env i w))" "edits T w (snd (update_visibility env i v w))"
    "edits T w (snd (update_status env i v w))" "edits T w (snd (update_display_name env i v w))" "edits T w (snd (move_file env i d w))"
    by (simp_all add: revoke_public_link_def update_visibility_def update_status_def update_display_name_def move_file_def split: option.splits)
qed

definition token_of :: "'s files_env \<Rightarrow> 's file_world \<Rightarrow> string" where
  "token_of env w = simple_uuid (fe_uuid env (fw_draws w))"

lemma edits_draws: "edits T (w\<lparr>fw_draws := n\<rparr>) w' \<longleftrightarrow> edits T w w'"
  by (simp add: edits_def)

lemma link_edits: "edits {token_of env w} w (snd (generate_public_link env i e w))"
proof (cases "find_file i w")
  case (Some r)
  have "edits {token_of env w} w w'" if "update_file env what i (set_link (token_of env w) x) (w\<lparr>fw_draws := fw_draws w + 1\<rparr>) = (res, w')"
    for what x res w'
    using update_file_edits [of "{token_of env w}" "set_link (token_of env w) x" "w\<lparr>fw_draws := fw_draws w + 1\<rparr>" env what i] that
    by (simp add: edits_draws)
  moreover have "edits T w (w\<lparr>fw_draws := n\<rparr>)" for T n
    by (rule edits_same) simp_all
  ultimately show ?thesis using Some
    by (auto simp: generate_public_link_def live_file_def existing_file_def bind_s_def draw_uuid_def result_simps Let_def token_of_def
        split: prod.splits sum.splits)
qed (simp add: generate_public_link_def live_file_def existing_file_def bind_s_def)

text \<open>Deleting: the row is edited, and a task is queued only for an object without live rows.\<close>

lemma dead_map: "(\<And>x. \<not> live_row (g x)) \<Longrightarrow> \<forall>x \<in> set (map (\<lambda>x. if f_id x = i then g x else x) xs). f_id x = i \<longrightarrow> \<not> live_row x"
  by (induction xs) auto

lemma dead_set: "(\<And>x. live_row (g x) = live_row x) \<Longrightarrow> \<forall>x \<in> set xs. f_id x = i \<longrightarrow> \<not> live_row x \<Longrightarrow>
    \<forall>x \<in> set (map (\<lambda>x. if f_id x = i then g x else x) xs). f_id x = i \<longrightarrow> \<not> live_row x"
  by (induction xs) auto

lemma delete_step:
  "find_file i w = Some r \<Longrightarrow> live_row r \<Longrightarrow> update_file env ''delete file'' i (mark_deleted (fe_now env) u) w = (Inr (), w1) \<Longrightarrow>
    snd (delete_file env i u w) = (if live_refs (f_bucket r) (f_object_key r) w1 = 0
      then snd (spawn_task env \<lparr>pk_file_id = i, pk_bucket = f_bucket r, pk_object_key = f_object_key r\<rparr>
             (set_file_columns i (\<lambda>x. x\<lparr>f_purge_status := ''PENDING''\<rparr>) w1)) else w1)"
  by (simp add: delete_file_def existing_file_def bind_s_def result_simps live_row_def)

lemma delete_cases:
  obtains "snd (delete_file env i u w) = w"
  | w1 where "edits {} w w1" "snd (delete_file env i u w) = w1" "\<forall>x \<in> set (fw_files w1). f_id x = i \<longrightarrow> \<not> live_row x"
  | w1 and r :: file_row and w2 where "edits {} w w1" "edits {} w1 w2" "live_refs (f_bucket r) (f_object_key r) w1 = 0"
      "\<forall>x \<in> set (fw_files w2). f_id x = i \<longrightarrow> \<not> live_row x"
      "snd (delete_file env i u w) = w2 \<or>
       snd (delete_file env i u w) = w2\<lparr>fw_tasks := fw_tasks w2 @ [\<lparr>pk_file_id = i, pk_bucket = f_bucket r, pk_object_key = f_object_key r\<rparr>]\<rparr>"
proof (cases "\<exists>r. find_file i w = Some r \<and> live_row r \<and> fst (update_file env ''delete file'' i (mark_deleted (fe_now env) u) w) = Inr ()")
  case False
  have "snd (update_file env ''delete file'' i (mark_deleted (fe_now env) u) w) = w"
    if "fst (update_file env ''delete file'' i (mark_deleted (fe_now env) u) w) \<noteq> Inr ()"
    using that by (auto simp: update_file_def Let_def split: option.splits if_splits)
  then have "snd (delete_file env i u w) = w" using False
    by (auto simp: delete_file_def existing_file_def bind_s_def result_simps live_row_def split: option.splits prod.splits sum.splits)
  then show ?thesis using that(1) by blast
next
  case True
  then obtain r where r: "find_file i w = Some r" "live_row r"
    and ok: "fst (update_file env ''delete file'' i (mark_deleted (fe_now env) u) w) = Inr ()" by blast
  let ?g = "\<lambda>x. (mark_deleted (fe_now env) u x)\<lparr>f_update_time := fe_now env\<rparr>"
  let ?w1 = "w\<lparr>fw_files := map (\<lambda>x. if f_id x = i then ?g x else x) (fw_files w)\<rparr>"
  let ?w2 = "set_file_columns i (\<lambda>x. x\<lparr>f_purge_status := ''PENDING''\<rparr>) ?w1"
  let ?t = "\<lparr>pk_file_id = i, pk_bucket = f_bucket r, pk_object_key = f_object_key r\<rparr>"
  have w1: "update_file env ''delete file'' i (mark_deleted (fe_now env) u) w = (Inr (), ?w1)"
    using ok by (auto simp: update_file_def Let_def split: option.splits if_splits)
  have e1: "edits {} w ?w1"
    using update_file_edits [of "{}" "mark_deleted (fe_now env) u" w env "''delete file''" i] w1 by simp
  have e2: "edits {} ?w1 ?w2" by (rule set_columns_edits) simp
  have d1: "\<forall>x \<in> set (fw_files ?w1). f_id x = i \<longrightarrow> \<not> live_row x"
    using dead_map [of ?g i "fw_files w"] by (simp add: mark_deleted_def live_row_def del: set_map)
  have d2: "\<forall>x \<in> set (fw_files ?w2). f_id x = i \<longrightarrow> \<not> live_row x"
    using dead_set [OF _ d1, of "\<lambda>x. x\<lparr>f_purge_status := ''PENDING''\<rparr>"] by (simp add: set_file_columns_def live_row_def del: set_map map_map)
  have step: "snd (delete_file env i u w) = (if live_refs (f_bucket r) (f_object_key r) ?w1 = 0 then snd (spawn_task env ?t ?w2) else ?w1)"
    by (rule delete_step [OF r w1])
  show ?thesis
  proof (cases "live_refs (f_bucket r) (f_object_key r) ?w1 = 0")
    case True
    then have "snd (delete_file env i u w) = ?w2 \<or> snd (delete_file env i u w) = ?w2\<lparr>fw_tasks := fw_tasks ?w2 @ [?t]\<rparr>"
      unfolding step by (simp add: spawn_task_def)
    then show ?thesis using that(3) [OF e1 e2 True d2] by blast
  next
    case False
    then have "snd (delete_file env i u w) = ?w1" unfolding step by simp
    then show ?thesis using that(2) [OF e1 _ d1] by blast
  qed
qed

lemma purge_cases:
  obtains "run_purge env k w = w"
  | t w1 where "t \<in> set (fw_tasks w)" "edits {} w1 (run_purge env k w)"
      "w1 = w\<lparr>fw_tasks := take k (fw_tasks w) @ drop (Suc k) (fw_tasks w),
              fw_store := snd (s3_delete (fe_s3 env) (pk_bucket t) (pk_object_key t) (fw_store w))\<rparr>"
proof (cases "length (fw_tasks w) \<le> k")
  case True
  then show ?thesis using that(1) by (simp add: run_purge_def)
next
  case False
  let ?t = "fw_tasks w ! k"
  let ?w1 = "w\<lparr>fw_tasks := take k (fw_tasks w) @ drop (Suc k) (fw_tasks w),
      fw_store := snd (s3_delete (fe_s3 env) (pk_bucket ?t) (pk_object_key ?t) (fw_store w))\<rparr>"
  have "edits {} ?w1 (run_purge env k w)" using False
    by (simp add: run_purge_def Let_def set_columns_edits split: option.split)
  then show ?thesis using that(2) [of ?t ?w1] False by simp
qed

section \<open>Calls\<close>

text \<open>
  Every call that changes something, a step of a worker (\<open>FPurge\<close>), and what clients do at the store with signed
  links (\<open>FClientPut\<close>, \<open>FClientPart\<close>). A call that does not end within the fuel has no next state.
\<close>

datatype file_call =
  FUpload string "string option" string "int option" int
| FBatch "client_file list" "int option" bool int
| FPresign presign_upload_dto int
| FConfirm presign_callback_dto int
| FInit multipart_init_dto int
| FListParts multipart_list_dto
| FComplete multipart_complete_dto int
| FAbort multipart_abort_dto
| FResolve "int option" bool string
| FLink int "int option"
| FRevoke int
| FVisibility int string
| FStatus int string
| FRename int string
| FMove int "int option"
| FDelete int "int option"
| FCreateFolder create_folder_dto
| FUpdateFolder int update_folder_dto
| FDeleteFolder int
| FPurge nat
| FClientPut string string string
| FClientPart string string int string

fun file_step :: "nat \<Rightarrow> 's files_env \<Rightarrow> file_call \<Rightarrow> 's file_world \<Rightarrow> 's file_world option" where
  "file_step fuel env (FUpload name ctype data folder user) w = map_option snd (upload_file fuel env name ctype data folder user w)"
| "file_step fuel env (FBatch files folder keep user) w = map_option snd (batch_upload fuel env files folder keep user w)"
| "file_step fuel env (FPresign d user) w = Some (snd (generate_presigned_upload env d user w))"
| "file_step fuel env (FConfirm d user) w = Some (snd (confirm_presigned_upload env d user w))"
| "file_step fuel env (FInit d user) w = Some (snd (init_multipart_upload env d user w))"
| "file_step fuel env (FListParts d) w = map_option snd (list_uploaded_parts fuel env d w)"
| "file_step fuel env (FComplete d user) w = map_option snd (complete_multipart_upload fuel env d user w)"
| "file_step fuel env (FAbort d) w = Some (snd (abort_multipart_upload env d w))"
| "file_step fuel env (FResolve folder keep name) w = Some (snd (resolve_upload_target env folder keep name w))"
| "file_step fuel env (FLink i e) w = Some (snd (generate_public_link env i e w))"
| "file_step fuel env (FRevoke i) w = Some (snd (revoke_public_link env i w))"
| "file_step fuel env (FVisibility i v) w = Some (snd (update_visibility env i v w))"
| "file_step fuel env (FStatus i v) w = Some (snd (update_status env i v w))"
| "file_step fuel env (FRename i n) w = Some (snd (update_display_name env i n w))"
| "file_step fuel env (FMove i d) w = Some (snd (move_file env i d w))"
| "file_step fuel env (FDelete i u) w = Some (snd (delete_file env i u w))"
| "file_step fuel env (FCreateFolder d) w = Some (snd (create_folder env d w))"
| "file_step fuel env (FUpdateFolder i d) w = Some (snd (update_folder env i d w))"
| "file_step fuel env (FDeleteFolder i) w = Some (snd (delete_folder i w))"
| "file_step fuel env (FPurge k) w = Some (run_purge env k w)"
| "file_step fuel env (FClientPut key data mime) w = Some (snd (on_store (s3_put (fe_s3 env) (fe_bucket env) key data mime) w))"
| "file_step fuel env (FClientPart key upload_id n data) w =
     Some (snd (on_store (s3_upload_part (fe_s3 env) (fe_bucket env) key upload_id n data) w))"

lemma folder_calls_grow:
  "grows s3 w (snd (create_folder env d w))" "grows s3 w (snd (update_folder env i e w))" "grows s3 w (snd (delete_folder i w))"
proof -
  have ins: "grower s3 (insert_folder env what row)" "grower s3 (update_folder_row env what j f)" for what row j f
    using folder_world surjective_pairing unfolding grower_def by metis+
  have slug: "grower s3 (ensure_slug_unique p s x)" for p s x by (simp add: grower_def ensure_slug_unique_def)
  have found: "grower s3 (existing_folder j)" for j by (simp add: grower_def existing_folder_def split: option.splits)
  show "grows s3 w (snd (create_folder env d w))" unfolding create_folder_def by (rule growerD) (intro bind_grower slug ins ret_grower)
  show "grows s3 w (snd (update_folder env i e w))" unfolding update_folder_def
    by (rule growerD, intro bind_grower found) (simp_all add: slug ins split: option.split, simp add: grower_def)
  have "grower s3 (\<lambda>w. if list_ex (\<lambda>r. fo_parent_id r = i) (fw_folders w) then (Inl (BadRequest (Text ''folder has subfolders'')), w)
      else if folder_file_count i w > 0 then (Inl (BadRequest (Text ''folder has files'')), w)
      else (Inr (), w\<lparr>fw_folders := filter (\<lambda>r. fo_id r \<noteq> i) (fw_folders w)\<rparr>))"
    by (auto simp: grower_def intro!: grows_same)
  then show "grows s3 w (snd (delete_folder i w))" unfolding delete_folder_def by (intro growerD bind_grower found)
qed

text \<open>What a step does: it grows the world, edits rows, marks a row deleted, or removes a queued object.\<close>

definition step_tokens :: "'s files_env \<Rightarrow> file_call \<Rightarrow> 's file_world \<Rightarrow> string set" where
  "step_tokens env c w = (case c of FLink _ _ \<Rightarrow> {token_of env w} | _ \<Rightarrow> {})"

lemma run_world: "grower_run s3 m \<Longrightarrow> map_option snd (m w) = Some w' \<Longrightarrow> grows s3 w w'"
  by (auto simp: grower_run_def)

lemma file_step_cases:
  assumes step: "file_step fuel env c w = Some w'" and laws: "s3_obeys s3 env" and ok: "rows_backed s3 w"
  obtains "grows s3 w w'" | "edits (step_tokens env c w) w w'" | i u where "w' = snd (delete_file env i u w)"
    | k where "w' = run_purge env k w"
proof (cases c)
  case (FLink i e)
  show ?thesis by (rule that(2)) (use step FLink link_edits [of env w i e] in \<open>simp add: step_tokens_def\<close>)
next
  case (FBatch files folder keep user)
  show ?thesis by (rule that(1)) (use step FBatch run_world [OF batch_grower [OF laws]] in simp)
next
  case (FUpload name ctype data folder user)
  show ?thesis by (rule that(1)) (use step FUpload run_world [OF upload_grower [OF laws]] in simp)
next
  case (FListParts d)
  show ?thesis by (rule that(1)) (use step FListParts run_world [OF list_parts_grower [OF laws]] in simp)
next
  case (FComplete d user)
  show ?thesis by (rule that(1)) (use step FComplete run_world [OF complete_upload_grower [OF laws]] in simp)
next
  case (FClientPut key data mime)
  show ?thesis by (rule that(1)) (use step FClientPut growerD [OF on_store_grower [OF obeysD(2) [OF laws]]] in auto)
next
  case (FClientPart key upload_id n data)
  show ?thesis by (rule that(1)) (use step FClientPart growerD [OF on_store_grower [OF obeysD(4) [OF laws]]] in auto)
next
  case (FPresign d user)
  show ?thesis by (rule that(1)) (use step FPresign presigned_upload_grows [OF laws ok] in auto)
next
  case (FConfirm d user)
  show ?thesis by (rule that(1)) (use step FConfirm confirm_grows [OF laws] in auto)
next
  case (FInit d user)
  show ?thesis by (rule that(1)) (use step FInit init_multipart_grows [OF laws ok] in auto)
next
  case (FAbort d)
  show ?thesis by (rule that(1)) (use step FAbort growerD [OF abort_grower [OF laws]] in auto)
next
  case (FResolve folder keep name)
  show ?thesis by (rule that(1)) (use step FResolve growerD [OF resolve_grower] in auto)
next
  case (FRevoke i)
  show ?thesis by (rule that(2)) (use step FRevoke one_row_edits(1) in auto)
next
  case (FVisibility i v)
  show ?thesis by (rule that(2)) (use step FVisibility one_row_edits(2) in auto)
next
  case (FStatus i v)
  show ?thesis by (rule that(2)) (use step FStatus one_row_edits(3) in auto)
next
  case (FRename i v)
  show ?thesis by (rule that(2)) (use step FRename one_row_edits(4) in auto)
next
  case (FMove i v)
  show ?thesis by (rule that(2)) (use step FMove one_row_edits(5) in auto)
next
  case (FDelete i u)
  show ?thesis by (rule that(3) [of i u]) (use step FDelete in auto)
next
  case (FCreateFolder d)
  show ?thesis by (rule that(1)) (use step FCreateFolder folder_calls_grow(1) in auto)
next
  case (FUpdateFolder i d)
  show ?thesis by (rule that(1)) (use step FUpdateFolder folder_calls_grow(2) in auto)
next
  case (FDeleteFolder i)
  show ?thesis by (rule that(1)) (use step FDeleteFolder folder_calls_grow(3) in auto)
next
  case (FPurge k)
  show ?thesis by (rule that(4) [of k]) (use step FPurge in auto)
qed

section \<open>Withdrawn links\<close>

definition dead_link :: "string \<Rightarrow> 's file_world \<Rightarrow> bool" where
  "dead_link token w \<longleftrightarrow> (\<forall>r \<in> set (fw_files w). f_public_token r = Some token \<longrightarrow> \<not> live_row r)"

lemma dead_grows: "grows s3 w w' \<Longrightarrow> dead_link t w \<Longrightarrow> dead_link t w'"
  by (erule growsE) (auto simp: dead_link_def)

lemma dead_edits: "edits T w w' \<Longrightarrow> t \<notin> T \<Longrightarrow> dead_link t w \<Longrightarrow> dead_link t w'"
  unfolding dead_link_def using edits_row by metis

lemma dead_delete: "dead_link t w \<Longrightarrow> dead_link t (snd (delete_file env i u w))"
proof (cases rule: delete_cases [of env i u w])
  case (3 w1 r w2)
  assume "dead_link t w"
  then have "dead_link t w2" using 3(1,2) dead_edits by blast
  then show ?thesis using 3(5) by (auto simp: dead_link_def)
qed (auto dest: dead_edits)

lemma dead_purge: "dead_link t w \<Longrightarrow> dead_link t (run_purge env k w)"
proof (cases rule: purge_cases [of env k w])
  case (2 q w1)
  assume "dead_link t w"
  then have "dead_link t w1" using 2(3) by (simp add: dead_link_def)
  then show ?thesis using dead_edits [OF 2(2)] by simp
qed simp

text \<open>A step keeps a link withdrawn unless it draws that very token again.\<close>

lemma dead_step:
  assumes step: "file_step fuel env c w = Some w'" and dead: "dead_link t w" and fresh: "t \<notin> step_tokens env c w"
  shows "dead_link t w'"
proof (rule file_step_cases [OF step all_obey [of undefined]])
  show "rows_backed (finds_all undefined) w" by (simp add: rows_backed_def backed_row_def)
qed (use dead fresh in \<open>auto intro: dead_grows dead_edits dead_delete dead_purge\<close>)

inductive file_calls_run :: "nat \<Rightarrow> string set \<Rightarrow> 's file_world \<Rightarrow> 's file_world \<Rightarrow> bool" where
  run_nil: "file_calls_run fuel tokens w w"
| run_call: "file_calls_run fuel tokens w w1 \<Longrightarrow> file_step fuel env c w1 = Some w2 \<Longrightarrow> step_tokens env c w1 \<inter> tokens = {} \<Longrightarrow>
    file_calls_run fuel tokens w w2"

lemma dead_run: "file_calls_run fuel tokens w w' \<Longrightarrow> dead_link t w \<Longrightarrow> t \<in> tokens \<Longrightarrow> dead_link t w'"
  by (induction rule: file_calls_run.induct) (auto intro: dead_step)

section \<open>Objects of live rows\<close>

definition same_object :: "file_row \<Rightarrow> purge_task \<Rightarrow> bool" where
  "same_object r t \<longleftrightarrow> f_bucket r = pk_bucket t \<and> f_object_key r = pk_object_key t"

definition backed :: "'s s3_ops \<Rightarrow> 's file_world \<Rightarrow> bool" where
  "backed s3 w \<longleftrightarrow> rows_backed s3 w \<and>
     (\<forall>t \<in> set (fw_tasks w). \<forall>r \<in> set (fw_files w). live_row r \<longrightarrow> \<not> same_object r t) \<and>
     (\<forall>r \<in> set (fw_files w). f_id r < fw_file_next w)"

text \<open>A new live row has an object that already had one, or one that is not queued for removal.\<close>

definition unqueued :: "'s file_world \<Rightarrow> 's file_world \<Rightarrow> bool" where
  "unqueued w w' \<longleftrightarrow>
     (\<forall>r \<in> set (fw_files w'). live_row r \<and> f_id r \<notin> f_id ` set (fw_files w) \<longrightarrow>
        (\<exists>x \<in> set (fw_files w). live_row x \<and> f_bucket x = f_bucket r \<and> f_object_key x = f_object_key r) \<or>
        (\<forall>t \<in> set (fw_tasks w). \<not> same_object r t))"

lemma backed_grows:
  assumes g: "grows s3 w w'" and ok: "backed s3 w" and new: "unqueued w w'"
  shows "backed s3 w'"
  using g
proof (rule growsE)
  fix rs assume rs: "fw_files w' = fw_files w @ rs"
    "\<forall>r \<in> set rs. live_row r \<and> f_public_token r = None \<and> backed_row s3 w' r \<and> fw_file_next w \<le> f_id r \<and> f_id r < fw_file_next w'"
    and tasks: "fw_tasks w' = fw_tasks w" and nxt: "fw_file_next w \<le> fw_file_next w'"
  have rows: "rows_backed s3 w'" using grows_backed [OF g] ok by (simp add: backed_def)
  have ids: "\<forall>r \<in> set (fw_files w'). f_id r < fw_file_next w'" using rs ok nxt by (fastforce simp: backed_def)
  have "\<not> same_object r t" if t: "t \<in> set (fw_tasks w')" and r: "r \<in> set (fw_files w')" "live_row r" for t r
  proof (cases "r \<in> set (fw_files w)")
    case True
    then show ?thesis using ok t tasks r(2) by (auto simp: backed_def)
  next
    case False
    then have q: "r \<in> set rs" using r(1) rs(1) by simp
    then have "f_id r \<notin> f_id ` set (fw_files w)" using bspec [OF rs(2) q] ok by (fastforce simp: backed_def)
    then consider x where "x \<in> set (fw_files w)" "live_row x" "f_bucket x = f_bucket r" "f_object_key x = f_object_key r"
      | "\<forall>t \<in> set (fw_tasks w). \<not> same_object r t" using new r unfolding unqueued_def by blast
    then show ?thesis
    proof cases
      case 1
      then have "\<not> same_object x t" using ok t tasks by (auto simp: backed_def)
      then show ?thesis using 1 by (simp add: same_object_def)
    qed (use t tasks in simp)
  qed
  then show ?thesis using rows ids by (simp add: backed_def)
qed

lemma backed_edits:
  assumes "edits T w w'" "backed s3 w"
  shows "backed s3 w'"
proof -
  have e: "fw_tasks w' = fw_tasks w" "fw_store w' = fw_store w" "fw_file_next w' = fw_file_next w" using assms(1) by (auto simp: edits_def)
  have row: "\<exists>x \<in> set (fw_files w). f_id r = f_id x \<and> f_bucket r = f_bucket x \<and> f_object_key r = f_object_key x \<and> (live_row r \<longrightarrow> live_row x)"
    if r: "r \<in> set (fw_files w')" for r using edits_row [OF assms(1) r] by blast
  have "rows_backed s3 w'" unfolding rows_backed_def backed_row_def e(2)
  proof (intro ballI impI)
    fix r assume "r \<in> set (fw_files w')" "live_row r"
    then obtain x where "x \<in> set (fw_files w)" "live_row x" "f_bucket r = f_bucket x" "f_object_key r = f_object_key x" using row [of r] by blast
    then show "alive s3 (fw_store w) (f_bucket r) (f_object_key r)" using assms(2) by (simp add: backed_def rows_backed_def backed_row_def)
  qed
  moreover have "\<not> same_object r t" if t: "t \<in> set (fw_tasks w')" and r: "r \<in> set (fw_files w')" "live_row r" for t r
  proof -
    obtain x where "x \<in> set (fw_files w)" "live_row x" "f_bucket r = f_bucket x" "f_object_key r = f_object_key x"
      using row [OF r(1)] r(2) by blast
    then show ?thesis using assms(2) t e(1) by (auto simp: backed_def same_object_def)
  qed
  moreover have "f_id r < fw_file_next w'" if r: "r \<in> set (fw_files w')" for r
    using row [OF r] assms(2) e(3) by (auto simp: backed_def)
  ultimately show ?thesis by (simp add: backed_def)
qed

lemma backed_delete:
  assumes "backed s3 w"
  shows "backed s3 (snd (delete_file env i u w))"
proof (cases rule: delete_cases [of env i u w])
  case (2 w1)
  then show ?thesis using backed_edits assms by metis
next
  case (3 w1 r w2)
  have ok2: "backed s3 w2" using backed_edits 3(1,2) assms by blast
  let ?t = "\<lparr>pk_file_id = i, pk_bucket = f_bucket r, pk_object_key = f_object_key r\<rparr>"
  have none: "\<not> same_object x ?t" if x: "x \<in> set (fw_files w2)" "live_row x" for x
  proof -
    obtain y where "y \<in> set (fw_files w1)" "live_row y" "f_bucket x = f_bucket y" "f_object_key x = f_object_key y"
      using edits_row [OF 3(2) x(1)] x(2) by blast
    then show ?thesis using 3(3) by (auto simp: live_refs_def filter_empty_conv same_object_def live_row_def)
  qed
  have "backed s3 (w2\<lparr>fw_tasks := fw_tasks w2 @ [?t]\<rparr>)"
    using ok2 none by (auto simp: backed_def rows_backed_def backed_row_def)
  then show ?thesis using 3(5) ok2 by auto
qed (use assms in simp)

lemma backed_purge:
  assumes laws: "s3_laws (fe_s3 env)" and ok: "backed (fe_s3 env) w"
  shows "backed (fe_s3 env) (run_purge env k w)"
proof (cases rule: purge_cases [of env k w])
  case (2 t w1)
  have "alive (fe_s3 env) (fw_store w1) (f_bucket r) (f_object_key r)" if r: "r \<in> set (fw_files w)" "live_row r" for r
  proof -
    have "\<not> same_object r t" "alive (fe_s3 env) (fw_store w) (f_bucket r) (f_object_key r)"
      using ok r 2(1) by (auto simp: backed_def rows_backed_def backed_row_def)
    then show ?thesis using s3_lawsD(7) [OF laws] 2(3) by (simp add: same_object_def)
  qed
  moreover have "set (fw_tasks w1) \<subseteq> set (fw_tasks w)"
    using 2(3) set_take_subset [of k "fw_tasks w"] set_drop_subset [of "Suc k" "fw_tasks w"] by auto
  ultimately have "backed (fe_s3 env) w1" using ok 2(3) by (auto simp: backed_def rows_backed_def backed_row_def)
  then show ?thesis using backed_edits [OF 2(2)] by simp
qed (use ok in simp)

inductive careful_run :: "nat \<Rightarrow> 's s3_ops \<Rightarrow> 's file_world \<Rightarrow> 's file_world \<Rightarrow> bool" where
  careful_nil: "careful_run fuel s3 w w"
| careful_call: "careful_run fuel s3 w w1 \<Longrightarrow> fe_s3 env = s3 \<Longrightarrow> file_step fuel env c w1 = Some w2 \<Longrightarrow> unqueued w1 w2 \<Longrightarrow>
    careful_run fuel s3 w w2"

lemma careful_backed: "careful_run fuel s3 w w' \<Longrightarrow> s3_laws s3 \<Longrightarrow> backed s3 w \<Longrightarrow> backed s3 w'"
proof (induction rule: careful_run.induct)
  case (careful_call fuel s3 w w1 env c w2)
  have s3: "fe_s3 env = s3" "s3_laws (fe_s3 env)" "backed s3 w1" using careful_call by simp_all
  have laws: "s3_obeys s3 env" using laws_obey [OF s3(2)] s3(1) by simp
  have rows: "rows_backed s3 w1" using s3(3) by (simp add: backed_def)
  show ?case
  proof (rule file_step_cases [OF careful_call(3) laws rows])
    show "grows s3 w1 w2 \<Longrightarrow> backed s3 w2" using backed_grows s3(3) careful_call(4) by blast
    show "edits (step_tokens env c w1) w1 w2 \<Longrightarrow> backed s3 w2" using backed_edits s3(3) by blast
    show "w2 = snd (delete_file env i u w1) \<Longrightarrow> backed s3 w2" for i u using backed_delete s3(3) by blast
    show "w2 = run_purge env k w1 \<Longrightarrow> backed s3 w2" for k using backed_purge [OF s3(2)] s3 by simp
  qed
qed

end
