(* ===== verification/File_Samples.thy ===== *)
theory File_Samples
  imports File_Runs
begin

text \<open>
  One file of three bytes in a store that keeps objects and parts in lists, on which the properties of the file
  centre are instantiated.
\<close>

type_synonym sample_store = "((string \<times> string) \<times> string) list \<times> (int \<times> string) list"

definition sample_head :: "sample_store \<Rightarrow> string \<Rightarrow> string \<Rightarrow> object_head option" where
  "sample_head st b k =
     map_option (\<lambda>data. \<lparr>oh_e_tag = Some ''t'', oh_content_length = Some (int (length data)), oh_content_type = None\<rparr>)
       (map_of (fst st) (b, k))"

definition sample_s3 :: "sample_store s3_ops" where
  "sample_s3 =
     \<lparr>s3_head_bucket = \<lambda>_ _. True, s3_create_bucket = \<lambda>_ st. st,
      s3_put = \<lambda>b k data _ st. (True, ((b, k), data) # fst st, snd st),
      s3_head = sample_head,
      s3_get = \<lambda>st b k. map_of (fst st) (b, k),
      s3_delete = \<lambda>b k st. (None, filter (\<lambda>x. fst x \<noteq> (b, k)) (fst st), snd st),
      s3_create_multipart = \<lambda>_ _ _ st. (Some (Some ''u''), st),
      s3_upload_part = \<lambda>_ _ _ n data st. (Some (Some ''t''), fst st, snd st @ [(n, data)]),
      s3_complete = \<lambda>b k _ _ st. (True, ((b, k), concat (map snd (snd st))) # fst st, []),
      s3_abort = \<lambda>_ _ _ st. (True, fst st, []),
      s3_list_parts = \<lambda>st _ _ _ _. Some
        \<lparr>pp_parts = map (\<lambda>(n, data). (Some n, Some ''t'', Some (int (length data)))) (snd st), pp_is_truncated = Some False,
         pp_next_marker = None\<rparr>,
      s3_presign_get = \<lambda>_ b k. Some (b @ ''/'' @ k),
      s3_presign_put = \<lambda>_ b k _. Some (b @ ''/'' @ k),
      s3_presign_part = \<lambda>_ b k _ _. Some (b @ ''/'' @ k)\<rparr>"

definition sample_files_env :: "sample_store files_env" where
  "sample_files_env =
     \<lparr>fe_s3 = sample_s3, fe_bucket = ''b'', fe_max_file_size = 100, fe_allowed_extensions = [''txt''], fe_presign_expiry = 60,
      fe_multipart_threshold = 5, fe_chunk_size = 2, fe_now = 1, fe_min_time = -100, fe_max_time = 100, fe_fmt = \<lambda>_. ''1'',
      fe_uuid = \<lambda>n. replicate (n + 1) CHR ''u'', fe_lower = \<lambda>s. s, fe_md5 = \<lambda>data. CHR ''h'' # data,
      fe_mime_of_suffix = \<lambda>_. ''text/plain'', fe_accepts_file = \<lambda>_. True, fe_accepts_folder = \<lambda>_. True, fe_task_capacity = 4\<rparr>"

definition sample_file :: file_row where
  "sample_file = (new_file ''F1'' ''S3'' ''b'' ''k'' ''t'' ''a.txt'' ''txt'' ''text/plain'' 3 ''habc'' None 7)
     \<lparr>f_id := 1, f_public_token := Some ''p'', f_visibility := ''PUBLIC''\<rparr>"

definition sample_file_world :: "sample_store file_world" where
  "sample_file_world =
     \<lparr>fw_files = [sample_file], fw_folders = [], fw_file_next = 2, fw_folder_next = 1, fw_tasks = [], fw_draws = 0,
      fw_store = ([((''b'', ''k''), ''abc'')], [])\<rparr>"

lemmas sample_file_defs = sample_file_world_def sample_file_def sample_files_env_def sample_s3_def sample_head_def new_file_def

lemma map_of_filter_key: "k' \<noteq> k \<Longrightarrow> map_of (filter (\<lambda>x. fst x \<noteq> k) xs) k' = map_of xs k'"
  by (induction xs) auto

lemma sample_s3_laws: "s3_laws sample_s3"
proof -
  have "map_of (filter (\<lambda>x. fst x \<noteq> (b, k)) xs) (b', k') = map_of xs (b', k')" if "(b', k') \<noteq> (b, k)"
    for b k b' k' and xs :: "((string \<times> string) \<times> string) list"
    using map_of_filter_key [OF that] .
  then show ?thesis by (simp add: s3_laws_def keeps_objects_def alive_def sample_s3_def sample_head_def)
qed

text \<open>The same world after its file was deleted, the removal of the object still queued.\<close>

definition sample_deleted :: "sample_store file_world" where
  "sample_deleted = snd (delete_file sample_files_env 1 (Some 7) sample_file_world)"

text \<open>The same world after a client confirmed the object under the hash of other data of the same length.\<close>

definition sample_claim :: presign_callback_dto where
  "sample_claim = \<lparr>pc_object_key = ''k'', pc_original_name = ''b.txt'', pc_file_size = 3, pc_file_md5 = Some ''hxyz''\<rparr>"

definition sample_claimed :: "sample_store file_world" where
  "sample_claimed = snd (confirm_presigned_upload sample_files_env sample_claim 8 sample_file_world)"

text \<open>A call that returned, with its result.\<close>

definition returned :: "(api_errors + 'a) \<times> 's file_world \<Rightarrow> bool" where
  "returned p = (case fst p of Inr v \<Rightarrow> True | Inl e \<Rightarrow> False)"

lemma returnedE: "returned p \<Longrightarrow> \<exists>v. p = (Inr v, snd p)"
  by (cases p) (auto simp: returned_def split: sum.splits)

definition returned_run :: "((api_errors + 'a) \<times> 's file_world) option \<Rightarrow> bool" where
  "returned_run m = (case m of Some p \<Rightarrow> returned p | None \<Rightarrow> False)"

lemma returned_runE: "returned_run m \<Longrightarrow> \<exists>v w. m = Some (Inr v, w)"
  by (auto simp: returned_run_def returned_def split: option.splits sum.splits)

end
