(* ===== verification/Folder_Properties.thy ===== *)
theory Folder_Properties
  imports File_Samples
begin

text \<open>
  Properties of folders: the names taken from client paths, the folders below a folder, the counts that the tree
  shows, and the folders made for an upload with a path.
\<close>

section \<open>Names\<close>

lemma basename_error: "extract_upload_basename f = Inl e \<Longrightarrow> \<exists>m. e = BadRequest m"
  unfolding extract_upload_basename_def Let_def by (simp split: if_splits) blast+

lemma segment_error: "sanitize_folder_segment s = Inl e \<Longrightarrow> \<exists>m. e = BadRequest m"
  unfolding sanitize_folder_segment_def Let_def by (simp split: if_splits) blast+

lemma collect_error: "collect_dirs ss = Inl e \<Longrightarrow> \<exists>m. e = BadRequest m"
proof (induction ss)
  case (Cons s ss)
  show ?case
  proof (cases "collect_dirs ss")
    case (Inl e')
    then show ?thesis using Cons by (simp add: Let_def bind_r_def split: if_splits) blast+
  next
    case (Inr ds)
    then show ?thesis using Cons by (simp add: Let_def bind_r_def split: if_splits) blast+
  qed
qed simp

lemma dirs_error: "parse_relative_dirs f = Inl e \<Longrightarrow> \<exists>m. e = BadRequest m"
  unfolding parse_relative_dirs_def Let_def by (simp split: if_splits) (erule collect_error)

text \<open>
  C38. Whatever a client sends as the name of a file, the base name and the directories taken from it are neither
  empty nor dots and contain no slash of either kind, and a slug made from any segment is not empty and has no slash.
\<close>

theorem client_path_names:
  "(case extract_upload_basename f of Inr n \<Rightarrow> plain_name n | Inl e \<Rightarrow> \<exists>m. e = BadRequest m) \<and>
   (case parse_relative_dirs f of Inr ds \<Rightarrow> list_all plain_name ds | Inl e \<Rightarrow> \<exists>m. e = BadRequest m) \<and>
   (case sanitize_folder_segment s of Inr (nm, slug) \<Rightarrow> slug \<noteq> [] \<and> list_all (\<lambda>c. \<not> is_slash c) slug | Inl e \<Rightarrow> \<exists>m. e = BadRequest m)"
proof (intro conjI)
  show "case extract_upload_basename f of Inr n \<Rightarrow> plain_name n | Inl e \<Rightarrow> \<exists>m. e = BadRequest m"
    using basename_plain [of f] basename_error [of f] by (simp split: sum.splits)
  show "case parse_relative_dirs f of Inr ds \<Rightarrow> list_all plain_name ds | Inl e \<Rightarrow> \<exists>m. e = BadRequest m"
    using parse_dirs_plain [of f] dirs_error [of f] by (simp add: list_all_iff split: sum.splits)
  show "case sanitize_folder_segment s of Inr (nm, slug) \<Rightarrow> slug \<noteq> [] \<and> list_all (\<lambda>c. \<not> is_slash c) slug
      | Inl e \<Rightarrow> \<exists>m. e = BadRequest m"
    using sanitized_slug_plain [of s] segment_error [of s] by (auto simp: list_all_iff split: sum.splits prod.splits)
qed

section \<open>The folders below a folder\<close>

definition folder_child :: "(int \<times> int) list \<Rightarrow> (int \<times> int) set" where
  "folder_child rows = {(p, c). (c, p) \<in> set rows}"

lemma children_of_set: "set (children_of rows i) = folder_child rows `` {i}"
  by (force simp: children_of_def folder_child_def)

lemma subtree_loop_result:
  assumes "set out = visited" "distinct out" "\<forall>v \<in> visited. set (children_of rows v) \<subseteq> visited \<union> set stack"
  shows "distinct (subtree_loop rows stack visited out) \<and> visited \<union> set stack \<subseteq> set (subtree_loop rows stack visited out) \<and>
    (\<forall>v \<in> set (subtree_loop rows stack visited out). set (children_of rows v) \<subseteq> set (subtree_loop rows stack visited out)) \<and>
    set (subtree_loop rows stack visited out) \<subseteq> (folder_child rows)\<^sup>* `` (visited \<union> set stack)"
  using assms
proof (induction rows stack visited out rule: subtree_loop.induct)
  case (1 rows visited out)
  then show ?case by auto
next
  case (2 rows i stack visited out)
  show ?case
  proof (cases "i \<in> visited")
    case True
    have "\<forall>v \<in> visited. set (children_of rows v) \<subseteq> visited \<union> set stack" using 2(5) True by auto
    moreover have "visited \<union> set (i # stack) = visited \<union> set stack" using True by auto
    ultimately show ?thesis using 2(1) [OF True 2(3,4)] True by simp
  next
    case False
    let ?s = "rev (children_of rows i) @ stack"
    let ?r = "subtree_loop rows ?s (insert i visited) (out @ [i])"
    have "distinct ?r \<and> insert i visited \<union> set ?s \<subseteq> set ?r \<and> (\<forall>v \<in> set ?r. set (children_of rows v) \<subseteq> set ?r) \<and>
        set ?r \<subseteq> (folder_child rows)\<^sup>* `` (insert i visited \<union> set ?s)"
      by (rule 2(2) [OF False]) (use 2(3-5) False in auto)
    moreover have "(folder_child rows)\<^sup>* `` (insert i visited \<union> set ?s) \<subseteq> (folder_child rows)\<^sup>* `` (visited \<union> set (i # stack))"
      using children_of_set [of rows i] by (auto intro: converse_rtrancl_into_rtrancl)
    ultimately show ?thesis using False by auto
  qed
qed

lemma subtree_folder_ids_spec:
  "distinct (subtree_folder_ids root w) \<and> set (subtree_folder_ids root w) = (folder_child (folder_edges w))\<^sup>* `` {root}"
proof -
  let ?r = "subtree_folder_ids root w"
  note r = subtree_loop_result [of "[]" "{}" "folder_edges w" "[root]", folded subtree_folder_ids_def, simplified]
  have "i \<in> set ?r" if "(root, i) \<in> (folder_child (folder_edges w))\<^sup>*" for i
    using that by (induction rule: rtrancl_induct) (use r children_of_set in auto)
  then show ?thesis using r by auto
qed

text \<open>
  Choosing a folder in a list of files shows the files of that folder and of all folders below it, however deep
  and even if parents form a circle, and no others.
\<close>

theorem folder_filter_spec:
  "list_condition contains q w r \<longleftrightarrow> file_query_matches contains (q\<lparr>fq_folder_id := None\<rparr>) r \<and>
     (case fq_folder_id q of None \<Rightarrow> True
      | Some root \<Rightarrow> (\<exists>i. f_folder_id r = Some i \<and> (root, i) \<in> {(p, c). \<exists>f \<in> set (fw_folders w). fo_parent_id f = p \<and> fo_id f = c}\<^sup>*))"
proof -
  have "folder_child (folder_edges w) = {(p, c). \<exists>f \<in> set (fw_folders w). fo_parent_id f = p \<and> fo_id f = c}"
    by (auto simp: folder_child_def folder_edges_def)
  then have ids: "set (subtree_folder_ids root w) = {(p, c). \<exists>f \<in> set (fw_folders w). fo_parent_id f = p \<and> fo_id f = c}\<^sup>* `` {root}" for root
    using subtree_folder_ids_spec [of root w] by simp
  show ?thesis unfolding list_condition_def when_given_def ids by (cases "fq_folder_id q") auto
qed

section \<open>The folder tree\<close>

text \<open>The map with the entries of some keys taken out.\<close>

definition taken :: "(int \<Rightarrow> tree_folder list) \<Rightarrow> int set \<Rightarrow> int \<Rightarrow> tree_folder list" where
  "taken m v = (\<lambda>p. if p \<in> v then [] else m p)"

definition kids :: "(int \<Rightarrow> tree_folder list) \<Rightarrow> int \<Rightarrow> int list" where
  "kids m p = map tf_id (m p)"

lemma taken_insert: "(taken m v)(p := []) = taken m (insert p v)"
  by (auto simp: taken_def)

fun tree_ids :: "folder_tree \<Rightarrow> int list" where
  "tree_ids (FolderTree n cs) = tf_id n # concat (map tree_ids cs)"

fun tree_nodes :: "folder_tree \<Rightarrow> folder_tree set" where
  "tree_nodes (FolderTree n cs) = insert (FolderTree n cs) (\<Union>c \<in> set cs. tree_nodes c)"

text \<open>
  A tree over a map: below every node are the entries of its key, and its count is its own and those below. The
  counts of single folders are given by a function.
\<close>

definition node_ok :: "(int \<Rightarrow> tree_folder list) \<Rightarrow> (int \<Rightarrow> int) \<Rightarrow> folder_tree \<Rightarrow> bool" where
  "node_ok m own t \<longleftrightarrow> map (\<lambda>c. tf_id (ft_node c)) (ft_children t) = kids m (tf_id (ft_node t)) \<and>
     tf_file_count (ft_node t) = own (tf_id (ft_node t)) + sum_list (map (\<lambda>c. tf_file_count (ft_node c)) (ft_children t))"

definition forest_ids :: "folder_tree list \<Rightarrow> int set" where
  "forest_ids ts = (\<Union>t \<in> set ts. set (tree_ids t))"

text \<open>Every key has one parent at most, and none has the root's.\<close>

definition one_parent :: "(int \<Rightarrow> tree_folder list) \<Rightarrow> bool" where
  "one_parent m \<longleftrightarrow> (\<forall>a b x. x \<in> set (kids m a) \<longrightarrow> x \<in> set (kids m b) \<longrightarrow> a = b) \<and> (\<forall>a. distinct (kids m a)) \<and> (\<forall>a. 0 \<notin> set (kids m a))"

definition upward :: "(int \<Rightarrow> tree_folder list) \<Rightarrow> int set \<Rightarrow> bool" where
  "upward m v \<longleftrightarrow> (\<forall>x \<in> v. x = 0 \<or> (\<exists>a \<in> v. x \<in> set (kids m a)))"

text \<open>What building below a key, or for a list of entries, makes of the map without the keys in a set.\<close>

definition parents_in :: "(int \<Rightarrow> tree_folder list) \<Rightarrow> int set \<Rightarrow> int set \<Rightarrow> bool" where
  "parents_in m a x \<longleftrightarrow> (\<forall>i \<in> x. \<exists>p \<in> a. i \<in> set (kids m p))"

definition forest_ok :: "(int \<Rightarrow> tree_folder list) \<Rightarrow> (int \<Rightarrow> int) \<Rightarrow> folder_tree list \<Rightarrow> bool" where
  "forest_ok m own ts \<longleftrightarrow> distinct (concat (map tree_ids ts)) \<and> (\<forall>t \<in> set ts. \<forall>u \<in> tree_nodes t. node_ok m own u)"

definition tree_result where
  "tree_result m own v p ts m' \<longleftrightarrow> m' = taken m (insert p (v \<union> forest_ids ts)) \<and> insert p v \<inter> forest_ids ts = {} \<and>
     parents_in m (insert p (forest_ids ts)) (forest_ids ts) \<and> map (\<lambda>c. tf_id (ft_node c)) ts = kids m p \<and> forest_ok m own ts"

definition children_result where
  "children_result m own v cs ts m' \<longleftrightarrow> m' = taken m (v \<union> forest_ids ts) \<and> v \<inter> forest_ids ts = {} \<and>
     parents_in m (forest_ids ts) (forest_ids ts - tf_id ` set cs) \<and> map (\<lambda>c. tf_id (ft_node c)) ts = map tf_id cs \<and> forest_ok m own ts"

lemma forest_ids_simps [simp]:
  "forest_ids [] = {}" "forest_ids (FolderTree n bs # ts) = insert (tf_id n) (forest_ids bs \<union> forest_ids ts)"
  by (auto simp: forest_ids_def)

lemma forest_set: "set (concat (map tree_ids ts)) = forest_ids ts"
  by (simp add: forest_ids_def)

lemma one_parentD: "one_parent m \<Longrightarrow> x \<in> set (kids m a) \<Longrightarrow> x \<in> set (kids m b) \<Longrightarrow> a = b"
  "one_parent m \<Longrightarrow> distinct (kids m a)" "one_parent m \<Longrightarrow> x \<in> set (kids m a) \<Longrightarrow> x \<noteq> 0"
  by (auto simp: one_parent_def)

lemma children_step:
  assumes one: "one_parent m" and own: "\<And>a c. c \<in> set (m a) \<Longrightarrow> tf_file_count c = own (tf_id c)"
    and tree: "\<And>v p ts m'. build_tree n (taken m v) p = Some (ts, m') \<Longrightarrow> upward m v \<Longrightarrow> p \<notin> v \<Longrightarrow> \<exists>a \<in> v. p \<in> set (kids m a) \<Longrightarrow>
      tree_result m own v p ts m'"
  shows "build_children n (taken m v) cs = Some (ts, m') \<Longrightarrow> upward m v \<Longrightarrow> q \<in> v \<Longrightarrow> set cs \<subseteq> set (m q) \<Longrightarrow>
    distinct (map tf_id cs) \<Longrightarrow> tf_id ` set cs \<inter> v = {} \<Longrightarrow> children_result m own v cs ts m'"
proof (induction cs arbitrary: v ts)
  case Nil
  then show ?case by (simp add: children_result_def parents_in_def forest_ok_def)
next
  case (Cons c cs)
  let ?c = "tf_id c"
  obtain below m1 rest where b: "build_tree n (taken m v) ?c = Some (below, m1)"
    and r: "build_children n m1 cs = Some (rest, m')"
    and ts: "ts = FolderTree (c\<lparr>tf_file_count := tf_file_count c + sum_list (map (\<lambda>t. tf_file_count (ft_node t)) below)\<rparr>) below # rest"
    using Cons.prems(1) by (auto simp: Let_def split: option.splits)
  have kid: "?c \<in> set (kids m q)" "?c \<notin> v" using Cons.prems(4,6) by (auto simp: kids_def)
  have t: "tree_result m own v ?c below m1" by (rule tree [OF b Cons.prems(2) kid(2)]) (use kid Cons.prems(3) in blast)
  let ?v = "insert ?c (v \<union> forest_ids below)"
  have m1: "m1 = taken m ?v" and disj: "insert ?c v \<inter> forest_ids below = {}"
    and par: "parents_in m (insert ?c (forest_ids below)) (forest_ids below)" and ok: "forest_ok m own below"
    and nodes: "map (\<lambda>c. tf_id (ft_node c)) below = kids m ?c" using t by (simp_all add: tree_result_def)
  have up: "upward m ?v" using Cons.prems(2,3) kid(1) par unfolding upward_def parents_in_def by blast
  have "x \<notin> ?v" if x: "x \<in> tf_id ` set cs" for x
  proof
    assume "x \<in> ?v"
    moreover have "?c \<notin> tf_id ` set cs" using Cons.prems(5) by simp
    then have "x \<noteq> ?c" using x by blast
    moreover have "x \<notin> v" using x Cons.prems(6) by auto
    ultimately obtain a where a: "a \<in> insert ?c (forest_ids below)" "x \<in> set (kids m a)" using par by (auto simp: parents_in_def)
    moreover have "x \<in> set (kids m q)" using x Cons.prems(4) by (auto simp: kids_def)
    ultimately have "a = q" using one_parentD(1) [OF one] by blast
    then show False using a(1) Cons.prems(3) kid(2) disj by auto
  qed
  then have new: "tf_id ` set cs \<inter> ?v = {}" by blast
  have rr: "children_result m own ?v cs rest m'"
    by (rule Cons.IH [OF r [unfolded m1] up]) (use Cons.prems new in auto)
  then have rest: "m' = taken m (?v \<union> forest_ids rest)" "?v \<inter> forest_ids rest = {}"
    "parents_in m (forest_ids rest) (forest_ids rest - tf_id ` set cs)" "map (\<lambda>c. tf_id (ft_node c)) rest = map tf_id cs"
    "forest_ok m own rest" by (simp_all add: children_result_def)
  have ids: "forest_ids ts = insert ?c (forest_ids below \<union> forest_ids rest)" using ts by simp
  have "m' = taken m (v \<union> forest_ids ts)" using rest(1) ids by (simp add: Un_ac insert_commute)
  moreover have "v \<inter> forest_ids ts = {}" using ids disj rest(2) kid(2) by auto
  moreover have "parents_in m (forest_ids ts) (forest_ids ts - tf_id ` set (c # cs))"
    using par rest(3) unfolding ids parents_in_def by (auto 0 3)
  moreover have "forest_ok m own ts"
  proof -
    have "own ?c = tf_file_count c" using own [of c q] Cons.prems(4) by simp
    then have "node_ok m own (hd ts)" using ts nodes by (simp add: node_ok_def)
    then have "\<forall>t \<in> set ts. \<forall>u \<in> tree_nodes t. node_ok m own u" using ok rest(5) ts by (auto simp: forest_ok_def)
    moreover have "distinct (concat (map tree_ids ts))"
      using ok rest(2,5) disj ts forest_set [of below] forest_set [of rest] by (auto simp: forest_ok_def)
    ultimately show ?thesis by (simp add: forest_ok_def)
  qed
  ultimately show ?case using ts rest(4) by (simp add: children_result_def)
qed

lemma build_tree_shape:
  assumes one: "one_parent m" and own: "\<And>a c. c \<in> set (m a) \<Longrightarrow> tf_file_count c = own (tf_id c)"
  shows "build_tree n (taken m v) p = Some (ts, m') \<Longrightarrow> upward m v \<Longrightarrow> p \<notin> v \<Longrightarrow> p = 0 \<or> (\<exists>a \<in> v. p \<in> set (kids m a)) \<Longrightarrow>
    tree_result m own v p ts m'"
proof (induction n arbitrary: v p ts m')
  case (Suc n)
  have fresh: "c \<notin> insert p v" if c: "c \<in> set (kids m p)" for c
  proof
    assume "c \<in> insert p v"
    moreover have "c \<noteq> 0" using one_parentD(3) [OF one c] .
    ultimately obtain a where a: "a \<in> v" "c \<in> set (kids m a)" using Suc.prems(2,4) by (auto simp: upward_def)
    then show False using one_parentD(1) [OF one a(2) c] Suc.prems(3) by simp
  qed
  have entry: "taken m v p = m p" using Suc.prems(3) by (simp add: taken_def)
  have b: "build_children n (taken m (insert p v)) (m p) = Some (ts, m')" using Suc.prems(1) entry by (simp add: taken_insert)
  have "children_result m own (insert p v) (m p) ts m'"
  proof (rule children_step [where n = n and q = p, OF one own _ b])
    show "upward m (insert p v)" using Suc.prems(2,4) by (auto simp: upward_def)
    show "distinct (map tf_id (m p))" using one_parentD(2) [OF one, of p] by (simp add: kids_def)
    show "tf_id ` set (m p) \<inter> insert p v = {}" using fresh by (auto simp: kids_def)
  qed (use Suc.IH in auto)
  then show ?case by (auto simp: children_result_def tree_result_def parents_in_def kids_def)
qed simp

text \<open>The ids of a tree are the keys reachable from its own, and its count is the sum of theirs.\<close>

definition kid_rel :: "(int \<Rightarrow> tree_folder list) \<Rightarrow> (int \<times> int) set" where
  "kid_rel m = {(p, c). c \<in> set (kids m p)}"

lemma star_unfold: "r\<^sup>* `` {x} = insert x (\<Union>c \<in> r `` {x}. r\<^sup>* `` {c})"
  by (auto elim: converse_rtranclE intro: converse_rtrancl_into_rtrancl)

lemma tree_node_self [simp]: "t \<in> tree_nodes t"
  by (cases t) simp

lemma tree_reach: "\<forall>u \<in> tree_nodes t. node_ok m own u \<Longrightarrow>
    set (tree_ids t) = (kid_rel m)\<^sup>* `` {tf_id (ft_node t)} \<and> tf_file_count (ft_node t) = sum_list (map own (tree_ids t))"
proof (induction t)
  case (FolderTree n cs)
  have ok: "map (\<lambda>c. tf_id (ft_node c)) cs = kids m (tf_id n)"
    "tf_file_count n = own (tf_id n) + sum_list (map (\<lambda>c. tf_file_count (ft_node c)) cs)"
    using FolderTree(2) by (auto simp: node_ok_def)
  have ih: "set (tree_ids c) = (kid_rel m)\<^sup>* `` {tf_id (ft_node c)}" "tf_file_count (ft_node c) = sum_list (map own (tree_ids c))"
    if "c \<in> set cs" for c using FolderTree(1) [OF that] FolderTree(2) that by auto
  have "kid_rel m `` {tf_id n} = (\<lambda>c. tf_id (ft_node c)) ` set cs" using ok(1) by (auto simp: kid_rel_def simp flip: set_map)
  then have "set (tree_ids (FolderTree n cs)) = (kid_rel m)\<^sup>* `` {tf_id n}"
    unfolding star_unfold [of _ "tf_id n"] using ih(1) by simp
  moreover have "sum_list (map (\<lambda>c. tf_file_count (ft_node c)) cs) = sum_list (map own (concat (map tree_ids cs)))"
    using ih(2) by (induction cs) simp_all
  ultimately show ?case using ok(2) by simp
qed

lemma tree_nodes_trans: "u \<in> tree_nodes t \<Longrightarrow> x \<in> tree_nodes u \<Longrightarrow> x \<in> tree_nodes t"
  by (induction t) auto

lemma kid_rel_image: "kid_rel m `` {p} = set (kids m p)"
  by (auto simp: kid_rel_def)

lemma distinct_nodes: "distinct (tree_ids t) \<Longrightarrow> u \<in> tree_nodes t \<Longrightarrow> distinct (tree_ids u)"
proof (induction t)
  case (FolderTree n cs)
  have "distinct (tree_ids c)" if "c \<in> set cs" for c
    using FolderTree(2) that by (auto simp: distinct_concat_iff)
  then show ?case using FolderTree by auto
qed

section \<open>Counts\<close>

lemma length_filter_disj: "(\<And>x. x \<in> set xs \<Longrightarrow> \<not> (P x \<and> Q x)) \<Longrightarrow>
    length (filter (\<lambda>x. P x \<or> Q x) xs) = length (filter P xs) + length (filter Q xs)"
  by (induction xs) auto

lemma sum_file_counts: "distinct ids \<Longrightarrow> sum_list (map (\<lambda>i. folder_file_count i w) ids) =
    int (length (filter (\<lambda>r. f_deleted_at r = None \<and> f_folder_id r \<in> Some ` set ids) (fw_files w)))"
proof (induction ids)
  case (Cons i ids)
  have "filter (\<lambda>r. f_deleted_at r = None \<and> f_folder_id r \<in> Some ` set (i # ids)) (fw_files w) =
      filter (\<lambda>r. (f_deleted_at r = None \<and> f_folder_id r = Some i) \<or> (f_deleted_at r = None \<and> f_folder_id r \<in> Some ` set ids)) (fw_files w)"
    by (rule filter_cong) auto
  moreover have "length (filter (\<lambda>r. (f_deleted_at r = None \<and> f_folder_id r = Some i) \<or> (f_deleted_at r = None \<and> f_folder_id r \<in> Some ` set ids)) (fw_files w)) =
      length (filter (\<lambda>r. f_deleted_at r = None \<and> f_folder_id r = Some i) (fw_files w)) +
      length (filter (\<lambda>r. f_deleted_at r = None \<and> f_folder_id r \<in> Some ` set ids) (fw_files w))"
    by (rule length_filter_disj) (use Cons.prems in auto)
  ultimately show ?case using Cons by (simp add: folder_file_count_def)
qed simp

lemma ordered_mset [simp]: "set (ordered_folders w) = set (fw_folders w)" "distinct (map fo_id (ordered_folders w)) = distinct (map fo_id (fw_folders w))"
  by (simp_all add: ordered_folders_def distinct_map)

lemma kids_by_parent: "kids (by_parent w) p = map fo_id (filter (\<lambda>f. fo_parent_id f = p) (ordered_folders w))"
  by (simp add: kids_def by_parent_def tree_node_def comp_def)

lemma kid_rel_folders: "kid_rel (by_parent w) = folder_child (folder_edges w)"
  by (auto simp: kid_rel_def kids_by_parent folder_child_def folder_edges_def)

lemma by_parent_one:
  assumes "distinct (map fo_id (fw_folders w))" "0 \<notin> fo_id ` set (fw_folders w)"
  shows "one_parent (by_parent w)"
  unfolding one_parent_def
proof (intro conjI allI impI)
  fix a b x assume "x \<in> set (kids (by_parent w) a)" "x \<in> set (kids (by_parent w) b)"
  then obtain f g where "f \<in> set (fw_folders w)" "g \<in> set (fw_folders w)" "fo_id f = x" "fo_id g = x" "fo_parent_id f = a" "fo_parent_id g = b"
    by (auto simp: kids_by_parent)
  then show "a = b" using assms(1) by (auto simp: distinct_map dest: inj_onD)
next
  fix a show "distinct (kids (by_parent w) a)" using assms(1) by (simp add: kids_by_parent distinct_map_filter)
  show "0 \<notin> set (kids (by_parent w) a)" using assms(2) by (auto simp: kids_by_parent)
qed

section \<open>Enough fuel\<close>

definition left_rows :: "'s file_world \<Rightarrow> int set \<Rightarrow> nat" where
  "left_rows w v = length (filter (\<lambda>f. fo_parent_id f \<notin> v) (ordered_folders w))"

lemma left_mono: "v \<subseteq> v' \<Longrightarrow> left_rows w v' \<le> left_rows w v"
proof -
  assume "v \<subseteq> v'"
  then have "filter (\<lambda>f. fo_parent_id f \<notin> v') (ordered_folders w) =
      filter (\<lambda>f. fo_parent_id f \<notin> v') (filter (\<lambda>f. fo_parent_id f \<notin> v) (ordered_folders w))" by (auto intro: filter_cong)
  then show ?thesis unfolding left_rows_def by (metis length_filter_le)
qed

lemma left_less:
  assumes "p \<notin> v" "by_parent w p \<noteq> []"
  shows "left_rows w (insert p v) < left_rows w v"
proof -
  have both: "length (filter (\<lambda>f. fo_parent_id f \<notin> insert p v \<or> fo_parent_id f = p) (ordered_folders w)) =
      left_rows w (insert p v) + length (by_parent w p)"
    unfolding left_rows_def by_parent_def length_map by (rule length_filter_disj) blast
  have same: "filter (\<lambda>f. fo_parent_id f \<notin> insert p v \<or> fo_parent_id f = p) (ordered_folders w) =
      filter (\<lambda>f. fo_parent_id f \<notin> v) (ordered_folders w)" by (rule filter_cong) (use assms(1) in auto)
  have "left_rows w v = left_rows w (insert p v) + length (by_parent w p)" using both unfolding same by (simp only: left_rows_def)
  then show ?thesis using assms(2) by simp
qed

lemma children_total:
  assumes "\<And>v p. left_rows w v < n \<Longrightarrow> \<exists>ts v'. build_tree n (taken (by_parent w) v) p = Some (ts, taken (by_parent w) v') \<and> v \<subseteq> v'"
  shows "left_rows w v < n \<Longrightarrow> \<exists>ts v'. build_children n (taken (by_parent w) v) cs = Some (ts, taken (by_parent w) v') \<and> v \<subseteq> v'"
proof (induction cs arbitrary: v)
  case (Cons c cs)
  obtain below v1 where b: "build_tree n (taken (by_parent w) v) (tf_id c) = Some (below, taken (by_parent w) v1)" "v \<subseteq> v1"
    using assms [OF Cons.prems] by blast
  have "left_rows w v1 < n" using left_mono [OF b(2), of w] Cons.prems by simp
  then obtain rest v2 where "build_children n (taken (by_parent w) v1) cs = Some (rest, taken (by_parent w) v2)" "v1 \<subseteq> v2"
    using Cons.IH by blast
  then show ?case using b by (auto simp: Let_def)
qed auto

lemma folders_total:
  "left_rows w v < n \<Longrightarrow> \<exists>ts v'. build_tree n (taken (by_parent w) v) p = Some (ts, taken (by_parent w) v') \<and> v \<subseteq> v'"
proof (induction n arbitrary: v p)
  case (Suc n)
  show ?case
  proof (cases "taken (by_parent w) v p")
    case Nil
    then show ?thesis by (auto simp: taken_insert)
  next
    case (Cons c cs)
    then have "p \<notin> v" "by_parent w p \<noteq> []" by (auto simp: taken_def split: if_splits)
    then have "left_rows w (insert p v) < n" using left_less [of p v w] Suc.prems by simp
    then show ?thesis using children_total [of w n "insert p v" "taken (by_parent w) v p"] Suc.IH by (auto simp: taken_insert)
  qed
qed simp

definition folder_query :: "int \<Rightarrow> file_query" where
  "folder_query i =
     \<lparr>fq_file_no = None, fq_original_name = None, fq_display_name = None, fq_extension = None, fq_bucket = None, fq_provider = None,
      fq_kind = None, fq_visibility = None, fq_status = None, fq_folder_id = Some i, fq_creator_id = None\<rparr>"

lemma folder_list_total: "fp_total (list_files contains page current sz users (folder_query i) w) =
    length (filter (\<lambda>r. f_deleted_at r = None \<and> f_folder_id r \<in> Some ` set (subtree_folder_ids i w)) (fw_files w))"
proof -
  have "list_condition contains (folder_query i) w = (\<lambda>r. f_folder_id r \<in> Some ` set (subtree_folder_ids i w))"
    by (rule ext) (simp add: list_condition_def file_query_matches_def folder_query_def when_given_def)
  then show ?thesis by (simp add: list_files_def Let_def conj_commute)
qed

text \<open>
  C39. The folder tree and the file list agree: the tree is built with one level of fuel more than there are folders,
  it shows exactly the folders below the root, each once, and the number shown at a folder is the total of the list
  of files when that folder is chosen.
\<close>

theorem tree_counts_match_lists:
  assumes "distinct (map fo_id (fw_folders w))" "0 \<notin> fo_id ` set (fw_folders w)" "length (fw_folders w) < fuel"
  shows "\<exists>ts. folder_tree_of fuel w = Some ts \<and> distinct (concat (map tree_ids ts)) \<and>
    set (concat (map tree_ids ts)) = {i. (0, i) \<in> {(p, c). \<exists>f \<in> set (fw_folders w). fo_parent_id f = p \<and> fo_id f = c}\<^sup>+} \<and>
    (\<forall>t \<in> set ts. \<forall>u \<in> tree_nodes t. tf_file_count (ft_node u) =
       int (fp_total (list_files contains page current sz users (folder_query (tf_id (ft_node u))) w)))"
proof -
  let ?m = "by_parent w" and ?own = "\<lambda>i. folder_file_count i w"
  have edges: "folder_child (folder_edges w) = {(p, c). \<exists>f \<in> set (fw_folders w). fo_parent_id f = p \<and> fo_id f = c}"
    by (auto simp: folder_child_def folder_edges_def)
  have all: "taken ?m {} = ?m" by (simp add: taken_def)
  have "left_rows w {} < fuel" using assms(3) by (simp add: left_rows_def ordered_folders_def)
  then obtain ts m' where b: "build_tree fuel ?m 0 = Some (ts, m')" using folders_total [of w "{}" fuel 0] all by auto
  have r: "tree_result ?m ?own {} 0 ts m'"
    by (rule build_tree_shape [OF by_parent_one [OF assms(1,2)]]) (use b all in \<open>auto simp: by_parent_def tree_node_def upward_def\<close>)
  then have ok: "forest_ok ?m ?own ts" and top: "map (\<lambda>c. tf_id (ft_node c)) ts = kids ?m 0" by (simp_all add: tree_result_def)
  have shown: "tf_file_count (ft_node u) = int (fp_total (list_files contains page current sz users (folder_query (tf_id (ft_node u))) w))"
    if u: "t \<in> set ts" "u \<in> tree_nodes t" for t u
  proof -
    have "\<forall>x \<in> tree_nodes u. node_ok ?m ?own x" using ok u tree_nodes_trans by (fastforce simp: forest_ok_def)
    note reach = tree_reach [OF this, unfolded kid_rel_folders]
    have "distinct (tree_ids t)" using ok u(1) by (auto simp: forest_ok_def distinct_concat_iff)
    then have "distinct (tree_ids u)" using distinct_nodes u(2) by blast
    moreover have "set (tree_ids u) = set (subtree_folder_ids (tf_id (ft_node u)) w)" using reach subtree_folder_ids_spec [of "tf_id (ft_node u)" w] by simp
    ultimately show ?thesis using reach sum_file_counts [of "tree_ids u" w] by (simp add: folder_list_total)
  qed
  have "set (tree_ids t) = (folder_child (folder_edges w))\<^sup>* `` {tf_id (ft_node t)}" if "t \<in> set ts" for t
    using tree_reach [of t ?m ?own] ok that by (auto simp: forest_ok_def kid_rel_folders)
  then have "set (concat (map tree_ids ts)) = (\<Union>c \<in> (\<lambda>t. tf_id (ft_node t)) ` set ts. (folder_child (folder_edges w))\<^sup>* `` {c})" by simp
  also have "(\<lambda>t. tf_id (ft_node t)) ` set ts = folder_child (folder_edges w) `` {0}"
    using top by (metis list.set_map children_of_set kid_rel_folders kid_rel_image)
  also have "(\<Union>c \<in> folder_child (folder_edges w) `` {0}. (folder_child (folder_edges w))\<^sup>* `` {c}) = {i. (0, i) \<in> (folder_child (folder_edges w))\<^sup>+}"
    by (auto dest: tranclD intro: rtrancl_into_trancl2)
  finally show ?thesis using b ok shown edges by (simp add: folder_tree_of_def forest_ok_def)
qed

text \<open>Three folders, the second and third below the first, with the file in the third.\<close>

definition sample_folders :: "sample_store file_world" where
  "sample_folders = sample_file_world
     \<lparr>fw_files := [sample_file\<lparr>f_folder_id := Some 3\<rparr>],
      fw_folders := [\<lparr>fo_id = 1, fo_parent_id = 0, fo_name = ''docs'', fo_slug = ''docs'', fo_visibility = ''PRIVATE'', fo_sort = 0,
          fo_create_time = 0, fo_update_time = 0\<rparr>,
        \<lparr>fo_id = 2, fo_parent_id = 1, fo_name = ''b'', fo_slug = ''b'', fo_visibility = ''PRIVATE'', fo_sort = 2,
          fo_create_time = 0, fo_update_time = 0\<rparr>,
        \<lparr>fo_id = 3, fo_parent_id = 1, fo_name = ''a'', fo_slug = ''a'', fo_visibility = ''PRIVATE'', fo_sort = 1,
          fo_create_time = 0, fo_update_time = 0\<rparr>],
      fw_folder_next := 4\<rparr>"

theorem tree_counts_match_lists_witness:
  "\<exists>t below. folder_tree_of 4 sample_folders = Some [FolderTree t below] \<and> tf_file_count t = 1 \<and>
    int (fp_total (list_files (\<lambda>_ _. True) (\<lambda>xs. xs) 1 10 [] (folder_query (tf_id t)) sample_folders)) = 1"
proof -
  have counts: "map_option (map (\<lambda>t. tf_file_count (ft_node t))) (folder_tree_of 4 sample_folders) = Some [1]" by code_simp
  obtain ts where ts: "folder_tree_of 4 sample_folders = Some ts"
    "\<forall>t \<in> set ts. \<forall>u \<in> tree_nodes t. tf_file_count (ft_node u) =
       int (fp_total (list_files (\<lambda>_ _. True) (\<lambda>xs. xs) 1 10 [] (folder_query (tf_id (ft_node u))) sample_folders))"
    using tree_counts_match_lists [of sample_folders 4 "\<lambda>_ _. True" "\<lambda>xs. xs" 1 10 "[]"] by (auto simp: sample_folders_def)
  obtain t below where t: "ts = [FolderTree t below]" "tf_file_count t = 1"
    using counts ts(1) folder_tree.exhaust by (auto simp: map_eq_Cons_conv) (metis folder_tree.sel(1))
  then show ?thesis using ts by auto
qed

section \<open>Folders made for a path\<close>

definition adds_folders :: "'s file_world \<Rightarrow> 's file_world \<Rightarrow> bool" where
  "adds_folders w w' \<longleftrightarrow> (\<exists>rs n. w' = w\<lparr>fw_folders := fw_folders w @ rs, fw_folder_next := n\<rparr>)"

definition agrees :: "folder_cache \<Rightarrow> 's file_world \<Rightarrow> bool" where
  "agrees c w \<longleftrightarrow> (\<forall>p s i. c (p, s) = Some i \<longrightarrow> (\<exists>f. find_child p s w = Some f \<and> fo_id f = i))"

lemma addsI: "w' = w\<lparr>fw_folders := fw_folders w @ rs, fw_folder_next := n\<rparr> \<Longrightarrow> adds_folders w w'"
  unfolding adds_folders_def by blast

lemma agreesD: "agrees c w \<Longrightarrow> c (p, s) = Some i \<Longrightarrow> find_child p s w = Some f \<Longrightarrow> i = fo_id f"
  unfolding agrees_def by (metis option.inject)

lemma adds_refl [simp]: "adds_folders w w"
  by (rule addsI [where rs = "[]" and n = "fw_folder_next w"]) simp

lemma adds_trans: "adds_folders a b \<Longrightarrow> adds_folders b c \<Longrightarrow> adds_folders a c"
proof -
  assume "adds_folders a b" "adds_folders b c"
  then obtain rs n rs' n' where "b = a\<lparr>fw_folders := fw_folders a @ rs, fw_folder_next := n\<rparr>"
    "c = b\<lparr>fw_folders := fw_folders b @ rs', fw_folder_next := n'\<rparr>" unfolding adds_folders_def by blast
  then show ?thesis by (intro addsI [where rs = "rs @ rs'" and n = n']) simp
qed

lemma find_append: "find P (xs @ ys) = (case find P xs of None \<Rightarrow> find P ys | Some x \<Rightarrow> Some x)"
  by (induction xs) auto

lemma find_child_adds: "adds_folders w w' \<Longrightarrow> find_child p s w = Some f \<Longrightarrow> find_child p s w' = Some f"
  by (auto simp: adds_folders_def find_child_def find_append)

lemma find_folder_adds: "adds_folders w w' \<Longrightarrow> find_folder i w = Some f \<Longrightarrow> find_folder i w' = Some f"
  by (auto simp: adds_folders_def find_folder_def find_append)

lemma agrees_adds: "adds_folders w w' \<Longrightarrow> agrees c w \<Longrightarrow> agrees c w'"
  unfolding agrees_def using find_child_adds by metis

lemma agrees_upd: "agrees c w \<Longrightarrow> find_child p s w = Some f \<Longrightarrow> agrees (c((p, s) \<mapsto> fo_id f)) w"
  by (auto simp: agrees_def)

lemma agrees_empty [simp]: "agrees Map.empty w"
  by (simp add: agrees_def)

lemma insert_folder_adds: "insert_folder env what row w = (r, w') \<Longrightarrow> adds_folders w w'"
  by (auto simp: insert_folder_def Let_def intro: addsI split: if_splits)

lemma insert_folder_found:
  assumes "insert_folder env what row w = (Inr f, w')" "find_child (fo_parent_id row) (fo_slug row) w = None"
  shows "find_child (fo_parent_id row) (fo_slug row) w' = Some f"
  using assms by (auto simp: insert_folder_def Let_def find_child_def find_append split: if_splits)

lemma child_folder_ok:
  assumes "get_or_create_child_folder env p d vis (w, c) = (r, (w', c'))" "agrees c w"
  shows "adds_folders w w' \<and> agrees c' w' \<and>
    (case r of Inl e \<Rightarrow> True | Inr i \<Rightarrow> \<exists>nm slug f. sanitize_folder_segment d = Inr (nm, slug) \<and> find_child p slug w' = Some f \<and> fo_id f = i)"
proof (cases "sanitize_folder_segment d")
  case (Inl e)
  then show ?thesis using assms by (auto simp: get_or_create_child_folder_def bind_s_def lift_r_def)
next
  case (Inr q)
  obtain nm slug where q: "q = (nm, slug)" by (cases q)
  show ?thesis
  proof (cases "c (p, slug)")
    case (Some i)
    then show ?thesis using assms Inr q by (auto simp: get_or_create_child_folder_def bind_s_def lift_r_def agrees_def)
  next
    case None
    note miss = None
    show ?thesis
    proof (cases "find_child p slug w")
      case (Some f)
      then show ?thesis using assms Inr q miss agrees_upd by (auto simp: get_or_create_child_folder_def bind_s_def lift_r_def)
    next
      case none: None
      obtain x w1 where x: "insert_folder env ''create folder'' (new_folder p nm slug vis) w = (x, w1)" by (cases "insert_folder env ''create folder'' (new_folder p nm slug vis) w")
      note adds = insert_folder_adds [OF x]
      show ?thesis
      proof (cases x)
        case (Inr f)
        have "find_child p slug w1 = Some f" using insert_folder_found [OF x [unfolded Inr]] none by (simp add: new_folder_def)
        then show ?thesis using assms \<open>sanitize_folder_segment d = Inr q\<close> q miss none x Inr adds
            agrees_upd [OF agrees_adds [OF adds assms(2)]]
          by (auto simp: get_or_create_child_folder_def bind_s_def lift_r_def)
      next
        case (Inl e)
        then show ?thesis using assms \<open>sanitize_folder_segment d = Inr q\<close> q miss none x adds agrees_adds [OF adds assms(2)]
            agrees_upd [OF agrees_adds [OF adds assms(2)]]
          by (auto simp: get_or_create_child_folder_def bind_s_def lift_r_def split: option.splits)
      qed
    qed
  qed
qed

text \<open>Following a path through folders that exist.\<close>

fun walk :: "'s file_world \<Rightarrow> int \<Rightarrow> string list \<Rightarrow> int option" where
  "walk w p [] = Some p"
| "walk w p (d # ds) =
     (case sanitize_folder_segment d of
        Inl e \<Rightarrow> None
      | Inr (nm, slug) \<Rightarrow> (case find_child p slug w of None \<Rightarrow> None | Some f \<Rightarrow> walk w (fo_id f) ds))"

lemma create_path_ok:
  "create_path env p ds vis (w, c) = (r, (w', c')) \<Longrightarrow> agrees c w \<Longrightarrow>
   adds_folders w w' \<and> agrees c' w' \<and> (case r of Inl e \<Rightarrow> True | Inr i \<Rightarrow> walk w' p ds = Some i)"
proof (induction ds arbitrary: p w c)
  case Nil
  then show ?case by (auto simp: result_simps)
next
  case (Cons d ds)
  obtain x w1 c1 where x: "get_or_create_child_folder env p d vis (w, c) = (x, (w1, c1))" by (metis prod.collapse)
  note one = child_folder_ok [OF x Cons.prems(2)]
  show ?case
  proof (cases x)
    case (Inl e)
    then show ?thesis using Cons.prems(1) x one by (auto simp: bind_s_def)
  next
    case (Inr i)
    then have rest: "create_path env i ds vis (w1, c1) = (r, (w', c'))" using Cons.prems(1) x by (simp add: bind_s_def)
    have "adds_folders w1 w' \<and> agrees c' w' \<and> (case r of Inl e \<Rightarrow> True | Inr i' \<Rightarrow> walk w' i ds = Some i')"
      using Cons.IH [OF rest] one by simp
    moreover obtain nm slug f where "sanitize_folder_segment d = Inr (nm, slug)" "find_child p slug w1 = Some f" "fo_id f = i"
      using one Inr by auto
    moreover have "find_child p slug w1 = Some g \<Longrightarrow> find_child p slug w' = Some g" for g slug
      using find_child_adds calculation(1) by blast
    ultimately show ?thesis using one adds_trans [of w w1 w'] by (auto split: sum.splits)
  qed
qed

lemma create_path_again:
  "walk w p ds = Some i \<Longrightarrow> agrees c w \<Longrightarrow> \<exists>c'. create_path env p ds vis (w, c) = (Inr i, (w, c'))"
proof (induction ds arbitrary: p c)
  case (Cons d ds)
  obtain nm slug f where f: "sanitize_folder_segment d = Inr (nm, slug)" "find_child p slug w = Some f" "walk w (fo_id f) ds = Some i"
    using Cons.prems(1) by (auto split: sum.splits option.splits)
  have "c (p, slug) = None \<or> c (p, slug) = Some (fo_id f)" using agreesD [OF Cons.prems(2) _ f(2)] by (cases "c (p, slug)") simp_all
  then have "\<exists>c1. get_or_create_child_folder env p d vis (w, c) = (Inr (fo_id f), (w, c1)) \<and> agrees c1 w"
    using f(1,2) Cons.prems(2) agrees_upd [OF Cons.prems(2) f(2)]
    by (auto simp: get_or_create_child_folder_def bind_s_def lift_r_def)
  then obtain c1 where "get_or_create_child_folder env p d vis (w, c) = (Inr (fo_id f), (w, c1))" "agrees c1 w" by blast
  then show ?case using Cons.IH [OF f(3)] by (simp add: bind_s_def)
qed (simp add: result_simps)

lemma with_cache_iff: "with_cache m w = (r, w') \<longleftrightarrow> (\<exists>c. m (w, Map.empty) = (r, (w', c)))"
  by (cases "m (w, Map.empty)") (auto simp: with_cache_def split: prod.splits)

lemma ensure_path_again:
  assumes "ensure_folder_path env base dirs (w, Map.empty) = (Inr t, (w1, c1))"
  shows "adds_folders w w1 \<and> (\<exists>c'. ensure_folder_path env' base dirs (w1, Map.empty) = (Inr t, (w1, c')))"
proof (cases "dirs = []")
  case True
  then show ?thesis using assms by (auto simp: ensure_folder_path_def result_simps)
next
  case False
  show ?thesis
  proof (cases base)
    case None
    then obtain i where i: "create_path env 0 dirs ''PRIVATE'' (w, Map.empty) = (Inr i, (w1, c1))" "t = Some i"
      using assms False by (auto simp: ensure_folder_path_def bind_s_iff result_simps)
    have ok: "adds_folders w w1" "walk w1 0 dirs = Some i" using create_path_ok [OF i(1)] by simp_all
    obtain c' where "create_path env' 0 dirs ''PRIVATE'' (w1, Map.empty) = (Inr i, (w1, c'))"
      using create_path_again [OF ok(2)] agrees_empty by blast
    then show ?thesis using ok(1) None False i(2) by (simp add: ensure_folder_path_def bind_s_def result_simps)
  next
    case (Some b)
    then obtain f where f: "find_folder b w = Some f" using assms False by (auto simp: ensure_folder_path_def split: option.splits)
    let ?ds = "if same_name f (hd dirs) then tl dirs else dirs"
    obtain i where i: "create_path env (fo_id f) ?ds (fo_visibility f) (w, Map.empty) = (Inr i, (w1, c1))" "t = Some i"
      using assms False Some f by (auto simp: ensure_folder_path_def bind_s_iff result_simps)
    have ok: "adds_folders w w1" "walk w1 (fo_id f) ?ds = Some i" using create_path_ok [OF i(1)] by simp_all
    obtain c' where "create_path env' (fo_id f) ?ds (fo_visibility f) (w1, Map.empty) = (Inr i, (w1, c'))"
      using create_path_again [OF ok(2)] agrees_empty by blast
    then have "bind_s (create_path env' (fo_id f) ?ds (fo_visibility f)) (\<lambda>i. ok_s (Some i)) (w1, Map.empty) = (Inr t, (w1, c'))"
      using i(2) by (simp add: bind_s_def result_simps)
    then show ?thesis using ok(1) find_folder_adds [OF ok(1) f] Some False by (auto simp: ensure_folder_path_def)
  qed
qed

text \<open>
  C40. The folders of an upload with a path are made once: resolving a client's file name only adds folders, and
  resolving it again, at any later moment before the folders change, finds the same folder and adds none.
\<close>

theorem upload_path_idempotent:
  assumes "resolve_upload_target env folder preserve_path name w = (Inr (original, target), w1)"
  shows "(\<exists>rs n. w1 = w\<lparr>fw_folders := fw_folders w @ rs, fw_folder_next := n\<rparr>) \<and>
    resolve_upload_target env' folder preserve_path name w1 = (Inr (original, target), w1)"
proof (cases preserve_path)
  case False
  then have "w1 = w \<and> resolve_upload_target env' folder preserve_path name w1 = (Inr (original, target), w1)"
    using assms by (auto simp: resolve_upload_target_def bind_s_def lift_r_def result_simps split: sum.splits)
  moreover have "adds_folders w w" by simp
  ultimately show ?thesis unfolding adds_folders_def by metis
next
  case True
  obtain dirs c1 where d: "extract_upload_basename name = Inr original" "parse_relative_dirs name = Inr dirs"
    "ensure_folder_path env (no_root folder) dirs (w, Map.empty) = (Inr target, (w1, c1))"
    using assms True by (auto simp: resolve_upload_target_def bind_s_iff lift_r_def result_simps with_cache_iff)
  show ?thesis using ensure_path_again [OF d(3), of env'] d(1,2) True
    by (auto simp: resolve_upload_target_def bind_s_def lift_r_def result_simps with_cache_def adds_folders_def)
qed

lemma take_chars_all: "length s \<le> n \<Longrightarrow> take_chars n s = s"
  by (induction n s rule: take_chars.induct) (auto split: nat.splits)

lemma path_letters: "visible CHR ''d''" "visible CHR ''s''" "visible CHR ''b''" "visible CHR ''n''" "visible CHR ''w''" "visible CHR ''f''"
  "visible CHR ''t''"
  by code_simp+

lemma path_trims: "trim ''docs'' = ''docs''" "trim ''b'' = ''b''" "trim ''new'' = ''new''" "trim ''f.txt'' = ''f.txt''"
  by (simp_all add: trim_visible path_letters)

lemma path_parts: "extract_upload_basename ''docs/b/new/f.txt'' = Inr ''f.txt''"
  "parse_relative_dirs ''docs/b/new/f.txt'' = Inr [''docs'', ''b'', ''new'']"
  "sanitize_folder_segment ''b'' = Inr (''b'', ''b'')" "sanitize_folder_segment ''new'' = Inr (''new'', ''new'')"
  by (simp_all add: extract_upload_basename_def parse_relative_dirs_def sanitize_folder_segment_def is_slash_def path_trims Let_def
      trim_matches_def replace_char_def is_fakepath_def bind_r_def take_chars_all)

theorem upload_path_idempotent_witness:
  "\<exists>t w1. resolve_upload_target sample_files_env (Some 1) True ''docs/b/new/f.txt'' sample_folders = (Inr (''f.txt'', t), w1) \<and>
    resolve_upload_target sample_files_env (Some 1) True ''docs/b/new/f.txt'' w1 = (Inr (''f.txt'', t), w1)"
proof -
  let ?r = "resolve_upload_target sample_files_env (Some 1) True ''docs/b/new/f.txt'' sample_folders"
  have "fst ?r = Inr (''f.txt'', Some 4)"
    by (simp add: resolve_upload_target_def path_parts no_root_def ensure_folder_path_def with_cache_def same_name_def eq_ignore_ascii_case_def
        sample_folders_def sample_file_world_def find_folder_def find_child_def get_or_create_child_folder_def insert_folder_def
        sample_files_env_def new_folder_def bind_s_def lift_r_def result_simps Let_def)
  then have r: "?r = (Inr (''f.txt'', Some 4), snd ?r)" by (simp add: prod_eq_iff)
  show ?thesis using r upload_path_idempotent [OF r, of sample_files_env] by blast
qed

end
