(* ===== verification/File_Properties.thy ===== *)
theory File_Properties
  imports File_Samples
begin

text \<open>
  Properties of the file centre over sequences of calls: withdrawn links, the objects of live files, and the two
  places where the code gives more than it means to.
\<close>

section \<open>Links\<close>

lemma find_file_id: "find_file i w = Some r \<Longrightarrow> r \<in> set (fw_files w) \<and> f_id r = i"
  unfolding find_file_def using find_Some_iff [of "\<lambda>r. f_id r = i" "fw_files w" r] by (metis nth_mem)

lemma find_file_unique:
  assumes "distinct (map f_id (fw_files w))" "r \<in> set (fw_files w)"
  shows "find_file (f_id r) w = Some r"
proof (cases "find_file (f_id r) w")
  case None
  then show ?thesis using assms(2) by (auto simp: find_file_def find_None_iff)
next
  case (Some x)
  then show ?thesis using find_file_id [OF Some] assms by (auto simp: distinct_map dest: inj_onD)
qed

lemma revoke_dead:
  assumes "revoke_public_link env i w = (Inr (), w1)" "\<And>x. x \<in> set (fw_files w) \<Longrightarrow> f_public_token x = Some t \<Longrightarrow> f_id x = i"
  shows "dead_link t w1"
proof -
  have "fw_files w1 = map (\<lambda>x. if f_id x = i then (clear_link x)\<lparr>f_update_time := fe_now env\<rparr> else x) (fw_files w)"
    using assms(1) by (auto simp: revoke_public_link_def existing_file_def bind_s_def update_file_def Let_def split: option.splits if_splits)
  then show ?thesis using assms(2) by (auto simp: dead_link_def clear_link_def)
qed

lemma delete_ok_dead:
  assumes "delete_file env i u w = (Inr (), w1)" "find_file i w = Some r" "distinct (map f_id (fw_files w))"
  shows "\<forall>x \<in> set (fw_files w1). f_id x = i \<longrightarrow> \<not> live_row x"
proof (cases "live_row r")
  case False
  then have "w1 = w" using assms(1,2) by (simp add: delete_file_def existing_file_def bind_s_def result_simps live_row_def)
  then show ?thesis using False find_file_unique [OF assms(3)] assms(2) by fastforce
next
  case True
  let ?g = "\<lambda>x. (mark_deleted (fe_now env) u x)\<lparr>f_update_time := fe_now env\<rparr>"
  let ?d = "w\<lparr>fw_files := map (\<lambda>x. if f_id x = i then ?g x else x) (fw_files w)\<rparr>"
  have upd: "update_file env ''delete file'' i (mark_deleted (fe_now env) u) w = (Inr (), ?d)"
    using assms(1,2) True by (auto simp: delete_file_def existing_file_def bind_s_def live_row_def update_file_def Let_def split: if_splits)
  have dead: "\<forall>x \<in> set (fw_files ?d). f_id x = i \<longrightarrow> \<not> live_row x"
    using dead_map [of ?g i "fw_files w"] by (simp add: mark_deleted_def live_row_def del: set_map)
  then have "\<forall>x \<in> set (fw_files (set_file_columns i (\<lambda>x. x\<lparr>f_purge_status := ''PENDING''\<rparr>) ?d)). f_id x = i \<longrightarrow> \<not> live_row x"
    using dead_set [OF _ dead, of "\<lambda>x. x\<lparr>f_purge_status := ''PENDING''\<rparr>"] by (simp add: set_file_columns_def live_row_def del: set_map map_map)
  then show ?thesis using delete_step [OF assms(2) True upd] assms(1) dead
    by (simp add: spawn_task_def del: set_map map_map split: if_splits)
qed

lemma delete_rows:
  assumes "x \<in> set (fw_files (snd (delete_file env i u w)))"
  shows "\<exists>y \<in> set (fw_files w). f_id x = f_id y \<and> (\<forall>t. f_public_token x = Some t \<longrightarrow> f_public_token y = Some t)"
proof (cases rule: delete_cases [of env i u w])
  case (3 w1 r w2)
  have "x \<in> set (fw_files w2)" using assms 3(5) by auto
  then show ?thesis using edits_row [OF 3(2)] edits_row [OF 3(1)] by (metis empty_iff)
qed (use assms edits_row in \<open>fastforce+\<close>)

text \<open>
  C33. A public link that was withdrawn, or whose file was deleted, is refused for ever: whatever calls follow, in any
  environments, as long as no new link draws the same token, a download with its token finds no file.
\<close>

theorem withdrawn_link_refused:
  assumes "distinct (map f_id (fw_files w))" "r \<in> set (fw_files w)" "f_public_token r = Some t"
    and "\<forall>x \<in> set (fw_files w). f_public_token x = Some t \<longrightarrow> x = r"
    and "revoke_public_link env (f_id r) w = (Inr (), w1) \<or> delete_file env (f_id r) u w = (Inr (), w1)"
    and "file_calls_run fuel {t} w1 w2"
  shows "download_public_file env' t w2 = (Inl (NotFound (Text ''file does not exist'')), w2)"
proof -
  have only: "f_id x = f_id r" if "x \<in> set (fw_files w)" "f_public_token x = Some t" for x using assms(4) that by blast
  have "dead_link t w1" using assms(5)
  proof
    assume d: "delete_file env (f_id r) u w = (Inr (), w1)"
    note dead = delete_ok_dead [OF d find_file_unique [OF assms(1,2)] assms(1)]
    have "f_id x = f_id r" if x: "x \<in> set (fw_files w1)" "f_public_token x = Some t" for x
      using delete_rows [of x env "f_id r" u w] x d only by force
    then show ?thesis using dead by (auto simp: dead_link_def)
  qed (rule revoke_dead, use only in auto)
  then have "dead_link t w2" using dead_run [OF assms(6)] by simp
  then show ?thesis using find_Some_iff [of "\<lambda>r. f_public_token r = Some t" "fw_files w2"]
    by (auto simp: download_public_file_def dead_link_def live_row_def split: option.splits)
qed

theorem withdrawn_link_refused_witness:
  "download_public_file sample_files_env ''p'' (snd (update_visibility sample_files_env 1 ''PUBLIC'' sample_deleted)) =
    (Inl (NotFound (Text ''file does not exist'')), snd (update_visibility sample_files_env 1 ''PUBLIC'' sample_deleted))"
proof (rule withdrawn_link_refused [of sample_file_world sample_file _ sample_files_env sample_deleted "Some 7" 9])
  have "fst (delete_file sample_files_env 1 (Some 7) sample_file_world) = Inr ()" by code_simp
  then show "revoke_public_link sample_files_env (f_id sample_file) sample_file_world = (Inr (), sample_deleted) \<or>
      delete_file sample_files_env (f_id sample_file) (Some 7) sample_file_world = (Inr (), sample_deleted)"
    by (simp add: sample_deleted_def sample_file_def prod_eq_iff)
  show "file_calls_run 9 {''p''} sample_deleted (snd (update_visibility sample_files_env 1 ''PUBLIC'' sample_deleted))"
    by (rule run_call [OF run_nil, where env = sample_files_env and c = "FVisibility 1 ''PUBLIC''"]) (simp_all add: step_tokens_def)
qed (simp_all add: sample_file_world_def sample_file_def)

section \<open>Objects\<close>

text \<open>
  C34. The object of every live file exists: if it is so at the start, it stays so under every sequence of uploads,
  edits, deletions and removals by the workers, provided no new row is made for an object that waits for its removal
  (a fresh key never is).
\<close>

theorem live_files_have_objects:
  assumes "careful_run fuel s3 w w'" "s3_laws s3" "backed s3 w" "r \<in> set (fw_files w')" "f_deleted_at r = None"
  shows "s3_head s3 (fw_store w') (f_bucket r) (f_object_key r) \<noteq> None"
  using careful_backed [OF assms(1-3)] assms(4,5) by (auto simp: backed_def rows_backed_def backed_row_def alive_def live_row_def)

theorem live_files_have_objects_witness:
  "s3_head sample_s3 (fw_store sample_claimed) (f_bucket (last (fw_files sample_claimed))) (f_object_key (last (fw_files sample_claimed))) \<noteq> None"
proof (rule live_files_have_objects [of 9 _ sample_file_world sample_claimed])
  show "careful_run 9 sample_s3 sample_file_world sample_claimed"
    by (rule careful_call [OF careful_nil, where env = sample_files_env and c = "FConfirm sample_claim 8"])
      (simp_all add: sample_claimed_def sample_files_env_def unqueued_def sample_file_world_def)
  show "backed sample_s3 sample_file_world"
    by (simp add: backed_def rows_backed_def backed_row_def alive_def sample_file_defs)
  show "f_deleted_at (last (fw_files sample_claimed)) = None" by code_simp
  have "fw_files sample_claimed \<noteq> []" by code_simp
  then show "last (fw_files sample_claimed) \<in> set (fw_files sample_claimed)" by simp
qed (rule sample_s3_laws)

lemma save_ok:
  assumes "save_file env row w = (Inr v, w')"
  shows "\<exists>r. r = row\<lparr>f_id := fw_file_next w, f_create_time := fe_now env, f_update_time := fe_now env\<rparr> \<and> fu_file_id v = f_id r \<and>
    w' = w\<lparr>fw_files := fw_files w @ [r], fw_file_next := fw_file_next w + 1\<rparr>"
  using assms by (auto simp: save_file_def bind_s_iff insert_file_def presign_download_url_def Let_def result_simps split: if_splits option.splits)

lemma record_ok:
  assumes "record_object env key n md5 sz h user w = (Inr v, w')"
  shows "\<exists>r. live_row r \<and> f_bucket r = fe_bucket env \<and> f_object_key r = key \<and> f_id r = fu_file_id v \<and> f_size r = sz \<and>
    f_file_md5 r = unwrap_or [] md5 \<and> f_provider r = ''S3'' \<and> f_creator_id r = Some user \<and> f_id r = fw_file_next w \<and>
    fw_files w' = fw_files w @ [r] \<and> fw_file_next w' = fw_file_next w + 1 \<and> fw_tasks w' = fw_tasks w \<and> fw_store w' = fw_store w"
  using assms unfolding record_object_def Let_def bind_s_iff
  by (auto dest!: save_ok simp: draw_uuid_def live_row_def new_file_def)

lemma confirm_ok:
  assumes "confirm_presigned_upload env d user w = (Inr v, w')"
  obtains r h where "s3_head (fe_s3 env) (fw_store w') (fe_bucket env) (pc_object_key d) = Some h"
    "live_row r" "f_bucket r = fe_bucket env" "f_object_key r = pc_object_key d" "f_id r = fu_file_id v"
    "f_size r = unwrap_or (pc_file_size d) (oh_content_length h)" "f_file_md5 r = unwrap_or [] (pc_file_md5 d)"
    "f_provider r = ''S3''" "f_creator_id r = Some user" "f_id r = fw_file_next w"
    "fw_files w' = fw_files w @ [r]" "fw_tasks w' = fw_tasks w" "fw_file_next w' = fw_file_next w + 1"
proof -
  obtain w0 where w0: "ensure_bucket_exists env w = (Inr (), w0)" "fw_files w0 = fw_files w" "fw_tasks w0 = fw_tasks w" "fw_file_next w0 = fw_file_next w"
    by (simp add: ensure_bucket_exists_def)
  obtain h where h: "s3_head (fe_s3 env) (fw_store w0) (fe_bucket env) (pc_object_key d) = Some h"
    "record_object env (pc_object_key d) (pc_original_name d) (pc_file_md5 d) (unwrap_or (pc_file_size d) (oh_content_length h)) h user w0 = (Inr v, w')"
    using assms w0(1) by (auto simp: confirm_presigned_upload_def bind_s_def split: option.splits)
  from record_ok [OF h(2)] h(1) w0 show ?thesis using that [of h] by metis
qed

text \<open>
  Where that can fail: a client confirms an object that waits for its removal and is told the file exists; when
  the worker has removed the object, the new file is live and has none.
\<close>

theorem confirmed_object_lost:
  assumes "k < length (fw_tasks w)" "pk_bucket (fw_tasks w ! k) = fe_bucket env" "pc_object_key d = pk_object_key (fw_tasks w ! k)"
    and "confirm_presigned_upload env d user w = (Inr v, w1)"
    and "\<And>b key st. s3_head (fe_s3 env) (snd (s3_delete (fe_s3 env) b key st)) b key = None"
  shows "\<exists>r \<in> set (fw_files (run_purge env k w1)). f_id r = fu_file_id v \<and> f_deleted_at r = None \<and>
    s3_head (fe_s3 env) (fw_store (run_purge env k w1)) (f_bucket r) (f_object_key r) = None"
proof -
  let ?t = "fw_tasks w ! k"
  obtain r where r: "live_row r" "f_bucket r = fe_bucket env" "f_object_key r = pc_object_key d" "f_id r = fu_file_id v"
    "fw_files w1 = fw_files w @ [r]" "fw_tasks w1 = fw_tasks w"
    by (rule confirm_ok [OF assms(4)]) blast
  let ?w2 = "run_purge env k w1"
  have store: "fw_store ?w2 = snd (s3_delete (fe_s3 env) (pk_bucket ?t) (pk_object_key ?t) (fw_store w1))"
    using assms(1) r(6) by (simp add: run_purge_def Let_def set_file_columns_def split: option.splits)
  have "\<exists>f. fw_files ?w2 = map (\<lambda>x. if f_id x = pk_file_id ?t then f x else x) (fw_files w1) \<and>
    (\<forall>x. f_id (f x) = f_id x \<and> f_deleted_at (f x) = f_deleted_at x \<and> f_bucket (f x) = f_bucket x \<and> f_object_key (f x) = f_object_key x)"
  proof (cases "fst (s3_delete (fe_s3 env) (pk_bucket ?t) (pk_object_key ?t) (fw_store w1))")
    case None
    then show ?thesis using assms(1) r(6)
      by (intro exI [of _ "\<lambda>x. x\<lparr>f_purge_status := ''SUCCESS'', f_purged_at := Some (fe_now env), f_purge_error := None\<rparr>"])
         (simp add: run_purge_def Let_def set_file_columns_def)
  next
    case (Some e)
    then show ?thesis using assms(1) r(6)
      by (intro exI [of _ "\<lambda>x. x\<lparr>f_purge_status := ''FAILED'', f_purge_error := Some e\<rparr>"])
         (simp add: run_purge_def Let_def set_file_columns_def)
  qed
  then obtain f where f: "fw_files ?w2 = map (\<lambda>x. if f_id x = pk_file_id ?t then f x else x) (fw_files w1)"
    "\<And>x. f_id (f x) = f_id x \<and> f_deleted_at (f x) = f_deleted_at x \<and> f_bucket (f x) = f_bucket x \<and> f_object_key (f x) = f_object_key x"
    by blast
  have "(if f_id r = pk_file_id ?t then f r else r) \<in> set (fw_files ?w2)" unfolding f(1) r(5) by simp
  then show ?thesis
    by (rule bexI [rotated]) (use r(1-4) f(2) [of r] assms(2,3,5) store in \<open>simp add: live_row_def\<close>)
qed

theorem confirmed_object_lost_witness:
  "\<exists>v w1. confirm_presigned_upload sample_files_env sample_claim 8 sample_deleted = (Inr v, w1) \<and>
    (\<exists>r \<in> set (fw_files (run_purge sample_files_env 0 w1)). f_id r = fu_file_id v \<and> f_deleted_at r = None \<and>
      s3_head (fe_s3 sample_files_env) (fw_store (run_purge sample_files_env 0 w1)) (f_bucket r) (f_object_key r) = None)"
proof -
  have "returned (confirm_presigned_upload sample_files_env sample_claim 8 sample_deleted)" by code_simp
  then obtain v w1 where c: "confirm_presigned_upload sample_files_env sample_claim 8 sample_deleted = (Inr v, w1)"
    using returnedE by blast
  have t: "fw_tasks sample_deleted = [\<lparr>pk_file_id = 1, pk_bucket = ''b'', pk_object_key = ''k''\<rparr>]" by code_simp
  have gone: "s3_head (fe_s3 sample_files_env) (snd (s3_delete (fe_s3 sample_files_env) b key st)) b key = None" for b key st
    by (auto simp: sample_files_env_def sample_s3_def sample_head_def map_of_eq_None_iff)
  show ?thesis using confirmed_object_lost [OF _ _ _ c gone, of 0] c t by (simp add: sample_claim_def sample_files_env_def)
qed

section \<open>Deleted files\<close>

lemma find_map_key: "(\<And>x. k (g x) = k x) \<Longrightarrow> find (\<lambda>r. k r = i) (map g xs) = map_option g (find (\<lambda>r. k r = i) xs)"
  by (induction xs) auto

definition maps_objects :: "'s file_world \<Rightarrow> 's file_world \<Rightarrow> bool" where
  "maps_objects w w' \<longleftrightarrow> (\<exists>g. fw_files w' = map g (fw_files w) \<and>
     (\<forall>x. f_id (g x) = f_id x \<and> f_bucket (g x) = f_bucket x \<and> f_object_key (g x) = f_object_key x))"

lemma edits_map: "edits T w w' \<Longrightarrow> maps_objects w w'"
  unfolding edits_def maps_objects_def by (elim conjE exE, rule exI, rule conjI, assumption) auto

lemma maps_trans: "maps_objects a b \<Longrightarrow> maps_objects b c \<Longrightarrow> maps_objects a c"
  unfolding maps_objects_def
proof (elim exE conjE)
  fix g h assume "fw_files b = map g (fw_files a)" "\<forall>x. f_id (g x) = f_id x \<and> f_bucket (g x) = f_bucket x \<and> f_object_key (g x) = f_object_key x"
    "fw_files c = map h (fw_files b)" "\<forall>x. f_id (h x) = f_id x \<and> f_bucket (h x) = f_bucket x \<and> f_object_key (h x) = f_object_key x"
  then show "\<exists>f. fw_files c = map f (fw_files a) \<and> (\<forall>x. f_id (f x) = f_id x \<and> f_bucket (f x) = f_bucket x \<and> f_object_key (f x) = f_object_key x)"
    by (intro exI [of _ "h \<circ> g"]) simp
qed

lemma delete_maps: "maps_objects w (snd (delete_file env i u w))"
proof (cases rule: delete_cases [of env i u w])
  case 1
  then show ?thesis unfolding maps_objects_def by (intro exI [of _ id]) simp
next
  case (2 w1)
  then show ?thesis using edits_map by blast
next
  case (3 w1 r w2)
  have "fw_files (snd (delete_file env i u w)) = fw_files w2" using 3(5) by auto
  then show ?thesis using maps_trans [OF edits_map [OF 3(1)] edits_map [OF 3(2)]] by (simp add: maps_objects_def)
qed

text \<open>
  A deleted file can no longer be downloaded through the server, but a signed link to its object is still made,
  the same as before the deletion.
\<close>

theorem deleted_file_still_signed:
  assumes "distinct (map f_id (fw_files w))" "delete_file env i u w = (Inr (), w1)"
  shows "download_file env' i w1 = (Inl (NotFound (Text ''file does not exist'')), w1) \<and>
    fst (generate_presigned_download env' i w1) = fst (generate_presigned_download env' i w)"
proof -
  obtain r where r: "find_file i w = Some r"
    using assms(2) by (auto simp: delete_file_def existing_file_def bind_s_def split: option.splits)
  have "maps_objects w w1" using delete_maps [of w env i u] assms(2) by simp
  then obtain g where g: "fw_files w1 = map g (fw_files w)"
    "\<And>x. f_id (g x) = f_id x \<and> f_bucket (g x) = f_bucket x \<and> f_object_key (g x) = f_object_key x"
    unfolding maps_objects_def by blast
  then have x: "find_file i w1 = Some (g r)" using find_map_key [of f_id g i "fw_files w"] r by (simp add: find_file_def)
  have "\<not> live_row (g r)" using delete_ok_dead [OF assms(2) r assms(1)] find_file_id [OF x] by blast
  then show ?thesis using x r g(2) [of r]
    by (simp add: download_file_def live_file_def existing_file_def bind_s_def result_simps live_row_def generate_presigned_download_def
        presign_download_url_def split: sum.splits option.splits)
qed

theorem deleted_file_still_signed_witness:
  "download_file sample_files_env 1 sample_deleted = (Inl (NotFound (Text ''file does not exist'')), sample_deleted) \<and>
    fst (generate_presigned_download sample_files_env 1 sample_deleted) = fst (generate_presigned_download sample_files_env 1 sample_file_world)"
proof (rule deleted_file_still_signed)
  have "fst (delete_file sample_files_env 1 (Some 7) sample_file_world) = Inr ()" by code_simp
  then show "delete_file sample_files_env 1 (Some 7) sample_file_world = (Inr (), sample_deleted)"
    by (simp add: sample_deleted_def prod_eq_iff)
qed (simp add: sample_file_world_def)

end
