(* ===== verification/File_Upload_Properties.thy ===== *)
theory File_Upload_Properties
  imports File_Properties
begin

text \<open>
  Properties of uploads: the parts the server cuts a file into, resuming an upload in parts, and what a hash that
  the client only claims can do to the upload of another file.
\<close>

section \<open>Cutting into parts\<close>

function chunks :: "nat \<Rightarrow> 'a list \<Rightarrow> 'a list list" where
  "chunks c xs = (if xs = [] \<or> c = 0 then [] else take c xs # chunks c (drop c xs))"
  by pat_completeness auto
termination by (relation "measure (\<lambda>(c, xs). length xs)") auto

declare chunks.simps [simp del]

lemma chunks_simps: "chunks c [] = []" "xs \<noteq> [] \<Longrightarrow> 0 < c \<Longrightarrow> chunks c xs = take c xs # chunks c (drop c xs)"
  by (simp_all add: chunks.simps)

lemma concat_chunks: "0 < c \<Longrightarrow> concat (chunks c xs) = xs"
  by (induction c xs rule: chunks.induct) (subst chunks.simps, auto)

lemma chunk_sizes: "p \<in> set (chunks c xs) \<Longrightarrow> p \<noteq> [] \<and> length p \<le> c"
proof (induction c xs rule: chunks.induct)
  case (1 c xs)
  then show ?case by (cases "xs = [] \<or> c = 0") (auto simp: chunks.simps [of c xs])
qed

lemma div_ceil_step: "0 < c \<Longrightarrow> div_ceil (c + n) c = 1 + div_ceil n (c :: int)"
proof -
  assume c: "0 < c"
  have "c + n + c - 1 = (n + c - 1) + c" by simp
  then show ?thesis using c by (simp only: div_ceil_def div_add_self2)
qed

lemma length_chunks: "0 < c \<Longrightarrow> int (length (chunks c xs)) = div_ceil (int (length xs)) (int c)"
proof (induction c xs rule: chunks.induct)
  case (1 c xs)
  show ?case
  proof (cases "xs = []")
    case True
    then show ?thesis using 1(2) by (simp add: chunks_simps div_ceil_def)
  next
    case False
    have ih: "int (length (chunks c (drop c xs))) = div_ceil (int (length (drop c xs))) (int c)" using 1 False by simp
    show ?thesis
    proof (cases "c \<le> length xs")
      case True
      then have "int (length xs) = int c + int (length (drop c xs))" by simp
      then have "div_ceil (int (length xs)) (int c) = 1 + div_ceil (int (length (drop c xs))) (int c)"
        using 1(2) by (simp only: div_ceil_step)
      then show ?thesis using ih False 1(2) by (simp add: chunks_simps(2))
    next
      case short: False
      obtain k where k: "int (length xs) = k + 1" "0 \<le> k" "k < int c"
        using False short by (intro that [of "int (length xs) - 1"]) (auto simp: neq_Nil_conv)
      then have "div_ceil (int (length xs)) (int c) = (k + int c) div int c" by (simp add: div_ceil_def)
      then have "div_ceil (int (length xs)) (int c) = 1"
        using div_add_self2 [of "int c" k] div_pos_pos_trivial [of k "int c"] k by simp
      then show ?thesis using False short 1(2) by (simp add: chunks_simps)
    qed
  qed
qed

text \<open>Sending given parts, numbered from the first.\<close>

definition send_part :: "'s files_env \<Rightarrow> string \<Rightarrow> string \<Rightarrow> int \<Rightarrow> string \<Rightarrow> ('s, int \<times> string) file_op" where
  "send_part env key upload_id part piece =
     bind_s (on_store (s3_upload_part (fe_s3 env) (fe_bucket env) key upload_id part piece))
       (\<lambda>res. case res of None \<Rightarrow> lift_r (Inl (Internal (Text ''upload part''))) | Some tag \<Rightarrow> ok_s (part, unwrap_or [] tag))"

primrec send_parts :: "'s files_env \<Rightarrow> string \<Rightarrow> string \<Rightarrow> int \<Rightarrow> string list \<Rightarrow> (int \<times> string) list \<Rightarrow> ('s, (int \<times> string) list) file_op" where
  "send_parts env key upload_id part [] acc = ok_s acc"
| "send_parts env key upload_id part (d # ds) acc =
     bind_s (send_part env key upload_id part d) (\<lambda>p. send_parts env key upload_id (part + 1) ds (acc @ [p]))"

lemma bind_run_op: "(\<And>x w1. m w = (Inr x, w1) \<Longrightarrow> f x w1 = Some (g x w1)) \<Longrightarrow> bind_run (run_op m) f w = Some (bind_s m g w)"
  by (auto simp: bind_run_def run_op_def bind_s_def split: prod.splits sum.splits)

lemma upload_parts_send:
  assumes "0 < fe_chunk_size env" "offset \<le> length data" "length data - offset < fuel"
  shows "upload_parts fuel env key upload_id data offset part acc w =
    Some (send_parts env key upload_id part (chunks (nat (fe_chunk_size env)) (drop offset data)) acc w)"
  using assms(2,3)
proof (induction fuel arbitrary: offset part acc w)
  case (Suc n)
  let ?c = "nat (fe_chunk_size env)"
  show ?case
  proof (cases "offset < length data")
    case False
    then show ?thesis by (simp add: chunks_simps run_op_def)
  next
    case True
    let ?e = "part_end env data offset"
    have e: "offset < ?e" "?e \<le> length data" "take (?e - offset) (drop offset data) = take ?c (drop offset data)"
      "drop ?e data = drop ?c (drop offset data)"
      using True assms(1) by (auto simp: part_end_def min_def add.commute)
    have "bind_run (run_op (send_part env key upload_id part (take ?c (drop offset data))))
        (\<lambda>p. upload_parts n env key upload_id data ?e (part + 1) (acc @ [p])) w
      = Some (bind_s (send_part env key upload_id part (take ?c (drop offset data)))
          (\<lambda>p. send_parts env key upload_id (part + 1) (chunks ?c (drop ?e data)) (acc @ [p])) w)"
      by (rule bind_run_op, rule Suc(1)) (use e Suc(3) in simp_all)
    then show ?thesis using True e assms(1) by (simp add: chunks_simps(2) upload_one_def send_part_def)
  qed
qed simp

text \<open>
  C35. A file that goes through the server in parts arrives whole: with a positive part size the loop ends within one
  step more than there are bytes, and it sends, numbered from 1, pieces that are not empty, no longer than the part size and in
  order make up the file; there are as many of them as a client is asked for.
\<close>

theorem server_parts_cover:
  assumes "0 < fe_chunk_size env" "length data < fuel"
    and "int (length data) \<le> u64_max" "div_ceil (int (length data)) (fe_chunk_size env) < 2147483648"
  shows "upload_parts fuel env key upload_id data 0 1 [] w =
      Some (send_parts env key upload_id 1 (chunks (nat (fe_chunk_size env)) data) [] w) \<and>
    concat (chunks (nat (fe_chunk_size env)) data) = data \<and>
    (\<forall>p \<in> set (chunks (nat (fe_chunk_size env)) data). p \<noteq> [] \<and> int (length p) \<le> fe_chunk_size env) \<and>
    int (length (chunks (nat (fe_chunk_size env)) data)) = parts_count env (int (length data))"
proof (intro conjI)
  let ?c = "nat (fe_chunk_size env)"
  show "upload_parts fuel env key upload_id data 0 1 [] w = Some (send_parts env key upload_id 1 (chunks ?c data) [] w)"
    using upload_parts_send [of env 0 data fuel] assms(1,2) by simp
  show "concat (chunks ?c data) = data" by (rule concat_chunks) (use assms(1) in simp)
  show "\<forall>p \<in> set (chunks ?c data). p \<noteq> [] \<and> int (length p) \<le> fe_chunk_size env"
    using chunk_sizes [of _ ?c data] assms(1) by fastforce
  have "0 \<le> div_ceil (int (length data)) (fe_chunk_size env)" using assms(1) by (simp add: div_ceil_def pos_imp_zdiv_nonneg_iff)
  then show "int (length (chunks ?c data)) = parts_count env (int (length data))"
    using length_chunks [of ?c data] assms by (simp add: parts_count_def wrap_i32_id)
qed

theorem server_parts_cover_witness:
  "upload_parts 9 sample_files_env ''m'' ''u'' ''abcde'' 0 1 [] sample_file_world =
      Some (send_parts sample_files_env ''m'' ''u'' 1 (chunks (nat (fe_chunk_size sample_files_env)) ''abcde'') [] sample_file_world) \<and>
    int (length (chunks (nat (fe_chunk_size sample_files_env)) ''abcde'')) = parts_count sample_files_env 5"
  using server_parts_cover [of sample_files_env "''abcde''" 9 "''m''" "''u''" sample_file_world]
  by (simp add: sample_files_env_def u64_max_def div_ceil_def)

section \<open>Resuming\<close>

lemma part_urls_numbers: "part_urls env key uid ns = Inr us \<Longrightarrow> map pt_number us = ns"
  by (induction ns arbitrary: us) (auto simp: bind_r_Inr part_url_of_def split: option.splits)

lemma save_error: "save_file env row w = (Inl e, w') \<Longrightarrow> \<exists>m. e = Internal m"
  by (auto simp: save_file_def bind_s_def insert_file_def presign_download_url_def Let_def result_simps
      split: if_splits option.splits prod.splits sum.splits)

lemma record_error: "record_object env key n md5 sz h user w = (Inl e, w') \<Longrightarrow> \<exists>m. e = Internal m"
  unfolding record_object_def Let_def
  by (auto simp: bind_s_def draw_uuid_def dest: save_error)

lemma bind_s_Inl: "bind_s m f w = (Inl e, w') \<longleftrightarrow> m w = (Inl e, w') \<or> (\<exists>x w1. m w = (Inr x, w1) \<and> f x w1 = (Inl e, w'))"
  by (auto simp: bind_s_def split: prod.splits sum.splits)

lemma complete_error: "complete_or_fail env key uid ps w = (Inl e, w') \<Longrightarrow> \<exists>m. e = Internal m"
  by (auto simp: complete_or_fail_def bind_s_Inl on_store_def result_simps split: prod.splits if_splits)

lemma complete_tail_error:
  assumes "bind_s (complete_or_fail env key uid ps)
      (\<lambda>_ w. case s3_head s (fw_store w) b k of None \<Rightarrow> (Inl (Internal m0), w) | Some h \<Rightarrow> g h w) w = (Inl e, w')"
    and "\<And>h w. g h w = (Inl e, w') \<Longrightarrow> \<exists>m. e = Internal m"
  shows "\<exists>m. e = Internal m"
proof -
  consider "complete_or_fail env key uid ps w = (Inl e, w')"
    | w1 where "(case s3_head s (fw_store w1) b k of None \<Rightarrow> (Inl (Internal m0), w1) | Some h \<Rightarrow> g h w1) = (Inl e, w')"
    using assms(1) unfolding bind_s_Inl by blast
  then show ?thesis by cases (use complete_error assms(2) in \<open>auto split: option.splits\<close>)
qed

lemma pending_part_urls_numbers:
  "pending_part_urls env key uid up ns = Inr us \<Longrightarrow> map pt_number us = filter (\<lambda>n. n \<notin> up) ns"
  by (induction ns arbitrary: us) (auto simp: bind_r_Inr part_url_of_def split: option.splits if_splits)

text \<open>
  C36. Resuming and completing agree: the parts a client is told to send still are exactly the numbers up to the count
  that are not in the store. Once some part is there, completing the upload is refused as incomplete exactly when
  the client would still be told to send parts, and the refusal lists exactly these; with no part in the store
  completing is refused as a bad request instead.
\<close>

theorem resume_agrees_with_complete:
  fixes user :: int and name :: string and md5 :: "string option"
  assumes bucket: "s3_head_bucket (fe_s3 env) (fw_store w) (fe_bucket env)"
    and listed: "list_uploaded_parts fuel env \<lparr>ml_upload_id = uid, ml_object_key = key, ml_file_size = sz\<rparr> w = Some (Inr v, w1)"
  defines "complete \<equiv> complete_multipart_upload fuel env
    \<lparr>mc_upload_id = uid, mc_object_key = key, mc_original_name = name, mc_file_size = sz, mc_file_md5 = md5\<rparr> user w"
  shows "map pt_number (lp_pending_part_urls v) = filter (\<lambda>n. n \<notin> up_number ` set (lp_uploaded_parts v)) [1..parts_count env sz]
    \<and> ((\<exists>m w2. complete = Some (Inl (IncompleteUpload m), w2)) \<longleftrightarrow> lp_uploaded_parts v \<noteq> [] \<and> lp_pending_part_urls v \<noteq> [])
    \<and> (lp_uploaded_parts v \<noteq> [] \<and> lp_pending_part_urls v \<noteq> [] \<longrightarrow>
         (\<exists>w2. complete = Some (Inl (IncompleteUpload (Text (missing_parts_message (map pt_number (lp_pending_part_urls v))))), w2)))
    \<and> (lp_uploaded_parts v = [] \<longrightarrow> (\<exists>m w2. complete = Some (Inl (BadRequest m), w2)))"
proof -
  obtain parts urls where parts: "fetch_all_parts fuel env key uid None [] w = Some (Inr parts, w1)" "fe_chunk_size env \<noteq> 0"
    and urls: "pending_part_urls env key uid (up_number ` set parts) [1..parts_count env sz] = Inr urls"
    and v: "v = \<lparr>lp_uploaded_parts = parts, lp_pending_part_urls = urls, lp_expires_in = fe_presign_expiry env\<rparr>"
    using listed bucket
    by (auto simp: list_uploaded_parts_def bind_run_Some run_op_Some ensure_bucket_exists_def checked_count_def result_simps bind_r_Inr
        split: if_splits)
  define missing where "missing = filter (\<lambda>n. n \<notin> up_number ` set parts) [1..parts_count env sz]"
  have numbers: "map pt_number urls = missing" using pending_part_urls_numbers [OF urls] by (simp add: missing_def)
  then have pending: "urls \<noteq> [] \<longleftrightarrow> missing \<noteq> []" by auto
  have listed_missing: "complete = Some (Inl (IncompleteUpload (Text (missing_parts_message missing))), w1)"
    if "parts \<noteq> []" "missing \<noteq> []"
    using that bucket parts
    by (simp add: complete_def complete_multipart_upload_def bind_run_def run_op_def ensure_bucket_exists_def result_simps
        missing_def [symmetric])
  have none: "\<exists>m w2. complete = Some (Inl (BadRequest m), w2)" if "parts = []"
    using that bucket parts
    by (simp add: complete_def complete_multipart_upload_def bind_run_def run_op_def ensure_bucket_exists_def result_simps)
  have "(\<exists>m w2. complete = Some (Inl (IncompleteUpload m), w2)) \<longleftrightarrow> parts \<noteq> [] \<and> missing \<noteq> []"
  proof (cases "parts \<noteq> [] \<and> missing \<noteq> []")
    case True
    then show ?thesis using listed_missing by blast
  next
    case False
    then have "e \<noteq> IncompleteUpload m" if r: "complete = Some (Inl e, w2)" for e m w2
      using r bucket parts unfolding complete_def
      by (cases "parts = []")
        (auto simp: complete_multipart_upload_def bind_run_def run_op_def ensure_bucket_exists_def result_simps
          missing_def [symmetric] dest!: complete_tail_error dest: record_error)
    then show ?thesis using False by blast
  qed
  then show ?thesis using numbers pending v listed_missing none by (simp add: missing_def)
qed

theorem resume_agrees_with_complete_witness:
  "\<exists>v w1. list_uploaded_parts 9 sample_files_env \<lparr>ml_upload_id = ''u'', ml_object_key = ''m'', ml_file_size = 5\<rparr>
      (sample_file_world\<lparr>fw_store := ([], [(1, ''ab'')])\<rparr>) = Some (Inr v, w1) \<and>
    map pt_number (lp_pending_part_urls v) = filter (\<lambda>n. n \<notin> up_number ` set (lp_uploaded_parts v)) [1..parts_count sample_files_env 5]"
proof -
  let ?w = "sample_file_world\<lparr>fw_store := ([], [(1, ''ab'')])\<rparr>"
  have "returned_run (list_uploaded_parts 9 sample_files_env \<lparr>ml_upload_id = ''u'', ml_object_key = ''m'', ml_file_size = 5\<rparr> ?w)"
    by code_simp
  then obtain v w1 where l: "list_uploaded_parts 9 sample_files_env \<lparr>ml_upload_id = ''u'', ml_object_key = ''m'', ml_file_size = 5\<rparr> ?w
      = Some (Inr v, w1)" using returned_runE by blast
  have "s3_head_bucket (fe_s3 sample_files_env) (fw_store ?w) (fe_bucket sample_files_env)" by (simp add: sample_files_env_def sample_s3_def)
  then show ?thesis using resume_agrees_with_complete [OF _ l] l by blast
qed

section \<open>Claimed hashes\<close>

lemma find_existing_last:
  assumes "fw_files w = rs @ [r]" "\<forall>x \<in> set rs. f_id x < f_id r"
    and "trim md5 = md5" "md5 \<noteq> []" "0 < sz"
    and "f_file_md5 r = md5" "f_size r = sz" "f_provider r = ''S3''" "f_bucket r = fe_bucket env" "live_row r"
  shows "find_existing_object env md5 sz w = Some r"
proof -
  let ?P = "\<lambda>r. f_file_md5 r = md5 \<and> f_size r = sz \<and> f_provider r = ''S3'' \<and> f_bucket r = fe_bucket env \<and> f_deleted_at r = None"
  let ?l = "sort_key (\<lambda>r. - f_id r) (filter ?P (fw_files w))"
  have r: "r \<in> set ?l" using assms by (simp add: live_row_def)
  then obtain x xs where l: "?l = x # xs" by (cases ?l) auto
  have "sorted (map (\<lambda>r. - f_id r) (x # xs))" unfolding l [symmetric] by (rule sorted_sort_key)
  then have "f_id r \<le> f_id x" using r unfolding l by auto
  moreover have "x \<in> set ?l" unfolding l by simp
  then have "x \<in> set (fw_files w)" by simp
  then have "x = r \<or> x \<in> set rs" unfolding assms(1) by auto
  ultimately have "x = r" using assms(2) by fastforce
  then show ?thesis using l assms(3-5) by (simp add: find_existing_object_def Let_def)
qed

text \<open>
  C37. The hash of a confirmed upload is the client's word. When a client confirms an object and claims the hash of
  other data of the same length, the next upload of that data, by anyone, stores nothing: the new file is the
  client's object.
\<close>

theorem claimed_hash_replaces_content:
  assumes confirmed: "confirm_presigned_upload env d user w = (Inr v, w1)" "pc_file_md5 d = Some (fe_md5 env' data)"
    and size: "\<And>h. s3_head (fe_s3 env) (fw_store w1) (fe_bucket env) (pc_object_key d) = Some h \<Longrightarrow>
        oh_content_length h = Some (int (length data))"
    and ids: "\<forall>x \<in> set (fw_files w). f_id x < fw_file_next w"
    and hash: "data \<noteq> []" "trim (fe_md5 env' data) = fe_md5 env' data" "fe_md5 env' data \<noteq> []"
    and same: "fe_s3 env' = fe_s3 env" "fe_bucket env' = fe_bucket env" "s3_head_bucket (fe_s3 env) (fw_store w1) (fe_bucket env)"
    and uploaded: "upload_file fuel env' name ctype data folder user' w1 = Some (Inr v', w2)"
  shows "fw_store w2 = fw_store w1 \<and>
    (\<exists>r \<in> set (fw_files w2). f_id r = fu_file_id v' \<and> f_object_key r = pc_object_key d \<and> f_creator_id r = Some user')"
proof -
  obtain r h where h: "s3_head (fe_s3 env) (fw_store w1) (fe_bucket env) (pc_object_key d) = Some h"
    and r: "live_row r" "f_bucket r = fe_bucket env" "f_object_key r = pc_object_key d"
      "f_size r = unwrap_or (pc_file_size d) (oh_content_length h)" "f_file_md5 r = unwrap_or [] (pc_file_md5 d)"
      "f_provider r = ''S3''" "f_id r = fw_file_next w" "fw_files w1 = fw_files w @ [r]"
    by (rule confirm_ok [OF confirmed(1)]) blast
  have "find_existing_object env' (fe_md5 env' data) (int (length data)) w1 = Some r"
    using r size [OF h] ids hash same confirmed(2) by (intro find_existing_last) (auto simp: unwrap_or_def)
  then obtain u w3 where u: "draw_uuid env' w1 = (Inr u, w3)"
    "save_file env' (new_file (generate_file_no (fe_fmt env') u) ''S3'' (fe_bucket env') (pc_object_key d) (f_etag r) name
       (extract_suffix (fe_lower env') name) (resolve_mime ctype) (int (length data)) (fe_md5 env' data) folder user') w3 = (Inr v', w2)"
    using uploaded same h r(3)
    by (auto simp: upload_file_def Let_def bind_run_Some run_op_Some ensure_bucket_exists_def result_simps bind_s_iff split: if_splits)
  then show ?thesis using save_ok [OF u(2)] by (auto simp: draw_uuid_def new_file_def)
qed

theorem claimed_hash_replaces_content_witness:
  "\<exists>v w2. upload_file 9 sample_files_env ''c.txt'' None ''xyz'' None 3 sample_claimed = Some (Inr v, w2) \<and>
    fw_store w2 = fw_store sample_claimed \<and>
    (\<exists>r \<in> set (fw_files w2). f_id r = fu_file_id v \<and> f_object_key r = pc_object_key sample_claim \<and> f_creator_id r = Some 3)"
proof -
  have "returned (confirm_presigned_upload sample_files_env sample_claim 8 sample_file_world)" by code_simp
  then obtain v0 where c: "confirm_presigned_upload sample_files_env sample_claim 8 sample_file_world = (Inr v0, sample_claimed)"
    using returnedE unfolding sample_claimed_def by blast
  have "returned_run (upload_file 9 sample_files_env ''c.txt'' None ''xyz'' None 3 sample_claimed)" by code_simp
  then obtain v w2 where u: "upload_file 9 sample_files_env ''c.txt'' None ''xyz'' None 3 sample_claimed = Some (Inr v, w2)"
    using returned_runE by blast
  have head: "s3_head (fe_s3 sample_files_env) (fw_store sample_claimed) (fe_bucket sample_files_env) (pc_object_key sample_claim)
      = Some \<lparr>oh_e_tag = Some ''t'', oh_content_length = Some 3, oh_content_type = None\<rparr>" by code_simp
  have "trim ''hxyz'' = ''hxyz''" by code_simp
  then show ?thesis using claimed_hash_replaces_content [OF c _ _ _ _ _ _ _ _ _ u] u head
    by (simp add: sample_claim_def sample_files_env_def sample_file_world_def sample_file_def sample_s3_def new_file_def)
qed

end
