(* ===== verification/Spec2Isabelle.thy ===== *)
theory Spec2Isabelle
  imports Rate_Properties Auth_Permission Auth_Path Auth_Session_Properties Auth_Qr_Properties Auth_Web_Properties Menu_Properties Sql_Properties Table_Properties Dict_Properties Folder_Properties File_Upload_Properties
begin

text \<open>
  A verification development for the core of summerrs-admin, an administration back end in Rust: the
  rate limiter and file helpers of \<^verbatim>\<open>crates/summer-common\<close>, the authentication crate \<^verbatim>\<open>crates/summer-auth\<close>, the menu
  and dictionary services of \<^verbatim>\<open>crates/summer-domain\<close>, the SQL and table tools of \<^verbatim>\<open>crates/summer-mcp\<close>, and the file
  centre of \<^verbatim>\<open>crates/summer-system\<close>.

  \<^bold>\<open>Conventions.\<close> \<open>Result<T, E>\<close> is \<open>'e + 'a\<close> with \<open>Inl\<close> the error; \<open>?\<close> is \<open>bind_r\<close>, and \<open>bind_s\<close> where state is
  passed (\<open>('s, 'e, 'a) sm\<close>, which keeps the state an error leaves behind). Strings are byte lists (UTF-8).
  Integers of the code are words or \<open>int\<close> with saturation and wrap-around written out (\<open>sat_add\<close>, \<open>sat_mul\<close>,
  \<open>wrap_i32\<close>). An operation runs at one instant \<open>now\<close>; concurrency is the order of operations in a run, which
  is faithful where the code holds a lock, retries a compare-exchange or runs one script.

  \<^bold>\<open>Shared.\<close> \<open>Prelude\<close> (results, saturating arithmetic, \<open>str\<close> methods), \<open>Text_Http\<close> (trimming, header values),
  \<open>Api_Error\<close> (\<^verbatim>\<open>summer-auth/src/error.rs\<close>, \<^verbatim>\<open>summer-common/src/error.rs\<close>), \<open>Requests\<close> (validation of requests).

  \<^bold>\<open>Rate limiter\<close>, \<^verbatim>\<open>summer-common/src/rate_limit/\<close>. \<open>Rate_Config\<close> (\<^verbatim>\<open>config.rs\<close>), \<open>Rate_Decision\<close> (\<^verbatim>\<open>decision.rs\<close>),
  \<open>Rate_Memory\<close> (\<^verbatim>\<open>algorithms.rs\<close> on the memory caches), \<open>Rate_Redis\<close> (the Lua scripts and \<open>check_redis\<close>),
  \<open>Rate_Engine\<close> (\<^verbatim>\<open>engine.rs\<close>, \<^verbatim>\<open>reservation.rs\<close>), \<open>Rate_Context\<close> (\<^verbatim>\<open>context.rs\<close>, \<^verbatim>\<open>middleware.rs\<close>). The engine's
  counters, caches and lists are the record \<open>rate_limit_engine\<close>. What one key's state must satisfy is a
  locale: \<open>gcra_cell\<close> (\<open>Gcra_Cell\<close>) and \<open>window_cell\<close>, \<open>slot_cell\<close> (\<open>Window_Cell\<close>). Memory and Redis are both
  interpretations (\<open>Rate_Gcra\<close>, \<open>Rate_Window\<close>), from which bounds on admitted requests, exactness of
  \<open>retry_after\<close> and agreement of the two back ends follow (\<open>Rate_Runs\<close>, \<open>Rate_Properties\<close>). Bounds: clock values
  and waits stay below \<open>2 ^ 52\<close> milliseconds (\<open>valid_time\<close>, \<open>wait_max\<close>), so that every number the scripts form for
  an admitted request is an exact double (\<open>lua_num\<close> rounds all of them), and refunds within the 64-bit range
  (the budget \<open>r\<close> in \<open>mem_inv\<close>). The memory caches forget a key that was idle for \<open>memory_idle\<close> (an hour by
  default); the limits hold where that time covers the state of a key (\<open>idle_covers\<close>), and
  \<open>long_window_limit_exceeded\<close> shows what happens otherwise. A cache holding more than \<open>memory_capacity\<close> keys also drops
  some: a step \<open>cache_evict\<close> of the environment, harmless for the keys it spares (\<open>cache_evict_others\<close>); a run on
  a key is one in which that key is spared.

  \<^bold>\<open>Authentication\<close>, \<^verbatim>\<open>summer-auth/src/\<close>. \<open>Auth_Types\<close> (\<^verbatim>\<open>user_type.rs\<close>, \<^verbatim>\<open>session/model.rs\<close>, \<^verbatim>\<open>config.rs\<close>), \<open>Auth_Permission\<close>
  (\<open>permission_matches\<close>, \<^verbatim>\<open>resource_permission\<close>), \<open>Auth_Bitmap\<close> (\<^verbatim>\<open>bitmap.rs\<close>), \<open>Auth_Path\<close> (\<^verbatim>\<open>path_auth.rs\<close>,
  \<^verbatim>\<open>public_routes.rs\<close>), \<open>Auth_Storage\<close> (the trait \<open>AuthStorage\<close> as the locale \<open>auth_storage\<close>, the memory store as its
  interpretation), \<open>Auth_Token\<close> (\<^verbatim>\<open>token/\<close>), \<open>Auth_Session\<close> (\<^verbatim>\<open>session/manager.rs\<close>), \<open>Auth_Qr\<close> (\<^verbatim>\<open>qrcode.rs\<close>), \<open>Auth_Web\<close>
  (\<^verbatim>\<open>middleware.rs\<close>, \<^verbatim>\<open>extractor.rs\<close>, \<^verbatim>\<open>online.rs\<close>). The manager is the record \<open>session_manager\<close>; its JSON codec, UUID
  source and JWT library are fields, with their documented behaviour as the hypotheses \<open>jwt_lib_ok\<close> and the like.
  \<open>Auth_Session_Laws\<close> proves in the locale \<open>session_store\<close> what each operation does to the store;
  \<open>Auth_Session_Calls\<close> puts the operations into sequences of calls with instants that do not go back, and
  \<open>Auth_Session_Properties\<close>, \<open>Auth_Qr_Properties\<close> and \<open>Auth_Web_Properties\<close> state what holds on every such
  sequence: revocation, bans, single use of refresh tokens, the device limit, the QR state machine, and what
  the authentication middleware answers to a revoked token.

  \<^bold>\<open>Menus\<close>, \<^verbatim>\<open>summer-domain/src/menu.rs\<close> with \<^verbatim>\<open>sync.rs\<close> and the request and view types of \<^verbatim>\<open>summer-system/model\<close>.
  \<open>Sync_Plan\<close>, \<open>Menu_Model\<close> (rows, requests, declarative configuration), \<open>Menu_Service\<close> (validation, plan, apply, single
  row operations, permission map, menu tree, over the record \<open>menu_world\<close>), \<open>Menu_Items\<close> (a configuration as
  the list of its entries in the order of the code). The data base is a list of rows; \<open>accepts\<close> says which
  rows it takes; a failed transaction leaves the rows as they were. \<open>Menu_Apply\<close> shows what applying one entry
  does, \<open>Menu_Calls\<close> and \<open>Menu_Invariants\<close> put the operations into sequences of calls, \<open>Menu_Tree\<close> that the tree
  needs one level of fuel more than there are rows. \<open>Menu_Properties\<close>: an applied configuration plans as
  unchanged, bit positions stay distinct, a user's tree shows granted menus only.

  \<^bold>\<open>Dictionaries\<close>, \<^verbatim>\<open>summer-domain/src/dict.rs\<close>. \<open>Requests\<close> (length checks and optional fields of requests, shared),
  \<open>Dict_Model\<close> (rows, requests, views, bundles), \<open>Dict_Service\<close> (bundles with validation, plan and apply, single rows,
  queries, over the two tables of \<open>dict_world\<close>), \<open>Dict_Laws\<close> (every write is a step of a relation on the tables),
  \<open>Dict_Properties\<close>: convergence of bundles where item values are unique, distinct codes, untouched system rows.

  \<^bold>\<open>SQL and table tools\<close>, \<^verbatim>\<open>summer-mcp/src/table_tools/\<close>. \<open>Sql_Scanner\<close> (\<^verbatim>\<open>sql_scanner.rs\<close>), with the grammar of lexemes
  it implements in \<open>Sql_Lexemes\<close>; \<open>Table_Schema\<close> (\<^verbatim>\<open>schema.rs\<close>), \<open>Table_Query\<close> (\<^verbatim>\<open>query_builder.rs\<close>), \<open>Table_Tools\<close> (the tools of
  \<^verbatim>\<open>router.rs\<close> over a data base that is a parameter; the traced one records the statements it is sent), with
  \<open>Table_Fragments\<close>, \<open>Table_Statements\<close> and \<open>Table_Safety\<close> for the shape of the built text. \<open>Sql_Properties\<close>: the scanner agrees
  with the grammar and the guard accepts what it means to; \<open>Table_Properties\<close>: every statement sent consists of keywords,
  quoted names of allowed columns and numbered placeholders. JSON and its numbers are parameters (\<open>serde_json\<close>).

  \<^bold>\<open>Files\<close>, \<^verbatim>\<open>summer-common/src/file_util.rs\<close> and the three file services of \<^verbatim>\<open>summer-system/src/service\<close>. \<open>File_Names\<close>
  (object keys, suffixes, client paths), \<open>File_Model\<close> (rows, requests, views), \<open>File_Store\<close> (tables, the queue of background
  tasks, the object store as a record of operations over a state of any type), \<open>File_Service\<close> (lists, links,
  deletion, the worker, folders and their tree), \<open>File_Upload\<close> (uploads and downloads). Loops over pages and parts
  have fuel and return \<open>None\<close> when it runs out; a file of n bytes needs n + 1, a tree one more than there are
  folders. \<open>File_Laws\<close>: what the code relies on in the store (\<open>s3_laws\<close>) and that uploads only add live rows with
  objects (\<open>grows\<close>); \<open>File_Runs\<close>: sequences of calls, workers and clients with signed links; \<open>File_Samples\<close>: a store of
  lists for the witnesses. \<open>File_Properties\<close>, \<open>File_Upload_Properties\<close> and \<open>Folder_Properties\<close>: withdrawn links, objects of live
  files and where they can be lost, parts, claimed hashes, names, counts in the folder tree, folders of a path.

  \<^bold>\<open>Not modelled.\<close> The MCP code generators (text through a template engine and files of the host), the routers and
  the remaining services over the data base, Socket.IO, the runtime's tasks and channels, the reading of
  multipart requests: I/O, text templates and glue. Uploads of a batch run at the same time in the code and one
  after the other here. Messages of errors are short texts in place of the code's. The choice of the keys
  a full memory cache drops is left to the environment (\<open>cache_evict\<close>).
\<close>

end
